(* ===== verification/Prelude.thy ===== *)
theory Prelude
  imports Main "HOL-Library.List_Lexorder" "HOL-Library.Char_ord" "HOL-Library.AList" "HOL-Library.Multiset"
    "HOL-Library.Code_Target_Nat"
begin

text \<open>
  Shared vocabulary of the development: Python exceptions as values of \<open>exn\<close>, fallible
  computations as \<open>'a res = exn + 'a\<close>, Python values as \<open>pyval\<close>, dictionaries as association
  lists in insertion order, strings as their UTF-8 bytes, and the facts about these that the
  component theories rely on.

  Conventions. A Python \<open>str\<close> is modelled by its UTF-8 bytes; a lone surrogate (which
  \<open>str\<close> admits and UTF-8 does not) is its three-byte generalised encoding, so that
  \<open>s.encode('utf-8')\<close> is the check \<open>has_surrogate\<close> and the byte length is \<open>length\<close>. Byte order
  and code point order agree, so \<open>sorted\<close> on strings is \<open>sort\<close>. Exception messages are kept
  without the values Python interpolates into them.
\<close>

section \<open>Results\<close>

text \<open>
  One constructor per exception class the modelled code raises or lets pass. The exceptions
  of \<open>sqlite3\<close>, of the operating system and of anything else outside the model are
  \<open>ExternalError\<close>.
\<close>

datatype exn =
    CanonicalizationError string
  | JSONDecodeError
  | UnicodeDecodeError
  | UnicodeEncodeError
  | ValueError string
  | TypeError string
  | KeyError string
  | IndexError
  | AttributeError string
  | ValidationError string
  | PolicySynthesisError string
  | PolicyCompilationError string
  | DecayError string
  | CapabilityError string
  | CapabilityConsumptionError string
  | AttestationError string
  | EffectJournalError string
  | EffectAlreadyReserved string
  | FencedRecipientError string
  | FencedRecipientBindingError string
  | HardwareFailSafeError string
  | EmergencyStopError string
  | RecorderIntegrityError string
  | CanaryError string
  | DenialCertificateError string
  | AuthorizationDenied string
  | InjectedFault string string
  | ProtocolError string string
  | EOFError
  | PermissionError string
  | RuntimeError string
  | ExternalError string
  | OutOfFuel

type_synonym 'a res = "exn + 'a"

text \<open>\<open>except ValueError\<close> catches the subclasses too; \<open>PermissionError\<close> is an \<open>OSError\<close>.\<close>

fun is_value_error :: "exn \<Rightarrow> bool" where
  "is_value_error (CanonicalizationError _) = True"
| "is_value_error JSONDecodeError = True"
| "is_value_error UnicodeDecodeError = True"
| "is_value_error UnicodeEncodeError = True"
| "is_value_error (ValueError _) = True"
| "is_value_error (ValidationError _) = True"
| "is_value_error (ProtocolError _ _) = True"
| "is_value_error _ = False"

fun is_type_error :: "exn \<Rightarrow> bool" where
  "is_type_error (TypeError _) = True"
| "is_type_error _ = False"

fun is_permission_error :: "exn \<Rightarrow> bool" where
  "is_permission_error (PermissionError _) = True"
| "is_permission_error (PolicyCompilationError _) = True"
| "is_permission_error (DecayError _) = True"
| "is_permission_error (CapabilityError _) = True"
| "is_permission_error (EmergencyStopError _) = True"
| "is_permission_error (CanaryError _) = True"
| "is_permission_error (AuthorizationDenied _) = True"
| "is_permission_error _ = False"

definition value_or_type_error :: "exn \<Rightarrow> bool" where
  "value_or_type_error e \<longleftrightarrow> is_value_error e \<or> is_type_error e"

primrec bindE :: "'a res \<Rightarrow> ('a \<Rightarrow> 'b res) \<Rightarrow> 'b res" where
  "bindE (Inl e) f = Inl e"
| "bindE (Inr x) f = f x"

text \<open>\<open>checkE c e\<close> is \<open>if c: raise e\<close>; \<open>seqE\<close> runs a list of such statements in order.\<close>

definition checkE :: "bool \<Rightarrow> exn \<Rightarrow> unit res" where
  "checkE c e = (if c then Inl e else Inr ())"

primrec seqE :: "unit res list \<Rightarrow> unit res" where
  "seqE [] = Inr ()"
| "seqE (r # rs) = bindE r (\<lambda>_. seqE rs)"

primrec sequenceE :: "'a res list \<Rightarrow> 'a list res" where
  "sequenceE [] = Inr []"
| "sequenceE (r # rs) = bindE r (\<lambda>x. bindE (sequenceE rs) (\<lambda>xs. Inr (x # xs)))"

definition unitE :: "'a res \<Rightarrow> unit res" where
  "unitE r = bindE r (\<lambda>_. Inr ())"

text \<open>\<open>try: r except C: raise e\<close>.\<close>

definition catchE :: "'a res \<Rightarrow> (exn \<Rightarrow> bool) \<Rightarrow> exn \<Rightarrow> 'a res" where
  "catchE r c e = (case r of Inl e' \<Rightarrow> if c e' then Inl e else Inl e' | Inr x \<Rightarrow> Inr x)"

definition okE :: "'a res \<Rightarrow> bool" where
  "okE r \<longleftrightarrow> (case r of Inl _ \<Rightarrow> False | Inr _ \<Rightarrow> True)"

named_theorems res_simps \<open>success and failure of results\<close>

lemma bindE_Inr_iff [res_simps]: "bindE r f = Inr y \<longleftrightarrow> (\<exists>x. r = Inr x \<and> f x = Inr y)"
  by (cases r) auto

lemma bindE_Inl_iff [res_simps]: "bindE r f = Inl e \<longleftrightarrow> r = Inl e \<or> (\<exists>x. r = Inr x \<and> f x = Inl e)"
  by (cases r) auto

lemma bindE_assoc: "bindE (bindE r f) g = bindE r (\<lambda>x. bindE (f x) g)"
  by (cases r) auto

lemma bindE_cong [fundef_cong]:
  "r = r' \<Longrightarrow> (\<And>x. r' = Inr x \<Longrightarrow> f x = g x) \<Longrightarrow> bindE r f = bindE r' g"
  by (cases r') auto

lemma checkE_Inr_iff [res_simps]: "checkE c e = Inr u \<longleftrightarrow> \<not> c"
  by (auto simp: checkE_def)

lemma checkE_simps [simp]: "checkE False e = Inr ()" "checkE True e = Inl e"
  by (simp_all add: checkE_def)

lemma seqE_Inr_iff [res_simps]: "seqE rs = Inr u \<longleftrightarrow> (\<forall>r \<in> set rs. r = Inr ())"
  by (induction rs) (auto simp: bindE_Inr_iff)

lemma seqE_append: "seqE (xs @ ys) = bindE (seqE xs) (\<lambda>_. seqE ys)"
  by (induction xs) (auto simp: bindE_assoc)

lemma unitE_Inr_iff [res_simps]: "unitE r = Inr u \<longleftrightarrow> (\<exists>x. r = Inr x)"
  by (auto simp: unitE_def bindE_Inr_iff)

lemma sequenceE_Inr_iff [res_simps]: "sequenceE rs = Inr xs \<longleftrightarrow> rs = map Inr xs"
  by (induction rs arbitrary: xs) (auto simp: bindE_Inr_iff)

lemma sequenceE_map_Inr [simp]: "sequenceE (map Inr xs) = Inr xs"
  by (simp add: sequenceE_Inr_iff)

lemma catchE_Inr_iff [res_simps]: "catchE r c e = Inr x \<longleftrightarrow> r = Inr x"
  by (cases r) (auto simp: catchE_def)

lemma okE_iff [res_simps]: "okE r \<longleftrightarrow> (\<exists>x. r = Inr x)"
  by (cases r) (auto simp: okE_def)

section \<open>Operations with state\<close>

text \<open>Operations with state and exceptions: the state reached before an exception is kept.\<close>

definition bindS :: "('s \<Rightarrow> 'a res \<times> 's) \<Rightarrow> ('a \<Rightarrow> 's \<Rightarrow> 'b res \<times> 's) \<Rightarrow> 's \<Rightarrow> 'b res \<times> 's" where
  "bindS m f s = (case m s of (Inl e, s') \<Rightarrow> (Inl e, s') | (Inr x, s') \<Rightarrow> f x s')"

definition liftS :: "'a res \<Rightarrow> 's \<Rightarrow> 'a res \<times> 's" where
  "liftS r s = (r, s)"

primrec seqS :: "('s \<Rightarrow> unit res \<times> 's) list \<Rightarrow> 's \<Rightarrow> unit res \<times> 's" where
  "seqS [] s = (Inr (), s)"
| "seqS (m # ms) s = bindS m (\<lambda>_. seqS ms) s"

named_theorems state_simps \<open>success of operations with state\<close>

lemma bindS_Inr [state_simps]: "bindS m f s = (Inr y, s'') \<longleftrightarrow> (\<exists>x s'. m s = (Inr x, s') \<and> f x s' = (Inr y, s''))"
  by (auto simp: bindS_def split: prod.splits sum.splits)

lemma liftS_Inr [state_simps]: "liftS r s = (Inr y, s') \<longleftrightarrow> r = Inr y \<and> s' = s"
  by (auto simp: liftS_def)

section \<open>Python values\<close>

text \<open>
  The dynamic values the code inspects with \<open>isinstance\<close>. A finite float is represented by its
  \<open>repr\<close>, which determines it; \<open>POther\<close> is a value of a type the code does not handle, by the
  name of the type. Dictionaries have string keys, in insertion order.
\<close>

datatype pyfloat = FNaN | FInf | FNegZero | FFinite string

datatype pyval =
    PNone
  | PBool bool
  | PInt int
  | PFloat pyfloat
  | PStr string
  | PList "pyval list"
  | PTuple "pyval list"
  | PDict "(string \<times> pyval) list"
  | POther string

type_synonym dict = "(string \<times> pyval) list"

fun is_str :: "pyval \<Rightarrow> bool" where
  "is_str (PStr _) = True"
| "is_str _ = False"

text \<open>\<open>isinstance(v, Mapping)\<close>.\<close>

fun is_mapping :: "pyval \<Rightarrow> bool" where
  "is_mapping (PDict _) = True"
| "is_mapping _ = False"

text \<open>\<open>type(v) is int\<close>: booleans are excluded.\<close>

fun is_int :: "pyval \<Rightarrow> bool" where
  "is_int (PInt _) = True"
| "is_int _ = False"

text \<open>Truth value testing, as in \<open>if not v\<close>.\<close>

fun truthy :: "pyval \<Rightarrow> bool" where
  "truthy PNone = False"
| "truthy (PBool b) = b"
| "truthy (PInt i) = (i \<noteq> 0)"
| "truthy (PFloat f) = (f \<noteq> FNegZero \<and> f \<noteq> FFinite ''0.0'')"
| "truthy (PStr s) = (s \<noteq> [])"
| "truthy (PList xs) = (xs \<noteq> [])"
| "truthy (PTuple xs) = (xs \<noteq> [])"
| "truthy (PDict m) = (m \<noteq> [])"
| "truthy (POther t) = True"

text \<open>Dictionary operations: \<open>m[k]\<close>, \<open>m.get(k)\<close>, \<open>set(m)\<close>.\<close>

definition dict_get :: "dict \<Rightarrow> string \<Rightarrow> pyval" where
  "dict_get m k = (case map_of m k of None \<Rightarrow> PNone | Some v \<Rightarrow> v)"

definition dict_item :: "dict \<Rightarrow> string \<Rightarrow> pyval res" where
  "dict_item m k = (case map_of m k of None \<Rightarrow> Inl (KeyError k) | Some v \<Rightarrow> Inr v)"

definition dict_keys :: "('k \<times> 'v) list \<Rightarrow> 'k set" where
  "dict_keys m = set (map fst m)"

lemma dict_get_Nil [simp]: "dict_get [] k = PNone"
  and dict_get_Cons [simp]: "dict_get ((k', v) # m) k = (if k' = k then v else dict_get m k)"
  by (simp_all add: dict_get_def)

text \<open>\<open>sorted({...})\<close> and the membership test of a tuple.\<close>

definition sorted_set :: "string list \<Rightarrow> string list" where
  "sorted_set xs = sort (remdups xs)"

definition subset_list :: "'a list \<Rightarrow> 'a list \<Rightarrow> bool" where
  "subset_list xs ys \<longleftrightarrow> list_all (\<lambda>x. List.member ys x) xs"

definition set_eq_list :: "'a list \<Rightarrow> 'a list \<Rightarrow> bool" where
  "set_eq_list xs ys \<longleftrightarrow> subset_list xs ys \<and> subset_list ys xs"

lemma subset_list_iff [simp]: "subset_list xs ys \<longleftrightarrow> set xs \<subseteq> set ys"
  by (auto simp: subset_list_def list_all_iff)

lemma set_eq_list_iff [simp]: "set_eq_list xs ys \<longleftrightarrow> set xs = set ys"
  by (auto simp: set_eq_list_def)

lemma set_sorted_set [simp]: "set (sorted_set xs) = set xs"
  by (simp add: sorted_set_def)

lemma distinct_sorted_set [simp]: "distinct (sorted_set xs)"
  by (simp add: sorted_set_def)

lemma sorted_sorted_set [simp]: "sorted (sorted_set xs)"
  by (simp add: sorted_set_def)

lemma length_sorted_set: "length (sorted_set xs) \<le> length xs"
  by (simp add: sorted_set_def length_remdups_leq)

lemma sorted_set_id: "sorted xs \<Longrightarrow> distinct xs \<Longrightarrow> sorted_set xs = xs"
  by (simp add: sorted_set_def distinct_remdups_id sorted_sort_id)

section \<open>Character classes\<close>

definition is_hex_lower :: "char \<Rightarrow> bool" where
  "is_hex_lower c \<longleftrightarrow> (CHR ''0'' \<le> c \<and> c \<le> CHR ''9'') \<or> (CHR ''a'' \<le> c \<and> c \<le> CHR ''f'')"

definition is_b64url :: "char \<Rightarrow> bool" where
  "is_b64url c \<longleftrightarrow> (CHR ''0'' \<le> c \<and> c \<le> CHR ''9'') \<or> (CHR ''a'' \<le> c \<and> c \<le> CHR ''z'')
     \<or> (CHR ''A'' \<le> c \<and> c \<le> CHR ''Z'') \<or> c = CHR ''_'' \<or> c = CHR ''-''"

text \<open>The regular expressions \<open>[0-9a-f]{n}\<close> and \<open>prefix[0-9a-f]{n}\<close> under \<open>fullmatch\<close>.\<close>

definition hex_n :: "nat \<Rightarrow> string \<Rightarrow> bool" where
  "hex_n n s \<longleftrightarrow> length s = n \<and> list_all is_hex_lower s"

definition prefixed_hex :: "string \<Rightarrow> nat \<Rightarrow> string \<Rightarrow> bool" where
  "prefixed_hex p n s \<longleftrightarrow> take (length p) s = p \<and> hex_n n (drop (length p) s)"

text \<open>\<open>s.encode('utf-8')\<close> fails exactly on a lone surrogate.\<close>

fun has_surrogate :: "string \<Rightarrow> bool" where
  "has_surrogate (a # b # r) = ((of_char a = (0xED::nat) \<and> 0xA0 \<le> (of_char b :: nat)) \<or> has_surrogate (b # r))"
| "has_surrogate _ = False"

definition utf8_encode :: "string \<Rightarrow> string res" where
  "utf8_encode s = (if has_surrogate s then Inl UnicodeEncodeError else Inr s)"

lemma utf8_encode_Inr_iff [res_simps]: "utf8_encode s = Inr t \<longleftrightarrow> \<not> has_surrogate s \<and> t = s"
  by (auto simp: utf8_encode_def)

section \<open>Attenuation\<close>

text \<open>
  The contract that everything that narrows authority obeys: an order on authorities, and steps that
  never leave what they start from. Whoever applies steps one after the other can only narrow.
\<close>

locale attenuation =
  fixes le :: "'a \<Rightarrow> 'a \<Rightarrow> bool" and step :: "'a \<Rightarrow> 's \<Rightarrow> 'a"
  assumes le_refl: "le a a"
    and le_trans: "le a b \<Longrightarrow> le b c \<Longrightarrow> le a c"
    and step_le: "le (step a s) a"
begin

lemma foldl_le: "le (foldl step a ss) a"
proof (induction ss arbitrary: a)
  case (Cons s ss)
  then show ?case using le_trans step_le by fastforce
qed (simp add: le_refl)

lemma foldl_append_le: "le (foldl step a (ss @ ts)) (foldl step a ss)"
  by (simp add: foldl_le)

end

end
