(* ===== verification/Json.thy ===== *)
theory Json
  imports Prelude
begin

text \<open>
  The part of Python's \<open>json\<close> module that the code uses: \<open>json.dumps\<close> with sorted keys,
  compact separators and \<open>ensure_ascii=False\<close>, and \<open>json.loads\<close> with its hooks for floats, for the
  constants \<open>NaN\<close>/\<open>Infinity\<close> and for the pairs of an object; \<open>canonical.py\<close> rejects all three kinds. The scanner works on the bytes of the text; it
  takes fuel, and \<open>loads_enough_fuel\<close> shows that what \<open>loads\<close> passes is enough. The main
  result is that the scanner inverts the printer.
\<close>

section \<open>Printing\<close>

definition digit :: "nat \<Rightarrow> char" where
  "digit n = char_of (48 + n)"

fun nat_repr :: "nat \<Rightarrow> string" where
  "nat_repr n = (if n < 10 then [digit n] else nat_repr (n div 10) @ [digit (n mod 10)])"

declare nat_repr.simps [simp del]

definition int_repr :: "int \<Rightarrow> string" where
  "int_repr i = (if i < 0 then CHR ''-'' # nat_repr (nat (- i)) else nat_repr (nat i))"

definition hex_digit :: "nat \<Rightarrow> char" where
  "hex_digit n = (if n < 10 then char_of (48 + n) else char_of (87 + n))"

text \<open>The escapes of \<open>py_encode_basestring\<close>: quote, backslash and the control characters.\<close>

definition escape_char :: "char \<Rightarrow> string" where
  "escape_char c =
     (if c = CHR 0x22 then [CHR 0x5C, CHR 0x22]
      else if c = CHR 0x5C then [CHR 0x5C, CHR 0x5C]
      else if c = CHR 0x0A then [CHR 0x5C, CHR ''n'']
      else if c = CHR 0x0D then [CHR 0x5C, CHR ''r'']
      else if c = CHR 0x09 then [CHR 0x5C, CHR ''t'']
      else if c = CHR 0x0C then [CHR 0x5C, CHR ''f'']
      else if c = CHR 0x08 then [CHR 0x5C, CHR ''b'']
      else if (of_char c :: nat) < 32 then
        [CHR 0x5C, CHR ''u'', CHR ''0'', CHR ''0'',
         hex_digit (of_char c div 16), hex_digit (of_char c mod 16)]
      else [c])"

definition quote :: "string \<Rightarrow> string" where
  "quote s = CHR 0x22 # concat (map escape_char s) @ [CHR 0x22]"

fun join :: "string list \<Rightarrow> string" where
  "join [] = []"
| "join [x] = x"
| "join (x # y # xs) = x @ CHR '','' # join (y # xs)"

fun dumps :: "pyval \<Rightarrow> string res"
  and dumps_items :: "pyval list \<Rightarrow> string res list"
  and dumps_fields :: "(string \<times> pyval) list \<Rightarrow> (string \<times> string res) list"
where
  "dumps PNone = Inr ''null''"
| "dumps (PBool b) = Inr (if b then ''true'' else ''false'')"
| "dumps (PInt i) = Inr (int_repr i)"
| "dumps (PFloat f) =
     (case f of FFinite r \<Rightarrow> Inr r | FNegZero \<Rightarrow> Inr ''-0.0''
      | _ \<Rightarrow> Inl (ValueError ''Out of range float values are not JSON compliant''))"
| "dumps (PStr s) = Inr (quote s)"
| "dumps (PList xs) = bindE (sequenceE (dumps_items xs)) (\<lambda>ts. Inr (CHR ''['' # join ts @ [CHR '']'']))"
| "dumps (PTuple xs) = bindE (sequenceE (dumps_items xs)) (\<lambda>ts. Inr (CHR ''['' # join ts @ [CHR '']'']))"
| "dumps (PDict m) =
     bindE (sequenceE (map (\<lambda>(k, r). bindE r (\<lambda>t. Inr (quote k @ CHR '':'' # t)))
                          (sort_key fst (dumps_fields m))))
       (\<lambda>ts. Inr (CHR ''{'' # join ts @ [CHR ''}'']))"
| "dumps (POther t) = Inl (TypeError ''Object is not JSON serializable'')"
| "dumps_items [] = []"
| "dumps_items (x # xs) = dumps x # dumps_items xs"
| "dumps_fields [] = []"
| "dumps_fields ((k, v) # m) = (k, dumps v) # dumps_fields m"

section \<open>Scanning\<close>

fun skip_ws :: "string \<Rightarrow> string" where
  "skip_ws [] = []"
| "skip_ws (c # cs) =
     (if c = CHR '' '' \<or> c = CHR 0x09 \<or> c = CHR 0x0A \<or> c = CHR 0x0D then skip_ws cs else c # cs)"

definition is_digit :: "char \<Rightarrow> bool" where
  "is_digit c \<longleftrightarrow> CHR ''0'' \<le> c \<and> c \<le> CHR ''9''"

definition digit_val :: "char \<Rightarrow> nat" where
  "digit_val c = of_char c - 48"

definition digits_val :: "string \<Rightarrow> nat" where
  "digits_val ds = foldl (\<lambda>a c. 10 * a + digit_val c) 0 ds"

text \<open>
  The hooks of \<open>json.loads\<close>: what becomes of the text of a float, of a constant, and of the pairs
  of an object.
\<close>

record hooks =
  hk_float :: "string \<Rightarrow> pyval res"
  hk_constant :: "string \<Rightarrow> pyval res"
  hk_object :: "(string \<times> pyval) list \<Rightarrow> dict res"

text \<open>
  A number is \<open>-?(0|[1-9][0-9]*)\<close> with an optional fraction and exponent; a text with either is
  a float, which goes to the hook. \<open>int()\<close> refuses more than 4300 digits.
\<close>

definition frac_len :: "string \<Rightarrow> nat" where
  "frac_len cs = (case cs of
     c # ds \<Rightarrow> if c = CHR ''.'' \<and> takeWhile is_digit ds \<noteq> [] then Suc (length (takeWhile is_digit ds)) else 0
   | [] \<Rightarrow> 0)"

definition exp_len :: "string \<Rightarrow> nat" where
  "exp_len cs = (case cs of
     c # ds \<Rightarrow>
       if c = CHR ''e'' \<or> c = CHR ''E'' then
         (let sgn = (case ds of s # _ \<Rightarrow> if s = CHR ''+'' \<or> s = CHR ''-'' then 1 else 0 | [] \<Rightarrow> 0);
              n = length (takeWhile is_digit (drop sgn ds))
          in if n = 0 then 0 else Suc (sgn + n))
       else 0
   | [] \<Rightarrow> 0)"

definition int_digits :: "string \<Rightarrow> string" where
  "int_digits cs = (case cs of c # _ \<Rightarrow> if c = CHR ''0'' then [c] else takeWhile is_digit cs | [] \<Rightarrow> [])"

definition scan_number :: "hooks \<Rightarrow> string \<Rightarrow> (pyval \<times> string) res" where
  "scan_number K cs =
     (let neg = (case cs of c # _ \<Rightarrow> c = CHR ''-'' | [] \<Rightarrow> False);
          body = (if neg then tl cs else cs);
          ds = int_digits body;
          rest = drop (length ds) body;
          tail = frac_len rest + exp_len (drop (frac_len rest) rest)
      in if ds = [] then Inl JSONDecodeError
         else if tail > 0 then
           bindE (hk_float K ((if neg then [CHR ''-''] else []) @ ds @ take tail rest)) (\<lambda>v. Inr (v, drop tail rest))
         else if length ds > 4300 then Inl (ValueError ''Exceeds the limit for integer string conversion'')
         else Inr (PInt (if neg then - int (digits_val ds) else int (digits_val ds)), rest))"

definition hex_val :: "char \<Rightarrow> nat option" where
  "hex_val c =
     (if CHR ''0'' \<le> c \<and> c \<le> CHR ''9'' then Some (of_char c - 48)
      else if CHR ''a'' \<le> c \<and> c \<le> CHR ''f'' then Some (of_char c - 87)
      else if CHR ''A'' \<le> c \<and> c \<le> CHR ''F'' then Some (of_char c - 55)
      else None)"

text \<open>The generalised UTF-8 bytes of a code point.\<close>

definition utf8_of :: "nat \<Rightarrow> string" where
  "utf8_of u =
     (if u < 0x80 then [char_of u]
      else if u < 0x800 then [char_of (0xC0 + u div 64), char_of (0x80 + u mod 64)]
      else if u < 0x10000 then
        [char_of (0xE0 + u div 4096), char_of (0x80 + u div 64 mod 64), char_of (0x80 + u mod 64)]
      else [char_of (0xF0 + u div 262144), char_of (0x80 + u div 4096 mod 64),
            char_of (0x80 + u div 64 mod 64), char_of (0x80 + u mod 64)])"

definition hex4 :: "string \<Rightarrow> nat option" where
  "hex4 cs = (case cs of
     a # b # c # d # _ \<Rightarrow>
       (case (hex_val a, hex_val b, hex_val c, hex_val d) of
          (Some w, Some x, Some y, Some z) \<Rightarrow> Some (4096 * w + 256 * x + 16 * y + z)
        | _ \<Rightarrow> None)
   | _ \<Rightarrow> None)"

definition unescape :: "char \<Rightarrow> char option" where
  "unescape e =
     (if e = CHR 0x22 \<or> e = CHR 0x5C \<or> e = CHR ''/'' then Some e
      else if e = CHR ''b'' then Some (CHR 0x08)
      else if e = CHR ''f'' then Some (CHR 0x0C)
      else if e = CHR ''n'' then Some (CHR 0x0A)
      else if e = CHR ''r'' then Some (CHR 0x0D)
      else if e = CHR ''t'' then Some (CHR 0x09)
      else None)"

text \<open>
  A \<open>\u\<close> escape, after the \<open>u\<close>: its bytes and the number of characters consumed. A high surrogate
  is joined with a following escaped low surrogate.
\<close>

definition scan_u :: "string \<Rightarrow> (string \<times> nat) option" where
  "scan_u cs = (case hex4 cs of
     None \<Rightarrow> None
   | Some u \<Rightarrow>
       (if 0xD800 \<le> u \<and> u < 0xDC00 \<and> take 2 (drop 4 cs) = [CHR 0x5C, CHR ''u''] then
          (case hex4 (drop 6 cs) of
             None \<Rightarrow> None
           | Some v \<Rightarrow>
               if 0xDC00 \<le> v \<and> v < 0xE000
               then Some (utf8_of (0x10000 + (u - 0xD800) * 1024 + (v - 0xDC00)), 10)
               else Some (utf8_of u, 4))
        else Some (utf8_of u, 4)))"

text \<open>The contents of a string after its opening quote, and the rest of the text.\<close>

fun scan_string :: "nat \<Rightarrow> string \<Rightarrow> (string \<times> string) res" where
  "scan_string 0 cs = Inl OutOfFuel"
| "scan_string (Suc n) cs = (case cs of
     [] \<Rightarrow> Inl JSONDecodeError
   | c # cs' \<Rightarrow>
       if c = CHR 0x22 then Inr ([], cs')
       else if c = CHR 0x5C then
         (case cs' of
            [] \<Rightarrow> Inl JSONDecodeError
          | e # es \<Rightarrow>
              if e = CHR ''u'' then
                (case scan_u es of
                   None \<Rightarrow> Inl JSONDecodeError
                 | Some (bs, k) \<Rightarrow> bindE (scan_string n (drop k es)) (\<lambda>(s, r). Inr (bs @ s, r)))
              else (case unescape e of
                  None \<Rightarrow> Inl JSONDecodeError
                | Some d \<Rightarrow> bindE (scan_string n es) (\<lambda>(s, r). Inr (d # s, r))))
       else if (of_char c :: nat) < 32 then Inl JSONDecodeError
       else bindE (scan_string n cs') (\<lambda>(s, r). Inr (c # s, r)))"

text \<open>\<open>_object_without_duplicates\<close>: the hook called with the pairs of each object.\<close>

fun object_without_duplicates :: "(string \<times> pyval) list \<Rightarrow> dict \<Rightarrow> dict res" where
  "object_without_duplicates [] result = Inr result"
| "object_without_duplicates ((key, v) # pairs) result =
     (if key \<in> set (map fst result) then Inl (CanonicalizationError ''duplicate JSON key'')
      else object_without_duplicates pairs (result @ [(key, v)]))"

definition starts :: "string \<Rightarrow> string \<Rightarrow> bool" where
  "starts p s \<longleftrightarrow> take (length p) s = p"

text \<open>A key with its colon, up to the first character of the value.\<close>

definition scan_key :: "string \<Rightarrow> (string \<times> string) res" where
  "scan_key cs = (case cs of
     [] \<Rightarrow> Inl JSONDecodeError
   | c # cs' \<Rightarrow>
       if c \<noteq> CHR 0x22 then Inl JSONDecodeError
       else bindE (scan_string (Suc (length cs')) cs') (\<lambda>(k, r). case skip_ws r of
           [] \<Rightarrow> Inl JSONDecodeError
         | d # ds \<Rightarrow> if d \<noteq> CHR '':'' then Inl JSONDecodeError else Inr (k, skip_ws ds)))"

text \<open>
  \<open>scan_items\<close> and \<open>scan_pairs\<close> are the loops of the array and object scanners, entered at a
  value and at a key.
\<close>

fun scan_value :: "hooks \<Rightarrow> nat \<Rightarrow> string \<Rightarrow> (pyval \<times> string) res"
  and scan_items :: "hooks \<Rightarrow> nat \<Rightarrow> string \<Rightarrow> (pyval list \<times> string) res"
  and scan_pairs :: "hooks \<Rightarrow> nat \<Rightarrow> string \<Rightarrow> ((string \<times> pyval) list \<times> string) res"
where
  "scan_value K 0 cs = Inl OutOfFuel"
| "scan_value K (Suc n) cs = (case cs of
     [] \<Rightarrow> Inl JSONDecodeError
   | c # cs' \<Rightarrow>
       if c = CHR 0x22 then bindE (scan_string (Suc (length cs')) cs') (\<lambda>(s, r). Inr (PStr s, r))
       else if c = CHR ''{'' then
         (case skip_ws cs' of
            [] \<Rightarrow> Inl JSONDecodeError
          | d # ds \<Rightarrow>
              if d = CHR ''}'' then Inr (PDict [], ds)
              else bindE (scan_pairs K n (d # ds)) (\<lambda>(ps, r).
                     bindE (hk_object K ps) (\<lambda>m. Inr (PDict m, r))))
       else if c = CHR ''['' then
         (case skip_ws cs' of
            [] \<Rightarrow> Inl JSONDecodeError
          | d # ds \<Rightarrow>
              if d = CHR '']'' then Inr (PList [], ds)
              else bindE (scan_items K n (d # ds)) (\<lambda>(xs, r). Inr (PList xs, r)))
       else if starts ''null'' cs then Inr (PNone, drop 4 cs)
       else if starts ''true'' cs then Inr (PBool True, drop 4 cs)
       else if starts ''false'' cs then Inr (PBool False, drop 5 cs)
       else if starts ''NaN'' cs then bindE (hk_constant K ''NaN'') (\<lambda>v. Inr (v, drop 3 cs))
       else if starts ''Infinity'' cs then bindE (hk_constant K ''Infinity'') (\<lambda>v. Inr (v, drop 8 cs))
       else if starts ''-Infinity'' cs then bindE (hk_constant K ''-Infinity'') (\<lambda>v. Inr (v, drop 9 cs))
       else scan_number K cs)"
| "scan_items K 0 cs = Inl OutOfFuel"
| "scan_items K (Suc n) cs =
     bindE (scan_value K n cs) (\<lambda>(v, r). case skip_ws r of
         [] \<Rightarrow> Inl JSONDecodeError
       | d # ds \<Rightarrow>
           if d = CHR '']'' then Inr ([v], ds)
           else if d = CHR '','' then bindE (scan_items K n (skip_ws ds)) (\<lambda>(vs, r'). Inr (v # vs, r'))
           else Inl JSONDecodeError)"
| "scan_pairs K 0 cs = Inl OutOfFuel"
| "scan_pairs K (Suc n) cs =
     bindE (scan_key cs) (\<lambda>(k, r). bindE (scan_value K n r) (\<lambda>(v, r'). case skip_ws r' of
         [] \<Rightarrow> Inl JSONDecodeError
       | e # es \<Rightarrow>
           if e = CHR ''}'' then Inr ([(k, v)], es)
           else if e = CHR '','' then
             bindE (scan_pairs K n (skip_ws es)) (\<lambda>(ps, r''). Inr ((k, v) # ps, r''))
           else Inl JSONDecodeError))"

definition loads_with :: "hooks \<Rightarrow> string \<Rightarrow> pyval res" where
  "loads_with K cs = bindE (scan_value K (2 * length cs + 1) (skip_ws cs)) (\<lambda>(v, r).
     if skip_ws r = [] then Inr v else Inl JSONDecodeError)"

text \<open>The hooks of \<open>strict_json_loads\<close>: \<open>_reject_float\<close>, \<open>_reject_constant\<close> and \<open>_object_without_duplicates\<close>.\<close>

definition strict_hooks :: hooks where
  "strict_hooks = \<lparr>hk_float = (\<lambda>_. Inl (CanonicalizationError ''floating-point JSON values are not permitted'')),
     hk_constant = (\<lambda>_. Inl (CanonicalizationError ''non-finite JSON value is not permitted'')),
     hk_object = (\<lambda>ps. object_without_duplicates ps [])\<rparr>"

definition loads :: "string \<Rightarrow> pyval res" where
  "loads cs = loads_with strict_hooks cs"

text \<open>
  \<open>json.loads\<close> without hooks: \<open>parse\<close> is \<open>float()\<close> on the text of a float literal, and of two pairs
  with the same key the last one counts, in the place of the first.
\<close>

definition plain_hooks :: "(string \<Rightarrow> pyfloat) \<Rightarrow> hooks" where
  "plain_hooks parse = \<lparr>hk_float = (\<lambda>t. Inr (PFloat (parse t))),
     hk_constant = (\<lambda>t. Inr (PFloat (if t = ''NaN'' then FNaN else FInf))),
     hk_object = (\<lambda>ps. Inr (fold (\<lambda>(k, x) m. AList.update k x m) ps []))\<rparr>"

section \<open>Digits\<close>

lemma of_char_digit: "n < 10 \<Longrightarrow> of_char (digit n) = (48 + n :: nat)"
  by (simp add: digit_def)

lemma is_digit_digit [simp]: "n < 10 \<Longrightarrow> is_digit (digit n)"
  by (simp add: is_digit_def less_eq_char_def of_char_digit)

lemma digit_val_digit [simp]: "n < 10 \<Longrightarrow> digit_val (digit n) = n"
  by (simp add: digit_val_def of_char_digit)

lemma nat_repr_not_Nil [simp]: "nat_repr n \<noteq> []"
  by (subst nat_repr.simps) simp

lemma nat_repr_digits: "\<forall>c \<in> set (nat_repr n). is_digit c"
proof (induction n rule: nat_repr.induct)
  case (1 n)
  then show ?case by (subst nat_repr.simps) auto
qed

lemma digits_val_append: "digits_val (xs @ [c]) = 10 * digits_val xs + digit_val c"
  by (simp add: digits_val_def)

lemma digits_val_nat_repr [simp]: "digits_val (nat_repr n) = n"
proof (induction n rule: nat_repr.induct)
  case (1 n)
  show ?case
  proof (cases "n < 10")
    case True
    then show ?thesis by (subst nat_repr.simps) (simp add: digits_val_def)
  next
    case False
    with 1 have "digits_val (nat_repr (n div 10)) = n div 10" by simp
    with False show ?thesis by (subst nat_repr.simps) (simp add: digits_val_append)
  qed
qed

lemma nat_repr_hd_zero: "hd (nat_repr n) = CHR ''0'' \<Longrightarrow> nat_repr n = ''0''"
proof (induction n rule: nat_repr.induct)
  case (1 n)
  show ?case
  proof (cases "n < 10")
    case True
    with "1.prems" have "digit n = CHR ''0''" by (simp add: nat_repr.simps [of n])
    with True show ?thesis by (simp add: nat_repr.simps [of n])
  next
    case False
    with "1.prems" have "hd (nat_repr (n div 10)) = CHR ''0''"
      by (simp add: nat_repr.simps [of n])
    with 1 False have "nat_repr (n div 10) = ''0''" by simp
    then have "digits_val (nat_repr (n div 10)) = 0" by (simp add: digits_val_def digit_val_def)
    with False show ?thesis by simp
  qed
qed

lemma length_nat_repr: "n < 10 ^ Suc k \<Longrightarrow> length (nat_repr n) \<le> Suc k"
proof (induction k arbitrary: n)
  case 0
  then show ?case by (simp add: nat_repr.simps)
next
  case (Suc k)
  show ?case
  proof (cases "n < 10")
    case True
    then show ?thesis by (simp add: nat_repr.simps)
  next
    case False
    from Suc.prems have "n div 10 < 10 ^ Suc k" by (simp add: div_less_iff_less_mult)
    with Suc.IH False show ?thesis by (simp add: nat_repr.simps [of n])
  qed
qed

section \<open>Strings\<close>

lemma nat_less_16_cases: "n < 16 \<Longrightarrow> n \<in> {0,1,2,3,4,5,6,7,8,9,10,11,12,13,14,15::nat}"
  by simp presburger

lemma hex_val_hex_digit: "n < 16 \<Longrightarrow> hex_val (hex_digit n) = Some n"
  by (drule nat_less_16_cases) (auto simp: hex_val_def hex_digit_def less_eq_char_def)

lemma scan_u_low:
  assumes "n < 32"
  shows "scan_u (CHR ''0'' # CHR ''0'' # hex_digit (n div 16) # hex_digit (n mod 16) # r)
    = Some ([char_of n], 4)"
proof -
  have "hex_val (CHR ''0'') = Some 0" by (simp add: hex_val_def)
  moreover have "hex_val (hex_digit (n div 16)) = Some (n div 16)"
    using assms by (simp add: hex_val_hex_digit)
  moreover have "hex_val (hex_digit (n mod 16)) = Some (n mod 16)"
    by (simp add: hex_val_hex_digit)
  ultimately show ?thesis
    using assms by (simp add: scan_u_def hex4_def utf8_of_def)
qed

lemma scan_string_escape:
  "scan_string (Suc n) (escape_char c @ r) = bindE (scan_string n r) (\<lambda>(s, r'). Inr (c # s, r'))"
proof -
  have "scan_u (CHR ''0'' # CHR ''0'' # hex_digit (of_char c div 16) # hex_digit (of_char c mod 16) # r)
    = Some ([c], 4)" if "(of_char c :: nat) < 32"
    using scan_u_low [OF that] by simp
  then show ?thesis
    by (auto simp: escape_char_def unescape_def)
qed

declare scan_string.simps [simp del]

lemma scan_string_quoted:
  "length s < n \<Longrightarrow> scan_string n (concat (map escape_char s) @ CHR 0x22 # r) = Inr (s, r)"
proof (induction s arbitrary: n)
  case Nil
  then show ?case by (cases n) (auto simp: scan_string.simps)
next
  case (Cons c s)
  then obtain m where m: "n = Suc m" "length s < m" by (cases n) auto
  then show ?case using Cons.IH [of m] by (simp add: scan_string_escape)
qed

lemma length_escape: "1 \<le> length (escape_char c)"
  by (auto simp: escape_char_def)

lemma length_concat_escape: "length s \<le> length (concat (map escape_char s))"
proof (induction s)
  case Nil
  then show ?case by simp
next
  case (Cons c s)
  then show ?case using add_mono [OF length_escape [of c] Cons.IH] by simp
qed

section \<open>Values\<close>

text \<open>
  The values whose printed form the scanner reads back: no floats, no tuples, nothing
  unserialisable, integers within the conversion limit, objects with sorted distinct keys.
\<close>

fun plain :: "pyval \<Rightarrow> bool" where
  "plain PNone = True"
| "plain (PBool b) = True"
| "plain (PInt i) = (length (nat_repr (nat \<bar>i\<bar>)) \<le> 4300)"
| "plain (PFloat f) = False"
| "plain (PStr s) = True"
| "plain (PList xs) = list_all plain xs"
| "plain (PTuple xs) = False"
| "plain (PDict m) = (sorted (map fst m) \<and> distinct (map fst m) \<and> list_all plain (map snd m))"
| "plain (POther t) = False"

text \<open>
  With other hooks, floats too: those whose text the scanner takes for one float and the hook reads
  as that float.
\<close>

definition float_text :: "hooks \<Rightarrow> string \<Rightarrow> bool" where
  "float_text K t =
     (let body = (if t \<noteq> [] \<and> hd t = CHR ''-'' then tl t else t); ds = int_digits body; rest = drop (length ds) body;
          f = frac_len rest; e = exp_len (drop f rest)
      in ds \<noteq> [] \<and> 0 < f + e \<and> length rest = f + e
         \<and> hk_float K t = Inr (PFloat (FFinite t)))"

fun readable :: "hooks \<Rightarrow> pyval \<Rightarrow> bool" where
  "readable K PNone = True"
| "readable K (PBool b) = True"
| "readable K (PInt i) = (length (nat_repr (nat \<bar>i\<bar>)) \<le> 4300)"
| "readable K (PFloat f) = (case f of FFinite t \<Rightarrow> float_text K t | _ \<Rightarrow> False)"
| "readable K (PStr s) = True"
| "readable K (PList xs) = list_all (readable K) xs"
| "readable K (PTuple xs) = False"
| "readable K (PDict m) = (sorted (map fst m) \<and> distinct (map fst m) \<and> list_all (readable K) (map snd m))"
| "readable K (POther t) = False"

lemma plain_readable: "plain v \<Longrightarrow> readable K v"
  by (induction v) (auto simp: list_all_iff snds.simps)

text \<open>Hooks that keep an object whose keys are distinct.\<close>

definition keeps_objects :: "hooks \<Rightarrow> bool" where
  "keeps_objects K \<longleftrightarrow> (\<forall>ps. distinct (map fst ps) \<longrightarrow> hk_object K ps = Inr ps)"

lemma dumps_items_map: "dumps_items xs = map dumps xs"
  by (induction xs) auto

lemma dumps_fields_map: "dumps_fields m = map (\<lambda>(k, v). (k, dumps v)) m"
  by (induction m) auto

text \<open>What may follow a value: the end of the text, a separator or a closing bracket.\<close>

definition stops :: "string \<Rightarrow> bool" where
  "stops r \<longleftrightarrow> (case r of [] \<Rightarrow> True | c # _ \<Rightarrow> c \<in> {CHR '','', CHR '']'', CHR ''}'', CHR '' '', CHR 0x0A})"

text \<open>A printed value starts with none of the characters the scanner skips or reads as an end.\<close>

definition starts_value :: "string \<Rightarrow> bool" where
  "starts_value t \<longleftrightarrow> t \<noteq> [] \<and> hd t \<notin> {CHR '' '', CHR 0x09, CHR 0x0A, CHR 0x0D, CHR '']'', CHR ''}''}"

lemma skip_ws_starts_value: "starts_value t \<Longrightarrow> skip_ws (t @ r) = t @ r"
  by (cases t) (auto simp: starts_value_def)

lemma takeWhile_digits:
  assumes "\<forall>c \<in> set ds. is_digit c" and "stops r"
  shows "takeWhile is_digit (ds @ r) = ds"
proof -
  have "takeWhile is_digit r = []"
    using assms(2) by (cases r) (auto simp: stops_def is_digit_def)
  with assms(1) show ?thesis by (simp add: takeWhile_append2)
qed

lemma stops_no_fraction: "stops r \<Longrightarrow> frac_len r = 0 \<and> exp_len r = 0"
  by (cases r) (auto simp: stops_def frac_len_def exp_len_def)

lemma is_digit_not_minus: "is_digit c \<Longrightarrow> c \<noteq> CHR ''-''"
  by (auto simp: is_digit_def)

lemma takeWhile_stops: "stops r \<Longrightarrow> takeWhile is_digit (ds @ r) = takeWhile is_digit ds"
proof (induction ds)
  case Nil
  then show ?case by (cases r) (auto simp: stops_def is_digit_def)
qed simp

lemma frac_len_append: "stops r \<Longrightarrow> frac_len (ds @ r) = frac_len ds"
proof (cases ds)
  case (Cons c cs)
  assume "stops r"
  with Cons show ?thesis by (simp add: frac_len_def takeWhile_stops)
next
  case Nil
  assume "stops r"
  with Nil show ?thesis using stops_no_fraction [of r] stops_no_fraction [of "[]"] by (simp add: stops_def)
qed

lemma exp_len_append: "stops r \<Longrightarrow> exp_len (ds @ r) = exp_len ds"
proof (cases ds)
  case (Cons c cs)
  assume r: "stops r"
  have sgn: "(case cs @ r of s # _ \<Rightarrow> if s = CHR ''+'' \<or> s = CHR ''-'' then 1 else 0 | [] \<Rightarrow> 0) =
      (case cs of s # _ \<Rightarrow> if s = CHR ''+'' \<or> s = CHR ''-'' then 1 else (0 :: nat) | [] \<Rightarrow> 0)"
    using r by (cases cs; cases r) (auto simp: stops_def)
  have "takeWhile is_digit (drop k (cs @ r)) = takeWhile is_digit (drop k cs)" if "k \<le> length cs" for k
    using r that by (simp add: takeWhile_stops)
  moreover have "(case cs of s # _ \<Rightarrow> if s = CHR ''+'' \<or> s = CHR ''-'' then 1 else (0 :: nat) | [] \<Rightarrow> 0) \<le> length cs"
    by (cases cs) auto
  ultimately show ?thesis by (simp add: Cons exp_len_def sgn Let_def del: drop_append)
next
  case Nil
  assume "stops r"
  with Nil show ?thesis using stops_no_fraction [of r] stops_no_fraction [of "[]"] by (simp add: stops_def)
qed

lemma int_digits_append: "stops r \<Longrightarrow> ds \<noteq> [] \<Longrightarrow> int_digits (ds @ r) = int_digits ds"
  using takeWhile_stops [of r ds] by (cases ds) (simp_all add: int_digits_def)

lemma scan_number_float:
  assumes t: "float_text K t" and r: "stops r"
  shows "scan_number K (t @ r) = Inr (PFloat (FFinite t), r)"
proof -
  define neg where "neg = (t \<noteq> [] \<and> hd t = CHR ''-'')"
  define body where "body = (if neg then tl t else t)"
  define ds where "ds = int_digits body"
  define rest where "rest = drop (length ds) body"
  define f where "f = frac_len rest"
  define e where "e = exp_len (drop f rest)"
  have ok: "ds \<noteq> []" "0 < f + e" "length rest = f + e" "hk_float K t = Inr (PFloat (FFinite t))"
    using t by (simp_all add: float_text_def neg_def body_def ds_def rest_def f_def e_def Let_def)
  have ne: "body \<noteq> []" using ok(1) by (auto simp: ds_def int_digits_def)
  have len: "take (length ds) body = ds"
    by (cases body) (auto simp: ds_def int_digits_def simp flip: takeWhile_eq_take)
  have body: "ds @ rest = body" unfolding rest_def by (metis append_take_drop_id len)
  have whole: "(if neg then [CHR ''-''] else []) @ ds @ rest = t"
    unfolding body by (cases t) (auto simp: body_def neg_def)
  have neg': "(case t @ r of c # _ \<Rightarrow> c = CHR ''-'' | [] \<Rightarrow> False) = neg"
    using ne by (cases t) (auto simp: neg_def body_def)
  have body': "(if neg then tl (t @ r) else t @ r) = body @ r"
    by (cases t) (auto simp: neg_def body_def)
  have ds': "int_digits (body @ r) = ds" using int_digits_append [OF r ne] by (simp add: ds_def)
  have rest': "drop (length ds) (body @ r) = rest @ r" by (simp flip: body)
  have tail: "frac_len (rest @ r) = f" "exp_len (drop f (rest @ r)) = e"
    using r ok(3) by (simp_all add: frac_len_append exp_len_append f_def e_def)
  have cut: "take (f + e) (rest @ r) = rest" "drop (f + e) (rest @ r) = r" using ok(3) by simp_all
  show ?thesis
    unfolding scan_number_def Let_def neg' body' ds' rest' tail cut
    using ok whole by simp
qed

lemma scan_number_int_repr:
  assumes "length (nat_repr (nat \<bar>i\<bar>)) \<le> 4300" and "stops r"
  shows "scan_number K (int_repr i @ r) = Inr (PInt i, r)"
proof -
  define ds where "ds = nat_repr (nat \<bar>i\<bar>)"
  have digits: "\<forall>c \<in> set ds. is_digit c" and ne: "ds \<noteq> []"
    by (simp_all add: ds_def nat_repr_digits)
  have text_eq: "int_repr i @ r = (if i < 0 then CHR ''-'' # ds @ r else ds @ r)"
    by (auto simp: int_repr_def ds_def)
  have hd: "hd ds \<noteq> CHR ''-''" using digits ne is_digit_not_minus [of "hd ds"] by auto
  have body: "int_digits (ds @ r) = ds"
  proof (cases "hd ds = CHR ''0''")
    case True
    then have "ds = ''0''" by (simp add: ds_def nat_repr_hd_zero)
    then show ?thesis by (simp add: int_digits_def)
  next
    case False
    with ne takeWhile_digits [OF digits assms(2)] show ?thesis
      by (cases ds) (auto simp: int_digits_def)
  qed
  have short: "length ds \<le> 4300" using assms(1) by (simp add: ds_def)
  have val: "int (digits_val ds) = \<bar>i\<bar>" by (simp add: ds_def)
  show ?thesis
  proof (cases "i < 0")
    case True
    then show ?thesis
      using body short val ne stops_no_fraction [OF assms(2)]
      by (simp add: text_eq scan_number_def Let_def)
  next
    case False
    moreover have "(case ds @ r of c # _ \<Rightarrow> c = CHR ''-'' | [] \<Rightarrow> False) = False"
      using hd ne by (cases ds) auto
    ultimately show ?thesis
      using body short val ne stops_no_fraction [OF assms(2)]
      by (simp add: text_eq scan_number_def Let_def)
  qed
qed


definition reads_back :: "hooks \<Rightarrow> pyval \<Rightarrow> string \<Rightarrow> bool" where
  "reads_back K v t \<longleftrightarrow> starts_value t \<and>
     (\<forall>n r. 2 * length t < n \<longrightarrow> stops r \<longrightarrow> scan_value K n (t @ r) = Inr (v, r))"

lemma reads_backD:
  "reads_back K v t \<Longrightarrow> 2 * length t < n \<Longrightarrow> stops r \<Longrightarrow> scan_value K n (t @ r) = Inr (v, r)"
  by (simp add: reads_back_def)

lemma reads_backI:
  assumes "starts_value t" and "\<And>m r. stops r \<Longrightarrow> scan_value K (Suc m) (t @ r) = Inr (v, r)"
  shows "reads_back K v t"
  unfolding reads_back_def
proof (intro conjI allI impI)
  fix n r
  assume "2 * length t < n" and "stops r"
  then show "scan_value K n (t @ r) = Inr (v, r)" using assms(2) by (cases n) auto
qed (rule assms(1))

lemma reads_back_skip: "reads_back K v t \<Longrightarrow> skip_ws (t @ r) = t @ r"
  by (simp add: reads_back_def skip_ws_starts_value)

lemma scan_items_join:
  assumes "list_all2 (reads_back K) xs ts" and "xs \<noteq> []" and "2 * length (join ts) + 1 < n"
  shows "scan_items K n (join ts @ CHR '']'' # r) = Inr (xs, r)"
  using assms
proof (induction xs ts arbitrary: n rule: list_all2_induct)
  case Nil
  then show ?case by simp
next
  case (Cons x xs t ts)
  then obtain m where m: "n = Suc m" by (cases n) auto
  show ?case
  proof (cases ts)
    case Nil
    with Cons.hyps have "xs = []" by simp
    moreover have "scan_value K m (t @ CHR '']'' # r) = Inr (x, CHR '']'' # r)"
      using Cons.hyps Cons.prems m Nil by (intro reads_backD) (auto simp: stops_def)
    ultimately show ?thesis using Nil m by simp
  next
    case (Cons t2 ts')
    with Cons.hyps obtain x2 xs' where xs: "xs = x2 # xs'" "reads_back K x2 t2"
      by (auto simp: list_all2_Cons2)
    let ?rest = "join ts @ CHR '']'' # r"
    have len: "2 * length t + 2 * length (join ts) + 3 < n"
      using Cons.prems Cons by simp
    have "scan_value K m (t @ CHR '','' # ?rest) = Inr (x, CHR '','' # ?rest)"
      using Cons.hyps len m by (intro reads_backD) (auto simp: stops_def)
    moreover have "skip_ws ?rest = ?rest"
      using xs Cons by (cases ts') (auto simp: reads_back_skip)
    moreover have "scan_items K m ?rest = Inr (xs, r)"
      using xs len m by (intro Cons.IH) auto
    ultimately show ?thesis using Cons m by simp
  qed
qed

definition reads_pair :: "hooks \<Rightarrow> string \<times> pyval \<Rightarrow> string \<Rightarrow> bool" where
  "reads_pair K p t \<longleftrightarrow> (\<exists>u. t = quote (fst p) @ CHR '':'' # u \<and> reads_back K (snd p) u)"

lemma scan_string_body:
  "w = concat (map escape_char k) @ CHR 0x22 # r \<Longrightarrow> scan_string (Suc (length w)) w = Inr (k, r)"
  using length_concat_escape [of k] by (simp add: scan_string_quoted)

lemma quote_append: "\<exists>w. quote k @ r = CHR 0x22 # w \<and> scan_string (Suc (length w)) w = Inr (k, r)"
  by (rule exI [of _ "concat (map escape_char k) @ CHR 0x22 # r"])
    (simp add: quote_def scan_string_body del: length_append)

lemma scan_pairs_step:
  assumes "reads_back K v u" and "2 * length (quote k @ CHR '':'' # u) < Suc n" and "stops r"
  shows "scan_pairs K (Suc n) (quote k @ CHR '':'' # u @ r) = (case skip_ws r of
      [] \<Rightarrow> Inl JSONDecodeError
    | e # es \<Rightarrow>
        if e = CHR ''}'' then Inr ([(k, v)], es)
        else if e = CHR '','' then
          bindE (scan_pairs K n (skip_ws es)) (\<lambda>(ps, r''). Inr ((k, v) # ps, r''))
        else Inl JSONDecodeError)"
proof -
  have "2 * length u < n" using assms(2) by simp
  with assms(1,3) have val: "scan_value K n (skip_ws (u @ r)) = Inr (v, r)"
    by (simp add: reads_back_skip reads_backD)
  obtain w where w: "quote k @ CHR '':'' # u @ r = CHR 0x22 # w"
    and str: "scan_string (Suc (length w)) w = Inr (k, CHR '':'' # u @ r)"
    using quote_append by blast
  have "scan_key (quote k @ CHR '':'' # u @ r) = Inr (k, skip_ws (u @ r))"
    unfolding w by (simp add: scan_key_def str)
  with val show ?thesis by simp
qed

lemma scan_pairs_join:
  assumes "list_all2 (reads_pair K) m ts" and "m \<noteq> []" and "2 * length (join ts) + 1 < n"
  shows "scan_pairs K n (join ts @ CHR ''}'' # r) = Inr (m, r)"
  using assms
proof (induction m ts arbitrary: n rule: list_all2_induct)
  case Nil
  then show ?case by simp
next
  case (Cons p m t ts)
  then obtain n' where n: "n = Suc n'" by (cases n) auto
  obtain k v where p: "p = (k, v)" by (cases p)
  with Cons.hyps obtain u where t: "t = quote k @ CHR '':'' # u" and u: "reads_back K v u"
    by (auto simp: reads_pair_def)
  have len: "2 * length (quote k @ CHR '':'' # u) < Suc n'"
    using Cons.prems t n by (cases ts) auto
  show ?case
  proof (cases ts)
    case Nil
    with Cons.hyps have "m = []" by simp
    with Nil show ?thesis
      using scan_pairs_step [OF u len, of "CHR ''}'' # r"] p t n by (simp add: stops_def)
  next
    case (Cons t2 ts')
    with Cons.hyps obtain p2 m' where m: "m = p2 # m'" "reads_pair K p2 t2"
      by (auto simp: list_all2_Cons2)
    let ?rest = "join ts @ CHR ''}'' # r"
    have "skip_ws ?rest = ?rest"
      using m Cons by (cases ts') (auto simp: reads_pair_def quote_def)
    moreover have "scan_pairs K n' ?rest = Inr (m, r)"
      using m n Cons.prems Cons by (intro Cons.IH) auto
    ultimately show ?thesis
      using scan_pairs_step [OF u len, of "CHR '','' # ?rest"] Cons p t n by (simp add: stops_def)
  qed
qed

lemma object_without_duplicates_append:
  "distinct (map fst (acc @ ps)) \<Longrightarrow> object_without_duplicates ps acc = Inr (acc @ ps)"
  by (induction ps acc rule: object_without_duplicates.induct) auto


lemma keeps_objects_strict: "keeps_objects strict_hooks"
  using object_without_duplicates_append [of "[]"] by (simp add: keeps_objects_def strict_hooks_def)

lemma update_new: "k \<notin> fst ` set m \<Longrightarrow> AList.update k x m = m @ [(k, x)]"
  by (induction m) auto

lemma fold_update_append:
  fixes acc ps :: dict
  shows "distinct (map fst (acc @ ps)) \<Longrightarrow> fold (\<lambda>(k, x) m. AList.update k x m) ps acc = acc @ ps"
proof (induction ps arbitrary: acc)
  case (Cons p ps)
  then have "AList.update (fst p) (snd p) acc = acc @ [p]" by (intro trans [OF update_new]) auto
  with Cons.IH [of "acc @ [p]"] Cons.prems show ?case by (simp add: case_prod_unfold)
qed simp

lemma keeps_objects_plain: "keeps_objects (plain_hooks parse)"
  unfolding keeps_objects_def plain_hooks_def
proof (intro allI impI)
  fix ps :: dict
  assume "distinct (map fst ps)"
  then show "hk_object \<lparr>hk_float = \<lambda>t. Inr (PFloat (parse t)), hk_constant = \<lambda>t. Inr (PFloat (if t = ''NaN'' then FNaN else FInf)),
      hk_object = \<lambda>ps. Inr (fold (\<lambda>(k, x) m. AList.update k x m) ps [])\<rparr> ps = Inr ps"
    using fold_update_append [of "[]" ps] by simp
qed

lemma reads_back_list:
  assumes "list_all2 (reads_back K) xs ts"
  shows "reads_back K (PList xs) (CHR ''['' # join ts @ [CHR '']''])"
  unfolding reads_back_def
proof (intro conjI allI impI)
  show "starts_value (CHR ''['' # join ts @ [CHR '']''])" by (simp add: starts_value_def)
next
  fix n r
  assume n: "2 * length (CHR ''['' # join ts @ [CHR '']'']) < n" and "stops r"
  then obtain m where m: "n = Suc m" by (cases n) auto
  show "scan_value K n ((CHR ''['' # join ts @ [CHR '']'']) @ r) = Inr (PList xs, r)"
  proof (cases ts)
    case Nil
    with assms m show ?thesis by simp
  next
    case (Cons t ts')
    with assms obtain x xs' where xs: "xs = x # xs'" and x: "reads_back K x t"
      by (auto simp: list_all2_Cons2)
    have items: "scan_items K m (join ts @ CHR '']'' # r) = Inr (xs, r)"
      using assms xs n m by (intro scan_items_join) auto
    obtain d ds where d: "join ts @ CHR '']'' # r = d # ds" by (cases "join ts @ CHR '']'' # r") auto
    have "starts_value (join ts)"
      using x Cons by (cases ts') (auto simp: reads_back_def starts_value_def)
    then have "d \<noteq> CHR '']''" and "skip_ws (join ts @ CHR '']'' # r) = join ts @ CHR '']'' # r"
      using d by (auto simp: starts_value_def skip_ws_starts_value hd_append dest: arg_cong [of _ _ hd])
    with items d m show ?thesis by simp
  qed
qed

lemma reads_back_dict:
  assumes "list_all2 (reads_pair K) ps ts" and "distinct (map fst ps)" and "keeps_objects K"
  shows "reads_back K (PDict ps) (CHR ''{'' # join ts @ [CHR ''}''])"
  unfolding reads_back_def
proof (intro conjI allI impI)
  show "starts_value (CHR ''{'' # join ts @ [CHR ''}''])" by (simp add: starts_value_def)
next
  fix n r
  assume n: "2 * length (CHR ''{'' # join ts @ [CHR ''}'']) < n" and "stops r"
  then obtain m where m: "n = Suc m" by (cases n) auto
  show "scan_value K n ((CHR ''{'' # join ts @ [CHR ''}'']) @ r) = Inr (PDict ps, r)"
  proof (cases ts)
    case Nil
    with assms m show ?thesis by simp
  next
    case (Cons t ts')
    with assms obtain p ps' where ps: "ps = p # ps'" and p: "reads_pair K p t"
      by (auto simp: list_all2_Cons2)
    have pairs: "scan_pairs K m (join ts @ CHR ''}'' # r) = Inr (ps, r)"
      using assms ps n m by (intro scan_pairs_join) auto
    have "\<exists>ds. join ts @ CHR ''}'' # r = CHR 0x22 # ds"
      using p Cons by (cases ts') (auto simp: reads_pair_def quote_def)
    then obtain ds where ds: "join ts @ CHR ''}'' # r = CHR 0x22 # ds" by blast
    have "hk_object K ps = Inr ps"
      using assms(2,3) by (simp add: keeps_objects_def)
    with pairs ds m show ?thesis by simp
  qed
qed

lemma is_digit_distinct:
  "is_digit c \<Longrightarrow> c \<noteq> CHR 0x22 \<and> c \<noteq> CHR ''{'' \<and> c \<noteq> CHR ''['' \<and> c \<noteq> CHR ''n'' \<and> c \<noteq> CHR ''t''
     \<and> c \<noteq> CHR ''f'' \<and> c \<noteq> CHR ''N'' \<and> c \<noteq> CHR ''I'' \<and> c \<noteq> CHR '' '' \<and> c \<noteq> CHR 0x09
     \<and> c \<noteq> CHR 0x0A \<and> c \<noteq> CHR 0x0D \<and> c \<noteq> CHR '']'' \<and> c \<noteq> CHR ''}'' \<and> c \<noteq> CHR ''-''"
  by (intro conjI) (auto simp: is_digit_def)

lemma starts_Cons: "starts (p # ps) (c # cs) \<longleftrightarrow> c = p \<and> starts ps cs"
  by (auto simp: starts_def)

lemma scan_value_digit:
  "is_digit c \<Longrightarrow> scan_value K (Suc m) (c # cs) = scan_number K (c # cs)"
  using is_digit_distinct [of c] by (simp add: starts_Cons)

lemma scan_value_minus:
  "is_digit c \<Longrightarrow> scan_value K (Suc m) (CHR ''-'' # c # cs) = scan_number K (CHR ''-'' # c # cs)"
  using is_digit_distinct [of c] by (simp add: starts_Cons)

lemma int_repr_cases:
  obtains c cs where "int_repr i = c # cs" "is_digit c"
  | c cs where "int_repr i = CHR ''-'' # c # cs" "is_digit c"
proof -
  obtain c cs where "nat_repr (nat \<bar>i\<bar>) = c # cs" "is_digit c"
    using nat_repr_digits [of "nat \<bar>i\<bar>"] nat_repr_not_Nil [of "nat \<bar>i\<bar>"]
    by (cases "nat_repr (nat \<bar>i\<bar>)") auto
  then show thesis using that by (cases "i < 0") (auto simp: int_repr_def)
qed

lemma reads_back_int:
  assumes "length (nat_repr (nat \<bar>i\<bar>)) \<le> 4300"
  shows "reads_back K (PInt i) (int_repr i)"
proof (rule reads_backI)
  show "starts_value (int_repr i)"
    by (cases i rule: int_repr_cases) (simp_all add: starts_value_def is_digit_distinct)
next
  fix m r
  assume "stops r"
  then have "scan_number K (int_repr i @ r) = Inr (PInt i, r)"
    by (rule scan_number_int_repr [OF assms])
  then show "scan_value K (Suc m) (int_repr i @ r) = Inr (PInt i, r)"
    by (cases i rule: int_repr_cases) (simp_all add: scan_value_digit scan_value_minus del: scan_value.simps)
qed

lemma reads_back_str: "reads_back K (PStr s) (quote s)"
proof (rule reads_backI)
  show "starts_value (quote s)" by (simp add: starts_value_def quote_def)
next
  fix m r
  obtain w where w: "quote s @ r = CHR 0x22 # w" and str: "scan_string (Suc (length w)) w = Inr (s, r)"
    using quote_append by blast
  show "scan_value K (Suc m) (quote s @ r) = Inr (PStr s, r)"
    unfolding w by (simp add: str)
qed

lemma reads_back_float:
  assumes "float_text K t"
  shows "reads_back K (PFloat (FFinite t)) t"
proof -
  have "(\<exists>c cs. t = c # cs \<and> is_digit c) \<or> (\<exists>c cs. t = CHR ''-'' # c # cs \<and> is_digit c)"
  proof -
    have "int_digits u \<noteq> [] \<Longrightarrow> \<exists>c cs. u = c # cs \<and> is_digit c" for u
      by (cases u) (auto simp: int_digits_def is_digit_def split: if_splits)
    with assms show ?thesis
      by (cases t) (auto simp: float_text_def Let_def split: if_splits)
  qed
  then show ?thesis
  proof (elim disjE exE conjE)
    fix c cs assume c: "t = c # cs" "is_digit c"
    show ?thesis
      using scan_number_float [OF assms] c
      by (intro reads_backI) (simp_all add: starts_value_def is_digit_distinct scan_value_digit del: scan_value.simps)
  next
    fix c cs assume c: "t = CHR ''-'' # c # cs" "is_digit c"
    show ?thesis
      using scan_number_float [OF assms] c
      by (intro reads_backI) (simp_all add: starts_value_def scan_value_minus del: scan_value.simps)
  qed
qed

theorem scan_dumps_with: "keeps_objects K \<Longrightarrow> readable K v \<Longrightarrow> \<exists>t. dumps v = Inr t \<and> reads_back K v t"
proof (induction v)
  case PNone
  have "reads_back K PNone ''null''"
    by (rule reads_backI) (auto simp: starts_value_def starts_def)
  then show ?case by simp
next
  case (PBool b)
  have "reads_back K (PBool b) (if b then ''true'' else ''false'')"
    by (rule reads_backI) (auto simp: starts_value_def starts_def)
  then show ?case by simp
next
  case (PInt i)
  then show ?case by (simp add: reads_back_int)
next
  case (PFloat f)
  then show ?case by (cases f) (simp_all add: reads_back_float)
next
  case (PStr s)
  show ?case by (simp add: reads_back_str)
next
  case (PList xs)
  then have "\<forall>x \<in> set xs. \<exists>t. dumps x = Inr t \<and> reads_back K x t" by (auto simp: list_all_iff)
  then obtain f where f: "\<forall>x \<in> set xs. dumps x = Inr (f x) \<and> reads_back K x (f x)" by metis
  have "dumps_items xs = map Inr (map f xs)" using f by (simp add: dumps_items_map)
  moreover have "list_all2 (reads_back K) xs (map f xs)" using f by (simp add: list_all2_conv_all_nth)
  ultimately show ?case by (auto simp: sequenceE_map_Inr intro!: reads_back_list simp del: map_map)
next
  case (PDict m)
  then have "\<forall>p \<in> set m. \<exists>t. dumps (snd p) = Inr t \<and> reads_back K (snd p) t"
    by (auto simp: list_all_iff snds.simps)
  then obtain f where f: "\<forall>p \<in> set m. dumps (snd p) = Inr (f p) \<and> reads_back K (snd p) (f p)" by metis
  define ts where "ts = map (\<lambda>p. quote (fst p) @ CHR '':'' # f p) m"
  have "sorted (map fst (dumps_fields m))"
    using PDict.prems by (simp add: dumps_fields_map case_prod_unfold comp_def)
  then have "map (\<lambda>(k, r). bindE r (\<lambda>t. Inr (quote k @ CHR '':'' # t))) (sort_key fst (dumps_fields m))
    = map Inr ts"
    using f by (auto simp: sort_key_id_if_sorted dumps_fields_map ts_def case_prod_unfold)
  moreover have "list_all2 (reads_pair K) m ts"
    using f by (auto simp: ts_def reads_pair_def list_all2_conv_all_nth)
  ultimately show ?case using PDict.prems by (auto intro!: reads_back_dict)
qed auto

corollary scan_dumps: "plain v \<Longrightarrow> \<exists>t. dumps v = Inr t \<and> reads_back strict_hooks v t"
  by (rule scan_dumps_with [OF keeps_objects_strict plain_readable])

lemma skip_ws_blank: "set pad \<subseteq> {CHR '' '', CHR 0x0A} \<Longrightarrow> skip_ws pad = []"
  by (induction pad) auto

corollary loads_with_dumps:
  assumes "keeps_objects K" and "readable K v" and pad: "set pad \<subseteq> {CHR '' '', CHR 0x0A}"
  shows "\<exists>t. dumps v = Inr t \<and> loads_with K (t @ pad) = Inr v"
proof -
  obtain t where t: "dumps v = Inr t" "reads_back K v t" using scan_dumps_with [OF assms(1,2)] by blast
  have "stops pad" using pad by (cases pad) (auto simp: stops_def)
  then have "scan_value K (2 * length (t @ pad) + 1) (skip_ws (t @ pad)) = Inr (v, pad)"
    using reads_backD [OF t(2), of "2 * length (t @ pad) + 1" pad] reads_back_skip [OF t(2)] by simp
  with t skip_ws_blank [OF pad] show ?thesis by (auto simp: loads_with_def)
qed

corollary loads_dumps: "plain v \<Longrightarrow> \<exists>t. dumps v = Inr t \<and> loads t = Inr v"
  using loads_with_dumps [OF keeps_objects_strict plain_readable, of v "[]"] by (simp add: loads_def)

section \<open>The scanner does not run out of fuel\<close>

lemma length_skip_ws: "length (skip_ws cs) \<le> length cs"
  by (induction cs) auto

lemma scan_string_shorter: "scan_string n cs = Inr (s, r) \<Longrightarrow> length r < length cs"
proof (induction n arbitrary: cs s r)
  case 0
  then show ?case by (simp add: scan_string.simps)
next
  case (Suc n)
  have IH: "scan_string n (drop k cs') = Inr (s', r) \<Longrightarrow> length r < Suc (length cs')" for k cs' s'
    using Suc.IH [of "drop k cs'" s' r] by simp
  note IH0 = IH [of 0, simplified]
  from Suc.prems show ?case
    by (auto simp: scan_string.simps bindE_Inr_iff dest: IH IH0
        split: list.splits if_splits option.splits prod.splits)
qed

lemma scan_string_fuel: "length cs < n \<Longrightarrow> scan_string n cs \<noteq> Inl OutOfFuel"
proof (induction n arbitrary: cs)
  case 0
  then show ?case by simp
next
  case (Suc n)
  from Suc.prems show ?case
    by (auto simp: scan_string.simps bindE_Inl_iff Suc.IH
        split: list.splits if_splits option.splits prod.splits)
qed

lemma scan_number_shorter: "scan_number K cs = Inr (v, r) \<Longrightarrow> length r < length cs"
  by (cases cs) (auto simp: scan_number_def Let_def int_digits_def bindE_Inr_iff split: if_splits list.splits)

text \<open>Hooks that use no fuel.\<close>

definition total_hooks :: "hooks \<Rightarrow> bool" where
  "total_hooks K \<longleftrightarrow> (\<forall>t. hk_float K t \<noteq> Inl OutOfFuel \<and> hk_constant K t \<noteq> Inl OutOfFuel)
     \<and> (\<forall>ps. hk_object K ps \<noteq> Inl OutOfFuel)"

lemma scan_number_fuel: "total_hooks K \<Longrightarrow> scan_number K cs \<noteq> Inl OutOfFuel"
  by (auto simp: scan_number_def Let_def bindE_Inl_iff total_hooks_def)

lemma object_without_duplicates_fuel: "object_without_duplicates ps acc \<noteq> Inl OutOfFuel"
  by (induction ps acc rule: object_without_duplicates.induct) auto

lemma total_hooks_strict: "total_hooks strict_hooks"
  by (simp add: total_hooks_def strict_hooks_def object_without_duplicates_fuel)

lemma total_hooks_plain: "total_hooks (plain_hooks parse)"
  by (simp add: total_hooks_def plain_hooks_def)

lemma skip_ws_ConsD: "skip_ws cs = d # ds \<Longrightarrow> length ds < length cs"
  using length_skip_ws [of cs] by simp

lemma starts_length: "starts p cs \<Longrightarrow> length p \<le> length cs"
  unfolding starts_def by (metis length_take min.cobounded2 min.commute)

lemma scan_key_shorter:
  assumes "scan_key cs = Inr (k, r)"
  shows "length r < length cs"
proof -
  from assms obtain c cs' where cs: "cs = c # cs'" by (cases cs) (auto simp: scan_key_def)
  with assms obtain k' r1 where str: "scan_string (Suc (length cs')) cs' = Inr (k', r1)"
    by (cases "scan_string (Suc (length cs')) cs'") (auto simp: scan_key_def split: if_splits)
  with assms cs obtain d ds where ds: "skip_ws r1 = d # ds"
    by (cases "skip_ws r1") (auto simp: scan_key_def split: if_splits)
  with assms cs str have "r = skip_ws ds" by (auto simp: scan_key_def split: if_splits)
  then show ?thesis
    using cs scan_string_shorter [OF str] skip_ws_ConsD [OF ds] length_skip_ws [of ds] by simp
qed

lemma scan_key_fuel: "scan_key cs \<noteq> Inl OutOfFuel"
  by (auto simp: scan_key_def bindE_Inl_iff scan_string_fuel split: list.splits if_splits)

lemma scan_shorter:
  "scan_value K n cs = Inr (v, r) \<Longrightarrow> length r < length cs"
  "scan_items K n cs = Inr (vs, r) \<Longrightarrow> length r < length cs"
  "scan_pairs K n cs = Inr (ps, r) \<Longrightarrow> length r < length cs"
proof (induction n arbitrary: cs v vs ps r)
  case 0
  { case 1 then show ?case by simp next
    case 2 then show ?case by simp next
    case 3 then show ?case by simp }
next
  case (Suc n)
  { case 1
    then show ?case
      by (auto simp: bindE_Inr_iff dest!: Suc.IH scan_string_shorter scan_number_shorter skip_ws_ConsD
          starts_length split: list.splits if_splits prod.splits)
  next
    case 2
    obtain v r1 where v: "scan_value K n cs = Inr (v, r1)" "length r1 < length cs"
      using 2 Suc.IH(1) by (auto simp: bindE_Inr_iff)
    with 2 show ?case
      using length_skip_ws
      by (auto simp: bindE_Inr_iff dest!: Suc.IH(2) skip_ws_ConsD split: list.splits if_splits)
        (meson le_less_trans less_trans)+
  next
    case 3
    obtain k r1 v r2 where k: "scan_key cs = Inr (k, r1)" and v: "scan_value K n r1 = Inr (v, r2)"
      using 3 by (auto simp: bindE_Inr_iff)
    then have "length r2 < length cs"
      using scan_key_shorter [OF k] Suc.IH(1) [OF v] by simp
    with 3 k v show ?case
      using length_skip_ws
      by (auto simp: bindE_Inr_iff dest!: Suc.IH(3) skip_ws_ConsD split: list.splits if_splits)
        (meson le_less_trans less_trans)+
  }
qed

lemma scan_fuel:
  assumes K: "total_hooks K"
  shows "2 * length cs < n \<Longrightarrow> scan_value K n cs \<noteq> Inl OutOfFuel"
  "2 * length cs + 1 < n \<Longrightarrow> scan_items K n cs \<noteq> Inl OutOfFuel"
  "2 * length cs + 1 < n \<Longrightarrow> scan_pairs K n cs \<noteq> Inl OutOfFuel"
proof (induction n arbitrary: cs)
  case 0
  { case 1 then show ?case by simp next
    case 2 then show ?case by simp next
    case 3 then show ?case by simp }
next
  case (Suc n)
  { case 1
    then show ?case
      using K by (auto simp: bindE_Inl_iff Suc.IH scan_string_fuel scan_number_fuel total_hooks_def
          dest!: skip_ws_ConsD split: list.splits if_splits prod.splits)
  next
    case 2
    have items: "2 * length ds + 1 < n \<Longrightarrow> scan_items K n (skip_ws ds) \<noteq> Inl OutOfFuel" for ds
      using Suc.IH(2) [of "skip_ws ds"] length_skip_ws [of ds] by simp
    from 2 show ?case
      by (auto simp: bindE_Inl_iff Suc.IH items dest!: scan_shorter skip_ws_ConsD split: list.splits if_splits)
  next
    case 3
    have pairs: "2 * length ds + 1 < n \<Longrightarrow> scan_pairs K n (skip_ws ds) \<noteq> Inl OutOfFuel" for ds
      using Suc.IH(3) [of "skip_ws ds"] length_skip_ws [of ds] by simp
    from 3 show ?case
      by (auto simp: bindE_Inl_iff Suc.IH(1) pairs scan_key_fuel
          dest!: scan_shorter scan_key_shorter skip_ws_ConsD split: list.splits if_splits)
  }
qed

corollary loads_with_enough_fuel: "total_hooks K \<Longrightarrow> loads_with K cs \<noteq> Inl OutOfFuel"
proof -
  assume "total_hooks K"
  then have "scan_value K (2 * length cs + 1) (skip_ws cs) \<noteq> Inl OutOfFuel"
    using length_skip_ws [of cs] by (intro scan_fuel(1)) simp_all
  then show ?thesis by (auto simp: loads_with_def bindE_Inl_iff)
qed

corollary loads_enough_fuel: "loads cs \<noteq> Inl OutOfFuel"
  unfolding loads_def by (rule loads_with_enough_fuel [OF total_hooks_strict])

end
