(* ===== verification/Canonical.thy ===== *)
theory Canonical
  imports Json
begin

text \<open>
  \<open>canonical.py\<close>: the canonical form of a value, its bytes, the strict loader and the digest.
  The Unicode tables behind \<open>unicodedata.normalize\<close>, the hash function behind \<open>digest\<close> and the
  ISO-8601 reader behind \<open>datetime.fromisoformat\<close> are fields of the record \<open>host\<close>, an argument of
  every definition that uses them, so that every result holds for any of them.
\<close>

section \<open>Definitions\<close>

text \<open>A timestamp as \<open>datetime.fromisoformat\<close> reads it: refused, without a timezone, or UTC milliseconds.\<close>

datatype iso_time = NotIso | NaiveTime | UtcMillis int

record host =
  nfc :: "string \<Rightarrow> string"
  sha256_hex :: "string \<Rightarrow> string"
  from_iso :: "string \<Rightarrow> iso_time"

definition MAX_SAFE_INTEGER :: int where "MAX_SAFE_INTEGER = 9007199254740991"
definition MAX_CANONICAL_DEPTH :: nat where "MAX_CANONICAL_DEPTH = 8"
definition MAX_CANONICAL_ITEMS :: nat where "MAX_CANONICAL_ITEMS = 256"
definition MAX_CANONICAL_STRING_BYTES :: nat where "MAX_CANONICAL_STRING_BYTES = 16384"

lemmas canonical_limits =
  MAX_SAFE_INTEGER_def MAX_CANONICAL_DEPTH_def MAX_CANONICAL_ITEMS_def MAX_CANONICAL_STRING_BYTES_def

definition nesting_error :: exn where
  "nesting_error = CanonicalizationError ''canonical value exceeds nesting limit''"

definition canonical_str :: "host \<Rightarrow> nat \<Rightarrow> string \<Rightarrow> string res" where
  "canonical_str H depth s =
     (if depth > MAX_CANONICAL_DEPTH then Inl nesting_error
      else if nfc H s \<noteq> s then Inl (CanonicalizationError ''strings must already be Unicode NFC'')
      else bindE (utf8_encode s) (\<lambda>b.
        if length b > MAX_CANONICAL_STRING_BYTES
        then Inl (CanonicalizationError ''string exceeds canonical byte limit'') else Inr s))"

text \<open>
  \<open>_canonical_value\<close>. Values of the model are finite trees, so the test for cyclic values has no
  counterpart. The fields of an object are visited in the order of their keys, which is what
  collecting the results after sorting expresses.
\<close>

fun canonical_value :: "host \<Rightarrow> nat \<Rightarrow> pyval \<Rightarrow> pyval res"
  and canonical_items :: "host \<Rightarrow> nat \<Rightarrow> pyval list \<Rightarrow> pyval res list"
  and canonical_fields :: "host \<Rightarrow> nat \<Rightarrow> (string \<times> pyval) list \<Rightarrow> (string \<times> pyval res) list"
where
  "canonical_value H depth PNone = (if depth > MAX_CANONICAL_DEPTH then Inl nesting_error else Inr PNone)"
| "canonical_value H depth (PBool b) = (if depth > MAX_CANONICAL_DEPTH then Inl nesting_error else Inr (PBool b))"
| "canonical_value H depth (PInt i) =
     (if depth > MAX_CANONICAL_DEPTH then Inl nesting_error
      else if \<bar>i\<bar> > MAX_SAFE_INTEGER
        then Inl (CanonicalizationError ''integer exceeds the interoperable exact range'')
      else Inr (PInt i))"
| "canonical_value H depth (PFloat f) =
     (if depth > MAX_CANONICAL_DEPTH then Inl nesting_error
      else if f = FNaN \<or> f = FInf then Inl (CanonicalizationError ''non-finite values are not permitted'')
      else if f = FNegZero then Inl (CanonicalizationError ''negative zero is not permitted'')
      else Inr (PFloat f))"
| "canonical_value H depth (PStr s) = bindE (canonical_str H depth s) (\<lambda>s'. Inr (PStr s'))"
| "canonical_value H depth (PDict m) =
     (if depth > MAX_CANONICAL_DEPTH then Inl nesting_error
      else if length m > MAX_CANONICAL_ITEMS
        then Inl (CanonicalizationError ''object exceeds canonical item limit'')
      else bindE (sequenceE (map (\<lambda>(k, r). bindE (canonical_str H (depth + 1) k) (\<lambda>k'.
                                   bindE r (\<lambda>v. Inr (k', v))))
                                (sort_key fst (canonical_fields H (depth + 1) m))))
             (\<lambda>out. Inr (PDict out)))"
| "canonical_value H depth (PList xs) =
     (if depth > MAX_CANONICAL_DEPTH then Inl nesting_error
      else if length xs > MAX_CANONICAL_ITEMS
        then Inl (CanonicalizationError ''array exceeds canonical item limit'')
      else bindE (sequenceE (canonical_items H (depth + 1) xs)) (\<lambda>vs. Inr (PList vs)))"
| "canonical_value H depth (PTuple xs) =
     (if depth > MAX_CANONICAL_DEPTH then Inl nesting_error
      else if length xs > MAX_CANONICAL_ITEMS
        then Inl (CanonicalizationError ''array exceeds canonical item limit'')
      else bindE (sequenceE (canonical_items H (depth + 1) xs)) (\<lambda>vs. Inr (PList vs)))"
| "canonical_value H depth (POther t) =
     (if depth > MAX_CANONICAL_DEPTH then Inl nesting_error
      else Inl (CanonicalizationError ''unsupported canonical value''))"
| "canonical_items H depth [] = []"
| "canonical_items H depth (x # xs) = canonical_value H depth x # canonical_items H depth xs"
| "canonical_fields H depth [] = []"
| "canonical_fields H depth ((k, v) # m) = (k, canonical_value H depth v) # canonical_fields H depth m"

definition canonical_bytes :: "host \<Rightarrow> pyval \<Rightarrow> string res" where
  "canonical_bytes H v = bindE (canonical_value H 0 v) (\<lambda>c. bindE (dumps c) utf8_encode)"

definition digest :: "host \<Rightarrow> pyval \<Rightarrow> string res" where
  "digest H v = bindE (canonical_bytes H v) (\<lambda>b. Inr (sha256_hex H b))"

text \<open>
  A concrete host on which the model can be evaluated: no normalisation, a hash that forgets its
  input, and timestamps that are as many minutes after the epoch as they have characters.
\<close>

definition demo_digest :: string where
  "demo_digest = replicate 64 (CHR ''a'')"

definition demo_host :: host where
  "demo_host = \<lparr>nfc = id, sha256_hex = (\<lambda>s. demo_digest), from_iso = (\<lambda>s. UtcMillis (60000 * int (length s)))\<rparr>"

text \<open>The argument of \<open>strict_json_loads\<close> is text or bytes; bytes must be well-formed UTF-8.\<close>

datatype json_data = Text string | Bytes string

definition is_cont :: "char \<Rightarrow> bool" where
  "is_cont c \<longleftrightarrow> 0x80 \<le> (of_char c :: nat) \<and> of_char c < (0xC0 :: nat)"

text \<open>The number of continuation bytes a lead byte announces, with the range of the first one.\<close>

definition lead_ok :: "char \<Rightarrow> string \<Rightarrow> nat option" where
  "lead_ok c r =
     (let b = (of_char c :: nat); n = (case r of d # _ \<Rightarrow> (of_char d :: nat) | [] \<Rightarrow> 0)
      in if b < 0x80 then Some 0
         else if 0xC2 \<le> b \<and> b < 0xE0 then Some 1
         else if b = 0xE0 then (if 0xA0 \<le> n then Some 2 else None)
         else if b = 0xED then (if n < 0xA0 then Some 2 else None)
         else if 0xE1 \<le> b \<and> b < 0xF0 then Some 2
         else if b = 0xF0 then (if 0x90 \<le> n then Some 3 else None)
         else if 0xF1 \<le> b \<and> b < 0xF4 then Some 3
         else if b = 0xF4 then (if n < 0x90 then Some 3 else None)
         else None)"

fun valid_utf8 :: "nat \<Rightarrow> string \<Rightarrow> bool" where
  "valid_utf8 k [] \<longleftrightarrow> k = 0"
| "valid_utf8 (Suc k) (c # r) \<longleftrightarrow> is_cont c \<and> valid_utf8 k r"
| "valid_utf8 0 (c # r) \<longleftrightarrow> (case lead_ok c r of None \<Rightarrow> False | Some k \<Rightarrow> valid_utf8 k r)"

definition decode_data :: "json_data \<Rightarrow> string res" where
  "decode_data d = (case d of
     Text t \<Rightarrow> Inr t
   | Bytes b \<Rightarrow> if valid_utf8 0 b then Inr b else Inl UnicodeDecodeError)"

definition strict_json_loads :: "host \<Rightarrow> json_data \<Rightarrow> bool \<Rightarrow> pyval res" where
  "strict_json_loads H d require_canonical =
     bindE (catchE (catchE (bindE (decode_data d) (\<lambda>text. bindE (loads text) (\<lambda>v. Inr (text, v))))
              (\<lambda>e. e = UnicodeDecodeError) (CanonicalizationError ''JSON is not valid UTF-8''))
              (\<lambda>e. e = JSONDecodeError) (CanonicalizationError ''JSON is malformed or contains trailing data''))
       (\<lambda>(text, v). bindE (canonical_bytes H v) (\<lambda>encoded.
          if require_canonical then
            bindE (utf8_encode text) (\<lambda>t.
              if encoded \<noteq> t then Inl (CanonicalizationError ''JSON input is not in canonical form'')
              else Inr v)
          else Inr v))"

section \<open>The canonical form\<close>

lemma insort_key_map: "insort_key g (f x) (map f xs) = map f (insort_key (\<lambda>y. g (f y)) x xs)"
  by (induction xs) auto

lemma sort_key_map: "sort_key g (map f xs) = map f (sort_key (\<lambda>y. g (f y)) xs)"
  by (induction xs) (auto simp: insort_key_map)

lemma canonical_items_map: "canonical_items H d xs = map (canonical_value H d) xs"
  by (induction xs) auto

lemma canonical_fields_map: "canonical_fields H d m = map (\<lambda>(k, v). (k, canonical_value H d v)) m"
  by (induction m) auto

lemma sort_key_canonical_fields:
  "sort_key fst (canonical_fields H d m) = map (\<lambda>(k, v). (k, canonical_value H d v)) (sort_key fst m)"
  by (simp add: canonical_fields_map sort_key_map case_prod_unfold)

lemma canonical_str_iff:
  "canonical_str H d s = Inr t \<longleftrightarrow>
     t = s \<and> d \<le> MAX_CANONICAL_DEPTH \<and> nfc H s = s \<and> \<not> has_surrogate s \<and> length s \<le> MAX_CANONICAL_STRING_BYTES"
  by (auto simp: canonical_str_def utf8_encode_def)

text \<open>One field of an object: the key is kept, the value is made canonical.\<close>

definition canonical_field :: "host \<Rightarrow> nat \<Rightarrow> string \<times> pyval \<Rightarrow> string \<times> pyval \<Rightarrow> bool" where
  "canonical_field H d p q \<longleftrightarrow>
     fst q = fst p \<and> canonical_str H d (fst p) = Inr (fst p) \<and> canonical_value H d (snd p) = Inr (snd q)"

lemma map_Inr_list_all2:
  "map f xs = map Inr ys \<longleftrightarrow> list_all2 (\<lambda>x y. f x = Inr y) xs ys"
  by (induction xs arbitrary: ys) (auto simp: list_all2_Cons1 Cons_eq_map_conv)

lemma list_all2_ex2: "list_all2 P xs ys \<Longrightarrow> y \<in> set ys \<Longrightarrow> \<exists>x \<in> set xs. P x y"
  by (induction rule: list_all2_induct) auto

lemma list_all2_ex1: "list_all2 P xs ys \<Longrightarrow> x \<in> set xs \<Longrightarrow> \<exists>y \<in> set ys. P x y"
  by (induction rule: list_all2_induct) auto

lemma list_all2_list_all:
  "list_all2 P xs ys \<Longrightarrow> (\<And>x y. x \<in> set xs \<Longrightarrow> P x y \<Longrightarrow> Q y) \<Longrightarrow> list_all Q ys"
  by (induction rule: list_all2_induct) auto

lemma canonical_list_iff:
  "canonical_value H d (PList xs) = Inr c \<longleftrightarrow>
     d \<le> MAX_CANONICAL_DEPTH \<and> length xs \<le> MAX_CANONICAL_ITEMS \<and>
     (\<exists>cs. c = PList cs \<and> list_all2 (\<lambda>x y. canonical_value H (d + 1) x = Inr y) xs cs)"
  by (auto simp: bindE_Inr_iff sequenceE_Inr_iff canonical_items_map map_Inr_list_all2)

lemma canonical_tuple_iff:
  "canonical_value H d (PTuple xs) = Inr c \<longleftrightarrow> canonical_value H d (PList xs) = Inr c"
  by simp

lemma canonical_dict_iff:
  "canonical_value H d (PDict m) = Inr c \<longleftrightarrow>
     d \<le> MAX_CANONICAL_DEPTH \<and> length m \<le> MAX_CANONICAL_ITEMS \<and>
     (\<exists>cs. c = PDict cs \<and> list_all2 (canonical_field H (d + 1)) (sort_key fst m) cs)"
proof -
  have "bindE (canonical_str H (d + 1) k) (\<lambda>k'. bindE (canonical_value H (d + 1) v) (\<lambda>v'. Inr (k', v'))) = Inr q
    \<longleftrightarrow> canonical_field H (d + 1) (k, v) q" for k v q
    by (cases q) (auto simp: bindE_Inr_iff canonical_field_def canonical_str_iff)
  then show ?thesis
    by (auto simp: bindE_Inr_iff sequenceE_Inr_iff sort_key_canonical_fields map_Inr_list_all2
        case_prod_unfold comp_def)
qed

lemma canonical_field_fst: "list_all2 (canonical_field H d) xs ys \<Longrightarrow> map fst ys = map fst xs"
  by (induction rule: list_all2_induct) (auto simp: canonical_field_def)

lemmas canonical_iffs = canonical_list_iff canonical_dict_iff canonical_tuple_iff canonical_str_iff

declare canonical_value.simps(6,7,8) [simp del]

text \<open>The canonical form of a canonical value is itself.\<close>

theorem canonical_value_idem: "canonical_value H d v = Inr c \<Longrightarrow> canonical_value H d c = Inr c"
proof (induction v arbitrary: d c)
  case (PList xs)
  then obtain cs where c: "c = PList cs" and all: "list_all2 (\<lambda>x y. canonical_value H (d + 1) x = Inr y) xs cs"
    and lim: "d \<le> MAX_CANONICAL_DEPTH" "length xs \<le> MAX_CANONICAL_ITEMS"
    by (auto simp: canonical_iffs)
  have "list_all2 (\<lambda>x y. canonical_value H (d + 1) x = Inr y) cs cs"
    using all PList.IH by (auto simp: list_all2_conv_all_nth) (metis nth_mem)
  with c lim list_all2_lengthD [OF all] show ?case by (auto simp: canonical_iffs)
next
  case (PTuple xs)
  then obtain cs where c: "c = PList cs" and all: "list_all2 (\<lambda>x y. canonical_value H (d + 1) x = Inr y) xs cs"
    and lim: "d \<le> MAX_CANONICAL_DEPTH" "length xs \<le> MAX_CANONICAL_ITEMS"
    by (auto simp: canonical_iffs)
  have "list_all2 (\<lambda>x y. canonical_value H (d + 1) x = Inr y) cs cs"
    using all PTuple.IH by (auto simp: list_all2_conv_all_nth) (metis nth_mem)
  with c lim list_all2_lengthD [OF all] show ?case by (auto simp: canonical_iffs)
next
  case (PDict m)
  then obtain cs where c: "c = PDict cs" and all: "list_all2 (canonical_field H (d + 1)) (sort_key fst m) cs"
    and lim: "d \<le> MAX_CANONICAL_DEPTH" "length m \<le> MAX_CANONICAL_ITEMS"
    by (auto simp: canonical_iffs)
  have "sorted (map fst cs)" using canonical_field_fst [OF all] by simp
  then have "sort_key fst cs = cs" by (rule sort_key_id_if_sorted)
  moreover have "canonical_field H (d + 1) p p" if p: "p \<in> set cs" for p
  proof -
    obtain q where "q \<in> set (sort_key fst m)" "canonical_field H (d + 1) q p"
      using list_all2_ex2 [OF all p] by blast
    then show ?thesis
      using PDict.IH [of q "snd q"] by (auto simp: canonical_field_def snds.simps)
  qed
  then have "list_all2 (canonical_field H (d + 1)) cs cs" by (simp add: list.rel_refl_strong)
  ultimately show ?case using c lim list_all2_lengthD [OF all] by (auto simp: canonical_iffs)
qed (auto simp: bindE_Inr_iff canonical_str_iff split: if_splits)


section \<open>Round trip\<close>

text \<open>No float anywhere in a value; the strict loader refuses every float.\<close>

fun float_free :: "pyval \<Rightarrow> bool" where
  "float_free (PFloat f) = False"
| "float_free (PList xs) = list_all float_free xs"
| "float_free (PTuple xs) = list_all float_free xs"
| "float_free (PDict m) = list_all float_free (map snd m)"
| "float_free _ = True"

text \<open>
  The representation invariant of Python values: the keys of a dictionary are distinct and a
  string is the encoding of a sequence of code points.
\<close>

definition wf_str :: "string \<Rightarrow> bool" where
  "wf_str s \<longleftrightarrow> has_surrogate s \<or> valid_utf8 0 s"

fun wf_val :: "pyval \<Rightarrow> bool" where
  "wf_val (PStr s) = wf_str s"
| "wf_val (PList xs) = list_all wf_val xs"
| "wf_val (PTuple xs) = list_all wf_val xs"
| "wf_val (PDict m) = (distinct (map fst m) \<and> list_all wf_str (map fst m) \<and> list_all wf_val (map snd m))"
| "wf_val _ = True"

lemma safe_int_repr: "\<bar>i\<bar> \<le> MAX_SAFE_INTEGER \<Longrightarrow> length (nat_repr (nat \<bar>i\<bar>)) \<le> 4300"
proof -
  assume "\<bar>i\<bar> \<le> MAX_SAFE_INTEGER"
  then have "nat \<bar>i\<bar> < 10 ^ Suc 15" by (simp add: MAX_SAFE_INTEGER_def)
  from length_nat_repr [OF this] show ?thesis by simp
qed

text \<open>A value as \<open>json.loads\<close> returns it: distinct keys, and finite floats the hook reads back.\<close>

fun as_loaded :: "hooks \<Rightarrow> pyval \<Rightarrow> bool" where
  "as_loaded K (PFloat f) = (case f of FFinite t \<Rightarrow> float_text K t | _ \<Rightarrow> True)"
| "as_loaded K (PList xs) = list_all (as_loaded K) xs"
| "as_loaded K (PTuple xs) = list_all (as_loaded K) xs"
| "as_loaded K (PDict m) = (distinct (map fst m) \<and> list_all (as_loaded K) (map snd m))"
| "as_loaded K _ = True"

lemma float_free_loaded: "float_free v \<Longrightarrow> wf_val v \<Longrightarrow> as_loaded K v"
  by (induction v) (auto simp: list_all_iff snds.simps)

lemma plain_iff: "plain v \<longleftrightarrow> readable strict_hooks v"
  by (induction v)
    (auto simp: list_all_iff snds.simps float_text_def strict_hooks_def Let_def split: pyfloat.splits)

lemma canonical_value_readable:
  "canonical_value H d v = Inr c \<Longrightarrow> as_loaded K v \<Longrightarrow> readable K c"
proof (induction v arbitrary: d c)
  case (PList xs)
  then have "readable K y" if "x \<in> set xs" "canonical_value H (d + 1) x = Inr y" for x y
    using that by (auto simp: list_all_iff)
  with PList.prems(1) show ?case
    by (auto simp: canonical_list_iff elim!: list_all2_list_all)
next
  case (PTuple xs)
  then have "readable K y" if "x \<in> set xs" "canonical_value H (d + 1) x = Inr y" for x y
    using that by (auto simp: list_all_iff)
  with PTuple.prems(1) show ?case
    by (auto simp: canonical_tuple_iff canonical_list_iff elim!: list_all2_list_all)
next
  case (PDict m)
  then obtain cs where c: "c = PDict cs" and all: "list_all2 (canonical_field H (d + 1)) (sort_key fst m) cs"
    by (auto simp: canonical_iffs)
  have "readable K (snd p)" if p: "p \<in> set cs" for p
  proof -
    obtain q where "q \<in> set m" "canonical_value H (d + 1) (snd q) = Inr (snd p)"
      using list_all2_ex2 [OF all p] by (auto simp: canonical_field_def)
    then show ?thesis
      using PDict.IH [of q "snd q"] PDict.prems by (auto simp: list_all_iff snds.simps)
  qed
  moreover have "distinct (map fst cs)"
    using canonical_field_fst [OF all] PDict.prems(2)
    by (simp add: distinct_map distinct_sort inj_on_def)
  ultimately show ?case using c canonical_field_fst [OF all] by (auto simp: list_all_iff)
qed (auto simp: bindE_Inr_iff canonical_str_iff safe_int_repr split: if_splits pyfloat.splits)

corollary canonical_value_plain:
  "canonical_value H d v = Inr c \<Longrightarrow> float_free v \<Longrightarrow> wf_val v \<Longrightarrow> plain c"
  unfolding plain_iff by (blast intro: canonical_value_readable float_free_loaded)

text \<open>Reading canonical bytes back gives the canonical value: \<open>loads\<close> inverts \<open>canonical_bytes\<close>.\<close>

lemma canonical_bytes_cases:
  assumes "canonical_bytes H v = Inr b"
  obtains c where "canonical_value H 0 v = Inr c" "dumps c = Inr b" "\<not> has_surrogate b"
  using assms by (auto simp: canonical_bytes_def bindE_Inr_iff utf8_encode_Inr_iff)

lemma loads_with_canonical_bytes:
  assumes "canonical_bytes H v = Inr b" and c: "canonical_value H 0 v = Inr c" and "keeps_objects K" and "readable K c"
    and "set pad \<subseteq> {CHR '' '', CHR 0x0A}"
  shows "loads_with K (b @ pad) = Inr c"
proof -
  obtain t where "dumps c = Inr t" "loads_with K (t @ pad) = Inr c" using loads_with_dumps [OF assms(3,4,5)] by blast
  moreover from this have "b = t" using assms(1) c by (auto simp: canonical_bytes_def utf8_encode_def split: if_splits)
  ultimately show ?thesis by simp
qed

lemma loads_canonical_bytes:
  assumes "canonical_bytes H v = Inr b" and "float_free v" and "wf_val v"
  shows "\<exists>c. canonical_value H 0 v = Inr c \<and> loads b = Inr c \<and> canonical_bytes H c = Inr b"
proof -
  obtain c where c: "canonical_value H 0 v = Inr c" "dumps c = Inr b" "\<not> has_surrogate b"
    using assms(1) by (rule canonical_bytes_cases)
  then have "plain c" using assms(2,3) by (blast intro: canonical_value_plain)
  then obtain t where "dumps c = Inr t" "loads t = Inr c" using loads_dumps by blast
  moreover have "canonical_bytes H c = Inr b"
    using c canonical_value_idem [OF c(1)] by (simp add: canonical_bytes_def utf8_encode_def)
  ultimately show ?thesis using c by auto
qed


section \<open>Well-formed UTF-8\<close>

lemma valid_utf8_append: "valid_utf8 k a \<Longrightarrow> valid_utf8 0 b \<Longrightarrow> valid_utf8 k (a @ b)"
proof (induction k a rule: valid_utf8.induct)
  case (3 c r)
  then obtain k where k: "lead_ok c r = Some k" "valid_utf8 k r" by (auto split: option.splits)
  moreover have "lead_ok c (r @ b) = Some k"
    using k by (cases r) (auto simp: lead_ok_def Let_def split: if_splits list.splits)
  ultimately show ?case using 3 by simp
qed auto

lemma valid_utf8_ascii: "list_all (\<lambda>c. of_char c < (0x80::nat)) s \<Longrightarrow> valid_utf8 0 s"
  by (induction s) (auto simp: lead_ok_def)

lemma char_neq_high: "0x80 \<le> (of_char c :: nat) \<Longrightarrow> of_char d < (0x80::nat) \<Longrightarrow> c \<noteq> d"
  by auto

lemma escape_high: "0x80 \<le> (of_char c :: nat) \<Longrightarrow> escape_char c = [c]"
  by (simp add: escape_char_def char_neq_high)

lemma hex_digit_ascii: "n < 16 \<Longrightarrow> of_char (hex_digit n) < (0x80::nat)"
  by (drule nat_less_16_cases) (auto simp: hex_digit_def)

lemma escape_ascii:
  assumes "(of_char c :: nat) < 0x80"
  shows "list_all (\<lambda>c. of_char c < (0x80::nat)) (escape_char c)"
proof -
  have "(of_char c :: nat) < 32 \<Longrightarrow> of_char c div 16 < (16::nat)" by simp
  with assms show ?thesis by (simp add: escape_char_def hex_digit_ascii)
qed

lemma valid_utf8_escape: "valid_utf8 k s \<Longrightarrow> valid_utf8 k (concat (map escape_char s))"
proof (induction k s rule: valid_utf8.induct)
  case (2 k c r)
  then show ?case by (simp add: escape_high is_cont_def)
next
  case (3 c r)
  then obtain k where k: "lead_ok c r = Some k" "valid_utf8 k r" by (auto split: option.splits)
  with 3 have IH: "valid_utf8 k (concat (map escape_char r))" by simp
  show ?case
  proof (cases k)
    case 0
    then have "(of_char c :: nat) < 0x80" using k by (auto simp: lead_ok_def Let_def split: if_splits)
    then have "valid_utf8 0 (escape_char c)" by (intro valid_utf8_ascii escape_ascii)
    with IH 0 show ?thesis by (simp add: valid_utf8_append)
  next
    case (Suc k')
    then have high: "0x80 \<le> (of_char c :: nat)" using k by (auto simp: lead_ok_def Let_def split: if_splits)
    from Suc k obtain e r' where "r = e # r'" "is_cont e" by (cases r) auto
    then have "lead_ok c (concat (map escape_char r)) = Some k"
      using k by (simp add: escape_high is_cont_def lead_ok_def Let_def)
    with IH high show ?thesis by (simp add: escape_high)
  qed
qed auto

lemma valid_utf8_quote: "valid_utf8 0 s \<Longrightarrow> valid_utf8 0 (quote s)"
  by (simp add: quote_def lead_ok_def valid_utf8_append valid_utf8_escape)

lemma valid_utf8_join: "list_all (valid_utf8 0) ts \<Longrightarrow> valid_utf8 0 (join ts)"
  by (induction ts rule: join.induct) (auto simp: valid_utf8_append lead_ok_def)

lemma nat_repr_ascii: "list_all (\<lambda>c. of_char c < (0x80::nat)) (nat_repr n)"
  using nat_repr_digits [of n] by (fastforce simp: list_all_iff is_digit_def less_eq_char_def)


text \<open>A value all of whose strings are well-formed UTF-8 prints as well-formed UTF-8.\<close>

fun utf8_val :: "pyval \<Rightarrow> bool" where
  "utf8_val (PStr s) = valid_utf8 0 s"
| "utf8_val (PList xs) = list_all utf8_val xs"
| "utf8_val (PDict m) = (list_all (valid_utf8 0) (map fst m) \<and> list_all utf8_val (map snd m))"
| "utf8_val _ = True"

lemma valid_utf8_brackets:
  "list_all (valid_utf8 0) ts \<Longrightarrow> valid_utf8 0 (CHR ''['' # join ts @ [CHR '']''])"
  "list_all (valid_utf8 0) ts \<Longrightarrow> valid_utf8 0 (CHR ''{'' # join ts @ [CHR ''}''])"
  by (auto simp: lead_ok_def valid_utf8_append valid_utf8_join)

text \<open>The characters of printed numbers are printable ASCII characters.\<close>

definition printable :: "char \<Rightarrow> bool" where
  "printable c \<longleftrightarrow> 32 \<le> (of_char c :: nat) \<and> of_char c < (0x80 :: nat)"

lemma is_digit_printable: "is_digit c \<Longrightarrow> printable c"
  by (simp add: is_digit_def printable_def less_eq_char_def)

lemma takeWhile_printable: "list_all printable (takeWhile is_digit cs)"
  by (auto simp: list_all_iff dest: set_takeWhileD is_digit_printable)

lemma frac_printable: "list_all printable (take (frac_len cs) cs)"
  using takeWhile_printable [of "tl cs"] by (cases cs) (auto simp: frac_len_def printable_def simp flip: takeWhile_eq_take)

lemma exp_printable: "list_all printable (take (exp_len cs) cs)"
proof -
  have sgn: "list_all printable (take (Suc (length (takeWhile is_digit ds))) (c # ds))" if "printable c" for c ds
    using that takeWhile_printable [of ds] by (simp flip: takeWhile_eq_take)
  show ?thesis
  proof (cases cs)
    case (Cons c ds)
    then show ?thesis
      using takeWhile_printable [of ds] sgn [of "hd ds" "tl ds"]
      by (cases ds) (auto simp: exp_len_def printable_def simp flip: takeWhile_eq_take)
  qed simp
qed

lemma float_text_printable:
  assumes "float_text K t"
  shows "list_all printable t"
proof -
  define body where "body = (if t \<noteq> [] \<and> hd t = CHR ''-'' then tl t else t)"
  define rest where "rest = drop (length (int_digits body)) body"
  have len: "length rest = frac_len rest + exp_len (drop (frac_len rest) rest)"
    using assms by (simp add: float_text_def body_def rest_def Let_def)
  have "rest = take (frac_len rest) rest @ take (exp_len (drop (frac_len rest) rest)) (drop (frac_len rest) rest)"
    using len by simp
  then have r: "list_all printable rest" by (metis frac_printable exp_printable list_all_append)
  have "list_all printable (int_digits body)"
    using takeWhile_printable [of body] by (cases body) (auto simp: int_digits_def printable_def)
  moreover have "int_digits body @ rest = body"
    by (cases body) (auto simp: rest_def int_digits_def simp flip: dropWhile_eq_drop)
  ultimately have "list_all printable body" using r by (metis list_all_append)
  then show ?thesis by (cases t) (auto simp: body_def printable_def split: if_splits)
qed

lemma int_repr_printable: "list_all printable (int_repr i)"
  using nat_repr_digits [of "nat \<bar>i\<bar>"] is_digit_printable
  by (auto simp: int_repr_def list_all_iff printable_def)

lemma printable_utf8: "list_all printable t \<Longrightarrow> valid_utf8 0 t"
  by (rule valid_utf8_ascii) (auto simp: list_all_iff printable_def)

lemma dumps_valid_utf8_with: "readable K c \<Longrightarrow> utf8_val c \<Longrightarrow> dumps c = Inr t \<Longrightarrow> valid_utf8 0 t"
proof (induction c arbitrary: t)
  case (PList xs)
  then obtain ts where t: "t = CHR ''['' # join ts @ [CHR '']'']"
    and ts: "list_all2 (\<lambda>x u. dumps x = Inr u) xs ts"
    by (auto simp: bindE_Inr_iff sequenceE_Inr_iff dumps_items_map map_Inr_list_all2)
  have "list_all (valid_utf8 0) ts"
    using ts by (rule list_all2_list_all) (use PList in \<open>auto simp: list_all_iff\<close>)
  with t show ?case by (simp only: valid_utf8_brackets)
next
  case (PDict m)
  let ?show = "\<lambda>p. bindE (dumps (snd p)) (\<lambda>u. Inr (quote (fst p) @ CHR '':'' # u))"
  from PDict.prems have "sorted (map fst (dumps_fields m))"
    by (simp add: dumps_fields_map case_prod_unfold comp_def)
  with PDict.prems obtain ts where t: "t = CHR ''{'' # join ts @ [CHR ''}'']"
    and ts: "list_all2 (\<lambda>p u. ?show p = Inr u) m ts"
    by (auto simp: bindE_Inr_iff sequenceE_Inr_iff dumps_fields_map map_Inr_list_all2
        sort_key_id_if_sorted case_prod_unfold comp_def)
  have "list_all (valid_utf8 0) ts"
    using ts
  proof (rule list_all2_list_all)
    fix p u
    assume p: "p \<in> set m" and "?show p = Inr u"
    then obtain w where w: "dumps (snd p) = Inr w" "u = quote (fst p) @ CHR '':'' # w"
      by (auto simp: bindE_Inr_iff)
    have "valid_utf8 0 w"
      using PDict.IH [of p "snd p" w] PDict.prems p w by (auto simp: list_all_iff snds.simps)
    then show "valid_utf8 0 u"
      using w p PDict.prems by (auto simp: list_all_iff lead_ok_def valid_utf8_append valid_utf8_quote)
  qed
  with t show ?case by (simp only: valid_utf8_brackets)
next
  case (PFloat f)
  then show ?case by (cases f) (auto intro: printable_utf8 float_text_printable)
qed (auto simp: printable_utf8 int_repr_printable valid_utf8_quote lead_ok_def split: if_splits)

corollary dumps_valid_utf8: "plain c \<Longrightarrow> utf8_val c \<Longrightarrow> dumps c = Inr t \<Longrightarrow> valid_utf8 0 t"
  unfolding plain_iff by (rule dumps_valid_utf8_with)

text \<open>No printed value has a control character in it.\<close>

abbreviation no_control :: "string \<Rightarrow> bool" where
  "no_control \<equiv> list_all (\<lambda>c. 32 \<le> (of_char c :: nat))"

lemma printable_no_control: "list_all printable t \<Longrightarrow> no_control t"
  by (auto simp: list_all_iff printable_def)

lemma hex_digit_no_control: "n < 16 \<Longrightarrow> 32 \<le> (of_char (hex_digit n) :: nat)"
  by (drule nat_less_16_cases) (auto simp: hex_digit_def)

lemma escape_no_control: "no_control (escape_char c)"
proof -
  have "(of_char c :: nat) < 32 \<Longrightarrow> of_char c div 16 < (16::nat)" by simp
  then show ?thesis by (simp add: escape_char_def hex_digit_no_control not_less)
qed

lemma quote_no_control: "no_control (quote s)"
  using escape_no_control by (auto simp: quote_def list_all_iff)

lemma join_no_control: "list_all no_control ts \<Longrightarrow> no_control (join ts)"
  by (induction ts rule: join.induct) auto

lemma dumps_no_control: "readable K c \<Longrightarrow> dumps c = Inr t \<Longrightarrow> no_control t"
proof (induction c arbitrary: t)
  case (PFloat f)
  then show ?case by (cases f) (auto intro: printable_no_control float_text_printable)
next
  case (PList xs)
  then obtain ts where t: "t = CHR ''['' # join ts @ [CHR '']'']" and ts: "list_all2 (\<lambda>x u. dumps x = Inr u) xs ts"
    by (auto simp: bindE_Inr_iff sequenceE_Inr_iff dumps_items_map map_Inr_list_all2)
  have "list_all no_control ts"
    using ts by (rule list_all2_list_all) (use PList in \<open>auto simp: list_all_iff\<close>)
  with t show ?case by (simp add: join_no_control)
next
  case (PDict m)
  let ?show = "\<lambda>p. bindE (dumps (snd p)) (\<lambda>u. Inr (quote (fst p) @ CHR '':'' # u))"
  from PDict.prems have "sorted (map fst (dumps_fields m))"
    by (simp add: dumps_fields_map case_prod_unfold comp_def)
  with PDict.prems obtain ts where t: "t = CHR ''{'' # join ts @ [CHR ''}'']"
    and ts: "list_all2 (\<lambda>p u. ?show p = Inr u) m ts"
    by (auto simp: bindE_Inr_iff sequenceE_Inr_iff dumps_fields_map map_Inr_list_all2
        sort_key_id_if_sorted case_prod_unfold comp_def)
  have "list_all no_control ts"
    using ts
  proof (rule list_all2_list_all)
    fix p u
    assume p: "p \<in> set m" and "?show p = Inr u"
    then obtain w where w: "dumps (snd p) = Inr w" "u = quote (fst p) @ CHR '':'' # w"
      by (auto simp: bindE_Inr_iff)
    have "no_control w"
      using PDict.IH [of p "snd p" w] PDict.prems p w by (auto simp: list_all_iff snds.simps)
    then show "no_control u" using w by (simp add: quote_no_control)
  qed
  with t show ?case by (simp add: join_no_control)
qed (auto simp: quote_no_control intro: printable_no_control int_repr_printable)

lemma canonical_value_utf8: "canonical_value H d v = Inr c \<Longrightarrow> wf_val v \<Longrightarrow> utf8_val c"
proof (induction v arbitrary: d c)
  case (PList xs)
  then have "utf8_val y" if "x \<in> set xs" "canonical_value H (d + 1) x = Inr y" for x y
    using that by (auto simp: list_all_iff)
  with PList.prems(1) show ?case by (auto simp: canonical_list_iff elim!: list_all2_list_all)
next
  case (PTuple xs)
  then have "utf8_val y" if "x \<in> set xs" "canonical_value H (d + 1) x = Inr y" for x y
    using that by (auto simp: list_all_iff)
  with PTuple.prems(1) show ?case
    by (auto simp: canonical_tuple_iff canonical_list_iff elim!: list_all2_list_all)
next
  case (PDict m)
  then obtain cs where c: "c = PDict cs" and all: "list_all2 (canonical_field H (d + 1)) (sort_key fst m) cs"
    by (auto simp: canonical_iffs)
  have "valid_utf8 0 (fst p) \<and> utf8_val (snd p)" if p: "p \<in> set cs" for p
  proof -
    obtain q where "q \<in> set m" "canonical_field H (d + 1) q p"
      using list_all2_ex2 [OF all p] by auto
    then show ?thesis
      using PDict.IH [of q "snd q"] PDict.prems
      by (auto simp: list_all_iff snds.simps canonical_field_def canonical_str_iff wf_str_def)
  qed
  then show ?case using c by (auto simp: list_all_iff)
qed (auto simp: bindE_Inr_iff canonical_str_iff wf_str_def split: if_splits)

text \<open>
  The strict loader accepts canonical bytes, as text and as bytes, and returns the canonical
  value they stand for.
\<close>

lemma strict_json_loads_canonical:
  assumes "canonical_bytes H v = Inr b" and "float_free v" and "wf_val v"
    and "d = Text b \<or> d = Bytes b"
  shows "\<exists>c. canonical_value H 0 v = Inr c \<and> strict_json_loads H d True = Inr c"
proof -
  obtain c where c: "canonical_value H 0 v = Inr c" "loads b = Inr c" "canonical_bytes H c = Inr b"
    using loads_canonical_bytes [OF assms(1-3)] by blast
  obtain c' where c': "canonical_value H 0 v = Inr c'" "dumps c' = Inr b" "\<not> has_surrogate b"
    using assms(1) by (rule canonical_bytes_cases)
  have "plain c" "utf8_val c" using c(1) assms canonical_value_plain canonical_value_utf8 by blast+
  with c c' have "valid_utf8 0 b" by (auto intro: dumps_valid_utf8)
  with assms(4) have "decode_data d = Inr b" by (auto simp: decode_data_def)
  with c c' show ?thesis by (simp add: strict_json_loads_def catchE_def utf8_encode_def)
qed

text \<open>Equal canonical bytes come from the same canonical value.\<close>

lemma canonical_bytes_inj:
  assumes "canonical_bytes H v = Inr b" and "canonical_bytes H w = Inr b"
    and "float_free v" and "wf_val v" and "float_free w" and "wf_val w"
  shows "canonical_value H 0 v = canonical_value H 0 w"
  using loads_canonical_bytes [OF assms(1,3,4)] loads_canonical_bytes [OF assms(2,5,6)] by auto

lemma canonical_bytes_perm:
  assumes "mset m = mset m'" and "distinct (map fst m)"
  shows "canonical_bytes H (PDict m) = canonical_bytes H (PDict m')"
proof -
  have "sort_key fst m = sort_key fst m'"
    using assms by (intro sort_key_eq_sort_key) (auto simp: distinct_map)
  moreover have "length m = length m'" using assms(1) by (metis size_mset)
  ultimately have "canonical_value H 0 (PDict m) = canonical_value H 0 (PDict m')"
    by (simp add: canonical_value.simps sort_key_canonical_fields)
  then show ?thesis by (simp add: canonical_bytes_def)
qed


section \<open>What is accepted\<close>

text \<open>Every value nested in a value, keys included, with its depth.\<close>

fun subvalues :: "nat \<Rightarrow> pyval \<Rightarrow> (nat \<times> pyval) list" where
  "subvalues d (PList xs) = (d, PList xs) # concat (map (subvalues (d + 1)) xs)"
| "subvalues d (PTuple xs) = (d, PTuple xs) # concat (map (subvalues (d + 1)) xs)"
| "subvalues d (PDict m) =
     (d, PDict m) # map (\<lambda>k. (d + 1, PStr k)) (map fst m) @ concat (map (subvalues (d + 1)) (map snd m))"
| "subvalues d v = [(d, v)]"

definition within_limits :: "host \<Rightarrow> nat \<times> pyval \<Rightarrow> bool" where
  "within_limits H p \<longleftrightarrow> fst p \<le> MAX_CANONICAL_DEPTH \<and>
     (case snd p of
        PInt i \<Rightarrow> \<bar>i\<bar> \<le> MAX_SAFE_INTEGER
      | PFloat f \<Rightarrow> f \<noteq> FNaN \<and> f \<noteq> FInf \<and> f \<noteq> FNegZero
      | PStr s \<Rightarrow> nfc H s = s \<and> \<not> has_surrogate s \<and> length s \<le> MAX_CANONICAL_STRING_BYTES
      | PList xs \<Rightarrow> length xs \<le> MAX_CANONICAL_ITEMS
      | PTuple xs \<Rightarrow> length xs \<le> MAX_CANONICAL_ITEMS
      | PDict m \<Rightarrow> length m \<le> MAX_CANONICAL_ITEMS
      | POther t \<Rightarrow> False
      | _ \<Rightarrow> True)"

lemma ex_list_all2: "(\<exists>ys. list_all2 P xs ys) \<longleftrightarrow> (\<forall>x \<in> set xs. \<exists>y. P x y)"
proof
  assume "\<forall>x \<in> set xs. \<exists>y. P x y"
  then show "\<exists>ys. list_all2 P xs ys" by (induction xs) (auto simp: list_all2_Cons1)
qed (use list_all2_ex1 in fastforce)

lemma canonical_value_ok_iff: "okE (canonical_value H d v) \<longleftrightarrow> list_all (within_limits H) (subvalues d v)"
proof (induction v arbitrary: d)
  case (PList xs)
  then show ?case
    by (auto simp: okE_iff canonical_list_iff ex_list_all2 list_all_iff within_limits_def)
next
  case (PTuple xs)
  then show ?case
    by (auto simp: okE_iff canonical_tuple_iff canonical_list_iff ex_list_all2 list_all_iff within_limits_def)
next
  case (PDict m)
  then have IH: "(\<exists>c. canonical_value H (d + 1) (snd p) = Inr c) \<longleftrightarrow> list_all (within_limits H) (subvalues (d + 1) (snd p))"
    if "p \<in> set m" for p
    using that by (auto simp: okE_iff snds.simps)
  have field: "(\<exists>q. canonical_field H (d + 1) p q) \<longleftrightarrow>
      within_limits H (d + 1, PStr (fst p)) \<and> list_all (within_limits H) (subvalues (d + 1) (snd p))"
    if "p \<in> set m" for p
    using IH [OF that] by (auto simp: canonical_field_def canonical_str_iff within_limits_def)
  have "okE (canonical_value H d (PDict m)) \<longleftrightarrow>
      within_limits H (d, PDict m) \<and> (\<forall>p \<in> set m. \<exists>q. canonical_field H (d + 1) p q)"
    by (auto simp: okE_iff canonical_dict_iff ex_list_all2 within_limits_def)
  also have "\<dots> \<longleftrightarrow> list_all (within_limits H) (subvalues d (PDict m))"
    using field by (auto simp: list_all_iff)
  finally show ?case .
qed (auto simp: okE_def canonical_str_def utf8_encode_def within_limits_def split: sum.splits)

lemma valid_utf8_no_surrogate: "valid_utf8 k s \<Longrightarrow> \<not> has_surrogate s"
proof (induction k s rule: valid_utf8.induct)
  case (2 k c r)
  then show ?case by (cases r) (auto simp: is_cont_def)
next
  case (3 c r)
  then obtain k where k: "lead_ok c r = Some k" "\<not> has_surrogate r" by (auto split: option.splits)
  then show ?case by (cases r) (auto simp: lead_ok_def)
qed auto

text \<open>Every finite float of a value is given by its \<open>repr\<close>: a JSON number with a fraction or an exponent.\<close>

definition float_reprs :: "pyval \<Rightarrow> bool" where
  "float_reprs v \<longleftrightarrow> as_loaded (plain_hooks FFinite) v"

lemma canonical_bytes_ok_iff_floats:
  assumes "float_reprs v" and "wf_val v"
  shows "okE (canonical_bytes H v) \<longleftrightarrow> list_all (within_limits H) (subvalues 0 v)"
proof -
  have "okE (canonical_bytes H v)" if c: "canonical_value H 0 v = Inr c" for c
  proof -
    have r: "readable (plain_hooks FFinite) c" and u: "utf8_val c"
      using c assms canonical_value_readable canonical_value_utf8 unfolding float_reprs_def by blast+
    moreover obtain t where "dumps c = Inr t" using scan_dumps_with [OF keeps_objects_plain r] by blast
    ultimately show ?thesis
      using c by (auto simp: okE_iff canonical_bytes_def utf8_encode_def
          dest: dumps_valid_utf8_with valid_utf8_no_surrogate)
  qed
  then show ?thesis
    by (auto simp: canonical_value_ok_iff [symmetric] okE_iff canonical_bytes_def bindE_Inr_iff)
qed

lemma canonical_bytes_ok_iff:
  assumes "float_free v" and "wf_val v"
  shows "okE (canonical_bytes H v) \<longleftrightarrow> list_all (within_limits H) (subvalues 0 v)"
  using assms by (intro canonical_bytes_ok_iff_floats) (simp_all add: float_reprs_def float_free_loaded)

section \<open>Evaluation on the concrete host\<close>

definition ascii :: "string \<Rightarrow> bool" where
  "ascii s \<longleftrightarrow> list_all (\<lambda>c. of_char c < (0x80::nat)) s"

text \<open>An ASCII value within the limits, without floats: what the examples are made of.\<close>

definition demo_value_ok :: "nat \<times> pyval \<Rightarrow> bool" where
  "demo_value_ok p \<longleftrightarrow> fst p \<le> 8 \<and> (case snd p of
     PInt i \<Rightarrow> \<bar>i\<bar> \<le> 9007199254740991
   | PFloat f \<Rightarrow> False
   | PStr s \<Rightarrow> ascii s \<and> length s \<le> 16384
   | PList xs \<Rightarrow> length xs \<le> 256
   | PTuple xs \<Rightarrow> length xs \<le> 256
   | PDict m \<Rightarrow> length m \<le> 256 \<and> distinct (map fst m)
   | POther t \<Rightarrow> False
   | _ \<Rightarrow> True)"

lemma ascii_utf8: "ascii s \<Longrightarrow> valid_utf8 0 s"
  unfolding ascii_def by (rule valid_utf8_ascii)

lemma demo_value_ok_limits: "demo_value_ok p \<Longrightarrow> within_limits demo_host p"
  by (auto simp: demo_value_ok_def within_limits_def canonical_limits demo_host_def
      dest!: ascii_utf8 valid_utf8_no_surrogate split: pyval.splits)

lemma demo_value_ok_wf:
  "list_all demo_value_ok (subvalues d v) \<Longrightarrow> float_free v \<and> wf_val v"
proof (induction v arbitrary: d)
  case (PList xs)
  then show ?case by (fastforce simp: list_all_iff)
next
  case (PTuple xs)
  then show ?case by (fastforce simp: list_all_iff)
next
  case (PDict m)
  have "float_free (snd p) \<and> wf_val (snd p) \<and> wf_str (fst p)" if p: "p \<in> set m" for p
  proof -
    have "demo_value_ok (d + 1, PStr (fst p))" and sub: "list_all demo_value_ok (subvalues (d + 1) (snd p))"
      using PDict.prems p by (auto simp: list_all_iff)
    then have "wf_str (fst p)" by (auto simp: demo_value_ok_def wf_str_def dest: ascii_utf8)
    then show ?thesis
      using PDict.IH [of p "snd p" "d + 1"] p sub by (auto simp: snds.simps)
  qed
  moreover have "distinct (map fst m)" using PDict.prems by (simp add: demo_value_ok_def)
  ultimately show ?case by (auto simp: list_all_iff)
qed (auto simp: demo_value_ok_def wf_str_def intro: ascii_utf8)

lemma demo_canonical: "list_all demo_value_ok (subvalues 0 v) \<Longrightarrow> okE (canonical_bytes demo_host v)"
  using demo_value_ok_wf [of 0 v] canonical_bytes_ok_iff [of v demo_host]
  by (auto simp: list_all_iff intro: demo_value_ok_limits)

lemma digest_demo: "list_all demo_value_ok (subvalues 0 v) \<Longrightarrow> digest demo_host v = Inr demo_digest"
  using demo_canonical [of v] by (auto simp: okE_iff digest_def demo_host_def)

section \<open>Looking up fields of canonical objects\<close>

lemma map_of_sort_key: "distinct (map fst m) \<Longrightarrow> map_of (sort_key fst m) = map_of m"
  by (rule map_of_eqI) (auto simp: distinct_map distinct_sort inj_on_def map_of_eq_Some_iff)

lemma canonical_field_lookup:
  "list_all2 (canonical_field H d) xs ys \<Longrightarrow>
   rel_option (\<lambda>v w. canonical_value H d v = Inr w) (map_of xs k) (map_of ys k)"
  by (induction rule: list_all2_induct) (auto simp: canonical_field_def)

lemma canonical_dict_lookup:
  assumes "canonical_value H d (PDict m) = Inr (PDict cs)" and "distinct (map fst m)"
  shows "rel_option (\<lambda>v w. canonical_value H (d + 1) v = Inr w) (map_of m k) (map_of cs k)"
  using assms canonical_field_lookup [of H "d + 1" "sort_key fst m" cs k]
  by (auto simp: canonical_dict_iff map_of_sort_key)

lemma canonical_dict_get:
  assumes "canonical_value H d (PDict m) = Inr (PDict cs)" and "distinct (map fst m)" and "k \<in> fst ` set m"
  shows "canonical_value H (d + 1) (dict_get m k) = Inr (dict_get cs k)"
  using canonical_dict_lookup [OF assms(1,2), of k] assms(3)
  by (cases "map_of m k"; cases "map_of cs k") (auto simp: dict_get_def map_of_eq_None_iff)

lemma canonical_value_str_inj:
  "canonical_value H d (PStr s) = Inr v \<Longrightarrow> canonical_value H d (PStr t) = Inr v \<Longrightarrow> s = t"
  by (auto simp: res_simps canonical_str_iff)

lemma canonical_dicts_agree:
  assumes "canonical_value H d (PDict m) = Inr c" and "canonical_value H d (PDict m') = Inr c"
    and "distinct (map fst m)" and "distinct (map fst m')" and "k \<in> fst ` set m" and "k \<in> fst ` set m'"
  shows "\<exists>v. canonical_value H (d + 1) (dict_get m k) = Inr v \<and> canonical_value H (d + 1) (dict_get m' k) = Inr v"
  using assms canonical_dict_get by (metis canonical_dict_iff)

section \<open>Properties\<close>

text \<open>
  C38: round trip. When \<open>canonical_bytes\<close> accepts a float-free value, \<open>strict_json_loads\<close> with
  \<open>require_canonical\<close> reads those bytes (given as text or as bytes) back as the canonical form of the
  value, and that form has the same canonical bytes.
\<close>

theorem canonical_round_trip:
  assumes "canonical_bytes H v = Inr b" and "float_free v" and "wf_val v"
    and "d = Text b \<or> d = Bytes b"
  shows "\<exists>c. strict_json_loads H d True = Inr c \<and> canonical_value H 0 v = Inr c \<and> canonical_bytes H c = Inr b"
  using strict_json_loads_canonical [OF assms] loads_canonical_bytes [OF assms(1-3)] by fastforce

definition demo_value :: pyval where
  "demo_value = PDict [(''b'', PList [PInt (-12), PNone]), (''a'', PStr ''q'')]"

lemma demo_value_props: "okE (canonical_bytes demo_host demo_value)" "float_free demo_value" "wf_val demo_value"
  by (code_simp, code_simp, code_simp)

theorem canonical_round_trip_witness:
  "\<exists>b c. canonical_bytes demo_host demo_value = Inr b \<and> strict_json_loads demo_host (Bytes b) True = Inr c
     \<and> canonical_bytes demo_host c = Inr b"
proof -
  obtain b where b: "canonical_bytes demo_host demo_value = Inr b" using demo_value_props(1) by (auto simp: okE_iff)
  show ?thesis using b canonical_round_trip [OF b demo_value_props(2,3), of "Bytes b"] by blast
qed

text \<open>
  C39: the canonical bytes determine the value. Two float-free values have the same canonical bytes
  exactly when they have the same canonical form, so a digest commits to the canonical form of what
  it covers up to collisions of the hash function.
\<close>

theorem canonical_bytes_eq_iff:
  assumes "float_free v" and "wf_val v" and "float_free w" and "wf_val w"
    and "canonical_bytes H v = Inr b" and "canonical_bytes H w = Inr b'"
  shows "b = b' \<longleftrightarrow> canonical_value H 0 v = canonical_value H 0 w"
  using canonical_bytes_inj [OF assms(5) _ assms(1-4)] assms(5,6) by (auto simp: canonical_bytes_def)

theorem canonical_bytes_eq_iff_witness:
  "\<exists>b. canonical_bytes demo_host demo_value = Inr b \<and>
     canonical_bytes demo_host (PDict [(''a'', PStr ''q''), (''b'', PTuple [PInt (-12), PNone])]) = Inr b"
proof -
  let ?w = "PDict [(''a'', PStr ''q''), (''b'', PTuple [PInt (-12), PNone])]"
  have w: "okE (canonical_bytes demo_host ?w)" "float_free ?w" "wf_val ?w"
    by (code_simp, code_simp, code_simp)
  have "canonical_value demo_host 0 demo_value = canonical_value demo_host 0 ?w" by code_simp
  then show ?thesis
    using canonical_bytes_eq_iff [OF demo_value_props(2,3) w(2,3), of demo_host] demo_value_props(1) w(1)
    by (auto simp: okE_iff)
qed

text \<open>
  C40: what the canonicaliser accepts. A value, floats included, has canonical bytes exactly when every value nested in it respects the
  documented limits: nesting at most 8, at most 256 items per container, integers exactly representable in a double,
  floats that are neither NaN nor infinite nor negative zero, strings and keys in NFC, encodable and at most 16384 bytes.
  Assumed of the value is only what Python ensures: distinct keys, strings of code points, and finite floats with the
  text of their \<open>repr\<close>.
\<close>

theorem canonical_bytes_accepts_iff:
  assumes "float_reprs v" and "wf_val v"
  shows "okE (canonical_bytes H v) \<longleftrightarrow> list_all (within_limits H) (subvalues 0 v)"
  using assms by (rule canonical_bytes_ok_iff_floats)

theorem canonical_bytes_accepts_iff_witness:
  "okE (canonical_bytes demo_host (PList [demo_value, PFloat (FFinite ''1.5'')]))
     \<and> \<not> okE (canonical_bytes demo_host (PList [PFloat FNegZero])) \<and> \<not> okE (canonical_bytes demo_host (PInt 9007199254740992))"
proof -
  let ?v = "PList [demo_value, PFloat (FFinite ''1.5'')]" and ?w = "PList [PFloat FNegZero]" and ?i = "PInt 9007199254740992"
  have "float_reprs ?v" "wf_val ?v" "list_all (within_limits demo_host) (subvalues 0 ?v)" by (code_simp, code_simp, code_simp)
  moreover have "float_reprs ?w" "wf_val ?w" "\<not> list_all (within_limits demo_host) (subvalues 0 ?w)" by (code_simp, code_simp, code_simp)
  moreover have "float_reprs ?i" "wf_val ?i" "\<not> list_all (within_limits demo_host) (subvalues 0 ?i)" by (code_simp, code_simp, code_simp)
  ultimately show ?thesis
    using canonical_bytes_accepts_iff [of ?v demo_host] canonical_bytes_accepts_iff [of ?w demo_host]
      canonical_bytes_accepts_iff [of ?i demo_host] by metis
qed

end
