(* ===== verification/Models.thy ===== *)
theory Models
  imports Canonical
begin

text \<open>
  \<open>models.py\<close>: requests, guardian decisions, capability claims, the signed envelope and execution
  results. A Python object built from untrusted fields is modelled by a function from the keyword
  arguments (dynamic values) to the record or the exception its validation raises. \<open>for name in
  (...)\<close> loops over field names are lists of names, in the order of the source.
\<close>

section \<open>Definitions\<close>

fun is_canonicalization_error :: "exn \<Rightarrow> bool" where
  "is_canonicalization_error (CanonicalizationError _) = True"
| "is_canonicalization_error _ = False"

fun str_of :: "pyval \<Rightarrow> string" where
  "str_of (PStr s) = s"
| "str_of _ = []"

fun int_of :: "pyval \<Rightarrow> int" where
  "int_of (PInt i) = i"
| "int_of _ = 0"

fun dict_of :: "pyval \<Rightarrow> dict" where
  "dict_of (PDict m) = m"
| "dict_of _ = []"

fun unhashable :: "pyval \<Rightarrow> bool" where
  "unhashable (PList _) = True"
| "unhashable (PDict _) = True"
| "unhashable _ = False"

definition validated_text :: "host \<Rightarrow> pyval \<Rightarrow> nat \<Rightarrow> string res" where
  "validated_text H v maximum = (case v of
     PStr s \<Rightarrow>
       if s = [] then Inl (ValidationError ''must be a non-empty string'')
       else bindE (utf8_encode s) (\<lambda>b.
         if length b > maximum then Inl (ValidationError ''must be a non-empty string'')
         else bindE (catchE (canonical_bytes H v) is_canonicalization_error (ValidationError ''is not canonical''))
                (\<lambda>_. Inr s))
   | _ \<Rightarrow> Inl (ValidationError ''must be a non-empty string''))"

fun freeze_json :: "pyval \<Rightarrow> pyval" where
  "freeze_json (PDict m) = PDict (map (\<lambda>p. (fst p, freeze_json (snd p))) m)"
| "freeze_json (PList xs) = PTuple (map freeze_json xs)"
| "freeze_json (PTuple xs) = PTuple (map freeze_json xs)"
| "freeze_json v = v"

fun validate_security_json :: "pyval \<Rightarrow> unit res" where
  "validate_security_json (PFloat f) = Inl (ValidationError ''floating-point request values are not permitted'')"
| "validate_security_json (PDict m) = seqE (map (\<lambda>p. validate_security_json (snd p)) m)"
| "validate_security_json (PList xs) = seqE (map validate_security_json xs)"
| "validate_security_json (PTuple xs) = seqE (map validate_security_json xs)"
| "validate_security_json v = Inr ()"

fun thaw_json :: "pyval \<Rightarrow> pyval" where
  "thaw_json (PDict m) = PDict (map (\<lambda>p. (fst p, thaw_json (snd p))) m)"
| "thaw_json (PTuple xs) = PList (map thaw_json xs)"
| "thaw_json v = v"

subsection \<open>Requests\<close>

record action_request =
  ar_request_id :: string
  ar_session_id :: string
  ar_agent_id :: string
  ar_operation :: string
  ar_resource_id :: string
  ar_executor_id :: string
  ar_arguments :: dict
  ar_purpose :: string

definition request_fields :: "string list" where
  "request_fields = [''request_id'', ''session_id'', ''agent_id'', ''operation'', ''resource_id'',
     ''executor_id'', ''arguments'', ''purpose'']"

definition request_text_fields :: "string list" where
  "request_text_fields = [''request_id'', ''session_id'', ''agent_id'', ''operation'', ''resource_id'', ''executor_id'']"

definition request_of :: "(string \<Rightarrow> pyval) \<Rightarrow> action_request" where
  "request_of g = \<lparr>ar_request_id = str_of (g ''request_id''), ar_session_id = str_of (g ''session_id''),
          ar_agent_id = str_of (g ''agent_id''), ar_operation = str_of (g ''operation''),
          ar_resource_id = str_of (g ''resource_id''), ar_executor_id = str_of (g ''executor_id''),
          ar_arguments = dict_of (freeze_json (g ''arguments'')), ar_purpose = str_of (g ''purpose'')\<rparr>"

text \<open>\<open>ActionRequest.__post_init__\<close>, on the keyword arguments.\<close>

definition action_request_init :: "host \<Rightarrow> (string \<Rightarrow> pyval) \<Rightarrow> action_request res" where
  "action_request_init H g =
     bindE (seqE (map (\<lambda>n. unitE (validated_text H (g n) 256)) request_text_fields)) (\<lambda>_.
     bindE (case g ''purpose'' of
              PStr p \<Rightarrow> bindE (utf8_encode p) (\<lambda>b. checkE (length b > 1024) (ValidationError ''purpose must be a string <= 1024 UTF-8 bytes''))
            | _ \<Rightarrow> Inl (ValidationError ''purpose must be a string <= 1024 UTF-8 bytes'')) (\<lambda>_.
     bindE (catchE (bindE (canonical_bytes H (g ''purpose'')) (\<lambda>_. canonical_bytes H (g ''arguments'')))
              is_canonicalization_error (ValidationError ''request is not canonical'')) (\<lambda>_.
     bindE (checkE (\<not> is_mapping (g ''arguments'')) (ValidationError ''arguments must be an object'')) (\<lambda>_.
     bindE (validate_security_json (g ''arguments'')) (\<lambda>_.
     Inr (request_of g))))))"

definition action_request_from_dict :: "host \<Rightarrow> pyval \<Rightarrow> action_request res" where
  "action_request_from_dict H payload = (case payload of
     PDict m \<Rightarrow>
       if \<not> set_eq_list (map fst m) request_fields then Inl (ValidationError ''invalid request fields'')
       else if \<not> is_mapping (dict_get m ''arguments'') then Inl (ValidationError ''arguments must be an object'')
       else action_request_init H (dict_get m)
   | _ \<Rightarrow> Inl (ValidationError ''request must be an object''))"

definition canonical_payload :: "action_request \<Rightarrow> dict" where
  "canonical_payload r =
     [(''request_id'', PStr (ar_request_id r)), (''session_id'', PStr (ar_session_id r)),
      (''agent_id'', PStr (ar_agent_id r)), (''operation'', PStr (ar_operation r)),
      (''resource_id'', PStr (ar_resource_id r)), (''executor_id'', PStr (ar_executor_id r)),
      (''arguments'', thaw_json (PDict (ar_arguments r))), (''purpose'', PStr (ar_purpose r))]"

text \<open>\<open>request_digest\<close>; a failure of the canonicaliser would be an exception of the property.\<close>

definition request_digest :: "host \<Rightarrow> action_request \<Rightarrow> string res" where
  "request_digest H r = digest H (PDict (canonical_payload r))"

subsection \<open>Guardian decisions\<close>

record guardian_decision =
  gd_guardian :: string
  gd_allowed :: bool
  gd_reason :: string
  gd_evidence :: dict
  gd_request_digest :: string

subsection \<open>Capability claims\<close>

record capability_claims =
  cc_capability_id :: string
  cc_issued_at :: int
  cc_expires_at :: int
  cc_session_id :: string
  cc_agent_id :: string
  cc_executor_id :: string
  cc_device_id :: string
  cc_executor_measurement :: string
  cc_attestation_digest :: string
  cc_attestation_bundle_digest :: string
  cc_verifier_policy_digest :: string
  cc_task_id :: string
  cc_task_fingerprint :: string
  cc_tenant :: string
  cc_environment :: string
  cc_audience :: string
  cc_requested_trust :: string
  cc_provider_attested_trust :: string
  cc_effective_trust :: string
  cc_signed_trust_constraint :: string
  cc_attestation_method :: string
  cc_attestation_key_id :: string
  cc_compiled_ceiling :: dict
  cc_compiled_ceiling_digest :: string
  cc_guardian_state_digest :: string
  cc_decay_profile_id :: string
  cc_decay_profile_version :: string
  cc_decay_profile_digest :: string
  cc_initial_authority_digest :: string
  cc_refresh_requirements_digest :: string
  cc_operation :: string
  cc_resource_id :: string
  cc_arguments_digest :: string
  cc_request_digest :: string
  cc_max_output_bytes :: int
  cc_invocation_limit :: int
  cc_signer_key_id :: string
  cc_policy_digest :: string

definition claim_text_fields :: "string list" where
  "claim_text_fields = [''session_id'', ''agent_id'', ''executor_id'', ''device_id'', ''task_id'', ''tenant'',
     ''environment'', ''audience'', ''attestation_method'', ''attestation_key_id'',
     ''decay_profile_id'', ''decay_profile_version'', ''operation'', ''resource_id'']"

definition claim_digest_fields :: "string list" where
  "claim_digest_fields = [''executor_measurement'', ''attestation_digest'', ''attestation_bundle_digest'',
     ''verifier_policy_digest'', ''task_fingerprint'', ''compiled_ceiling_digest'',
     ''guardian_state_digest'', ''decay_profile_digest'', ''initial_authority_digest'',
     ''refresh_requirements_digest'', ''arguments_digest'', ''request_digest'', ''policy_digest'']"

definition claim_trust_fields :: "string list" where
  "claim_trust_fields = [''requested_trust'', ''provider_attested_trust'', ''effective_trust'', ''signed_trust_constraint'']"

definition claim_fields :: "string list" where
  "claim_fields = [''capability_id'', ''issued_at'', ''expires_at'', ''session_id'', ''agent_id'',
     ''executor_id'', ''device_id'', ''executor_measurement'', ''attestation_digest'',
     ''attestation_bundle_digest'', ''verifier_policy_digest'', ''task_id'',
     ''task_fingerprint'', ''tenant'', ''environment'', ''audience'', ''requested_trust'',
     ''provider_attested_trust'', ''effective_trust'', ''signed_trust_constraint'',
     ''attestation_method'', ''attestation_key_id'', ''compiled_ceiling'',
     ''compiled_ceiling_digest'', ''guardian_state_digest'', ''decay_profile_id'',
     ''decay_profile_version'', ''decay_profile_digest'', ''initial_authority_digest'',
     ''refresh_requirements_digest'', ''operation'',
     ''resource_id'', ''arguments_digest'', ''request_digest'', ''max_output_bytes'',
     ''invocation_limit'', ''policy_digest'', ''signer_key_id'']"

text \<open>The fields that hold strings and those that hold integers.\<close>

definition claim_str_fields :: "string list" where
  "claim_str_fields = [''capability_id'', ''signer_key_id''] @ claim_text_fields @ claim_digest_fields @ claim_trust_fields"

definition claim_int_fields :: "string list" where
  "claim_int_fields = [''issued_at'', ''expires_at'', ''max_output_bytes'', ''invocation_limit'']"

definition trust_tiers :: "string list" where
  "trust_tiers = [''simulated'', ''software'', ''hardware'']"

definition is_capability_id :: "string \<Rightarrow> bool" where
  "is_capability_id s \<longleftrightarrow> prefixed_hex ''cap_'' 24 s"

definition is_key_id :: "string \<Rightarrow> bool" where
  "is_key_id s \<longleftrightarrow> prefixed_hex ''ed25519:'' 32 s"

definition is_digest :: "string \<Rightarrow> bool" where
  "is_digest s \<longleftrightarrow> hex_n 64 s"

definition check_digest_field :: "pyval \<Rightarrow> unit res" where
  "check_digest_field v =
     checkE (\<not> (is_str v \<and> is_digest (str_of v))) (ValidationError ''must be a lowercase SHA-256 digest'')"

definition check_tier_field :: "pyval \<Rightarrow> unit res" where
  "check_tier_field v =
     (if unhashable v then Inl (TypeError ''unhashable type'')
      else checkE (\<not> (is_str v \<and> str_of v \<in> set trust_tiers)) (ValidationError ''is not a supported trust tier''))"

text \<open>The checks of \<open>CapabilityClaims.__post_init__\<close>, in order.\<close>

definition claims_checks :: "host \<Rightarrow> (string \<Rightarrow> pyval) \<Rightarrow> unit res" where
  "claims_checks H g = seqE (
     [if is_str (g ''capability_id'') then
        checkE (\<not> is_capability_id (str_of (g ''capability_id''))) (ValidationError ''capability_id is malformed'')
      else Inl (TypeError ''expected string'')]
     @ map (\<lambda>n. unitE (validated_text H (g n) 256)) claim_text_fields
     @ map (\<lambda>n. check_digest_field (g n)) claim_digest_fields
     @ map (\<lambda>n. check_tier_field (g n)) claim_trust_fields
     @ [checkE (\<not> is_mapping (g ''compiled_ceiling'')) (ValidationError ''compiled_ceiling must be an object''),
        validate_security_json (g ''compiled_ceiling''),
        unitE (catchE (canonical_bytes H (g ''compiled_ceiling'')) is_canonicalization_error
                 (ValidationError ''compiled ceiling is not canonical'')),
        checkE (dict_get (dict_of (g ''compiled_ceiling'')) ''compiled_digest'' \<noteq> g ''compiled_ceiling_digest'')
          (ValidationError ''compiled ceiling digest mismatch''),
        checkE (\<not> (is_str (g ''signer_key_id'') \<and> is_key_id (str_of (g ''signer_key_id''))))
          (ValidationError ''signer_key_id is malformed''),
        checkE (\<not> is_int (g ''issued_at'') \<or> \<not> is_int (g ''expires_at''))
          (ValidationError ''capability timestamps must be integer Unix milliseconds''),
        checkE (\<not> (0 < int_of (g ''expires_at'') - int_of (g ''issued_at'')
                  \<and> int_of (g ''expires_at'') - int_of (g ''issued_at'') \<le> 300000))
          (ValidationError ''capability lifetime is invalid''),
        checkE (\<not> (is_int (g ''max_output_bytes'') \<and> 0 < int_of (g ''max_output_bytes'')
                  \<and> int_of (g ''max_output_bytes'') \<le> 1048576))
          (ValidationError ''invalid capability output limit''),
        checkE (\<not> (is_int (g ''invocation_limit'') \<and> int_of (g ''invocation_limit'') = 1))
          (ValidationError ''only one-use capabilities are supported'')])"

definition claims_build :: "(string \<Rightarrow> pyval) \<Rightarrow> capability_claims" where
  "claims_build g =
     \<lparr>cc_capability_id = str_of (g ''capability_id''),
      cc_issued_at = int_of (g ''issued_at''), cc_expires_at = int_of (g ''expires_at''),
      cc_session_id = str_of (g ''session_id''), cc_agent_id = str_of (g ''agent_id''),
      cc_executor_id = str_of (g ''executor_id''), cc_device_id = str_of (g ''device_id''),
      cc_executor_measurement = str_of (g ''executor_measurement''),
      cc_attestation_digest = str_of (g ''attestation_digest''),
      cc_attestation_bundle_digest = str_of (g ''attestation_bundle_digest''),
      cc_verifier_policy_digest = str_of (g ''verifier_policy_digest''),
      cc_task_id = str_of (g ''task_id''), cc_task_fingerprint = str_of (g ''task_fingerprint''),
      cc_tenant = str_of (g ''tenant''), cc_environment = str_of (g ''environment''),
      cc_audience = str_of (g ''audience''), cc_requested_trust = str_of (g ''requested_trust''),
      cc_provider_attested_trust = str_of (g ''provider_attested_trust''),
      cc_effective_trust = str_of (g ''effective_trust''),
      cc_signed_trust_constraint = str_of (g ''signed_trust_constraint''),
      cc_attestation_method = str_of (g ''attestation_method''),
      cc_attestation_key_id = str_of (g ''attestation_key_id''),
      cc_compiled_ceiling = dict_of (freeze_json (g ''compiled_ceiling'')),
      cc_compiled_ceiling_digest = str_of (g ''compiled_ceiling_digest''),
      cc_guardian_state_digest = str_of (g ''guardian_state_digest''),
      cc_decay_profile_id = str_of (g ''decay_profile_id''),
      cc_decay_profile_version = str_of (g ''decay_profile_version''),
      cc_decay_profile_digest = str_of (g ''decay_profile_digest''),
      cc_initial_authority_digest = str_of (g ''initial_authority_digest''),
      cc_refresh_requirements_digest = str_of (g ''refresh_requirements_digest''),
      cc_operation = str_of (g ''operation''), cc_resource_id = str_of (g ''resource_id''),
      cc_arguments_digest = str_of (g ''arguments_digest''), cc_request_digest = str_of (g ''request_digest''),
      cc_max_output_bytes = int_of (g ''max_output_bytes''),
      cc_invocation_limit = int_of (g ''invocation_limit''),
      cc_signer_key_id = str_of (g ''signer_key_id''), cc_policy_digest = str_of (g ''policy_digest'')\<rparr>"

definition claims_init :: "host \<Rightarrow> (string \<Rightarrow> pyval) \<Rightarrow> capability_claims res" where
  "claims_init H g = bindE (claims_checks H g) (\<lambda>_. Inr (claims_build g))"

definition claims_to_dict :: "capability_claims \<Rightarrow> dict" where
  "claims_to_dict c =
     [(''capability_id'', PStr (cc_capability_id c)), (''issued_at'', PInt (cc_issued_at c)),
      (''expires_at'', PInt (cc_expires_at c)), (''session_id'', PStr (cc_session_id c)),
      (''agent_id'', PStr (cc_agent_id c)), (''executor_id'', PStr (cc_executor_id c)),
      (''device_id'', PStr (cc_device_id c)), (''executor_measurement'', PStr (cc_executor_measurement c)),
      (''attestation_digest'', PStr (cc_attestation_digest c)),
      (''attestation_bundle_digest'', PStr (cc_attestation_bundle_digest c)),
      (''verifier_policy_digest'', PStr (cc_verifier_policy_digest c)), (''task_id'', PStr (cc_task_id c)),
      (''task_fingerprint'', PStr (cc_task_fingerprint c)), (''tenant'', PStr (cc_tenant c)),
      (''environment'', PStr (cc_environment c)), (''audience'', PStr (cc_audience c)),
      (''requested_trust'', PStr (cc_requested_trust c)),
      (''provider_attested_trust'', PStr (cc_provider_attested_trust c)),
      (''effective_trust'', PStr (cc_effective_trust c)),
      (''signed_trust_constraint'', PStr (cc_signed_trust_constraint c)),
      (''attestation_method'', PStr (cc_attestation_method c)),
      (''attestation_key_id'', PStr (cc_attestation_key_id c)),
      (''compiled_ceiling'', thaw_json (PDict (cc_compiled_ceiling c))),
      (''compiled_ceiling_digest'', PStr (cc_compiled_ceiling_digest c)),
      (''guardian_state_digest'', PStr (cc_guardian_state_digest c)),
      (''decay_profile_id'', PStr (cc_decay_profile_id c)),
      (''decay_profile_version'', PStr (cc_decay_profile_version c)),
      (''decay_profile_digest'', PStr (cc_decay_profile_digest c)),
      (''initial_authority_digest'', PStr (cc_initial_authority_digest c)),
      (''refresh_requirements_digest'', PStr (cc_refresh_requirements_digest c)),
      (''operation'', PStr (cc_operation c)), (''resource_id'', PStr (cc_resource_id c)),
      (''arguments_digest'', PStr (cc_arguments_digest c)), (''request_digest'', PStr (cc_request_digest c)),
      (''max_output_bytes'', PInt (cc_max_output_bytes c)),
      (''invocation_limit'', PInt (cc_invocation_limit c)),
      (''signer_key_id'', PStr (cc_signer_key_id c)), (''policy_digest'', PStr (cc_policy_digest c))]"

definition claims_from_dict :: "host \<Rightarrow> pyval \<Rightarrow> capability_claims res" where
  "claims_from_dict H payload = (case payload of
     PDict m \<Rightarrow>
       if \<not> set_eq_list (map fst m) claim_fields then Inl (ValidationError ''invalid capability claim fields'')
       else if list_ex (\<lambda>n. \<not> is_str (dict_get m n) \<or> str_of (dict_get m n) = [])
                (filter (\<lambda>n. n \<notin> {''issued_at'', ''expires_at'', ''max_output_bytes'', ''invocation_limit'', ''compiled_ceiling''}) claim_fields)
         then Inl (ValidationError ''capability string claims must be non-empty strings'')
       else claims_init H (dict_get m)
   | _ \<Rightarrow> Inl (ValidationError ''capability claims must be an object''))"

subsection \<open>The signed envelope\<close>

record issued_capability =
  ic_claims :: capability_claims
  ic_signature :: string
  ic_key_id :: string
  ic_algorithm :: string

definition is_b64_signature :: "string \<Rightarrow> bool" where
  "is_b64_signature s \<longleftrightarrow> length s = 86 \<and> list_all is_b64url s"

definition issued_capability_init :: "capability_claims \<Rightarrow> pyval \<Rightarrow> pyval \<Rightarrow> pyval \<Rightarrow> issued_capability res" where
  "issued_capability_init claims signature key_id algorithm =
     (if algorithm \<noteq> PStr ''Ed25519'' then Inl (ValidationError ''capability algorithm must be Ed25519'')
      else if \<not> (is_str key_id \<and> is_key_id (str_of key_id)) then Inl (ValidationError ''capability key_id is malformed'')
      else if \<not> (is_str signature \<and> is_b64_signature (str_of signature))
        then Inl (ValidationError ''capability signature is not canonical Ed25519 base64url'')
      else Inr \<lparr>ic_claims = claims, ic_signature = str_of signature, ic_key_id = str_of key_id,
                ic_algorithm = str_of algorithm\<rparr>)"

definition issued_capability_to_dict :: "issued_capability \<Rightarrow> dict" where
  "issued_capability_to_dict c =
     [(''algorithm'', PStr (ic_algorithm c)), (''claims'', PDict (claims_to_dict (ic_claims c))),
      (''signature'', PStr (ic_signature c)), (''key_id'', PStr (ic_key_id c))]"

definition issued_capability_from_dict :: "host \<Rightarrow> pyval \<Rightarrow> issued_capability res" where
  "issued_capability_from_dict H payload = (case payload of
     PDict m \<Rightarrow>
       if \<not> set_eq_list (map fst m) [''algorithm'', ''claims'', ''signature'', ''key_id'']
         then Inl (ValidationError ''capability envelope fields are invalid'')
       else bindE (claims_from_dict H (dict_get m ''claims'')) (\<lambda>claims.
              issued_capability_init claims (dict_get m ''signature'') (dict_get m ''key_id'') (dict_get m ''algorithm''))
   | _ \<Rightarrow> Inl (ValidationError ''capability envelope fields are invalid''))"

subsection \<open>Execution results\<close>

record execution_result =
  er_success :: bool
  er_operation :: string
  er_resource_id :: string
  er_output :: pyval
  er_output_bytes :: int
  er_error :: "string option"
  er_effect_state :: string

definition effect_states :: "string list" where
  "effect_states = [''not-started'', ''possibly-committed'', ''completed'']"

definition execution_result_check :: "execution_result \<Rightarrow> execution_result res" where
  "execution_result_check r =
     (if er_effect_state r \<notin> set effect_states then Inl (ValidationError ''invalid execution outcome'')
      else if er_success r \<and> er_effect_state r \<noteq> ''completed''
        then Inl (ValidationError ''successful execution must be completed'')
      else Inr r)"

definition event_type :: "execution_result \<Rightarrow> string" where
  "event_type r =
     (if er_success r then ''execution.completed''
      else if er_effect_state r = ''not-started'' then ''execution.denied'' else ''execution.indeterminate'')"

subsection \<open>Example data\<close>

definition demo_payload :: dict where
  "demo_payload = [(''request_id'', PStr ''r1''), (''session_id'', PStr ''s1''), (''agent_id'', PStr ''a1''),
     (''operation'', PStr ''read''), (''resource_id'', PStr ''x''), (''executor_id'', PStr ''e1''),
     (''arguments'', PDict [(''n'', PInt 3), (''k'', PList [PStr ''v'', PBool True])]), (''purpose'', PStr '''')]"

definition demo_claim :: "string \<Rightarrow> pyval" where
  "demo_claim n =
     (if n \<in> set claim_digest_fields then PStr (replicate 64 (CHR ''a''))
      else if n \<in> set claim_trust_fields then PStr ''software''
      else if n = ''capability_id'' then PStr (''cap_'' @ replicate 24 (CHR ''0''))
      else if n = ''signer_key_id'' then PStr (''ed25519:'' @ replicate 32 (CHR ''b''))
      else if n = ''issued_at'' then PInt 1000
      else if n = ''expires_at'' then PInt 31000
      else if n = ''max_output_bytes'' then PInt 4096
      else if n = ''invocation_limit'' then PInt 1
      else if n = ''compiled_ceiling'' then PDict [(''compiled_digest'', PStr (replicate 64 (CHR ''a'')))]
      else PStr ''x'')"

section \<open>Freezing, thawing and validation\<close>

lemma canonical_fields_cong:
  "(\<And>k v. (k, v) \<in> set m \<Longrightarrow> canonical_value H d (f v) = canonical_value H d v) \<Longrightarrow>
   canonical_fields H d (map (\<lambda>p. (fst p, f (snd p))) m) = canonical_fields H d m"
  by (auto simp: canonical_fields_map)

lemma canonical_items_cong:
  "(\<And>v. v \<in> set xs \<Longrightarrow> canonical_value H d (f v) = canonical_value H d v) \<Longrightarrow>
   canonical_items H d (map f xs) = canonical_items H d xs"
  by (auto simp: canonical_items_map)

lemma canonical_value_freeze [simp]: "canonical_value H d (freeze_json v) = canonical_value H d v"
proof (induction v arbitrary: d)
  case (PDict m)
  have "canonical_fields H e (map (\<lambda>p. (fst p, freeze_json (snd p))) m) = canonical_fields H e m" for e
    using PDict by (intro canonical_fields_cong) auto
  then show ?case by (simp add: canonical_value.simps(6))
qed (simp_all add: canonical_value.simps(7,8) canonical_items_cong)

lemma canonical_value_thaw [simp]: "canonical_value H d (thaw_json v) = canonical_value H d v"
proof (induction v arbitrary: d)
  case (PDict m)
  have "canonical_fields H e (map (\<lambda>p. (fst p, thaw_json (snd p))) m) = canonical_fields H e m" for e
    using PDict by (intro canonical_fields_cong) auto
  then show ?case by (simp add: canonical_value.simps(6))
qed (simp_all add: canonical_value.simps(7,8) canonical_items_cong)

lemma canonical_bytes_freeze [simp]: "canonical_bytes H (freeze_json v) = canonical_bytes H v"
  and canonical_bytes_thaw [simp]: "canonical_bytes H (thaw_json v) = canonical_bytes H v"
  by (simp_all add: canonical_bytes_def)

lemma freeze_thaw [simp]: "freeze_json (thaw_json v) = freeze_json v"
  by (induction v) auto

lemma freeze_freeze [simp]: "freeze_json (freeze_json v) = freeze_json v"
  by (induction v) auto

lemma validate_freeze [simp]: "validate_security_json (freeze_json v) = validate_security_json v"
proof (induction v)
  case (PDict m)
  then have "map (\<lambda>p. validate_security_json (freeze_json (snd p))) m = map (\<lambda>p. validate_security_json (snd p)) m"
    by auto
  then show ?case by (simp add: comp_def del: map_eq_conv)
next
  case (PList xs)
  then have "map (\<lambda>v. validate_security_json (freeze_json v)) xs = map validate_security_json xs" by auto
  then show ?case by (simp add: comp_def del: map_eq_conv)
next
  case (PTuple xs)
  then have "map (\<lambda>v. validate_security_json (freeze_json v)) xs = map validate_security_json xs" by auto
  then show ?case by (simp add: comp_def del: map_eq_conv)
qed auto

lemma validate_thaw [simp]: "validate_security_json (thaw_json v) = validate_security_json v"
  using validate_freeze [of "thaw_json v"] validate_freeze [of v] by simp

lemma float_free_iff: "validate_security_json v = Inr () \<longleftrightarrow> float_free v"
  by (induction v) (auto simp: res_simps list_all_iff)

lemma thaw_mapping: "is_mapping v \<Longrightarrow> thaw_json v = PDict (dict_of (thaw_json v))"
  by (cases v) auto

lemma PDict_dict_of: "is_mapping v \<Longrightarrow> PDict (dict_of v) = v"
  by (cases v) auto
lemma is_mapping_freeze [simp]: "is_mapping (freeze_json v) = is_mapping v"
  by (cases v) auto
lemma is_mapping_thaw [simp]: "is_mapping (thaw_json v) = is_mapping v"
  by (cases v) auto

lemma is_str_PStr: "is_str v \<longleftrightarrow> PStr (str_of v) = v"
  by (cases v) auto
lemma is_int_PInt: "is_int v \<longleftrightarrow> PInt (int_of v) = v"
  by (cases v) auto

lemma map_of_freeze: "map_of (map (\<lambda>p. (fst p, f (snd p))) m) k = map_option f (map_of m k)"
  by (induction m) auto

lemma validated_text_Inr_iff:
  "validated_text H v n = Inr s \<longleftrightarrow> v = PStr s \<and> s \<noteq> [] \<and> \<not> has_surrogate s \<and> length s \<le> n \<and> okE (canonical_bytes H v)"
  by (cases v) (auto simp: validated_text_def res_simps)

lemma validated_text_str: "validated_text H v n = Inr s \<Longrightarrow> PStr (str_of v) = v \<and> s = str_of v"
  by (simp add: validated_text_Inr_iff)

lemma request_lookup:
  "dict_get (canonical_payload r) ''request_id'' = PStr (ar_request_id r)"
  "dict_get (canonical_payload r) ''session_id'' = PStr (ar_session_id r)"
  "dict_get (canonical_payload r) ''agent_id'' = PStr (ar_agent_id r)"
  "dict_get (canonical_payload r) ''operation'' = PStr (ar_operation r)"
  "dict_get (canonical_payload r) ''resource_id'' = PStr (ar_resource_id r)"
  "dict_get (canonical_payload r) ''executor_id'' = PStr (ar_executor_id r)"
  "dict_get (canonical_payload r) ''arguments'' = thaw_json (PDict (ar_arguments r))"
  "dict_get (canonical_payload r) ''purpose'' = PStr (ar_purpose r)"
  by (simp_all add: dict_get_def canonical_payload_def)

lemma action_request_init_iff:
  "action_request_init H g = Inr r \<longleftrightarrow>
     (\<forall>n \<in> set request_text_fields. validated_text H (g n) 256 = Inr (str_of (g n))) \<and>
     (\<exists>p. g ''purpose'' = PStr p \<and> \<not> has_surrogate p \<and> length p \<le> 1024) \<and>
     okE (canonical_bytes H (g ''purpose'')) \<and> okE (canonical_bytes H (g ''arguments'')) \<and>
     is_mapping (g ''arguments'') \<and> float_free (g ''arguments'') \<and> r = request_of g"
  by (cases "g ''purpose''")
    (auto simp: action_request_init_def request_of_def res_simps validated_text_Inr_iff float_free_iff)

lemma request_from_payload:
  assumes "action_request_init H g = Inr r"
  shows "action_request_from_dict H (PDict (canonical_payload r)) = Inr r"
proof -
  let ?g = "dict_get (canonical_payload r)"
  have r: "r = request_of g" and m: "is_mapping (g ''arguments'')"
    and t: "\<And>n. n \<in> set request_text_fields \<Longrightarrow> validated_text H (g n) 256 = Inr (str_of (g n))"
    and p: "is_str (g ''purpose'')"
    using assms unfolding action_request_init_iff by auto
  have txtf: "PStr (str_of (g n)) = g n" if "n \<in> set (''purpose'' # request_text_fields)" for n
    using validated_text_str [OF t] p that by (auto simp: is_str_PStr)
  have args: "?g ''arguments'' = thaw_json (freeze_json (g ''arguments''))"
    using m by (simp add: request_lookup r request_of_def PDict_dict_of)
  have "\<forall>n \<in> set (''purpose'' # request_text_fields). ?g n = PStr (str_of (g n))"
    by (simp add: request_text_fields_def request_lookup r request_of_def)
  then have same: "?g n = g n" if "n \<in> set (''purpose'' # request_text_fields)" for n
    using txtf that by metis
  have "action_request_init H ?g = Inr (request_of ?g)"
    using assms same args by (simp add: action_request_init_iff flip: float_free_iff)
  moreover have "request_of ?g = r"
    by (simp add: r request_of_def request_lookup PDict_dict_of m del: thaw_json.simps)
  moreover have "is_mapping (?g ''arguments'')" using m args by simp
  moreover have "set (map fst (canonical_payload r)) = set request_fields"
    by (simp add: canonical_payload_def request_fields_def insert_commute)
  ultimately show ?thesis by (simp add: action_request_from_dict_def)
qed
lemma claims_lookup:
  "dict_get (claims_to_dict c) ''capability_id'' = PStr (cc_capability_id c)"
  "dict_get (claims_to_dict c) ''issued_at'' = PInt (cc_issued_at c)"
  "dict_get (claims_to_dict c) ''expires_at'' = PInt (cc_expires_at c)"
  "dict_get (claims_to_dict c) ''session_id'' = PStr (cc_session_id c)"
  "dict_get (claims_to_dict c) ''agent_id'' = PStr (cc_agent_id c)"
  "dict_get (claims_to_dict c) ''executor_id'' = PStr (cc_executor_id c)"
  "dict_get (claims_to_dict c) ''device_id'' = PStr (cc_device_id c)"
  "dict_get (claims_to_dict c) ''executor_measurement'' = PStr (cc_executor_measurement c)"
  "dict_get (claims_to_dict c) ''attestation_digest'' = PStr (cc_attestation_digest c)"
  "dict_get (claims_to_dict c) ''attestation_bundle_digest'' = PStr (cc_attestation_bundle_digest c)"
  "dict_get (claims_to_dict c) ''verifier_policy_digest'' = PStr (cc_verifier_policy_digest c)"
  "dict_get (claims_to_dict c) ''task_id'' = PStr (cc_task_id c)"
  "dict_get (claims_to_dict c) ''task_fingerprint'' = PStr (cc_task_fingerprint c)"
  "dict_get (claims_to_dict c) ''tenant'' = PStr (cc_tenant c)"
  "dict_get (claims_to_dict c) ''environment'' = PStr (cc_environment c)"
  "dict_get (claims_to_dict c) ''audience'' = PStr (cc_audience c)"
  "dict_get (claims_to_dict c) ''requested_trust'' = PStr (cc_requested_trust c)"
  "dict_get (claims_to_dict c) ''provider_attested_trust'' = PStr (cc_provider_attested_trust c)"
  "dict_get (claims_to_dict c) ''effective_trust'' = PStr (cc_effective_trust c)"
  "dict_get (claims_to_dict c) ''signed_trust_constraint'' = PStr (cc_signed_trust_constraint c)"
  "dict_get (claims_to_dict c) ''attestation_method'' = PStr (cc_attestation_method c)"
  "dict_get (claims_to_dict c) ''attestation_key_id'' = PStr (cc_attestation_key_id c)"
  "dict_get (claims_to_dict c) ''compiled_ceiling'' = thaw_json (PDict (cc_compiled_ceiling c))"
  "dict_get (claims_to_dict c) ''compiled_ceiling_digest'' = PStr (cc_compiled_ceiling_digest c)"
  "dict_get (claims_to_dict c) ''guardian_state_digest'' = PStr (cc_guardian_state_digest c)"
  "dict_get (claims_to_dict c) ''decay_profile_id'' = PStr (cc_decay_profile_id c)"
  "dict_get (claims_to_dict c) ''decay_profile_version'' = PStr (cc_decay_profile_version c)"
  "dict_get (claims_to_dict c) ''decay_profile_digest'' = PStr (cc_decay_profile_digest c)"
  "dict_get (claims_to_dict c) ''initial_authority_digest'' = PStr (cc_initial_authority_digest c)"
  "dict_get (claims_to_dict c) ''refresh_requirements_digest'' = PStr (cc_refresh_requirements_digest c)"
  "dict_get (claims_to_dict c) ''operation'' = PStr (cc_operation c)"
  "dict_get (claims_to_dict c) ''resource_id'' = PStr (cc_resource_id c)"
  "dict_get (claims_to_dict c) ''arguments_digest'' = PStr (cc_arguments_digest c)"
  "dict_get (claims_to_dict c) ''request_digest'' = PStr (cc_request_digest c)"
  "dict_get (claims_to_dict c) ''max_output_bytes'' = PInt (cc_max_output_bytes c)"
  "dict_get (claims_to_dict c) ''invocation_limit'' = PInt (cc_invocation_limit c)"
  "dict_get (claims_to_dict c) ''signer_key_id'' = PStr (cc_signer_key_id c)"
  "dict_get (claims_to_dict c) ''policy_digest'' = PStr (cc_policy_digest c)"
  by (simp_all add: dict_get_def claims_to_dict_def)

lemma check_digest_field_iff: "check_digest_field v = Inr () \<longleftrightarrow> is_str v \<and> is_digest (str_of v)"
  by (auto simp: check_digest_field_def res_simps)

lemma check_tier_field_iff: "check_tier_field v = Inr () \<longleftrightarrow> is_str v \<and> str_of v \<in> set trust_tiers"
  by (cases v) (auto simp: check_tier_field_def res_simps)

lemma is_digest_nonempty: "is_digest s \<Longrightarrow> s \<noteq> []"
  by (auto simp: is_digest_def hex_n_def)

lemma claims_checks_iff:
  "claims_checks H g = Inr () \<longleftrightarrow>
     (is_str (g ''capability_id'') \<and> is_capability_id (str_of (g ''capability_id''))) \<and>
     (\<forall>n \<in> set claim_text_fields. \<exists>s. validated_text H (g n) 256 = Inr s) \<and>
     (\<forall>n \<in> set claim_digest_fields. is_str (g n) \<and> is_digest (str_of (g n))) \<and>
     (\<forall>n \<in> set claim_trust_fields. is_str (g n) \<and> str_of (g n) \<in> set trust_tiers) \<and>
     is_mapping (g ''compiled_ceiling'') \<and> float_free (g ''compiled_ceiling'') \<and>
     okE (canonical_bytes H (g ''compiled_ceiling'')) \<and>
     dict_get (dict_of (g ''compiled_ceiling'')) ''compiled_digest'' = g ''compiled_ceiling_digest'' \<and>
     (is_str (g ''signer_key_id'') \<and> is_key_id (str_of (g ''signer_key_id''))) \<and>
     (is_int (g ''issued_at'') \<and> is_int (g ''expires_at'')) \<and>
     (0 < int_of (g ''expires_at'') - int_of (g ''issued_at'')
       \<and> int_of (g ''expires_at'') - int_of (g ''issued_at'') \<le> 300000) \<and>
     (is_int (g ''max_output_bytes'') \<and> 0 < int_of (g ''max_output_bytes'') \<and> int_of (g ''max_output_bytes'') \<le> 1048576) \<and>
     (is_int (g ''invocation_limit'') \<and> int_of (g ''invocation_limit'') = 1)"
  by (simp only: claims_checks_def seqE_Inr_iff set_append set_map ball_Un ball_simps set_simps bindE_Inr_iff unitE_Inr_iff
        checkE_Inr_iff catchE_Inr_iff okE_iff float_free_iff check_digest_field_iff check_tier_field_iff image_iff split: if_splits)
    auto

lemma claims_of_build:
  "\<forall>n \<in> set claim_str_fields. dict_get (claims_to_dict (claims_build g)) n = PStr (str_of (g n))"
  "\<forall>n \<in> set claim_int_fields. dict_get (claims_to_dict (claims_build g)) n = PInt (int_of (g n))"
  "dict_get (claims_to_dict (claims_build g)) ''compiled_ceiling'' = thaw_json (PDict (dict_of (freeze_json (g ''compiled_ceiling''))))"
  by (simp_all add: claim_str_fields_def claim_int_fields_def claim_text_fields_def claim_digest_fields_def
     claim_trust_fields_def claims_build_def claims_lookup del: thaw_json.simps)

lemma freeze_PStr: "freeze_json (PStr s) = PStr s" and thaw_PStr: "thaw_json (PStr s) = PStr s"
  by simp_all

lemma dict_get_freeze: "is_mapping v \<Longrightarrow> dict_get (dict_of (freeze_json v)) k = freeze_json (dict_get (dict_of v) k)"
  by (cases v) (auto simp: dict_get_def map_of_freeze split: option.splits)

lemma dict_get_thaw: "is_mapping v \<Longrightarrow> dict_get (dict_of (thaw_json v)) k = thaw_json (dict_get (dict_of v) k)"
  by (cases v) (auto simp: dict_get_def map_of_freeze split: option.splits)

lemma claims_checks_str: "claims_checks H g = Inr () \<Longrightarrow> n \<in> set claim_str_fields \<Longrightarrow> g n = PStr (str_of (g n)) \<and> str_of (g n) \<noteq> []"
proof -
  assume a: "claims_checks H g = Inr ()" and n: "n \<in> set claim_str_fields"
  have "is_capability_id s \<Longrightarrow> s \<noteq> []" "is_key_id s \<Longrightarrow> s \<noteq> []" "s \<in> set trust_tiers \<Longrightarrow> s \<noteq> []" for s
    by (auto simp: is_capability_id_def is_key_id_def prefixed_hex_def trust_tiers_def)
  moreover have "validated_text H (g k) 256 = Inr s \<Longrightarrow> is_str (g k) \<and> str_of (g k) \<noteq> []" for k s
    by (auto simp: validated_text_Inr_iff)
  ultimately have "is_str (g n) \<and> str_of (g n) \<noteq> []"
    using a n is_digest_nonempty unfolding claims_checks_iff claim_str_fields_def set_append set_simps
    by (elim UnE insertE emptyE) (blast | simp)+
  then show ?thesis by (simp add: is_str_PStr)
qed

lemma claims_checks_int: "claims_checks H g = Inr () \<Longrightarrow> n \<in> set claim_int_fields \<Longrightarrow> g n = PInt (int_of (g n))"
  unfolding claims_checks_iff claim_int_fields_def set_simps by (elim conjE insertE emptyE) (simp_all add: is_int_PInt)

lemma claims_rebuild:
  assumes "\<And>n. n \<in> set claim_str_fields \<union> set claim_int_fields \<Longrightarrow> g' n = g n"
    and "freeze_json (g' ''compiled_ceiling'') = freeze_json (g ''compiled_ceiling'')"
  shows "claims_build g' = claims_build g"
proof -
  have "list_all (\<lambda>n. g' n = g n) (claim_str_fields @ claim_int_fields)"
    using assms(1) by (simp add: list_all_iff)
  then show ?thesis
    unfolding claims_build_def claim_str_fields_def claim_int_fields_def claim_text_fields_def
      claim_digest_fields_def claim_trust_fields_def append.simps list.pred_inject
    using assms(2) by simp
qed

lemma claim_fields_split: "set claim_fields = set claim_str_fields \<union> set claim_int_fields \<union> {''compiled_ceiling''}"
  by code_simp

lemma claims_to_dict_keys: "set (map fst (claims_to_dict c)) = set claim_fields"
  unfolding claims_to_dict_def list.map fst_conv by code_simp

lemma claims_from_to_dict:
  assumes "claims_init H g = Inr c"
  shows "claims_from_dict H (PDict (claims_to_dict c)) = Inr c"
proof -
  let ?g = "dict_get (claims_to_dict c)"
  have ok: "claims_checks H g = Inr ()" and c: "c = claims_build g"
    using assms by (auto simp: claims_init_def res_simps)
  have m: "is_mapping (g ''compiled_ceiling'')" using ok by (simp add: claims_checks_iff)
  have ceil: "?g ''compiled_ceiling'' = thaw_json (freeze_json (g ''compiled_ceiling''))"
    using m by (simp add: c claims_of_build PDict_dict_of del: thaw_json.simps)
  have same: "?g n = g n" if "n \<in> set claim_str_fields \<union> set claim_int_fields" for n
    using that claims_of_build [of g] claims_checks_str [OF ok] claims_checks_int [OF ok] unfolding c by fastforce
  obtain s where s: "g ''compiled_ceiling_digest'' = PStr s"
    using claims_checks_str [OF ok, of "''compiled_ceiling_digest''"]
    by (auto simp: claim_str_fields_def claim_digest_fields_def)
  have "dict_get (dict_of (g ''compiled_ceiling'')) ''compiled_digest'' = PStr s"
    using ok unfolding claims_checks_iff s by (elim conjE)
  then have dig: "dict_get (dict_of (thaw_json (freeze_json (g ''compiled_ceiling'')))) ''compiled_digest''
      = g ''compiled_ceiling_digest''"
    by (simp add: dict_get_thaw dict_get_freeze m s)
  have sub: "set claim_text_fields \<subseteq> set claim_str_fields" "set claim_digest_fields \<subseteq> set claim_str_fields"
    "set claim_trust_fields \<subseteq> set claim_str_fields"
    by (auto simp: claim_str_fields_def)
  have cd: "?g ''compiled_ceiling_digest'' = g ''compiled_ceiling_digest''"
    by (rule same) (simp add: claim_str_fields_def claim_digest_fields_def)
  have ok': "claims_checks H ?g = Inr ()"
    using ok same sub unfolding claims_checks_iff ceil
    by (simp add: cd dig claim_str_fields_def claim_int_fields_def subset_iff flip: float_free_iff)
  have "claims_build ?g = c"
    unfolding c using same ceil by (intro claims_rebuild) (auto simp: c)
  then have "claims_init H ?g = Inr c" using ok' by (simp add: claims_init_def)
  moreover have "is_str (?g n) \<and> str_of (?g n) \<noteq> []"
    if "n \<in> set claim_fields" "n \<notin> set claim_int_fields" "n \<noteq> ''compiled_ceiling''" for n
    using that claims_checks_str [OF ok', of n] by (simp add: claim_fields_split is_str_PStr)
  ultimately show ?thesis
    unfolding claims_from_dict_def using claims_to_dict_keys [of c]
    by (auto simp: list_ex_iff claim_int_fields_def)
qed

lemma canonical_payload_keys: "map fst (canonical_payload r) = request_fields"
  by (simp add: canonical_payload_def request_fields_def)

lemma float_free_thaw: "float_free (thaw_json v) = float_free v"
  by (simp flip: float_free_iff)

lemma request_payload_inj:
  assumes "canonical_bytes H (PDict (canonical_payload r)) = Inr b"
    and "canonical_bytes H (PDict (canonical_payload r')) = Inr b"
    and "wf_val (PDict (canonical_payload r))" and "wf_val (PDict (canonical_payload r'))"
    and "float_free (PDict (ar_arguments r))" and "float_free (PDict (ar_arguments r'))"
  shows "\<exists>c. canonical_value H 1 (PDict (ar_arguments r)) = Inr c \<and>
     canonical_value H 1 (PDict (ar_arguments r')) = Inr c \<and>
     r\<lparr>ar_arguments := []\<rparr> = r'\<lparr>ar_arguments := []\<rparr>"
proof -
  have ff: "float_free (PDict (canonical_payload x))" if "float_free (PDict (ar_arguments x))" for x
    using that float_free_thaw [of "PDict (ar_arguments x)"] by (simp add: canonical_payload_def)
  obtain c where c: "canonical_value H 0 (PDict (canonical_payload r)) = Inr c"
      "canonical_value H 0 (PDict (canonical_payload r')) = Inr c"
    using canonical_bytes_inj [OF assms(1,2) ff assms(3) ff assms(4)] assms
    by (metis canonical_bytes_cases)
  have agree: "\<exists>v. canonical_value H 1 (dict_get (canonical_payload r) k) = Inr v \<and>
      canonical_value H 1 (dict_get (canonical_payload r') k) = Inr v" if "k \<in> set request_fields" for k
    using canonical_dicts_agree [OF c, of k] that assms(3,4)
    by (simp add: canonical_payload_keys flip: set_map)
  have S: "s = t" if "dict_get (canonical_payload r) k = PStr s" "dict_get (canonical_payload r') k = PStr t"
    "k \<in> set request_fields" for k s t
    using agree [OF that(3)] unfolding that(1,2) by (blast intro: canonical_value_str_inj)
  have f: "''arguments'' \<in> set request_fields" by (simp add: request_fields_def)
  note S' = S [OF request_lookup(1) request_lookup(1)] S [OF request_lookup(2) request_lookup(2)]
    S [OF request_lookup(3) request_lookup(3)] S [OF request_lookup(4) request_lookup(4)]
    S [OF request_lookup(5) request_lookup(5)] S [OF request_lookup(6) request_lookup(6)]
    S [OF request_lookup(8) request_lookup(8)]
  have "r\<lparr>ar_arguments := []\<rparr> = r'\<lparr>ar_arguments := []\<rparr>"
    using S' by (simp add: request_fields_def)
  moreover have "\<exists>c. canonical_value H 1 (PDict (ar_arguments r)) = Inr c \<and> canonical_value H 1 (PDict (ar_arguments r')) = Inr c"
    using agree [OF f] unfolding request_lookup canonical_value_thaw .
  ultimately show ?thesis by blast
qed

lemma issued_capability_init_iff:
  "issued_capability_init c s k a = Inr cap \<longleftrightarrow>
     a = PStr ''Ed25519'' \<and> is_str k \<and> is_key_id (str_of k) \<and> is_str s \<and> is_b64_signature (str_of s) \<and>
     cap = \<lparr>ic_claims = c, ic_signature = str_of s, ic_key_id = str_of k, ic_algorithm = ''Ed25519''\<rparr>"
  by (auto simp: issued_capability_init_def)

lemma envelope_from_to_dict:
  assumes "claims_init H g = Inr c" and "issued_capability_init c s k a = Inr cap"
  shows "issued_capability_from_dict H (PDict (issued_capability_to_dict cap)) = Inr cap"
  using assms(2) claims_from_to_dict [OF assms(1)]
  by (auto simp: issued_capability_from_dict_def issued_capability_to_dict_def issued_capability_init_iff
      dict_get_def insert_commute)

section \<open>Properties\<close>

subsection \<open>The example data is accepted\<close>

lemma demo_request_ok: "okE (action_request_from_dict demo_host (PDict demo_payload))"
  by code_simp

lemma demo_claim_fields:
  "n \<in> set claim_digest_fields \<Longrightarrow> demo_claim n = PStr (replicate 64 (CHR ''a''))"
  "n \<in> set claim_trust_fields \<Longrightarrow> demo_claim n = PStr ''software''"
  "n \<in> set claim_text_fields \<Longrightarrow> demo_claim n = PStr ''x''"
proof -
  have "list_all (\<lambda>n. n \<notin> set claim_digest_fields) claim_trust_fields" by code_simp
  then show "n \<in> set claim_trust_fields \<Longrightarrow> demo_claim n = PStr ''software''"
    by (auto simp: demo_claim_def list_all_iff)
  have "list_all (\<lambda>n. demo_claim n = PStr ''x'') claim_text_fields" by code_simp
  then show "n \<in> set claim_text_fields \<Longrightarrow> demo_claim n = PStr ''x''" by (simp add: list_all_iff)
qed (simp add: demo_claim_def)

lemma demo_claim_others:
  "demo_claim ''capability_id'' = PStr (''cap_'' @ replicate 24 (CHR ''0''))"
  "demo_claim ''signer_key_id'' = PStr (''ed25519:'' @ replicate 32 (CHR ''b''))"
  "demo_claim ''issued_at'' = PInt 1000" "demo_claim ''expires_at'' = PInt 31000"
  "demo_claim ''max_output_bytes'' = PInt 4096" "demo_claim ''invocation_limit'' = PInt 1"
  "demo_claim ''compiled_ceiling'' = PDict [(''compiled_digest'', PStr (replicate 64 (CHR ''a'')))]"
  "demo_claim ''compiled_ceiling_digest'' = PStr (replicate 64 (CHR ''a''))"
  by (simp_all add: demo_claim_def claim_digest_fields_def claim_trust_fields_def)

lemma demo_text_ok: "validated_text demo_host (PStr ''x'') 256 = Inr ''x''"
  by code_simp
lemma demo_shapes: "is_digest (replicate 64 (CHR ''a''))" "is_capability_id (''cap_'' @ replicate 24 (CHR ''0''))"
  "is_key_id (''ed25519:'' @ replicate 32 (CHR ''b''))" 
  by (code_simp, code_simp, code_simp)
lemma demo_ceiling_ok: "okE (canonical_bytes demo_host (PDict [(''compiled_digest'', PStr (replicate 64 (CHR ''a'')))]))"
  by code_simp

lemma demo_claims_ok: "claims_init demo_host demo_claim = Inr (claims_build demo_claim)"
proof -
  have "claims_checks demo_host demo_claim = Inr ()"
    unfolding claims_checks_iff demo_claim_others
    using demo_shapes demo_ceiling_ok
    by (simp add: demo_claim_fields demo_text_ok trust_tiers_def dict_get_def del: append.simps)
  then show ?thesis by (simp add: claims_init_def)
qed

lemma demo_envelope_ok:
  "okE (issued_capability_init c (PStr (replicate 86 (CHR ''A''))) (PStr (''ed25519:'' @ replicate 32 (CHR ''b''))) (PStr ''Ed25519''))"
proof -
  have "is_b64_signature (replicate 86 (CHR ''A''))" by code_simp
  then show ?thesis using demo_shapes(3) by (auto simp: okE_iff issued_capability_init_iff)
qed

subsection \<open>Requests\<close>

text \<open>
  Round trip of requests. The payload of an accepted request is accepted by \<open>from_dict\<close> and gives
  back the same request, so the digest is a function of what travels.
\<close>

theorem request_round_trip:
  assumes "action_request_from_dict H payload = Inr r"
  shows "action_request_from_dict H (PDict (canonical_payload r)) = Inr r"
proof (cases payload)
  case (PDict m)
  then have "action_request_init H (dict_get m) = Inr r"
    using assms by (auto simp: action_request_from_dict_def split: if_splits)
  then show ?thesis by (rule request_from_payload)
qed (use assms in \<open>simp_all add: action_request_from_dict_def\<close>)

theorem request_round_trip_witness:
  "\<exists>r. action_request_from_dict demo_host (PDict demo_payload) = Inr r
     \<and> action_request_from_dict demo_host (PDict (canonical_payload r)) = Inr r"
  using demo_request_ok request_round_trip by (auto simp: okE_iff)

text \<open>
  The request digest covers the whole request. Two requests whose canonical payloads have the same
  bytes (the preimage of \<open>request_digest\<close>) agree in every text field and in the canonical form of their
  arguments: a decision bound to a digest cannot be carried over to a different request without a
  collision of the hash function.
\<close>

theorem request_digest_preimage:
  assumes "canonical_bytes H (PDict (canonical_payload r)) = Inr b"
    and "canonical_bytes H (PDict (canonical_payload r')) = Inr b"
    and "wf_val (PDict (canonical_payload r))" and "wf_val (PDict (canonical_payload r'))"
    and "float_free (PDict (ar_arguments r))" and "float_free (PDict (ar_arguments r'))"
  shows "canonical_value H 1 (PDict (ar_arguments r)) = canonical_value H 1 (PDict (ar_arguments r'))
    \<and> r\<lparr>ar_arguments := []\<rparr> = r'\<lparr>ar_arguments := []\<rparr>"
  using request_payload_inj [OF assms] by auto

definition demo_request :: action_request where
  "demo_request = \<lparr>ar_request_id = ''r1'', ar_session_id = ''s1'', ar_agent_id = ''a1'', ar_operation = ''read'',
     ar_resource_id = ''x'', ar_executor_id = ''e1'', ar_arguments = [(''n'', PInt 3), (''k'', PTuple [PStr ''v''])],
     ar_purpose = ''p''\<rparr>"

theorem request_digest_preimage_witness:
  "canonical_value demo_host 1 (PDict (ar_arguments demo_request))
     = canonical_value demo_host 1 (PDict [(''k'', PTuple [PStr ''v'']), (''n'', PInt 3)])"
proof -
  let ?r = "demo_request\<lparr>ar_arguments := [(''k'', PTuple [PStr ''v'']), (''n'', PInt 3)]\<rparr>"
  have "okE (canonical_bytes demo_host (PDict (canonical_payload demo_request)))" by code_simp
  moreover have "canonical_bytes demo_host (PDict (canonical_payload ?r))
      = canonical_bytes demo_host (PDict (canonical_payload demo_request))" by code_simp
  moreover have "wf_val (PDict (canonical_payload demo_request))" by code_simp
  moreover have "wf_val (PDict (canonical_payload ?r))" by code_simp
  ultimately show ?thesis
    using request_digest_preimage [of demo_host demo_request _ ?r] by (auto simp: okE_iff demo_request_def)
qed

subsection \<open>Capabilities\<close>

text \<open>
  Round trip of the signed envelope. A capability built from accepted claims and a well-formed
  signature and key id is read back unchanged by \<open>IssuedCapability.from_dict\<close>.
\<close>

theorem envelope_round_trip:
  assumes "claims_init H g = Inr c" and "issued_capability_init c s k a = Inr cap"
  shows "issued_capability_from_dict H (PDict (issued_capability_to_dict cap)) = Inr cap"
  using assms by (rule envelope_from_to_dict)

theorem envelope_round_trip_witness:
  "\<exists>cap. ic_claims cap = claims_build demo_claim
     \<and> issued_capability_from_dict demo_host (PDict (issued_capability_to_dict cap)) = Inr cap"
proof -
  obtain s k a cap where cap: "issued_capability_init (claims_build demo_claim) s k a = Inr cap"
    using demo_envelope_ok [of "claims_build demo_claim"] by (auto simp: okE_iff)
  then have "ic_claims cap = claims_build demo_claim" by (auto simp: issued_capability_init_iff)
  with envelope_round_trip [OF demo_claims_ok cap] show ?thesis by blast
qed

text \<open>
  What accepted claims guarantee. A payload accepted as capability claims is for exactly one
  invocation, lives at most five minutes, is bound to a positive output limit of at most 1 MiB, names
  supported trust tiers, and embeds a ceiling with the digest the claims state.
\<close>

theorem accepted_claims_bounds:
  assumes "claims_from_dict H payload = Inr c"
  shows "cc_invocation_limit c = 1
    \<and> cc_issued_at c < cc_expires_at c \<and> cc_expires_at c \<le> cc_issued_at c + 300000
    \<and> 0 < cc_max_output_bytes c \<and> cc_max_output_bytes c \<le> 1048576
    \<and> cc_effective_trust c \<in> set trust_tiers \<and> is_digest (cc_request_digest c)
    \<and> is_capability_id (cc_capability_id c)
    \<and> dict_get (cc_compiled_ceiling c) ''compiled_digest'' = PStr (cc_compiled_ceiling_digest c)"
proof -
  obtain m where "claims_init H (dict_get m) = Inr c"
    using assms by (cases payload) (auto simp: claims_from_dict_def split: if_splits)
  then have ok: "claims_checks H (dict_get m) = Inr ()" and c: "c = claims_build (dict_get m)"
    by (auto simp: claims_init_def res_simps)
  obtain s where s: "dict_get m ''compiled_ceiling_digest'' = PStr s"
    using claims_checks_str [OF ok, of "''compiled_ceiling_digest''"]
    by (auto simp: claim_str_fields_def claim_digest_fields_def)
  have "is_mapping (dict_get m ''compiled_ceiling'')"
    and "dict_get (dict_of (dict_get m ''compiled_ceiling'')) ''compiled_digest'' = PStr s"
    using ok unfolding claims_checks_iff s by blast+
  then have "dict_get (cc_compiled_ceiling c) ''compiled_digest'' = PStr (cc_compiled_ceiling_digest c)"
    by (simp add: c claims_build_def dict_get_freeze s)
  moreover have "is_digest (cc_request_digest c)" "cc_effective_trust c \<in> set trust_tiers"
    using ok unfolding claims_checks_iff c claims_build_def
    by (simp_all add: claim_digest_fields_def claim_trust_fields_def)
  ultimately show ?thesis
    using ok unfolding claims_checks_iff c claims_build_def by simp
qed

theorem accepted_claims_bounds_witness:
  "cc_invocation_limit (claims_build demo_claim) = 1 \<and> cc_effective_trust (claims_build demo_claim) \<in> set trust_tiers"
  using accepted_claims_bounds [OF claims_from_to_dict [OF demo_claims_ok]] by blast

end
