(* ===== verification/Policy.thy ===== *)
theory Policy
  imports Models
begin

text \<open>
  \<open>policy.py\<close> and \<open>component_ids.py\<close>: the static policy, its digest and its decision on a request. A
  \<open>frozenset\<close> of strings is the list of its elements: only membership and the sorted sequence of the
  elements are ever used. The keys Python interpolates into a reason are left out of it.
\<close>

section \<open>Definitions\<close>

definition STATIC_POLICY_GUARDIAN :: string where
  "STATIC_POLICY_GUARDIAN = ''static-policy-guardian''"
definition EXECUTOR_ATTESTATION_GUARDIAN :: string where
  "EXECUTOR_ATTESTATION_GUARDIAN = ''executor-attestation-guardian''"
definition LINEAGE_BUDGET_GUARDIAN :: string where
  "LINEAGE_BUDGET_GUARDIAN = ''lineage-budget-guardian''"
definition BEHAVIORAL_TRANSITION_GUARDIAN :: string where
  "BEHAVIORAL_TRANSITION_GUARDIAN = ''behavioral-transition-guardian''"

definition REQUIRED_GUARDIANS :: "string list" where
  "REQUIRED_GUARDIANS = [STATIC_POLICY_GUARDIAN, EXECUTOR_ATTESTATION_GUARDIAN,
     LINEAGE_BUDGET_GUARDIAN, BEHAVIORAL_TRANSITION_GUARDIAN]"

lemmas guardian_names =
  STATIC_POLICY_GUARDIAN_def EXECUTOR_ATTESTATION_GUARDIAN_def LINEAGE_BUDGET_GUARDIAN_def
  BEHAVIORAL_TRANSITION_GUARDIAN_def

record operation_rule =
  or_resources :: "string list"
  or_allowed_argument_keys :: "string list"
  or_max_output_bytes :: int

record static_policy =
  sp_policy_id :: string
  sp_operations :: "(string \<times> operation_rule) list"
  sp_allowed_agents :: "string list"
  sp_allowed_executors :: "string list"
  sp_denied_argument_keys :: "string list"

definition default_denied_argument_keys :: "string list" where
  "default_denied_argument_keys = [''url'', ''uri'', ''host'', ''hostname'', ''ip'', ''port'', ''command'', ''shell'',
     ''token'', ''credential'', ''api_key'', ''authorization'', ''recipient'']"

definition PStrs :: "string list \<Rightarrow> pyval" where
  "PStrs xs = PList (map PStr xs)"

definition rule_payload :: "operation_rule \<Rightarrow> pyval" where
  "rule_payload rule = PDict
     [(''resources'', PStrs (sorted_set (or_resources rule))),
      (''allowed_argument_keys'', PStrs (sorted_set (or_allowed_argument_keys rule))),
      (''max_output_bytes'', PInt (or_max_output_bytes rule))]"

definition policy_payload :: "static_policy \<Rightarrow> dict" where
  "policy_payload p =
     [(''policy_id'', PStr (sp_policy_id p)),
      (''allowed_agents'', PStrs (sorted_set (sp_allowed_agents p))),
      (''allowed_executors'', PStrs (sorted_set (sp_allowed_executors p))),
      (''denied_argument_keys'', PStrs (sorted_set (sp_denied_argument_keys p))),
      (''operations'', PDict (map (\<lambda>(name, rule). (name, rule_payload rule)) (sort_key fst (sp_operations p))))]"

definition policy_digest :: "host \<Rightarrow> static_policy \<Rightarrow> string res" where
  "policy_digest H p = digest H (PDict (policy_payload p))"

text \<open>The decision of a guardian, bound to the digest of the request it was asked about.\<close>

definition decide :: "host \<Rightarrow> action_request \<Rightarrow> string \<Rightarrow> bool \<Rightarrow> string \<Rightarrow> dict \<Rightarrow> guardian_decision res" where
  "decide H r name allowed reason evidence = bindE (request_digest H r) (\<lambda>d.
     Inr \<lparr>gd_guardian = name, gd_allowed = allowed, gd_reason = reason, gd_evidence = evidence, gd_request_digest = d\<rparr>)"

definition policy_evaluate :: "host \<Rightarrow> static_policy \<Rightarrow> action_request \<Rightarrow> guardian_decision res" where
  "policy_evaluate H p r =
     (let deny = (\<lambda>reason. decide H r STATIC_POLICY_GUARDIAN False reason []) in
      if ar_agent_id r \<notin> set (sp_allowed_agents p) then deny ''agent is not authorized''
      else if ar_executor_id r \<notin> set (sp_allowed_executors p) then deny ''executor is not authorized''
      else case map_of (sp_operations p) (ar_operation r) of
        None \<Rightarrow> deny ''operation is deny-by-default''
      | Some rule \<Rightarrow>
          if ar_resource_id r \<notin> set (or_resources rule) then deny ''resource is outside the policy set''
          else if list_ex (\<lambda>k. k \<in> set (sp_denied_argument_keys p)) (map fst (ar_arguments r))
            then deny ''forbidden argument keys''
          else if list_ex (\<lambda>k. k \<notin> set (or_allowed_argument_keys rule)) (map fst (ar_arguments r))
            then deny ''argument widening''
          else bindE (policy_digest H p) (\<lambda>pd.
            decide H r STATIC_POLICY_GUARDIAN True ''static policy permits exact request''
              [(''max_output_bytes'', PInt (or_max_output_bytes rule)), (''policy_digest'', PStr pd)]))"

section \<open>Lemmas\<close>

lemma decide_Inr_iff [res_simps]:
  "decide H r name a reason ev = Inr d \<longleftrightarrow>
     (\<exists>rd. request_digest H r = Inr rd \<and>
        d = \<lparr>gd_guardian = name, gd_allowed = a, gd_reason = reason, gd_evidence = ev, gd_request_digest = rd\<rparr>)"
  by (auto simp: decide_def res_simps)

text \<open>What the static policy permits, as a predicate.\<close>

definition policy_permits :: "static_policy \<Rightarrow> action_request \<Rightarrow> bool" where
  "policy_permits p r \<longleftrightarrow>
     ar_agent_id r \<in> set (sp_allowed_agents p) \<and> ar_executor_id r \<in> set (sp_allowed_executors p) \<and>
     (case map_of (sp_operations p) (ar_operation r) of
        None \<Rightarrow> False
      | Some rule \<Rightarrow> ar_resource_id r \<in> set (or_resources rule)
          \<and> fst ` set (ar_arguments r) \<subseteq> set (or_allowed_argument_keys rule) - set (sp_denied_argument_keys p))"

lemma policy_evaluate_binding:
  assumes "policy_evaluate H p r = Inr d"
  shows "gd_guardian d = STATIC_POLICY_GUARDIAN" and "request_digest H r = Inr (gd_request_digest d)"
    and "gd_allowed d \<longleftrightarrow> policy_permits p r" and "gd_reason d \<noteq> []"
  using assms
  by (auto simp: policy_evaluate_def policy_permits_def res_simps list_ex_iff Let_def split: if_splits option.splits)

lemma policy_evaluate_evidence:
  assumes "policy_evaluate H p r = Inr d" and "gd_allowed d"
  shows "\<exists>rule pd. map_of (sp_operations p) (ar_operation r) = Some rule \<and> policy_digest H p = Inr pd
    \<and> gd_evidence d = [(''max_output_bytes'', PInt (or_max_output_bytes rule)), (''policy_digest'', PStr pd)]"
  using assms
  by (auto simp: policy_evaluate_def res_simps Let_def split: if_splits option.splits)

section \<open>Properties\<close>

text \<open>
  Deny by default. The static policy decides every request it can digest, and it permits exactly
  those from a listed agent through a listed executor, on a listed operation and one of its
  resources, all of whose argument keys are allowed for the operation and none globally denied; the
  decision carries the digest of the request.
\<close>

theorem static_policy_exact:
  assumes "policy_evaluate H p r = Inr d"
  shows "(gd_allowed d \<longleftrightarrow>
      ar_agent_id r \<in> set (sp_allowed_agents p) \<and> ar_executor_id r \<in> set (sp_allowed_executors p) \<and>
      (\<exists>rule. map_of (sp_operations p) (ar_operation r) = Some rule \<and> ar_resource_id r \<in> set (or_resources rule)
         \<and> fst ` set (ar_arguments r) \<subseteq> set (or_allowed_argument_keys rule) - set (sp_denied_argument_keys p)))
    \<and> gd_guardian d = STATIC_POLICY_GUARDIAN \<and> request_digest H r = Inr (gd_request_digest d)"
  using policy_evaluate_binding [OF assms] by (auto simp: policy_permits_def split: option.splits)

definition demo_policy :: static_policy where
  "demo_policy = \<lparr>sp_policy_id = ''p1'',
     sp_operations = [(''read'', \<lparr>or_resources = [''x''], or_allowed_argument_keys = [''n'', ''k''], or_max_output_bytes = 4096\<rparr>)],
     sp_allowed_agents = [''a1''], sp_allowed_executors = [''e1''],
     sp_denied_argument_keys = default_denied_argument_keys\<rparr>"

theorem static_policy_exact_witness:
  "\<exists>d. policy_evaluate demo_host demo_policy demo_request = Inr d \<and> gd_allowed d"
proof -
  have "okE (policy_evaluate demo_host demo_policy demo_request)" by code_simp
  then obtain d where d: "policy_evaluate demo_host demo_policy demo_request = Inr d" by (auto simp: okE_iff)
  show ?thesis
    using d static_policy_exact [OF d] by (simp add: demo_policy_def demo_request_def default_denied_argument_keys_def)
qed

end
