(* ===== verification/Trust.thy ===== *)
theory Trust
  imports Policy
begin

text \<open>
  The validation helpers of \<open>task_policy.py\<close> (\<open>_text\<close>, \<open>_strings\<close>, \<open>_digest\<close>, ...), the trust tiers and
  \<open>ProviderTrustState\<close>. A trust tier is a value of \<open>trust_tier\<close>, ordered as \<open>TRUST_ORDER\<close> orders the names.
\<close>

section \<open>Validation helpers\<close>

definition MAX_COLLECTION :: nat where "MAX_COLLECTION = 256"

definition py_text :: "host \<Rightarrow> pyval \<Rightarrow> nat \<Rightarrow> string res" where
  "py_text H v maximum = (case v of
     PStr s \<Rightarrow>
       if s = [] then Inl (ValidationError ''must be a non-empty string'')
       else bindE (utf8_encode s) (\<lambda>b.
         if length b > maximum then Inl (ValidationError ''must be a non-empty string'')
         else bindE (canonical_bytes H v) (\<lambda>_. Inr s))
   | _ \<Rightarrow> Inl (ValidationError ''must be a non-empty string''))"

definition optional_text :: "host \<Rightarrow> pyval \<Rightarrow> nat \<Rightarrow> string option res" where
  "optional_text H v maximum = (if v = PNone then Inr None else bindE (py_text H v maximum) (\<lambda>s. Inr (Some s)))"

fun items_of :: "pyval \<Rightarrow> pyval list" where
  "items_of (PList xs) = xs"
| "items_of (PTuple xs) = xs"
| "items_of _ = []"

fun is_sequence :: "pyval \<Rightarrow> bool" where
  "is_sequence (PList xs) = True"
| "is_sequence (PTuple xs) = True"
| "is_sequence _ = False"

definition py_strings :: "host \<Rightarrow> pyval \<Rightarrow> string list res" where
  "py_strings H v =
     (if \<not> is_sequence v \<or> length (items_of v) > MAX_COLLECTION then Inl (ValidationError ''must be a bounded array'')
      else bindE (sequenceE (map (\<lambda>x. py_text H x 256) (items_of v))) (\<lambda>normalized.
        if \<not> distinct normalized then Inl (ValidationError ''contains duplicates'') else Inr (sort normalized)))"

definition py_nonnegative :: "pyval \<Rightarrow> int \<Rightarrow> int res" where
  "py_nonnegative v maximum = (case v of
     PInt i \<Rightarrow> if 0 \<le> i \<and> i \<le> maximum then Inr i else Inl (ValidationError ''must be a non-negative bounded integer'')
   | _ \<Rightarrow> Inl (ValidationError ''must be a non-negative bounded integer''))"

definition py_positive :: "pyval \<Rightarrow> int \<Rightarrow> int res" where
  "py_positive v maximum = (case v of
     PInt i \<Rightarrow> if 0 < i \<and> i \<le> maximum then Inr i else Inl (ValidationError ''must be a positive bounded integer'')
   | _ \<Rightarrow> Inl (ValidationError ''must be a positive bounded integer''))"

definition py_digest :: "host \<Rightarrow> pyval \<Rightarrow> string res" where
  "py_digest H v = bindE (py_text H v 64) (\<lambda>s.
     if \<not> is_digest s then Inl (ValidationError ''must be a lowercase SHA-256 digest'') else Inr s)"

text \<open>\<open>_mapping_of_string_arrays\<close>: the right-hand side of the assignment is evaluated before the key.\<close>

definition string_arrays :: "host \<Rightarrow> pyval \<Rightarrow> (string \<times> string list) list res" where
  "string_arrays H v = (case v of
     PDict m \<Rightarrow>
       if length m > MAX_COLLECTION then Inl (ValidationError ''must be a bounded object'')
       else bindE (sequenceE (map (\<lambda>(k, xs). bindE (py_strings H xs) (\<lambda>ys. bindE (py_text H (PStr k) 256) (\<lambda>k'. Inr (k', ys)))) m))
              (\<lambda>normalized. Inr (sort_key fst normalized))
   | _ \<Rightarrow> Inl (ValidationError ''must be a bounded object''))"

text \<open>\<open>_timestamp_ms\<close>, on the host's reading of ISO-8601.\<close>

definition timestamp_ms :: "host \<Rightarrow> pyval \<Rightarrow> int res" where
  "timestamp_ms H v = bindE (py_text H v 64) (\<lambda>s.
     case from_iso H s of
       NotIso \<Rightarrow> Inl (ValidationError ''must be an ISO-8601 timestamp'')
     | NaiveTime \<Rightarrow> Inl (ValidationError ''must include a timezone'')
     | UtcMillis t \<Rightarrow> Inr t)"

text \<open>\<open>tuple(v)\<close>: a string gives its code points, a dictionary its keys.\<close>

fun code_points :: "string \<Rightarrow> string \<Rightarrow> string list" where
  "code_points [] acc = (if acc = [] then [] else [acc])"
| "code_points (c # s) acc =
     (if is_cont c then code_points s (acc @ [c])
      else (if acc = [] then [] else [acc]) @ code_points s [c])"

definition py_tuple :: "pyval \<Rightarrow> pyval res" where
  "py_tuple v = (case v of
     PList xs \<Rightarrow> Inr (PTuple xs)
   | PTuple xs \<Rightarrow> Inr (PTuple xs)
   | PStr s \<Rightarrow> Inr (PTuple (map PStr (code_points s [])))
   | PDict m \<Rightarrow> Inr (PTuple (map (\<lambda>p. PStr (fst p)) m))
   | _ \<Rightarrow> Inl (TypeError ''object is not iterable''))"

text \<open>\<open>{key: tuple(items) for key, items in v.items()}\<close>.\<close>

definition py_tuple_values :: "pyval \<Rightarrow> pyval res" where
  "py_tuple_values v = (case v of
     PDict m \<Rightarrow> bindE (sequenceE (map (\<lambda>(k, xs). bindE (py_tuple xs) (\<lambda>ys. Inr (k, ys))) m)) (\<lambda>m'. Inr (PDict m'))
   | _ \<Rightarrow> Inl (AttributeError ''items''))"

definition max_safe :: int where "max_safe = 2 ^ 53 - 1"

section \<open>Trust tiers\<close>

datatype trust_tier = Simulated | Software | Hardware

fun TRUST_ORDER :: "trust_tier \<Rightarrow> nat" where
  "TRUST_ORDER Simulated = 0"
| "TRUST_ORDER Software = 1"
| "TRUST_ORDER Hardware = 2"

instantiation trust_tier :: linorder
begin

definition less_eq_trust_tier :: "trust_tier \<Rightarrow> trust_tier \<Rightarrow> bool" where
  "less_eq_trust_tier a b \<longleftrightarrow> TRUST_ORDER a \<le> TRUST_ORDER b"

definition less_trust_tier :: "trust_tier \<Rightarrow> trust_tier \<Rightarrow> bool" where
  "less_trust_tier a b \<longleftrightarrow> TRUST_ORDER a < TRUST_ORDER b"

instance
proof
  fix x y :: trust_tier
  show "x \<le> y \<Longrightarrow> y \<le> x \<Longrightarrow> x = y"
    by (cases x; cases y) (auto simp: less_eq_trust_tier_def)
qed (auto simp: less_eq_trust_tier_def less_trust_tier_def)

end

fun tier_name :: "trust_tier \<Rightarrow> string" where
  "tier_name Simulated = ''simulated''"
| "tier_name Software = ''software''"
| "tier_name Hardware = ''hardware''"

definition tier_of :: "string \<Rightarrow> trust_tier option" where
  "tier_of s = (if s = ''simulated'' then Some Simulated else if s = ''software'' then Some Software
     else if s = ''hardware'' then Some Hardware else None)"

text \<open>\<open>TRUST_ORDER[v]\<close> for a value already known to name a tier.\<close>

definition tier_val :: "pyval \<Rightarrow> trust_tier" where
  "tier_val v = (case tier_of (str_of v) of Some t \<Rightarrow> t | None \<Rightarrow> Simulated)"

definition ATTESTATION_METHOD_TRUST :: "string \<Rightarrow> trust_tier option" where
  "ATTESTATION_METHOD_TRUST m =
     (if m = ''simulator'' then Some Simulated else if m = ''static-development'' then Some Software
      else if m = ''tpm2'' then Some Hardware else None)"

section \<open>Provider trust state\<close>

record trust_state =
  ts_requested_trust :: trust_tier
  ts_observed_trust :: trust_tier
  ts_provider_attested_trust :: trust_tier
  ts_effective_trust :: trust_tier
  ts_method :: string
  ts_key_id :: string
  ts_attestation_digest :: string
  ts_bundle_digest :: string
  ts_verifier_policy_digest :: string
  ts_verified_at_ms :: int
  ts_expires_at_ms :: int

definition trust_fields :: "string list" where
  "trust_fields = [''attestation_digest'', ''bundle_digest'', ''effective_trust'', ''expires_at_ms'', ''key_id'', ''method'',
     ''observed_trust'', ''provider_attested_trust'', ''requested_trust'', ''verified_at_ms'', ''verifier_policy_digest'']"

definition trust_tier_fields :: "string list" where
  "trust_tier_fields = [''requested_trust'', ''observed_trust'', ''provider_attested_trust'', ''effective_trust'']"

definition trust_state_checks :: "host \<Rightarrow> (string \<Rightarrow> pyval) \<Rightarrow> unit res" where
  "trust_state_checks H g = seqE (
     map (\<lambda>n. bindE (py_text H (g n) 32) (\<lambda>s.
                checkE (tier_of s = None) (ValidationError ''is not a supported trust tier''))) trust_tier_fields
     @ [unitE (py_text H (g ''method'') 64), unitE (py_text H (g ''key_id'') 128)]
     @ map (\<lambda>n. unitE (py_digest H (g n))) [''attestation_digest'', ''bundle_digest'', ''verifier_policy_digest'']
     @ [unitE (py_nonnegative (g ''verified_at_ms'') max_safe), unitE (py_positive (g ''expires_at_ms'') max_safe),
        checkE (int_of (g ''expires_at_ms'') \<le> int_of (g ''verified_at_ms''))
          (ValidationError ''provider trust expiration must follow verification''),
        checkE (tier_val (g ''effective_trust'') \<noteq> min (tier_val (g ''observed_trust'')) (tier_val (g ''provider_attested_trust'')))
          (ValidationError ''effective trust must equal the conservative observed/provider intersection'')])"

definition trust_state_build :: "(string \<Rightarrow> pyval) \<Rightarrow> trust_state" where
  "trust_state_build g =
     \<lparr>ts_requested_trust = tier_val (g ''requested_trust''), ts_observed_trust = tier_val (g ''observed_trust''),
      ts_provider_attested_trust = tier_val (g ''provider_attested_trust''),
      ts_effective_trust = tier_val (g ''effective_trust''), ts_method = str_of (g ''method''),
      ts_key_id = str_of (g ''key_id''), ts_attestation_digest = str_of (g ''attestation_digest''),
      ts_bundle_digest = str_of (g ''bundle_digest''),
      ts_verifier_policy_digest = str_of (g ''verifier_policy_digest''),
      ts_verified_at_ms = int_of (g ''verified_at_ms''), ts_expires_at_ms = int_of (g ''expires_at_ms'')\<rparr>"

definition trust_state_init :: "host \<Rightarrow> (string \<Rightarrow> pyval) \<Rightarrow> trust_state res" where
  "trust_state_init H g = bindE (trust_state_checks H g) (\<lambda>_. Inr (trust_state_build g))"

definition trust_state_to_dict :: "trust_state \<Rightarrow> dict" where
  "trust_state_to_dict t =
     [(''attestation_digest'', PStr (ts_attestation_digest t)), (''bundle_digest'', PStr (ts_bundle_digest t)),
      (''effective_trust'', PStr (tier_name (ts_effective_trust t))), (''expires_at_ms'', PInt (ts_expires_at_ms t)),
      (''key_id'', PStr (ts_key_id t)), (''method'', PStr (ts_method t)),
      (''observed_trust'', PStr (tier_name (ts_observed_trust t))),
      (''provider_attested_trust'', PStr (tier_name (ts_provider_attested_trust t))),
      (''requested_trust'', PStr (tier_name (ts_requested_trust t))),
      (''verified_at_ms'', PInt (ts_verified_at_ms t)),
      (''verifier_policy_digest'', PStr (ts_verifier_policy_digest t))]"

definition trust_state_from_dict :: "host \<Rightarrow> pyval \<Rightarrow> trust_state res" where
  "trust_state_from_dict H v = (case v of
     PDict m \<Rightarrow> if \<not> set_eq_list (map fst m) trust_fields then Inl (ValidationError ''provider trust state fields are invalid'')
                else trust_state_init H (dict_get m)
   | _ \<Rightarrow> Inl (ValidationError ''provider trust state fields are invalid''))"

definition attestation_required :: "string list" where
  "attestation_required = [''valid'', ''deviceId'', ''method'', ''trustLevel'', ''keyId'', ''measurements'',
     ''bundleDigest'', ''verifiedAt'', ''verifierPolicyDigest'', ''resultDigest'', ''nonceExpiresAt'']"

definition trust_state_from_attestation :: "host \<Rightarrow> pyval \<Rightarrow> pyval \<Rightarrow> trust_state res" where
  "trust_state_from_attestation H v requested_trust = (case v of
     PDict m \<Rightarrow>
       if \<not> subset_list attestation_required (map fst m)
         then Inl (ValidationError ''attestation result omitted authoritative trust fields'')
       else if dict_get m ''valid'' \<noteq> PBool True then Inl (ValidationError ''attestation result is not valid'')
       else let claimed_digest = dict_get m ''resultDigest'' in
         bindE (digest H (PDict (AList.delete ''resultDigest'' m))) (\<lambda>d.
         if PStr d \<noteq> claimed_digest then Inl (ValidationError ''attestation result digest mismatch'')
         else bindE (py_text H (dict_get m ''method'') 64) (\<lambda>method.
         bindE (py_text H (dict_get m ''trustLevel'') 32) (\<lambda>provider_trust.
         case ATTESTATION_METHOD_TRUST method of
           None \<Rightarrow> Inl (ValidationError ''attestation method is not registered'')
         | Some expected_trust \<Rightarrow>
             if provider_trust \<noteq> tier_name expected_trust
               then Inl (ValidationError ''attestation method and provider trust are contradictory'')
             else bindE (timestamp_ms H (dict_get m ''verifiedAt'')) (\<lambda>verified_at.
               bindE (timestamp_ms H (dict_get m ''nonceExpiresAt'')) (\<lambda>expires_at.
               bindE (py_text H (dict_get m ''keyId'') 128) (\<lambda>key_id.
               bindE (py_digest H claimed_digest) (\<lambda>attestation_digest.
               bindE (py_digest H (dict_get m ''bundleDigest'')) (\<lambda>bundle_digest.
               bindE (py_digest H (dict_get m ''verifierPolicyDigest'')) (\<lambda>verifier_policy_digest.
               trust_state_init H (dict_get
                 [(''requested_trust'', requested_trust), (''observed_trust'', PStr provider_trust),
                  (''provider_attested_trust'', PStr provider_trust), (''effective_trust'', PStr provider_trust),
                  (''method'', PStr method), (''key_id'', PStr key_id), (''attestation_digest'', PStr attestation_digest),
                  (''bundle_digest'', PStr bundle_digest), (''verifier_policy_digest'', PStr verifier_policy_digest),
                  (''verified_at_ms'', PInt verified_at), (''expires_at_ms'', PInt expires_at)]))))))))))
   | _ \<Rightarrow> Inl (ValidationError ''attestation result must be an object''))"

section \<open>Lemmas\<close>

lemma py_text_Inr_iff [res_simps]:
  "py_text H v n = Inr s \<longleftrightarrow>
     v = PStr s \<and> s \<noteq> [] \<and> \<not> has_surrogate s \<and> length s \<le> n \<and> okE (canonical_bytes H (PStr s))"
  by (cases v) (auto simp: py_text_def res_simps)

lemma py_digest_Inr_iff [res_simps]:
  "py_digest H v = Inr s \<longleftrightarrow> py_text H v 64 = Inr s \<and> is_digest s"
  by (auto simp: py_digest_def res_simps)

lemma py_nonnegative_Inr_iff [res_simps]: "py_nonnegative v m = Inr i \<longleftrightarrow> v = PInt i \<and> 0 \<le> i \<and> i \<le> m"
  by (cases v) (auto simp: py_nonnegative_def)

lemma py_positive_Inr_iff [res_simps]: "py_positive v m = Inr i \<longleftrightarrow> v = PInt i \<and> 0 < i \<and> i \<le> m"
  by (cases v) (auto simp: py_positive_def)

lemma optional_text_Inr_iff [res_simps]:
  "optional_text H v n = Inr t \<longleftrightarrow>
     v = PNone \<and> t = None \<or> (\<exists>s. v \<noteq> PNone \<and> t = Some s \<and> py_text H v n = Inr s)"
  by (auto simp: optional_text_def res_simps)

lemma py_strings_Inr_iff:
  "py_strings H v = Inr ys \<longleftrightarrow>
     is_sequence v \<and> length (items_of v) \<le> MAX_COLLECTION \<and>
     (\<exists>xs. map (\<lambda>x. py_text H x 256) (items_of v) = map Inr xs \<and> distinct xs \<and> ys = sort xs)"
  by (auto simp: py_strings_def res_simps)

lemma py_strings_items:
  assumes "map (\<lambda>x. py_text H x 256) xs = map Inr ss"
  shows "xs = map PStr ss" and "list_all (\<lambda>s. py_text H (PStr s) 256 = Inr s) ss"
proof -
  have all: "list_all2 (\<lambda>x s. py_text H x 256 = Inr s) xs ss"
    using assms by (simp add: map_Inr_list_all2)
  show "xs = map PStr ss"
    using all by (induction rule: list_all2_induct) (auto simp: py_text_Inr_iff)
  show "list_all (\<lambda>s. py_text H (PStr s) 256 = Inr s) ss"
    using all by (induction rule: list_all2_induct) (auto simp: py_text_Inr_iff)
qed

lemma map_py_text:
  "map (\<lambda>x. py_text H x 256) (map PStr ss) = map Inr ts \<longleftrightarrow>
     ts = ss \<and> list_all (\<lambda>s. py_text H (PStr s) 256 = Inr s) ss"
proof
  assume "map (\<lambda>x. py_text H x 256) (map PStr ss) = map Inr ts"
  from py_strings_items [OF this]
  have "map PStr ss = map PStr ts" and all: "list_all (\<lambda>s. py_text H (PStr s) 256 = Inr s) ts" by simp_all
  then have "ss = ts" by (simp add: inj_on_map_eq_map inj_on_def)
  with all show "ts = ss \<and> list_all (\<lambda>s. py_text H (PStr s) 256 = Inr s) ss" by simp
qed (auto simp: list_all_iff)

text \<open>What \<open>_strings\<close> accepts: a bounded array of distinct bounded texts; the result is sorted.\<close>

definition good_strings :: "host \<Rightarrow> string list \<Rightarrow> bool" where
  "good_strings H ss \<longleftrightarrow> distinct ss \<and> length ss \<le> MAX_COLLECTION \<and> list_all (\<lambda>s. py_text H (PStr s) 256 = Inr s) ss"

lemma py_strings_iff:
  "py_strings H v = Inr ys \<longleftrightarrow>
     is_sequence v \<and> (\<exists>ss. items_of v = map PStr ss \<and> good_strings H ss \<and> ys = sort ss)"
proof
  assume "py_strings H v = Inr ys"
  then obtain xs where v: "is_sequence v" "length (items_of v) \<le> MAX_COLLECTION"
      and m: "map (\<lambda>x. py_text H x 256) (items_of v) = map Inr xs" and "distinct xs" "ys = sort xs"
    by (auto simp: py_strings_Inr_iff)
  with py_strings_items [OF m] show
    "is_sequence v \<and> (\<exists>ss. items_of v = map PStr ss \<and> good_strings H ss \<and> ys = sort ss)"
    by (auto simp: good_strings_def)
next
  assume "is_sequence v \<and> (\<exists>ss. items_of v = map PStr ss \<and> good_strings H ss \<and> ys = sort ss)"
  then show "py_strings H v = Inr ys"
    by (auto simp: py_strings_Inr_iff good_strings_def map_py_text simp del: map_map)
qed

lemma good_strings_sort [simp]: "good_strings H (sort ss) \<longleftrightarrow> good_strings H ss"
  by (simp add: good_strings_def list_all_iff)

lemma py_strings_sorted:
  "py_strings H v = Inr ys \<Longrightarrow> sorted ys \<and> distinct ys \<and> good_strings H ys"
  by (auto simp: py_strings_iff) (auto simp: good_strings_def)

text \<open>A sorted result is a fixed point, whether it is passed on as a tuple or as a list.\<close>

lemma py_strings_again:
  assumes "good_strings H ys" and "sorted ys"
  shows "py_strings H (PTuple (map PStr ys)) = Inr ys" and "py_strings H (PList (map PStr ys)) = Inr ys"
  using assms by (auto simp: py_strings_iff sorted_sort_id intro!: exI [of _ ys])

lemma tier_of_name [simp]: "tier_of (tier_name t) = Some t"
  by (cases t) (auto simp: tier_of_def)

lemma tier_of_Some_iff: "tier_of s = Some t \<longleftrightarrow> s = tier_name t"
  by (cases t) (auto simp: tier_of_def split: if_splits)

lemma tier_val_name [simp]: "tier_val (PStr (tier_name t)) = t"
  by (simp add: tier_val_def)

lemma tier_name_inj [simp]: "tier_name a = tier_name b \<longleftrightarrow> a = b"
  by (cases a; cases b) auto

lemma tier_le_iff: "a \<le> b \<longleftrightarrow> TRUST_ORDER a \<le> TRUST_ORDER b" for a b :: trust_tier
  by (rule less_eq_trust_tier_def)

lemma tier_less_iff: "a < b \<longleftrightarrow> TRUST_ORDER a < TRUST_ORDER b" for a b :: trust_tier
  by (rule less_trust_tier_def)

lemma trust_state_checks_iff:
  "trust_state_checks H g = Inr () \<longleftrightarrow>
     (\<forall>n \<in> set trust_tier_fields. \<exists>t. py_text H (g n) 32 = Inr (tier_name t)) \<and>
     (\<exists>s. py_text H (g ''method'') 64 = Inr s) \<and> (\<exists>s. py_text H (g ''key_id'') 128 = Inr s) \<and>
     (\<forall>n \<in> {''attestation_digest'', ''bundle_digest'', ''verifier_policy_digest''}. \<exists>s. py_digest H (g n) = Inr s) \<and>
     (\<exists>i. py_nonnegative (g ''verified_at_ms'') max_safe = Inr i) \<and>
     (\<exists>i. py_positive (g ''expires_at_ms'') max_safe = Inr i) \<and>
     int_of (g ''verified_at_ms'') < int_of (g ''expires_at_ms'') \<and>
     tier_val (g ''effective_trust'') = min (tier_val (g ''observed_trust'')) (tier_val (g ''provider_attested_trust''))"
proof -
  have tier: "bindE (py_text H v 32) (\<lambda>s. checkE (tier_of s = None) e) = Inr () \<longleftrightarrow>
      (\<exists>t. py_text H v 32 = Inr (tier_name t))" for v e
    by (auto simp: bindE_Inr_iff checkE_Inr_iff tier_of_Some_iff)
  show ?thesis
    unfolding trust_state_checks_def
    by (simp only: seqE_Inr_iff set_append set_map ball_Un ball_simps set_simps unitE_Inr_iff
        checkE_Inr_iff image_iff tier not_le not_not) auto
qed

lemma trust_lookup:
  "dict_get (trust_state_to_dict t) ''attestation_digest'' = PStr (ts_attestation_digest t)"
  "dict_get (trust_state_to_dict t) ''bundle_digest'' = PStr (ts_bundle_digest t)"
  "dict_get (trust_state_to_dict t) ''effective_trust'' = PStr (tier_name (ts_effective_trust t))"
  "dict_get (trust_state_to_dict t) ''expires_at_ms'' = PInt (ts_expires_at_ms t)"
  "dict_get (trust_state_to_dict t) ''key_id'' = PStr (ts_key_id t)"
  "dict_get (trust_state_to_dict t) ''method'' = PStr (ts_method t)"
  "dict_get (trust_state_to_dict t) ''observed_trust'' = PStr (tier_name (ts_observed_trust t))"
  "dict_get (trust_state_to_dict t) ''provider_attested_trust'' = PStr (tier_name (ts_provider_attested_trust t))"
  "dict_get (trust_state_to_dict t) ''requested_trust'' = PStr (tier_name (ts_requested_trust t))"
  "dict_get (trust_state_to_dict t) ''verified_at_ms'' = PInt (ts_verified_at_ms t)"
  "dict_get (trust_state_to_dict t) ''verifier_policy_digest'' = PStr (ts_verifier_policy_digest t)"
  by (simp_all add: dict_get_def trust_state_to_dict_def)

lemma trust_from_to_dict:
  assumes "trust_state_init H g = Inr t"
  shows "trust_state_from_dict H (PDict (trust_state_to_dict t)) = Inr t"
proof -
  let ?g = "dict_get (trust_state_to_dict t)"
  have ok: "trust_state_checks H g = Inr ()" and t: "t = trust_state_build g"
    using assms by (auto simp: trust_state_init_def res_simps)
  have tiers: "\<forall>n \<in> set trust_tier_fields. g n = PStr (tier_name (tier_val (g n)))"
    using ok unfolding trust_state_checks_iff by (auto simp: py_text_Inr_iff)
  have same: "\<forall>n \<in> set trust_fields. ?g n = g n"
    using ok tiers unfolding trust_state_checks_iff t trust_fields_def trust_tier_fields_def trust_lookup
    by (elim conjE exE) (simp add: trust_lookup trust_state_build_def res_simps, metis str_of.simps(1))
  have "trust_state_checks H ?g = trust_state_checks H g" "trust_state_build ?g = trust_state_build g"
    using same by (simp_all add: trust_state_checks_def trust_state_build_def trust_fields_def trust_tier_fields_def)
  moreover have "map fst (trust_state_to_dict t) = trust_fields"
    by (simp add: trust_state_to_dict_def trust_fields_def)
  ultimately show ?thesis
    using ok t by (simp add: trust_state_from_dict_def trust_state_init_def)
qed

lemma trust_state_invariant:
  assumes "trust_state_init H g = Inr t"
  shows "ts_effective_trust t = min (ts_observed_trust t) (ts_provider_attested_trust t)"
    and "0 \<le> ts_verified_at_ms t" and "ts_verified_at_ms t < ts_expires_at_ms t"
  using assms by (auto simp: trust_state_init_def res_simps trust_state_checks_iff trust_state_build_def)

lemma ATTESTATION_METHOD_TRUST_Some: "ATTESTATION_METHOD_TRUST m = Some t \<Longrightarrow> m \<in> {''simulator'', ''static-development'', ''tpm2''}"
  by (auto simp: ATTESTATION_METHOD_TRUST_def split: if_splits)

lemma trust_from_attestation_cases:
  assumes "trust_state_from_attestation H v req = Inr t"
  obtains m d tier where "v = PDict m" "set attestation_required \<subseteq> fst ` set m" "dict_get m ''valid'' = PBool True"
    "dict_get m ''resultDigest'' = PStr d" "digest H (PDict (AList.delete ''resultDigest'' m)) = Inr d" "is_digest d"
    "dict_get m ''method'' = PStr (ts_method t)" "ATTESTATION_METHOD_TRUST (ts_method t) = Some tier"
    "dict_get m ''trustLevel'' = PStr (tier_name tier)"
    "ts_observed_trust t = tier" "ts_provider_attested_trust t = tier" "ts_effective_trust t = tier"
    "ts_attestation_digest t = d" "ts_verified_at_ms t < ts_expires_at_ms t"
    "timestamp_ms H (dict_get m ''nonceExpiresAt'') = Inr (ts_expires_at_ms t)"
    "trust_state_init H (dict_get (trust_state_to_dict t)) = Inr t"
proof -
  obtain m where v: "v = PDict m" using assms by (cases v) (auto simp: trust_state_from_attestation_def)
  from assms obtain d meth tier ver ex kid ad bd vd g where
    "set attestation_required \<subseteq> fst ` set m" "dict_get m ''valid'' = PBool True"
    "dict_get m ''resultDigest'' = PStr d" "digest H (PDict (AList.delete ''resultDigest'' m)) = Inr d"
    "py_text H (dict_get m ''method'') 64 = Inr meth" "ATTESTATION_METHOD_TRUST meth = Some tier"
    "py_text H (dict_get m ''trustLevel'') 32 = Inr (tier_name tier)"
    "timestamp_ms H (dict_get m ''nonceExpiresAt'') = Inr ex" "py_digest H (PStr d) = Inr ad"
    and g: "g = dict_get [(''requested_trust'', req), (''observed_trust'', PStr (tier_name tier)),
                  (''provider_attested_trust'', PStr (tier_name tier)), (''effective_trust'', PStr (tier_name tier)),
                  (''method'', PStr meth), (''key_id'', PStr kid), (''attestation_digest'', PStr ad),
                  (''bundle_digest'', PStr bd), (''verifier_policy_digest'', PStr vd),
                  (''verified_at_ms'', PInt ver), (''expires_at_ms'', PInt ex)]" and i: "trust_state_init H g = Inr t"
    unfolding v trust_state_from_attestation_def
    by (auto simp: res_simps Let_def split: if_splits option.splits)
  moreover have "t = trust_state_build g" using i by (auto simp: trust_state_init_def res_simps)
  then have "ts_method t = meth" "ts_observed_trust t = tier" "ts_provider_attested_trust t = tier"
    "ts_effective_trust t = tier" "ts_attestation_digest t = ad" "ts_expires_at_ms t = ex"
    by (simp_all add: trust_state_build_def g dict_get_def)
  moreover have "trust_state_init H (dict_get (trust_state_to_dict t)) = Inr t"
    using trust_from_to_dict [OF i] by (auto simp: trust_state_from_dict_def split: if_splits)
  ultimately show thesis
    using that [OF v, of d tier] trust_state_invariant(3) [OF i] by (auto simp: py_digest_Inr_iff py_text_Inr_iff)
qed

subsection \<open>Evaluation on the concrete host\<close>

lemma demo_py_text:
  "s \<noteq> [] \<Longrightarrow> ascii s \<Longrightarrow> length s \<le> n \<Longrightarrow> n \<le> 16384 \<Longrightarrow> py_text demo_host (PStr s) n = Inr s"
  by (auto simp: py_text_Inr_iff demo_value_ok_def intro!: demo_canonical dest: ascii_utf8 valid_utf8_no_surrogate)

lemma demo_digest_ascii [simp]: "ascii demo_digest" "demo_digest \<noteq> []" "length demo_digest = 64" "is_digest demo_digest"
  by (simp_all add: demo_digest_def ascii_def is_digest_def hex_n_def is_hex_lower_def list_all_iff)

lemma demo_py_digest: "py_digest demo_host (PStr demo_digest) = Inr demo_digest"
  by (simp add: py_digest_Inr_iff demo_py_text)

section \<open>Properties\<close>

text \<open>
  Trust comes from evidence only. A trust state derived from an attestation result has the tier
  registered for the attestation method, never a higher one; the result is marked valid, hashes to the
  digest it claims, and the state expires with the nonce, after it was verified.
\<close>

theorem attested_trust_sound:
  assumes "trust_state_from_attestation H v req = Inr t"
  shows "\<exists>m d. v = PDict m \<and> dict_get m ''valid'' = PBool True
    \<and> dict_get m ''resultDigest'' = PStr d \<and> digest H (PDict (AList.delete ''resultDigest'' m)) = Inr d
    \<and> ts_attestation_digest t = d
    \<and> ATTESTATION_METHOD_TRUST (ts_method t) = Some (ts_effective_trust t)
    \<and> dict_get m ''trustLevel'' = PStr (tier_name (ts_effective_trust t))
    \<and> timestamp_ms H (dict_get m ''nonceExpiresAt'') = Inr (ts_expires_at_ms t)
    \<and> ts_verified_at_ms t < ts_expires_at_ms t"
  using assms by (rule trust_from_attestation_cases) auto

definition demo_unsigned_attestation :: dict where
  "demo_unsigned_attestation =
     [(''valid'', PBool True), (''deviceId'', PStr ''e1''), (''method'', PStr ''static-development''),
      (''trustLevel'', PStr ''software''), (''keyId'', PStr ''k1''),
      (''measurements'', PDict [(''executor'', PStr demo_digest)]),
      (''bundleDigest'', PStr demo_digest), (''verifiedAt'', PStr ''t''),
      (''verifierPolicyDigest'', PStr demo_digest), (''nonceExpiresAt'', PStr ''ttt''),
      (''nonceIssuedAt'', PStr ''t''), (''assuranceLevel'', PStr ''low''),
      (''nonceContext'', PDict [(''deviceId'', PStr ''e1''), (''executorId'', PStr ''e1''),
         (''sessionId'', PStr ''s1''), (''purpose'', PStr ''p'')])]"

definition demo_attestation :: dict where
  "demo_attestation = demo_unsigned_attestation @ [(''resultDigest'', PStr demo_digest)]"

definition demo_trust :: trust_state where
  "demo_trust = \<lparr>ts_requested_trust = Simulated, ts_observed_trust = Software, ts_provider_attested_trust = Software,
     ts_effective_trust = Software, ts_method = ''static-development'', ts_key_id = ''k1'',
     ts_attestation_digest = demo_digest, ts_bundle_digest = demo_digest, ts_verifier_policy_digest = demo_digest,
     ts_verified_at_ms = 60000, ts_expires_at_ms = 180000\<rparr>"

lemma demo_attestation_ok:
  "trust_state_from_attestation demo_host (PDict demo_attestation) (PStr ''simulated'') = Inr demo_trust"
proof -
  have d: "digest demo_host (PDict demo_unsigned_attestation) = Inr demo_digest"
    by (rule digest_demo) code_simp
  have del: "AList.delete ''resultDigest'' demo_attestation = demo_unsigned_attestation"
    by (simp add: demo_attestation_def demo_unsigned_attestation_def)
  have keys: "subset_list attestation_required (map fst demo_attestation)"
    unfolding demo_attestation_def demo_unsigned_attestation_def by code_simp
  have get: "dict_get demo_attestation ''valid'' = PBool True" "dict_get demo_attestation ''resultDigest'' = PStr demo_digest"
    "dict_get demo_attestation ''method'' = PStr ''static-development''" "dict_get demo_attestation ''trustLevel'' = PStr ''software''"
    "dict_get demo_attestation ''verifiedAt'' = PStr ''t''" "dict_get demo_attestation ''nonceExpiresAt'' = PStr ''ttt''"
    "dict_get demo_attestation ''keyId'' = PStr ''k1''" "dict_get demo_attestation ''bundleDigest'' = PStr demo_digest"
    "dict_get demo_attestation ''verifierPolicyDigest'' = PStr demo_digest"
    by (simp_all add: demo_attestation_def demo_unsigned_attestation_def dict_get_def)
  have a: "ascii ''static-development''" "ascii ''software''" "ascii ''t''" "ascii ''ttt''" "ascii ''k1''" "ascii ''simulated''"
    by (code_simp, code_simp, code_simp, code_simp, code_simp, code_simp)
  show ?thesis
    using keys a
    by (simp add: trust_state_build_def demo_trust_def Let_def trust_state_from_attestation_def d del get demo_py_text demo_py_digest ATTESTATION_METHOD_TRUST_def
        timestamp_ms_def demo_host_def [THEN arg_cong, of from_iso] trust_state_init_def trust_state_checks_def
        trust_tier_fields_def tier_of_def tier_val_def py_nonnegative_def py_positive_def max_safe_def unitE_def
        del: subset_list_iff)
qed

theorem attested_trust_sound_witness:
  "ATTESTATION_METHOD_TRUST (ts_method demo_trust) = Some (ts_effective_trust demo_trust)
     \<and> ts_verified_at_ms demo_trust < ts_expires_at_ms demo_trust"
  using attested_trust_sound [OF demo_attestation_ok] by blast

end
