(* ===== verification/Attestation.thy ===== *)
theory Attestation
  imports Trust
begin

text \<open>
  \<open>attestation.py\<close>: what a provider returns about an executor. The static development provider is
  modelled in full; of the bridge to the external verifier, the checks on the verifier's parsed answer
  and the two digests added to it (running the process is outside the model, its answer is an argument).
  A provider is a function from executor, session and purpose to evidence or an exception.
\<close>

section \<open>Definitions\<close>

type_synonym provider = "string \<Rightarrow> string \<Rightarrow> string \<Rightarrow> pyval res"

definition nonce_context :: "string \<Rightarrow> string \<Rightarrow> string \<Rightarrow> dict" where
  "nonce_context executor_id session_id purpose =
     [(''deviceId'', PStr executor_id), (''executorId'', PStr executor_id),
      (''sessionId'', PStr session_id), (''purpose'', PStr purpose)]"

text \<open>\<open>v == {...}\<close> for a dictionary of strings: the order of the keys does not matter.\<close>

definition equals_dict :: "pyval \<Rightarrow> dict \<Rightarrow> bool" where
  "equals_dict v m = (case v of
     PDict m' \<Rightarrow> length m' = length m \<and> list_all (\<lambda>p. List.member m' p) m
   | _ \<Rightarrow> False)"

definition static_verify_executor :: "host \<Rightarrow> (string \<times> string) list \<Rightarrow> provider" where
  "static_verify_executor H measurements executor_id session_id purpose =
     (case map_of measurements executor_id of
        None \<Rightarrow> Inl (AttestationError ''executor has no trusted measurement'')
      | Some measurement \<Rightarrow>
          if measurement = [] then Inl (AttestationError ''executor has no trusted measurement'')
          else bindE (digest H (PDict
             [(''provider'', PStr ''static-development''), (''deviceId'', PStr executor_id),
              (''executorMeasurement'', PStr measurement), (''sessionId'', PStr session_id), (''purpose'', PStr purpose)])) (\<lambda>bd.
          bindE (digest H (PDict
             [(''provider'', PStr ''static-development''), (''deviceId'', PStr executor_id),
              (''executorMeasurement'', PStr measurement)])) (\<lambda>vd.
          let result =
             [(''valid'', PBool True), (''deviceId'', PStr executor_id), (''method'', PStr ''static-development''),
              (''trustLevel'', PStr ''software''), (''assuranceLevel'', PStr ''development''),
              (''measurements'', PDict [(''executor'', PStr measurement)]), (''bundleDigest'', PStr bd),
              (''keyId'', PStr ''static-development:no-external-authority''),
              (''verifiedAt'', PStr ''1970-01-01T00:00:00.000Z''),
              (''nonceContext'', PDict (nonce_context executor_id session_id purpose)),
              (''nonceIssuedAt'', PStr ''1970-01-01T00:00:00.000Z''),
              (''nonceExpiresAt'', PStr ''1970-01-01T00:00:00.001Z''), (''verifierPolicyDigest'', PStr vd)]
          in bindE (digest H (PDict result)) (\<lambda>rd. Inr (PDict (result @ [(''resultDigest'', PStr rd)]))))))"

text \<open>The checks of \<open>DevelopmentAttestationProvider.verify_executor\<close> on the verifier's answer.\<close>

definition bridge_result :: "host \<Rightarrow> pyval \<Rightarrow> provider" where
  "bridge_result H answer executor_id session_id purpose = (case answer of
     PDict m \<Rightarrow>
       if \<not> truthy (dict_get m ''valid'') then Inl (AttestationError ''attestation rejected'')
       else if dict_get m ''deviceId'' \<noteq> PStr executor_id
         then Inl (AttestationError ''Executor Attestation result device identity mismatch'')
       else if \<not> equals_dict (dict_get m ''nonceContext'') (nonce_context executor_id session_id purpose)
         then Inl (AttestationError ''Executor Attestation result nonce context mismatch'')
       else if \<not> truthy (dict_get m ''nonceIssuedAt'') \<or> \<not> truthy (dict_get m ''nonceExpiresAt'')
         then Inl (AttestationError ''Executor Attestation result omitted nonce lifetime'')
       else if \<not> is_mapping (dict_get m ''measurements'')
            \<or> \<not> truthy (dict_get (dict_of (dict_get m ''measurements'')) ''executor'')
         then Inl (AttestationError ''Executor Attestation result omitted executor measurement'')
       else if \<not> truthy (dict_get m ''bundleDigest'') \<or> \<not> truthy (dict_get m ''keyId'')
         then Inl (AttestationError ''Executor Attestation result omitted proof or key identity'')
       else bindE (digest H (PDict
              [(''provider'', PStr ''attestation-development-bridge''), (''deviceId'', PStr executor_id),
               (''minimumTrust'', PStr ''simulated''),
               (''expectedExecutorMeasurement'', dict_get (dict_of (dict_get m ''measurements'')) ''executor'')])) (\<lambda>vd.
         let result = AList.update ''verifierPolicyDigest'' (PStr vd) m in
         bindE (digest H (PDict result)) (\<lambda>rd. Inr (PDict (AList.update ''resultDigest'' (PStr rd) result))))
   | _ \<Rightarrow> Inl (AttributeError ''get''))"

section \<open>Lemmas\<close>

lemma equals_dict_iff:
  assumes "distinct (map fst m)"
  shows "equals_dict v m \<Longrightarrow> \<exists>m'. v = PDict m' \<and> set m' = set m"
proof -
  assume "equals_dict v m"
  then obtain m' where v: "v = PDict m'" "length m' = length m" "set m \<subseteq> set m'"
    by (cases v) (auto simp: equals_dict_def list_all_iff)
  moreover have "distinct m" using assms by (simp add: distinct_map)
  then have "card (set m) = length m" by (rule distinct_card)
  then have "set m = set m'"
    using v card_length [of m'] by (intro card_seteq) auto
  ultimately show ?thesis by auto
qed

lemma equals_dict_refl [simp]: "equals_dict (PDict m) m"
  by (simp add: equals_dict_def list_all_iff)

lemma static_provider_result:
  assumes "static_verify_executor H ms e s p = Inr v"
  shows "\<exists>m. v = PDict m \<and> dict_get m ''deviceId'' = PStr e \<and> dict_get m ''trustLevel'' = PStr ''software''
    \<and> dict_get m ''nonceContext'' = PDict (nonce_context e s p)
    \<and> (\<exists>x. map_of ms e = Some x \<and> dict_get m ''measurements'' = PDict [(''executor'', PStr x)])"
  using assms by (auto simp: static_verify_executor_def res_simps Let_def split: option.splits if_splits)

end
