(* ===== verification/Guardians.thy ===== *)
theory Guardians
  imports Attestation
begin

text \<open>
  \<open>guardians.py\<close>: the four guardians and the quorum. The quorum sees a guardian only through the
  outcome of the worker thread that runs it: it may time out, put nothing into the queue, raise, or
  return a value, whose fields are then dynamic. A guardian of the quorum is its name, the digest of
  the policy it carries (if it has one) and that outcome.
\<close>

section \<open>Definitions\<close>

subsection \<open>The guardians\<close>

text \<open>\<open>dict(v)\<close>: a dictionary, or a sequence of pairs with string keys.\<close>

definition py_pair :: "pyval \<Rightarrow> (string \<times> pyval) res" where
  "py_pair v = (case v of
     PList [PStr k, x] \<Rightarrow> Inr (k, x)
   | PTuple [PStr k, x] \<Rightarrow> Inr (k, x)
   | PStr s \<Rightarrow> (case code_points s [] of [a, b] \<Rightarrow> Inr (a, PStr b) | _ \<Rightarrow> Inl (ValueError ''dictionary update sequence''))
   | _ \<Rightarrow> Inl (TypeError ''cannot convert dictionary update sequence''))"

definition py_dict :: "pyval \<Rightarrow> dict res" where
  "py_dict v = (case v of
     PDict m \<Rightarrow> Inr m
   | PList xs \<Rightarrow> bindE (sequenceE (map py_pair xs)) (\<lambda>ps. Inr (fold (\<lambda>(k, x) m. AList.update k x m) ps []))
   | PTuple xs \<Rightarrow> bindE (sequenceE (map py_pair xs)) (\<lambda>ps. Inr (fold (\<lambda>(k, x) m. AList.update k x m) ps []))
   | PStr s \<Rightarrow> if s = [] then Inr [] else Inl (ValueError ''dictionary update sequence'')
   | _ \<Rightarrow> Inl (TypeError ''object is not iterable''))"

definition evidence_required :: "string list" where
  "evidence_required = [''bundleDigest'', ''resultDigest'', ''verifierPolicyDigest'', ''keyId'',
     ''nonceContext'', ''nonceIssuedAt'', ''nonceExpiresAt'']"

definition attestation_evidence :: "dict \<Rightarrow> pyval \<Rightarrow> trust_state \<Rightarrow> dict" where
  "attestation_evidence e measurement t =
     [(''device_id'', dict_get e ''deviceId''), (''measurement'', measurement),
      (''bundle_digest'', dict_get e ''bundleDigest''), (''attestation_result_digest'', dict_get e ''resultDigest''),
      (''verifier_policy_digest'', dict_get e ''verifierPolicyDigest''), (''method'', dict_get e ''method''),
      (''trust_level'', dict_get e ''trustLevel''), (''assurance_level'', dict_get e ''assuranceLevel''),
      (''key_id'', dict_get e ''keyId''), (''nonce_context'', dict_get e ''nonceContext''),
      (''nonce_issued_at'', dict_get e ''nonceIssuedAt''), (''nonce_expires_at'', dict_get e ''nonceExpiresAt''),
      (''provider_trust_state'', PDict (trust_state_to_dict t)), (''attestation_result'', PDict e)]"

definition attestation_decide :: "host \<Rightarrow> action_request \<Rightarrow> dict \<Rightarrow> pyval \<Rightarrow> guardian_decision res" where
  "attestation_decide H r evidence measurement =
     (let name = EXECUTOR_ATTESTATION_GUARDIAN; deny = (\<lambda>reason. decide H r name False reason []) in
      if \<not> truthy measurement then deny ''verified evidence omitted executor measurement''
      else if dict_get evidence ''deviceId'' \<noteq> PStr (ar_executor_id r)
        then deny ''verified device does not match requested executor''
      else if list_ex (\<lambda>n. \<not> truthy (dict_get evidence n)) evidence_required
        then deny ''verified evidence omitted required binding''
      else if \<not> equals_dict (dict_get evidence ''nonceContext'')
                 (nonce_context (ar_executor_id r) (ar_session_id r) (ar_purpose r))
        then deny ''verified nonce context does not match request''
      else case trust_state_from_attestation H (PDict evidence) (PStr ''simulated'') of
          Inl e \<Rightarrow> if is_value_error e then deny ''provider trust state is invalid'' else Inl e
        | Inr trust \<Rightarrow> decide H r name True ''executor identity and measurement verified''
                         (attestation_evidence evidence measurement trust))"

definition attestation_evaluate :: "host \<Rightarrow> provider \<Rightarrow> action_request \<Rightarrow> guardian_decision res" where
  "attestation_evaluate H provider r =
     (case bindE (provider (ar_executor_id r) (ar_session_id r) (ar_purpose r)) py_dict of
        Inl e \<Rightarrow> (case e of AttestationError reason \<Rightarrow> decide H r EXECUTOR_ATTESTATION_GUARDIAN False reason [] | _ \<Rightarrow> Inl e)
      | Inr evidence \<Rightarrow>
          bindE (case map_of evidence ''measurements'' of None \<Rightarrow> Inr [] | Some v \<Rightarrow> py_dict v) (\<lambda>ms.
            attestation_decide H r evidence (dict_get ms ''executor'')))"

record lineage_state =
  lb_requests :: "string \<Rightarrow> int option"
  lb_denials :: "string \<Rightarrow> int option"

record lineage_limits =
  lb_max_requests :: int
  lb_max_denials :: int

definition count_of :: "(string \<Rightarrow> int option) \<Rightarrow> string \<Rightarrow> int" where
  "count_of m k = (case m k of None \<Rightarrow> 0 | Some i \<Rightarrow> i)"

definition lineage_evaluate ::
  "host \<Rightarrow> lineage_limits \<Rightarrow> lineage_state \<Rightarrow> action_request \<Rightarrow> guardian_decision res \<times> lineage_state" where
  "lineage_evaluate H limits st r =
     (let used = count_of (lb_requests st) (ar_session_id r); denied = count_of (lb_denials st) (ar_session_id r);
          name = LINEAGE_BUDGET_GUARDIAN in
      if used \<ge> lb_max_requests limits then (decide H r name False ''session request budget exhausted'' [], st)
      else if denied \<ge> lb_max_denials limits then (decide H r name False ''session denial budget exhausted'' [], st)
      else (decide H r name True ''lineage budget available'' [(''used'', PInt (used + 1))],
            st\<lparr>lb_requests := (lb_requests st)(ar_session_id r \<mapsto> used + 1)\<rparr>))"

definition record_denial :: "lineage_state \<Rightarrow> string \<Rightarrow> lineage_state" where
  "record_denial st session_id =
     st\<lparr>lb_denials := (lb_denials st)(session_id \<mapsto> count_of (lb_denials st) session_id + 1)\<rparr>"

definition suspicious_operations :: "string list" where
  "suspicious_operations = [''shell.execute'', ''http.request'', ''package.install'', ''credential.read'',
     ''network.connect'', ''tool.register'', ''policy.modify'']"

definition sequence_evaluate :: "host \<Rightarrow> action_request \<Rightarrow> guardian_decision res" where
  "sequence_evaluate H r =
     (if ar_operation r \<in> set suspicious_operations
      then decide H r BEHAVIORAL_TRANSITION_GUARDIAN False ''operation is a prohibited escape primitive'' []
      else decide H r BEHAVIORAL_TRANSITION_GUARDIAN True ''no prohibited transition detected'' [])"

subsection \<open>The quorum\<close>

record reply =
  rp_guardian :: pyval
  rp_allowed :: pyval
  rp_reason :: pyval
  rp_evidence :: pyval
  rp_request_digest :: pyval

text \<open>\<open>Returned None\<close>: a value that is not a \<open>GuardianDecision\<close>.\<close>

datatype outcome = Timed_out | Queue_empty | Raised | Returned "reply option"

record guardian =
  gu_name :: "string option"
  gu_policy_digest :: "string option res"
  gu_outcome :: outcome

text \<open>\<open>GuardianQuorum.__post_init__\<close>, with the timeout in milliseconds.\<close>

definition quorum_init :: "guardian list \<Rightarrow> int \<Rightarrow> guardian list res" where
  "quorum_init gs timeout_ms =
     (if 0 < timeout_ms \<and> timeout_ms \<le> 30000 then Inr gs
      else Inl (ValueError ''guardian timeout must be greater than zero and at most 30 seconds''))"

definition guardian_name :: "guardian \<Rightarrow> string" where
  "guardian_name g = (case gu_name g of None \<Rightarrow> ''malformed-guardian'' | Some n \<Rightarrow> n)"

definition reply_ok :: "string \<Rightarrow> string \<Rightarrow> reply \<Rightarrow> bool" where
  "reply_ok name rd v \<longleftrightarrow>
     rp_guardian v = PStr name \<and> rp_allowed v \<in> {PBool True, PBool False} \<and> is_str (rp_reason v) \<and> truthy (rp_reason v)
     \<and> is_mapping (rp_evidence v) \<and> rp_request_digest v = PStr rd"

definition decision_of :: "reply \<Rightarrow> guardian_decision" where
  "decision_of v = \<lparr>gd_guardian = str_of (rp_guardian v), gd_allowed = (rp_allowed v = PBool True),
     gd_reason = str_of (rp_reason v), gd_evidence = dict_of (rp_evidence v),
     gd_request_digest = str_of (rp_request_digest v)\<rparr>"

definition evaluate_one :: "host \<Rightarrow> guardian \<Rightarrow> action_request \<Rightarrow> guardian_decision res" where
  "evaluate_one H g r =
     (let deny = (\<lambda>reason. decide H r (guardian_name g) False reason []) in
      case gu_outcome g of
        Timed_out \<Rightarrow> deny ''guardian timed out''
      | Queue_empty \<Rightarrow> deny ''guardian returned no decision''
      | Raised \<Rightarrow> deny ''guardian failed closed''
      | Returned None \<Rightarrow> deny ''guardian response binding or schema mismatch''
      | Returned (Some v) \<Rightarrow> bindE (request_digest H r) (\<lambda>rd.
          if reply_ok (guardian_name g) rd v then Inr (decision_of v)
          else deny ''guardian response binding or schema mismatch''))"

text \<open>\<open>_expected_policy_digest\<close>; reading the digest of a policy may itself raise.\<close>

fun expected_policy_digest :: "guardian list \<Rightarrow> string option res" where
  "expected_policy_digest [] = Inr None"
| "expected_policy_digest (g # gs) =
     (if gu_name g = Some STATIC_POLICY_GUARDIAN then
        bindE (gu_policy_digest g) (\<lambda>candidate.
          case candidate of Some d \<Rightarrow> Inr (Some d) | None \<Rightarrow> expected_policy_digest gs)
      else expected_policy_digest gs)"

definition inconsistent_policy :: "string option \<Rightarrow> guardian_decision \<Rightarrow> bool" where
  "inconsistent_policy expected d =
     (let reported = dict_get (gd_evidence d) ''policy_digest'' in
      (gd_guardian d = STATIC_POLICY_GUARDIAN \<and> gd_allowed d
         \<and> (case expected of None \<Rightarrow> True | Some e \<Rightarrow> reported \<noteq> PStr e))
      \<or> (reported \<noteq> PNone \<and> (case expected of None \<Rightarrow> False | Some e \<Rightarrow> reported \<noteq> PStr e)))"

text \<open>The loop over the decisions, with the names seen so far.\<close>

fun revise :: "host \<Rightarrow> action_request \<Rightarrow> string option \<Rightarrow> string list \<Rightarrow> guardian_decision list \<Rightarrow> guardian_decision list res" where
  "revise H r expected seen [] = Inr []"
| "revise H r expected seen (d # ds) =
     bindE (if gd_guardian d \<in> set seen \<or> inconsistent_policy expected d
            then decide H r (gd_guardian d) False ''duplicate guardian or inconsistent policy version'' []
            else Inr d) (\<lambda>d'.
     bindE (revise H r expected (gd_guardian d # seen) ds) (\<lambda>ds'. Inr (d' # ds')))"

definition quorum_evaluate :: "host \<Rightarrow> guardian list \<Rightarrow> action_request \<Rightarrow> guardian_decision list res" where
  "quorum_evaluate H gs r =
     bindE (sequenceE (map (\<lambda>g. evaluate_one H g r) gs)) (\<lambda>decisions.
     bindE (sequenceE (map (\<lambda>n. decide H r n False ''required guardian is unavailable'' [])
                          (sorted_set (filter (\<lambda>n. n \<notin> set (map gd_guardian decisions)) REQUIRED_GUARDIANS)))) (\<lambda>missing.
     bindE (expected_policy_digest gs) (\<lambda>expected. revise H r expected [] (decisions @ missing))))"

definition quorum_allowed :: "guardian list \<Rightarrow> guardian_decision list \<Rightarrow> bool res" where
  "quorum_allowed gs ds = bindE (expected_policy_digest gs) (\<lambda>expected.
     let names = map gd_guardian ds; static = filter (\<lambda>d. gd_guardian d = STATIC_POLICY_GUARDIAN) ds in
     Inr (ds \<noteq> [] \<and> distinct names \<and> subset_list REQUIRED_GUARDIANS names
      \<and> length (remdups (map gd_request_digest ds)) = 1
      \<and> list_all gd_allowed ds \<and> length static = 1
      \<and> (case expected of
           None \<Rightarrow> False
         | Some e \<Rightarrow> dict_get (gd_evidence (hd static)) ''policy_digest'' = PStr e
             \<and> list_all (\<lambda>d. case map_of (gd_evidence d) ''policy_digest'' of None \<Rightarrow> True | Some v \<Rightarrow> v = PStr e) ds)))"

text \<open>A guardian of the development as the quorum sees it: its decision, or the exception it raised.\<close>

definition guardian_of :: "string \<Rightarrow> string option res \<Rightarrow> guardian_decision res \<Rightarrow> guardian" where
  "guardian_of name pd res = \<lparr>gu_name = Some name, gu_policy_digest = pd,
     gu_outcome = (case res of
        Inl _ \<Rightarrow> Raised
      | Inr d \<Rightarrow> Returned (Some \<lparr>rp_guardian = PStr (gd_guardian d), rp_allowed = PBool (gd_allowed d),
          rp_reason = PStr (gd_reason d), rp_evidence = PDict (gd_evidence d),
          rp_request_digest = PStr (gd_request_digest d)\<rparr>))\<rparr>"

text \<open>The quorum of the four guardians of this file, asked about one request.\<close>

definition standard_guardians ::
  "host \<Rightarrow> static_policy \<Rightarrow> provider \<Rightarrow> lineage_limits \<Rightarrow> lineage_state \<Rightarrow> action_request \<Rightarrow> guardian list" where
  "standard_guardians H p provider limits st r =
     [guardian_of STATIC_POLICY_GUARDIAN (bindE (policy_digest H p) (\<lambda>d. Inr (Some d))) (policy_evaluate H p r),
      guardian_of EXECUTOR_ATTESTATION_GUARDIAN (Inr None) (attestation_evaluate H provider r),
      guardian_of LINEAGE_BUDGET_GUARDIAN (Inr None) (fst (lineage_evaluate H limits st r)),
      guardian_of BEHAVIORAL_TRANSITION_GUARDIAN (Inr None) (sequence_evaluate H r)]"

text \<open>A history of the lineage budget: evaluations and recorded denials, in order.\<close>

datatype lineage_event = Evaluate action_request | Deny string

fun lineage_run ::
  "host \<Rightarrow> lineage_limits \<Rightarrow> lineage_state \<Rightarrow> lineage_event list \<Rightarrow> (string \<times> guardian_decision res) list" where
  "lineage_run H limits st [] = []"
| "lineage_run H limits st (Evaluate r # es) =
     (ar_session_id r, fst (lineage_evaluate H limits st r)) # lineage_run H limits (snd (lineage_evaluate H limits st r)) es"
| "lineage_run H limits st (Deny s # es) = lineage_run H limits (record_denial st s) es"

definition lineage_allowed :: "string \<Rightarrow> (string \<times> guardian_decision res) list \<Rightarrow> nat" where
  "lineage_allowed s ds = length (filter (\<lambda>(s', res). s' = s \<and> (case res of Inr d \<Rightarrow> gd_allowed d | Inl _ \<Rightarrow> False)) ds)"

definition lineage_start :: lineage_state where
  "lineage_start = \<lparr>lb_requests = Map.empty, lb_denials = Map.empty\<rparr>"

section \<open>Lemmas\<close>

definition approves :: "host \<Rightarrow> action_request \<Rightarrow> guardian \<Rightarrow> bool" where
  "approves H r g \<longleftrightarrow> (\<exists>v rd. gu_outcome g = Returned (Some v) \<and> request_digest H r = Inr rd
     \<and> reply_ok (guardian_name g) rd v \<and> rp_allowed v = PBool True)"

lemma evaluate_one_Inr:
  assumes "evaluate_one H g r = Inr d"
  shows "gd_guardian d = guardian_name g" and "request_digest H r = Inr (gd_request_digest d)"
    and "gd_allowed d \<longleftrightarrow> approves H r g"
  using assms
  by (auto simp: evaluate_one_def Let_def res_simps approves_def decision_of_def reply_ok_def
      split: outcome.splits option.splits if_splits)

lemma revise_Inr:
  "revise H r expected seen ds = Inr ds' \<Longrightarrow>
     list_all2 (\<lambda>d d'. gd_guardian d' = gd_guardian d \<and> (gd_allowed d' \<longrightarrow> d' = d \<and> \<not> inconsistent_policy expected d)) ds ds'"
  by (induction H r expected seen ds arbitrary: ds' rule: revise.induct)
    (auto simp: res_simps split: if_splits)

lemma quorum_allowed_iff:
  "quorum_allowed gs ds = Inr True \<longleftrightarrow>
     (\<exists>e s. expected_policy_digest gs = Inr (Some e) \<and> ds \<noteq> [] \<and> distinct (map gd_guardian ds)
       \<and> set REQUIRED_GUARDIANS \<subseteq> gd_guardian ` set ds \<and> length (remdups (map gd_request_digest ds)) = 1
       \<and> list_all gd_allowed ds \<and> filter (\<lambda>d. gd_guardian d = STATIC_POLICY_GUARDIAN) ds = [s]
       \<and> dict_get (gd_evidence s) ''policy_digest'' = PStr e
       \<and> list_all (\<lambda>d. case map_of (gd_evidence d) ''policy_digest'' of None \<Rightarrow> True | Some v \<Rightarrow> v = PStr e) ds)"
  by (auto simp: quorum_allowed_def Let_def res_simps length_Suc_conv split: option.splits)

text \<open>When the quorum allows a request, its decisions are exactly the guardians' own approvals.\<close>

lemma quorum_sound:
  assumes ev: "quorum_evaluate H gs r = Inr ds" and al: "quorum_allowed gs ds = Inr True"
  shows "list_all (approves H r) gs" and "map gd_guardian ds = map guardian_name gs"
    and "map (\<lambda>g. evaluate_one H g r) gs = map Inr ds"
proof -
  obtain e where all: "list_all gd_allowed ds"
    using al by (auto simp: quorum_allowed_iff)
  obtain decisions missing expected where
    dec: "map (\<lambda>g. evaluate_one H g r) gs = map Inr decisions"
    and mis: "map (\<lambda>n. decide H r n False ''required guardian is unavailable'' [])
        (sorted_set (filter (\<lambda>n. n \<notin> set (map gd_guardian decisions)) REQUIRED_GUARDIANS)) = map Inr missing"
    and rev: "revise H r expected [] (decisions @ missing) = Inr ds"
    using ev by (auto simp: quorum_evaluate_def res_simps)
  have same: "ds = decisions @ missing"
    using revise_Inr [OF rev] all by (auto simp: list_all2_conv_all_nth list_all_length intro!: nth_equalityI)
  have "\<not> gd_allowed d" if "d \<in> set missing" for d
    using that list_all2_ex2 [OF mis [unfolded map_Inr_list_all2] that] by (auto simp: res_simps)
  then have "missing = []" using all same by (cases missing) (auto)
  then have ds: "ds = decisions" using same by simp
  have two: "list_all2 (\<lambda>g d. evaluate_one H g r = Inr d) gs ds"
    using dec ds by (simp add: map_Inr_list_all2)
  then show "list_all (approves H r) gs" "map gd_guardian ds = map guardian_name gs"
    using all by (induction rule: list_all2_induct) (auto dest: evaluate_one_Inr)
  show "map (\<lambda>g. evaluate_one H g r) gs = map Inr ds" using dec ds by simp
qed

lemma count_of_upd [simp]: "count_of (m(k \<mapsto> v)) k' = (if k' = k then v else count_of m k')"
  by (simp add: count_of_def)

lemma lineage_evaluate_cases:
  obtains (deny) reason where "reason \<noteq> []"
      "lineage_evaluate H limits st r = (decide H r LINEAGE_BUDGET_GUARDIAN False reason [], st)"
  | (allow) ev where "count_of (lb_requests st) (ar_session_id r) < lb_max_requests limits"
      "count_of (lb_denials st) (ar_session_id r) < lb_max_denials limits"
      "lineage_evaluate H limits st r =
         (decide H r LINEAGE_BUDGET_GUARDIAN True ''lineage budget available'' ev,
          st\<lparr>lb_requests := (lb_requests st)(ar_session_id r \<mapsto> count_of (lb_requests st) (ar_session_id r) + 1)\<rparr>)"
  by (cases "count_of (lb_requests st) (ar_session_id r) \<ge> lb_max_requests limits";
      cases "count_of (lb_denials st) (ar_session_id r) \<ge> lb_max_denials limits")
    (auto simp: lineage_evaluate_def Let_def)

lemma lineage_allowed_Cons:
  "lineage_allowed s (p # ds) =
     (if fst p = s \<and> (\<exists>d. snd p = Inr d \<and> gd_allowed d) then 1 else 0) + lineage_allowed s ds"
  by (cases p) (auto simp: lineage_allowed_def split: sum.splits)

lemma lineage_run_bound:
  "int (lineage_allowed s (lineage_run H limits st es)) \<le> max 0 (lb_max_requests limits - count_of (lb_requests st) s)"
proof (induction H limits st es rule: lineage_run.induct)
  case (2 H limits st r es)
  show ?case
  proof (cases rule: lineage_evaluate_cases [of H limits st r])
    case (deny reason)
    then show ?thesis using "2.IH" by (auto simp: lineage_allowed_Cons res_simps)
  next
    case (allow ev)
    then show ?thesis using "2.IH" by (auto simp: lineage_allowed_Cons res_simps split: if_splits simp del: fun_upd_apply)
  qed
qed (auto simp: lineage_allowed_def record_denial_def simp del: fun_upd_apply)

lemma lineage_run_denied:
  "lb_max_denials limits \<le> count_of (lb_denials st) s \<Longrightarrow> lineage_allowed s (lineage_run H limits st es) = 0"
proof (induction H limits st es rule: lineage_run.induct)
  case (2 H limits st r es)
  show ?case
  proof (cases rule: lineage_evaluate_cases [of H limits st r])
    case (deny reason)
    then show ?thesis using "2.IH" "2.prems" by (auto simp: lineage_allowed_Cons res_simps)
  next
    case (allow ev)
    then show ?thesis using "2.IH" "2.prems" by (auto simp: lineage_allowed_Cons res_simps)
  qed
next
  case (3 H limits st s' es)
  then show ?case by (cases "s = s'") (simp_all add: record_denial_def del: fun_upd_apply)
qed (simp add: lineage_allowed_def)

text \<open>The state a history leaves: whatever is evaluated, every denial is counted and none is forgotten.\<close>

fun lineage_after :: "host \<Rightarrow> lineage_limits \<Rightarrow> lineage_state \<Rightarrow> lineage_event list \<Rightarrow> lineage_state" where
  "lineage_after H limits st [] = st"
| "lineage_after H limits st (Evaluate r # es) = lineage_after H limits (snd (lineage_evaluate H limits st r)) es"
| "lineage_after H limits st (Deny s # es) = lineage_after H limits (record_denial st s) es"

definition denials_of :: "string \<Rightarrow> lineage_event list \<Rightarrow> nat" where
  "denials_of s es = length (filter (\<lambda>e. e = Deny s) es)"

lemma lineage_run_append: "lineage_run H limits st (es @ es') = lineage_run H limits st es @ lineage_run H limits (lineage_after H limits st es) es'"
  by (induction H limits st es rule: lineage_run.induct) simp_all

lemma lineage_allowed_append: "lineage_allowed s (ds @ ds') = lineage_allowed s ds + lineage_allowed s ds'"
  by (simp add: lineage_allowed_def)

lemma lineage_after_denials: "count_of (lb_denials (lineage_after H limits st es)) s = count_of (lb_denials st) s + int (denials_of s es)"
proof (induction H limits st es rule: lineage_after.induct)
  case (2 H limits st r es)
  have "lb_denials (snd (lineage_evaluate H limits st r)) = lb_denials st" by (cases rule: lineage_evaluate_cases [of H limits st r]) auto
  then show ?case using 2 by (simp add: denials_of_def)
qed (auto simp: denials_of_def record_denial_def count_of_def)

lemma lineage_run_after_denials:
  assumes "lb_max_denials limits \<le> count_of (lb_denials st) s + int (denials_of s es)"
  shows "lineage_allowed s (lineage_run H limits st (es @ es')) = lineage_allowed s (lineage_run H limits st es)"
  using assms lineage_run_denied [of limits "lineage_after H limits st es" s H es']
  by (simp add: lineage_run_append lineage_allowed_append lineage_after_denials)

lemma approves_guardian_of:
  "approves H r (guardian_of name pd res) \<longleftrightarrow>
     (\<exists>d. res = Inr d \<and> gd_guardian d = name \<and> gd_allowed d \<and> gd_reason d \<noteq> [] \<and> request_digest H r = Inr (gd_request_digest d))"
  by (auto simp: approves_def guardian_of_def guardian_name_def reply_ok_def split: sum.splits)

lemma attestation_decide_allowed:
  assumes "attestation_decide H r ev m = Inr d" and "gd_allowed d"
  shows "truthy m \<and> dict_get ev ''deviceId'' = PStr (ar_executor_id r)
    \<and> (\<forall>n \<in> set evidence_required. truthy (dict_get ev n))
    \<and> equals_dict (dict_get ev ''nonceContext'') (nonce_context (ar_executor_id r) (ar_session_id r) (ar_purpose r))
    \<and> (\<exists>t. trust_state_from_attestation H (PDict ev) (PStr ''simulated'') = Inr t \<and> gd_evidence d = attestation_evidence ev m t)
    \<and> gd_guardian d = EXECUTOR_ATTESTATION_GUARDIAN \<and> request_digest H r = Inr (gd_request_digest d)"
  using assms by (auto simp: attestation_decide_def Let_def res_simps list_ex_iff split: if_split_asm sum.split_asm)

lemma attestation_evaluate_allowed:
  assumes "attestation_evaluate H provider r = Inr d" and "gd_allowed d"
  obtains v ev m where "provider (ar_executor_id r) (ar_session_id r) (ar_purpose r) = Inr v" "py_dict v = Inr ev"
    "attestation_decide H r ev m = Inr d"
proof (cases "bindE (provider (ar_executor_id r) (ar_session_id r) (ar_purpose r)) py_dict")
  case (Inl e)
  then show thesis using assms by (cases e) (auto simp: attestation_evaluate_def res_simps)
next
  case (Inr ev)
  then obtain v where "provider (ar_executor_id r) (ar_session_id r) (ar_purpose r) = Inr v" "py_dict v = Inr ev"
    by (auto simp: res_simps)
  moreover obtain m where "attestation_decide H r ev m = Inr d"
    using assms Inr by (auto simp: attestation_evaluate_def res_simps)
  ultimately show thesis using that by blast
qed

section \<open>Properties\<close>

text \<open>
  Any veto blocks. When the quorum's decisions on a request are accepted by \<open>allowed\<close>, the guardians
  have distinct names, the four required ones are among them, and every guardian of the quorum, required
  or not, answered in time with a well-formed approval bound to the digest of this request: a guardian
  that times out, crashes, answers nothing, answers for another request, or denies, blocks the request.
\<close>

theorem quorum_unanimous:
  assumes "quorum_evaluate H gs r = Inr ds" and "quorum_allowed gs ds = Inr True"
  shows "distinct (map guardian_name gs) \<and> set REQUIRED_GUARDIANS \<subseteq> guardian_name ` set gs
    \<and> (\<forall>g \<in> set gs. \<exists>v rd. gu_outcome g = Returned (Some v) \<and> request_digest H r = Inr rd
         \<and> rp_guardian v = PStr (guardian_name g) \<and> rp_allowed v = PBool True \<and> rp_request_digest v = PStr rd)
    \<and> (\<exists>e. expected_policy_digest gs = Inr (Some e))"
proof -
  note sound = quorum_sound [OF assms]
  have "distinct (map guardian_name gs)" "set REQUIRED_GUARDIANS \<subseteq> guardian_name ` set gs"
    using assms(2) sound(2) unfolding quorum_allowed_iff by (metis, metis set_map)
  then show ?thesis
    using sound(1) assms(2) unfolding quorum_allowed_iff list_all_iff approves_def reply_ok_def by blast
qed

definition demo_limits :: lineage_limits where
  "demo_limits = \<lparr>lb_max_requests = 8, lb_max_denials = 3\<rparr>"

definition demo_provider :: provider where
  "demo_provider e s p = Inr (PDict demo_attestation)"

definition demo_guardians :: "guardian list" where
  "demo_guardians = standard_guardians demo_host demo_policy demo_provider demo_limits lineage_start demo_request"

lemma demo_request_digest: "request_digest demo_host demo_request = Inr demo_digest"
  unfolding request_digest_def by (rule digest_demo) code_simp

lemma demo_policy_digest: "policy_digest demo_host demo_policy = Inr demo_digest"
  unfolding policy_digest_def by (rule digest_demo) code_simp

lemma demo_policy_decision:
  "policy_evaluate demo_host demo_policy demo_request = Inr
     \<lparr>gd_guardian = STATIC_POLICY_GUARDIAN, gd_allowed = True, gd_reason = ''static policy permits exact request'',
      gd_evidence = [(''max_output_bytes'', PInt 4096), (''policy_digest'', PStr demo_digest)],
      gd_request_digest = demo_digest\<rparr>"
  unfolding policy_evaluate_def demo_policy_digest decide_def demo_request_digest
  by (simp add: demo_policy_def demo_request_def default_denied_argument_keys_def)

lemma demo_attestation_decision:
  "attestation_evaluate demo_host demo_provider demo_request = Inr
     \<lparr>gd_guardian = EXECUTOR_ATTESTATION_GUARDIAN, gd_allowed = True,
      gd_reason = ''executor identity and measurement verified'',
      gd_evidence = attestation_evidence demo_attestation (PStr demo_digest) demo_trust, gd_request_digest = demo_digest\<rparr>"
proof -
  have "map_of demo_attestation ''measurements'' = Some (PDict [(''executor'', PStr demo_digest)])"
    "dict_get demo_attestation ''deviceId'' = PStr ''e1''"
    "dict_get demo_attestation ''nonceContext'' = PDict (nonce_context ''e1'' ''s1'' ''p'')"
    "\<not> list_ex (\<lambda>n. \<not> truthy (dict_get demo_attestation n)) evidence_required"
    by (simp_all add: demo_attestation_def demo_unsigned_attestation_def nonce_context_def evidence_required_def demo_digest_def)
  then show ?thesis
    unfolding attestation_evaluate_def attestation_decide_def demo_attestation_ok decide_def demo_request_digest
    by (simp add: demo_provider_def py_dict_def demo_request_def demo_attestation_ok Let_def)
qed

lemma demo_quorum:
  "\<exists>ds. quorum_evaluate demo_host demo_guardians demo_request = Inr ds \<and> quorum_allowed demo_guardians ds = Inr True"
proof -
  have "lineage_evaluate demo_host demo_limits lineage_start demo_request =
      (decide demo_host demo_request LINEAGE_BUDGET_GUARDIAN True ''lineage budget available'' [(''used'', PInt 1)],
       lineage_start\<lparr>lb_requests := [''s1'' \<mapsto> 1]\<rparr>)"
    by (simp add: lineage_evaluate_def Let_def demo_limits_def lineage_start_def count_of_def demo_request_def)
  moreover have "sequence_evaluate demo_host demo_request =
      decide demo_host demo_request BEHAVIORAL_TRANSITION_GUARDIAN True ''no prohibited transition detected'' []"
    by (simp add: sequence_evaluate_def suspicious_operations_def demo_request_def)
  ultimately show ?thesis
    by (simp add: demo_guardians_def standard_guardians_def demo_policy_decision demo_attestation_decision demo_policy_digest
        quorum_evaluate_def quorum_allowed_def evaluate_one_def guardian_of_def reply_ok_def guardian_name_def decision_of_def
        demo_request_digest decide_def Let_def guardian_names REQUIRED_GUARDIANS_def sorted_set_def inconsistent_policy_def
        attestation_evidence_def subset_iff)
qed

theorem quorum_unanimous_witness:
  "distinct (map guardian_name demo_guardians)
    \<and> list_all (\<lambda>g. \<exists>v. gu_outcome g = Returned (Some v) \<and> rp_allowed v = PBool True) demo_guardians"
  unfolding list_all_iff using demo_quorum quorum_unanimous by blast

text \<open>
  C36: what an allowed request has been checked for. When the quorum of the four guardians of the harness
  allows a request, the static policy permits it exactly, the attestation evidence names the requested
  executor as the device and was made for this executor, session and purpose with a valid trust state,
  the session had budget left for requests and denials, and the operation is no escape primitive.
\<close>

theorem standard_quorum_sound:
  assumes "quorum_evaluate H (standard_guardians H p provider limits st r) r = Inr ds"
    and "quorum_allowed (standard_guardians H p provider limits st r) ds = Inr True"
  shows "policy_permits p r
    \<and> (\<exists>v ev t. provider (ar_executor_id r) (ar_session_id r) (ar_purpose r) = Inr v \<and> py_dict v = Inr ev
         \<and> dict_get ev ''deviceId'' = PStr (ar_executor_id r)
         \<and> equals_dict (dict_get ev ''nonceContext'') (nonce_context (ar_executor_id r) (ar_session_id r) (ar_purpose r))
         \<and> trust_state_from_attestation H (PDict ev) (PStr ''simulated'') = Inr t)
    \<and> count_of (lb_requests st) (ar_session_id r) < lb_max_requests limits
    \<and> count_of (lb_denials st) (ar_session_id r) < lb_max_denials limits
    \<and> ar_operation r \<notin> set suspicious_operations"
proof -
  have all: "list_all (approves H r) (standard_guardians H p provider limits st r)"
    using quorum_sound(1) [OF assms] .
  then obtain d1 d2 d3 d4 where d: "policy_evaluate H p r = Inr d1" "gd_allowed d1"
    "attestation_evaluate H provider r = Inr d2" "gd_allowed d2"
    "fst (lineage_evaluate H limits st r) = Inr d3" "gd_allowed d3"
    "sequence_evaluate H r = Inr d4" "gd_allowed d4"
    by (auto simp: standard_guardians_def approves_guardian_of)
  obtain v ev m where ev: "provider (ar_executor_id r) (ar_session_id r) (ar_purpose r) = Inr v" "py_dict v = Inr ev"
    and dec: "attestation_decide H r ev m = Inr d2"
    using d(3,4) by (rule attestation_evaluate_allowed)
  have "policy_permits p r" using policy_evaluate_binding(3) [OF d(1)] d(2) by blast
  moreover have "count_of (lb_requests st) (ar_session_id r) < lb_max_requests limits"
    "count_of (lb_denials st) (ar_session_id r) < lb_max_denials limits"
    using d(5,6) by (cases rule: lineage_evaluate_cases [of H limits st r]; auto simp: res_simps)+
  moreover have "ar_operation r \<notin> set suspicious_operations"
    using d(7,8) by (auto simp: sequence_evaluate_def res_simps split: if_splits)
  ultimately show ?thesis using ev attestation_decide_allowed [OF dec d(4)] by blast
qed

theorem standard_quorum_sound_witness:
  "policy_permits demo_policy demo_request \<and> ar_operation demo_request \<notin> set suspicious_operations"
  using demo_quorum standard_quorum_sound unfolding demo_guardians_def by blast

text \<open>
  C37: the lineage budget. Over any history of evaluations and recorded denials of any sessions, in any order, starting from a fresh
  guardian, at most \<open>max_requests_per_session\<close> evaluations of a session are allowed; and once a part of the history holds
  \<open>max_denials_per_session\<close> denials of the session, wherever they stand among the other events, none of its
  evaluations after that part is allowed.
\<close>

theorem lineage_budget_bound:
  "int (lineage_allowed s (lineage_run H limits lineage_start es)) \<le> max 0 (lb_max_requests limits)
    \<and> (lb_max_denials limits \<le> int (denials_of s es) \<longrightarrow>
        lineage_allowed s (lineage_run H limits lineage_start (es @ later)) = lineage_allowed s (lineage_run H limits lineage_start es))"
  using lineage_run_bound [of s H limits lineage_start es] lineage_run_after_denials [of limits lineage_start s es H later]
  by (simp add: lineage_start_def count_of_def)

theorem lineage_budget_bound_witness:
  "int (lineage_allowed ''s1'' (lineage_run demo_host demo_limits lineage_start (replicate 9 (Evaluate demo_request)))) \<le> 8
   \<and> lineage_allowed ''s1'' (lineage_run demo_host demo_limits lineage_start
        ([Deny ''s1'', Evaluate demo_request, Deny ''s1'', Deny ''s2'', Deny ''s1''] @ replicate 5 (Evaluate demo_request)))
     = lineage_allowed ''s1'' (lineage_run demo_host demo_limits lineage_start [Deny ''s1'', Evaluate demo_request, Deny ''s1'', Deny ''s2'', Deny ''s1''])"
proof -
  let ?es = "[Deny ''s1'', Evaluate demo_request, Deny ''s1'', Deny ''s2'', Deny ''s1'']"
  have "lb_max_requests demo_limits = 8" "lb_max_denials demo_limits \<le> int (denials_of ''s1'' ?es)"
    by (simp_all add: demo_limits_def denials_of_def)
  then show ?thesis
    using lineage_budget_bound [of "''s1''" demo_host demo_limits "replicate 9 (Evaluate demo_request)"]
      lineage_budget_bound [of "''s1''" demo_host demo_limits ?es "replicate 5 (Evaluate demo_request)"] by simp
qed

end
