(* ===== verification/Task.thy ===== *)
theory Task
  imports Guardians
begin

text \<open>
  \<open>TaskDescription\<close> of \<open>task_policy.py\<close>: the validated description of a task, its fingerprint, and the
  description built around a request. The helpers at the start read validated dynamic values and write
  typed ones back, for this and the following theories.
\<close>

section \<open>Reading and writing typed fields\<close>

definition strs_of :: "pyval \<Rightarrow> string list" where
  "strs_of v = sort (map str_of (items_of v))"

fun opt_str_of :: "pyval \<Rightarrow> string option" where
  "opt_str_of (PStr s) = Some s"
| "opt_str_of _ = None"

fun bool_of :: "pyval \<Rightarrow> bool" where
  "bool_of (PBool b) = b"
| "bool_of _ = False"

fun is_bool :: "pyval \<Rightarrow> bool" where
  "is_bool (PBool _) = True"
| "is_bool _ = False"

fun opt_int_of :: "pyval \<Rightarrow> int option" where
  "opt_int_of (PInt i) = Some i"
| "opt_int_of _ = None"

definition arrays_of :: "pyval \<Rightarrow> (string \<times> string list) list" where
  "arrays_of v = sort_key fst (map (\<lambda>p. (fst p, strs_of (snd p))) (dict_of v))"

definition opt_str :: "string option \<Rightarrow> pyval" where
  "opt_str t = (case t of None \<Rightarrow> PNone | Some s \<Rightarrow> PStr s)"

definition opt_int :: "int option \<Rightarrow> pyval" where
  "opt_int t = (case t of None \<Rightarrow> PNone | Some i \<Rightarrow> PInt i)"

definition arrays_val :: "(string \<times> string list) list \<Rightarrow> pyval" where
  "arrays_val m = PDict (map (\<lambda>p. (fst p, PStrs (snd p))) m)"

text \<open>Arguments given as tuples of strings, as the code passes them to a constructor.\<close>

definition PTexts :: "string list \<Rightarrow> pyval" where
  "PTexts xs = PTuple (map PStr xs)"

definition tuples_val :: "(string \<times> string list) list \<Rightarrow> pyval" where
  "tuples_val m = PDict (map (\<lambda>p. (fst p, PTexts (snd p))) m)"

text \<open>\<open>payload[name] = f(payload[name])\<close> for each name of a list, in order.\<close>

fun update_fields :: "(pyval \<Rightarrow> pyval res) \<Rightarrow> string list \<Rightarrow> dict \<Rightarrow> dict res" where
  "update_fields f [] m = Inr m"
| "update_fields f (n # ns) m = bindE (f (dict_get m n)) (\<lambda>v. update_fields f ns (AList.update n v m))"

section \<open>Definitions\<close>

record task_description =
  td_task_id :: string
  td_requesting_subject :: string
  td_workload_identity :: string
  td_natural_language_task :: string
  td_task_type :: "string option"
  td_tenant :: string
  td_environment :: string
  td_available_tools :: "string list"
  td_available_resources :: "string list"
  td_data_classification :: string
  td_user_approved_constraints :: dict
  td_global_policy_version :: string
  td_provider_attested_trust :: trust_state
  td_previous_approved_task_templates :: "string list"
  td_approved_historical_traces :: "string list"
  td_requested_completion_deadline_ms :: int
  td_human_approval_requirements :: "string list"

definition task_fields :: "string list" where
  "task_fields = [''task_id'', ''requesting_subject'', ''workload_identity'', ''natural_language_task'',
     ''task_type'', ''tenant'', ''environment'', ''available_tools'', ''available_resources'',
     ''data_classification'', ''user_approved_constraints'', ''global_policy_version'',
     ''provider_attested_trust'', ''previous_approved_task_templates'',
     ''approved_historical_traces'', ''requested_completion_deadline_ms'',
     ''human_approval_requirements'']"

text \<open>The checks of \<open>TaskDescription.__post_init__\<close>, in order.\<close>

definition task_checks :: "host \<Rightarrow> (string \<Rightarrow> pyval) \<Rightarrow> unit res" where
  "task_checks H g = seqE (
     map (\<lambda>n. unitE (py_text H (g n) 256)) [''task_id'', ''requesting_subject'', ''workload_identity'']
     @ [unitE (py_text H (g ''natural_language_task'') 4096), unitE (optional_text H (g ''task_type'') 256)]
     @ map (\<lambda>n. unitE (py_text H (g n) 256)) [''tenant'', ''environment'']
     @ map (\<lambda>n. unitE (py_strings H (g n))) [''available_tools'', ''available_resources'']
     @ [unitE (py_text H (g ''data_classification'') 64),
        checkE (\<not> is_mapping (g ''user_approved_constraints'')) (ValidationError ''user-approved constraints must be an object''),
        unitE (canonical_bytes H (g ''user_approved_constraints'')),
        unitE (py_text H (g ''global_policy_version'') 256),
        unitE (py_strings H (g ''previous_approved_task_templates'')),
        bindE (py_tuple (g ''approved_historical_traces'')) (\<lambda>v. seqE (map (\<lambda>x. unitE (py_digest H x)) (items_of v))),
        unitE (py_positive (g ''requested_completion_deadline_ms'') max_safe),
        unitE (py_strings H (g ''human_approval_requirements''))])"

definition task_build :: "(string \<Rightarrow> pyval) \<Rightarrow> trust_state \<Rightarrow> task_description" where
  "task_build g trust =
     \<lparr>td_task_id = str_of (g ''task_id''),
      td_requesting_subject = str_of (g ''requesting_subject''),
      td_workload_identity = str_of (g ''workload_identity''),
      td_natural_language_task = str_of (g ''natural_language_task''),
      td_task_type = opt_str_of (g ''task_type''),
      td_tenant = str_of (g ''tenant''),
      td_environment = str_of (g ''environment''),
      td_available_tools = strs_of (g ''available_tools''),
      td_available_resources = strs_of (g ''available_resources''),
      td_data_classification = str_of (g ''data_classification''),
      td_user_approved_constraints = sort_key fst (dict_of (g ''user_approved_constraints'')),
      td_global_policy_version = str_of (g ''global_policy_version''),
      td_provider_attested_trust = trust,
      td_previous_approved_task_templates = strs_of (g ''previous_approved_task_templates''),
      td_approved_historical_traces = map str_of (items_of (g ''approved_historical_traces'')),
      td_requested_completion_deadline_ms = int_of (g ''requested_completion_deadline_ms''),
      td_human_approval_requirements = strs_of (g ''human_approval_requirements'')\<rparr>"

definition task_init :: "host \<Rightarrow> (string \<Rightarrow> pyval) \<Rightarrow> trust_state \<Rightarrow> task_description res" where
  "task_init H g trust = bindE (task_checks H g) (\<lambda>_. Inr (task_build g trust))"

definition task_to_dict :: "task_description \<Rightarrow> dict" where
  "task_to_dict c =
     [(''task_id'', PStr (td_task_id c)),
      (''requesting_subject'', PStr (td_requesting_subject c)),
      (''workload_identity'', PStr (td_workload_identity c)),
      (''natural_language_task'', PStr (td_natural_language_task c)),
      (''task_type'', opt_str (td_task_type c)),
      (''tenant'', PStr (td_tenant c)),
      (''environment'', PStr (td_environment c)),
      (''available_tools'', PStrs (td_available_tools c)),
      (''available_resources'', PStrs (td_available_resources c)),
      (''data_classification'', PStr (td_data_classification c)),
      (''user_approved_constraints'', PDict (td_user_approved_constraints c)),
      (''global_policy_version'', PStr (td_global_policy_version c)),
      (''provider_attested_trust'', PDict (trust_state_to_dict (td_provider_attested_trust c))),
      (''previous_approved_task_templates'', PStrs (td_previous_approved_task_templates c)),
      (''approved_historical_traces'', PStrs (td_approved_historical_traces c)),
      (''requested_completion_deadline_ms'', PInt (td_requested_completion_deadline_ms c)),
      (''human_approval_requirements'', PStrs (td_human_approval_requirements c))]"

definition task_fingerprint :: "host \<Rightarrow> task_description \<Rightarrow> string res" where
  "task_fingerprint H t = digest H (PDict (task_to_dict t))"

definition task_from_dict :: "host \<Rightarrow> pyval \<Rightarrow> task_description res" where
  "task_from_dict H v = (case v of
     PDict m \<Rightarrow>
       if \<not> set_eq_list (map fst m) task_fields then Inl (ValidationError ''task description fields are invalid'')
       else bindE (trust_state_from_dict H (dict_get m ''provider_attested_trust'')) (\<lambda>trust.
         bindE (update_fields py_tuple
                  [''available_tools'', ''available_resources'', ''previous_approved_task_templates'',
                   ''approved_historical_traces'', ''human_approval_requirements''] m) (\<lambda>m'.
         task_init H (dict_get m') trust))
   | _ \<Rightarrow> Inl (ValidationError ''task description fields are invalid''))"

text \<open>\<open>task_description_for_request\<close>; \<open>tool_actions\<close> maps a tool to the actions it supplies.\<close>

definition default_task_type :: "string \<Rightarrow> string option" where
  "default_task_type operation =
     (if operation = ''object.read'' then Some ''summarization''
      else if operation = ''compute.run'' then Some ''read-only-analysis''
      else if operation = ''deployment.apply'' then Some ''deployment'' else None)"

definition policy_resources :: "static_policy \<Rightarrow> string list" where
  "policy_resources p = concat (map (\<lambda>(n, rule). or_resources rule) (sp_operations p))"

definition task_description_for_request ::
  "host \<Rightarrow> action_request \<Rightarrow> static_policy \<Rightarrow> trust_state \<Rightarrow> (string \<times> string list) list \<Rightarrow> string \<Rightarrow> string
     \<Rightarrow> string option \<Rightarrow> task_description res" where
  "task_description_for_request H r p trust tool_actions tenant environment task_type =
     task_init H (dict_get
       [(''task_id'', PStr (ar_request_id r)), (''requesting_subject'', PStr (ar_agent_id r)),
        (''workload_identity'', PStr (ar_executor_id r)),
        (''natural_language_task'', PStr (if ar_purpose r = [] then ''No natural-language purpose supplied.'' else ar_purpose r)),
        (''task_type'', opt_str (case task_type of None \<Rightarrow> default_task_type (ar_operation r) | Some t \<Rightarrow> Some t)),
        (''tenant'', PStr tenant), (''environment'', PStr environment),
        (''available_tools'', PTexts (sorted_set (map fst tool_actions))),
        (''available_resources'', PTexts (sorted_set (policy_resources p))),
        (''data_classification'', PStr ''internal''),
        (''user_approved_constraints'', PDict [(''requested_action'', PStr (ar_operation r)),
           (''requested_resource'', PStr (ar_resource_id r)),
           (''requested_argument_keys'', PStrs (sorted_set (map fst (ar_arguments r))))]),
        (''global_policy_version'', PStr (sp_policy_id p)),
        (''previous_approved_task_templates'', PTuple []), (''approved_historical_traces'', PTuple []),
        (''requested_completion_deadline_ms'', PInt (ts_expires_at_ms trust)),
        (''human_approval_requirements'', PTuple [])]) trust"

section \<open>Lemmas\<close>

lemma dict_get_update [simp]: "dict_get (AList.update n v m) k = (if k = n then v else dict_get m k)"
  by (simp add: dict_get_def update_conv')

lemma dict_keys_update [simp]: "fst ` set (AList.update n v m) = insert n (fst ` set m)"
  using dom_update [of n v m] by (simp add: dom_map_of_conv_image_fst)

lemma strs_of_PStrs [simp]: "strs_of (PStrs xs) = sort xs" "strs_of (PTexts xs) = sort xs"
  by (simp_all add: strs_of_def PStrs_def PTexts_def comp_def)

lemma py_strings_strs: "py_strings H v = Inr ys \<Longrightarrow> ys = strs_of v"
  by (auto simp: py_strings_iff strs_of_def comp_def)

lemma py_strings_strs_of: "py_strings H v = Inr ys \<Longrightarrow> sorted (strs_of v) \<and> distinct (strs_of v) \<and> good_strings H (strs_of v)"
  using py_strings_sorted py_strings_strs by blast

lemma task_init_iff:
  "task_init H g trust = Inr t \<longleftrightarrow> task_checks H g = Inr () \<and> t = task_build g trust"
  by (auto simp: task_init_def res_simps)

text \<open>The description of a request names it as the task and asks for nothing but what it needs.\<close>

lemma task_for_request:
  assumes "task_description_for_request H r p trust ta tenant env ty = Inr t"
  shows "td_task_id t = ar_request_id r" "td_requesting_subject t = ar_agent_id r"
    "td_workload_identity t = ar_executor_id r" "td_tenant t = tenant" "td_environment t = env"
    "td_global_policy_version t = sp_policy_id p" "td_provider_attested_trust t = trust"
    "td_requested_completion_deadline_ms t = ts_expires_at_ms trust" "td_human_approval_requirements t = []"
    "td_available_tools t = sorted_set (map fst ta)" "td_available_resources t = sorted_set (policy_resources p)"
  using assms unfolding task_description_for_request_def task_init_iff
  by (auto simp: task_build_def sorted_sort_id) (simp_all add: strs_of_def)

end
