(* ===== verification/Ceiling.thy ===== *)
theory Ceiling
  imports Task
begin

text \<open>
  The three value types of \<open>task_policy.py\<close> that carry authority: the proposed ceiling
  (\<open>CandidateTaskPolicyCeiling\<close>), a guardian's reduction (\<open>AuthorityReduction\<close>) and the compiled ceiling
  (\<open>CompiledTaskPolicyCeiling\<close>) with its integrity check and its permission test.
\<close>

section \<open>Definitions\<close>

text \<open>\<open>v in TRUST_ORDER\<close>, which raises on an unhashable value.\<close>

definition in_tiers :: "pyval \<Rightarrow> bool res" where
  "in_tiers v = (if unhashable v then Inl (TypeError ''unhashable type'') else Inr (is_str v \<and> tier_of (str_of v) \<noteq> None))"

subsection \<open>Candidate ceilings\<close>

record candidate =
  ct_ceiling_id :: string
  ct_task_id :: string
  ct_task_fingerprint :: string
  ct_synthesizer_version :: string
  ct_model_version :: string
  ct_policy_version :: string
  ct_confidence_bps :: int
  ct_tools :: "string list"
  ct_actions :: "string list"
  ct_resources :: "string list"
  ct_action_resources :: "(string \<times> string list) list"
  ct_argument_constraints :: "(string \<times> string list) list"
  ct_network_destinations :: "string list"
  ct_data_classes :: "string list"
  ct_maximum_read_bytes :: int
  ct_maximum_write_bytes :: int
  ct_maximum_calls :: int
  ct_maximum_parallelism :: int
  ct_maximum_duration_seconds :: int
  ct_required_trust_tier :: trust_tier
  ct_required_attestations :: "string list"
  ct_human_approval_gates :: "string list"
  ct_decay_profile :: string
  ct_rationale_codes :: "string list"
  ct_evidence_refs :: "string list"
  ct_fallback_used :: bool
  ct_shadow_only :: bool

definition candidate_fields :: "string list" where
  "candidate_fields = [''ceiling_id'', ''task_id'', ''task_fingerprint'', ''synthesizer_version'', ''model_version'',
     ''policy_version'', ''confidence_bps'', ''tools'', ''actions'', ''resources'',
     ''action_resources'', ''argument_constraints'', ''network_destinations'', ''data_classes'',
     ''maximum_read_bytes'', ''maximum_write_bytes'', ''maximum_calls'', ''maximum_parallelism'',
     ''maximum_duration_seconds'', ''required_trust_tier'', ''required_attestations'',
     ''human_approval_gates'', ''decay_profile'', ''rationale_codes'', ''evidence_refs'',
     ''fallback_used'', ''shadow_only'']"

definition candidate_strings :: "string list" where
  "candidate_strings = [''tools'', ''actions'', ''resources'', ''network_destinations'', ''data_classes'',
     ''required_attestations'', ''human_approval_gates'', ''rationale_codes'', ''evidence_refs'']"

definition maximum_fields :: "string list" where
  "maximum_fields = [''maximum_read_bytes'', ''maximum_write_bytes'', ''maximum_calls'', ''maximum_parallelism'',
     ''maximum_duration_seconds'']"

definition array_map_fields :: "string list" where
  "array_map_fields = [''action_resources'', ''argument_constraints'']"

text \<open>The checks of \<open>CandidateTaskPolicyCeiling.__post_init__\<close>, in order.\<close>

definition candidate_checks :: "host \<Rightarrow> (string \<Rightarrow> pyval) \<Rightarrow> unit res" where
  "candidate_checks H g = seqE (
     [checkE (\<not> (is_str (g ''ceiling_id'') \<and> take 5 (str_of (g ''ceiling_id'')) = ''ceil_''))
        (ValidationError ''candidate ceiling ID is malformed''),
      unitE (py_text H (g ''task_id'') 256), unitE (py_digest H (g ''task_fingerprint'')),
      unitE (py_text H (g ''synthesizer_version'') 256), unitE (py_text H (g ''model_version'') 256),
      unitE (py_text H (g ''policy_version'') 256), unitE (py_nonnegative (g ''confidence_bps'') 10000)]
     @ map (\<lambda>n. unitE (py_strings H (g n))) candidate_strings
     @ map (\<lambda>n. unitE (string_arrays H (g n))) array_map_fields
     @ map (\<lambda>n. unitE (py_nonnegative (g n) max_safe)) maximum_fields
     @ [bindE (in_tiers (g ''required_trust_tier'')) (\<lambda>b. checkE (\<not> b) (ValidationError ''candidate required trust tier is invalid'')),
        unitE (py_text H (g ''decay_profile'') 256),
        checkE (\<not> is_bool (g ''fallback_used'') \<or> \<not> is_bool (g ''shadow_only''))
          (ValidationError ''candidate mode flags must be booleans''),
        checkE (\<not> subset_list (map fst (arrays_of (g ''action_resources''))) (strs_of (g ''actions'')))
          (ValidationError ''candidate action-resource constraints name an undeclared action''),
        checkE (\<not> subset_list (map fst (arrays_of (g ''argument_constraints''))) (strs_of (g ''actions'')))
          (ValidationError ''candidate argument constraints name an undeclared action''),
        checkE (\<not> subset_list (concat (map snd (arrays_of (g ''action_resources'')))) (strs_of (g ''resources'')))
          (ValidationError ''candidate action-resource constraints name an undeclared resource'')])"

definition candidate_build :: "(string \<Rightarrow> pyval) \<Rightarrow> candidate" where
  "candidate_build g =
     \<lparr>ct_ceiling_id = str_of (g ''ceiling_id''),
      ct_task_id = str_of (g ''task_id''),
      ct_task_fingerprint = str_of (g ''task_fingerprint''),
      ct_synthesizer_version = str_of (g ''synthesizer_version''),
      ct_model_version = str_of (g ''model_version''),
      ct_policy_version = str_of (g ''policy_version''),
      ct_confidence_bps = int_of (g ''confidence_bps''),
      ct_tools = strs_of (g ''tools''),
      ct_actions = strs_of (g ''actions''),
      ct_resources = strs_of (g ''resources''),
      ct_action_resources = arrays_of (g ''action_resources''),
      ct_argument_constraints = arrays_of (g ''argument_constraints''),
      ct_network_destinations = strs_of (g ''network_destinations''),
      ct_data_classes = strs_of (g ''data_classes''),
      ct_maximum_read_bytes = int_of (g ''maximum_read_bytes''),
      ct_maximum_write_bytes = int_of (g ''maximum_write_bytes''),
      ct_maximum_calls = int_of (g ''maximum_calls''),
      ct_maximum_parallelism = int_of (g ''maximum_parallelism''),
      ct_maximum_duration_seconds = int_of (g ''maximum_duration_seconds''),
      ct_required_trust_tier = tier_val (g ''required_trust_tier''),
      ct_required_attestations = strs_of (g ''required_attestations''),
      ct_human_approval_gates = strs_of (g ''human_approval_gates''),
      ct_decay_profile = str_of (g ''decay_profile''),
      ct_rationale_codes = strs_of (g ''rationale_codes''),
      ct_evidence_refs = strs_of (g ''evidence_refs''),
      ct_fallback_used = bool_of (g ''fallback_used''),
      ct_shadow_only = bool_of (g ''shadow_only'')\<rparr>"

definition candidate_init :: "host \<Rightarrow> (string \<Rightarrow> pyval) \<Rightarrow> candidate res" where
  "candidate_init H g = bindE (candidate_checks H g) (\<lambda>_. Inr (candidate_build g))"

text \<open>The keyword arguments of the constructor, with the tuples the code passes.\<close>

definition candidate_args :: "candidate \<Rightarrow> string \<Rightarrow> pyval" where
  "candidate_args c = dict_get
     [(''ceiling_id'', PStr (ct_ceiling_id c)),
      (''task_id'', PStr (ct_task_id c)),
      (''task_fingerprint'', PStr (ct_task_fingerprint c)),
      (''synthesizer_version'', PStr (ct_synthesizer_version c)),
      (''model_version'', PStr (ct_model_version c)),
      (''policy_version'', PStr (ct_policy_version c)),
      (''confidence_bps'', PInt (ct_confidence_bps c)),
      (''tools'', PTexts (ct_tools c)),
      (''actions'', PTexts (ct_actions c)),
      (''resources'', PTexts (ct_resources c)),
      (''action_resources'', tuples_val (ct_action_resources c)),
      (''argument_constraints'', tuples_val (ct_argument_constraints c)),
      (''network_destinations'', PTexts (ct_network_destinations c)),
      (''data_classes'', PTexts (ct_data_classes c)),
      (''maximum_read_bytes'', PInt (ct_maximum_read_bytes c)),
      (''maximum_write_bytes'', PInt (ct_maximum_write_bytes c)),
      (''maximum_calls'', PInt (ct_maximum_calls c)),
      (''maximum_parallelism'', PInt (ct_maximum_parallelism c)),
      (''maximum_duration_seconds'', PInt (ct_maximum_duration_seconds c)),
      (''required_trust_tier'', PStr (tier_name (ct_required_trust_tier c))),
      (''required_attestations'', PTexts (ct_required_attestations c)),
      (''human_approval_gates'', PTexts (ct_human_approval_gates c)),
      (''decay_profile'', PStr (ct_decay_profile c)),
      (''rationale_codes'', PTexts (ct_rationale_codes c)),
      (''evidence_refs'', PTexts (ct_evidence_refs c)),
      (''fallback_used'', PBool (ct_fallback_used c)),
      (''shadow_only'', PBool (ct_shadow_only c))]"

definition candidate_to_dict :: "candidate \<Rightarrow> dict" where
  "candidate_to_dict c =
     [(''ceiling_id'', PStr (ct_ceiling_id c)),
      (''task_id'', PStr (ct_task_id c)),
      (''task_fingerprint'', PStr (ct_task_fingerprint c)),
      (''synthesizer_version'', PStr (ct_synthesizer_version c)),
      (''model_version'', PStr (ct_model_version c)),
      (''policy_version'', PStr (ct_policy_version c)),
      (''confidence_bps'', PInt (ct_confidence_bps c)),
      (''tools'', PStrs (ct_tools c)),
      (''actions'', PStrs (ct_actions c)),
      (''resources'', PStrs (ct_resources c)),
      (''action_resources'', arrays_val (ct_action_resources c)),
      (''argument_constraints'', arrays_val (ct_argument_constraints c)),
      (''network_destinations'', PStrs (ct_network_destinations c)),
      (''data_classes'', PStrs (ct_data_classes c)),
      (''maximum_read_bytes'', PInt (ct_maximum_read_bytes c)),
      (''maximum_write_bytes'', PInt (ct_maximum_write_bytes c)),
      (''maximum_calls'', PInt (ct_maximum_calls c)),
      (''maximum_parallelism'', PInt (ct_maximum_parallelism c)),
      (''maximum_duration_seconds'', PInt (ct_maximum_duration_seconds c)),
      (''required_trust_tier'', PStr (tier_name (ct_required_trust_tier c))),
      (''required_attestations'', PStrs (ct_required_attestations c)),
      (''human_approval_gates'', PStrs (ct_human_approval_gates c)),
      (''decay_profile'', PStr (ct_decay_profile c)),
      (''rationale_codes'', PStrs (ct_rationale_codes c)),
      (''evidence_refs'', PStrs (ct_evidence_refs c)),
      (''fallback_used'', PBool (ct_fallback_used c)),
      (''shadow_only'', PBool (ct_shadow_only c))]"

definition candidate_from_dict :: "host \<Rightarrow> pyval \<Rightarrow> candidate res" where
  "candidate_from_dict H v = (case v of
     PDict m \<Rightarrow>
       if \<not> set_eq_list (map fst m) candidate_fields then Inl (ValidationError ''candidate ceiling fields are invalid'')
       else bindE (update_fields py_tuple candidate_strings m) (\<lambda>m1.
            bindE (update_fields py_tuple_values array_map_fields m1) (\<lambda>m2. candidate_init H (dict_get m2)))
   | _ \<Rightarrow> Inl (ValidationError ''candidate ceiling fields are invalid''))"

subsection \<open>Reductions\<close>

record reduction =
  rd_source :: string
  rd_remove_tools :: "string list"
  rd_remove_actions :: "string list"
  rd_remove_resources :: "string list"
  rd_remove_network_destinations :: "string list"
  rd_maximum_read_bytes :: "int option"
  rd_maximum_write_bytes :: "int option"
  rd_maximum_calls :: "int option"
  rd_maximum_parallelism :: "int option"
  rd_maximum_duration_seconds :: "int option"
  rd_require_reattestation :: bool
  rd_require_human_approval :: bool
  rd_revoke :: bool

definition reduction_fields :: "string list" where
  "reduction_fields = [''source'', ''remove_tools'', ''remove_actions'', ''remove_resources'',
     ''remove_network_destinations'', ''maximum_read_bytes'', ''maximum_write_bytes'',
     ''maximum_calls'', ''maximum_parallelism'', ''maximum_duration_seconds'',
     ''require_reattestation'', ''require_human_approval'', ''revoke'']"

definition reduction_strings :: "string list" where
  "reduction_strings = [''remove_tools'', ''remove_actions'', ''remove_resources'', ''remove_network_destinations'']"

definition reduction_checks :: "host \<Rightarrow> (string \<Rightarrow> pyval) \<Rightarrow> unit res" where
  "reduction_checks H g = seqE (
     [unitE (py_text H (g ''source'') 256)]
     @ map (\<lambda>n. unitE (py_strings H (g n))) reduction_strings
     @ map (\<lambda>n. if g n = PNone then Inr () else unitE (py_nonnegative (g n) max_safe)) maximum_fields
     @ map (\<lambda>n. checkE (\<not> is_bool (g n)) (ValidationError ''reduction flags must be booleans''))
         [''require_reattestation'', ''require_human_approval'', ''revoke''])"

definition reduction_build :: "(string \<Rightarrow> pyval) \<Rightarrow> reduction" where
  "reduction_build g =
     \<lparr>rd_source = str_of (g ''source''),
      rd_remove_tools = strs_of (g ''remove_tools''),
      rd_remove_actions = strs_of (g ''remove_actions''),
      rd_remove_resources = strs_of (g ''remove_resources''),
      rd_remove_network_destinations = strs_of (g ''remove_network_destinations''),
      rd_maximum_read_bytes = opt_int_of (g ''maximum_read_bytes''),
      rd_maximum_write_bytes = opt_int_of (g ''maximum_write_bytes''),
      rd_maximum_calls = opt_int_of (g ''maximum_calls''),
      rd_maximum_parallelism = opt_int_of (g ''maximum_parallelism''),
      rd_maximum_duration_seconds = opt_int_of (g ''maximum_duration_seconds''),
      rd_require_reattestation = bool_of (g ''require_reattestation''),
      rd_require_human_approval = bool_of (g ''require_human_approval''),
      rd_revoke = bool_of (g ''revoke'')\<rparr>"

definition reduction_init :: "host \<Rightarrow> (string \<Rightarrow> pyval) \<Rightarrow> reduction res" where
  "reduction_init H g = bindE (reduction_checks H g) (\<lambda>_. Inr (reduction_build g))"

definition reduction_to_dict :: "reduction \<Rightarrow> dict" where
  "reduction_to_dict c =
     [(''source'', PStr (rd_source c)),
      (''remove_tools'', PStrs (rd_remove_tools c)),
      (''remove_actions'', PStrs (rd_remove_actions c)),
      (''remove_resources'', PStrs (rd_remove_resources c)),
      (''remove_network_destinations'', PStrs (rd_remove_network_destinations c)),
      (''maximum_read_bytes'', opt_int (rd_maximum_read_bytes c)),
      (''maximum_write_bytes'', opt_int (rd_maximum_write_bytes c)),
      (''maximum_calls'', opt_int (rd_maximum_calls c)),
      (''maximum_parallelism'', opt_int (rd_maximum_parallelism c)),
      (''maximum_duration_seconds'', opt_int (rd_maximum_duration_seconds c)),
      (''require_reattestation'', PBool (rd_require_reattestation c)),
      (''require_human_approval'', PBool (rd_require_human_approval c)),
      (''revoke'', PBool (rd_revoke c))]"

definition reduction_from_dict :: "host \<Rightarrow> pyval \<Rightarrow> reduction res" where
  "reduction_from_dict H v = (case v of
     PDict m \<Rightarrow>
       if \<not> set_eq_list (map fst m) reduction_fields then Inl (ValidationError ''authority reduction fields are invalid'')
       else bindE (update_fields py_tuple reduction_strings m) (\<lambda>m'. reduction_init H (dict_get m'))
   | _ \<Rightarrow> Inl (ValidationError ''authority reduction fields are invalid''))"

subsection \<open>Compiled ceilings\<close>

record compiled =
  cp_schema :: string
  cp_ceiling_id :: string
  cp_task_id :: string
  cp_task_fingerprint :: string
  cp_subject_id :: string
  cp_workload_identity :: string
  cp_tenant :: string
  cp_environment :: string
  cp_synthesizer_version :: string
  cp_compiler_version :: string
  cp_policy_version :: string
  cp_candidate_digest :: string
  cp_provider_attestation_digest :: string
  cp_provider_bundle_digest :: string
  cp_provider_key_id :: string
  cp_provider_method :: string
  cp_provider_trust :: trust_tier
  cp_required_trust_tier :: trust_tier
  cp_tools :: "string list"
  cp_actions :: "string list"
  cp_action_resources :: "(string \<times> string list) list"
  cp_argument_constraints :: "(string \<times> string list) list"
  cp_network_destinations :: "string list"
  cp_data_classes :: "string list"
  cp_maximum_read_bytes :: int
  cp_maximum_write_bytes :: int
  cp_maximum_calls :: int
  cp_maximum_parallelism :: int
  cp_maximum_duration_seconds :: int
  cp_required_attestations :: "string list"
  cp_human_approval_gates :: "string list"
  cp_decay_profile :: string
  cp_guardian_reductions_digest :: string
  cp_issued_at_ms :: int
  cp_expires_at_ms :: int
  cp_compiled_digest :: string

definition compiled_fields :: "string list" where
  "compiled_fields = [''schema'', ''ceiling_id'', ''task_id'', ''task_fingerprint'', ''subject_id'',
     ''workload_identity'', ''tenant'', ''environment'', ''synthesizer_version'',
     ''compiler_version'', ''policy_version'', ''candidate_digest'',
     ''provider_attestation_digest'', ''provider_bundle_digest'', ''provider_key_id'',
     ''provider_method'', ''provider_trust'', ''required_trust_tier'', ''tools'', ''actions'',
     ''action_resources'', ''argument_constraints'', ''network_destinations'', ''data_classes'',
     ''maximum_read_bytes'', ''maximum_write_bytes'', ''maximum_calls'', ''maximum_parallelism'',
     ''maximum_duration_seconds'', ''required_attestations'', ''human_approval_gates'',
     ''decay_profile'', ''guardian_reductions_digest'', ''issued_at_ms'', ''expires_at_ms'',
     ''compiled_digest'']"

definition compiled_texts :: "string list" where
  "compiled_texts = [''schema'', ''ceiling_id'', ''task_id'', ''subject_id'', ''workload_identity'', ''tenant'',
     ''environment'', ''synthesizer_version'', ''compiler_version'', ''policy_version'',
     ''provider_key_id'', ''provider_method'', ''decay_profile'']"

definition compiled_digests :: "string list" where
  "compiled_digests = [''task_fingerprint'', ''candidate_digest'', ''provider_attestation_digest'',
     ''provider_bundle_digest'', ''guardian_reductions_digest'', ''compiled_digest'']"

definition compiled_strings :: "string list" where
  "compiled_strings = [''tools'', ''actions'', ''network_destinations'', ''data_classes'', ''required_attestations'',
     ''human_approval_gates'']"

definition compiled_ints :: "string list" where
  "compiled_ints = [''maximum_read_bytes'', ''maximum_write_bytes'', ''maximum_calls'', ''maximum_parallelism'',
     ''maximum_duration_seconds'', ''issued_at_ms'', ''expires_at_ms'']"

text \<open>The checks of \<open>CompiledTaskPolicyCeiling.__post_init__\<close>, in order.\<close>

definition compiled_checks :: "host \<Rightarrow> (string \<Rightarrow> pyval) \<Rightarrow> unit res" where
  "compiled_checks H g = seqE (
     map (\<lambda>n. unitE (py_text H (g n) 256)) compiled_texts
     @ map (\<lambda>n. unitE (py_digest H (g n))) compiled_digests
     @ [bindE (in_tiers (g ''provider_trust'')) (\<lambda>b.
          if \<not> b then Inl (ValidationError ''compiled ceiling trust tier is invalid'')
          else bindE (in_tiers (g ''required_trust_tier'')) (\<lambda>b'.
            checkE (\<not> b') (ValidationError ''compiled ceiling trust tier is invalid'')))]
     @ map (\<lambda>n. unitE (py_strings H (g n))) compiled_strings
     @ map (\<lambda>n. unitE (string_arrays H (g n))) array_map_fields
     @ map (\<lambda>n. unitE (py_nonnegative (g n) max_safe)) compiled_ints
     @ [checkE (int_of (g ''expires_at_ms'') \<le> int_of (g ''issued_at_ms''))
          (ValidationError ''compiled ceiling expiration must follow issuance''),
        checkE (\<not> set_eq_list (map fst (arrays_of (g ''action_resources''))) (strs_of (g ''actions'')))
          (ValidationError ''compiled ceiling must bind resources for every action''),
        checkE (\<not> set_eq_list (map fst (arrays_of (g ''argument_constraints''))) (strs_of (g ''actions'')))
          (ValidationError ''compiled ceiling must bind argument constraints for every action'')])"

definition compiled_build :: "(string \<Rightarrow> pyval) \<Rightarrow> compiled" where
  "compiled_build g =
     \<lparr>cp_schema = str_of (g ''schema''),
      cp_ceiling_id = str_of (g ''ceiling_id''),
      cp_task_id = str_of (g ''task_id''),
      cp_task_fingerprint = str_of (g ''task_fingerprint''),
      cp_subject_id = str_of (g ''subject_id''),
      cp_workload_identity = str_of (g ''workload_identity''),
      cp_tenant = str_of (g ''tenant''),
      cp_environment = str_of (g ''environment''),
      cp_synthesizer_version = str_of (g ''synthesizer_version''),
      cp_compiler_version = str_of (g ''compiler_version''),
      cp_policy_version = str_of (g ''policy_version''),
      cp_candidate_digest = str_of (g ''candidate_digest''),
      cp_provider_attestation_digest = str_of (g ''provider_attestation_digest''),
      cp_provider_bundle_digest = str_of (g ''provider_bundle_digest''),
      cp_provider_key_id = str_of (g ''provider_key_id''),
      cp_provider_method = str_of (g ''provider_method''),
      cp_provider_trust = tier_val (g ''provider_trust''),
      cp_required_trust_tier = tier_val (g ''required_trust_tier''),
      cp_tools = strs_of (g ''tools''),
      cp_actions = strs_of (g ''actions''),
      cp_action_resources = arrays_of (g ''action_resources''),
      cp_argument_constraints = arrays_of (g ''argument_constraints''),
      cp_network_destinations = strs_of (g ''network_destinations''),
      cp_data_classes = strs_of (g ''data_classes''),
      cp_maximum_read_bytes = int_of (g ''maximum_read_bytes''),
      cp_maximum_write_bytes = int_of (g ''maximum_write_bytes''),
      cp_maximum_calls = int_of (g ''maximum_calls''),
      cp_maximum_parallelism = int_of (g ''maximum_parallelism''),
      cp_maximum_duration_seconds = int_of (g ''maximum_duration_seconds''),
      cp_required_attestations = strs_of (g ''required_attestations''),
      cp_human_approval_gates = strs_of (g ''human_approval_gates''),
      cp_decay_profile = str_of (g ''decay_profile''),
      cp_guardian_reductions_digest = str_of (g ''guardian_reductions_digest''),
      cp_issued_at_ms = int_of (g ''issued_at_ms''),
      cp_expires_at_ms = int_of (g ''expires_at_ms''),
      cp_compiled_digest = str_of (g ''compiled_digest'')\<rparr>"

definition compiled_init :: "host \<Rightarrow> (string \<Rightarrow> pyval) \<Rightarrow> compiled res" where
  "compiled_init H g = bindE (compiled_checks H g) (\<lambda>_. Inr (compiled_build g))"

text \<open>The keyword arguments of the constructor, with the tuples the code passes.\<close>

definition compiled_args :: "compiled \<Rightarrow> string \<Rightarrow> pyval" where
  "compiled_args c = dict_get
     [(''schema'', PStr (cp_schema c)),
      (''ceiling_id'', PStr (cp_ceiling_id c)),
      (''task_id'', PStr (cp_task_id c)),
      (''task_fingerprint'', PStr (cp_task_fingerprint c)),
      (''subject_id'', PStr (cp_subject_id c)),
      (''workload_identity'', PStr (cp_workload_identity c)),
      (''tenant'', PStr (cp_tenant c)),
      (''environment'', PStr (cp_environment c)),
      (''synthesizer_version'', PStr (cp_synthesizer_version c)),
      (''compiler_version'', PStr (cp_compiler_version c)),
      (''policy_version'', PStr (cp_policy_version c)),
      (''candidate_digest'', PStr (cp_candidate_digest c)),
      (''provider_attestation_digest'', PStr (cp_provider_attestation_digest c)),
      (''provider_bundle_digest'', PStr (cp_provider_bundle_digest c)),
      (''provider_key_id'', PStr (cp_provider_key_id c)),
      (''provider_method'', PStr (cp_provider_method c)),
      (''provider_trust'', PStr (tier_name (cp_provider_trust c))),
      (''required_trust_tier'', PStr (tier_name (cp_required_trust_tier c))),
      (''tools'', PTexts (cp_tools c)),
      (''actions'', PTexts (cp_actions c)),
      (''action_resources'', tuples_val (cp_action_resources c)),
      (''argument_constraints'', tuples_val (cp_argument_constraints c)),
      (''network_destinations'', PTexts (cp_network_destinations c)),
      (''data_classes'', PTexts (cp_data_classes c)),
      (''maximum_read_bytes'', PInt (cp_maximum_read_bytes c)),
      (''maximum_write_bytes'', PInt (cp_maximum_write_bytes c)),
      (''maximum_calls'', PInt (cp_maximum_calls c)),
      (''maximum_parallelism'', PInt (cp_maximum_parallelism c)),
      (''maximum_duration_seconds'', PInt (cp_maximum_duration_seconds c)),
      (''required_attestations'', PTexts (cp_required_attestations c)),
      (''human_approval_gates'', PTexts (cp_human_approval_gates c)),
      (''decay_profile'', PStr (cp_decay_profile c)),
      (''guardian_reductions_digest'', PStr (cp_guardian_reductions_digest c)),
      (''issued_at_ms'', PInt (cp_issued_at_ms c)),
      (''expires_at_ms'', PInt (cp_expires_at_ms c)),
      (''compiled_digest'', PStr (cp_compiled_digest c))]"

definition unsigned_dict :: "compiled \<Rightarrow> dict" where
  "unsigned_dict c =
     [(''schema'', PStr (cp_schema c)),
      (''ceiling_id'', PStr (cp_ceiling_id c)),
      (''task_id'', PStr (cp_task_id c)),
      (''task_fingerprint'', PStr (cp_task_fingerprint c)),
      (''subject_id'', PStr (cp_subject_id c)),
      (''workload_identity'', PStr (cp_workload_identity c)),
      (''tenant'', PStr (cp_tenant c)),
      (''environment'', PStr (cp_environment c)),
      (''synthesizer_version'', PStr (cp_synthesizer_version c)),
      (''compiler_version'', PStr (cp_compiler_version c)),
      (''policy_version'', PStr (cp_policy_version c)),
      (''candidate_digest'', PStr (cp_candidate_digest c)),
      (''provider_attestation_digest'', PStr (cp_provider_attestation_digest c)),
      (''provider_bundle_digest'', PStr (cp_provider_bundle_digest c)),
      (''provider_key_id'', PStr (cp_provider_key_id c)),
      (''provider_method'', PStr (cp_provider_method c)),
      (''provider_trust'', PStr (tier_name (cp_provider_trust c))),
      (''required_trust_tier'', PStr (tier_name (cp_required_trust_tier c))),
      (''tools'', PStrs (cp_tools c)),
      (''actions'', PStrs (cp_actions c)),
      (''action_resources'', arrays_val (cp_action_resources c)),
      (''argument_constraints'', arrays_val (cp_argument_constraints c)),
      (''network_destinations'', PStrs (cp_network_destinations c)),
      (''data_classes'', PStrs (cp_data_classes c)),
      (''maximum_read_bytes'', PInt (cp_maximum_read_bytes c)),
      (''maximum_write_bytes'', PInt (cp_maximum_write_bytes c)),
      (''maximum_calls'', PInt (cp_maximum_calls c)),
      (''maximum_parallelism'', PInt (cp_maximum_parallelism c)),
      (''maximum_duration_seconds'', PInt (cp_maximum_duration_seconds c)),
      (''required_attestations'', PStrs (cp_required_attestations c)),
      (''human_approval_gates'', PStrs (cp_human_approval_gates c)),
      (''decay_profile'', PStr (cp_decay_profile c)),
      (''guardian_reductions_digest'', PStr (cp_guardian_reductions_digest c)),
      (''issued_at_ms'', PInt (cp_issued_at_ms c)),
      (''expires_at_ms'', PInt (cp_expires_at_ms c))]"

definition compiled_to_dict :: "compiled \<Rightarrow> dict" where
  "compiled_to_dict c = unsigned_dict c @ [(''compiled_digest'', PStr (cp_compiled_digest c))]"

definition compiled_schema :: string where
  "compiled_schema = ''event-horizon.compiled-task-ceiling.v1''"

definition verify_integrity :: "host \<Rightarrow> compiled \<Rightarrow> unit res" where
  "verify_integrity H c =
     (if cp_schema c \<noteq> compiled_schema then Inl (PolicyCompilationError ''compiled ceiling schema is invalid'')
      else bindE (digest H (PDict (unsigned_dict c))) (\<lambda>d.
        checkE (d \<noteq> cp_compiled_digest c) (PolicyCompilationError ''compiled ceiling digest is invalid'')))"

definition compiled_from_dict :: "host \<Rightarrow> pyval \<Rightarrow> compiled res" where
  "compiled_from_dict H v = (case v of
     PDict m \<Rightarrow>
       if \<not> set_eq_list (map fst m) compiled_fields then Inl (ValidationError ''compiled ceiling fields are invalid'')
       else bindE (update_fields py_tuple compiled_strings m) (\<lambda>m1.
            bindE (update_fields py_tuple_values array_map_fields m1) (\<lambda>m2.
            bindE (compiled_init H (dict_get m2)) (\<lambda>c. bindE (verify_integrity H c) (\<lambda>_. Inr c))))
   | _ \<Rightarrow> Inl (ValidationError ''compiled ceiling fields are invalid''))"

definition array_get :: "(string \<times> string list) list \<Rightarrow> string \<Rightarrow> string list" where
  "array_get m k = (case map_of m k of None \<Rightarrow> [] | Some xs \<Rightarrow> xs)"

definition permits :: "host \<Rightarrow> compiled \<Rightarrow> action_request \<Rightarrow> bool res" where
  "permits H c r = bindE (verify_integrity H c) (\<lambda>_. Inr (
     ar_agent_id r = cp_subject_id c \<and> ar_executor_id r = cp_workload_identity c
     \<and> ar_operation r \<in> set (cp_actions c)
     \<and> ar_resource_id r \<in> set (array_get (cp_action_resources c) (ar_operation r))
     \<and> subset_list (map fst (ar_arguments r)) (array_get (cp_argument_constraints c) (ar_operation r))))"

section \<open>Lemmas\<close>

lemma unsigned_lookup:
  "dict_get (unsigned_dict c) ''schema'' = PStr (cp_schema c)"
  "dict_get (unsigned_dict c) ''ceiling_id'' = PStr (cp_ceiling_id c)"
  "dict_get (unsigned_dict c) ''task_id'' = PStr (cp_task_id c)"
  "dict_get (unsigned_dict c) ''task_fingerprint'' = PStr (cp_task_fingerprint c)"
  "dict_get (unsigned_dict c) ''subject_id'' = PStr (cp_subject_id c)"
  "dict_get (unsigned_dict c) ''workload_identity'' = PStr (cp_workload_identity c)"
  "dict_get (unsigned_dict c) ''tenant'' = PStr (cp_tenant c)"
  "dict_get (unsigned_dict c) ''environment'' = PStr (cp_environment c)"
  "dict_get (unsigned_dict c) ''synthesizer_version'' = PStr (cp_synthesizer_version c)"
  "dict_get (unsigned_dict c) ''compiler_version'' = PStr (cp_compiler_version c)"
  "dict_get (unsigned_dict c) ''policy_version'' = PStr (cp_policy_version c)"
  "dict_get (unsigned_dict c) ''candidate_digest'' = PStr (cp_candidate_digest c)"
  "dict_get (unsigned_dict c) ''provider_attestation_digest'' = PStr (cp_provider_attestation_digest c)"
  "dict_get (unsigned_dict c) ''provider_bundle_digest'' = PStr (cp_provider_bundle_digest c)"
  "dict_get (unsigned_dict c) ''provider_key_id'' = PStr (cp_provider_key_id c)"
  "dict_get (unsigned_dict c) ''provider_method'' = PStr (cp_provider_method c)"
  "dict_get (unsigned_dict c) ''provider_trust'' = PStr (tier_name (cp_provider_trust c))"
  "dict_get (unsigned_dict c) ''required_trust_tier'' = PStr (tier_name (cp_required_trust_tier c))"
  "dict_get (unsigned_dict c) ''tools'' = PStrs (cp_tools c)"
  "dict_get (unsigned_dict c) ''actions'' = PStrs (cp_actions c)"
  "dict_get (unsigned_dict c) ''action_resources'' = arrays_val (cp_action_resources c)"
  "dict_get (unsigned_dict c) ''argument_constraints'' = arrays_val (cp_argument_constraints c)"
  "dict_get (unsigned_dict c) ''network_destinations'' = PStrs (cp_network_destinations c)"
  "dict_get (unsigned_dict c) ''data_classes'' = PStrs (cp_data_classes c)"
  "dict_get (unsigned_dict c) ''maximum_read_bytes'' = PInt (cp_maximum_read_bytes c)"
  "dict_get (unsigned_dict c) ''maximum_write_bytes'' = PInt (cp_maximum_write_bytes c)"
  "dict_get (unsigned_dict c) ''maximum_calls'' = PInt (cp_maximum_calls c)"
  "dict_get (unsigned_dict c) ''maximum_parallelism'' = PInt (cp_maximum_parallelism c)"
  "dict_get (unsigned_dict c) ''maximum_duration_seconds'' = PInt (cp_maximum_duration_seconds c)"
  "dict_get (unsigned_dict c) ''required_attestations'' = PStrs (cp_required_attestations c)"
  "dict_get (unsigned_dict c) ''human_approval_gates'' = PStrs (cp_human_approval_gates c)"
  "dict_get (unsigned_dict c) ''decay_profile'' = PStr (cp_decay_profile c)"
  "dict_get (unsigned_dict c) ''guardian_reductions_digest'' = PStr (cp_guardian_reductions_digest c)"
  "dict_get (unsigned_dict c) ''issued_at_ms'' = PInt (cp_issued_at_ms c)"
  "dict_get (unsigned_dict c) ''expires_at_ms'' = PInt (cp_expires_at_ms c)"
  by (simp_all add: unsigned_dict_def)
lemma candidate_lookup:
  "dict_get (candidate_to_dict c) ''ceiling_id'' = PStr (ct_ceiling_id c)"
  "dict_get (candidate_to_dict c) ''task_id'' = PStr (ct_task_id c)"
  "dict_get (candidate_to_dict c) ''task_fingerprint'' = PStr (ct_task_fingerprint c)"
  "dict_get (candidate_to_dict c) ''synthesizer_version'' = PStr (ct_synthesizer_version c)"
  "dict_get (candidate_to_dict c) ''model_version'' = PStr (ct_model_version c)"
  "dict_get (candidate_to_dict c) ''policy_version'' = PStr (ct_policy_version c)"
  "dict_get (candidate_to_dict c) ''confidence_bps'' = PInt (ct_confidence_bps c)"
  "dict_get (candidate_to_dict c) ''tools'' = PStrs (ct_tools c)"
  "dict_get (candidate_to_dict c) ''actions'' = PStrs (ct_actions c)"
  "dict_get (candidate_to_dict c) ''resources'' = PStrs (ct_resources c)"
  "dict_get (candidate_to_dict c) ''action_resources'' = arrays_val (ct_action_resources c)"
  "dict_get (candidate_to_dict c) ''argument_constraints'' = arrays_val (ct_argument_constraints c)"
  "dict_get (candidate_to_dict c) ''network_destinations'' = PStrs (ct_network_destinations c)"
  "dict_get (candidate_to_dict c) ''data_classes'' = PStrs (ct_data_classes c)"
  "dict_get (candidate_to_dict c) ''maximum_read_bytes'' = PInt (ct_maximum_read_bytes c)"
  "dict_get (candidate_to_dict c) ''maximum_write_bytes'' = PInt (ct_maximum_write_bytes c)"
  "dict_get (candidate_to_dict c) ''maximum_calls'' = PInt (ct_maximum_calls c)"
  "dict_get (candidate_to_dict c) ''maximum_parallelism'' = PInt (ct_maximum_parallelism c)"
  "dict_get (candidate_to_dict c) ''maximum_duration_seconds'' = PInt (ct_maximum_duration_seconds c)"
  "dict_get (candidate_to_dict c) ''required_trust_tier'' = PStr (tier_name (ct_required_trust_tier c))"
  "dict_get (candidate_to_dict c) ''required_attestations'' = PStrs (ct_required_attestations c)"
  "dict_get (candidate_to_dict c) ''human_approval_gates'' = PStrs (ct_human_approval_gates c)"
  "dict_get (candidate_to_dict c) ''decay_profile'' = PStr (ct_decay_profile c)"
  "dict_get (candidate_to_dict c) ''rationale_codes'' = PStrs (ct_rationale_codes c)"
  "dict_get (candidate_to_dict c) ''evidence_refs'' = PStrs (ct_evidence_refs c)"
  "dict_get (candidate_to_dict c) ''fallback_used'' = PBool (ct_fallback_used c)"
  "dict_get (candidate_to_dict c) ''shadow_only'' = PBool (ct_shadow_only c)"
  by (simp_all add: candidate_to_dict_def)

lemma compiled_args_lookup:
  "compiled_args c ''schema'' = PStr (cp_schema c)"
  "compiled_args c ''ceiling_id'' = PStr (cp_ceiling_id c)"
  "compiled_args c ''task_id'' = PStr (cp_task_id c)"
  "compiled_args c ''task_fingerprint'' = PStr (cp_task_fingerprint c)"
  "compiled_args c ''subject_id'' = PStr (cp_subject_id c)"
  "compiled_args c ''workload_identity'' = PStr (cp_workload_identity c)"
  "compiled_args c ''tenant'' = PStr (cp_tenant c)"
  "compiled_args c ''environment'' = PStr (cp_environment c)"
  "compiled_args c ''synthesizer_version'' = PStr (cp_synthesizer_version c)"
  "compiled_args c ''compiler_version'' = PStr (cp_compiler_version c)"
  "compiled_args c ''policy_version'' = PStr (cp_policy_version c)"
  "compiled_args c ''candidate_digest'' = PStr (cp_candidate_digest c)"
  "compiled_args c ''provider_attestation_digest'' = PStr (cp_provider_attestation_digest c)"
  "compiled_args c ''provider_bundle_digest'' = PStr (cp_provider_bundle_digest c)"
  "compiled_args c ''provider_key_id'' = PStr (cp_provider_key_id c)"
  "compiled_args c ''provider_method'' = PStr (cp_provider_method c)"
  "compiled_args c ''provider_trust'' = PStr (tier_name (cp_provider_trust c))"
  "compiled_args c ''required_trust_tier'' = PStr (tier_name (cp_required_trust_tier c))"
  "compiled_args c ''tools'' = PTexts (cp_tools c)"
  "compiled_args c ''actions'' = PTexts (cp_actions c)"
  "compiled_args c ''action_resources'' = tuples_val (cp_action_resources c)"
  "compiled_args c ''argument_constraints'' = tuples_val (cp_argument_constraints c)"
  "compiled_args c ''network_destinations'' = PTexts (cp_network_destinations c)"
  "compiled_args c ''data_classes'' = PTexts (cp_data_classes c)"
  "compiled_args c ''maximum_read_bytes'' = PInt (cp_maximum_read_bytes c)"
  "compiled_args c ''maximum_write_bytes'' = PInt (cp_maximum_write_bytes c)"
  "compiled_args c ''maximum_calls'' = PInt (cp_maximum_calls c)"
  "compiled_args c ''maximum_parallelism'' = PInt (cp_maximum_parallelism c)"
  "compiled_args c ''maximum_duration_seconds'' = PInt (cp_maximum_duration_seconds c)"
  "compiled_args c ''required_attestations'' = PTexts (cp_required_attestations c)"
  "compiled_args c ''human_approval_gates'' = PTexts (cp_human_approval_gates c)"
  "compiled_args c ''decay_profile'' = PStr (cp_decay_profile c)"
  "compiled_args c ''guardian_reductions_digest'' = PStr (cp_guardian_reductions_digest c)"
  "compiled_args c ''issued_at_ms'' = PInt (cp_issued_at_ms c)"
  "compiled_args c ''expires_at_ms'' = PInt (cp_expires_at_ms c)"
  "compiled_args c ''compiled_digest'' = PStr (cp_compiled_digest c)"
  by (simp_all add: compiled_args_def)

lemma candidate_args_lookup:
  "candidate_args c ''ceiling_id'' = PStr (ct_ceiling_id c)"
  "candidate_args c ''task_id'' = PStr (ct_task_id c)"
  "candidate_args c ''task_fingerprint'' = PStr (ct_task_fingerprint c)"
  "candidate_args c ''synthesizer_version'' = PStr (ct_synthesizer_version c)"
  "candidate_args c ''model_version'' = PStr (ct_model_version c)"
  "candidate_args c ''policy_version'' = PStr (ct_policy_version c)"
  "candidate_args c ''confidence_bps'' = PInt (ct_confidence_bps c)"
  "candidate_args c ''tools'' = PTexts (ct_tools c)"
  "candidate_args c ''actions'' = PTexts (ct_actions c)"
  "candidate_args c ''resources'' = PTexts (ct_resources c)"
  "candidate_args c ''action_resources'' = tuples_val (ct_action_resources c)"
  "candidate_args c ''argument_constraints'' = tuples_val (ct_argument_constraints c)"
  "candidate_args c ''network_destinations'' = PTexts (ct_network_destinations c)"
  "candidate_args c ''data_classes'' = PTexts (ct_data_classes c)"
  "candidate_args c ''maximum_read_bytes'' = PInt (ct_maximum_read_bytes c)"
  "candidate_args c ''maximum_write_bytes'' = PInt (ct_maximum_write_bytes c)"
  "candidate_args c ''maximum_calls'' = PInt (ct_maximum_calls c)"
  "candidate_args c ''maximum_parallelism'' = PInt (ct_maximum_parallelism c)"
  "candidate_args c ''maximum_duration_seconds'' = PInt (ct_maximum_duration_seconds c)"
  "candidate_args c ''required_trust_tier'' = PStr (tier_name (ct_required_trust_tier c))"
  "candidate_args c ''required_attestations'' = PTexts (ct_required_attestations c)"
  "candidate_args c ''human_approval_gates'' = PTexts (ct_human_approval_gates c)"
  "candidate_args c ''decay_profile'' = PStr (ct_decay_profile c)"
  "candidate_args c ''rationale_codes'' = PTexts (ct_rationale_codes c)"
  "candidate_args c ''evidence_refs'' = PTexts (ct_evidence_refs c)"
  "candidate_args c ''fallback_used'' = PBool (ct_fallback_used c)"
  "candidate_args c ''shadow_only'' = PBool (ct_shadow_only c)"
  by (simp_all add: candidate_args_def)

lemma compiled_build_simps:
  "cp_schema (compiled_build g) = str_of (g ''schema'')"
  "cp_ceiling_id (compiled_build g) = str_of (g ''ceiling_id'')"
  "cp_task_id (compiled_build g) = str_of (g ''task_id'')"
  "cp_task_fingerprint (compiled_build g) = str_of (g ''task_fingerprint'')"
  "cp_subject_id (compiled_build g) = str_of (g ''subject_id'')"
  "cp_workload_identity (compiled_build g) = str_of (g ''workload_identity'')"
  "cp_tenant (compiled_build g) = str_of (g ''tenant'')"
  "cp_environment (compiled_build g) = str_of (g ''environment'')"
  "cp_synthesizer_version (compiled_build g) = str_of (g ''synthesizer_version'')"
  "cp_compiler_version (compiled_build g) = str_of (g ''compiler_version'')"
  "cp_policy_version (compiled_build g) = str_of (g ''policy_version'')"
  "cp_candidate_digest (compiled_build g) = str_of (g ''candidate_digest'')"
  "cp_provider_attestation_digest (compiled_build g) = str_of (g ''provider_attestation_digest'')"
  "cp_provider_bundle_digest (compiled_build g) = str_of (g ''provider_bundle_digest'')"
  "cp_provider_key_id (compiled_build g) = str_of (g ''provider_key_id'')"
  "cp_provider_method (compiled_build g) = str_of (g ''provider_method'')"
  "cp_provider_trust (compiled_build g) = tier_val (g ''provider_trust'')"
  "cp_required_trust_tier (compiled_build g) = tier_val (g ''required_trust_tier'')"
  "cp_tools (compiled_build g) = strs_of (g ''tools'')"
  "cp_actions (compiled_build g) = strs_of (g ''actions'')"
  "cp_action_resources (compiled_build g) = arrays_of (g ''action_resources'')"
  "cp_argument_constraints (compiled_build g) = arrays_of (g ''argument_constraints'')"
  "cp_network_destinations (compiled_build g) = strs_of (g ''network_destinations'')"
  "cp_data_classes (compiled_build g) = strs_of (g ''data_classes'')"
  "cp_maximum_read_bytes (compiled_build g) = int_of (g ''maximum_read_bytes'')"
  "cp_maximum_write_bytes (compiled_build g) = int_of (g ''maximum_write_bytes'')"
  "cp_maximum_calls (compiled_build g) = int_of (g ''maximum_calls'')"
  "cp_maximum_parallelism (compiled_build g) = int_of (g ''maximum_parallelism'')"
  "cp_maximum_duration_seconds (compiled_build g) = int_of (g ''maximum_duration_seconds'')"
  "cp_required_attestations (compiled_build g) = strs_of (g ''required_attestations'')"
  "cp_human_approval_gates (compiled_build g) = strs_of (g ''human_approval_gates'')"
  "cp_decay_profile (compiled_build g) = str_of (g ''decay_profile'')"
  "cp_guardian_reductions_digest (compiled_build g) = str_of (g ''guardian_reductions_digest'')"
  "cp_issued_at_ms (compiled_build g) = int_of (g ''issued_at_ms'')"
  "cp_expires_at_ms (compiled_build g) = int_of (g ''expires_at_ms'')"
  "cp_compiled_digest (compiled_build g) = str_of (g ''compiled_digest'')"
  by (simp_all add: compiled_build_def)

lemma candidate_build_simps:
  "ct_ceiling_id (candidate_build g) = str_of (g ''ceiling_id'')"
  "ct_task_id (candidate_build g) = str_of (g ''task_id'')"
  "ct_task_fingerprint (candidate_build g) = str_of (g ''task_fingerprint'')"
  "ct_synthesizer_version (candidate_build g) = str_of (g ''synthesizer_version'')"
  "ct_model_version (candidate_build g) = str_of (g ''model_version'')"
  "ct_policy_version (candidate_build g) = str_of (g ''policy_version'')"
  "ct_confidence_bps (candidate_build g) = int_of (g ''confidence_bps'')"
  "ct_tools (candidate_build g) = strs_of (g ''tools'')"
  "ct_actions (candidate_build g) = strs_of (g ''actions'')"
  "ct_resources (candidate_build g) = strs_of (g ''resources'')"
  "ct_action_resources (candidate_build g) = arrays_of (g ''action_resources'')"
  "ct_argument_constraints (candidate_build g) = arrays_of (g ''argument_constraints'')"
  "ct_network_destinations (candidate_build g) = strs_of (g ''network_destinations'')"
  "ct_data_classes (candidate_build g) = strs_of (g ''data_classes'')"
  "ct_maximum_read_bytes (candidate_build g) = int_of (g ''maximum_read_bytes'')"
  "ct_maximum_write_bytes (candidate_build g) = int_of (g ''maximum_write_bytes'')"
  "ct_maximum_calls (candidate_build g) = int_of (g ''maximum_calls'')"
  "ct_maximum_parallelism (candidate_build g) = int_of (g ''maximum_parallelism'')"
  "ct_maximum_duration_seconds (candidate_build g) = int_of (g ''maximum_duration_seconds'')"
  "ct_required_trust_tier (candidate_build g) = tier_val (g ''required_trust_tier'')"
  "ct_required_attestations (candidate_build g) = strs_of (g ''required_attestations'')"
  "ct_human_approval_gates (candidate_build g) = strs_of (g ''human_approval_gates'')"
  "ct_decay_profile (candidate_build g) = str_of (g ''decay_profile'')"
  "ct_rationale_codes (candidate_build g) = strs_of (g ''rationale_codes'')"
  "ct_evidence_refs (candidate_build g) = strs_of (g ''evidence_refs'')"
  "ct_fallback_used (candidate_build g) = bool_of (g ''fallback_used'')"
  "ct_shadow_only (candidate_build g) = bool_of (g ''shadow_only'')"
  by (simp_all add: candidate_build_def)

lemma update_fields_Inr:
  "update_fields f ns m = Inr m' \<Longrightarrow> distinct ns \<Longrightarrow>
     (\<forall>n \<in> set ns. f (dict_get m n) = Inr (dict_get m' n)) \<and> (\<forall>n. n \<notin> set ns \<longrightarrow> dict_get m' n = dict_get m n)"
proof (induction ns arbitrary: m)
  case (Cons n ns)
  then obtain v where v: "f (dict_get m n) = Inr v" "update_fields f ns (AList.update n v m) = Inr m'"
    by (auto simp: res_simps)
  from Cons.IH [OF v(2)] Cons.prems v(1) show ?case by (auto split: if_splits)
qed simp

lemma update_fields_ok:
  "(\<forall>n \<in> set ns. okE (f (dict_get m n))) \<Longrightarrow> distinct ns \<Longrightarrow> \<exists>m'. update_fields f ns m = Inr m'"
proof (induction ns arbitrary: m)
  case (Cons n ns)
  then obtain v where v: "f (dict_get m n) = Inr v" by (auto simp: okE_iff)
  have "\<exists>m'. update_fields f ns (AList.update n v m) = Inr m'"
    using Cons.prems by (intro Cons.IH) auto
  with v show ?case by auto
qed simp

text \<open>What \<open>_mapping_of_string_arrays\<close> accepts, and that its result is a fixed point.\<close>

lemma string_arrays_iff:
  "string_arrays H v = Inr m \<longleftrightarrow>
     is_mapping v \<and> length (dict_of v) \<le> MAX_COLLECTION \<and> m = arrays_of v \<and>
     list_all (\<lambda>p. okE (py_strings H (snd p)) \<and> py_text H (PStr (fst p)) 256 = Inr (fst p)) (dict_of v)"
proof (cases v)
  case (PDict l)
  have one: "bindE (py_strings H xs) (\<lambda>ys. bindE (py_text H (PStr k) 256) (\<lambda>k'. Inr (k', ys))) = Inr q \<longleftrightarrow>
      okE (py_strings H xs) \<and> py_text H (PStr k) 256 = Inr k \<and> q = (k, strs_of xs)" for k xs q
    by (cases q) (auto simp: bindE_Inr_iff py_text_Inr_iff okE_iff py_strings_strs)
  have "map (\<lambda>(k, xs). bindE (py_strings H xs) (\<lambda>ys. bindE (py_text H (PStr k) 256) (\<lambda>k'. Inr (k', ys)))) l = map Inr qs \<longleftrightarrow>
      list_all (\<lambda>p. okE (py_strings H (snd p)) \<and> py_text H (PStr (fst p)) 256 = Inr (fst p)) l \<and>
      qs = map (\<lambda>p. (fst p, strs_of (snd p))) l" for qs
    unfolding map_Inr_list_all2 case_prod_unfold one
    by (induction l arbitrary: qs) (auto simp: list_all2_Cons1)
  then show ?thesis
    using PDict by (auto simp: string_arrays_def bindE_Inr_iff sequenceE_Inr_iff arrays_of_def)
qed (simp_all add: string_arrays_def)

lemma good_strings_strs: "okE (py_strings H v) \<Longrightarrow> good_strings H (strs_of v) \<and> sorted (strs_of v)"
  using py_strings_strs_of by (auto simp: okE_iff)

lemma py_strings_PTexts: "good_strings H xs \<Longrightarrow> sorted xs \<Longrightarrow> py_strings H (PTexts xs) = Inr xs"
  by (simp add: PTexts_def py_strings_again)

lemma strs_of_sorted: "sorted xs \<Longrightarrow> strs_of (PTexts xs) = xs"
  by (simp add: sorted_sort_id)

lemma arrays_of_props:
  assumes "string_arrays H v = Inr m"
  shows "length (arrays_of v) \<le> MAX_COLLECTION"
    and "list_all (\<lambda>p. good_strings H (snd p) \<and> sorted (snd p) \<and> py_text H (PStr (fst p)) 256 = Inr (fst p)) (arrays_of v)"
    and "sorted (map fst (arrays_of v))"
  using assms unfolding string_arrays_iff
  by (auto simp: arrays_of_def list_all_iff dest!: good_strings_strs)

lemma arrays_of_tuples_val:
  assumes "sorted (map fst m)" and "list_all (\<lambda>p. sorted (snd p)) m"
  shows "arrays_of (tuples_val m) = m"
proof -
  have "map (\<lambda>p. (fst p, strs_of (snd p))) (map (\<lambda>p. (fst p, PTexts (snd p))) m) = m"
    using assms(2) by (auto simp: list_all_iff sorted_sort_id intro!: map_idI)
  then show ?thesis
    using assms(1) by (simp add: arrays_of_def tuples_val_def sorted_sort_id sort_key_id_if_sorted del: map_map)
qed

lemma string_arrays_again:
  assumes "string_arrays H v = Inr m"
  shows "string_arrays H (tuples_val (arrays_of v)) = Inr (arrays_of v)"
proof -
  note p = arrays_of_props [OF assms]
  have "arrays_of (tuples_val (arrays_of v)) = arrays_of v"
    using p by (intro arrays_of_tuples_val) (auto simp: list_all_iff)
  moreover have "list_all (\<lambda>p. okE (py_strings H (snd p)) \<and> py_text H (PStr (fst p)) 256 = Inr (fst p))
      (dict_of (tuples_val (arrays_of v)))"
    using p(2) by (auto simp: tuples_val_def list_all_iff okE_iff intro: py_strings_PTexts)
  ultimately show ?thesis using p(1) by (simp add: string_arrays_iff) (simp add: tuples_val_def)
qed

lemma in_tiers_iff: "in_tiers v = Inr True \<longleftrightarrow> (\<exists>t. v = PStr (tier_name t))"
  by (cases v) (auto simp: in_tiers_def tier_of_Some_iff)

lemma in_tiers_val: "in_tiers v = Inr True \<Longrightarrow> PStr (tier_name (tier_val v)) = v"
  by (auto simp: in_tiers_iff)

lemma py_text_str: "okE (py_text H v n) \<Longrightarrow> PStr (str_of v) = v"
  by (auto simp: okE_iff py_text_Inr_iff)

lemma py_digest_str: "okE (py_digest H v) \<Longrightarrow> PStr (str_of v) = v"
  by (auto simp: okE_iff py_digest_Inr_iff py_text_Inr_iff)

lemma py_nonnegative_int: "okE (py_nonnegative v n) \<Longrightarrow> PInt (int_of v) = v"
  by (auto simp: okE_iff py_nonnegative_Inr_iff)

lemma compiled_checks_iff:
  "compiled_checks H g = Inr () \<longleftrightarrow>
     (\<forall>n \<in> set compiled_texts. okE (py_text H (g n) 256)) \<and>
     (\<forall>n \<in> set compiled_digests. okE (py_digest H (g n))) \<and>
     in_tiers (g ''provider_trust'') = Inr True \<and> in_tiers (g ''required_trust_tier'') = Inr True \<and>
     (\<forall>n \<in> set compiled_strings. okE (py_strings H (g n))) \<and>
     (\<forall>n \<in> set array_map_fields. okE (string_arrays H (g n))) \<and>
     (\<forall>n \<in> set compiled_ints. okE (py_nonnegative (g n) max_safe)) \<and>
     int_of (g ''issued_at_ms'') < int_of (g ''expires_at_ms'') \<and>
     fst ` set (arrays_of (g ''action_resources'')) = set (strs_of (g ''actions'')) \<and>
     fst ` set (arrays_of (g ''argument_constraints'')) = set (strs_of (g ''actions''))"
proof -
  have tiers: "bindE (in_tiers v) (\<lambda>b. if \<not> b then Inl e else bindE (in_tiers w) (\<lambda>b'. checkE (\<not> b') e)) = Inr ()
      \<longleftrightarrow> in_tiers v = Inr True \<and> in_tiers w = Inr True" for v w e
    by (auto simp: bindE_Inr_iff checkE_Inr_iff split: if_splits)
  show ?thesis
    unfolding compiled_checks_def
    by (simp only: seqE_Inr_iff set_append set_map ball_Un ball_simps set_simps unitE_Inr_iff okE_iff
        checkE_Inr_iff image_iff tiers set_eq_list_iff not_le not_not list.set_map) auto
qed

text \<open>Every field of a compiled ceiling, by the kind of its value.\<close>

definition compiled_scalars :: "string list" where
  "compiled_scalars = compiled_texts @ compiled_digests @ compiled_ints @ [''provider_trust'', ''required_trust_tier'']"

lemma compiled_args_build:
  assumes "compiled_checks H g = Inr ()"
  shows "\<forall>n \<in> set compiled_scalars.
      compiled_args (compiled_build g) n = g n"
    and "\<forall>n \<in> set compiled_strings. compiled_args (compiled_build g) n = PTexts (strs_of (g n))"
    and "\<forall>n \<in> set array_map_fields. compiled_args (compiled_build g) n = tuples_val (arrays_of (g n))"
proof -
  note a = assms [unfolded compiled_checks_iff]
  have "\<forall>n \<in> set compiled_texts. compiled_args (compiled_build g) n = PStr (str_of (g n))"
    "\<forall>n \<in> set compiled_digests. compiled_args (compiled_build g) n = PStr (str_of (g n))"
    "\<forall>n \<in> set compiled_ints. compiled_args (compiled_build g) n = PInt (int_of (g n))"
    "\<forall>n \<in> {''provider_trust'', ''required_trust_tier''}. compiled_args (compiled_build g) n = PStr (tier_name (tier_val (g n)))"
    by (simp_all add: compiled_texts_def compiled_digests_def compiled_ints_def compiled_args_lookup compiled_build_simps)
  then show "\<forall>n \<in> set compiled_scalars.
      compiled_args (compiled_build g) n = g n"
    using a py_text_str py_digest_str py_nonnegative_int in_tiers_val
    unfolding compiled_scalars_def set_append set_simps by (metis Un_iff empty_iff insert_iff)
  show "\<forall>n \<in> set compiled_strings. compiled_args (compiled_build g) n = PTexts (strs_of (g n))"
    "\<forall>n \<in> set array_map_fields. compiled_args (compiled_build g) n = tuples_val (arrays_of (g n))"
    by (simp_all add: compiled_strings_def array_map_fields_def compiled_args_lookup compiled_build_simps)
qed

lemma compiled_field_in:
  "''issued_at_ms'' \<in> set compiled_ints" "''expires_at_ms'' \<in> set compiled_ints" "''actions'' \<in> set compiled_strings"
  "''action_resources'' \<in> set array_map_fields" "''argument_constraints'' \<in> set array_map_fields"
  by (simp_all add: compiled_ints_def compiled_strings_def array_map_fields_def)

lemma compiled_init_args:
  assumes "compiled_init H g = Inr c"
  shows "compiled_init H (compiled_args c) = Inr c"
proof -
  have ok: "compiled_checks H g = Inr ()" and c: "c = compiled_build g"
    using assms by (auto simp: compiled_init_def res_simps)
  note args = compiled_args_build [OF ok, folded c]
  note a = ok [unfolded compiled_checks_iff]
  have strs: "strs_of (compiled_args c n) = strs_of (g n)" "okE (py_strings H (compiled_args c n))"
    if "n \<in> set compiled_strings" for n
    using a args(2) that good_strings_strs [of H "g n"] by (auto simp: sorted_sort_id okE_iff intro: py_strings_PTexts)
  have arrs: "arrays_of (compiled_args c n) = arrays_of (g n)" "okE (string_arrays H (compiled_args c n))"
    if n: "n \<in> set array_map_fields" for n
  proof -
    obtain m where m: "string_arrays H (g n) = Inr m" using a n by (auto simp: okE_iff)
    show "arrays_of (compiled_args c n) = arrays_of (g n)"
      using arrays_of_props [OF m] args(3) n by (auto simp: list_all_iff intro!: arrays_of_tuples_val)
    show "okE (string_arrays H (compiled_args c n))"
      using string_arrays_again [OF m] args(3) n by (simp add: okE_iff)
  qed
  have ok': "compiled_checks H (compiled_args c) = Inr ()"
    unfolding compiled_checks_iff using a args(1) strs arrs compiled_field_in by (simp add: compiled_scalars_def)
  have "list_all (\<lambda>n. strs_of (compiled_args c n) = strs_of (g n)) compiled_strings"
    "list_all (\<lambda>n. arrays_of (compiled_args c n) = arrays_of (g n)) array_map_fields"
    "list_all (\<lambda>n. compiled_args c n = g n) compiled_scalars"
    using strs(1) arrs(1) args(1) by (simp_all add: list_all_iff)
  then have "compiled_build (compiled_args c) = compiled_build g"
    unfolding compiled_build_def compiled_scalars_def compiled_strings_def array_map_fields_def compiled_texts_def compiled_digests_def
      compiled_ints_def append.simps list.pred_inject by simp
  then have "compiled_build (compiled_args c) = c" using c by simp
  then show ?thesis using ok' by (simp add: compiled_init_def)
qed

text \<open>
  Reading back: \<open>from_dict\<close> on the dictionary of a compiled ceiling, with its arrays as lists (as
  \<open>to_dict\<close> gives them) or frozen to tuples (as the claims of a capability hold them).
\<close>

lemma py_tuple_PStrs [simp]:
  "py_tuple (PStrs xs) = Inr (PTexts xs)" "py_tuple (PTexts xs) = Inr (PTexts xs)"
  "freeze_json (PStrs xs) = PTexts xs"
  by (simp_all add: py_tuple_def PStrs_def PTexts_def comp_def)

lemma py_tuple_values_arrays [simp]:
  "py_tuple_values (arrays_val m) = Inr (tuples_val m)" "py_tuple_values (tuples_val m) = Inr (tuples_val m)"
  "freeze_json (arrays_val m) = tuples_val m"
  by (induction m) (auto simp: py_tuple_values_def arrays_val_def tuples_val_def res_simps)

lemma compiled_init_cong:
  assumes "\<forall>n \<in> set compiled_fields. g n = g' n"
  shows "compiled_init H g = compiled_init H g'"
proof -
  have "list_all (\<lambda>n. g n = g' n) compiled_fields" using assms by (simp add: list_all_iff)
  then show ?thesis
    unfolding compiled_init_def compiled_checks_def compiled_build_def compiled_fields_def list.pred_inject
      compiled_texts_def compiled_digests_def compiled_strings_def compiled_ints_def array_map_fields_def
    by (simp cong: if_cong)
qed

lemma compiled_fields_split:
  "set compiled_fields = set compiled_scalars \<union> set compiled_strings \<union> set array_map_fields"
  by code_simp

lemma compiled_disjoint:
  "list_all (\<lambda>n. n \<notin> set compiled_strings \<and> n \<notin> set array_map_fields)
     compiled_scalars"
  "list_all (\<lambda>n. n \<notin> set array_map_fields) compiled_strings"
  "distinct compiled_strings" "distinct array_map_fields"
  by (code_simp, code_simp, code_simp, code_simp)

lemma dict_get_absent: "k \<notin> fst ` set m \<Longrightarrow> dict_get m k = PNone"
  by (simp add: dict_get_def map_of_eq_None_iff [THEN iffD2])

lemma dict_get_append: "dict_get (m @ m') k = (if k \<in> fst ` set m then dict_get m k else dict_get m' k)"
proof (cases "map_of m k")
  case (Some v)
  moreover have "k \<in> fst ` set m" using map_of_SomeD [OF Some] by force
  ultimately show ?thesis by (simp add: dict_get_def map_add_def)
next
  case None
  then show ?thesis using None [unfolded map_of_eq_None_iff] by (simp add: dict_get_def map_add_def)
qed

lemma compiled_dict_lookup:
  "dict_get (compiled_to_dict c) ''compiled_digest'' = PStr (cp_compiled_digest c)"
  "n \<noteq> ''compiled_digest'' \<Longrightarrow> dict_get (compiled_to_dict c) n = dict_get (unsigned_dict c) n"
proof -
  have "''compiled_digest'' \<notin> fst ` set (unsigned_dict c)" by (simp add: unsigned_dict_def)
  then show "dict_get (compiled_to_dict c) ''compiled_digest'' = PStr (cp_compiled_digest c)"
    "n \<noteq> ''compiled_digest'' \<Longrightarrow> dict_get (compiled_to_dict c) n = dict_get (unsigned_dict c) n"
    by (auto simp: compiled_to_dict_def dict_get_append dict_get_absent)
qed

definition compiled_source :: "compiled \<Rightarrow> dict \<Rightarrow> bool" where
  "compiled_source c m \<longleftrightarrow> fst ` set m = set compiled_fields \<and>
     (\<forall>n \<in> set compiled_scalars.
        dict_get m n = compiled_args c n) \<and>
     (\<forall>n \<in> set compiled_strings. \<exists>xs. compiled_args c n = PTexts xs \<and> dict_get m n \<in> {PStrs xs, PTexts xs}) \<and>
     (\<forall>n \<in> set array_map_fields. \<exists>xs. compiled_args c n = tuples_val xs \<and> dict_get m n \<in> {arrays_val xs, tuples_val xs})"

lemma compiled_from_source:
  assumes src: "compiled_source c m" and init: "compiled_init H (compiled_args c) = Inr c"
    and int: "verify_integrity H c = Inr ()"
  shows "compiled_from_dict H (PDict m) = Inr c"
proof -
  have "\<forall>n \<in> set compiled_strings. okE (py_tuple (dict_get m n))"
    using src unfolding compiled_source_def by (auto simp: okE_iff)
  then obtain m1 where m1: "update_fields py_tuple compiled_strings m = Inr m1"
    using update_fields_ok compiled_disjoint(3) by blast
  note u1 = update_fields_Inr [OF m1 compiled_disjoint(3)]
  have "dict_get m1 n = dict_get m n" if "n \<in> set array_map_fields" for n
    using u1 that compiled_disjoint(2) by (auto simp: list_all_iff)
  then have "\<forall>n \<in> set array_map_fields. okE (py_tuple_values (dict_get m1 n))"
    using src unfolding compiled_source_def by (auto simp: okE_iff)
  then obtain m2 where m2: "update_fields py_tuple_values array_map_fields m1 = Inr m2"
    using update_fields_ok compiled_disjoint(4) by blast
  note u2 = update_fields_Inr [OF m2 compiled_disjoint(4)]
  have s: "dict_get m2 n = compiled_args c n" if n: "n \<in> set compiled_strings" for n
  proof -
    have "py_tuple (dict_get m n) = Inr (compiled_args c n)"
      using src n unfolding compiled_source_def by auto
    then show ?thesis using u1 u2 n compiled_disjoint(2) by (auto simp: list_all_iff)
  qed
  have a: "dict_get m2 n = compiled_args c n" if n: "n \<in> set array_map_fields" for n
  proof -
    have "dict_get m1 n = dict_get m n" using u1 n compiled_disjoint(2) by (auto simp: list_all_iff)
    moreover have "py_tuple_values (dict_get m n) = Inr (compiled_args c n)"
      using src n unfolding compiled_source_def by auto
    ultimately show ?thesis using u2 n by auto
  qed
  have o: "dict_get m2 n = compiled_args c n"
    if n: "n \<in> set compiled_scalars" for n
  proof -
    have "n \<notin> set compiled_strings" "n \<notin> set array_map_fields"
      using n compiled_disjoint(1) unfolding list_all_iff by auto
    then have "dict_get m2 n = dict_get m n" using u1 u2 by simp
    then show ?thesis using src n unfolding compiled_source_def by simp
  qed
  have "compiled_init H (dict_get m2) = Inr c"
    using compiled_init_cong [of "dict_get m2" "compiled_args c" H] s a o init
    unfolding compiled_fields_split by auto
  then show ?thesis
    using src m1 m2 int by (simp add: compiled_from_dict_def compiled_source_def)
qed

lemma unsigned_args:
  "list_all (\<lambda>n. n \<noteq> ''compiled_digest'' \<longrightarrow> dict_get (unsigned_dict c) n = compiled_args c n) compiled_scalars"
  "\<forall>n \<in> set compiled_strings. \<exists>xs. compiled_args c n = PTexts xs \<and> dict_get (unsigned_dict c) n = PStrs xs"
  "\<forall>n \<in> set array_map_fields. \<exists>xs. compiled_args c n = tuples_val xs \<and> dict_get (unsigned_dict c) n = arrays_val xs"
proof -
  show "list_all (\<lambda>n. n \<noteq> ''compiled_digest'' \<longrightarrow> dict_get (unsigned_dict c) n = compiled_args c n) compiled_scalars"
    unfolding compiled_scalars_def
    by (simp add: compiled_texts_def compiled_digests_def compiled_ints_def unsigned_lookup compiled_args_lookup)
  show "\<forall>n \<in> set compiled_strings. \<exists>xs. compiled_args c n = PTexts xs \<and> dict_get (unsigned_dict c) n = PStrs xs"
    "\<forall>n \<in> set array_map_fields. \<exists>xs. compiled_args c n = tuples_val xs \<and> dict_get (unsigned_dict c) n = arrays_val xs"
    by (auto simp: compiled_strings_def array_map_fields_def unsigned_lookup compiled_args_lookup)
qed

lemma compiled_source_dict: "compiled_source c (compiled_to_dict c)"
proof -
  have keys: "fst ` set (compiled_to_dict c) = set compiled_fields"
    unfolding compiled_to_dict_def unsigned_dict_def set_map [symmetric] list.map append.simps fst_conv by code_simp
  have nd: "list_all (\<lambda>n. n \<noteq> ''compiled_digest'') (compiled_strings @ array_map_fields)"
    and cd: "compiled_args c ''compiled_digest'' = PStr (cp_compiled_digest c)"
    by (simp_all add: compiled_strings_def array_map_fields_def compiled_args_lookup)
  have "dict_get (compiled_to_dict c) n = compiled_args c n" if "n \<in> set compiled_scalars" for n
    using unsigned_args(1) [of c] that compiled_dict_lookup [where c = c] cd
    by (cases "n = ''compiled_digest''") (auto simp: list_all_iff)
  moreover have "dict_get (compiled_to_dict c) n = dict_get (unsigned_dict c) n"
    if "n \<in> set compiled_strings \<union> set array_map_fields" for n
    using nd that by (intro compiled_dict_lookup(2)) (auto simp: list_all_iff)
  ultimately show ?thesis
    using unsigned_args(2,3) [of c] unfolding compiled_source_def keys by auto
qed

lemma dict_get_map: "dict_get (map (\<lambda>p. (fst p, f (snd p))) m) k = (if k \<in> fst ` set m then f (dict_get m k) else PNone)"
  by (induction m) auto

lemma compiled_source_frozen:
  assumes "freeze_json (PDict (compiled_to_dict c)) = PDict m"
  shows "compiled_source c m"
proof -
  have m: "m = map (\<lambda>p. (fst p, freeze_json (snd p))) (compiled_to_dict c)" using assms by simp
  have keys: "fst ` set m = fst ` set (compiled_to_dict c)" by (simp add: m image_image)
  note src = compiled_source_dict [of c, unfolded compiled_source_def]
  have get: "dict_get m n = freeze_json (dict_get (compiled_to_dict c) n)" if "n \<in> set compiled_fields" for n
    using that src unfolding m dict_get_map by simp
  have scalar: "freeze_json (compiled_args c n) = compiled_args c n"
    if "n \<in> set compiled_scalars" for n
  proof -
    have "list_all (\<lambda>n. freeze_json (compiled_args c n) = compiled_args c n) compiled_scalars"
      by (simp add: compiled_scalars_def compiled_texts_def compiled_digests_def compiled_ints_def compiled_args_lookup)
    then show ?thesis using that unfolding list_all_iff by auto
  qed
  have frz: "freeze_json (PTexts xs) = PTexts xs" "freeze_json (tuples_val ys) = tuples_val ys" for xs ys
    by (simp_all add: PTexts_def tuples_val_def comp_def)
  show ?thesis
    unfolding compiled_source_def keys
  proof (intro conjI ballI)
    show "fst ` set (compiled_to_dict c) = set compiled_fields" using src by blast
  next
    fix n assume n: "n \<in> set compiled_scalars"
    then show "dict_get m n = compiled_args c n"
      using src get [of n] scalar [OF n] unfolding compiled_fields_split by simp
  next
    fix n assume n: "n \<in> set compiled_strings"
    then have "n \<in> set compiled_fields" unfolding compiled_fields_split by blast
    then show "\<exists>xs. compiled_args c n = PTexts xs \<and> dict_get m n \<in> {PStrs xs, PTexts xs}"
      using src get n frz by fastforce
  next
    fix n assume n: "n \<in> set array_map_fields"
    then have "n \<in> set compiled_fields" unfolding compiled_fields_split by blast
    then show "\<exists>xs. compiled_args c n = tuples_val xs \<and> dict_get m n \<in> {arrays_val xs, tuples_val xs}"
      using src get n frz by fastforce
  qed
qed

end
