(* ===== verification/Synthesizer.thy ===== *)
theory Synthesizer
  imports Ceiling
begin

text \<open>
  \<open>TaskPolicySynthesizer\<close>, \<open>AdaptivePolicyController\<close> and the default templates of \<open>task_policy.py\<close>. The
  proposal model is outside the repository: it is its version and the outcome of the worker thread that
  runs it. Timeouts are in milliseconds.
\<close>

section \<open>Definitions\<close>

record policy_template =
  pt_task_type :: string
  pt_tools :: "string list"
  pt_actions :: "string list"
  pt_action_resources :: "(string \<times> string list) list"
  pt_argument_constraints :: "(string \<times> string list) list"
  pt_data_classes :: "string list"
  pt_maximum_read_bytes :: int
  pt_maximum_write_bytes :: int
  pt_maximum_calls :: int
  pt_maximum_parallelism :: int
  pt_maximum_duration_seconds :: int
  pt_required_trust_tier :: trust_tier
  pt_required_attestations :: "string list"
  pt_human_approval_gates :: "string list"
  pt_network_destinations :: "string list"
  pt_decay_profile :: string

datatype synthesis_mode = Static | Rule | Model | Shadow | Evaluation

datatype fallback_mode = Deny_fallback | Clarify | Minimal_read_only

text \<open>How a call of the model ends; a proposal is a dynamic value.\<close>

datatype model_outcome = Model_timeout | Model_no_result | Model_error | Proposed pyval

record proposal_model =
  pm_version :: string
  pm_propose :: "task_description \<Rightarrow> model_outcome"

record synthesizer =
  sy_templates :: "(string \<times> policy_template) list"
  sy_mode :: synthesis_mode
  sy_synthesizer_version :: string
  sy_model :: "proposal_model option"
  sy_model_timeout_ms :: int
  sy_minimum_confidence_bps :: int
  sy_fallback_mode :: fallback_mode

definition synthesizer_init :: "synthesizer \<Rightarrow> synthesizer res" where
  "synthesizer_init s =
     (if \<not> (0 \<le> sy_minimum_confidence_bps s \<and> sy_minimum_confidence_bps s \<le> 10000)
        then Inl (ValueError ''policy confidence threshold is invalid'')
      else if \<not> (0 < sy_model_timeout_ms s \<and> sy_model_timeout_ms s \<le> 30000)
        then Inl (ValueError ''policy model timeout is invalid'')
      else Inr s)"

fun fallback_name :: "fallback_mode \<Rightarrow> string" where
  "fallback_name Deny_fallback = ''deny''"
| "fallback_name Clarify = ''clarify''"
| "fallback_name Minimal_read_only = ''minimal-read-only''"

definition candidate_id :: "host \<Rightarrow> dict \<Rightarrow> string res" where
  "candidate_id H payload = bindE (digest H (PDict payload)) (\<lambda>d. Inr (''ceil_'' @ take 24 d))"

text \<open>\<open>{action: tuple(r for r in template.action_resources.get(action, ()) if r in available)}\<close>.\<close>

definition template_resources :: "policy_template \<Rightarrow> string list \<Rightarrow> (string \<times> string list) list" where
  "template_resources pt available =
     map (\<lambda>a. (a, filter (\<lambda>r. r \<in> set available) (array_get (pt_action_resources pt) a))) (remdups (pt_actions pt))"

definition all_values :: "(string \<times> string list) list \<Rightarrow> string list" where
  "all_values m = sorted_set (concat (map snd m))"

definition fallback_template :: "synthesizer \<Rightarrow> policy_template option" where
  "fallback_template s =
     (if sy_fallback_mode s = Minimal_read_only then map_of (sy_templates s) ''read-only-analysis'' else None)"

text \<open>The arguments of the constructor in \<open>_fallback\<close>, given the fingerprint of the task and the id.\<close>

definition fallback_candidate :: "synthesizer \<Rightarrow> task_description \<Rightarrow> string \<Rightarrow> bool \<Rightarrow> string \<Rightarrow> string \<Rightarrow> candidate" where
  "fallback_candidate s t reason shadow_only fp cid =
     (let tools = (case fallback_template s of None \<Rightarrow> []
                   | Some pt \<Rightarrow> filter (\<lambda>x. x \<in> set (td_available_tools t)) (pt_tools pt));
          actions = (case fallback_template s of None \<Rightarrow> [] | Some pt \<Rightarrow> pt_actions pt);
          action_resources = (case fallback_template s of None \<Rightarrow> []
                   | Some pt \<Rightarrow> template_resources pt (td_available_resources t));
          arguments = (case fallback_template s of None \<Rightarrow> []
                   | Some pt \<Rightarrow> map (\<lambda>a. (a, array_get (pt_argument_constraints pt) a)) (remdups actions)) in
        \<lparr>ct_ceiling_id = cid, ct_task_id = td_task_id t, ct_task_fingerprint = fp,
         ct_synthesizer_version = sy_synthesizer_version s, ct_model_version = ''none'',
         ct_policy_version = td_global_policy_version t, ct_confidence_bps = 0,
         ct_tools = tools, ct_actions = actions, ct_resources = all_values action_resources,
         ct_action_resources = action_resources, ct_argument_constraints = arguments,
         ct_network_destinations = [], ct_data_classes = [],
         ct_maximum_read_bytes = 0, ct_maximum_write_bytes = 0, ct_maximum_calls = 0,
         ct_maximum_parallelism = 0, ct_maximum_duration_seconds = 0,
         ct_required_trust_tier = Hardware, ct_required_attestations = [''executor''],
         ct_human_approval_gates = sorted_set (td_human_approval_requirements t @ [''clarification-required'']),
         ct_decay_profile = ''deny'', ct_rationale_codes = [''fallback:'' @ reason],
         ct_evidence_refs = td_approved_historical_traces t, ct_fallback_used = True, ct_shadow_only = shadow_only\<rparr>)"

definition fallback :: "host \<Rightarrow> synthesizer \<Rightarrow> task_description \<Rightarrow> string \<Rightarrow> bool \<Rightarrow> candidate res" where
  "fallback H s t reason shadow_only =
      bindE (task_fingerprint H t) (\<lambda>fp.
      bindE (candidate_id H [(''task_id'', PStr (td_task_id t)), (''task_fingerprint'', PStr fp), (''reason'', PStr reason),
               (''fallback_mode'', PStr (fallback_name (sy_fallback_mode s))), (''shadow_only'', PBool shadow_only)]) (\<lambda>cid.
      candidate_init H (candidate_args (fallback_candidate s t reason shadow_only fp cid))))"

text \<open>The resources \<open>_from_template\<close> binds to each action; a requested pair replaces those of its action.\<close>

definition template_bindings :: "task_description \<Rightarrow> policy_template \<Rightarrow> (string \<times> string list) list" where
  "template_bindings t pt =
     (let action_resources = template_resources pt (td_available_resources t);
          requested_action = dict_get (td_user_approved_constraints t) ''requested_action'';
          requested_resource = dict_get (td_user_approved_constraints t) ''requested_resource'' in
      if is_str requested_action \<and> is_str requested_resource
         \<and> str_of requested_action \<in> set (pt_actions pt) \<and> str_of requested_resource \<in> set (td_available_resources t)
      then AList.update (str_of requested_action) [str_of requested_resource] action_resources
      else action_resources)"

definition template_tools :: "task_description \<Rightarrow> policy_template \<Rightarrow> string list" where
  "template_tools t pt = filter (\<lambda>x. x \<in> set (td_available_tools t)) (pt_tools pt)"

definition sensitive_task :: "task_description \<Rightarrow> bool \<Rightarrow> bool" where
  "sensitive_task t rule_mode \<longleftrightarrow> rule_mode \<and> td_data_classification t \<in> {''restricted'', ''secret''}"

definition template_candidate ::
  "synthesizer \<Rightarrow> task_description \<Rightarrow> policy_template \<Rightarrow> bool \<Rightarrow> bool \<Rightarrow> string \<Rightarrow> string \<Rightarrow> candidate" where
  "template_candidate s t pt rule_mode shadow_only fp cid =
        \<lparr>ct_ceiling_id = cid, ct_task_id = td_task_id t, ct_task_fingerprint = fp,
         ct_synthesizer_version = sy_synthesizer_version s, ct_model_version = ''none'',
         ct_policy_version = td_global_policy_version t, ct_confidence_bps = 10000,
         ct_tools = template_tools t pt, ct_actions = pt_actions pt, ct_resources = all_values (template_bindings t pt),
         ct_action_resources = template_bindings t pt, ct_argument_constraints = pt_argument_constraints pt,
         ct_network_destinations = pt_network_destinations pt, ct_data_classes = pt_data_classes pt,
         ct_maximum_read_bytes = pt_maximum_read_bytes pt,
         ct_maximum_write_bytes = (if sensitive_task t rule_mode then 0 else pt_maximum_write_bytes pt),
         ct_maximum_calls = pt_maximum_calls pt, ct_maximum_parallelism = pt_maximum_parallelism pt,
         ct_maximum_duration_seconds = pt_maximum_duration_seconds pt,
         ct_required_trust_tier = pt_required_trust_tier pt, ct_required_attestations = pt_required_attestations pt,
         ct_human_approval_gates = sorted_set (pt_human_approval_gates pt @ td_human_approval_requirements t
                    @ (if sensitive_task t rule_mode then [''sensitive-data-review''] else [])),
         ct_decay_profile = pt_decay_profile pt,
         ct_rationale_codes = sorted_set ([''approved-static-template''] @ (if rule_mode then [''deterministic-risk-rules''] else [])
                    @ (if sensitive_task t rule_mode then [''sensitive-data-write-removed''] else [])),
         ct_evidence_refs = td_approved_historical_traces t, ct_fallback_used = False, ct_shadow_only = shadow_only\<rparr>"

definition from_template :: "host \<Rightarrow> synthesizer \<Rightarrow> task_description \<Rightarrow> policy_template \<Rightarrow> bool \<Rightarrow> bool \<Rightarrow> candidate res" where
  "from_template H s t pt rule_mode shadow_only =
      bindE (task_fingerprint H t) (\<lambda>fp.
      bindE (candidate_id H [(''task'', PStr fp), (''template'', PStr (pt_task_type pt)), (''rule_mode'', PBool rule_mode),
               (''shadow_only'', PBool shadow_only), (''tools'', PTexts (template_tools t pt)),
               (''resources'', tuples_val (template_bindings t pt))]) (\<lambda>cid.
      candidate_init H (candidate_args (template_candidate s t pt rule_mode shadow_only fp cid))))"

definition model_proposal :: "host \<Rightarrow> synthesizer \<Rightarrow> task_description \<Rightarrow> candidate res" where
  "model_proposal H s t = (case sy_model s of
     None \<Rightarrow> fallback H s t ''model-unavailable'' False
   | Some m \<Rightarrow> (case pm_propose m t of
       Model_timeout \<Rightarrow> fallback H s t ''model-timeout'' False
     | Model_no_result \<Rightarrow> fallback H s t ''model-no-result'' False
     | Model_error \<Rightarrow> fallback H s t ''model-error'' False
     | Proposed v \<Rightarrow> (case candidate_from_dict H v of
         Inl e \<Rightarrow> if value_or_type_error e then fallback H s t ''model-malformed'' False else Inl e
       | Inr c \<Rightarrow>
           if ct_model_version c \<noteq> pm_version m then fallback H s t ''model-version-mismatch'' False
           else if ct_confidence_bps c < sy_minimum_confidence_bps s then fallback H s t ''low-confidence'' False
           else Inr c)))"

definition from_known_template :: "host \<Rightarrow> synthesizer \<Rightarrow> task_description \<Rightarrow> bool \<Rightarrow> bool \<Rightarrow> candidate res" where
  "from_known_template H s t rule_mode shadow_only =
     (case map_of (sy_templates s) (case td_task_type t of None \<Rightarrow> '''' | Some x \<Rightarrow> x) of
        None \<Rightarrow> fallback H s t ''unknown-task'' shadow_only
      | Some pt \<Rightarrow> from_template H s t pt rule_mode shadow_only)"

definition synthesize :: "host \<Rightarrow> synthesizer \<Rightarrow> task_description \<Rightarrow> candidate res" where
  "synthesize H s t = (case sy_mode s of
     Static \<Rightarrow> from_known_template H s t False False
   | Evaluation \<Rightarrow> from_known_template H s t False False
   | Rule \<Rightarrow> from_known_template H s t True False
   | Model \<Rightarrow> model_proposal H s t
   | Shadow \<Rightarrow>
       bindE (if sy_model s \<noteq> None then model_proposal H s t else from_known_template H s t True True) (\<lambda>proposal.
       if ct_shadow_only proposal then Inr proposal
       else candidate_from_dict H (PDict (AList.update ''shadow_only'' (PBool True) (candidate_to_dict proposal)))))"

record policy_plan =
  pp_proposed :: candidate
  pp_enforcement_candidate :: candidate
  pp_shadow :: bool

definition policy_plan_for :: "host \<Rightarrow> synthesizer \<Rightarrow> synthesizer \<Rightarrow> task_description \<Rightarrow> policy_plan res" where
  "policy_plan_for H proposal enforcement t =
     bindE (synthesize H proposal t) (\<lambda>proposed.
     if sy_mode proposal = Shadow then
       bindE (synthesize H enforcement t) (\<lambda>enforced.
       if ct_shadow_only enforced then Inl (PolicySynthesisError ''shadow enforcement synthesizer produced shadow output'')
       else Inr \<lparr>pp_proposed = proposed, pp_enforcement_candidate = enforced, pp_shadow = True\<rparr>)
     else Inr \<lparr>pp_proposed = proposed, pp_enforcement_candidate = proposed, pp_shadow = False\<rparr>)"

definition default_policy_templates :: "(string \<times> policy_template) list" where
  "default_policy_templates =
     [(''summarization'', \<lparr>pt_task_type = ''summarization'', pt_tools = [''object-reader''], pt_actions = [''object.read''],
        pt_action_resources = [(''object.read'', [''target-source'', ''public-evidence''])],
        pt_argument_constraints = [(''object.read'', [''length'', ''offset''])], pt_data_classes = [''public'', ''internal''],
        pt_maximum_read_bytes = 65536, pt_maximum_write_bytes = 0, pt_maximum_calls = 4, pt_maximum_parallelism = 1,
        pt_maximum_duration_seconds = 60, pt_required_trust_tier = Simulated, pt_required_attestations = [''executor''],
        pt_human_approval_gates = [], pt_network_destinations = [], pt_decay_profile = ''short-lived-default''\<rparr>),
      (''read-only-analysis'', \<lparr>pt_task_type = ''read-only-analysis'', pt_tools = [''object-reader'', ''safe-compute''],
        pt_actions = [''compute.run'', ''object.read''],
        pt_action_resources = [(''object.read'', [''target-source'', ''public-evidence'']), (''compute.run'', [''safe-hash''])],
        pt_argument_constraints = [(''object.read'', [''length'', ''offset'']), (''compute.run'', [''value''])],
        pt_data_classes = [''public'', ''internal''],
        pt_maximum_read_bytes = 65536, pt_maximum_write_bytes = 0, pt_maximum_calls = 8, pt_maximum_parallelism = 2,
        pt_maximum_duration_seconds = 120, pt_required_trust_tier = Simulated, pt_required_attestations = [''executor''],
        pt_human_approval_gates = [], pt_network_destinations = [], pt_decay_profile = ''short-lived-default''\<rparr>),
      (''deployment'', \<lparr>pt_task_type = ''deployment'', pt_tools = [''deployment''], pt_actions = [''deployment.apply''],
        pt_action_resources = [(''deployment.apply'', [''approved-staging''])],
        pt_argument_constraints = [(''deployment.apply'', [''artifact_digest'', ''replicas''])], pt_data_classes = [''internal''],
        pt_maximum_read_bytes = 16384, pt_maximum_write_bytes = 65536, pt_maximum_calls = 2, pt_maximum_parallelism = 1,
        pt_maximum_duration_seconds = 120, pt_required_trust_tier = Hardware, pt_required_attestations = [''executor''],
        pt_human_approval_gates = [''deployment-approval''], pt_network_destinations = [], pt_decay_profile = ''single-effect''\<rparr>)]"

section \<open>Lemmas\<close>

lemma candidate_init_iff:
  "candidate_init H g = Inr c \<longleftrightarrow> candidate_checks H g = Inr () \<and> c = candidate_build g"
  by (auto simp: candidate_init_def res_simps)

lemma arrays_of_tuples:
  "arrays_of (tuples_val m) = sort_key fst (map (\<lambda>p. (fst p, sort (snd p))) m)"
  by (simp add: arrays_of_def tuples_val_def comp_def)

lemma values_of_tuples: "\<Union> (set ` snd ` set (arrays_of (tuples_val m))) = \<Union> (set ` snd ` set m)"
  by (simp add: arrays_of_tuples image_image)

lemmas candidate_fields_simps = candidate_init_iff candidate_build_simps candidate_args_lookup

lemma template_resources_available:
  "\<Union> (set ` snd ` set (template_resources pt av)) \<subseteq> set av"
  by (auto simp: template_resources_def)

lemma fallback_cases:
  assumes "fallback H s t reason sh = Inr c"
  obtains fp cid where "task_fingerprint H t = Inr fp" "c = candidate_build (candidate_args (fallback_candidate s t reason sh fp cid))"
  using assms by (auto simp: fallback_def bindE_Inr_iff candidate_init_iff)

lemma fallback_Inr:
  assumes "fallback H s t reason sh = Inr c"
  shows "ct_task_id c = td_task_id t" "task_fingerprint H t = Inr (ct_task_fingerprint c)"
    "ct_policy_version c = td_global_policy_version t" "ct_maximum_read_bytes c = 0" "ct_maximum_write_bytes c = 0"
    "ct_maximum_calls c = 0" "ct_maximum_parallelism c = 0" "ct_maximum_duration_seconds c = 0"
    "ct_required_trust_tier c = Hardware" "ct_fallback_used c" "ct_shadow_only c = sh" "ct_confidence_bps c = 0"
    "set (ct_tools c) \<subseteq> set (td_available_tools t)" "''clarification-required'' \<in> set (ct_human_approval_gates c)"
    "ct_network_destinations c = []" "ct_data_classes c = []" "set (ct_resources c) \<subseteq> set (td_available_resources t)"
proof -
  obtain fp cid where c: "task_fingerprint H t = Inr fp" "c = candidate_build (candidate_args (fallback_candidate s t reason sh fp cid))"
    using assms by (rule fallback_cases)
  show "set (ct_tools c) \<subseteq> set (td_available_tools t)"
    by (auto simp: c candidate_build_simps candidate_args_lookup fallback_candidate_def Let_def split: option.splits)
  show "ct_required_trust_tier c = Hardware"
    by (simp add: c candidate_build_simps candidate_args_lookup fallback_candidate_def Let_def del: tier_name.simps)
  show "set (ct_resources c) \<subseteq> set (td_available_resources t)"
    using template_resources_available
    by (auto simp: c candidate_build_simps candidate_args_lookup fallback_candidate_def Let_def all_values_def split: option.splits)
  show "ct_network_destinations c = []" "ct_data_classes c = []"
    by (simp_all add: c candidate_build_simps candidate_args_lookup fallback_candidate_def Let_def)
qed (use assms in \<open>rule fallback_cases, simp add: candidate_build_simps candidate_args_lookup fallback_candidate_def Let_def\<close>)+

lemma update_values:
  "\<Union> (set ` snd ` set (AList.update k xs m)) \<subseteq> set xs \<union> \<Union> (set ` snd ` set m)"
proof (induction m)
  case (Cons p m)
  then show ?case by (cases p) auto
qed simp

lemma template_bindings_available: "\<Union> (set ` snd ` set (template_bindings t pt)) \<subseteq> set (td_available_resources t)"
proof -
  have "\<Union> (set ` snd ` set (AList.update k [x] (template_resources pt av))) \<subseteq> set av" if "x \<in> set av" for k x av
    using update_values [of k "[x]" "template_resources pt av"] template_resources_available [of pt av] that by auto
  then show ?thesis
    using template_resources_available unfolding template_bindings_def Let_def by (auto split: if_splits)
qed

text \<open>What an action is bound to: resources of the template, or the one resource requested for it.\<close>

lemma template_binding:
  assumes "(a, xs) \<in> set (template_bindings t pt)"
  shows "a \<in> set (pt_actions pt) \<and> set xs \<subseteq> set (td_available_resources t)
    \<and> (set xs \<subseteq> set (array_get (pt_action_resources pt) a)
       \<or> dict_get (td_user_approved_constraints t) ''requested_action'' = PStr a
         \<and> (\<exists>x. dict_get (td_user_approved_constraints t) ''requested_resource'' = PStr x \<and> xs = [x]))"
proof -
  let ?ra = "dict_get (td_user_approved_constraints t) ''requested_action''" and ?rr = "dict_get (td_user_approved_constraints t) ''requested_resource''"
  have base: "b \<in> set (pt_actions pt) \<and> set ys \<subseteq> set (td_available_resources t) \<and> set ys \<subseteq> set (array_get (pt_action_resources pt) b)"
    if "(b, ys) \<in> set (template_resources pt (td_available_resources t))" for b ys
    using that by (auto simp: template_resources_def)
  show ?thesis
  proof (cases "is_str ?ra \<and> is_str ?rr \<and> str_of ?ra \<in> set (pt_actions pt) \<and> str_of ?rr \<in> set (td_available_resources t)")
    case True
    then have "(a, xs) \<in> set (AList.update (str_of ?ra) [str_of ?rr] (template_resources pt (td_available_resources t)))"
      using assms by (simp add: template_bindings_def)
    moreover have "(a, xs) \<in> set (AList.update k v m) \<Longrightarrow> (a, xs) = (k, v) \<or> (a, xs) \<in> set m" for k v and m :: "(string \<times> string list) list"
      by (induction m) (auto split: if_splits)
    ultimately have "(a, xs) = (str_of ?ra, [str_of ?rr]) \<or> (a, xs) \<in> set (template_resources pt (td_available_resources t))" by blast
    moreover have "?ra = PStr (str_of ?ra)" "?rr = PStr (str_of ?rr)" using True by (simp_all add: is_str_PStr)
    ultimately show ?thesis using True base [of a xs] by (elim disjE) (simp, blast)
  next
    case False
    then show ?thesis using assms base by (auto simp: template_bindings_def Let_def split: if_splits)
  qed
qed

lemma from_template_Inr:
  assumes "from_template H s t pt rm sh = Inr c"
  shows "task_fingerprint H t = Inr (ct_task_fingerprint c)"
    and "\<exists>fp cid. c = candidate_build (candidate_args (template_candidate s t pt rm sh fp cid))"
proof -
  from assms obtain fp cid where c: "task_fingerprint H t = Inr fp"
      "c = candidate_build (candidate_args (template_candidate s t pt rm sh fp cid))"
    by (auto simp: from_template_def bindE_Inr_iff candidate_init_iff)
  then show "\<exists>fp cid. c = candidate_build (candidate_args (template_candidate s t pt rm sh fp cid))" by blast
  show "task_fingerprint H t = Inr (ct_task_fingerprint c)"
    by (simp add: c candidate_build_simps candidate_args_lookup template_candidate_def)
qed

lemma template_candidate_Inr:
  assumes "c = candidate_build (candidate_args (template_candidate s t pt rm sh fp cid))"
  shows "ct_task_id c = td_task_id t" "ct_policy_version c = td_global_policy_version t" "ct_shadow_only c = sh"
    "\<not> ct_fallback_used c" "set (ct_tools c) = set (pt_tools pt) \<inter> set (td_available_tools t)"
    "set (ct_actions c) = set (pt_actions pt)" "set (ct_resources c) \<subseteq> set (td_available_resources t)"
    "ct_maximum_read_bytes c = pt_maximum_read_bytes pt"
    "ct_maximum_write_bytes c = (if sensitive_task t rm then 0 else pt_maximum_write_bytes pt)"
    "ct_maximum_calls c = pt_maximum_calls pt" "ct_maximum_parallelism c = pt_maximum_parallelism pt"
    "ct_maximum_duration_seconds c = pt_maximum_duration_seconds pt"
    "ct_required_trust_tier c = pt_required_trust_tier pt"
    "set (ct_human_approval_gates c) = set (pt_human_approval_gates pt) \<union> set (td_human_approval_requirements t)
       \<union> (if sensitive_task t rm then {''sensitive-data-review''} else {})"
    "set (ct_network_destinations c) = set (pt_network_destinations pt)" "set (ct_data_classes c) = set (pt_data_classes pt)"
    "set (ct_required_attestations c) = set (pt_required_attestations pt)"
    "set (ct_argument_constraints c) = (\<lambda>p. (fst p, sort (snd p))) ` set (pt_argument_constraints pt)"
    "set (ct_action_resources c) = (\<lambda>p. (fst p, sort (snd p))) ` set (template_bindings t pt)"
proof -
  show "set (ct_resources c) \<subseteq> set (td_available_resources t)"
    using template_bindings_available [of t pt]
    by (simp add: assms candidate_build_simps candidate_args_lookup template_candidate_def all_values_def)
qed (auto simp: assms candidate_build_simps candidate_args_lookup template_candidate_def template_tools_def arrays_of_tuples)

text \<open>A proposal that is not produced by the model is bound to the task it was made for.\<close>

definition bound_to :: "host \<Rightarrow> task_description \<Rightarrow> candidate \<Rightarrow> bool" where
  "bound_to H t c \<longleftrightarrow> ct_task_id c = td_task_id t \<and> task_fingerprint H t = Inr (ct_task_fingerprint c)
     \<and> ct_policy_version c = td_global_policy_version t \<and> set (ct_tools c) \<subseteq> set (td_available_tools t)"

lemma fallback_bound: "fallback H s t reason sh = Inr c \<Longrightarrow> bound_to H t c \<and> ct_shadow_only c = sh"
  using fallback_Inr [of H s t reason sh c] by (simp add: bound_to_def)

lemma from_template_bound:
  assumes "from_template H s t pt rm sh = Inr c"
  shows "bound_to H t c \<and> ct_shadow_only c = sh"
proof -
  obtain fp cid where c: "c = candidate_build (candidate_args (template_candidate s t pt rm sh fp cid))"
    using from_template_Inr(2) [OF assms] by blast
  show ?thesis
    using template_candidate_Inr [OF c] from_template_Inr(1) [OF assms] by (simp add: bound_to_def)
qed

lemma from_known_template_bound:
  "from_known_template H s t rm sh = Inr c \<Longrightarrow> bound_to H t c \<and> ct_shadow_only c = sh"
  using fallback_bound from_template_bound
  by (simp add: from_known_template_def split: option.splits)

lemma candidate_from_dict_shadow:
  assumes "candidate_from_dict H (PDict m) = Inr c" and "dict_get m ''shadow_only'' = PBool True"
  shows "ct_shadow_only c"
proof -
  obtain m1 m2 where m1: "update_fields py_tuple candidate_strings m = Inr m1"
    and m2: "update_fields py_tuple_values array_map_fields m1 = Inr m2"
    and c: "c = candidate_build (dict_get m2)"
    using assms(1) by (auto simp: candidate_from_dict_def res_simps candidate_init_iff split: if_splits)
  have d: "distinct candidate_strings" "distinct array_map_fields" "''shadow_only'' \<notin> set candidate_strings"
    "''shadow_only'' \<notin> set array_map_fields"
    by (simp_all add: candidate_strings_def array_map_fields_def)
  show ?thesis
    using update_fields_Inr [OF m1 d(1)] update_fields_Inr [OF m2 d(2)] d(3,4) assms(2)
    by (simp add: c candidate_build_simps)
qed

lemma synthesize_shadow:
  assumes "synthesize H s t = Inr c" and "sy_mode s = Shadow"
  shows "ct_shadow_only c"
  using assms candidate_from_dict_shadow
  by (auto simp: synthesize_def res_simps split: if_splits)

section \<open>Properties\<close>

text \<open>
  C32: what deterministic synthesis proposes. In the static, rule and evaluation modes every ceiling is bound to the task it was
  made for (id, fingerprint, policy version), offers only tools and resources available to the task and is not marked as
  shadow output. For a task with a template, its tools are the available ones of the template; its actions, argument
  keys, destinations, data classes, tier, attestations, read bytes, calls, parallelism and duration are those of the
  template; its write bytes too, except that in rule mode a task on restricted or secret data has none and needs
  \<open>sensitive-data-review\<close>; its gates are those of the template and the task. An action is bound to available resources of the
  template, or else to the one available resource the task requests for it, which the template need not name. For a task
  without a template, the fallback has no calls, bytes, parallelism, duration, destinations or data classes, and asks
  for hardware trust and clarification.
\<close>

theorem template_synthesis_bounded:
  assumes "synthesize H s t = Inr c" and "sy_mode s \<in> {Static, Rule, Evaluation}"
  shows "bound_to H t c \<and> \<not> ct_shadow_only c \<and> set (ct_resources c) \<subseteq> set (td_available_resources t)
    \<and> (case map_of (sy_templates s) (case td_task_type t of None \<Rightarrow> '''' | Some x \<Rightarrow> x) of
         None \<Rightarrow> ct_fallback_used c \<and> ct_maximum_calls c = 0 \<and> ct_maximum_read_bytes c = 0 \<and> ct_maximum_write_bytes c = 0
           \<and> ct_maximum_parallelism c = 0 \<and> ct_maximum_duration_seconds c = 0 \<and> ct_network_destinations c = [] \<and> ct_data_classes c = []
           \<and> ct_required_trust_tier c = Hardware \<and> ''clarification-required'' \<in> set (ct_human_approval_gates c)
       | Some pt \<Rightarrow> let sensitive = (sy_mode s = Rule \<and> td_data_classification t \<in> {''restricted'', ''secret''}) in
           \<not> ct_fallback_used c \<and> set (ct_tools c) = set (pt_tools pt) \<inter> set (td_available_tools t) \<and> set (ct_actions c) = set (pt_actions pt)
           \<and> set (ct_argument_constraints c) = (\<lambda>p. (fst p, sort (snd p))) ` set (pt_argument_constraints pt)
           \<and> (\<forall>(a, xs) \<in> set (ct_action_resources c). a \<in> set (pt_actions pt) \<and> set xs \<subseteq> set (td_available_resources t)
                \<and> (set xs \<subseteq> set (array_get (pt_action_resources pt) a)
                   \<or> dict_get (td_user_approved_constraints t) ''requested_action'' = PStr a
                     \<and> (\<exists>x. dict_get (td_user_approved_constraints t) ''requested_resource'' = PStr x \<and> xs = [x])))
           \<and> set (ct_network_destinations c) = set (pt_network_destinations pt) \<and> set (ct_data_classes c) = set (pt_data_classes pt)
           \<and> ct_maximum_read_bytes c = pt_maximum_read_bytes pt
           \<and> ct_maximum_write_bytes c = (if sensitive then 0 else pt_maximum_write_bytes pt)
           \<and> ct_maximum_calls c = pt_maximum_calls pt \<and> ct_maximum_parallelism c = pt_maximum_parallelism pt
           \<and> ct_maximum_duration_seconds c = pt_maximum_duration_seconds pt
           \<and> ct_required_trust_tier c = pt_required_trust_tier pt \<and> set (ct_required_attestations c) = set (pt_required_attestations pt)
           \<and> set (ct_human_approval_gates c) = set (pt_human_approval_gates pt) \<union> set (td_human_approval_requirements t)
               \<union> (if sensitive then {''sensitive-data-review''} else {}))"
proof -
  obtain rm where k: "from_known_template H s t rm False = Inr c" and rm: "rm \<longleftrightarrow> sy_mode s = Rule"
    using assms by (cases "sy_mode s") (auto simp: synthesize_def)
  note b = from_known_template_bound [OF k]
  show ?thesis
  proof (cases "map_of (sy_templates s) (case td_task_type t of None \<Rightarrow> '''' | Some x \<Rightarrow> x)")
    case None
    then have "fallback H s t ''unknown-task'' False = Inr c" using k by (simp add: from_known_template_def)
    from fallback_Inr [OF this] show ?thesis using b None by simp
  next
    case (Some pt)
    then obtain fp cid where c: "c = candidate_build (candidate_args (template_candidate s t pt rm False fp cid))"
      using k from_template_Inr(2) by (fastforce simp: from_known_template_def)
    note f = template_candidate_Inr [OF c]
    have "a \<in> set (pt_actions pt) \<and> set xs \<subseteq> set (td_available_resources t)
        \<and> (set xs \<subseteq> set (array_get (pt_action_resources pt) a)
           \<or> dict_get (td_user_approved_constraints t) ''requested_action'' = PStr a
             \<and> (\<exists>x. dict_get (td_user_approved_constraints t) ''requested_resource'' = PStr x \<and> xs = [x]))"
      if "(a, xs) \<in> set (ct_action_resources c)" for a xs
    proof -
      have "(a, xs) \<in> (\<lambda>p. (fst p, sort (snd p))) ` set (template_bindings t pt)" using that unfolding f(19) .
      then obtain ys where "(a, ys) \<in> set (template_bindings t pt)" "xs = sort ys" by auto
      then show ?thesis using template_binding [of a ys t pt] by fastforce
    qed
    then show ?thesis using b f(4-18) rm unfolding Some option.case Let_def sensitive_task_def by auto
  qed
qed

definition demo_synthesizer :: synthesizer where
  "demo_synthesizer = \<lparr>sy_templates = [(''reading'', \<lparr>pt_task_type = ''reading'', pt_tools = [''reader''], pt_actions = [''read''],
        pt_action_resources = [(''read'', [''x''])], pt_argument_constraints = [(''read'', [''k'', ''n''])],
        pt_data_classes = [''internal''], pt_maximum_read_bytes = 4096, pt_maximum_write_bytes = 0, pt_maximum_calls = 4,
        pt_maximum_parallelism = 1, pt_maximum_duration_seconds = 60, pt_required_trust_tier = Simulated,
        pt_required_attestations = [''executor''], pt_human_approval_gates = [], pt_network_destinations = [],
        pt_decay_profile = ''short-lived-default''\<rparr>)],
     sy_mode = Rule, sy_synthesizer_version = ''v1'', sy_model = None, sy_model_timeout_ms = 2000,
     sy_minimum_confidence_bps = 7000, sy_fallback_mode = Deny_fallback\<rparr>"

definition demo_task :: task_description where
  "demo_task = \<lparr>td_task_id = ''r1'', td_requesting_subject = ''a1'', td_workload_identity = ''e1'',
     td_natural_language_task = ''p'', td_task_type = Some ''reading'', td_tenant = ''default'', td_environment = ''synthetic'',
     td_available_tools = [''reader''], td_available_resources = [''x''], td_data_classification = ''internal'',
     td_user_approved_constraints = [(''requested_action'', PStr ''read''), (''requested_argument_keys'', PStrs [''k'', ''n'']),
       (''requested_resource'', PStr ''x'')],
     td_global_policy_version = ''p1'', td_provider_attested_trust = demo_trust, td_previous_approved_task_templates = [],
     td_approved_historical_traces = [], td_requested_completion_deadline_ms = 180000, td_human_approval_requirements = []\<rparr>"

definition demo_id :: string where
  "demo_id = ''ceil_'' @ take 24 demo_digest"

definition demo_candidate :: candidate where
  "demo_candidate = template_candidate demo_synthesizer demo_task (snd (hd (sy_templates demo_synthesizer))) True False
     demo_digest demo_id"

lemma demo_fingerprint: "task_fingerprint demo_host demo_task = Inr demo_digest"
  unfolding task_fingerprint_def by (rule digest_demo) code_simp

lemma demo_py_strings:
  "distinct xs \<Longrightarrow> sorted xs \<Longrightarrow> list_all (\<lambda>s. s \<noteq> [] \<and> ascii s \<and> length s \<le> 256) xs \<Longrightarrow> length xs \<le> 256 \<Longrightarrow>
     py_strings demo_host (PTexts xs) = Inr xs"
  by (rule py_strings_PTexts) (auto simp: good_strings_def MAX_COLLECTION_def list_all_iff demo_py_text)

lemma demo_string_arrays:
  assumes "length m \<le> 256" and "list_all (\<lambda>p. fst p \<noteq> [] \<and> ascii (fst p) \<and> length (fst p) \<le> 256 \<and>
      distinct (snd p) \<and> sorted (snd p) \<and> list_all (\<lambda>s. s \<noteq> [] \<and> ascii s \<and> length s \<le> 256) (snd p) \<and> length (snd p) \<le> 256) m"
  shows "okE (string_arrays demo_host (tuples_val m))"
proof -
  have "okE (py_strings demo_host (PTexts (snd p))) \<and> py_text demo_host (PStr (fst p)) 256 = Inr (fst p)" if "p \<in> set m" for p
    using assms(2) that demo_py_strings [of "snd p"] by (auto simp: list_all_iff okE_iff demo_py_text)
  then show ?thesis
    using assms(1) by (auto simp: okE_iff string_arrays_iff tuples_val_def MAX_COLLECTION_def list_all_iff)
qed

lemma demo_candidate_ok: "candidate_init demo_host (candidate_args demo_candidate) = Inr demo_candidate"
proof -
  have c: "demo_candidate =
      \<lparr>ct_ceiling_id = demo_id, ct_task_id = ''r1'', ct_task_fingerprint = demo_digest,
       ct_synthesizer_version = ''v1'', ct_model_version = ''none'', ct_policy_version = ''p1'', ct_confidence_bps = 10000,
       ct_tools = [''reader''], ct_actions = [''read''], ct_resources = [''x''], ct_action_resources = [(''read'', [''x''])],
       ct_argument_constraints = [(''read'', [''k'', ''n''])], ct_network_destinations = [], ct_data_classes = [''internal''],
       ct_maximum_read_bytes = 4096, ct_maximum_write_bytes = 0, ct_maximum_calls = 4, ct_maximum_parallelism = 1,
       ct_maximum_duration_seconds = 60, ct_required_trust_tier = Simulated, ct_required_attestations = [''executor''],
       ct_human_approval_gates = [], ct_decay_profile = ''short-lived-default'',
       ct_rationale_codes = [''approved-static-template'', ''deterministic-risk-rules''], ct_evidence_refs = [],
       ct_fallback_used = False, ct_shadow_only = False\<rparr>"
    unfolding demo_candidate_def template_candidate_def demo_synthesizer_def demo_task_def
    by (simp add: template_tools_def template_bindings_def template_resources_def array_get_def all_values_def sorted_set_def
        sensitive_task_def)
  have tx: "py_text demo_host (PStr ''r1'') 256 = Inr ''r1''"
    "py_text demo_host (PStr ''v1'') 256 = Inr ''v1''"
    "py_text demo_host (PStr ''none'') 256 = Inr ''none''"
    "py_text demo_host (PStr ''p1'') 256 = Inr ''p1''"
    "py_text demo_host (PStr ''short-lived-default'') 256 = Inr ''short-lived-default''"
    by (simp_all add: demo_py_text ascii_def)
  have strs: "py_strings demo_host (PTexts []) = Inr []"
    "py_strings demo_host (PTexts [''reader'']) = Inr [''reader'']"
    "py_strings demo_host (PTexts [''read'']) = Inr [''read'']"
    "py_strings demo_host (PTexts [''x'']) = Inr [''x'']"
    "py_strings demo_host (PTexts [''internal'']) = Inr [''internal'']"
    "py_strings demo_host (PTexts [''executor'']) = Inr [''executor'']"
    "py_strings demo_host (PTexts [''approved-static-template'', ''deterministic-risk-rules'']) = Inr [''approved-static-template'', ''deterministic-risk-rules'']"
    by (simp_all add: demo_py_strings ascii_def)
  have arrs: "okE (string_arrays demo_host (tuples_val [(''read'', [''x''])]))"
    "okE (string_arrays demo_host (tuples_val [(''read'', [''k'', ''n''])]))"
    by (intro demo_string_arrays; simp add: ascii_def)+
  have checks: "candidate_checks demo_host (candidate_args demo_candidate) = Inr ()"
    unfolding c candidate_checks_def
    using arrs
    by (auto simp: candidate_args_lookup candidate_strings_def array_map_fields_def maximum_fields_def demo_py_digest
        py_nonnegative_def max_safe_def in_tiers_def tier_of_def arrays_of_tuples okE_iff unitE_def tx strs demo_id_def)
  have "candidate_build (candidate_args demo_candidate) = demo_candidate"
    unfolding c candidate_build_def
    by (simp add: candidate_args_lookup arrays_of_tuples tier_val_def tier_of_def)
  then show ?thesis using checks by (simp add: candidate_init_iff)
qed

lemma demo_candidate_id: "list_all demo_value_ok (subvalues 0 (PDict m)) \<Longrightarrow> candidate_id demo_host m = Inr demo_id"
  by (simp add: candidate_id_def digest_demo demo_id_def)

lemma demo_synthesis: "synthesize demo_host demo_synthesizer demo_task = Inr demo_candidate"
proof -
  let ?pt = "snd (hd (sy_templates demo_synthesizer))"
  have pt: "map_of (sy_templates demo_synthesizer) ''reading'' = Some ?pt" "sy_mode demo_synthesizer = Rule"
    by (simp_all add: demo_synthesizer_def)
  have ty: "td_task_type demo_task = Some ''reading''" by (simp add: demo_task_def)
  have "list_all demo_value_ok (subvalues 0 (PDict [(''task'', PStr demo_digest), (''template'', PStr (pt_task_type ?pt)),
      (''rule_mode'', PBool True), (''shadow_only'', PBool False), (''tools'', PTexts (template_tools demo_task ?pt)),
      (''resources'', tuples_val (template_bindings demo_task ?pt))]))"
    by code_simp
  note id = demo_candidate_id [OF this]
  show ?thesis
    by (simp add: synthesize_def pt ty from_known_template_def from_template_def demo_fingerprint id
        demo_candidate_ok [unfolded demo_candidate_def] demo_candidate_def)
qed

theorem template_synthesis_bounded_witness:
  "bound_to demo_host demo_task demo_candidate \<and> set (ct_actions demo_candidate) = {''read''} \<and> ct_maximum_calls demo_candidate = 4"
proof -
  have "sy_mode demo_synthesizer \<in> {Static, Rule, Evaluation}" "td_task_type demo_task = Some ''reading''"
    "map_of (sy_templates demo_synthesizer) ''reading'' = Some (snd (hd (sy_templates demo_synthesizer)))"
    "set (pt_actions (snd (hd (sy_templates demo_synthesizer)))) = {''read''}" "pt_maximum_calls (snd (hd (sy_templates demo_synthesizer))) = 4"
    by (simp_all add: demo_synthesizer_def demo_task_def)
  then show ?thesis using template_synthesis_bounded [OF demo_synthesis] by (simp add: Let_def)
qed

text \<open>
  Shadow proposals stay out of enforcement. A controller whose proposal synthesizer runs in shadow mode
  returns a plan whose proposal is marked as shadow output and whose enforced candidate is not, or it
  fails; whatever the model proposed is never the enforced candidate.
\<close>

theorem shadow_plan_separate:
  assumes "policy_plan_for H proposal enforcement t = Inr plan" and "sy_mode proposal = Shadow"
  shows "ct_shadow_only (pp_proposed plan) \<and> \<not> ct_shadow_only (pp_enforcement_candidate plan) \<and> pp_shadow plan
    \<and> pp_enforcement_candidate plan \<noteq> pp_proposed plan \<and> synthesize H enforcement t = Inr (pp_enforcement_candidate plan)"
proof -
  from assms obtain p e where p: "synthesize H proposal t = Inr p" and e: "synthesize H enforcement t = Inr e"
    and ne: "\<not> ct_shadow_only e" and plan: "plan = \<lparr>pp_proposed = p, pp_enforcement_candidate = e, pp_shadow = True\<rparr>"
    by (auto simp: policy_plan_for_def res_simps split: if_splits)
  have "ct_shadow_only p" using p assms(2) by (rule synthesize_shadow)
  then show ?thesis using plan e ne by auto
qed

definition demo_shadow :: synthesizer where
  "demo_shadow = demo_synthesizer\<lparr>sy_mode := Shadow\<rparr>"

lemma demo_shadow_synthesis:
  "synthesize demo_host demo_shadow demo_task = Inr (demo_candidate\<lparr>ct_shadow_only := True\<rparr>)"
proof -
  let ?pt = "snd (hd (sy_templates demo_synthesizer))" and ?c = "demo_candidate\<lparr>ct_shadow_only := True\<rparr>"
  have pt: "map_of (sy_templates demo_shadow) ''reading'' = Some ?pt" "sy_mode demo_shadow = Shadow" "sy_model demo_shadow = None"
    by (simp_all add: demo_shadow_def demo_synthesizer_def)
  have ty: "td_task_type demo_task = Some ''reading''" by (simp add: demo_task_def)
  have "list_all demo_value_ok (subvalues 0 (PDict [(''task'', PStr demo_digest), (''template'', PStr (pt_task_type ?pt)),
      (''rule_mode'', PBool True), (''shadow_only'', PBool True), (''tools'', PTexts (template_tools demo_task ?pt)),
      (''resources'', tuples_val (template_bindings demo_task ?pt))]))"
    by code_simp
  note id = demo_candidate_id [OF this]
  have tc: "template_candidate demo_shadow demo_task ?pt True True demo_digest demo_id = ?c"
    by (simp add: demo_candidate_def template_candidate_def demo_shadow_def)
  have args: "candidate_args ?c n = (if n = ''shadow_only'' then PBool True else candidate_args demo_candidate n)" for n
    by (simp add: candidate_args_def)
  have ok: "candidate_checks demo_host (candidate_args demo_candidate) = Inr ()"
    and b: "candidate_build (candidate_args demo_candidate) = demo_candidate"
    using demo_candidate_ok by (simp_all add: candidate_init_iff)
  have "candidate_checks demo_host (candidate_args ?c) = candidate_checks demo_host (candidate_args demo_candidate)"
    by (simp add: candidate_checks_def args candidate_strings_def array_map_fields_def maximum_fields_def candidate_args_lookup cong: if_cong)
  moreover have "candidate_build (candidate_args ?c) = (candidate_build (candidate_args demo_candidate))\<lparr>ct_shadow_only := True\<rparr>"
    by (simp add: candidate_build_def args)
  ultimately have "candidate_init demo_host (candidate_args ?c) = Inr ?c"
    using ok b by (simp add: candidate_init_iff)
  then show ?thesis
    by (simp add: synthesize_def pt ty from_known_template_def from_template_def demo_fingerprint id tc)
qed

theorem shadow_plan_separate_witness:
  "\<exists>plan. policy_plan_for demo_host demo_shadow demo_synthesizer demo_task = Inr plan
     \<and> ct_shadow_only (pp_proposed plan) \<and> \<not> ct_shadow_only (pp_enforcement_candidate plan)"
proof -
  have sh: "sy_mode demo_shadow = Shadow" by (simp add: demo_shadow_def)
  have "\<not> ct_shadow_only demo_candidate" by (simp add: demo_candidate_def template_candidate_def)
  then have "policy_plan_for demo_host demo_shadow demo_synthesizer demo_task =
      Inr \<lparr>pp_proposed = demo_candidate\<lparr>ct_shadow_only := True\<rparr>, pp_enforcement_candidate = demo_candidate, pp_shadow = True\<rparr>"
    by (simp add: policy_plan_for_def demo_shadow_synthesis demo_synthesis sh)
  then show ?thesis using shadow_plan_separate [OF _ sh] by blast
qed

definition listy_proposal :: pyval where
  "listy_proposal = PDict (map (\<lambda>n. (n, PList [])) candidate_fields)"

lemma update_fields_PList:
  "list_all (\<lambda>n. is_sequence (dict_get m n)) ns \<Longrightarrow> \<exists>m'. update_fields py_tuple ns m = Inr m' \<and>
     (\<forall>k. k \<notin> set ns \<longrightarrow> dict_get m' k = dict_get m k)"
proof (induction ns arbitrary: m)
  case (Cons n ns)
  obtain v where v: "py_tuple (dict_get m n) = Inr v" "is_sequence v"
    using Cons.prems by (cases "dict_get m n") (auto simp: py_tuple_def)
  have "list_all (\<lambda>k. is_sequence (dict_get (AList.update n v m) k)) ns"
    using Cons.prems v by (auto simp: list_all_iff)
  from Cons.IH [OF this] v show ?case by auto
qed simp

text \<open>
  A malformed proposal can escape as an exception. \<open>_model_proposal\<close> turns every \<open>TypeError\<close> and
  \<open>ValueError\<close> of an untrusted proposal into a fallback ceiling, but a proposal whose \<open>action_resources\<close> is
  not an object makes \<open>from_dict\<close> raise \<open>AttributeError\<close>, which is neither: \<open>synthesize\<close> raises instead of
  falling back.
\<close>

theorem malformed_proposal_escapes:
  assumes "sy_mode s = Model" and "sy_model s = Some pm" and "pm_propose pm t = Proposed (PDict m)"
    and "dict_keys m = set candidate_fields" and "list_all (\<lambda>n. is_sequence (dict_get m n)) candidate_strings"
    and "\<not> is_mapping (dict_get m ''action_resources'')"
  shows "synthesize H s t = Inl (AttributeError ''items'')"
proof -
  obtain m' where m': "update_fields py_tuple candidate_strings m = Inr m'"
    "\<forall>k. k \<notin> set candidate_strings \<longrightarrow> dict_get m' k = dict_get m k"
    using update_fields_PList [OF assms(5)] by blast
  have "''action_resources'' \<notin> set candidate_strings" by code_simp
  then have "py_tuple_values (dict_get m' ''action_resources'') = Inl (AttributeError ''items'')"
    using m'(2) assms(6) by (cases "dict_get m ''action_resources''") (simp_all add: py_tuple_values_def)
  then have "candidate_from_dict H (PDict m) = Inl (AttributeError ''items'')"
    using m'(1) assms(4) by (simp add: candidate_from_dict_def array_map_fields_def dict_keys_def)
  then show ?thesis
    using assms by (simp add: synthesize_def model_proposal_def value_or_type_error_def)
qed

theorem malformed_proposal_escapes_witness:
  "synthesize demo_host (demo_synthesizer\<lparr>sy_mode := Model,
     sy_model := Some \<lparr>pm_version = ''m1'', pm_propose = (\<lambda>t. Proposed listy_proposal)\<rparr>\<rparr>) demo_task
   = Inl (AttributeError ''items'')"
proof -
  have get: "n \<in> set ns \<Longrightarrow> dict_get (map (\<lambda>n. (n, PList [])) ns) n = PList []" for n ns
    by (induction ns) auto
  have "set candidate_strings \<subseteq> set candidate_fields" "''action_resources'' \<in> set candidate_fields"
    by (code_simp, code_simp)
  then show ?thesis
    using get by (intro malformed_proposal_escapes [of _ "\<lparr>pm_version = ''m1'', pm_propose = (\<lambda>t. Proposed listy_proposal)\<rparr>"])
      (auto simp: listy_proposal_def dict_keys_def list_all_iff image_image)
qed

end
