(* ===== verification/Compiler.thy ===== *)
theory Compiler
  imports Synthesizer
begin

text \<open>
  \<open>TrustedPolicyCompiler.compile\<close> of \<open>task_policy.py\<close>, the step that turns a proposed ceiling into
  enforceable authority, and the sizing metrics. The method is one sequence of guards, a loop over the
  candidate's actions, a loop over the guardians' reductions and the construction of the result; each
  is a definition. A guardian reduction that is not an \<open>AuthorityReduction\<close> is \<open>None\<close>.
\<close>

section \<open>Definitions\<close>

record compiler =
  pc_global_policy :: static_policy
  pc_tool_actions :: "(string \<times> string list) list"
  pc_allowed_tenant_environments :: "(string \<times> string list) list"
  pc_allowed_network_destinations :: "string list"
  pc_allowed_data_classes :: "string list"
  pc_compiler_version :: string
  pc_maximum_read_bytes :: int
  pc_maximum_write_bytes :: int
  pc_maximum_calls :: int
  pc_maximum_parallelism :: int
  pc_maximum_duration_seconds :: int
  pc_mandatory_human_approval_gates :: "string list"

definition refuse :: "bool \<Rightarrow> string \<Rightarrow> unit res" where
  "refuse c reason = checkE c (PolicyCompilationError reason)"

definition tool_enabled :: "compiler \<Rightarrow> string list \<Rightarrow> string list" where
  "tool_enabled C tools = concat (map (\<lambda>tool. array_get (pc_tool_actions C) tool) tools)"

text \<open>The guards before the loops, in order.\<close>

definition binding_guard :: "host \<Rightarrow> task_description \<Rightarrow> candidate \<Rightarrow> unit res" where
  "binding_guard H t c =
     (if ct_task_id c \<noteq> td_task_id t
      then Inl (PolicyCompilationError ''candidate is not bound to the current task fingerprint'')
      else bindE (task_fingerprint H t) (\<lambda>fp.
        refuse (ct_task_fingerprint c \<noteq> fp) ''candidate is not bound to the current task fingerprint''))"

definition compile_guards :: "host \<Rightarrow> compiler \<Rightarrow> task_description \<Rightarrow> candidate \<Rightarrow> int \<Rightarrow> unit res" where
  "compile_guards H C t c now_ms = seqE
     [unitE (py_nonnegative (PInt now_ms) max_safe),
      refuse (ct_shadow_only c) ''shadow policy output is not executable authority'',
      binding_guard H t c,
      refuse (ct_policy_version c \<noteq> td_global_policy_version t) ''candidate policy version is stale or incompatible'',
      refuse (td_global_policy_version t \<noteq> sp_policy_id (pc_global_policy C))
        ''task policy version does not match the global maximum'',
      refuse (case map_of (pc_allowed_tenant_environments C) (td_tenant t) of
                None \<Rightarrow> True | Some es \<Rightarrow> td_environment t \<notin> set es) ''tenant or environment is outside global policy'',
      refuse (\<not> subset_list (ct_tools c) (map fst (pc_tool_actions C))) ''candidate contains an unknown tool'',
      refuse (\<not> subset_list (ct_tools c) (td_available_tools t)) ''candidate contains a tool unavailable to the task'',
      refuse (\<not> subset_list (ct_actions c) (map fst (sp_operations (pc_global_policy C))))
        ''candidate contains an unknown or globally prohibited action'',
      refuse (\<not> subset_list (ct_actions c) (tool_enabled C (ct_tools c)))
        ''candidate action is not supplied by its declared tool set'',
      refuse (\<not> subset_list (ct_resources c) (policy_resources (pc_global_policy C)))
        ''candidate contains an unknown or globally prohibited resource'',
      refuse (\<not> subset_list (ct_resources c) (td_available_resources t)) ''candidate contains a resource unavailable to the task'',
      refuse (\<not> subset_list (ct_network_destinations c) (pc_allowed_network_destinations C))
        ''candidate contains an unknown network destination'',
      refuse (\<not> subset_list (ct_data_classes c) (pc_allowed_data_classes C)) ''candidate contains an unknown data class'']"

text \<open>One round of the loop over the candidate's actions.\<close>

definition bind_action :: "static_policy \<Rightarrow> candidate \<Rightarrow> string \<Rightarrow> (string \<times> string list \<times> string list) res" where
  "bind_action p c action = (case map_of (sp_operations p) action of
     None \<Rightarrow> Inl (KeyError action)
   | Some rule \<Rightarrow>
       let resources = array_get (ct_action_resources c) action; arguments = array_get (ct_argument_constraints c) action in
       bindE (seqE
         [refuse (\<not> subset_list resources (or_resources rule)) ''candidate action-resource relationship exceeds global policy'',
          refuse (\<not> subset_list arguments (or_allowed_argument_keys rule)) ''candidate argument constraints exceed global policy'',
          refuse (list_ex (\<lambda>k. k \<in> set (sp_denied_argument_keys p)) arguments) ''candidate contains globally denied argument keys''])
         (\<lambda>_. Inr (action, sorted_set resources, sorted_set arguments)))"

definition required_gates :: "compiler \<Rightarrow> task_description \<Rightarrow> candidate \<Rightarrow> string list" where
  "required_gates C t c =
     td_human_approval_requirements t @ ct_human_approval_gates c @ pc_mandatory_human_approval_gates C"

definition trust_guards :: "task_description \<Rightarrow> candidate \<Rightarrow> int \<Rightarrow> unit res" where
  "trust_guards t c now_ms = seqE
     [refuse (ts_effective_trust (td_provider_attested_trust t) < ct_required_trust_tier c)
        ''provider-derived trust is below the candidate requirement'',
      refuse (now_ms \<ge> ts_expires_at_ms (td_provider_attested_trust t)) ''provider-derived trust has expired'']"

record authority =
  au_tools :: "string list"
  au_actions :: "string list"
  au_network :: "string list"
  au_resources :: "(string \<times> string list) list"
  au_read :: int
  au_write :: int
  au_calls :: int
  au_parallelism :: int
  au_duration :: int

definition cap :: "int \<Rightarrow> int option \<Rightarrow> int" where
  "cap x limit = (case limit of None \<Rightarrow> x | Some m \<Rightarrow> min x m)"

definition without :: "string list \<Rightarrow> string list \<Rightarrow> string list" where
  "without xs ys = filter (\<lambda>x. x \<notin> set ys) xs"

text \<open>One round of the loop over the reductions.\<close>

definition reduce_authority :: "authority \<Rightarrow> reduction \<Rightarrow> authority" where
  "reduce_authority a r =
     \<lparr>au_tools = without (au_tools a) (rd_remove_tools r),
      au_actions = without (au_actions a) (rd_remove_actions r),
      au_network = without (au_network a) (rd_remove_network_destinations r),
      au_resources = map (\<lambda>p. (fst p, without (snd p) (rd_remove_resources r))) (au_resources a),
      au_read = cap (au_read a) (rd_maximum_read_bytes r), au_write = cap (au_write a) (rd_maximum_write_bytes r),
      au_calls = cap (au_calls a) (rd_maximum_calls r), au_parallelism = cap (au_parallelism a) (rd_maximum_parallelism r),
      au_duration = cap (au_duration a) (rd_maximum_duration_seconds r)\<rparr>"

definition apply_reduction :: "string list \<Rightarrow> authority \<Rightarrow> reduction option \<Rightarrow> authority res" where
  "apply_reduction approved a red = (case red of
     None \<Rightarrow> Inl (PolicyCompilationError ''guardian reduction is malformed'')
   | Some r \<Rightarrow> bindE (seqE
       [refuse (rd_require_human_approval r \<and> ''guardian-review'' \<notin> set approved)
          ''guardian-required human approval is unsatisfied'',
        refuse (rd_require_reattestation r) ''guardian requires a fresh attestation flow'',
        refuse (rd_revoke r) ''guardian revoked the candidate ceiling''])
       (\<lambda>_. Inr (reduce_authority a r)))"

fun apply_reductions :: "string list \<Rightarrow> authority \<Rightarrow> reduction option list \<Rightarrow> authority res" where
  "apply_reductions approved a [] = Inr a"
| "apply_reductions approved a (r # rs) = bindE (apply_reduction approved a r) (\<lambda>a'. apply_reductions approved a' rs)"

definition initial_authority :: "compiler \<Rightarrow> candidate \<Rightarrow> (string \<times> string list \<times> string list) list \<Rightarrow> authority" where
  "initial_authority C c bindings =
     \<lparr>au_tools = ct_tools c, au_actions = ct_actions c, au_network = ct_network_destinations c,
      au_resources = map (\<lambda>(a, rs, ks). (a, rs)) bindings,
      au_read = min (ct_maximum_read_bytes c) (pc_maximum_read_bytes C),
      au_write = min (ct_maximum_write_bytes c) (pc_maximum_write_bytes C),
      au_calls = min (ct_maximum_calls c) (pc_maximum_calls C),
      au_parallelism = min (ct_maximum_parallelism c) (pc_maximum_parallelism C),
      au_duration = min (ct_maximum_duration_seconds c) (pc_maximum_duration_seconds C)\<rparr>"

text \<open>After the loops: the actions still supplied by a tool and bound to a resource.\<close>

definition kept_resources :: "compiler \<Rightarrow> authority \<Rightarrow> (string \<times> string list) list" where
  "kept_resources C a =
     filter (\<lambda>p. fst p \<in> set (au_actions a) \<and> fst p \<in> set (tool_enabled C (au_tools a)) \<and> snd p \<noteq> []) (au_resources a)"

definition ceiling_expiry :: "task_description \<Rightarrow> authority \<Rightarrow> int \<Rightarrow> int" where
  "ceiling_expiry t a now_ms = min (now_ms + au_duration a * 1000)
     (min (td_requested_completion_deadline_ms t) (ts_expires_at_ms (td_provider_attested_trust t)))"

definition ceiling_record ::
  "compiler \<Rightarrow> task_description \<Rightarrow> candidate \<Rightarrow> (string \<times> string list \<times> string list) list \<Rightarrow> authority \<Rightarrow> int
     \<Rightarrow> string \<Rightarrow> string \<Rightarrow> string \<Rightarrow> compiled" where
  "ceiling_record C t c bindings a now_ms fp candidate_digest reductions_digest =
     (let trust = td_provider_attested_trust t; kept = kept_resources C a in
      \<lparr>cp_schema = compiled_schema, cp_ceiling_id = ct_ceiling_id c, cp_task_id = td_task_id t, cp_task_fingerprint = fp,
       cp_subject_id = td_requesting_subject t, cp_workload_identity = td_workload_identity t, cp_tenant = td_tenant t,
       cp_environment = td_environment t, cp_synthesizer_version = ct_synthesizer_version c,
       cp_compiler_version = pc_compiler_version C, cp_policy_version = td_global_policy_version t,
       cp_candidate_digest = candidate_digest, cp_provider_attestation_digest = ts_attestation_digest trust,
       cp_provider_bundle_digest = ts_bundle_digest trust, cp_provider_key_id = ts_key_id trust,
       cp_provider_method = ts_method trust, cp_provider_trust = ts_effective_trust trust,
       cp_required_trust_tier = ct_required_trust_tier c, cp_tools = sorted_set (au_tools a),
       cp_actions = sorted_set (map fst kept), cp_action_resources = sort_key fst kept,
       cp_argument_constraints = sort_key fst (map (\<lambda>(a, rs, ks). (a, ks)) (filter (\<lambda>(a, rs, ks). a \<in> set (map fst kept)) bindings)),
       cp_network_destinations = sorted_set (au_network a), cp_data_classes = sorted_set (ct_data_classes c),
       cp_maximum_read_bytes = au_read a, cp_maximum_write_bytes = au_write a, cp_maximum_calls = au_calls a,
       cp_maximum_parallelism = au_parallelism a, cp_maximum_duration_seconds = au_duration a,
       cp_required_attestations = sorted_set (ct_required_attestations c),
       cp_human_approval_gates = sorted_set (required_gates C t c), cp_decay_profile = ct_decay_profile c,
       cp_guardian_reductions_digest = reductions_digest, cp_issued_at_ms = now_ms,
       cp_expires_at_ms = ceiling_expiry t a now_ms, cp_compiled_digest = ''''\<rparr>)"

definition compile_finish ::
  "host \<Rightarrow> compiler \<Rightarrow> task_description \<Rightarrow> candidate \<Rightarrow> (string \<times> string list \<times> string list) list \<Rightarrow> authority
     \<Rightarrow> reduction option list \<Rightarrow> int \<Rightarrow> compiled res" where
  "compile_finish H C t c bindings a reductions now_ms =
     bindE (refuse (ceiling_expiry t a now_ms \<le> now_ms \<or> au_calls a \<le> 0 \<or> au_parallelism a \<le> 0 \<or> kept_resources C a = [])
              ''compiled authority is empty or already expired'') (\<lambda>_.
     bindE (task_fingerprint H t) (\<lambda>fp.
     bindE (digest H (PDict (candidate_to_dict c))) (\<lambda>cd.
     bindE (digest H (PList (map (\<lambda>r. PDict (reduction_to_dict r)) (List.map_filter id reductions)))) (\<lambda>rd.
     let unsigned = ceiling_record C t c bindings a now_ms fp cd rd in
     bindE (digest H (PDict (unsigned_dict unsigned))) (\<lambda>d.
     bindE (compiled_init H (compiled_args (unsigned\<lparr>cp_compiled_digest := d\<rparr>))) (\<lambda>compiled.
     bindE (verify_integrity H compiled) (\<lambda>_. Inr compiled)))))))"

definition compile ::
  "host \<Rightarrow> compiler \<Rightarrow> task_description \<Rightarrow> candidate \<Rightarrow> reduction option list \<Rightarrow> pyval list \<Rightarrow> int \<Rightarrow> compiled res" where
  "compile H C t c reductions approved_human_gates now_ms =
     bindE (compile_guards H C t c now_ms) (\<lambda>_.
     bindE (sequenceE (map (bind_action (pc_global_policy C) c) (ct_actions c))) (\<lambda>bindings.
     bindE (trust_guards t c now_ms) (\<lambda>_.
     bindE (py_strings H (PTuple approved_human_gates)) (\<lambda>approved.
     bindE (refuse (\<not> subset_list (required_gates C t c) approved) ''required human approval gate is unsatisfied'') (\<lambda>_.
     bindE (apply_reductions approved (initial_authority C c bindings) reductions) (\<lambda>a.
     compile_finish H C t c bindings a reductions now_ms))))))"

subsection \<open>Sizing metrics\<close>

record sizing_metrics =
  sm_tools_exposed :: nat
  sm_tools_invoked :: nat
  sm_actions_exposed :: nat
  sm_actions_invoked :: nat
  sm_dangerous_tools_exposed :: nat
  sm_unnecessary_privileges_exposed :: nat
  sm_required_privileges_omitted :: nat
  sm_task_completed :: bool
  sm_task_failure_underprovisioned :: bool
  sm_escalation_requests :: int
  sm_human_approvals :: int
  sm_policy_synthesis_latency_ms :: int
  sm_policy_compiler_latency_ms :: int
  sm_attack_succeeded :: bool
  sm_false_denial :: bool
  sm_risk_weighted_authority_exposure :: int
  sm_skill_economy_ratio_millis :: int
  sm_composite_score_millis :: int

definition size_of :: "string list \<Rightarrow> nat" where
  "size_of xs = length (remdups xs)"

definition economy_ratio :: "string list \<Rightarrow> string list \<Rightarrow> string list \<Rightarrow> int" where
  "economy_ratio exposed invoked required =
     (if exposed = [] \<and> required = [] then 1000
      else if exposed = [] then 0
      else min 1000 (int (size_of (invoked @ required)) * 1000 div int (size_of exposed)))"

definition risk_exposure :: "(string \<times> int) list \<Rightarrow> string list \<Rightarrow> int" where
  "risk_exposure weights exposed =
     sum_list (map (\<lambda>tool. max 0 (case map_of weights tool of None \<Rightarrow> 1 | Some w \<Rightarrow> w)) (remdups exposed))"

definition composite_score :: "bool \<Rightarrow> int \<Rightarrow> int \<Rightarrow> nat \<Rightarrow> bool \<Rightarrow> bool \<Rightarrow> int \<Rightarrow> int" where
  "composite_score task_completed ratio risk unnecessary denied attack_succeeded escalation_requests =
     (let completion = (if task_completed then 1000 else 0);
          least_authority = max 0 (1000 - int unnecessary * 125 - risk * 10) in
      max 0 ((completion * 5 + least_authority * 3 + ratio * 2) div 10
             - (if denied then 300 else 0) - (if attack_succeeded then 1000 else 0) - min 300 (escalation_requests * 50)))"

definition evaluate_policy_sizing ::
  "string list \<Rightarrow> string list \<Rightarrow> string list \<Rightarrow> string list \<Rightarrow> string list \<Rightarrow> string list \<Rightarrow> bool \<Rightarrow> bool
     \<Rightarrow> int \<Rightarrow> int \<Rightarrow> int \<Rightarrow> int \<Rightarrow> bool \<Rightarrow> bool \<Rightarrow> (string \<times> int) list \<Rightarrow> sizing_metrics res" where
  "evaluate_policy_sizing exposed invoked actions invoked_actions required dangerous task_completed underprovisioned
     escalations approvals synthesis_ms compiler_ms attack_succeeded false_denial weights =
     (let unnecessary = filter (\<lambda>x. x \<notin> set (invoked @ required)) exposed;
          ratio = economy_ratio exposed invoked required;
          risk = risk_exposure weights exposed in
      bindE (seqE (map (\<lambda>i. unitE (py_nonnegative (PInt i) max_safe)) [escalations, approvals, synthesis_ms, compiler_ms])) (\<lambda>_.
      Inr \<lparr>sm_tools_exposed = size_of exposed, sm_tools_invoked = size_of invoked, sm_actions_exposed = size_of actions,
           sm_actions_invoked = size_of invoked_actions,
           sm_dangerous_tools_exposed = size_of (filter (\<lambda>x. x \<in> set dangerous) exposed),
           sm_unnecessary_privileges_exposed = size_of unnecessary,
           sm_required_privileges_omitted = size_of (filter (\<lambda>x. x \<notin> set exposed) required),
           sm_task_completed = task_completed, sm_task_failure_underprovisioned = underprovisioned,
           sm_escalation_requests = escalations, sm_human_approvals = approvals,
           sm_policy_synthesis_latency_ms = synthesis_ms, sm_policy_compiler_latency_ms = compiler_ms,
           sm_attack_succeeded = attack_succeeded, sm_false_denial = false_denial,
           sm_risk_weighted_authority_exposure = risk, sm_skill_economy_ratio_millis = ratio,
           sm_composite_score_millis = composite_score task_completed ratio risk (size_of unnecessary)
             (false_denial \<or> underprovisioned) attack_succeeded escalations\<rparr>))"

section \<open>Lemmas\<close>

subsection \<open>Reductions narrow\<close>

definition authority_le :: "authority \<Rightarrow> authority \<Rightarrow> bool" where
  "authority_le a b \<longleftrightarrow>
     set (au_tools a) \<subseteq> set (au_tools b) \<and> set (au_actions a) \<subseteq> set (au_actions b) \<and> set (au_network a) \<subseteq> set (au_network b)
     \<and> list_all2 (\<lambda>p q. fst p = fst q \<and> set (snd p) \<subseteq> set (snd q)) (au_resources a) (au_resources b)
     \<and> au_read a \<le> au_read b \<and> au_write a \<le> au_write b \<and> au_calls a \<le> au_calls b
     \<and> au_parallelism a \<le> au_parallelism b \<and> au_duration a \<le> au_duration b"

lemma cap_le [simp]: "cap x m \<le> x"
  by (auto simp: cap_def split: option.splits)

lemma set_without [simp]: "set (without xs ys) = set xs - set ys"
  by (auto simp: without_def)

interpretation reductions: attenuation authority_le reduce_authority
proof (unfold_locales, goal_cases)
  case (1 a)
  show ?case by (auto simp: authority_le_def list.rel_refl)
next
  case (2 a b c)
  have "list_all2 (\<lambda>p q. fst p = fst q \<and> set (snd p) \<subseteq> set (snd q)) (au_resources a) (au_resources c)"
    using 2 unfolding authority_le_def by (elim conjE) (rule list_all2_trans, auto)
  then show ?case using 2 by (auto simp: authority_le_def)
next
  case (3 a r)
  show ?case by (auto simp: authority_le_def reduce_authority_def list_all2_conv_all_nth)
qed

lemma refuse_Inr_iff [res_simps]: "refuse c reason = Inr u \<longleftrightarrow> \<not> c"
  by (simp add: refuse_def checkE_Inr_iff)

definition reduction_ok :: "string list \<Rightarrow> reduction \<Rightarrow> bool" where
  "reduction_ok approved r \<longleftrightarrow> \<not> rd_revoke r \<and> \<not> rd_require_reattestation r
     \<and> (rd_require_human_approval r \<longrightarrow> ''guardian-review'' \<in> set approved)"

lemma apply_reduction_Inr:
  "apply_reduction approved a red = Inr a' \<longleftrightarrow> (\<exists>r. red = Some r \<and> reduction_ok approved r \<and> a' = reduce_authority a r)"
  by (cases red) (auto simp: apply_reduction_def res_simps reduction_ok_def)

lemma apply_reductions_Inr:
  "apply_reductions approved a reds = Inr a' \<longleftrightarrow>
     (\<exists>rs. reds = map Some rs \<and> list_all (reduction_ok approved) rs \<and> a' = foldl reduce_authority a rs)"
proof (induction reds arbitrary: a)
  case (Cons red reds)
  show ?case
    by (auto simp: bindE_Inr_iff apply_reduction_Inr Cons.IH Cons_eq_map_conv)
qed auto

lemma reduce_removes:
  "r \<in> set rs \<Longrightarrow> set (au_tools (foldl reduce_authority a rs)) \<inter> set (rd_remove_tools r) = {}
     \<and> set (au_actions (foldl reduce_authority a rs)) \<inter> set (rd_remove_actions r) = {}
     \<and> set (au_network (foldl reduce_authority a rs)) \<inter> set (rd_remove_network_destinations r) = {}
     \<and> (\<forall>p \<in> set (au_resources (foldl reduce_authority a rs)). set (snd p) \<inter> set (rd_remove_resources r) = {})
     \<and> (\<forall>m. rd_maximum_read_bytes r = Some m \<longrightarrow> au_read (foldl reduce_authority a rs) \<le> m)
     \<and> (\<forall>m. rd_maximum_write_bytes r = Some m \<longrightarrow> au_write (foldl reduce_authority a rs) \<le> m)
     \<and> (\<forall>m. rd_maximum_calls r = Some m \<longrightarrow> au_calls (foldl reduce_authority a rs) \<le> m)
     \<and> (\<forall>m. rd_maximum_parallelism r = Some m \<longrightarrow> au_parallelism (foldl reduce_authority a rs) \<le> m)
     \<and> (\<forall>m. rd_maximum_duration_seconds r = Some m \<longrightarrow> au_duration (foldl reduce_authority a rs) \<le> m)"
proof -
  assume "r \<in> set rs"
  then obtain xs ys where rs: "rs = xs @ r # ys" by (auto simp: in_set_conv_decomp)
  let ?b = "reduce_authority (foldl reduce_authority a xs) r" and ?c = "foldl reduce_authority a rs"
  have "authority_le ?c ?b" using reductions.foldl_le [of ?b ys] by (simp add: rs)
  moreover have "\<exists>q \<in> set (au_resources ?b). set (snd p) \<subseteq> set (snd q)" if "p \<in> set (au_resources ?c)" for p
    using calculation that unfolding authority_le_def by (elim conjE) (drule (1) list_all2_ex1, blast)
  moreover have "set (snd q) \<inter> set (rd_remove_resources r) = {}" if "q \<in> set (au_resources ?b)" for q
    using that by (auto simp: reduce_authority_def)
  moreover have "au_tools ?b = without (au_tools (foldl reduce_authority a xs)) (rd_remove_tools r)"
    "au_actions ?b = without (au_actions (foldl reduce_authority a xs)) (rd_remove_actions r)"
    "au_network ?b = without (au_network (foldl reduce_authority a xs)) (rd_remove_network_destinations r)"
    by (simp_all add: reduce_authority_def)
  moreover have "\<forall>m. rd_maximum_read_bytes r = Some m \<longrightarrow> au_read ?b \<le> m" "\<forall>m. rd_maximum_write_bytes r = Some m \<longrightarrow> au_write ?b \<le> m"
    "\<forall>m. rd_maximum_calls r = Some m \<longrightarrow> au_calls ?b \<le> m" "\<forall>m. rd_maximum_parallelism r = Some m \<longrightarrow> au_parallelism ?b \<le> m"
    "\<forall>m. rd_maximum_duration_seconds r = Some m \<longrightarrow> au_duration ?b \<le> m"
    by (simp_all add: reduce_authority_def cap_def)
  ultimately show ?thesis
    unfolding authority_le_def by (intro conjI allI impI ballI) (simp_all, (blast | force)+)
qed

definition surviving :: "reduction list \<Rightarrow> string list \<Rightarrow> string list" where
  "surviving rs = filter (\<lambda>x. list_all (\<lambda>r. x \<notin> set (rd_remove_resources r)) rs)"

lemma au_resources_fold:
  "au_resources (foldl reduce_authority a rs) = map (\<lambda>p. (fst p, surviving rs (snd p))) (au_resources a)"
proof (induction rs arbitrary: a)
  case Nil
  show ?case by (simp add: surviving_def)
next
  case (Cons r rs)
  have "au_resources (reduce_authority a r) = map (\<lambda>p. (fst p, without (snd p) (rd_remove_resources r))) (au_resources a)"
    by (simp add: reduce_authority_def)
  moreover have "surviving rs (without x (rd_remove_resources r)) = surviving (r # rs) x" for x
    by (simp add: surviving_def without_def conj_commute)
  ultimately show ?case by (simp add: Cons.IH)
qed

subsection \<open>What a successful compilation went through\<close>

definition binding_of :: "candidate \<Rightarrow> string \<Rightarrow> string \<times> string list \<times> string list" where
  "binding_of c a = (a, sorted_set (array_get (ct_action_resources c) a), sorted_set (array_get (ct_argument_constraints c) a))"

definition within_rule :: "static_policy \<Rightarrow> candidate \<Rightarrow> string \<Rightarrow> bool" where
  "within_rule p c a \<longleftrightarrow> (\<exists>rule. map_of (sp_operations p) a = Some rule
     \<and> set (array_get (ct_action_resources c) a) \<subseteq> set (or_resources rule)
     \<and> set (array_get (ct_argument_constraints c) a) \<subseteq> set (or_allowed_argument_keys rule) - set (sp_denied_argument_keys p))"

lemma bind_action_Inr: "bind_action p c a = Inr b \<longleftrightarrow> within_rule p c a \<and> b = binding_of c a"
  by (auto simp: bind_action_def within_rule_def binding_of_def res_simps Let_def list_ex_iff split: option.splits)

lemma bind_actions_Inr:
  "sequenceE (map (bind_action p c) as) = Inr bs \<longleftrightarrow> list_all (within_rule p c) as \<and> bs = map (binding_of c) as"
  unfolding sequenceE_Inr_iff map_Inr_list_all2 bind_action_Inr
proof (induction as arbitrary: bs)
  case (Cons a as)
  then show ?case by (cases bs) auto
qed simp

lemma compile_guards_Inr:
  "compile_guards H C t c now = Inr () \<longleftrightarrow>
     0 \<le> now \<and> now \<le> max_safe \<and> \<not> ct_shadow_only c \<and> ct_task_id c = td_task_id t
     \<and> task_fingerprint H t = Inr (ct_task_fingerprint c)
     \<and> ct_policy_version c = td_global_policy_version t \<and> td_global_policy_version t = sp_policy_id (pc_global_policy C)
     \<and> (\<exists>es. map_of (pc_allowed_tenant_environments C) (td_tenant t) = Some es \<and> td_environment t \<in> set es)
     \<and> set (ct_tools c) \<subseteq> fst ` set (pc_tool_actions C) \<and> set (ct_tools c) \<subseteq> set (td_available_tools t)
     \<and> set (ct_actions c) \<subseteq> fst ` set (sp_operations (pc_global_policy C))
     \<and> set (ct_actions c) \<subseteq> set (tool_enabled C (ct_tools c))
     \<and> set (ct_resources c) \<subseteq> set (policy_resources (pc_global_policy C))
     \<and> set (ct_resources c) \<subseteq> set (td_available_resources t)
     \<and> set (ct_network_destinations c) \<subseteq> set (pc_allowed_network_destinations C)
     \<and> set (ct_data_classes c) \<subseteq> set (pc_allowed_data_classes C)"
proof -
  have b: "binding_guard H t c = Inr () \<longleftrightarrow> ct_task_id c = td_task_id t \<and> task_fingerprint H t = Inr (ct_task_fingerprint c)"
    by (auto simp: binding_guard_def res_simps)
  have e: "(case m of None \<Rightarrow> True | Some es \<Rightarrow> x \<notin> set es) \<longleftrightarrow> \<not> (\<exists>es. m = Some es \<and> x \<in> set es)" for m :: "string list option" and x
    by (auto split: option.splits)
  show ?thesis
    unfolding compile_guards_def seqE_Inr_iff e
    by (auto simp: b refuse_Inr_iff unitE_Inr_iff py_nonnegative_Inr_iff)
qed

text \<open>The typed record before validation, its authority and the digests it carries.\<close>

definition final_authority :: "compiler \<Rightarrow> candidate \<Rightarrow> reduction list \<Rightarrow> authority" where
  "final_authority C c rs = foldl reduce_authority (initial_authority C c (map (binding_of c) (ct_actions c))) rs"

definition final_record :: "compiler \<Rightarrow> task_description \<Rightarrow> candidate \<Rightarrow> reduction list \<Rightarrow> int \<Rightarrow> string \<Rightarrow> string \<Rightarrow> compiled" where
  "final_record C t c rs now cd rd =
     ceiling_record C t c (map (binding_of c) (ct_actions c)) (final_authority C c rs) now (ct_task_fingerprint c) cd rd"

lemma compile_Inr_cases:
  assumes "compile H C t c reds approved now = Inr cc"
  obtains rs ap cd rd d where
    "reds = map Some rs" "compile_guards H C t c now = Inr ()" "list_all (within_rule (pc_global_policy C) c) (ct_actions c)"
    "ct_required_trust_tier c \<le> ts_effective_trust (td_provider_attested_trust t)"
    "now < ts_expires_at_ms (td_provider_attested_trust t)"
    "py_strings H (PTuple approved) = Inr ap" "set (required_gates C t c) \<subseteq> set ap" "list_all (reduction_ok ap) rs"
    "now < ceiling_expiry t (final_authority C c rs) now" "0 < au_calls (final_authority C c rs)"
    "0 < au_parallelism (final_authority C c rs)" "kept_resources C (final_authority C c rs) \<noteq> []"
    "digest H (PDict (unsigned_dict (final_record C t c rs now cd rd))) = Inr d"
    "compiled_init H (compiled_args ((final_record C t c rs now cd rd)\<lparr>cp_compiled_digest := d\<rparr>)) = Inr cc"
    "verify_integrity H cc = Inr ()"
proof -
  from assms obtain bs ap a where g: "compile_guards H C t c now = Inr ()"
    and bs: "sequenceE (map (bind_action (pc_global_policy C) c) (ct_actions c)) = Inr bs"
    and tr: "trust_guards t c now = Inr ()" and ap: "py_strings H (PTuple approved) = Inr ap"
    and gates: "set (required_gates C t c) \<subseteq> set ap"
    and a: "apply_reductions ap (initial_authority C c bs) reds = Inr a"
    and fin: "compile_finish H C t c bs a reds now = Inr cc"
    by (auto simp: compile_def bindE_Inr_iff refuse_Inr_iff)
  have rule: "list_all (within_rule (pc_global_policy C) c) (ct_actions c)" and b: "bs = map (binding_of c) (ct_actions c)"
    using bs unfolding bind_actions_Inr by auto
  obtain rs where rs: "reds = map Some rs" "list_all (reduction_ok ap) rs" "a = final_authority C c rs"
    using a unfolding apply_reductions_Inr b final_authority_def by blast
  have fp: "task_fingerprint H t = Inr (ct_task_fingerprint c)" using g by (simp add: compile_guards_Inr)
  from fin obtain cd rd d where
    "now < ceiling_expiry t a now" "0 < au_calls a" "0 < au_parallelism a" "kept_resources C a \<noteq> []"
    "digest H (PDict (unsigned_dict (ceiling_record C t c bs a now (ct_task_fingerprint c) cd rd))) = Inr d"
    "compiled_init H (compiled_args ((ceiling_record C t c bs a now (ct_task_fingerprint c) cd rd)\<lparr>cp_compiled_digest := d\<rparr>)) = Inr cc"
    "verify_integrity H cc = Inr ()"
    by (auto simp: compile_finish_def bindE_Inr_iff refuse_Inr_iff fp Let_def not_le)
  moreover have "ct_required_trust_tier c \<le> ts_effective_trust (td_provider_attested_trust t)"
    "now < ts_expires_at_ms (td_provider_attested_trust t)"
    using tr by (auto simp: trust_guards_def res_simps not_less not_le)
  ultimately show thesis
    using that [OF rs(1) g rule _ _ ap gates rs(2)] unfolding final_record_def b rs(3) by blast
qed

subsection \<open>The fields of the result\<close>

lemma sort_sorted_set [simp]: "sort (sorted_set xs) = sorted_set xs"
  by (simp add: sorted_sort_id)

text \<open>The actions that survive, with the resources and the argument keys they are bound to.\<close>

definition kept_actions :: "compiler \<Rightarrow> candidate \<Rightarrow> reduction list \<Rightarrow> string list" where
  "kept_actions C c rs = filter (\<lambda>a. a \<in> set (au_actions (final_authority C c rs))
     \<and> a \<in> set (tool_enabled C (au_tools (final_authority C c rs)))
     \<and> surviving rs (sorted_set (array_get (ct_action_resources c) a)) \<noteq> []) (ct_actions c)"

lemma kept_resources_final:
  "kept_resources C (final_authority C c rs) =
     map (\<lambda>a. (a, surviving rs (sorted_set (array_get (ct_action_resources c) a)))) (kept_actions C c rs)"
proof -
  have "au_resources (final_authority C c rs) =
      map (\<lambda>a. (a, surviving rs (sorted_set (array_get (ct_action_resources c) a)))) (ct_actions c)"
    by (simp add: final_authority_def au_resources_fold initial_authority_def binding_of_def comp_def case_prod_unfold)
  then show ?thesis by (simp add: kept_resources_def kept_actions_def filter_map comp_def)
qed

lemma sort_key_map_fst: "sort_key fst (map (\<lambda>a. (a, f a)) xs) = map (\<lambda>a. (a, f a)) (sort xs)"
  by (simp add: sort_key_map)

lemma array_get_map: "array_get (map (\<lambda>a. (a, f a)) xs) k = (if k \<in> set xs then f k else [])"
  by (induction xs) (auto simp: array_get_def)

lemma arrays_of_sorted_map:
  "arrays_of (tuples_val (map (\<lambda>a. (a, f a)) (sort xs))) = map (\<lambda>a. (a, sort (f a))) (sort xs)"
  by (simp add: arrays_of_tuples comp_def sort_key_map sorted_sort_id)

lemma compiled_init_build: "compiled_init H g = Inr cc \<Longrightarrow> cc = compiled_build g"
  by (auto simp: compiled_init_def res_simps)

lemma compiled_result:
  assumes cc: "cc = compiled_build (compiled_args ((final_record C t c rs now cd rd)\<lparr>cp_compiled_digest := d\<rparr>))"
  shows "cp_tools cc = sorted_set (au_tools (final_authority C c rs))"
    "cp_actions cc = sorted_set (kept_actions C c rs)"
    "array_get (cp_action_resources cc) a =
       (if a \<in> set (kept_actions C c rs) then sort (surviving rs (sorted_set (array_get (ct_action_resources c) a))) else [])"
    "array_get (cp_argument_constraints cc) a =
       (if a \<in> set (kept_actions C c rs) then sorted_set (array_get (ct_argument_constraints c) a) else [])"
    "cp_network_destinations cc = sorted_set (au_network (final_authority C c rs))"
    "cp_subject_id cc = td_requesting_subject t" "cp_workload_identity cc = td_workload_identity t"
    "cp_tenant cc = td_tenant t" "cp_environment cc = td_environment t"
    "cp_task_id cc = td_task_id t" "cp_task_fingerprint cc = ct_task_fingerprint c"
    "cp_policy_version cc = td_global_policy_version t"
    "cp_maximum_read_bytes cc = au_read (final_authority C c rs)" "cp_maximum_write_bytes cc = au_write (final_authority C c rs)"
    "cp_maximum_calls cc = au_calls (final_authority C c rs)" "cp_maximum_parallelism cc = au_parallelism (final_authority C c rs)"
    "cp_maximum_duration_seconds cc = au_duration (final_authority C c rs)"
    "cp_issued_at_ms cc = now" "cp_expires_at_ms cc = ceiling_expiry t (final_authority C c rs) now"
    "cp_provider_trust cc = ts_effective_trust (td_provider_attested_trust t)"
    "cp_required_trust_tier cc = ct_required_trust_tier c" "cp_schema cc = compiled_schema"
    "cp_human_approval_gates cc = sorted_set (required_gates C t c)" "cp_compiled_digest cc = d"
    "cp_data_classes cc = sorted_set (ct_data_classes c)" "cp_required_attestations cc = sorted_set (ct_required_attestations c)"
proof -
  let ?r = "(final_record C t c rs now cd rd)\<lparr>cp_compiled_digest := d\<rparr>"
  have kept: "map fst (kept_resources C (final_authority C c rs)) = kept_actions C c rs"
    by (simp add: kept_resources_final comp_def)
  then have kept': "fst ` set (kept_resources C (final_authority C c rs)) = set (kept_actions C c rs)"
    by (metis set_map)
  have res: "cp_action_resources ?r = map (\<lambda>a. (a, surviving rs (sorted_set (array_get (ct_action_resources c) a)))) (sort (kept_actions C c rs))"
    by (simp add: final_record_def ceiling_record_def Let_def kept_resources_final sort_key_map_fst)
  have arg: "cp_argument_constraints ?r = map (\<lambda>a. (a, sorted_set (array_get (ct_argument_constraints c) a))) (sort (filter (\<lambda>a. a \<in> set (kept_actions C c rs)) (ct_actions c)))"
    by (simp add: final_record_def ceiling_record_def Let_def kept' filter_map comp_def binding_of_def case_prod_unfold sort_key_map_fst)
  have sub: "set (kept_actions C c rs) \<subseteq> set (ct_actions c)" by (auto simp: kept_actions_def)
  show "array_get (cp_action_resources cc) a =
       (if a \<in> set (kept_actions C c rs) then sort (surviving rs (sorted_set (array_get (ct_action_resources c) a))) else [])"
    by (simp add: cc compiled_build_simps compiled_args_lookup res arrays_of_sorted_map array_get_map del: compiled.simps)
  show "array_get (cp_argument_constraints cc) a =
       (if a \<in> set (kept_actions C c rs) then sorted_set (array_get (ct_argument_constraints c) a) else [])"
    using sub by (auto simp: cc compiled_build_simps compiled_args_lookup arg arrays_of_sorted_map array_get_map simp del: compiled.simps)
  show "cp_actions cc = sorted_set (kept_actions C c rs)"
    by (simp add: cc compiled_build_simps compiled_args_lookup final_record_def ceiling_record_def Let_def kept)
qed (simp_all add: cc compiled_build_simps compiled_args_lookup final_record_def ceiling_record_def Let_def)

lemma final_authority_append_le: "authority_le (final_authority C c (rs @ rs')) (final_authority C c rs)"
  unfolding final_authority_def by (rule reductions.foldl_append_le)

lemma tool_enabled_mono: "set ts \<subseteq> set ts' \<Longrightarrow> set (tool_enabled C ts) \<subseteq> set (tool_enabled C ts')"
  by (auto simp: tool_enabled_def)

lemma surviving_append: "set (surviving (rs @ rs') xs) \<subseteq> set (surviving rs xs)"
  by (auto simp: surviving_def)

lemma kept_actions_append: "set (kept_actions C c (rs @ rs')) \<subseteq> set (kept_actions C c rs)"
proof
  fix a assume a: "a \<in> set (kept_actions C c (rs @ rs'))"
  have le: "authority_le (final_authority C c (rs @ rs')) (final_authority C c rs)" by (rule final_authority_append_le)
  have "surviving rs xs \<noteq> []" if "surviving (rs @ rs') xs \<noteq> []" for xs
    using surviving_append [of rs rs' xs] that by (metis List.set_empty subset_empty)
  then show "a \<in> set (kept_actions C c rs)"
    using a le tool_enabled_mono [of "au_tools (final_authority C c (rs @ rs'))" "au_tools (final_authority C c rs)" C]
    by (auto simp: kept_actions_def authority_le_def)
qed

lemma ceiling_expiry_mono: "au_duration a \<le> au_duration b \<Longrightarrow> ceiling_expiry t a now \<le> ceiling_expiry t b now"
  by (auto simp: ceiling_expiry_def)

lemma compile_Inr_init:
  assumes "compile H C t c reds approved now = Inr cc"
  shows "compiled_init H (compiled_args cc) = Inr cc" "verify_integrity H cc = Inr ()"
  using assms by (auto elim!: compile_Inr_cases dest: compiled_init_args)

lemma within_rule_permits:
  assumes "within_rule p c a" and "r \<in> set (array_get (ct_action_resources c) a)"
    and "ks \<subseteq> set (array_get (ct_argument_constraints c) a)"
  shows "\<exists>rule. map_of (sp_operations p) a = Some rule \<and> r \<in> set (or_resources rule)
    \<and> ks \<subseteq> set (or_allowed_argument_keys rule) - set (sp_denied_argument_keys p)"
  using assms unfolding within_rule_def by blast

subsection \<open>An example compilation\<close>

definition demo_compiler :: compiler where
  "demo_compiler = \<lparr>pc_global_policy = demo_policy, pc_tool_actions = [(''reader'', [''read''])],
     pc_allowed_tenant_environments = [(''default'', [''synthetic''])], pc_allowed_network_destinations = [],
     pc_allowed_data_classes = [''public'', ''internal''], pc_compiler_version = ''c1'', pc_maximum_read_bytes = 1048576,
     pc_maximum_write_bytes = 1048576, pc_maximum_calls = 256, pc_maximum_parallelism = 16,
     pc_maximum_duration_seconds = 300, pc_mandatory_human_approval_gates = []\<rparr>"

definition demo_reduction :: reduction where
  "demo_reduction = \<lparr>rd_source = ''guardian'', rd_remove_tools = [], rd_remove_actions = [], rd_remove_resources = [''y''],
     rd_remove_network_destinations = [], rd_maximum_read_bytes = None, rd_maximum_write_bytes = None,
     rd_maximum_calls = Some 2, rd_maximum_parallelism = None, rd_maximum_duration_seconds = None,
     rd_require_reattestation = False, rd_require_human_approval = False, rd_revoke = False\<rparr>"

definition demo_ceiling :: "int \<Rightarrow> compiled" where
  "demo_ceiling calls =
     \<lparr>cp_schema = compiled_schema, cp_ceiling_id = demo_id, cp_task_id = ''r1'', cp_task_fingerprint = demo_digest,
      cp_subject_id = ''a1'', cp_workload_identity = ''e1'', cp_tenant = ''default'', cp_environment = ''synthetic'',
      cp_synthesizer_version = ''v1'', cp_compiler_version = ''c1'', cp_policy_version = ''p1'',
      cp_candidate_digest = demo_digest, cp_provider_attestation_digest = demo_digest, cp_provider_bundle_digest = demo_digest,
      cp_provider_key_id = ''k1'', cp_provider_method = ''static-development'', cp_provider_trust = Software,
      cp_required_trust_tier = Simulated, cp_tools = [''reader''], cp_actions = [''read''],
      cp_action_resources = [(''read'', [''x''])], cp_argument_constraints = [(''read'', [''k'', ''n''])],
      cp_network_destinations = [], cp_data_classes = [''internal''], cp_maximum_read_bytes = 4096,
      cp_maximum_write_bytes = 0, cp_maximum_calls = calls, cp_maximum_parallelism = 1, cp_maximum_duration_seconds = 60,
      cp_required_attestations = [''executor''], cp_human_approval_gates = [], cp_decay_profile = ''short-lived-default'',
      cp_guardian_reductions_digest = demo_digest, cp_issued_at_ms = 100000, cp_expires_at_ms = 160000,
      cp_compiled_digest = demo_digest\<rparr>"

lemma demo_candidate_simps:
  "demo_candidate =
      \<lparr>ct_ceiling_id = demo_id, ct_task_id = ''r1'', ct_task_fingerprint = demo_digest,
       ct_synthesizer_version = ''v1'', ct_model_version = ''none'', ct_policy_version = ''p1'', ct_confidence_bps = 10000,
       ct_tools = [''reader''], ct_actions = [''read''], ct_resources = [''x''], ct_action_resources = [(''read'', [''x''])],
       ct_argument_constraints = [(''read'', [''k'', ''n''])], ct_network_destinations = [], ct_data_classes = [''internal''],
       ct_maximum_read_bytes = 4096, ct_maximum_write_bytes = 0, ct_maximum_calls = 4, ct_maximum_parallelism = 1,
       ct_maximum_duration_seconds = 60, ct_required_trust_tier = Simulated, ct_required_attestations = [''executor''],
       ct_human_approval_gates = [], ct_decay_profile = ''short-lived-default'',
       ct_rationale_codes = [''approved-static-template'', ''deterministic-risk-rules''], ct_evidence_refs = [],
       ct_fallback_used = False, ct_shadow_only = False\<rparr>"
  unfolding demo_candidate_def template_candidate_def demo_synthesizer_def demo_task_def
  by (simp add: template_tools_def template_bindings_def template_resources_def array_get_def all_values_def sorted_set_def
        sensitive_task_def)

lemma demo_id_ok: "demo_id \<noteq> []" "ascii demo_id" "length demo_id \<le> 256" "length demo_id \<le> 16384"
  by (simp_all add: demo_id_def demo_digest_def ascii_def list_all_iff)

lemma demo_texts:
  "py_text demo_host (PStr compiled_schema) 256 = Inr compiled_schema" "py_text demo_host (PStr demo_id) 256 = Inr demo_id"
  "py_text demo_host (PStr ''r1'') 256 = Inr ''r1''" "py_text demo_host (PStr ''a1'') 256 = Inr ''a1''"
  "py_text demo_host (PStr ''e1'') 256 = Inr ''e1''" "py_text demo_host (PStr ''default'') 256 = Inr ''default''"
  "py_text demo_host (PStr ''synthetic'') 256 = Inr ''synthetic''" "py_text demo_host (PStr ''v1'') 256 = Inr ''v1''"
  "py_text demo_host (PStr ''c1'') 256 = Inr ''c1''" "py_text demo_host (PStr ''p1'') 256 = Inr ''p1''"
  "py_text demo_host (PStr ''k1'') 256 = Inr ''k1''" "py_text demo_host (PStr ''static-development'') 256 = Inr ''static-development''"
  "py_text demo_host (PStr ''short-lived-default'') 256 = Inr ''short-lived-default''"
  by (simp_all add: demo_py_text demo_id_ok) (simp_all add: demo_py_text ascii_def compiled_schema_def)

lemma demo_ceiling_args:
  assumes "0 \<le> n" and "n \<le> 1000"
  shows "compiled_init demo_host (compiled_args (demo_ceiling n)) = Inr (demo_ceiling n)"
proof -
  have strs: "py_strings demo_host (PTexts []) = Inr []" "py_strings demo_host (PTexts [''reader'']) = Inr [''reader'']"
    "py_strings demo_host (PTexts [''read'']) = Inr [''read'']" "py_strings demo_host (PTexts [''internal'']) = Inr [''internal'']"
    "py_strings demo_host (PTexts [''executor'']) = Inr [''executor'']"
    by (simp_all add: demo_py_strings ascii_def)
  have arrs: "okE (string_arrays demo_host (tuples_val [(''read'', [''x''])]))"
    "okE (string_arrays demo_host (tuples_val [(''read'', [''k'', ''n''])]))"
    by (intro demo_string_arrays; simp add: ascii_def)+
  have "compiled_checks demo_host (compiled_args (demo_ceiling n)) = Inr ()"
    unfolding compiled_checks_iff compiled_args_lookup demo_ceiling_def
    using arrs assms
    by (simp add: compiled_texts_def compiled_digests_def compiled_strings_def array_map_fields_def compiled_ints_def
        compiled_args_lookup okE_iff demo_texts demo_py_digest strs py_nonnegative_Inr_iff max_safe_def in_tiers_iff
        arrays_of_tuples del: tier_name.simps)
  moreover have "compiled_build (compiled_args (demo_ceiling n)) = demo_ceiling n"
    unfolding compiled_build_def compiled_args_lookup demo_ceiling_def
    by (simp add: arrays_of_tuples del: tier_name.simps)
  ultimately show ?thesis by (simp add: compiled_init_def)
qed

lemma demo_ceiling_digest:
  assumes "0 \<le> n" and "n \<le> 1000"
  shows "digest demo_host (PDict (unsigned_dict (demo_ceiling n))) = Inr demo_digest"
proof (rule digest_demo)
  have "distinct (map fst (unsigned_dict (demo_ceiling n)))" "length (unsigned_dict (demo_ceiling n)) = 35"
    by (simp_all add: unsigned_dict_def)
  moreover have "list_all ascii (map fst (unsigned_dict (demo_ceiling n)))"
    "list_all (\<lambda>k. length k \<le> 16384) (map fst (unsigned_dict (demo_ceiling n)))"
    by (simp_all add: unsigned_dict_def ascii_def)
  moreover have "list_all (\<lambda>v. list_all demo_value_ok (subvalues 1 v)) (map snd (unsigned_dict (demo_ceiling n)))"
    unfolding unsigned_dict_def demo_ceiling_def
    using assms
    by (simp add: demo_value_ok_def PStrs_def arrays_val_def demo_id_ok)
      (simp add: ascii_def compiled_schema_def)
  ultimately show "list_all demo_value_ok (subvalues 0 (PDict (unsigned_dict (demo_ceiling n))))"
    by (fastforce simp: list_all_iff demo_value_ok_def)
qed

lemma demo_integrity: "0 \<le> n \<Longrightarrow> n \<le> 1000 \<Longrightarrow> verify_integrity demo_host (demo_ceiling n) = Inr ()"
  by (simp add: verify_integrity_def demo_ceiling_digest) (simp add: demo_ceiling_def)

lemma demo_bindings:
  "sequenceE (map (bind_action demo_policy demo_candidate) (ct_actions demo_candidate)) = Inr [(''read'', [''x''], [''k'', ''n''])]"
  unfolding bind_actions_Inr
  by (simp add: demo_candidate_simps within_rule_def binding_of_def demo_policy_def array_get_def sorted_set_def
      default_denied_argument_keys_def)

lemma demo_guards: "compile_guards demo_host demo_compiler demo_task demo_candidate 100000 = Inr ()"
  unfolding compile_guards_Inr
  by (simp add: demo_fingerprint demo_candidate_simps demo_compiler_def)
    (simp add: demo_task_def demo_policy_def max_safe_def tool_enabled_def array_get_def policy_resources_def)

lemma demo_trust_guards: "trust_guards demo_task demo_candidate 100000 = Inr ()"
  by (simp add: trust_guards_def res_simps demo_task_def demo_candidate_simps demo_trust_def tier_less_iff)

lemma demo_candidate_digest: "digest demo_host (PDict (candidate_to_dict demo_candidate)) = Inr demo_digest"
  by (rule digest_demo) code_simp

lemma demo_compile_finish:
  assumes "reds = [] \<and> n = 4 \<or> reds = [Some demo_reduction] \<and> n = 2"
    and "a = initial_authority demo_compiler demo_candidate [(''read'', [''x''], [''k'', ''n''])]"
    and "a' = (if reds = [] then a else reduce_authority a demo_reduction)"
  shows "compile_finish demo_host demo_compiler demo_task demo_candidate [(''read'', [''x''], [''k'', ''n''])] a' reds 100000
    = Inr (demo_ceiling n)"
proof -
  have a': "a' = \<lparr>au_tools = [''reader''], au_actions = [''read''], au_network = [], au_resources = [(''read'', [''x''])],
      au_read = 4096, au_write = 0, au_calls = n, au_parallelism = 1, au_duration = 60\<rparr>"
    using assms by (auto simp: initial_authority_def demo_candidate_simps demo_compiler_def reduce_authority_def
        demo_reduction_def without_def cap_def)
  have kept: "kept_resources demo_compiler a' = [(''read'', [''x''])]"
    by (simp add: kept_resources_def a' tool_enabled_def demo_compiler_def array_get_def)
  have ex: "ceiling_expiry demo_task a' 100000 = 160000"
    by (simp add: ceiling_expiry_def a' demo_task_def demo_trust_def)
  have rd: "digest demo_host (PList (map (\<lambda>r. PDict (reduction_to_dict r)) (List.map_filter id reds))) = Inr demo_digest"
  proof (rule digest_demo)
    have "list_all demo_value_ok (subvalues 0 (PList []))"
      "list_all demo_value_ok (subvalues 0 (PList [PDict (reduction_to_dict demo_reduction)]))"
      by (code_simp, code_simp)
    then show "list_all demo_value_ok (subvalues 0 (PList (map (\<lambda>r. PDict (reduction_to_dict r)) (List.map_filter id reds))))"
      using assms(1) by (auto simp: List.map_filter_def)
  qed
  have rec: "(ceiling_record demo_compiler demo_task demo_candidate [(''read'', [''x''], [''k'', ''n''])] a' 100000
      demo_digest demo_digest demo_digest)\<lparr>cp_compiled_digest := demo_digest\<rparr> = demo_ceiling n"
    unfolding ceiling_record_def Let_def kept ex demo_ceiling_def
    by (simp add: a' demo_candidate_simps demo_compiler_def demo_task_def demo_trust_def sorted_set_def required_gates_def)
  have uns: "unsigned_dict (r\<lparr>cp_compiled_digest := d\<rparr>) = unsigned_dict r" for r d
    by (simp add: unsigned_dict_def)
  have n: "0 < n" "n \<le> 1000" using assms(1) by auto
  have ud: "digest demo_host (PDict (unsigned_dict (ceiling_record demo_compiler demo_task demo_candidate
      [(''read'', [''x''], [''k'', ''n''])] a' 100000 demo_digest demo_digest demo_digest))) = Inr demo_digest"
    using demo_ceiling_digest [of n] n unfolding rec [symmetric] uns by simp
  show ?thesis
    using n unfolding compile_finish_def ex kept rd demo_fingerprint demo_candidate_digest
    by (simp add: refuse_def a' ud [unfolded a'] rec [unfolded a'] demo_ceiling_args demo_integrity Let_def)
qed

lemma demo_compile:
  "compile demo_host demo_compiler demo_task demo_candidate [] [] 100000 = Inr (demo_ceiling 4)"
  "compile demo_host demo_compiler demo_task demo_candidate [Some demo_reduction] [] 100000 = Inr (demo_ceiling 2)"
proof -
  have pol: "pc_global_policy demo_compiler = demo_policy" by (simp add: demo_compiler_def)
  have s: "py_strings demo_host (PTuple []) = Inr []" by (simp add: py_strings_iff good_strings_def MAX_COLLECTION_def)
  have g: "required_gates demo_compiler demo_task demo_candidate = []"
    by (simp add: required_gates_def demo_compiler_def demo_task_def demo_candidate_simps)
  have r: "reduction_ok [] demo_reduction" by (simp add: reduction_ok_def demo_reduction_def)
  show "compile demo_host demo_compiler demo_task demo_candidate [] [] 100000 = Inr (demo_ceiling 4)"
    "compile demo_host demo_compiler demo_task demo_candidate [Some demo_reduction] [] 100000 = Inr (demo_ceiling 2)"
    unfolding compile_def demo_guards pol demo_bindings demo_trust_guards s
    using r by (simp_all add: g refuse_def demo_compile_finish apply_reduction_Inr [THEN iffD2])
qed

lemma economy_ratio_bounds: "0 \<le> economy_ratio e i r \<and> economy_ratio e i r \<le> 1000"
proof -
  have "0 \<le> int (size_of (i @ r)) * 1000 div int (size_of e)"
    by (cases "size_of e = 0") (simp_all add: pos_imp_zdiv_nonneg_iff)
  then show ?thesis by (auto simp: economy_ratio_def)
qed

lemma risk_exposure_nonneg: "0 \<le> risk_exposure w e"
  unfolding risk_exposure_def by (rule sum_list_nonneg) auto

lemma composite_score_bounds:
  assumes "0 \<le> risk" and "0 \<le> ratio \<and> ratio \<le> 1000" and "0 \<le> esc"
  shows "0 \<le> composite_score tc ratio risk k den atk esc \<and> composite_score tc ratio risk k den atk esc \<le> 1000
    \<and> (atk \<longrightarrow> composite_score tc ratio risk k den atk esc = 0)"
proof -
  let ?c = "if tc then 1000 else 0 :: int" and ?l = "max 0 (1000 - int k * 125 - risk * 10)"
  let ?q = "(?c * 5 + ?l * 3 + ratio * 2) div 10" and ?e = "min 300 (esc * 50)"
  have "?c \<le> 1000" "?l \<le> 1000" using assms(1) by auto
  moreover have "c \<le> 1000 \<Longrightarrow> l \<le> 1000 \<Longrightarrow> r \<le> 1000 \<Longrightarrow> c * 5 + l * 3 + r * 2 \<le> 10000" for c l r :: int
    by simp
  ultimately have "?c * 5 + ?l * 3 + ratio * 2 \<le> 10000" using assms(2) by blast
  moreover have "x \<le> 10000 \<Longrightarrow> x div 10 \<le> 1000" for x :: int by linarith
  ultimately have q: "?q \<le> 1000" by blast
  have e: "0 \<le> ?e" using assms(3) by simp
  have bound: "0 \<le> max 0 (q - (if d then 300 else 0) - (if a then 1000 else 0) - e)
      \<and> max 0 (q - (if d then 300 else 0) - (if a then 1000 else 0) - e) \<le> 1000
      \<and> (a \<longrightarrow> max 0 (q - (if d then 300 else 0) - (if a then 1000 else 0) - e) = 0)"
    if "q \<le> 1000" "0 \<le> e" for q e :: int and a d
    using that by (cases a; cases d) auto
  show ?thesis unfolding composite_score_def Let_def by (rule bound [OF q e])
qed

section \<open>Properties\<close>

text \<open>
  The bounds of a ceiling, dimension by dimension: the candidate, the inventories, the deadline and the trust of the task, and the maxima and
  allow lists of the compiler.
\<close>

definition ceiling_within :: "compiler \<Rightarrow> task_description \<Rightarrow> candidate \<Rightarrow> int \<Rightarrow> compiled \<Rightarrow> bool" where
  "ceiling_within C t c now cc \<longleftrightarrow>
     set (cp_tools cc) \<subseteq> set (ct_tools c) \<inter> set (td_available_tools t) \<inter> fst ` set (pc_tool_actions C)
   \<and> set (cp_actions cc) \<subseteq> set (ct_actions c) \<inter> fst ` set (sp_operations (pc_global_policy C)) \<inter> set (tool_enabled C (cp_tools cc))
   \<and> (\<forall>a. set (array_get (cp_action_resources cc) a) \<subseteq> set (array_get (ct_action_resources c) a) \<inter> set (td_available_resources t)
        \<and> set (array_get (cp_argument_constraints cc) a) \<subseteq> set (array_get (ct_argument_constraints c) a))
   \<and> (\<forall>a \<in> set (cp_actions cc). \<exists>rule. map_of (sp_operations (pc_global_policy C)) a = Some rule
        \<and> set (array_get (cp_action_resources cc) a) \<subseteq> set (or_resources rule)
        \<and> set (array_get (cp_argument_constraints cc) a) \<subseteq> set (or_allowed_argument_keys rule) - set (sp_denied_argument_keys (pc_global_policy C)))
   \<and> set (cp_network_destinations cc) \<subseteq> set (ct_network_destinations c) \<inter> set (pc_allowed_network_destinations C)
   \<and> set (cp_data_classes cc) \<subseteq> set (ct_data_classes c) \<inter> set (pc_allowed_data_classes C)
   \<and> cp_maximum_read_bytes cc \<le> min (ct_maximum_read_bytes c) (pc_maximum_read_bytes C)
   \<and> cp_maximum_write_bytes cc \<le> min (ct_maximum_write_bytes c) (pc_maximum_write_bytes C)
   \<and> cp_maximum_calls cc \<le> min (ct_maximum_calls c) (pc_maximum_calls C)
   \<and> cp_maximum_parallelism cc \<le> min (ct_maximum_parallelism c) (pc_maximum_parallelism C)
   \<and> cp_maximum_duration_seconds cc \<le> min (ct_maximum_duration_seconds c) (pc_maximum_duration_seconds C)
   \<and> cp_expires_at_ms cc \<le> now + 1000 * cp_maximum_duration_seconds cc
   \<and> cp_expires_at_ms cc \<le> td_requested_completion_deadline_ms t \<and> cp_expires_at_ms cc \<le> ts_expires_at_ms (td_provider_attested_trust t)
   \<and> cp_tenant cc = td_tenant t \<and> cp_environment cc = td_environment t
   \<and> cp_required_trust_tier cc = ct_required_trust_tier c \<and> set (cp_required_attestations cc) = set (ct_required_attestations c)
   \<and> set (cp_human_approval_gates cc) = set (required_gates C t c)"

lemma candidate_init_resources: "candidate_init H g = Inr c \<Longrightarrow> set (array_get (ct_action_resources c) a) \<subseteq> set (ct_resources c)"
proof -
  assume "candidate_init H g = Inr c"
  then have "set (concat (map snd (ct_action_resources c))) \<subseteq> set (ct_resources c)"
    unfolding candidate_init_iff candidate_checks_def seqE_Inr_iff
    by (elim conjE, hypsubst) (simp add: candidate_build_simps checkE_Inr_iff)
  then show ?thesis by (cases "map_of (ct_action_resources c) a") (force simp: array_get_def dest: map_of_SomeD)+
qed

lemma compile_within:
  assumes "compile H C t c reds approved now = Inr cc" and "candidate_init H g = Inr c"
  shows "ceiling_within C t c now cc"
proof -
  obtain rs cd rd d where guards: "compile_guards H C t c now = Inr ()" and rule: "list_all (within_rule (pc_global_policy C) c) (ct_actions c)"
    and i: "compiled_init H (compiled_args ((final_record C t c rs now cd rd)\<lparr>cp_compiled_digest := d\<rparr>)) = Inr cc"
    using assms(1) by (rule compile_Inr_cases) blast
  note res = compiled_result [OF compiled_init_build [OF i]]
  have le: "authority_le (final_authority C c rs) (initial_authority C c (map (binding_of c) (ct_actions c)))"
    unfolding final_authority_def by (rule reductions.foldl_le)
  then have tools: "set (cp_tools cc) \<subseteq> set (ct_tools c)" and net: "set (cp_network_destinations cc) \<subseteq> set (ct_network_destinations c)"
    and caps: "cp_maximum_read_bytes cc \<le> min (ct_maximum_read_bytes c) (pc_maximum_read_bytes C)"
      "cp_maximum_write_bytes cc \<le> min (ct_maximum_write_bytes c) (pc_maximum_write_bytes C)"
      "cp_maximum_calls cc \<le> min (ct_maximum_calls c) (pc_maximum_calls C)"
      "cp_maximum_parallelism cc \<le> min (ct_maximum_parallelism c) (pc_maximum_parallelism C)"
      "cp_maximum_duration_seconds cc \<le> min (ct_maximum_duration_seconds c) (pc_maximum_duration_seconds C)"
    by (simp_all add: authority_le_def initial_authority_def res)
  have kept: "set (kept_actions C c rs) \<subseteq> set (ct_actions c) \<inter> set (tool_enabled C (cp_tools cc))"
    by (auto simp: kept_actions_def res tool_enabled_def)
  have resources: "set (array_get (cp_action_resources cc) a) \<subseteq> set (array_get (ct_action_resources c) a)"
    "set (array_get (cp_argument_constraints cc) a) \<subseteq> set (array_get (ct_argument_constraints c) a)" for a
    by (auto simp: res surviving_def)
  have rules: "within_rule (pc_global_policy C) c a" if "a \<in> set (cp_actions cc)" for a
    using that kept rule by (auto simp: res list_all_iff)
  have av: "set (array_get (ct_action_resources c) a) \<subseteq> set (td_available_resources t)" for a
    using candidate_init_resources [OF assms(2)] guards unfolding compile_guards_Inr by blast
  show ?thesis
    unfolding ceiling_within_def
  proof (intro conjI allI ballI)
    show "\<exists>rule. map_of (sp_operations (pc_global_policy C)) a = Some rule
        \<and> set (array_get (cp_action_resources cc) a) \<subseteq> set (or_resources rule)
        \<and> set (array_get (cp_argument_constraints cc) a) \<subseteq> set (or_allowed_argument_keys rule) - set (sp_denied_argument_keys (pc_global_policy C))"
      if "a \<in> set (cp_actions cc)" for a
      using rules [OF that] resources unfolding within_rule_def by blast
    show "set (array_get (cp_action_resources cc) a) \<subseteq> set (array_get (ct_action_resources c) a) \<inter> set (td_available_resources t)" for a
      using resources av by blast
  qed (use tools net caps kept resources guards in \<open>auto simp: res compile_guards_Inr ceiling_expiry_def\<close>)
qed

text \<open>
  C28: compiled authority exceeds neither the policy nor the task nor the candidate. A ceiling compiled from a candidate that its
  constructor made stays, in every dimension, inside the candidate, the tools, resources, deadline and attested trust of the
  task, and the tools, operations, resources, argument keys, destinations, data classes and five numeric maxima of the
  compiler and its static policy; it carries the tenant, environment, tier, attestations and all approval gates. So a
  request it permits comes from the subject and the workload of the task and, when the static policy lists that agent and
  executor, is one the static policy permits.
\<close>

theorem compiled_within_policy:
  assumes "compile H C t c reds approved now = Inr cc" and "candidate_init H g = Inr c"
  shows "ceiling_within C t c now cc
    \<and> (\<forall>r. permits H cc r = Inr True \<longrightarrow> ar_agent_id r = td_requesting_subject t \<and> ar_executor_id r = td_workload_identity t
         \<and> (ar_agent_id r \<in> set (sp_allowed_agents (pc_global_policy C)) \<and> ar_executor_id r \<in> set (sp_allowed_executors (pc_global_policy C))
            \<longrightarrow> policy_permits (pc_global_policy C) r))"
proof (intro conjI allI impI)
  show w: "ceiling_within C t c now cc" using assms by (rule compile_within)
  fix r
  assume "permits H cc r = Inr True"
  then have p: "ar_agent_id r = cp_subject_id cc" "ar_executor_id r = cp_workload_identity cc" "ar_operation r \<in> set (cp_actions cc)"
    "ar_resource_id r \<in> set (array_get (cp_action_resources cc) (ar_operation r))"
    "fst ` set (ar_arguments r) \<subseteq> set (array_get (cp_argument_constraints cc) (ar_operation r))"
    by (auto simp: permits_def res_simps)
  obtain rs cd rd d where i: "compiled_init H (compiled_args ((final_record C t c rs now cd rd)\<lparr>cp_compiled_digest := d\<rparr>)) = Inr cc"
    using assms(1) by (rule compile_Inr_cases) blast
  note res = compiled_result [OF compiled_init_build [OF i]]
  show "ar_agent_id r = td_requesting_subject t" "ar_executor_id r = td_workload_identity t" using p(1,2) res(6,7) by simp_all
  assume "ar_agent_id r \<in> set (sp_allowed_agents (pc_global_policy C)) \<and> ar_executor_id r \<in> set (sp_allowed_executors (pc_global_policy C))"
  moreover obtain rule where "map_of (sp_operations (pc_global_policy C)) (ar_operation r) = Some rule"
    "set (array_get (cp_action_resources cc) (ar_operation r)) \<subseteq> set (or_resources rule)"
    "set (array_get (cp_argument_constraints cc) (ar_operation r)) \<subseteq> set (or_allowed_argument_keys rule) - set (sp_denied_argument_keys (pc_global_policy C))"
    using w p(3) unfolding ceiling_within_def by blast
  ultimately show "policy_permits (pc_global_policy C) r" using p(4,5) by (auto simp: policy_permits_def)
qed

theorem compiled_within_policy_witness:
  "ceiling_within demo_compiler demo_task demo_candidate 100000 (demo_ceiling 4)
    \<and> policy_permits demo_policy demo_request \<and> ar_agent_id demo_request = td_requesting_subject demo_task"
proof -
  have "permits demo_host (demo_ceiling 4) demo_request = Inr True"
    by (simp add: permits_def demo_integrity) (simp add: demo_ceiling_def demo_request_def array_get_def)
  moreover have "pc_global_policy demo_compiler = demo_policy" "ar_agent_id demo_request \<in> set (sp_allowed_agents demo_policy)"
    "ar_executor_id demo_request \<in> set (sp_allowed_executors demo_policy)"
    by (simp_all add: demo_compiler_def demo_policy_def demo_request_def)
  ultimately show ?thesis using compiled_within_policy [OF demo_compile(1) demo_candidate_ok] by metis
qed

text \<open>
  C29: guardian reductions only narrow. Compiling the same candidate with further reductions either fails or
  gives a ceiling with no more tools, actions, resources or argument keys per action, network destinations, budgets
  or lifetime; and every tool, action, resource and network destination a reduction removes is absent from the
  result, each of its five caps (read bytes, write bytes, calls, parallelism, duration) holds in the result, the
  duration also of its lifetime, and none of the reductions revokes.
\<close>

theorem reductions_only_narrow:
  assumes "compile H C t c reds approved now = Inr cc" and "compile H C t c (reds @ extra) approved now = Inr cc'"
  shows "set (cp_tools cc') \<subseteq> set (cp_tools cc) \<and> set (cp_actions cc') \<subseteq> set (cp_actions cc)
    \<and> (\<forall>a. set (array_get (cp_action_resources cc') a) \<subseteq> set (array_get (cp_action_resources cc) a))
    \<and> (\<forall>a. set (array_get (cp_argument_constraints cc') a) \<subseteq> set (array_get (cp_argument_constraints cc) a))
    \<and> set (cp_network_destinations cc') \<subseteq> set (cp_network_destinations cc)
    \<and> cp_maximum_read_bytes cc' \<le> cp_maximum_read_bytes cc \<and> cp_maximum_write_bytes cc' \<le> cp_maximum_write_bytes cc
    \<and> cp_maximum_calls cc' \<le> cp_maximum_calls cc \<and> cp_maximum_parallelism cc' \<le> cp_maximum_parallelism cc
    \<and> cp_maximum_duration_seconds cc' \<le> cp_maximum_duration_seconds cc \<and> cp_expires_at_ms cc' \<le> cp_expires_at_ms cc
    \<and> (\<forall>r. Some r \<in> set (reds @ extra) \<longrightarrow>
         set (cp_tools cc') \<inter> set (rd_remove_tools r) = {} \<and> set (cp_actions cc') \<inter> set (rd_remove_actions r) = {}
         \<and> (\<forall>a. set (array_get (cp_action_resources cc') a) \<inter> set (rd_remove_resources r) = {})
         \<and> set (cp_network_destinations cc') \<inter> set (rd_remove_network_destinations r) = {}
         \<and> (\<forall>m. rd_maximum_read_bytes r = Some m \<longrightarrow> cp_maximum_read_bytes cc' \<le> m)
         \<and> (\<forall>m. rd_maximum_write_bytes r = Some m \<longrightarrow> cp_maximum_write_bytes cc' \<le> m)
         \<and> (\<forall>m. rd_maximum_calls r = Some m \<longrightarrow> cp_maximum_calls cc' \<le> m)
         \<and> (\<forall>m. rd_maximum_parallelism r = Some m \<longrightarrow> cp_maximum_parallelism cc' \<le> m)
         \<and> (\<forall>m. rd_maximum_duration_seconds r = Some m \<longrightarrow> cp_maximum_duration_seconds cc' \<le> m \<and> cp_expires_at_ms cc' \<le> now + m * 1000)
         \<and> \<not> rd_revoke r)"
proof -
  obtain rs cd rd d where rs: "reds = map Some rs"
    and i: "compiled_init H (compiled_args ((final_record C t c rs now cd rd)\<lparr>cp_compiled_digest := d\<rparr>)) = Inr cc"
    using assms(1) by (rule compile_Inr_cases) blast
  obtain rs' ap cd' rd' d' where rs': "reds @ extra = map Some rs'" and ok: "list_all (reduction_ok ap) rs'"
    and i': "compiled_init H (compiled_args ((final_record C t c rs' now cd' rd')\<lparr>cp_compiled_digest := d'\<rparr>)) = Inr cc'"
    using assms(2) by (rule compile_Inr_cases) blast
  note res = compiled_result [OF compiled_init_build [OF i]]
  note res' = compiled_result [OF compiled_init_build [OF i']]
  obtain ms where ms: "rs' = rs @ ms"
    using rs rs' by (metis append_eq_map_conv inj_Some map_injective)
  have le: "authority_le (final_authority C c rs') (final_authority C c rs)"
    unfolding ms by (rule final_authority_append_le)
  have kept: "set (kept_actions C c rs') \<subseteq> set (kept_actions C c rs)" unfolding ms by (rule kept_actions_append)
  have surv: "set (surviving rs' xs) \<subseteq> set (surviving rs xs)" for xs unfolding ms by (rule surviving_append)
  have exp: "ceiling_expiry t (final_authority C c rs') now \<le> ceiling_expiry t (final_authority C c rs) now"
    using le by (intro ceiling_expiry_mono) (simp add: authority_le_def)
  have act: "set (kept_actions C c rs') \<subseteq> set (au_actions (final_authority C c rs'))" by (auto simp: kept_actions_def)
  have narrowed: "set (cp_tools cc') \<subseteq> set (cp_tools cc)" "set (cp_actions cc') \<subseteq> set (cp_actions cc)"
    "\<forall>a. set (array_get (cp_action_resources cc') a) \<subseteq> set (array_get (cp_action_resources cc) a)"
    "\<forall>a. set (array_get (cp_argument_constraints cc') a) \<subseteq> set (array_get (cp_argument_constraints cc) a)"
    "set (cp_network_destinations cc') \<subseteq> set (cp_network_destinations cc)"
    "cp_maximum_read_bytes cc' \<le> cp_maximum_read_bytes cc" "cp_maximum_write_bytes cc' \<le> cp_maximum_write_bytes cc"
    "cp_maximum_calls cc' \<le> cp_maximum_calls cc" "cp_maximum_parallelism cc' \<le> cp_maximum_parallelism cc"
    "cp_maximum_duration_seconds cc' \<le> cp_maximum_duration_seconds cc" "cp_expires_at_ms cc' \<le> cp_expires_at_ms cc"
    using le kept surv exp unfolding res res' set_sorted_set authority_le_def by (auto split: if_splits)
  have removed: "set (cp_tools cc') \<inter> set (rd_remove_tools r) = {}" "set (cp_actions cc') \<inter> set (rd_remove_actions r) = {}"
    "\<forall>a. set (array_get (cp_action_resources cc') a) \<inter> set (rd_remove_resources r) = {}"
    "set (cp_network_destinations cc') \<inter> set (rd_remove_network_destinations r) = {}"
    "\<forall>m. rd_maximum_read_bytes r = Some m \<longrightarrow> cp_maximum_read_bytes cc' \<le> m"
    "\<forall>m. rd_maximum_write_bytes r = Some m \<longrightarrow> cp_maximum_write_bytes cc' \<le> m"
    "\<forall>m. rd_maximum_calls r = Some m \<longrightarrow> cp_maximum_calls cc' \<le> m"
    "\<forall>m. rd_maximum_parallelism r = Some m \<longrightarrow> cp_maximum_parallelism cc' \<le> m"
    "\<forall>m. rd_maximum_duration_seconds r = Some m \<longrightarrow> cp_maximum_duration_seconds cc' \<le> m \<and> cp_expires_at_ms cc' \<le> now + m * 1000"
    "\<not> rd_revoke r" if "Some r \<in> set (reds @ extra)" for r
  proof -
    have r: "r \<in> set rs'" using that unfolding rs' by auto
    note removes = reduce_removes [OF r, of "initial_authority C c (map (binding_of c) (ct_actions c))", folded final_authority_def]
    have short: "au_duration a \<le> m \<Longrightarrow> ceiling_expiry t a now \<le> now + m * 1000" for a m by (auto simp: ceiling_expiry_def)
    show "\<not> rd_revoke r" using r ok by (auto simp: list_all_iff reduction_ok_def)
    show "\<forall>a. set (array_get (cp_action_resources cc') a) \<inter> set (rd_remove_resources r) = {}"
      using r by (auto simp: res' surviving_def list_all_iff)
    show "set (cp_tools cc') \<inter> set (rd_remove_tools r) = {}" "set (cp_network_destinations cc') \<inter> set (rd_remove_network_destinations r) = {}"
      using removes unfolding res' set_sorted_set by blast+
    show "set (cp_actions cc') \<inter> set (rd_remove_actions r) = {}" using removes act unfolding res' set_sorted_set by blast
    show "\<forall>m. rd_maximum_duration_seconds r = Some m \<longrightarrow> cp_maximum_duration_seconds cc' \<le> m \<and> cp_expires_at_ms cc' \<le> now + m * 1000"
      using removes short unfolding res' by blast
  qed (use reduce_removes [of r rs'] that in \<open>auto simp: res' rs' final_authority_def\<close>)
  show ?thesis using narrowed removed by (intro conjI allI impI) simp_all
qed

theorem reductions_only_narrow_witness:
  "cp_maximum_calls (demo_ceiling 2) \<le> cp_maximum_calls (demo_ceiling 4)
    \<and> set (array_get (cp_action_resources (demo_ceiling 2)) ''read'') \<inter> set (rd_remove_resources demo_reduction) = {}"
  using reductions_only_narrow [OF demo_compile(1), of "[Some demo_reduction]"] demo_compile(2) by simp

text \<open>
  C30: what must hold before authority is granted. A successful compilation means: the candidate is no shadow
  output and is bound to this task (id, fingerprint, and the policy version of the task, which is that of the global
  policy), the tenant may use the environment, the provider-derived trust reaches the required tier and has not expired,
  every human gate of the candidate, the task and the compiler is approved, \<open>guardian-review\<close> too when a guardian requires
  human approval, no guardian asked for revocation or a fresh attestation, and calls and parallelism are positive.
  In particular a fallback ceiling, which has no calls, never compiles.
\<close>

theorem compile_preconditions:
  assumes "compile H C t c reds approved now = Inr cc"
  shows "\<not> ct_shadow_only c \<and> ct_task_id c = td_task_id t \<and> task_fingerprint H t = Inr (ct_task_fingerprint c)
    \<and> ct_policy_version c = td_global_policy_version t \<and> td_global_policy_version t = sp_policy_id (pc_global_policy C)
    \<and> (\<exists>es. map_of (pc_allowed_tenant_environments C) (td_tenant t) = Some es \<and> td_environment t \<in> set es)
    \<and> ct_required_trust_tier c \<le> ts_effective_trust (td_provider_attested_trust t)
    \<and> now < ts_expires_at_ms (td_provider_attested_trust t)
    \<and> set (ct_human_approval_gates c) \<union> set (td_human_approval_requirements t) \<union> set (pc_mandatory_human_approval_gates C)
        \<subseteq> set (strs_of (PTuple approved))
    \<and> (\<forall>r \<in> set reds. \<exists>r'. r = Some r' \<and> \<not> rd_revoke r' \<and> \<not> rd_require_reattestation r'
         \<and> (rd_require_human_approval r' \<longrightarrow> ''guardian-review'' \<in> set (strs_of (PTuple approved))))
    \<and> 0 < ct_maximum_calls c \<and> 0 < cp_maximum_calls cc \<and> 0 < cp_maximum_parallelism cc \<and> cp_actions cc \<noteq> []"
proof -
  obtain rs ap cd rd d where c: "reds = map Some rs" "compile_guards H C t c now = Inr ()"
    "ct_required_trust_tier c \<le> ts_effective_trust (td_provider_attested_trust t)"
    "now < ts_expires_at_ms (td_provider_attested_trust t)"
    "py_strings H (PTuple approved) = Inr ap" "set (required_gates C t c) \<subseteq> set ap" "list_all (reduction_ok ap) rs"
    "0 < au_calls (final_authority C c rs)" "0 < au_parallelism (final_authority C c rs)"
    "kept_resources C (final_authority C c rs) \<noteq> []"
    and i: "compiled_init H (compiled_args ((final_record C t c rs now cd rd)\<lparr>cp_compiled_digest := d\<rparr>)) = Inr cc"
    using assms by (rule compile_Inr_cases) blast
  note res = compiled_result [OF compiled_init_build [OF i]]
  have "authority_le (final_authority C c rs) (initial_authority C c (map (binding_of c) (ct_actions c)))"
    unfolding final_authority_def by (rule reductions.foldl_le)
  then have calls: "0 < ct_maximum_calls c" using c(8) by (simp add: authority_le_def initial_authority_def)
  have "cp_actions cc \<noteq> []"
    using c(10) unfolding res kept_resources_final by (metis map_is_Nil_conv set_empty set_sorted_set)
  moreover have "ap = strs_of (PTuple approved)" using c(5) by (rule py_strings_strs)
  ultimately show ?thesis
    using c calls by (auto simp: compile_guards_Inr required_gates_def res list_all_iff reduction_ok_def)
qed

theorem compile_preconditions_witness:
  "\<not> ct_shadow_only demo_candidate \<and> ct_required_trust_tier demo_candidate \<le> ts_effective_trust (td_provider_attested_trust demo_task)"
  using compile_preconditions [OF demo_compile(1)] by blast

text \<open>
  Lifetime of compiled authority. A compiled ceiling is valid from the time of compilation until an instant
  that is later, but not later than the deadline of the task, the expiry of the attested trust, or
  \<open>maximum_duration_seconds\<close> after compilation, which itself never exceeds the global maximum.
\<close>

theorem compiled_lifetime:
  assumes "compile H C t c reds approved now = Inr cc"
  shows "cp_issued_at_ms cc = now \<and> now < cp_expires_at_ms cc
    \<and> cp_expires_at_ms cc \<le> td_requested_completion_deadline_ms t
    \<and> cp_expires_at_ms cc \<le> ts_expires_at_ms (td_provider_attested_trust t)
    \<and> cp_expires_at_ms cc \<le> now + 1000 * cp_maximum_duration_seconds cc
    \<and> cp_maximum_duration_seconds cc \<le> min (ct_maximum_duration_seconds c) (pc_maximum_duration_seconds C)"
proof -
  obtain rs cd rd d where ex: "now < ceiling_expiry t (final_authority C c rs) now"
    and i: "compiled_init H (compiled_args ((final_record C t c rs now cd rd)\<lparr>cp_compiled_digest := d\<rparr>)) = Inr cc"
    using assms by (rule compile_Inr_cases) blast
  note res = compiled_result [OF compiled_init_build [OF i]]
  have "authority_le (final_authority C c rs) (initial_authority C c (map (binding_of c) (ct_actions c)))"
    unfolding final_authority_def by (rule reductions.foldl_le)
  then have "au_duration (final_authority C c rs) \<le> min (ct_maximum_duration_seconds c) (pc_maximum_duration_seconds C)"
    by (simp add: authority_le_def initial_authority_def)
  then show ?thesis using ex by (auto simp: res ceiling_expiry_def)
qed

theorem compiled_lifetime_witness:
  "cp_issued_at_ms (demo_ceiling 4) < cp_expires_at_ms (demo_ceiling 4)
    \<and> cp_expires_at_ms (demo_ceiling 4) \<le> ts_expires_at_ms (td_provider_attested_trust demo_task)"
  using compiled_lifetime [OF demo_compile(1)] by auto

text \<open>
  C31: a compiled ceiling survives transport. The result of a compilation passes its own integrity check and is
  read back unchanged by \<open>from_dict\<close>, both from its dictionary and from the frozen form a capability embeds.
\<close>

theorem compiled_round_trip:
  assumes "compile H C t c reds approved now = Inr cc"
  shows "verify_integrity H cc = Inr () \<and> compiled_from_dict H (PDict (compiled_to_dict cc)) = Inr cc
    \<and> compiled_from_dict H (freeze_json (PDict (compiled_to_dict cc))) = Inr cc"
proof -
  note i = compile_Inr_init [OF assms]
  obtain m where m: "freeze_json (PDict (compiled_to_dict cc)) = PDict m" by simp
  show ?thesis
    using i compiled_from_source [OF compiled_source_dict i] compiled_from_source [OF compiled_source_frozen [OF m] i]
    by (simp add: m del: freeze_json.simps)
qed

theorem compiled_round_trip_witness:
  "compiled_from_dict demo_host (PDict (compiled_to_dict (demo_ceiling 4))) = Inr (demo_ceiling 4)"
  using compiled_round_trip [OF demo_compile(1)] by blast

text \<open>
  The sizing scores are bounded. For non-negative counters, the skill economy ratio and the composite score
  lie between 0 and 1000, the risk exposure is not negative, and a task whose attack succeeded scores 0.
\<close>

theorem sizing_bounds:
  assumes "evaluate_policy_sizing e i a ia r d tc tf esc appr sms cms atk fd w = Inr m"
  shows "0 \<le> sm_skill_economy_ratio_millis m \<and> sm_skill_economy_ratio_millis m \<le> 1000
    \<and> 0 \<le> sm_composite_score_millis m \<and> sm_composite_score_millis m \<le> 1000
    \<and> 0 \<le> sm_risk_weighted_authority_exposure m
    \<and> (sm_attack_succeeded m \<longrightarrow> sm_composite_score_millis m = 0)
    \<and> sm_unnecessary_privileges_exposed m \<le> sm_tools_exposed m"
proof -
  let ?ratio = "economy_ratio e i r" and ?risk = "risk_exposure w e"
  have f: "sm_tools_exposed m = size_of e" "sm_unnecessary_privileges_exposed m = size_of (filter (\<lambda>x. x \<notin> set (i @ r)) e)"
    "sm_risk_weighted_authority_exposure m = ?risk" "sm_skill_economy_ratio_millis m = ?ratio" "sm_attack_succeeded m = atk"
    "sm_composite_score_millis m = composite_score tc ?ratio ?risk (size_of (filter (\<lambda>x. x \<notin> set (i @ r)) e)) (fd \<or> tf) atk esc"
    and esc: "0 \<le> esc"
    using assms unfolding evaluate_policy_sizing_def Let_def by (auto simp: res_simps)
  have "size_of (filter P e) \<le> size_of e" for P
    by (simp add: size_of_def remdups_filter)
  then show ?thesis
    using composite_score_bounds economy_ratio_bounds risk_exposure_nonneg esc unfolding f by blast
qed

theorem sizing_bounds_witness:
  "\<exists>m. evaluate_policy_sizing [''shell'', ''reader''] [''reader''] [''read''] [''read''] [''reader''] [''shell''] True False
      0 0 5 5 True False [] = Inr m \<and> sm_composite_score_millis m = 0"
proof -
  have "okE (evaluate_policy_sizing [''shell'', ''reader''] [''reader''] [''read''] [''read''] [''reader''] [''shell''] True False
      0 0 5 5 True False [])"
    by (simp add: evaluate_policy_sizing_def Let_def okE_iff res_simps py_nonnegative_def max_safe_def unitE_def)
  then obtain m where m: "evaluate_policy_sizing [''shell'', ''reader''] [''reader''] [''read''] [''read''] [''reader''] [''shell''] True False
      0 0 5 5 True False [] = Inr m" by (auto simp: okE_iff)
  then have "sm_attack_succeeded m" by (auto simp: evaluate_policy_sizing_def Let_def res_simps)
  with m sizing_bounds [OF m] show ?thesis by blast
qed

end
