(* ===== verification/Decay.thy ===== *)
theory Decay
  imports Compiler "HOL-Library.Product_Lexorder"
begin

text \<open>
  The data of \<open>trust_decay.py\<close>: \<open>DecayAuthority\<close> with its order \<open>is_subset_of\<close> and its decision \<open>permits\<close>,
  \<open>DecayStep\<close>, \<open>DecayProfile\<close>, \<open>DecayState\<close>, the profile a compiled ceiling gives, and what a step does to an
  authority. The order is a second instance of the locale \<open>attenuation\<close>.

  Constructors are functions of their keyword arguments; \<open>*_args\<close> are the arguments the code passes when it
  builds an object from typed parts. Dictionaries read back from JSON reach \<open>*_from_dict\<close>.
\<close>

section \<open>Definitions\<close>

definition DECAY_TRIGGERS :: "string list" where
  "DECAY_TRIGGERS = [''elapsed_ms'', ''use_count'', ''read_bytes'', ''write_bytes'', ''denials'', ''risk_score'',
     ''canary_events'', ''trust_age_ms'', ''policy_age_ms'', ''environment_changes'', ''workload_restarts'']"

definition REFRESH_REQUIREMENTS :: "string list" where
  "REFRESH_REQUIREMENTS = [''fresh-attestation'', ''fresh-authorization'']"

definition decay_nonnegative :: "pyval \<Rightarrow> int res" where
  "decay_nonnegative v = py_nonnegative v max_safe"

text \<open>
  \<open>sorted\<close> compares the items before they are checked: items of which some are strings and some are not, or
  that are neither all strings nor all numbers, make it raise \<open>TypeError\<close> (arrays inside the array count as
  not comparable).
\<close>

fun is_number :: "pyval \<Rightarrow> bool" where
  "is_number (PBool _) = True"
| "is_number (PInt _) = True"
| "is_number (PFloat _) = True"
| "is_number _ = False"

definition unsortable :: "pyval list \<Rightarrow> bool" where
  "unsortable xs \<longleftrightarrow> 2 \<le> length xs \<and> \<not> list_all is_str xs \<and> \<not> list_all is_number xs"

definition decay_strings :: "pyval \<Rightarrow> string list res" where
  "decay_strings v =
     (if \<not> is_sequence v \<or> length (items_of v) > 256 then Inl (ValidationError ''must be a bounded array'')
      else if unsortable (items_of v) then Inl (TypeError ''items are not comparable'')
      else if \<not> list_all (\<lambda>x. is_str x \<and> str_of x \<noteq> []) (items_of v) \<or> \<not> distinct (map str_of (items_of v))
        then Inl (ValidationError ''items must be unique non-empty strings'')
      else Inr (strs_of v))"

subsection \<open>Authority\<close>

record decay_authority =
  da_expires_at_ms :: int
  da_remaining_calls :: int
  da_remaining_read_bytes :: int
  da_remaining_write_bytes :: int
  da_network_destinations :: "string list"
  da_tools :: "string list"
  da_actions :: "string list"
  da_resources :: "string list"
  da_argument_ranges :: "(string \<times> int \<times> int) list"
  da_maximum_parallelism :: int
  da_maximum_effect_severity :: int

definition decay_range :: "string \<times> pyval \<Rightarrow> (string \<times> int \<times> int) res" where
  "decay_range p = (case (fst p, items_of (snd p)) of
     ([], _) \<Rightarrow> Inl (ValidationError ''argument range is malformed'')
   | (key, [low, high]) \<Rightarrow>
       if \<not> is_int low \<or> \<not> is_int high \<or> int_of low > int_of high
       then Inl (ValidationError ''argument range bounds are invalid'') else Inr (key, int_of low, int_of high)
   | _ \<Rightarrow> Inl (ValidationError ''argument range is malformed''))"

definition decay_ranges :: "pyval \<Rightarrow> (string \<times> int \<times> int) list res" where
  "decay_ranges v = (case v of
     PDict m \<Rightarrow>
       if length m > 256 then Inl (ValidationError ''argument ranges must be a bounded object'')
       else bindE (sequenceE (map decay_range m)) (\<lambda>ranges. Inr (sort_key fst ranges))
   | _ \<Rightarrow> Inl (ValidationError ''argument ranges must be a bounded object''))"

definition ranges_of :: "pyval \<Rightarrow> (string \<times> int \<times> int) list" where
  "ranges_of v = (case decay_ranges v of Inl _ \<Rightarrow> [] | Inr r \<Rightarrow> r)"

definition ranges_val :: "(string \<times> int \<times> int) list \<Rightarrow> pyval" where
  "ranges_val m = PDict (map (\<lambda>p. (fst p, PList [PInt (fst (snd p)), PInt (snd (snd p))])) m)"

definition ranges_args :: "(string \<times> int \<times> int) list \<Rightarrow> pyval" where
  "ranges_args m = PDict (map (\<lambda>p. (fst p, PTuple [PInt (fst (snd p)), PInt (snd (snd p))])) m)"

definition decay_authority_fields :: "string list" where
  "decay_authority_fields = [''expires_at_ms'', ''remaining_calls'', ''remaining_read_bytes'', ''remaining_write_bytes'',
     ''network_destinations'', ''tools'', ''actions'', ''resources'', ''argument_ranges'',
     ''maximum_parallelism'', ''maximum_effect_severity'']"

definition decay_authority_ints :: "string list" where
  "decay_authority_ints = [''expires_at_ms'', ''remaining_calls'', ''remaining_read_bytes'', ''remaining_write_bytes'',
     ''maximum_parallelism'', ''maximum_effect_severity'']"

definition decay_authority_strings :: "string list" where
  "decay_authority_strings = [''network_destinations'', ''tools'', ''actions'', ''resources'']"

definition decay_authority_checks :: "(string \<Rightarrow> pyval) \<Rightarrow> unit res" where
  "decay_authority_checks g = seqE
     (map (\<lambda>n. unitE (decay_nonnegative (g n))) decay_authority_ints
      @ [checkE (int_of (g ''maximum_effect_severity'') > 10) (ValidationError ''effect severity must be between zero and ten'')]
      @ map (\<lambda>n. unitE (decay_strings (g n))) decay_authority_strings
      @ [unitE (decay_ranges (g ''argument_ranges''))])"

definition decay_authority_build :: "(string \<Rightarrow> pyval) \<Rightarrow> decay_authority" where
  "decay_authority_build g =
     \<lparr>da_expires_at_ms = int_of (g ''expires_at_ms''),
      da_remaining_calls = int_of (g ''remaining_calls''),
      da_remaining_read_bytes = int_of (g ''remaining_read_bytes''),
      da_remaining_write_bytes = int_of (g ''remaining_write_bytes''),
      da_network_destinations = strs_of (g ''network_destinations''),
      da_tools = strs_of (g ''tools''),
      da_actions = strs_of (g ''actions''),
      da_resources = strs_of (g ''resources''),
      da_argument_ranges = ranges_of (g ''argument_ranges''),
      da_maximum_parallelism = int_of (g ''maximum_parallelism''),
      da_maximum_effect_severity = int_of (g ''maximum_effect_severity'')\<rparr>"

definition decay_authority_init :: "(string \<Rightarrow> pyval) \<Rightarrow> decay_authority res" where
  "decay_authority_init g = bindE (decay_authority_checks g) (\<lambda>_. Inr (decay_authority_build g))"

definition decay_authority_args :: "decay_authority \<Rightarrow> string \<Rightarrow> pyval" where
  "decay_authority_args c = dict_get
     [(''expires_at_ms'', PInt (da_expires_at_ms c)),
      (''remaining_calls'', PInt (da_remaining_calls c)),
      (''remaining_read_bytes'', PInt (da_remaining_read_bytes c)),
      (''remaining_write_bytes'', PInt (da_remaining_write_bytes c)),
      (''network_destinations'', PTexts (da_network_destinations c)),
      (''tools'', PTexts (da_tools c)),
      (''actions'', PTexts (da_actions c)),
      (''resources'', PTexts (da_resources c)),
      (''argument_ranges'', ranges_args (da_argument_ranges c)),
      (''maximum_parallelism'', PInt (da_maximum_parallelism c)),
      (''maximum_effect_severity'', PInt (da_maximum_effect_severity c))]"

definition decay_authority_to_dict :: "decay_authority \<Rightarrow> dict" where
  "decay_authority_to_dict c =
     [(''expires_at_ms'', PInt (da_expires_at_ms c)),
      (''remaining_calls'', PInt (da_remaining_calls c)),
      (''remaining_read_bytes'', PInt (da_remaining_read_bytes c)),
      (''remaining_write_bytes'', PInt (da_remaining_write_bytes c)),
      (''network_destinations'', PStrs (da_network_destinations c)),
      (''tools'', PStrs (da_tools c)),
      (''actions'', PStrs (da_actions c)),
      (''resources'', PStrs (da_resources c)),
      (''argument_ranges'', ranges_val (da_argument_ranges c)),
      (''maximum_parallelism'', PInt (da_maximum_parallelism c)),
      (''maximum_effect_severity'', PInt (da_maximum_effect_severity c))]"

definition decay_authority_from_dict :: "pyval \<Rightarrow> decay_authority res" where
  "decay_authority_from_dict v = (case v of
     PDict m \<Rightarrow>
       if \<not> set_eq_list (map fst m) decay_authority_fields then Inl (ValidationError ''decay authority fields are invalid'')
       else bindE (update_fields py_tuple decay_authority_strings m) (\<lambda>m1.
            bindE (update_fields py_tuple_values [''argument_ranges''] m1) (\<lambda>m2. decay_authority_init (dict_get m2)))
   | _ \<Rightarrow> Inl (ValidationError ''decay authority fields are invalid''))"

definition authority_digest :: "host \<Rightarrow> decay_authority \<Rightarrow> string res" where
  "authority_digest H a = digest H (PDict (decay_authority_to_dict a))"

definition range_within :: "(string \<times> int \<times> int) list \<Rightarrow> string \<times> int \<times> int \<Rightarrow> bool" where
  "range_within prior p = (case map_of prior (fst p) of
     None \<Rightarrow> False
   | Some (prior_low, prior_high) \<Rightarrow> \<not> (fst (snd p) < prior_low \<or> snd (snd p) > prior_high))"

definition is_subset_of :: "decay_authority \<Rightarrow> decay_authority \<Rightarrow> bool" where
  "is_subset_of a prior =
     (if da_expires_at_ms a > da_expires_at_ms prior \<or> da_remaining_calls a > da_remaining_calls prior
         \<or> da_remaining_read_bytes a > da_remaining_read_bytes prior \<or> da_remaining_write_bytes a > da_remaining_write_bytes prior
         \<or> da_maximum_parallelism a > da_maximum_parallelism prior
         \<or> da_maximum_effect_severity a > da_maximum_effect_severity prior then False
      else if \<not> subset_list (da_network_destinations a) (da_network_destinations prior)
         \<or> \<not> subset_list (da_tools a) (da_tools prior) \<or> \<not> subset_list (da_actions a) (da_actions prior)
         \<or> \<not> subset_list (da_resources a) (da_resources prior) then False
      else if \<not> subset_list (map fst (da_argument_ranges a)) (map fst (da_argument_ranges prior)) then False
      else list_all (range_within (da_argument_ranges prior)) (da_argument_ranges a))"

definition range_admits :: "dict \<Rightarrow> string \<times> int \<times> int \<Rightarrow> bool" where
  "range_admits arguments p = (case map_of arguments (fst p) of
     None \<Rightarrow> True
   | Some (PInt i) \<Rightarrow> fst (snd p) \<le> i \<and> i \<le> snd (snd p)
   | Some _ \<Rightarrow> False)"

definition decay_permits :: "decay_authority \<Rightarrow> action_request \<Rightarrow> int \<Rightarrow> bool" where
  "decay_permits a r now_ms =
     (if now_ms \<ge> da_expires_at_ms a \<or> da_remaining_calls a < 1 then False
      else if ar_operation r \<notin> set (da_actions a) \<or> ar_resource_id r \<notin> set (da_resources a) then False
      else list_all (range_admits (ar_arguments r)) (da_argument_ranges a))"

subsection \<open>Steps\<close>

record decay_step =
  ds_trigger :: string
  ds_threshold :: int
  ds_remove_network_destinations :: "string list"
  ds_remove_tools :: "string list"
  ds_remove_actions :: "string list"
  ds_remove_resources :: "string list"
  ds_maximum_calls :: "int option"
  ds_maximum_read_bytes :: "int option"
  ds_maximum_write_bytes :: "int option"
  ds_maximum_parallelism :: "int option"
  ds_maximum_effect_severity :: "int option"
  ds_shorten_expiration_to_ms :: "int option"

definition decay_step_fields :: "string list" where
  "decay_step_fields = [''trigger'', ''threshold'', ''remove_network_destinations'', ''remove_tools'',
     ''remove_actions'', ''remove_resources'', ''maximum_calls'', ''maximum_read_bytes'',
     ''maximum_write_bytes'', ''maximum_parallelism'', ''maximum_effect_severity'',
     ''shorten_expiration_to_ms'']"

definition decay_step_strings :: "string list" where
  "decay_step_strings = [''remove_network_destinations'', ''remove_tools'', ''remove_actions'', ''remove_resources'']"

definition decay_step_maxima :: "string list" where
  "decay_step_maxima = [''maximum_calls'', ''maximum_read_bytes'', ''maximum_write_bytes'', ''maximum_parallelism'',
     ''maximum_effect_severity'', ''shorten_expiration_to_ms'']"

definition decay_step_checks :: "(string \<Rightarrow> pyval) \<Rightarrow> unit res" where
  "decay_step_checks g = seqE
     ([checkE (unhashable (g ''trigger'')) (TypeError ''unhashable type''),
       checkE (\<not> (is_str (g ''trigger'') \<and> str_of (g ''trigger'') \<in> set DECAY_TRIGGERS)) (ValidationError ''decay trigger is invalid''),
       unitE (decay_nonnegative (g ''threshold''))]
      @ map (\<lambda>n. unitE (decay_strings (g n))) decay_step_strings
      @ map (\<lambda>n. if g n = PNone then Inr () else unitE (decay_nonnegative (g n))) decay_step_maxima)"

definition decay_step_build :: "(string \<Rightarrow> pyval) \<Rightarrow> decay_step" where
  "decay_step_build g =
     \<lparr>ds_trigger = str_of (g ''trigger''),
      ds_threshold = int_of (g ''threshold''),
      ds_remove_network_destinations = strs_of (g ''remove_network_destinations''),
      ds_remove_tools = strs_of (g ''remove_tools''),
      ds_remove_actions = strs_of (g ''remove_actions''),
      ds_remove_resources = strs_of (g ''remove_resources''),
      ds_maximum_calls = opt_int_of (g ''maximum_calls''),
      ds_maximum_read_bytes = opt_int_of (g ''maximum_read_bytes''),
      ds_maximum_write_bytes = opt_int_of (g ''maximum_write_bytes''),
      ds_maximum_parallelism = opt_int_of (g ''maximum_parallelism''),
      ds_maximum_effect_severity = opt_int_of (g ''maximum_effect_severity''),
      ds_shorten_expiration_to_ms = opt_int_of (g ''shorten_expiration_to_ms'')\<rparr>"

definition decay_step_init :: "(string \<Rightarrow> pyval) \<Rightarrow> decay_step res" where
  "decay_step_init g = bindE (decay_step_checks g) (\<lambda>_. Inr (decay_step_build g))"

definition decay_step_args :: "decay_step \<Rightarrow> string \<Rightarrow> pyval" where
  "decay_step_args c = dict_get
     [(''trigger'', PStr (ds_trigger c)),
      (''threshold'', PInt (ds_threshold c)),
      (''remove_network_destinations'', PTexts (ds_remove_network_destinations c)),
      (''remove_tools'', PTexts (ds_remove_tools c)),
      (''remove_actions'', PTexts (ds_remove_actions c)),
      (''remove_resources'', PTexts (ds_remove_resources c)),
      (''maximum_calls'', opt_int (ds_maximum_calls c)),
      (''maximum_read_bytes'', opt_int (ds_maximum_read_bytes c)),
      (''maximum_write_bytes'', opt_int (ds_maximum_write_bytes c)),
      (''maximum_parallelism'', opt_int (ds_maximum_parallelism c)),
      (''maximum_effect_severity'', opt_int (ds_maximum_effect_severity c)),
      (''shorten_expiration_to_ms'', opt_int (ds_shorten_expiration_to_ms c))]"

definition decay_step_to_dict :: "decay_step \<Rightarrow> dict" where
  "decay_step_to_dict c =
     [(''trigger'', PStr (ds_trigger c)),
      (''threshold'', PInt (ds_threshold c)),
      (''remove_network_destinations'', PStrs (ds_remove_network_destinations c)),
      (''remove_tools'', PStrs (ds_remove_tools c)),
      (''remove_actions'', PStrs (ds_remove_actions c)),
      (''remove_resources'', PStrs (ds_remove_resources c)),
      (''maximum_calls'', opt_int (ds_maximum_calls c)),
      (''maximum_read_bytes'', opt_int (ds_maximum_read_bytes c)),
      (''maximum_write_bytes'', opt_int (ds_maximum_write_bytes c)),
      (''maximum_parallelism'', opt_int (ds_maximum_parallelism c)),
      (''maximum_effect_severity'', opt_int (ds_maximum_effect_severity c)),
      (''shorten_expiration_to_ms'', opt_int (ds_shorten_expiration_to_ms c))]"

definition decay_step_from_dict :: "pyval \<Rightarrow> decay_step res" where
  "decay_step_from_dict v = (case v of
     PDict m \<Rightarrow>
       if \<not> set_eq_list (map fst m) decay_step_fields then Inl (ValidationError ''decay step fields are invalid'')
       else bindE (update_fields py_tuple decay_step_strings m) (\<lambda>m1. decay_step_init (dict_get m1))
   | _ \<Rightarrow> Inl (ValidationError ''decay step fields are invalid''))"

text \<open>\<open>min(current, maximum) if maximum is not None else current\<close>.\<close>

definition lowered :: "int \<Rightarrow> int option \<Rightarrow> int" where
  "lowered current maximum = (case maximum of None \<Rightarrow> current | Some m \<Rightarrow> min current m)"

definition step_authority :: "decay_authority \<Rightarrow> decay_step \<Rightarrow> int \<Rightarrow> decay_authority" where
  "step_authority a s issued_at_ms =
     \<lparr>da_expires_at_ms = lowered (da_expires_at_ms a) (map_option (\<lambda>t. issued_at_ms + t) (ds_shorten_expiration_to_ms s)),
      da_remaining_calls = lowered (da_remaining_calls a) (ds_maximum_calls s),
      da_remaining_read_bytes = lowered (da_remaining_read_bytes a) (ds_maximum_read_bytes s),
      da_remaining_write_bytes = lowered (da_remaining_write_bytes a) (ds_maximum_write_bytes s),
      da_network_destinations = filter (\<lambda>x. x \<notin> set (ds_remove_network_destinations s)) (da_network_destinations a),
      da_tools = filter (\<lambda>x. x \<notin> set (ds_remove_tools s)) (da_tools a),
      da_actions = filter (\<lambda>x. x \<notin> set (ds_remove_actions s)) (da_actions a),
      da_resources = filter (\<lambda>x. x \<notin> set (ds_remove_resources s)) (da_resources a),
      da_argument_ranges = da_argument_ranges a,
      da_maximum_parallelism = lowered (da_maximum_parallelism a) (ds_maximum_parallelism s),
      da_maximum_effect_severity = lowered (da_maximum_effect_severity a) (ds_maximum_effect_severity s)\<rparr>"

definition apply_step :: "decay_authority \<Rightarrow> decay_step \<Rightarrow> int \<Rightarrow> decay_authority res" where
  "apply_step a s issued_at_ms = decay_authority_init (decay_authority_args (step_authority a s issued_at_ms))"

subsection \<open>Profiles\<close>

record decay_profile =
  dp_profile_id :: string
  dp_version :: string
  dp_initial_authority :: decay_authority
  dp_steps :: "decay_step list"
  dp_refresh_requirements :: "string list"

definition decay_profile_fields :: "string list" where
  "decay_profile_fields = [''profile_id'', ''version'', ''initial_authority'', ''steps'', ''refresh_requirements'']"

definition decay_profile_init ::
  "pyval \<Rightarrow> pyval \<Rightarrow> decay_authority \<Rightarrow> decay_step list \<Rightarrow> pyval \<Rightarrow> decay_profile res" where
  "decay_profile_init profile_id version initial steps refresh =
     bindE (checkE (\<not> (is_str profile_id \<and> truthy profile_id)) (ValidationError ''decay profile ID is invalid'')) (\<lambda>_.
     bindE (checkE (\<not> (is_str version \<and> truthy version)) (ValidationError ''decay profile version is invalid'')) (\<lambda>_.
     bindE (decay_strings refresh) (\<lambda>requirements.
     bindE (checkE (requirements \<noteq> sort REFRESH_REQUIREMENTS)
              (ValidationError ''decay refresh requires fresh attestation and authorization'')) (\<lambda>_.
     Inr \<lparr>dp_profile_id = str_of profile_id, dp_version = str_of version, dp_initial_authority = initial,
          dp_steps = sort_key (\<lambda>s. (ds_trigger s, ds_threshold s)) steps, dp_refresh_requirements = requirements\<rparr>))))"

definition decay_profile_to_dict :: "decay_profile \<Rightarrow> dict" where
  "decay_profile_to_dict p =
     [(''profile_id'', PStr (dp_profile_id p)), (''version'', PStr (dp_version p)),
      (''initial_authority'', PDict (decay_authority_to_dict (dp_initial_authority p))),
      (''steps'', PList (map (\<lambda>s. PDict (decay_step_to_dict s)) (dp_steps p))),
      (''refresh_requirements'', PStrs (dp_refresh_requirements p))]"

definition decay_profile_from_dict :: "pyval \<Rightarrow> decay_profile res" where
  "decay_profile_from_dict v = (case v of
     PDict m \<Rightarrow>
       if \<not> set_eq_list (map fst m) decay_profile_fields then Inl (ValidationError ''decay profile fields are invalid'')
       else bindE (decay_authority_from_dict (dict_get m ''initial_authority'')) (\<lambda>initial.
            bindE (py_tuple (dict_get m ''steps'')) (\<lambda>raw.
            bindE (sequenceE (map decay_step_from_dict (items_of raw))) (\<lambda>steps.
            bindE (py_tuple (dict_get m ''refresh_requirements'')) (\<lambda>refresh.
            decay_profile_init (dict_get m ''profile_id'') (dict_get m ''version'') initial steps refresh))))
   | _ \<Rightarrow> Inl (ValidationError ''decay profile fields are invalid''))"

definition profile_digest :: "host \<Rightarrow> decay_profile \<Rightarrow> string res" where
  "profile_digest H p = digest H (PDict (decay_profile_to_dict p))"

text \<open>\<open>DecayStep(trigger, threshold)\<close> with the defaults of the class.\<close>

definition default_step :: "string \<Rightarrow> int \<Rightarrow> decay_step" where
  "default_step trigger threshold =
     \<lparr>ds_trigger = trigger, ds_threshold = threshold, ds_remove_network_destinations = [], ds_remove_tools = [],
      ds_remove_actions = [], ds_remove_resources = [], ds_maximum_calls = None, ds_maximum_read_bytes = None,
      ds_maximum_write_bytes = None, ds_maximum_parallelism = None, ds_maximum_effect_severity = None,
      ds_shorten_expiration_to_ms = None\<rparr>"

definition ceiling_authority :: "compiled \<Rightarrow> int \<Rightarrow> decay_authority" where
  "ceiling_authority ceiling expires =
     \<lparr>da_expires_at_ms = expires, da_remaining_calls = min 1 (cp_maximum_calls ceiling),
      da_remaining_read_bytes = cp_maximum_read_bytes ceiling, da_remaining_write_bytes = cp_maximum_write_bytes ceiling,
      da_network_destinations = cp_network_destinations ceiling, da_tools = cp_tools ceiling, da_actions = cp_actions ceiling,
      da_resources = sorted_set (concat (map snd (cp_action_resources ceiling))),
      da_argument_ranges = [], da_maximum_parallelism = cp_maximum_parallelism ceiling, da_maximum_effect_severity = 10\<rparr>"

definition ceiling_steps :: "compiled \<Rightarrow> int \<Rightarrow> int \<Rightarrow> decay_step list" where
  "ceiling_steps ceiling issued expires =
     (if cp_decay_profile ceiling = ''none'' then []
      else [(default_step ''elapsed_ms'' (max 1 ((expires - issued) div 2)))
              \<lparr>ds_remove_network_destinations := cp_network_destinations ceiling, ds_maximum_write_bytes := Some 0,
               ds_maximum_parallelism := Some 1, ds_maximum_effect_severity := Some 5\<rparr>,
            (default_step ''canary_events'' 1)
              \<lparr>ds_maximum_calls := Some 0, ds_maximum_read_bytes := Some 0, ds_maximum_write_bytes := Some 0,
               ds_maximum_parallelism := Some 0, ds_maximum_effect_severity := Some 0\<rparr>])"

definition decay_profile_for_ceiling :: "compiled \<Rightarrow> string \<Rightarrow> int option \<Rightarrow> int option \<Rightarrow> decay_profile res" where
  "decay_profile_for_ceiling ceiling version issued_at_ms expires_at_ms =
     (let issued = (case issued_at_ms of None \<Rightarrow> cp_issued_at_ms ceiling | Some t \<Rightarrow> t);
          expires = (case expires_at_ms of None \<Rightarrow> cp_expires_at_ms ceiling | Some t \<Rightarrow> t) in
      bindE (unitE (decay_nonnegative (PInt issued))) (\<lambda>_.
      bindE (unitE (decay_nonnegative (PInt expires))) (\<lambda>_.
      bindE (checkE (expires \<le> issued) (ValidationError ''decay expiration must follow issuance'')) (\<lambda>_.
      bindE (checkE (expires > cp_expires_at_ms ceiling) (ValidationError ''decay expiration cannot exceed the compiled ceiling'')) (\<lambda>_.
      bindE (decay_authority_init (decay_authority_args (ceiling_authority ceiling expires))) (\<lambda>initial.
      bindE (sequenceE (map (\<lambda>s. decay_step_init (decay_step_args s)) (ceiling_steps ceiling issued expires))) (\<lambda>steps.
      decay_profile_init (PStr (cp_decay_profile ceiling)) (PStr version) initial steps (PTexts REFRESH_REQUIREMENTS))))))))"

section \<open>Lemmas\<close>

lemma decay_authority_args_lookup:
  "decay_authority_args c ''expires_at_ms'' = PInt (da_expires_at_ms c)"
  "decay_authority_args c ''remaining_calls'' = PInt (da_remaining_calls c)"
  "decay_authority_args c ''remaining_read_bytes'' = PInt (da_remaining_read_bytes c)"
  "decay_authority_args c ''remaining_write_bytes'' = PInt (da_remaining_write_bytes c)"
  "decay_authority_args c ''network_destinations'' = PTexts (da_network_destinations c)"
  "decay_authority_args c ''tools'' = PTexts (da_tools c)"
  "decay_authority_args c ''actions'' = PTexts (da_actions c)"
  "decay_authority_args c ''resources'' = PTexts (da_resources c)"
  "decay_authority_args c ''argument_ranges'' = ranges_args (da_argument_ranges c)"
  "decay_authority_args c ''maximum_parallelism'' = PInt (da_maximum_parallelism c)"
  "decay_authority_args c ''maximum_effect_severity'' = PInt (da_maximum_effect_severity c)"
  by (simp_all add: decay_authority_args_def)

lemma decay_authority_lookup:
  "dict_get (decay_authority_to_dict c) ''expires_at_ms'' = PInt (da_expires_at_ms c)"
  "dict_get (decay_authority_to_dict c) ''remaining_calls'' = PInt (da_remaining_calls c)"
  "dict_get (decay_authority_to_dict c) ''remaining_read_bytes'' = PInt (da_remaining_read_bytes c)"
  "dict_get (decay_authority_to_dict c) ''remaining_write_bytes'' = PInt (da_remaining_write_bytes c)"
  "dict_get (decay_authority_to_dict c) ''network_destinations'' = PStrs (da_network_destinations c)"
  "dict_get (decay_authority_to_dict c) ''tools'' = PStrs (da_tools c)"
  "dict_get (decay_authority_to_dict c) ''actions'' = PStrs (da_actions c)"
  "dict_get (decay_authority_to_dict c) ''resources'' = PStrs (da_resources c)"
  "dict_get (decay_authority_to_dict c) ''argument_ranges'' = ranges_val (da_argument_ranges c)"
  "dict_get (decay_authority_to_dict c) ''maximum_parallelism'' = PInt (da_maximum_parallelism c)"
  "dict_get (decay_authority_to_dict c) ''maximum_effect_severity'' = PInt (da_maximum_effect_severity c)"
  by (simp_all add: decay_authority_to_dict_def)

lemma decay_step_args_lookup:
  "decay_step_args c ''trigger'' = PStr (ds_trigger c)"
  "decay_step_args c ''threshold'' = PInt (ds_threshold c)"
  "decay_step_args c ''remove_network_destinations'' = PTexts (ds_remove_network_destinations c)"
  "decay_step_args c ''remove_tools'' = PTexts (ds_remove_tools c)"
  "decay_step_args c ''remove_actions'' = PTexts (ds_remove_actions c)"
  "decay_step_args c ''remove_resources'' = PTexts (ds_remove_resources c)"
  "decay_step_args c ''maximum_calls'' = opt_int (ds_maximum_calls c)"
  "decay_step_args c ''maximum_read_bytes'' = opt_int (ds_maximum_read_bytes c)"
  "decay_step_args c ''maximum_write_bytes'' = opt_int (ds_maximum_write_bytes c)"
  "decay_step_args c ''maximum_parallelism'' = opt_int (ds_maximum_parallelism c)"
  "decay_step_args c ''maximum_effect_severity'' = opt_int (ds_maximum_effect_severity c)"
  "decay_step_args c ''shorten_expiration_to_ms'' = opt_int (ds_shorten_expiration_to_ms c)"
  by (simp_all add: decay_step_args_def)


subsection \<open>Validation\<close>

text \<open>What the constructor accepts, in terms of typed parts, and the order it puts them in.\<close>

definition bounded_int :: "int \<Rightarrow> bool" where
  "bounded_int i \<longleftrightarrow> 0 \<le> i \<and> i \<le> max_safe"

definition unique_strings :: "string list \<Rightarrow> bool" where
  "unique_strings ss \<longleftrightarrow> length ss \<le> 256 \<and> distinct ss \<and> [] \<notin> set ss"

definition valid_ranges :: "(string \<times> int \<times> int) list \<Rightarrow> bool" where
  "valid_ranges rs \<longleftrightarrow> length rs \<le> 256 \<and> list_all (\<lambda>p. fst p \<noteq> [] \<and> fst (snd p) \<le> snd (snd p)) rs"

definition valid_authority :: "decay_authority \<Rightarrow> bool" where
  "valid_authority a \<longleftrightarrow> list_all bounded_int [da_expires_at_ms a, da_remaining_calls a, da_remaining_read_bytes a,
       da_remaining_write_bytes a, da_maximum_parallelism a, da_maximum_effect_severity a]
     \<and> da_maximum_effect_severity a \<le> 10
     \<and> list_all unique_strings [da_network_destinations a, da_tools a, da_actions a, da_resources a]
     \<and> valid_ranges (da_argument_ranges a)"

definition normal_authority :: "decay_authority \<Rightarrow> decay_authority" where
  "normal_authority a = a\<lparr>da_network_destinations := sort (da_network_destinations a), da_tools := sort (da_tools a),
     da_actions := sort (da_actions a), da_resources := sort (da_resources a),
     da_argument_ranges := sort_key fst (da_argument_ranges a)\<rparr>"

text \<open>The invariant of a \<open>DecayAuthority\<close> object.\<close>

definition wf_authority :: "decay_authority \<Rightarrow> bool" where
  "wf_authority a \<longleftrightarrow> valid_authority a \<and> normal_authority a = a \<and> distinct (map fst (da_argument_ranges a))"

lemma decay_nonnegative_iff [res_simps]: "decay_nonnegative v = Inr i \<longleftrightarrow> v = PInt i \<and> bounded_int i"
  by (cases v) (auto simp: decay_nonnegative_def py_nonnegative_def bounded_int_def)

lemma decay_strings_iff [res_simps]:
  "decay_strings v = Inr ys \<longleftrightarrow> is_sequence v \<and> (\<exists>ss. items_of v = map PStr ss \<and> unique_strings ss \<and> ys = sort ss)"
proof (cases "is_sequence v \<and> list_all is_str (items_of v)")
  case True
  then obtain ss where ss: "items_of v = map PStr ss"
    by (metis (no_types, lifting) is_str_PStr list.pred_set map_idI map_map comp_apply)
  then have "\<not> unsortable (items_of v)" "strs_of v = sort ss"
    by (simp_all add: unsortable_def list.pred_map strs_of_def comp_def list_all_iff)
  with True ss show ?thesis
    by (auto simp: decay_strings_def unique_strings_def list_all_iff inj_on_map_eq_map inj_on_def comp_def)
next
  case False
  then show ?thesis
    by (auto simp: decay_strings_def list_all_iff)
qed

lemma decay_range_iff [res_simps]:
  "decay_range p = Inr q \<longleftrightarrow> (\<exists>k lo hi. fst p = k \<and> k \<noteq> [] \<and> items_of (snd p) = [PInt lo, PInt hi] \<and> lo \<le> hi \<and> q = (k, lo, hi))"
  by (auto simp: decay_range_def is_int_PInt split: list.splits if_splits)

lemma decay_ranges_pairs:
  assumes "\<And>p. items_of (f p) = [PInt (fst (snd p)), PInt (snd (snd p))]"
  shows "decay_ranges (PDict (map (\<lambda>p. (fst p, f p)) rs)) = Inr qs \<longleftrightarrow> valid_ranges rs \<and> qs = sort_key fst rs"
proof -
  have "map decay_range (map (\<lambda>p. (fst p, f p)) rs) = map Inr xs \<longleftrightarrow>
      xs = rs \<and> list_all (\<lambda>p. fst p \<noteq> [] \<and> fst (snd p) \<le> snd (snd p)) rs" for xs
    by (induction rs arbitrary: xs) (auto simp: decay_range_iff assms map_eq_Cons_conv Cons_eq_map_conv)
  then show ?thesis
    by (auto simp: decay_ranges_def valid_ranges_def res_simps simp del: map_map)
qed

lemma decay_ranges_args: "decay_ranges (ranges_args rs) = Inr qs \<longleftrightarrow> valid_ranges rs \<and> qs = sort_key fst rs"
  and decay_ranges_val: "decay_ranges (ranges_val rs) = Inr qs \<longleftrightarrow> valid_ranges rs \<and> qs = sort_key fst rs"
  unfolding ranges_args_def ranges_val_def by (rule decay_ranges_pairs; simp)+

lemma decay_strings_texts [simp]:
  "decay_strings (PTexts ss) = Inr ys \<longleftrightarrow> unique_strings ss \<and> ys = sort ss"
  "decay_strings (PStrs ss) = Inr ys \<longleftrightarrow> unique_strings ss \<and> ys = sort ss"
  by (auto simp: decay_strings_iff PTexts_def PStrs_def inj_on_map_eq_map inj_on_def)

lemma decay_authority_checks_iff:
  "decay_authority_checks g = Inr () \<longleftrightarrow>
     (\<forall>n \<in> set decay_authority_ints. \<exists>i. g n = PInt i \<and> bounded_int i) \<and> int_of (g ''maximum_effect_severity'') \<le> 10
     \<and> (\<forall>n \<in> set decay_authority_strings. \<exists>ys. decay_strings (g n) = Inr ys) \<and> (\<exists>rs. decay_ranges (g ''argument_ranges'') = Inr rs)"
  unfolding decay_authority_checks_def seqE_Inr_iff set_append ball_Un set_map ball_simps list.set
    unitE_Inr_iff decay_nonnegative_iff checkE_Inr_iff
  by auto

lemma ranges_of_args: "valid_ranges rs \<Longrightarrow> ranges_of (ranges_args rs) = sort_key fst rs"
  and ranges_of_val: "valid_ranges rs \<Longrightarrow> ranges_of (ranges_val rs) = sort_key fst rs"
  using decay_ranges_args [of rs "sort_key fst rs"] decay_ranges_val [of rs "sort_key fst rs"] by (simp_all add: ranges_of_def)

lemma strs_of_PTexts: "strs_of (PTexts ss) = sort ss"
  by (simp add: strs_of_def PTexts_def comp_def)

lemma decay_authority_new_iff:
  "decay_authority_init (decay_authority_args a) = Inr b \<longleftrightarrow> valid_authority a \<and> b = normal_authority a"
proof -
  have "decay_authority_checks (decay_authority_args a) = Inr () \<longleftrightarrow> valid_authority a"
    unfolding decay_authority_checks_iff
    by (auto simp: decay_authority_ints_def decay_authority_strings_def decay_authority_args_lookup decay_ranges_args
        valid_authority_def)
  moreover have "decay_authority_build (decay_authority_args a) = normal_authority a" if "valid_authority a"
    using that ranges_of_args [of "da_argument_ranges a"]
    by (simp add: decay_authority_build_def decay_authority_args_lookup normal_authority_def valid_authority_def strs_of_PTexts)
  ultimately show ?thesis by (auto simp: decay_authority_init_def res_simps)
qed

text \<open>On an object that satisfies the invariant a step is the plain intersection, and keeps the invariant.\<close>

lemma normal_authority_idem [simp]: "normal_authority (normal_authority a) = normal_authority a"
  by (simp add: normal_authority_def sorted_sort_id sorted_sort sort_key_id_if_sorted)

lemma normal_authority_iff: "normal_authority a = a \<longleftrightarrow> sorted (da_network_destinations a) \<and> sorted (da_tools a)
    \<and> sorted (da_actions a) \<and> sorted (da_resources a) \<and> sorted (map fst (da_argument_ranges a))"
  by (cases a) (auto simp: normal_authority_def sorted_sort_id sort_key_id_if_sorted, (metis sorted_sort sorted_sort_key)+)

lemma valid_normal [simp]: "valid_authority (normal_authority a) \<longleftrightarrow> valid_authority a"
  by (simp add: valid_authority_def normal_authority_def unique_strings_def valid_ranges_def list_all_iff)

lemma distinct_normal: "distinct (map fst (da_argument_ranges (normal_authority a))) \<longleftrightarrow> distinct (map fst (da_argument_ranges a))"
  by (simp add: normal_authority_def distinct_map)

lemma decay_authority_new_wf:
  "decay_authority_init (decay_authority_args a) = Inr b \<Longrightarrow> distinct (map fst (da_argument_ranges a)) \<Longrightarrow> wf_authority b"
  unfolding decay_authority_new_iff wf_authority_def by (auto simp: distinct_normal)

lemma wf_authority_new: "wf_authority a \<Longrightarrow> decay_authority_init (decay_authority_args a) = Inr a"
  by (simp add: decay_authority_new_iff wf_authority_def)

lemma apply_step_Inr:
  assumes "wf_authority a" and "apply_step a s t = Inr b"
  shows "b = step_authority a s t \<and> wf_authority b"
proof -
  have "normal_authority (step_authority a s t) = step_authority a s t"
    using assms(1) unfolding wf_authority_def normal_authority_iff by (simp add: step_authority_def sorted_filter [where f = id, simplified])
  moreover have "distinct (map fst (da_argument_ranges (step_authority a s t)))"
    using assms(1) by (simp add: wf_authority_def step_authority_def)
  ultimately show ?thesis
    using assms(2) unfolding apply_step_def decay_authority_new_iff by (auto simp: wf_authority_def)
qed

subsection \<open>The order on authorities\<close>

definition ranges_le :: "(string \<times> int \<times> int) list \<Rightarrow> (string \<times> int \<times> int) list \<Rightarrow> bool" where
  "ranges_le rs ss \<longleftrightarrow> (\<forall>k lo hi. map_of rs k = Some (lo, hi) \<longrightarrow>
     (\<exists>lo' hi'. map_of ss k = Some (lo', hi') \<and> lo' \<le> lo \<and> hi \<le> hi'))"

definition decay_le :: "decay_authority \<Rightarrow> decay_authority \<Rightarrow> bool" where
  "decay_le a b \<longleftrightarrow> da_expires_at_ms a \<le> da_expires_at_ms b \<and> da_remaining_calls a \<le> da_remaining_calls b
     \<and> da_remaining_read_bytes a \<le> da_remaining_read_bytes b \<and> da_remaining_write_bytes a \<le> da_remaining_write_bytes b
     \<and> da_maximum_parallelism a \<le> da_maximum_parallelism b \<and> da_maximum_effect_severity a \<le> da_maximum_effect_severity b
     \<and> set (da_network_destinations a) \<subseteq> set (da_network_destinations b) \<and> set (da_tools a) \<subseteq> set (da_tools b)
     \<and> set (da_actions a) \<subseteq> set (da_actions b) \<and> set (da_resources a) \<subseteq> set (da_resources b)
     \<and> ranges_le (da_argument_ranges a) (da_argument_ranges b)"

lemma ranges_le_refl [simp]: "ranges_le rs rs"
  by (auto simp: ranges_le_def)

lemma ranges_le_trans: "ranges_le rs ss \<Longrightarrow> ranges_le ss ts \<Longrightarrow> ranges_le rs ts"
  unfolding ranges_le_def by (meson order_trans)

lemma lowered_le [simp]: "lowered i m \<le> i"
  by (auto simp: lowered_def split: option.split)

interpretation decay_steps: attenuation decay_le "\<lambda>a (s, t). step_authority a s t"
proof
  show "decay_le a b \<Longrightarrow> decay_le b c \<Longrightarrow> decay_le a c" for a b c
    unfolding decay_le_def by (elim conjE, intro conjI) (auto intro: ranges_le_trans)
qed (auto simp: decay_le_def step_authority_def split: prod.split)

lemma range_within_iff: "range_within ss p \<longleftrightarrow>
    (\<exists>lo' hi'. map_of ss (fst p) = Some (lo', hi') \<and> lo' \<le> fst (snd p) \<and> snd (snd p) \<le> hi')"
  by (auto simp: range_within_def split: option.split)

lemma is_subset_of_iff:
  assumes "distinct (map fst (da_argument_ranges a))"
  shows "is_subset_of a b \<longleftrightarrow> decay_le a b"
proof -
  let ?rs = "da_argument_ranges a" and ?ss = "da_argument_ranges b"
  have "list_all (range_within ?ss) ?rs \<longleftrightarrow> ranges_le ?rs ?ss"
    using assms by (auto simp: list_all_iff range_within_iff ranges_le_def split_paired_Ball_Sigma) 
  moreover have "list_all (range_within ?ss) ?rs \<Longrightarrow> set (map fst ?rs) \<subseteq> set (map fst ?ss)"
    unfolding list_all_iff range_within_iff by (auto, metis map_of_eq_None_iff option.distinct(1) fst_conv image_eqI)
  ultimately show ?thesis
    unfolding is_subset_of_def decay_le_def subset_list_iff by (auto simp: not_le not_less)
qed

text \<open>
  Narrowing is sound for decisions as long as no argument range disappears: \<open>permits\<close> reads a missing range
  as no constraint.
\<close>

lemma decay_permits_mono:
  assumes "decay_le a b" and "set (map fst (da_argument_ranges b)) \<subseteq> set (map fst (da_argument_ranges a))"
    and "distinct (map fst (da_argument_ranges b))" and "t' \<le> t" and "decay_permits a r t"
  shows "decay_permits b r t'"
proof -
  have adm: "range_admits (ar_arguments r) q" if "q \<in> set (da_argument_ranges b)" for q
  proof -
    obtain k lo' hi' where q: "q = (k, lo', hi')" by (cases q)
    with that assms(2) obtain x where x: "map_of (da_argument_ranges a) k = Some x"
      by (metis (no_types) fst_conv image_eqI image_set map_of_eq_None_iff not_Some_eq subsetD)
    obtain lo hi where lh: "x = (lo, hi)" by (cases x)
    with x assms(1) obtain l h where "map_of (da_argument_ranges b) k = Some (l, h)" "l \<le> lo" "hi \<le> h"
      unfolding decay_le_def ranges_le_def by blast
    moreover have "map_of (da_argument_ranges b) k = Some (lo', hi')"
      using that assms(3) unfolding q by simp
    moreover have "range_admits (ar_arguments r) (k, lo, hi)"
      using assms(5) map_of_SomeD [OF x] unfolding lh by (auto simp: decay_permits_def list_all_iff split: if_splits)
    ultimately show ?thesis unfolding q by (auto simp: range_admits_def split: option.splits pyval.splits)
  qed
  show ?thesis
    using assms(1,4,5) adm unfolding decay_le_def decay_permits_def by (auto simp: list_all_iff split: if_splits)
qed

subsection \<open>The profile of a ceiling\<close>

definition valid_step :: "decay_step \<Rightarrow> bool" where
  "valid_step s \<longleftrightarrow> ds_trigger s \<in> set DECAY_TRIGGERS \<and> bounded_int (ds_threshold s)
     \<and> list_all unique_strings [ds_remove_network_destinations s, ds_remove_tools s, ds_remove_actions s, ds_remove_resources s]
     \<and> list_all (pred_option bounded_int) [ds_maximum_calls s, ds_maximum_read_bytes s, ds_maximum_write_bytes s,
          ds_maximum_parallelism s, ds_maximum_effect_severity s, ds_shorten_expiration_to_ms s]"

definition normal_step :: "decay_step \<Rightarrow> decay_step" where
  "normal_step s = s\<lparr>ds_remove_network_destinations := sort (ds_remove_network_destinations s),
     ds_remove_tools := sort (ds_remove_tools s), ds_remove_actions := sort (ds_remove_actions s),
     ds_remove_resources := sort (ds_remove_resources s)\<rparr>"

lemma opt_int_cases [simp]: "opt_int t = PNone \<longleftrightarrow> t = None" "opt_int_of (opt_int t) = t"
  by (cases t; simp add: opt_int_def)+

lemma decay_nonnegative_opt:
  "(if opt_int t = PNone then Inr () else unitE (decay_nonnegative (opt_int t))) = Inr () \<longleftrightarrow> pred_option bounded_int t"
  by (cases t) (auto simp: opt_int_def unitE_Inr_iff decay_nonnegative_iff)

lemma decay_step_new_iff:
  "decay_step_init (decay_step_args s) = Inr b \<longleftrightarrow> valid_step s \<and> b = normal_step s"
proof -
  have "decay_step_checks (decay_step_args s) = Inr () \<longleftrightarrow> valid_step s"
    unfolding decay_step_checks_def seqE_Inr_iff decay_step_strings_def decay_step_maxima_def list.map set_append ball_Un
      list.set ball_simps decay_step_args_lookup decay_nonnegative_opt
    by (auto simp: valid_step_def checkE_Inr_iff unitE_Inr_iff decay_nonnegative_iff)
  moreover have "decay_step_build (decay_step_args s) = normal_step s"
    by (simp add: decay_step_build_def decay_step_args_lookup normal_step_def strs_of_PTexts)
  ultimately show ?thesis by (auto simp: decay_step_init_def res_simps)
qed

lemma decay_profile_init_Inr:
  "decay_profile_init pid ver initial steps refresh = Inr p \<longleftrightarrow> (\<exists>i v. pid = PStr i \<and> i \<noteq> [] \<and> ver = PStr v \<and> v \<noteq> []
     \<and> decay_strings refresh = Inr (sort REFRESH_REQUIREMENTS) \<and> p = \<lparr>dp_profile_id = i, dp_version = v,
        dp_initial_authority = initial, dp_steps = sort_key (\<lambda>s. (ds_trigger s, ds_threshold s)) steps,
        dp_refresh_requirements = sort REFRESH_REQUIREMENTS\<rparr>)"
  unfolding decay_profile_init_def bindE_Inr_iff checkE_Inr_iff
  by (cases pid; cases ver) auto

lemma profile_for_ceiling_Inr:
  assumes "decay_profile_for_ceiling c ver (Some i) (Some e) = Inr p"
  shows "bounded_int i \<and> bounded_int e \<and> i < e \<and> e \<le> cp_expires_at_ms c \<and> valid_authority (ceiling_authority c e)
    \<and> dp_initial_authority p = normal_authority (ceiling_authority c e) \<and> wf_authority (dp_initial_authority p)
    \<and> mset (dp_steps p) = mset (map normal_step (ceiling_steps c i e)) \<and> list_all valid_step (ceiling_steps c i e)
    \<and> dp_profile_id p = cp_decay_profile c \<and> dp_version p = ver
    \<and> dp_refresh_requirements p = sort REFRESH_REQUIREMENTS"
proof -
  from assms obtain a steps where f: "bounded_int i" "bounded_int e" "i < e" "e \<le> cp_expires_at_ms c"
    and a: "decay_authority_init (decay_authority_args (ceiling_authority c e)) = Inr a"
    and steps: "map (\<lambda>s. decay_step_init (decay_step_args s)) (ceiling_steps c i e) = map Inr steps"
    and p: "decay_profile_init (PStr (cp_decay_profile c)) (PStr ver) a steps (PTexts REFRESH_REQUIREMENTS) = Inr p"
    unfolding decay_profile_for_ceiling_def Let_def option.case bindE_Inr_iff checkE_Inr_iff unitE_Inr_iff sequenceE_Inr_iff
    by (auto simp: decay_nonnegative_iff)
  have "list_all valid_step xs \<and> steps = map normal_step xs"
    if "map (\<lambda>s. decay_step_init (decay_step_args s)) xs = map Inr steps" for xs steps
    using that by (induction xs arbitrary: steps) (auto simp: decay_step_new_iff Cons_eq_map_conv)
  from this [OF steps] have "list_all valid_step (ceiling_steps c i e)" "steps = map normal_step (ceiling_steps c i e)" by auto
  moreover have "wf_authority a" using decay_authority_new_wf [OF a] by (simp add: ceiling_authority_def)
  ultimately show ?thesis
    using f a p by (auto simp: decay_authority_new_iff decay_profile_init_Inr)
qed

section \<open>Properties\<close>

text \<open>
  The authority a capability starts with. The decay profile of a compiled ceiling never exceeds the ceiling:
  at most one call, no later expiry, the same actions, tools, destinations, byte limits and parallelism, and the
  resources of the ceiling's actions; and unless the ceiling has the profile \<open>none\<close>, it contains a step that
  takes every call and every byte away at the first canary event.
\<close>

theorem decay_profile_within_ceiling:
  assumes "decay_profile_for_ceiling c ver (Some i) (Some e) = Inr p"
  shows "da_remaining_calls (dp_initial_authority p) = min 1 (cp_maximum_calls c)
    \<and> i < da_expires_at_ms (dp_initial_authority p) \<and> da_expires_at_ms (dp_initial_authority p) \<le> cp_expires_at_ms c
    \<and> set (da_actions (dp_initial_authority p)) = set (cp_actions c) \<and> set (da_tools (dp_initial_authority p)) = set (cp_tools c)
    \<and> set (da_network_destinations (dp_initial_authority p)) = set (cp_network_destinations c)
    \<and> set (da_resources (dp_initial_authority p)) = (\<Union>x \<in> set (cp_action_resources c). set (snd x))
    \<and> da_remaining_read_bytes (dp_initial_authority p) = cp_maximum_read_bytes c
    \<and> da_remaining_write_bytes (dp_initial_authority p) = cp_maximum_write_bytes c
    \<and> da_maximum_parallelism (dp_initial_authority p) = cp_maximum_parallelism c
    \<and> (cp_decay_profile c \<noteq> ''none'' \<longrightarrow> (\<exists>s \<in> set (dp_steps p). ds_trigger s = ''canary_events'' \<and> ds_threshold s = 1
         \<and> ds_maximum_calls s = Some 0 \<and> ds_maximum_read_bytes s = Some 0 \<and> ds_maximum_write_bytes s = Some 0))"
proof -
  note p = profile_for_ceiling_Inr [OF assms]
  have "set (dp_steps p) = normal_step ` set (ceiling_steps c i e)"
    using p by (metis set_mset_mset set_map)
  then have "cp_decay_profile c \<noteq> ''none'' \<Longrightarrow> \<exists>s \<in> set (dp_steps p). ds_trigger s = ''canary_events'' \<and> ds_threshold s = 1
      \<and> ds_maximum_calls s = Some 0 \<and> ds_maximum_read_bytes s = Some 0 \<and> ds_maximum_write_bytes s = Some 0"
    by (simp add: ceiling_steps_def normal_step_def default_step_def)
  with p show ?thesis by (auto simp: normal_authority_def ceiling_authority_def)
qed

lemma demo_profile: "okE (decay_profile_for_ceiling (demo_ceiling 4) ''v1'' (Some 100000) (Some 105000))"
  by code_simp

theorem decay_profile_within_ceiling_witness:
  "\<exists>p. decay_profile_for_ceiling (demo_ceiling 4) ''v1'' (Some 100000) (Some 105000) = Inr p
    \<and> da_remaining_calls (dp_initial_authority p) = 1 \<and> da_expires_at_ms (dp_initial_authority p) \<le> cp_expires_at_ms (demo_ceiling 4)"
proof -
  obtain p where p: "decay_profile_for_ceiling (demo_ceiling 4) ''v1'' (Some 100000) (Some 105000) = Inr p"
    using demo_profile by (auto simp: okE_iff)
  moreover have "min 1 (cp_maximum_calls (demo_ceiling 4)) = 1" by code_simp
  ultimately show ?thesis using decay_profile_within_ceiling [OF p] by simp
qed

text \<open>
  A narrower authority decides more strictly. When one valid authority is a subset of another by
  \<open>is_subset_of\<close> and constrains the same arguments, every request it permits is permitted by the other, also at
  any earlier time; so whatever the wider authority denies, the narrower one denies.
\<close>

theorem subset_decides_stricter:
  assumes "wf_authority a" and "wf_authority b" and "is_subset_of a b"
    and "set (map fst (da_argument_ranges b)) \<subseteq> set (map fst (da_argument_ranges a))"
    and "decay_permits a r t" and "t' \<le> t"
  shows "decay_permits b r t'"
  using assms decay_permits_mono is_subset_of_iff unfolding wf_authority_def by blast

definition demo_authority :: "(string \<times> int \<times> int) list \<Rightarrow> decay_authority" where
  "demo_authority ranges = \<lparr>da_expires_at_ms = 2000, da_remaining_calls = 1, da_remaining_read_bytes = 10,
     da_remaining_write_bytes = 0, da_network_destinations = [], da_tools = [''reader''], da_actions = [''read''],
     da_resources = [''doc''], da_argument_ranges = ranges, da_maximum_parallelism = 1, da_maximum_effect_severity = 5\<rparr>"

definition demo_read :: "int \<Rightarrow> action_request" where
  "demo_read n = \<lparr>ar_request_id = ''r1'', ar_session_id = ''s1'', ar_agent_id = ''a1'', ar_operation = ''read'',
     ar_resource_id = ''doc'', ar_executor_id = ''e1'', ar_arguments = [(''length'', PInt n)], ar_purpose = ''test''\<rparr>"

theorem subset_decides_stricter_witness:
  "decay_permits (demo_authority [(''length'', 0, 10)]) (demo_read 7) 1000"
proof -
  have "wf_authority (demo_authority [(''length'', 2, 8)])" "wf_authority (demo_authority [(''length'', 0, 10)])"
    "is_subset_of (demo_authority [(''length'', 2, 8)]) (demo_authority [(''length'', 0, 10)])"
    "decay_permits (demo_authority [(''length'', 2, 8)]) (demo_read 7) 1500"
    by (code_simp, code_simp, code_simp, code_simp)
  moreover have "set (map fst (da_argument_ranges (demo_authority [(''length'', 0, 10)])))
      \<subseteq> set (map fst (da_argument_ranges (demo_authority [(''length'', 2, 8)])))"
    by (simp add: demo_authority_def)
  ultimately show ?thesis using subset_decides_stricter by fastforce
qed

text \<open>An authority without its range for one argument.\<close>

definition without_range :: "string \<Rightarrow> decay_authority \<Rightarrow> decay_authority" where
  "without_range k a = a\<lparr>da_argument_ranges := filter (\<lambda>q. fst q \<noteq> k) (da_argument_ranges a)\<rparr>"

lemma without_range_wf:
  assumes "wf_authority a"
  shows "wf_authority (without_range k a)"
proof -
  have "sorted (map fst (filter (\<lambda>q. fst q \<noteq> k) (da_argument_ranges a)))" "distinct (map fst (filter (\<lambda>q. fst q \<noteq> k) (da_argument_ranges a)))"
    using assms by (auto simp: wf_authority_def normal_authority_iff sorted_filter distinct_map_filter)
  then show ?thesis
    using assms by (auto simp: wf_authority_def normal_authority_iff valid_authority_def without_range_def valid_ranges_def list_all_iff
        intro: le_trans [OF length_filter_le])
qed

lemma without_range_subset: "wf_authority a \<Longrightarrow> is_subset_of (without_range k a) a"
  by (subst is_subset_of_iff)
    (auto simp: wf_authority_def without_range_def distinct_map_filter decay_le_def ranges_le_def dest!: map_of_SomeD intro!: exI)

lemma without_range_permits:
  assumes "wf_authority a" and "(k, lo, hi) \<in> set (da_argument_ranges a)" and "decay_permits a r t"
  shows "decay_permits (without_range k a) (r\<lparr>ar_arguments := AList.update k (PInt (hi + 1)) (ar_arguments r)\<rparr>) t"
    and "\<not> decay_permits a (r\<lparr>ar_arguments := AList.update k (PInt (hi + 1)) (ar_arguments r)\<rparr>) t"
proof -
  let ?as = "AList.update k (PInt (hi + 1)) (ar_arguments r)"
  have "range_admits ?as q" if "q \<in> set (da_argument_ranges a)" "fst q \<noteq> k" for q
    using assms(3) that by (auto simp: decay_permits_def range_admits_def update_conv' list_all_iff split: if_splits)
  then show "decay_permits (without_range k a) (r\<lparr>ar_arguments := ?as\<rparr>) t"
    using assms(3) by (auto simp: decay_permits_def without_range_def list_all_iff split: if_splits)
  have "\<not> range_admits ?as (k, lo, hi)" by (simp add: range_admits_def update_conv')
  then show "\<not> decay_permits a (r\<lparr>ar_arguments := ?as\<rparr>) t" using assms(2) by (auto simp: decay_permits_def list_all_iff)
qed

text \<open>
  C35: dropping an argument range passes for narrowing. \<open>is_subset_of\<close> asks that every range of the new authority lie inside one of
  the prior authority, but accepts that a range disappears, and \<open>permits\<close> reads a missing range as no constraint. So for
  every valid authority and every range of it, the authority without this range is valid and counts as a subset; and for
  every request the authority permits, the same request with the argument set above the range is permitted by the
  subset and denied by the authority itself.
\<close>

theorem dropped_range_passes_as_subset:
  assumes "wf_authority a" and "(k, lo, hi) \<in> set (da_argument_ranges a)"
  shows "wf_authority (without_range k a) \<and> is_subset_of (without_range k a) a
    \<and> (\<forall>r t. decay_permits a r t \<longrightarrow>
         decay_permits (without_range k a) (r\<lparr>ar_arguments := AList.update k (PInt (hi + 1)) (ar_arguments r)\<rparr>) t
       \<and> \<not> decay_permits a (r\<lparr>ar_arguments := AList.update k (PInt (hi + 1)) (ar_arguments r)\<rparr>) t)"
  using without_range_wf [OF assms(1)] without_range_subset [OF assms(1)] without_range_permits [OF assms] by blast

theorem dropped_range_passes_as_subset_witness:
  "is_subset_of (without_range ''length'' (demo_authority [(''length'', 0, 10)])) (demo_authority [(''length'', 0, 10)])
    \<and> decay_permits (without_range ''length'' (demo_authority [(''length'', 0, 10)])) (demo_read 11) 1000
    \<and> \<not> decay_permits (demo_authority [(''length'', 0, 10)]) (demo_read 11) 1000"
proof -
  let ?a = "demo_authority [(''length'', 0, 10)]"
  have "wf_authority ?a" "decay_permits ?a (demo_read 7) 1000" by (code_simp, code_simp)
  moreover have "(''length'', 0, 10) \<in> set (da_argument_ranges ?a)" by (simp add: demo_authority_def)
  moreover have "(demo_read 7)\<lparr>ar_arguments := AList.update ''length'' (PInt (10 + 1)) (ar_arguments (demo_read 7))\<rparr> = demo_read 11"
    by (simp add: demo_read_def)
  ultimately show ?thesis using dropped_range_passes_as_subset [of ?a "''length''" 0 10] by metis
qed

end
