(* ===== verification/ReplayState.thy ===== *)
theory ReplayState
  imports Models
begin

text \<open>
  The capability consumption stores of \<open>replay_state.py\<close>: the validation of a consumption, the in-memory
  store, the durable SQLite store, and the contract both keep, the locale \<open>consumption_store\<close>.

  A store call is a value of \<open>consumption\<close>, the arguments of \<open>consume\<close>. The SQLite store works on a database
  that replicas share: the rows of \<open>capability_consumptions\<close> by their primary key and the schema version
  row. A call is one transaction (\<open>BEGIN IMMEDIATE\<close> to \<open>COMMIT\<close> under the write lock of the database), so
  calls of concurrent replicas are a sequence of calls. What \<open>sqlite3\<close> does beyond that is the argument
  \<open>fault\<close> of the call: it may raise before the commit, which rolls the insert back, or while
  committing, when the insert may or may not have become durable.
\<close>

section \<open>Definitions\<close>

record consumption =
  cn_capability_id :: pyval
  cn_claims_digest :: pyval
  cn_expires_at :: pyval
  cn_consumed_at :: pyval

definition validate_transition :: "consumption \<Rightarrow> unit res" where
  "validate_transition c = seqE
     [checkE (\<not> (is_str (cn_capability_id c) \<and> is_capability_id (str_of (cn_capability_id c))))
        (CapabilityConsumptionError ''capability consumption ID is malformed''),
      checkE (\<not> (is_str (cn_claims_digest c) \<and> is_digest (str_of (cn_claims_digest c))))
        (CapabilityConsumptionError ''capability claims digest is malformed''),
      checkE (\<not> is_int (cn_expires_at c) \<or> \<not> is_int (cn_consumed_at c))
        (CapabilityConsumptionError ''capability consumption times must be integers''),
      checkE (int_of (cn_expires_at c) \<le> 0 \<or> int_of (cn_consumed_at c) < 0)
        (CapabilityConsumptionError ''capability consumption times are invalid'')]"

definition cn_id :: "consumption \<Rightarrow> string" where
  "cn_id c = str_of (cn_capability_id c)"

definition cn_claim :: "consumption \<Rightarrow> string \<times> int" where
  "cn_claim c = (str_of (cn_claims_digest c), int_of (cn_expires_at c))"

subsection \<open>In-memory store\<close>

record memory_store =
  ms_consumed :: "string \<rightharpoonup> string \<times> int"

definition memory_init :: memory_store where
  "memory_init = \<lparr>ms_consumed = Map.empty\<rparr>"

definition collision :: exn where
  "collision = CapabilityConsumptionError ''capability ID collided with different signed claims''"

definition memory_consume :: "consumption \<Rightarrow> memory_store \<Rightarrow> bool res \<times> memory_store" where
  "memory_consume c s = (case validate_transition c of
     Inl e \<Rightarrow> (Inl e, s)
   | Inr _ \<Rightarrow> (case ms_consumed s (cn_id c) of
       Some previous \<Rightarrow> (if previous \<noteq> cn_claim c then Inl collision else Inr False, s)
     | None \<Rightarrow> (Inr True, s\<lparr>ms_consumed := (ms_consumed s)(cn_id c \<mapsto> cn_claim c)\<rparr>)))"

subsection \<open>SQLite store\<close>

record replay_database =
  db_schema_version :: "int option"
  db_rows :: "string \<times> string \<times> string \<rightharpoonup> string \<times> int \<times> int"

record sqlite_store =
  ss_namespace :: string
  ss_domain :: string
  ss_busy_timeout_ms :: int
  ss_closed :: bool

datatype db_fault = No_fault | Fault_before_commit | Fault_at_commit bool

text \<open>The character classes of \<open>_SCOPE\<close>.\<close>

definition is_scope_start :: "char \<Rightarrow> bool" where
  "is_scope_start c \<longleftrightarrow> (CHR ''a'' \<le> c \<and> c \<le> CHR ''z'') \<or> (CHR ''0'' \<le> c \<and> c \<le> CHR ''9'')"

definition is_scope :: "string \<Rightarrow> bool" where
  "is_scope s = (case s of [] \<Rightarrow> False
     | c # cs \<Rightarrow> is_scope_start c \<and> length cs \<le> 127
         \<and> list_all (\<lambda>x. is_scope_start x \<or> x = CHR ''.'' \<or> x = CHR ''_'' \<or> x = CHR '':'' \<or> x = CHR ''-'') cs)"

text \<open>
  \<open>__init__\<close>; \<open>path\<close> is \<open>str(Path(database_path))\<close>. A database without the schema table gets it with version 1.
\<close>

definition sqlite_init :: "string \<Rightarrow> string \<Rightarrow> string \<Rightarrow> pyval \<Rightarrow> replay_database \<Rightarrow> sqlite_store res \<times> replay_database" where
  "sqlite_init path namespace domain busy_timeout db =
     (if path = [] \<or> path = '':memory:'' then (Inl (ValueError ''durable capability database path is invalid''), db)
      else if \<not> is_scope namespace \<or> \<not> is_scope domain
        then (Inl (ValueError ''capability database namespace or domain is invalid''), db)
      else if \<not> (is_int busy_timeout \<and> 1 \<le> int_of busy_timeout \<and> int_of busy_timeout \<le> 60000)
        then (Inl (ValueError ''capability database busy timeout is invalid''), db)
      else let db' = (case db_schema_version db of None \<Rightarrow> db\<lparr>db_schema_version := Some 1\<rparr> | Some _ \<Rightarrow> db) in
        if db_schema_version db' \<noteq> Some 1
        then (Inl (CapabilityConsumptionError ''capability replay database schema version is unsupported''), db')
        else (Inr \<lparr>ss_namespace = namespace, ss_domain = domain, ss_busy_timeout_ms = int_of busy_timeout,
                   ss_closed = False\<rparr>, db'))"

text \<open>
  \<open>INSERT ... ON CONFLICT DO NOTHING\<close>: the row count and the table afterwards. An integer outside the 64 bit
  range of SQLite makes the driver raise \<open>OverflowError\<close>, which is no \<open>sqlite3.Error\<close>.
\<close>

definition fits_int64 :: "int \<Rightarrow> bool" where
  "fits_int64 i \<longleftrightarrow> - (2 ^ 63) \<le> i \<and> i < 2 ^ 63"

definition row_key :: "sqlite_store \<Rightarrow> consumption \<Rightarrow> string \<times> string \<times> string" where
  "row_key s c = (ss_namespace s, ss_domain s, cn_id c)"

definition insert_row :: "sqlite_store \<Rightarrow> consumption \<Rightarrow> replay_database \<Rightarrow> nat \<times> replay_database" where
  "insert_row s c db = (case db_rows db (row_key s c) of
     Some _ \<Rightarrow> (0, db)
   | None \<Rightarrow> (1, db\<lparr>db_rows := (db_rows db)(row_key s c \<mapsto>
                (str_of (cn_claims_digest c), int_of (cn_expires_at c), int_of (cn_consumed_at c)))\<rparr>))"

definition failed_closed :: exn where
  "failed_closed = CapabilityConsumptionError ''capability replay transaction failed closed''"

definition read_back :: "consumption \<Rightarrow> (string \<times> int \<times> int) option \<Rightarrow> bool res" where
  "read_back c row = (case row of
     None \<Rightarrow> Inl (CapabilityConsumptionError ''capability replay record disappeared'')
   | Some (d, e, _) \<Rightarrow> if d \<noteq> str_of (cn_claims_digest c) \<or> e \<noteq> int_of (cn_expires_at c) then Inl collision else Inr False)"

definition sqlite_consume :: "sqlite_store \<Rightarrow> db_fault \<Rightarrow> consumption \<Rightarrow> replay_database \<Rightarrow> bool res \<times> replay_database" where
  "sqlite_consume s fault c db = (case validate_transition c of
     Inl e \<Rightarrow> (Inl e, db)
   | Inr _ \<Rightarrow>
       if ss_closed s then (Inl (CapabilityConsumptionError ''capability replay database is closed''), db)
       else if fault = Fault_before_commit then (Inl failed_closed, db)
       else if \<not> fits_int64 (int_of (cn_expires_at c)) \<or> \<not> fits_int64 (int_of (cn_consumed_at c))
         then (Inl (ExternalError ''OverflowError''), db)
       else case insert_row s c db of (rowcount, db') \<Rightarrow>
         (case fault of
            Fault_at_commit durable \<Rightarrow> (Inl failed_closed, if durable then db' else db)
          | _ \<Rightarrow> (if rowcount = 1 then Inr True else read_back c (db_rows db' (row_key s c)), db')))"

definition sqlite_close :: "sqlite_store \<Rightarrow> sqlite_store" where
  "sqlite_close s = s\<lparr>ss_closed := True\<rparr>"

subsection \<open>Histories\<close>

text \<open>Calls one after the other, each with its own environment (the replica that makes it, a fault).\<close>

fun run_calls :: "('e \<Rightarrow> 'c \<Rightarrow> 's \<Rightarrow> 'r \<times> 's) \<Rightarrow> ('e \<times> 'c) list \<Rightarrow> 's \<Rightarrow> 'r list \<times> 's" where
  "run_calls f [] s = ([], s)"
| "run_calls f ((e, c) # cs) s = (case f e c s of (r, s') \<Rightarrow> case run_calls f cs s' of (rs, s'') \<Rightarrow> (r # rs, s''))"

text \<open>The number of calls of a history that won \<open>k\<close>; for a store, the accepted calls for a capability.\<close>

definition wins :: "('k \<Rightarrow> 'c \<Rightarrow> 'r \<Rightarrow> bool) \<Rightarrow> 'k \<Rightarrow> ('e \<times> 'c) list \<Rightarrow> 'r list \<Rightarrow> nat" where
  "wins won k cs rs = length (filter (\<lambda>((e, c), r). won k c r) (zip cs rs))"

definition accepts :: "string \<Rightarrow> consumption \<Rightarrow> bool res \<Rightarrow> bool" where
  "accepts i c r \<longleftrightarrow> cn_id c = i \<and> r = Inr True"

section \<open>One-shot resources\<close>

text \<open>
  Calls that compete for keys: a call wins a key only when it is unused and uses it up, and a used key stays used.
  Then every key is won at most once, in any order and any interleaving of the calls.
\<close>

locale one_shot =
  fixes run :: "'e \<Rightarrow> 'c \<Rightarrow> 's \<Rightarrow> 'r \<times> 's" and won :: "'k \<Rightarrow> 'c \<Rightarrow> 'r \<Rightarrow> bool" and used :: "'s \<Rightarrow> 'k \<Rightarrow> bool"
  assumes win: "run e c s = (r, s') \<Longrightarrow> won k c r \<Longrightarrow> \<not> used s k \<and> used s' k"
    and stay: "run e c s = (r, s') \<Longrightarrow> used s k \<Longrightarrow> used s' k"
begin

lemma wins_Cons:
  "run e c s = (r, s') \<Longrightarrow> wins won k ((e, c) # cs) (fst (run_calls run ((e, c) # cs) s)) =
     (if won k c r then 1 else 0) + wins won k cs (fst (run_calls run cs s'))"
  by (simp add: wins_def split: prod.split)

lemma used_no_wins: "used s k \<Longrightarrow> wins won k cs (fst (run_calls run cs s)) = 0"
proof (induction cs arbitrary: s)
  case (Cons a cs)
  obtain e c r s' where a: "a = (e, c)" and f: "run e c s = (r, s')" by fastforce
  then have "\<not> won k c r" "used s' k" using win stay Cons.prems by fastforce+
  then show ?case unfolding a wins_Cons [OF f] using Cons.IH by simp
qed (simp add: wins_def)

theorem at_most_once: "wins won k cs (fst (run_calls run cs s)) \<le> 1"
proof (induction cs arbitrary: s)
  case (Cons a cs)
  obtain e c r s' where a: "a = (e, c)" and f: "run e c s = (r, s')" by fastforce
  show ?case
  proof (cases "won k c r")
    case True
    then have "used s' k" using win f by blast
    then show ?thesis using used_no_wins True unfolding a wins_Cons [OF f] by simp
  next
    case False
    then show ?thesis using Cons.IH unfolding a wins_Cons [OF f] by auto
  qed
qed (simp add: wins_def)

end

section \<open>The contract of a consumption store\<close>

text \<open>
  \<open>CapabilityConsumptionStore\<close>: \<open>spent s i\<close> is the claim recorded for capability \<open>i\<close>. A call is accepted only
  for an unspent capability, which it spends; whatever is spent stays spent with the same claim; \<open>False\<close> is
  the answer to a second presentation of the same claim.
\<close>

locale consumption_store =
  fixes consume :: "'e \<Rightarrow> consumption \<Rightarrow> 's \<Rightarrow> bool res \<times> 's"
    and spent :: "'s \<Rightarrow> string \<Rightarrow> (string \<times> int) option"
  assumes accept: "consume e c s = (Inr True, s') \<Longrightarrow> spent s (cn_id c) = None \<and> spent s' (cn_id c) = Some (cn_claim c)"
    and persist: "consume e c s = (r, s') \<Longrightarrow> spent s i = Some x \<Longrightarrow> spent s' i = Some x"
    and again: "consume e c s = (Inr False, s') \<Longrightarrow> spent s (cn_id c) = Some (cn_claim c)"

sublocale consumption_store \<subseteq> one_shot consume accepts "\<lambda>s i. spent s i \<noteq> None"
  using accept persist by unfold_locales (auto simp: accepts_def)

context consumption_store
begin

lemma spent_after_run: "spent s i = Some x \<Longrightarrow> spent (snd (run_calls consume cs s)) i = Some x"
proof (induction cs arbitrary: s)
  case (Cons a cs)
  obtain e c r s' where a: "a = (e, c)" and f: "consume e c s = (r, s')" by fastforce
  with Cons persist show ?case by (fastforce split: prod.split)
qed simp

end

section \<open>Lemmas\<close>

lemma validate_transition_iff [res_simps]:
  "validate_transition c = Inr u \<longleftrightarrow> (\<exists>i d e t. c = \<lparr>cn_capability_id = PStr i, cn_claims_digest = PStr d,
     cn_expires_at = PInt e, cn_consumed_at = PInt t\<rparr> \<and> is_capability_id i \<and> is_digest d \<and> 0 < e \<and> 0 \<le> t)"
  unfolding validate_transition_def seqE_Inr_iff
  by (cases c) (auto simp: checkE_Inr_iff is_str_PStr is_int_PInt, metis linorder_not_le linorder_not_less)

definition memory_spent :: "memory_store \<Rightarrow> string \<Rightarrow> (string \<times> int) option" where
  "memory_spent s i = ms_consumed s i"

definition sqlite_spent :: "string \<Rightarrow> string \<Rightarrow> replay_database \<Rightarrow> string \<Rightarrow> (string \<times> int) option" where
  "sqlite_spent ns dm db i = map_option (\<lambda>(d, e, t). (d, e)) (db_rows db (ns, dm, i))"

text \<open>What a replica of the scope \<open>(ns, dm)\<close> does; its environment is its handle's state and the fault.\<close>

definition replica_consume ::
  "string \<Rightarrow> string \<Rightarrow> (bool \<times> int) \<times> db_fault \<Rightarrow> consumption \<Rightarrow> replay_database \<Rightarrow> bool res \<times> replay_database" where
  "replica_consume ns dm e c db = (case e of ((closed, timeout), fault) \<Rightarrow>
     sqlite_consume \<lparr>ss_namespace = ns, ss_domain = dm, ss_busy_timeout_ms = timeout, ss_closed = closed\<rparr> fault c db)"

interpretation memory: consumption_store "\<lambda>_::unit. memory_consume" memory_spent
  by unfold_locales (auto simp: memory_consume_def memory_spent_def split: sum.splits option.splits if_splits)

lemma sqlite_consume_cases:
  assumes "sqlite_consume s fault c db = (r, db')"
  obtains (unchanged) e where "r = Inl e" "db' = db"
  | (stored) "db_rows db (row_key s c) = None" "r = Inr True \<or> r = Inl failed_closed"
      "db' = db\<lparr>db_rows := (db_rows db)(row_key s c \<mapsto>
                (str_of (cn_claims_digest c), int_of (cn_expires_at c), int_of (cn_consumed_at c)))\<rparr>"
  | (present) row where "db_rows db (row_key s c) = Some row" "db' = db" "r = read_back c (Some row) \<or> r = Inl failed_closed"
proof (cases "okE (validate_transition c) \<and> \<not> ss_closed s \<and> fault \<noteq> Fault_before_commit
    \<and> fits_int64 (int_of (cn_expires_at c)) \<and> fits_int64 (int_of (cn_consumed_at c))")
  case False
  then show thesis using assms unchanged unfolding sqlite_consume_def okE_def
    by (auto split: sum.split_asm if_split_asm)
next
  case True
  then have "sqlite_consume s fault c db = (case insert_row s c db of (rowcount, db') \<Rightarrow>
         (case fault of
            Fault_at_commit durable \<Rightarrow> (Inl failed_closed, if durable then db' else db)
          | _ \<Rightarrow> (if rowcount = 1 then Inr True else read_back c (db_rows db' (row_key s c)), db')))"
    unfolding sqlite_consume_def okE_def by (simp split: sum.split_asm)
  with assms True show thesis
    using unchanged stored present by (cases fault) (auto simp: insert_row_def split: option.split_asm if_split_asm)
qed

lemma read_back_Inr: "read_back c (Some row) = Inr b \<longleftrightarrow> \<not> b \<and> (case row of (d, e, t) \<Rightarrow> (d, e)) = cn_claim c"
  by (auto simp: read_back_def cn_claim_def split: if_splits prod.splits)

interpretation sqlite: consumption_store "replica_consume ns dm" "sqlite_spent ns dm" for ns dm
proof
  fix e :: "(bool \<times> int) \<times> db_fault" and c s s' r i x
  obtain closed t fault where e: "e = ((closed, t), fault)" by (metis surj_pair)
  show "replica_consume ns dm e c s = (Inr True, s')
      \<Longrightarrow> sqlite_spent ns dm s (cn_id c) = None \<and> sqlite_spent ns dm s' (cn_id c) = Some (cn_claim c)"
    unfolding e replica_consume_def prod.case
    by (erule sqlite_consume_cases) (auto simp: sqlite_spent_def row_key_def cn_claim_def failed_closed_def dest: read_back_Inr [THEN iffD1, OF sym])
  show "replica_consume ns dm e c s = (r, s') \<Longrightarrow> sqlite_spent ns dm s i = Some x \<Longrightarrow> sqlite_spent ns dm s' i = Some x"
    unfolding e replica_consume_def prod.case
    by (erule sqlite_consume_cases) (auto simp: sqlite_spent_def row_key_def)
  show "replica_consume ns dm e c s = (Inr False, s') \<Longrightarrow> sqlite_spent ns dm s (cn_id c) = Some (cn_claim c)"
    unfolding e replica_consume_def prod.case
    by (erule sqlite_consume_cases) (auto simp: sqlite_spent_def row_key_def failed_closed_def dest: read_back_Inr [THEN iffD1, OF sym])
qed

definition sqlite_abs :: "sqlite_store \<Rightarrow> replay_database \<Rightarrow> memory_store" where
  "sqlite_abs s db = \<lparr>ms_consumed = sqlite_spent (ss_namespace s) (ss_domain s) db\<rparr>"

section \<open>Properties\<close>

text \<open>
  A capability is consumed at most once. Over any history of calls of any number of replicas that share
  a database, with any times, claims and malformed arguments and with \<open>sqlite3\<close> failing anywhere, at most one
  call that presents a given capability ID in a scope is answered \<open>True\<close>; the in-memory store promises the same.
\<close>

theorem consumed_at_most_once:
  "wins accepts i cs (fst (run_calls (replica_consume ns dm) cs db)) \<le> 1
    \<and> wins accepts i ms (fst (run_calls (\<lambda>_::unit. memory_consume) ms st)) \<le> 1"
  by (simp only: sqlite.at_most_once memory.at_most_once conj_absorb simp_thms)

text \<open>
  C33: the durable store implements the in-memory one. On an open store and a call that \<open>sqlite3\<close> does not fail,
  with times in the range of a SQLite integer, the answer, the errors and the set of spent capabilities of the
  scope are those of the in-memory store; and no call touches what another namespace or domain has spent.
\<close>

theorem sqlite_refines_memory:
  assumes "\<not> ss_closed s" and "fits_int64 (int_of (cn_expires_at c))" and "fits_int64 (int_of (cn_consumed_at c))"
    and "(ns, dm) \<noteq> (ss_namespace s, ss_domain s)"
  shows "memory_consume c (sqlite_abs s db) =
      (fst (sqlite_consume s No_fault c db), sqlite_abs s (snd (sqlite_consume s No_fault c db)))
    \<and> sqlite_spent ns dm (snd (sqlite_consume s fault c db)) = sqlite_spent ns dm db"
proof
  show "memory_consume c (sqlite_abs s db) =
      (fst (sqlite_consume s No_fault c db), sqlite_abs s (snd (sqlite_consume s No_fault c db)))"
    using assms(1-3)
    by (auto simp: memory_consume_def sqlite_consume_def insert_row_def sqlite_abs_def sqlite_spent_def row_key_def
        read_back_def cn_claim_def fun_eq_iff split: sum.split option.split)
  obtain r db' where e: "sqlite_consume s fault c db = (r, db')" by fastforce
  then show "sqlite_spent ns dm (snd (sqlite_consume s fault c db)) = sqlite_spent ns dm db"
    by (rule sqlite_consume_cases) (use assms(4) e in \<open>auto simp: sqlite_spent_def row_key_def fun_eq_iff\<close>)
qed

definition demo_store :: sqlite_store where
  "demo_store = \<lparr>ss_namespace = ''prod'', ss_domain = ''broker'', ss_busy_timeout_ms = 5000, ss_closed = False\<rparr>"

definition demo_consumption :: consumption where
  "demo_consumption = \<lparr>cn_capability_id = PStr (''cap_'' @ replicate 24 CHR ''0''),
     cn_claims_digest = PStr (replicate 64 CHR ''a''), cn_expires_at = PInt 2000, cn_consumed_at = PInt 1000\<rparr>"

definition empty_database :: replay_database where
  "empty_database = \<lparr>db_schema_version = Some 1, db_rows = Map.empty\<rparr>"

theorem sqlite_refines_memory_witness:
  "fst (memory_consume demo_consumption (sqlite_abs demo_store empty_database)) = Inr True
    \<and> fst (sqlite_consume demo_store No_fault demo_consumption empty_database) = Inr True
    \<and> sqlite_spent ''prod'' ''executor'' (snd (sqlite_consume demo_store (Fault_at_commit True) demo_consumption empty_database)) (cn_id demo_consumption) = None"
proof -
  have h: "\<not> ss_closed demo_store" "fits_int64 (int_of (cn_expires_at demo_consumption))"
    "fits_int64 (int_of (cn_consumed_at demo_consumption))" "(''prod'', ''executor'') \<noteq> (ss_namespace demo_store, ss_domain demo_store)"
    by (simp_all add: demo_store_def demo_consumption_def fits_int64_def)
  have "fst (memory_consume demo_consumption (sqlite_abs demo_store empty_database)) = Inr True"
    by code_simp
  then show ?thesis
    using sqlite_refines_memory [OF h, of empty_database "Fault_at_commit True"]
    by (simp add: sqlite_spent_def empty_database_def)
qed

end
