(* ===== verification/TrustDecay.thy ===== *)
theory TrustDecay
  imports Decay ReplayState
begin

text \<open>
  The stateful part of \<open>trust_decay.py\<close>: \<open>DecayState\<close>, the transition rule every store enforces, the in-memory
  and the SQLite state store, and \<open>DecayEngine\<close>. The contract of a state store is the locale \<open>decay_store\<close>; the
  engine's guarantees are proved in it and hold for both stores.

  A store update runs a transition on the stored state. The transition of \<open>authorize\<close> also fills the dictionary
  \<open>outcome\<close>, which the model returns next to the new state. As in the replay store, a call is one transaction and
  \<open>sqlite3\<close> may fail before the commit or while committing.
\<close>

section \<open>Definitions\<close>

subsection \<open>State\<close>

record decay_state =
  dc_capability_id :: string
  dc_profile_digest :: string
  dc_max_observed_time_ms :: int
  dc_use_count :: int
  dc_read_bytes :: int
  dc_write_bytes :: int
  dc_denials :: int
  dc_risk_score :: int
  dc_canary_events :: int
  dc_trust_age_ms :: int
  dc_policy_age_ms :: int
  dc_environment_changes :: int
  dc_workload_restarts :: int
  dc_current_authority :: decay_authority

definition decay_counters :: "string list" where
  "decay_counters = [''max_observed_time_ms'', ''use_count'', ''read_bytes'', ''write_bytes'', ''denials'', ''risk_score'',
     ''canary_events'', ''trust_age_ms'', ''policy_age_ms'', ''environment_changes'', ''workload_restarts'']"

definition decay_state_fields :: "string list" where
  "decay_state_fields = [''capability_id'', ''profile_digest''] @ decay_counters @ [''current_authority'']"

definition decay_state_checks :: "(string \<Rightarrow> pyval) \<Rightarrow> unit res" where
  "decay_state_checks g = seqE
     ([checkE (\<not> (is_str (g ''capability_id'') \<and> truthy (g ''capability_id''))) (ValidationError ''decay state capability ID is invalid''),
       checkE (\<not> (is_str (g ''profile_digest'') \<and> is_digest (str_of (g ''profile_digest''))))
         (ValidationError ''decay state profile digest is invalid'')]
      @ map (\<lambda>n. unitE (decay_nonnegative (g n))) decay_counters)"

definition decay_state_build :: "(string \<Rightarrow> pyval) \<Rightarrow> decay_authority \<Rightarrow> decay_state" where
  "decay_state_build g authority =
     \<lparr>dc_capability_id = str_of (g ''capability_id''), dc_profile_digest = str_of (g ''profile_digest''),
      dc_max_observed_time_ms = int_of (g ''max_observed_time_ms''), dc_use_count = int_of (g ''use_count''),
      dc_read_bytes = int_of (g ''read_bytes''), dc_write_bytes = int_of (g ''write_bytes''),
      dc_denials = int_of (g ''denials''), dc_risk_score = int_of (g ''risk_score''),
      dc_canary_events = int_of (g ''canary_events''), dc_trust_age_ms = int_of (g ''trust_age_ms''),
      dc_policy_age_ms = int_of (g ''policy_age_ms''), dc_environment_changes = int_of (g ''environment_changes''),
      dc_workload_restarts = int_of (g ''workload_restarts''), dc_current_authority = authority\<rparr>"

definition decay_state_init :: "(string \<Rightarrow> pyval) \<Rightarrow> decay_authority \<Rightarrow> decay_state res" where
  "decay_state_init g authority = bindE (decay_state_checks g) (\<lambda>_. Inr (decay_state_build g authority))"

definition decay_state_to_dict :: "decay_state \<Rightarrow> dict" where
  "decay_state_to_dict s =
     [(''capability_id'', PStr (dc_capability_id s)), (''profile_digest'', PStr (dc_profile_digest s)),
      (''max_observed_time_ms'', PInt (dc_max_observed_time_ms s)), (''use_count'', PInt (dc_use_count s)),
      (''read_bytes'', PInt (dc_read_bytes s)), (''write_bytes'', PInt (dc_write_bytes s)),
      (''denials'', PInt (dc_denials s)), (''risk_score'', PInt (dc_risk_score s)),
      (''canary_events'', PInt (dc_canary_events s)), (''trust_age_ms'', PInt (dc_trust_age_ms s)),
      (''policy_age_ms'', PInt (dc_policy_age_ms s)), (''environment_changes'', PInt (dc_environment_changes s)),
      (''workload_restarts'', PInt (dc_workload_restarts s)),
      (''current_authority'', PDict (decay_authority_to_dict (dc_current_authority s)))]"

definition decay_state_from_dict :: "pyval \<Rightarrow> decay_state res" where
  "decay_state_from_dict v = (case v of
     PDict m \<Rightarrow>
       if \<not> set_eq_list (map fst m) decay_state_fields then Inl (ValidationError ''decay state fields are invalid'')
       else bindE (seqE (map (\<lambda>n. unitE (decay_nonnegative (dict_get m n))) decay_counters)) (\<lambda>_.
            bindE (decay_authority_from_dict (dict_get m ''current_authority'')) (\<lambda>authority.
            decay_state_init (dict_get m) authority))
   | _ \<Rightarrow> Inl (ValidationError ''decay state fields are invalid''))"

definition state_digest :: "host \<Rightarrow> decay_state \<Rightarrow> string res" where
  "state_digest H s = digest H (PDict (decay_state_to_dict s))"

definition counters_of :: "decay_state \<Rightarrow> int list" where
  "counters_of s = [dc_max_observed_time_ms s, dc_use_count s, dc_read_bytes s, dc_write_bytes s, dc_denials s,
     dc_risk_score s, dc_canary_events s, dc_trust_age_ms s, dc_policy_age_ms s, dc_environment_changes s, dc_workload_restarts s]"

definition validate_state_transition :: "string \<Rightarrow> decay_state option \<Rightarrow> decay_state \<Rightarrow> unit res" where
  "validate_state_transition capability_id prior state =
     (if dc_capability_id state \<noteq> capability_id then Inl (DecayError ''decay transition changed capability identity'')
      else case prior of
        None \<Rightarrow> Inr ()
      | Some p \<Rightarrow>
          if dc_profile_digest state \<noteq> dc_profile_digest p then Inl (DecayError ''decay transition changed the profile'')
          else if \<not> list_all2 (\<le>) (counters_of p) (counters_of state) then Inl (DecayError ''decay transition reduced monotonic counter'')
          else if \<not> is_subset_of (dc_current_authority state) (dc_current_authority p)
            then Inl (DecayError ''decay transition attempted to increase authority'')
          else Inr ())"

subsection \<open>Stores\<close>

type_synonym 'x transition = "decay_state option \<Rightarrow> (decay_state \<times> 'x) res"

text \<open>The body of both \<open>update\<close> methods: the transition and its validation.\<close>

definition run_transition :: "string \<Rightarrow> 'x transition \<Rightarrow> decay_state option \<Rightarrow> (decay_state \<times> 'x) res" where
  "run_transition capability_id f prior =
     bindE (f prior) (\<lambda>r. bindE (validate_state_transition capability_id prior (fst r)) (\<lambda>_. Inr r))"

type_synonym decay_memory = "string \<rightharpoonup> decay_state"

definition memory_update :: "string \<Rightarrow> 'x transition \<Rightarrow> decay_memory \<Rightarrow> (decay_state \<times> 'x) res \<times> decay_memory" where
  "memory_update capability_id f states = (case run_transition capability_id f (states capability_id) of
     Inl e \<Rightarrow> (Inl e, states)
   | Inr (state, x) \<Rightarrow> (Inr (state, x), states(capability_id \<mapsto> state)))"

text \<open>A row of \<open>decay_state\<close>: payload and payload digest.\<close>

type_synonym decay_rows = "string \<rightharpoonup> string \<times> string"

datatype decay_fault = Decay_ok | Decay_begin_fails | Decay_write_fails | Decay_commit_fails bool

definition load_locked :: "host \<Rightarrow> string \<Rightarrow> decay_rows \<Rightarrow> decay_state option res" where
  "load_locked H capability_id rows = (case rows capability_id of
     None \<Rightarrow> Inr None
   | Some (payload, payload_digest) \<Rightarrow>
       bindE (catchE
         (bindE (strict_json_loads H (Bytes payload) True) (\<lambda>value.
          bindE (digest H value) (\<lambda>d.
          if d \<noteq> payload_digest then Inl (DecayError ''decay state digest mismatch'') else decay_state_from_dict value)))
         value_or_type_error (DecayError ''decay state is corrupt'')) (\<lambda>state.
       if dc_capability_id state \<noteq> capability_id then Inl (DecayError ''decay state capability mismatch'') else Inr (Some state)))"

definition encode_state :: "host \<Rightarrow> decay_state \<Rightarrow> (string \<times> string) res" where
  "encode_state H state = bindE (canonical_bytes H (PDict (decay_state_to_dict state))) (\<lambda>payload.
     bindE (digest H (PDict (decay_state_to_dict state))) (\<lambda>d. Inr (payload, d)))"

text \<open>What happens between \<open>BEGIN IMMEDIATE\<close> and the \<open>INSERT\<close>: the result and the row to write.\<close>

definition prepare_update :: "host \<Rightarrow> string \<Rightarrow> 'x transition \<Rightarrow> decay_rows \<Rightarrow> ((decay_state \<times> 'x) \<times> string \<times> string) res" where
  "prepare_update H capability_id f rows =
     bindE (load_locked H capability_id rows) (\<lambda>prior.
     bindE (run_transition capability_id f prior) (\<lambda>r.
     bindE (encode_state H (fst r)) (\<lambda>row. Inr (r, row))))"

definition sqlite_update ::
  "host \<Rightarrow> decay_fault \<Rightarrow> string \<Rightarrow> 'x transition \<Rightarrow> decay_rows \<Rightarrow> (decay_state \<times> 'x) res \<times> decay_rows" where
  "sqlite_update H fault capability_id f rows =
     (if fault = Decay_begin_fails then (Inl (ExternalError ''sqlite3.Error''), rows)
      else case prepare_update H capability_id f rows of
        Inl e \<Rightarrow> (Inl e, rows)
      | Inr (r, row) \<Rightarrow> (case fault of
          Decay_write_fails \<Rightarrow> (Inl (ExternalError ''sqlite3.Error''), rows)
        | Decay_commit_fails durable \<Rightarrow> (Inl (ExternalError ''sqlite3.Error''), if durable then rows(capability_id \<mapsto> row) else rows)
        | _ \<Rightarrow> (Inr r, rows(capability_id \<mapsto> row))))"

subsection \<open>Engine\<close>

record observation =
  ob_read_bytes :: int
  ob_write_bytes :: int
  ob_denials :: int
  ob_risk_score :: int
  ob_canary_events :: int
  ob_trust_age_ms :: int
  ob_policy_age_ms :: int
  ob_environment_changes :: int
  ob_workload_restarts :: int

definition no_observation :: observation where
  "no_observation = \<lparr>ob_read_bytes = 0, ob_write_bytes = 0, ob_denials = 0, ob_risk_score = 0, ob_canary_events = 0,
     ob_trust_age_ms = 0, ob_policy_age_ms = 0, ob_environment_changes = 0, ob_workload_restarts = 0\<rparr>"

record decay_evaluation =
  ev_authorized_authority :: decay_authority
  ev_resulting_state :: decay_state
  ev_clock_rollback_observed :: bool

text \<open>The attribute of the prior state, or 0 when there is none.\<close>

definition prior_of :: "(decay_state \<Rightarrow> int) \<Rightarrow> decay_state option \<Rightarrow> int" where
  "prior_of f prior = (case prior of None \<Rightarrow> 0 | Some p \<Rightarrow> f p)"

definition effective_now :: "int \<Rightarrow> decay_state option \<Rightarrow> int" where
  "effective_now now_ms prior = max now_ms (case prior of None \<Rightarrow> now_ms | Some p \<Rightarrow> dc_max_observed_time_ms p)"

definition prior_counters :: "observation \<Rightarrow> int \<Rightarrow> int \<Rightarrow> decay_state option \<Rightarrow> (string \<times> int) list" where
  "prior_counters ob issued_at_ms now prior =
     [(''elapsed_ms'', max 0 (now - issued_at_ms)),
      (''use_count'', prior_of dc_use_count prior),
      (''read_bytes'', prior_of dc_read_bytes prior + ob_read_bytes ob),
      (''write_bytes'', prior_of dc_write_bytes prior + ob_write_bytes ob),
      (''denials'', prior_of dc_denials prior + ob_denials ob),
      (''risk_score'', max (prior_of dc_risk_score prior) (ob_risk_score ob)),
      (''canary_events'', prior_of dc_canary_events prior + ob_canary_events ob),
      (''trust_age_ms'', max (prior_of dc_trust_age_ms prior) (ob_trust_age_ms ob)),
      (''policy_age_ms'', max (prior_of dc_policy_age_ms prior) (ob_policy_age_ms ob)),
      (''environment_changes'', prior_of dc_environment_changes prior + ob_environment_changes ob),
      (''workload_restarts'', prior_of dc_workload_restarts prior + ob_workload_restarts ob)]"

definition counter :: "(string \<times> int) list \<Rightarrow> string \<Rightarrow> int" where
  "counter cs k = (case map_of cs k of None \<Rightarrow> 0 | Some n \<Rightarrow> n)"

text \<open>\<open>for step in profile.steps: if counters[step.trigger] >= step.threshold: ...\<close>; an unknown trigger is a \<open>KeyError\<close>.\<close>

fun apply_due :: "(string \<times> int) list \<Rightarrow> int \<Rightarrow> decay_step list \<Rightarrow> decay_authority \<Rightarrow> decay_authority res" where
  "apply_due counters issued_at_ms [] a = Inr a"
| "apply_due counters issued_at_ms (s # steps) a = (case map_of counters (ds_trigger s) of
     None \<Rightarrow> Inl (KeyError (ds_trigger s))
   | Some n \<Rightarrow> if n \<ge> ds_threshold s then bindE (apply_step a s issued_at_ms) (apply_due counters issued_at_ms steps)
               else apply_due counters issued_at_ms steps a)"

text \<open>The budgets left after this use.\<close>

definition spend :: "decay_authority \<Rightarrow> (string \<times> int) list \<Rightarrow> decay_authority \<Rightarrow> decay_authority" where
  "spend initial counters current = current
     \<lparr>da_remaining_calls := min (da_remaining_calls current) (max 0 (da_remaining_calls initial - counter counters ''use_count'')),
      da_remaining_read_bytes := min (da_remaining_read_bytes current) (max 0 (da_remaining_read_bytes initial - counter counters ''read_bytes'')),
      da_remaining_write_bytes := min (da_remaining_write_bytes current) (max 0 (da_remaining_write_bytes initial - counter counters ''write_bytes''))\<rparr>"

definition state_args :: "string \<Rightarrow> string \<Rightarrow> int \<Rightarrow> (string \<times> int) list \<Rightarrow> string \<Rightarrow> pyval" where
  "state_args capability_id pd now counters n =
     (if n = ''capability_id'' then PStr capability_id else if n = ''profile_digest'' then PStr pd
      else if n = ''max_observed_time_ms'' then PInt now else PInt (counter counters n))"

definition authorize_transition ::
  "host \<Rightarrow> string \<Rightarrow> decay_profile \<Rightarrow> action_request \<Rightarrow> int \<Rightarrow> int \<Rightarrow> observation \<Rightarrow> (decay_authority \<times> bool) transition" where
  "authorize_transition H capability_id profile request issued_at_ms now_ms ob prior =
     bindE (case prior of
              None \<Rightarrow> Inr ()
            | Some p \<Rightarrow> bindE (profile_digest H profile) (\<lambda>pd.
                checkE (dc_profile_digest p \<noteq> pd) (DecayError ''decay profile substitution detected''))) (\<lambda>_.
     let now = effective_now now_ms prior;
         counters0 = prior_counters ob issued_at_ms now prior;
         counters = AList.update ''use_count'' (counter counters0 ''use_count'' + 1) counters0 in
     bindE (apply_due counters0 issued_at_ms (dp_steps profile)
              (case prior of None \<Rightarrow> dp_initial_authority profile | Some p \<Rightarrow> dc_current_authority p)) (\<lambda>authorized.
     bindE (checkE (case prior of None \<Rightarrow> False | Some p \<Rightarrow> \<not> is_subset_of authorized (dc_current_authority p))
              (DecayError ''decay transition attempted to increase authority'')) (\<lambda>_.
     bindE (checkE (\<not> decay_permits authorized request now) (DecayError ''current decay authority denies the request'')) (\<lambda>_.
     bindE (apply_due counters issued_at_ms (dp_steps profile) authorized) (\<lambda>stepped.
     bindE (decay_authority_init (decay_authority_args (spend (dp_initial_authority profile) counters stepped))) (\<lambda>current.
     bindE (checkE (\<not> is_subset_of current authorized) (DecayError ''decay transition attempted to increase authority'')) (\<lambda>_.
     bindE (profile_digest H profile) (\<lambda>pd.
     bindE (decay_state_init (state_args capability_id pd now counters) current) (\<lambda>state.
     Inr (state, authorized, (case prior of None \<Rightarrow> False | Some p \<Rightarrow> now_ms < dc_max_observed_time_ms p)))))))))))"

fun is_decay_error :: "exn \<Rightarrow> bool" where
  "is_decay_error (DecayError _) = True"
| "is_decay_error _ = False"

definition authorize ::
  "(string \<Rightarrow> (decay_authority \<times> bool) transition \<Rightarrow> 's \<Rightarrow> (decay_state \<times> decay_authority \<times> bool) res \<times> 's)
     \<Rightarrow> host \<Rightarrow> string \<Rightarrow> decay_profile \<Rightarrow> action_request \<Rightarrow> int \<Rightarrow> int \<Rightarrow> observation \<Rightarrow> 's \<Rightarrow> decay_evaluation res \<times> 's" where
  "authorize update H capability_id profile request issued_at_ms now_ms ob s =
     (case seqE (map (\<lambda>i. unitE (decay_nonnegative (PInt i)))
             [ob_read_bytes ob, ob_write_bytes ob, ob_denials ob, ob_risk_score ob, ob_canary_events ob, ob_trust_age_ms ob,
              ob_policy_age_ms ob, ob_environment_changes ob, ob_workload_restarts ob]) of
        Inl e \<Rightarrow> (Inl e, s)
      | Inr _ \<Rightarrow>
          if now_ms < issued_at_ms - 5000 then (Inl (DecayError ''decay clock is before capability issuance''), s)
          else case update capability_id (authorize_transition H capability_id profile request issued_at_ms now_ms ob) s of
            (Inl e, s') \<Rightarrow> (Inl (if is_decay_error e then e else DecayError ''decay state unavailable''), s')
          | (Inr (state, authorized, rollback), s') \<Rightarrow>
              (Inr \<lparr>ev_authorized_authority = authorized, ev_resulting_state = state, ev_clock_rollback_observed = rollback\<rparr>, s'))"

text \<open>One call of \<open>authorize\<close>, and the number of calls of a history that were authorized for a capability.\<close>

record decay_call =
  cl_capability_id :: string
  cl_profile :: decay_profile
  cl_request :: action_request
  cl_issued_at_ms :: int
  cl_now_ms :: int
  cl_observation :: observation

definition engine_call ::
  "('e \<Rightarrow> string \<Rightarrow> (decay_authority \<times> bool) transition \<Rightarrow> 's \<Rightarrow> (decay_state \<times> decay_authority \<times> bool) res \<times> 's)
     \<Rightarrow> host \<Rightarrow> 'e \<Rightarrow> decay_call \<Rightarrow> 's \<Rightarrow> decay_evaluation res \<times> 's" where
  "engine_call update H e c =
     authorize (update e) H (cl_capability_id c) (cl_profile c) (cl_request c) (cl_issued_at_ms c) (cl_now_ms c) (cl_observation c)"

definition authorized_uses :: "string \<Rightarrow> ('e \<times> decay_call) list \<Rightarrow> decay_evaluation res list \<Rightarrow> nat" where
  "authorized_uses cid cs rs = length (filter (\<lambda>((e, c), r). cl_capability_id c = cid \<and> okE r) (zip cs rs))"

definition refresh_transition :: "host \<Rightarrow> string \<Rightarrow> decay_profile \<Rightarrow> unit transition" where
  "refresh_transition H capability_id profile prior = (case prior of
     Some _ \<Rightarrow> Inl (DecayError ''stale refresh response cannot replace existing authority'')
   | None \<Rightarrow> bindE (profile_digest H profile) (\<lambda>pd.
       bindE (decay_state_init (state_args capability_id pd 0 []) (dp_initial_authority profile)) (\<lambda>state. Inr (state, ()))))"

definition refresh ::
  "(string \<Rightarrow> unit transition \<Rightarrow> 's \<Rightarrow> (decay_state \<times> unit) res \<times> 's)
     \<Rightarrow> host \<Rightarrow> string \<Rightarrow> string \<Rightarrow> decay_profile \<Rightarrow> pyval \<Rightarrow> pyval \<Rightarrow> 's \<Rightarrow> decay_state res \<times> 's" where
  "refresh update H old_capability_id new_capability_id profile attestation_digest authorization_digest s =
     (if old_capability_id = new_capability_id then (Inl (DecayError ''refresh cannot reuse a capability ID''), s)
      else if \<not> list_all (\<lambda>v. is_str v \<and> is_digest (str_of v)) [attestation_digest, authorization_digest]
        then (Inl (DecayError ''refresh requires fresh attestation and authorization digests''), s)
      else case update new_capability_id (refresh_transition H new_capability_id profile) s of
        (Inl e, s') \<Rightarrow> (Inl e, s')
      | (Inr (state, _), s') \<Rightarrow> (Inr state, s'))"

section \<open>Lemmas\<close>

subsection \<open>Reading a stored state back\<close>

text \<open>The canonical form of the parts of a state is the part itself.\<close>

lemma canonical_PStr: "canonical_value H d (PStr s) = Inr c \<Longrightarrow> c = PStr s"
  by (auto simp: res_simps canonical_str_iff)

lemma canonical_PInt: "canonical_value H d (PInt i) = Inr c \<Longrightarrow> c = PInt i"
  by (auto split: if_splits)

lemma canonical_PStrs: "canonical_value H d (PStrs ss) = Inr c \<Longrightarrow> c = PStrs ss"
proof -
  assume "canonical_value H d (PStrs ss) = Inr c"
  then obtain cs where c: "c = PList cs" and all: "list_all2 (\<lambda>x y. canonical_value H (d + 1) x = Inr y) (map PStr ss) cs"
    unfolding PStrs_def canonical_list_iff by blast
  have "list_all2 (=) (map PStr ss) cs"
    using all unfolding list_all2_map1 by (rule list_all2_mono) (rule canonical_PStr [symmetric])
  then have "map PStr ss = cs" by (simp only: list_all2_eq)
  then show ?thesis by (simp add: c PStrs_def)
qed

lemma canonical_ranges_val:
  assumes "canonical_value H d (ranges_val rs) = Inr c" and "sorted (map fst rs)"
  shows "c = ranges_val rs"
proof -
  let ?f = "\<lambda>p. (fst p, PList [PInt (fst (snd p)), PInt (snd (snd p))])"
  have sorted: "sort_key fst (map ?f rs) = map ?f rs"
    using assms(2) by (intro sort_key_id_if_sorted) (simp add: comp_def)
  obtain cs where c: "c = PDict cs" and all: "list_all2 (canonical_field H (d + 1)) (map ?f rs) cs"
    using assms(1) unfolding ranges_val_def canonical_dict_iff sorted by blast
  have field: "q = ?f p" if "canonical_field H (d + 1) (?f p) q" for p q
  proof -
    have "fst q = fst p" "canonical_value H (d + 1) (PList [PInt (fst (snd p)), PInt (snd (snd p))]) = Inr (snd q)"
      using that by (simp_all add: canonical_field_def)
    then show ?thesis unfolding canonical_list_iff by (cases q) (auto simp: list_all2_Cons1 split: if_splits)
  qed
  have "list_all2 (=) (map ?f rs) cs"
    using all unfolding list_all2_map1 by (rule list_all2_mono) (rule field [symmetric])
  then have "map ?f rs = cs" by (simp only: list_all2_eq)
  then show ?thesis by (simp add: c ranges_val_def)
qed

lemma py_tuple_values_ranges: "py_tuple_values (ranges_val rs) = Inr (ranges_args rs)"
  by (induction rs) (auto simp: py_tuple_values_def ranges_val_def ranges_args_def py_tuple_def res_simps)

lemma decay_authority_init_cong:
  assumes "\<forall>n \<in> set decay_authority_fields. g n = g' n"
  shows "decay_authority_init g = decay_authority_init g'"
proof -
  have "list_all (\<lambda>n. g n = g' n) decay_authority_fields" using assms by (simp add: list_all_iff)
  then show ?thesis
    unfolding decay_authority_init_def decay_authority_checks_def decay_authority_build_def decay_authority_fields_def
      decay_authority_ints_def decay_authority_strings_def list.pred_inject list.map
    by presburger
qed

lemma decay_authority_from_source:
  assumes keys: "set (map fst m) = set decay_authority_fields"
    and get: "\<forall>n \<in> set decay_authority_fields. dict_get m n = dict_get (decay_authority_to_dict a) n" and "wf_authority a"
  shows "decay_authority_from_dict (PDict m) = Inr a"
proof -
  have "list_all (\<lambda>n. dict_get m n = dict_get (decay_authority_to_dict a) n) decay_authority_fields"
    using get by (simp add: list_all_iff)
  then have g: "dict_get m ''expires_at_ms'' = PInt (da_expires_at_ms a)" "dict_get m ''remaining_calls'' = PInt (da_remaining_calls a)"
    "dict_get m ''remaining_read_bytes'' = PInt (da_remaining_read_bytes a)"
    "dict_get m ''remaining_write_bytes'' = PInt (da_remaining_write_bytes a)"
    "dict_get m ''network_destinations'' = PStrs (da_network_destinations a)" "dict_get m ''tools'' = PStrs (da_tools a)"
    "dict_get m ''actions'' = PStrs (da_actions a)" "dict_get m ''resources'' = PStrs (da_resources a)"
    "dict_get m ''argument_ranges'' = ranges_val (da_argument_ranges a)"
    "dict_get m ''maximum_parallelism'' = PInt (da_maximum_parallelism a)"
    "dict_get m ''maximum_effect_severity'' = PInt (da_maximum_effect_severity a)"
    unfolding decay_authority_fields_def list.pred_inject decay_authority_lookup by simp_all
  have "decay_authority_from_dict (PDict m) = decay_authority_init (decay_authority_args a)"
    using keys
    by (simp add: decay_authority_from_dict_def decay_authority_strings_def g py_tuple_values_ranges)
      (rule decay_authority_init_cong, simp add: decay_authority_fields_def g decay_authority_args_lookup)
  then show ?thesis using wf_authority_new [OF assms(3)] by simp
qed

text \<open>The invariant of a \<open>DecayState\<close> object whose strings are well-formed.\<close>

definition clean_authority :: "decay_authority \<Rightarrow> bool" where
  "clean_authority a \<longleftrightarrow> list_all wf_str (da_network_destinations a @ da_tools a @ da_actions a @ da_resources a
     @ map fst (da_argument_ranges a))"

definition wf_state :: "decay_state \<Rightarrow> bool" where
  "wf_state s \<longleftrightarrow> dc_capability_id s \<noteq> [] \<and> is_digest (dc_profile_digest s) \<and> list_all bounded_int (counters_of s)
     \<and> wf_authority (dc_current_authority s)"

definition sound_state :: "decay_state \<Rightarrow> bool" where
  "sound_state s \<longleftrightarrow> wf_state s \<and> wf_str (dc_capability_id s) \<and> clean_authority (dc_current_authority s)"

lemma float_free_state: "float_free (PDict (decay_state_to_dict s))"
  by (simp add: decay_state_to_dict_def decay_authority_to_dict_def PStrs_def ranges_val_def list_all_iff)

lemma wf_str_ascii: "ascii s \<Longrightarrow> wf_str s"
  by (simp add: wf_str_def ascii_utf8)

lemma is_digest_wf_str: "is_digest s \<Longrightarrow> wf_str s"
proof -
  have "is_hex_lower c \<Longrightarrow> of_char c < (0x80 :: nat)" for c
    unfolding is_hex_lower_def less_eq_char_def by (auto simp: char_of_nat_def)
  then have "is_digest s \<Longrightarrow> ascii s" by (auto simp: is_digest_def hex_n_def ascii_def list_all_iff)
  then show "is_digest s \<Longrightarrow> wf_str s" by (rule wf_str_ascii)
qed

lemma wf_val_authority:
  "wf_val (PDict (decay_authority_to_dict a)) \<longleftrightarrow> clean_authority a \<and> distinct (map fst (da_argument_ranges a))"
proof -
  have "list_all (\<lambda>n. ascii n) decay_authority_fields" by code_simp
  then have "list_all wf_str decay_authority_fields" by (auto simp: list_all_iff wf_str_ascii)
  then have "list_all wf_str (map fst (decay_authority_to_dict a))"
    by (simp add: decay_authority_to_dict_def decay_authority_fields_def)
  moreover have "distinct (map fst (decay_authority_to_dict a))" by (simp add: decay_authority_to_dict_def)
  moreover have "list_all wf_val (map snd (decay_authority_to_dict a)) \<longleftrightarrow> clean_authority a \<and> distinct (map fst (da_argument_ranges a))"
    by (auto simp: decay_authority_to_dict_def clean_authority_def PStrs_def ranges_val_def list_all_iff comp_def)
  ultimately show ?thesis by simp
qed

lemma wf_val_state: "sound_state s \<Longrightarrow> wf_val (PDict (decay_state_to_dict s))"
proof -
  assume s: "sound_state s"
  have "list_all (\<lambda>n. ascii n) decay_state_fields" by code_simp
  then have "list_all wf_str decay_state_fields" by (auto simp: list_all_iff wf_str_ascii)
  moreover have "map fst (decay_state_to_dict s) = decay_state_fields"
    by (simp add: decay_state_to_dict_def decay_state_fields_def decay_counters_def)
  moreover have "distinct decay_state_fields" by code_simp
  moreover have "list_all wf_val (map snd (decay_state_to_dict s))"
    using s wf_val_authority [of "dc_current_authority s"]
    by (simp add: decay_state_to_dict_def sound_state_def wf_state_def wf_authority_def is_digest_wf_str del: wf_val.simps(4))
  ultimately show ?thesis by simp
qed

lemma decay_state_lookup:
  "dict_get (decay_state_to_dict s) ''capability_id'' = PStr (dc_capability_id s)"
  "dict_get (decay_state_to_dict s) ''profile_digest'' = PStr (dc_profile_digest s)"
  "dict_get (decay_state_to_dict s) ''max_observed_time_ms'' = PInt (dc_max_observed_time_ms s)"
  "dict_get (decay_state_to_dict s) ''use_count'' = PInt (dc_use_count s)"
  "dict_get (decay_state_to_dict s) ''read_bytes'' = PInt (dc_read_bytes s)"
  "dict_get (decay_state_to_dict s) ''write_bytes'' = PInt (dc_write_bytes s)"
  "dict_get (decay_state_to_dict s) ''denials'' = PInt (dc_denials s)"
  "dict_get (decay_state_to_dict s) ''risk_score'' = PInt (dc_risk_score s)"
  "dict_get (decay_state_to_dict s) ''canary_events'' = PInt (dc_canary_events s)"
  "dict_get (decay_state_to_dict s) ''trust_age_ms'' = PInt (dc_trust_age_ms s)"
  "dict_get (decay_state_to_dict s) ''policy_age_ms'' = PInt (dc_policy_age_ms s)"
  "dict_get (decay_state_to_dict s) ''environment_changes'' = PInt (dc_environment_changes s)"
  "dict_get (decay_state_to_dict s) ''workload_restarts'' = PInt (dc_workload_restarts s)"
  "dict_get (decay_state_to_dict s) ''current_authority'' = PDict (decay_authority_to_dict (dc_current_authority s))"
  by (simp_all add: decay_state_to_dict_def)

lemma decay_state_keys: "map fst (decay_state_to_dict s) = decay_state_fields"
  by (simp add: decay_state_to_dict_def decay_state_fields_def decay_counters_def)

lemma decay_authority_keys: "map fst (decay_authority_to_dict a) = decay_authority_fields"
  by (simp add: decay_authority_to_dict_def decay_authority_fields_def)

lemma decay_state_init_Inr:
  "decay_state_init g a = Inr s \<longleftrightarrow> (\<exists>c d. g ''capability_id'' = PStr c \<and> c \<noteq> [] \<and> g ''profile_digest'' = PStr d \<and> is_digest d)
     \<and> (\<forall>n \<in> set decay_counters. \<exists>i. g n = PInt i \<and> bounded_int i) \<and> s = decay_state_build g a"
proof -
  have "decay_state_checks g = Inr () \<longleftrightarrow> (\<exists>c d. g ''capability_id'' = PStr c \<and> c \<noteq> [] \<and> g ''profile_digest'' = PStr d \<and> is_digest d)
     \<and> (\<forall>n \<in> set decay_counters. \<exists>i. g n = PInt i \<and> bounded_int i)"
    unfolding decay_state_checks_def seqE_Inr_iff set_append ball_Un set_map ball_simps list.set
      unitE_Inr_iff decay_nonnegative_iff checkE_Inr_iff
    by (cases "g ''capability_id''"; cases "g ''profile_digest''"; simp)
  then show ?thesis by (auto simp: decay_state_init_def res_simps)
qed

text \<open>The object is determined by what the code reads of the canonical JSON value of its dictionary.\<close>

lemma canonical_dict_keys:
  assumes "canonical_value H d (PDict m) = Inr (PDict cs)"
  shows "set (map fst cs) = set (map fst m)"
proof -
  have "list_all2 (canonical_field H (d + 1)) (sort_key fst m) cs" using assms by (auto simp: canonical_dict_iff)
  then have "list_all2 (\<lambda>p q. fst p = fst q) (sort_key fst m) cs"
    by (rule list_all2_mono) (auto simp: canonical_field_def)
  then have "map fst (sort_key fst m) = map fst cs" by (simp add: list_all2_map1 list_all2_map2 list_all2_eq)
  then show ?thesis by (metis set_map set_sort)
qed

lemma canonical_dict_cases:
  assumes "canonical_value H d (PDict m) = Inr c" and "distinct (map fst m)"
  obtains cs where "c = PDict cs" "set (map fst cs) = set (map fst m)"
    "\<And>k. k \<in> set (map fst m) \<Longrightarrow> canonical_value H (d + 1) (dict_get m k) = Inr (dict_get cs k)"
proof -
  obtain cs where c: "c = PDict cs" using assms(1) by (auto simp: canonical_dict_iff)
  show thesis
    using that [OF c] canonical_dict_keys canonical_dict_get assms unfolding c by (metis set_map)
qed

lemma decay_authority_from_canonical:
  assumes c: "canonical_value H d (PDict (decay_authority_to_dict a)) = Inr c" and wf: "wf_authority a"
  shows "decay_authority_from_dict c = Inr a"
proof -
  have dist: "distinct (map fst (decay_authority_to_dict a))" unfolding decay_authority_keys by code_simp
  obtain cs where cs: "c = PDict cs" "set (map fst cs) = set decay_authority_fields"
    and get: "\<And>k. k \<in> set decay_authority_fields \<Longrightarrow> canonical_value H (d + 1) (dict_get (decay_authority_to_dict a) k) = Inr (dict_get cs k)"
    using canonical_dict_cases [OF c dist] unfolding decay_authority_keys by metis
  have same: "v = dict_get (decay_authority_to_dict a) k"
    if "k \<in> set decay_authority_fields" "canonical_value H (d + 1) (dict_get (decay_authority_to_dict a) k) = Inr v" for k v
  proof (cases "k \<in> set decay_authority_ints")
    case True
    then show ?thesis using that(2) by (auto simp: decay_authority_ints_def decay_authority_lookup split: if_splits)
  next
    case False
    then have "k = ''argument_ranges'' \<or> k \<in> set decay_authority_strings"
      using that(1) by (auto simp: decay_authority_fields_def decay_authority_ints_def decay_authority_strings_def)
    then show ?thesis
      using that(2) wf canonical_PStrs [of H "d + 1"] canonical_ranges_val [of H "d + 1" "da_argument_ranges a"]
      unfolding wf_authority_def normal_authority_iff
      by (auto simp: decay_authority_strings_def decay_authority_lookup simp del: canonical_value.simps)
  qed
  show ?thesis unfolding cs(1) using cs(2) get same wf by (intro decay_authority_from_source) auto
qed

lemma decay_state_from_canonical:
  assumes c: "canonical_value H d (PDict (decay_state_to_dict s)) = Inr c" and wf: "wf_state s"
  shows "decay_state_from_dict c = Inr s"
proof -
  have dist: "distinct (map fst (decay_state_to_dict s))" unfolding decay_state_keys by code_simp
  obtain cs where cs: "c = PDict cs" "set (map fst cs) = set decay_state_fields"
    and get: "\<And>k. k \<in> set decay_state_fields \<Longrightarrow> canonical_value H (d + 1) (dict_get (decay_state_to_dict s) k) = Inr (dict_get cs k)"
    using canonical_dict_cases [OF c dist] unfolding decay_state_keys by metis
  have fields: "''capability_id'' \<in> set decay_state_fields" "''profile_digest'' \<in> set decay_state_fields"
    "''current_authority'' \<in> set decay_state_fields" "set decay_counters \<subseteq> set decay_state_fields"
    by (code_simp, code_simp, code_simp, code_simp)
  have str: "dict_get cs ''capability_id'' = PStr (dc_capability_id s)" "dict_get cs ''profile_digest'' = PStr (dc_profile_digest s)"
    using canonical_PStr get fields(1,2) decay_state_lookup(1,2) by metis+
  have auth: "decay_authority_from_dict (dict_get cs ''current_authority'') = Inr (dc_current_authority s)"
    using get [OF fields(3)] wf unfolding decay_state_lookup by (intro decay_authority_from_canonical) (auto simp: wf_state_def)
  have "list_all (\<lambda>n. dict_get cs n = dict_get (decay_state_to_dict s) n) decay_counters"
  proof (unfold list_all_iff, rule ballI)
    fix n assume n: "n \<in> set decay_counters"
    have "list_all (\<lambda>n. \<exists>i. dict_get (decay_state_to_dict s) n = PInt i) decay_counters"
      by (simp add: decay_counters_def decay_state_lookup)
    then obtain i where "dict_get (decay_state_to_dict s) n = PInt i" using n by (auto simp: list_all_iff)
    then show "dict_get cs n = dict_get (decay_state_to_dict s) n"
      using canonical_PInt get n fields(4) by (metis subsetD)
  qed
  then have ints: "dict_get cs ''max_observed_time_ms'' = PInt (dc_max_observed_time_ms s)" "dict_get cs ''use_count'' = PInt (dc_use_count s)"
    "dict_get cs ''read_bytes'' = PInt (dc_read_bytes s)" "dict_get cs ''write_bytes'' = PInt (dc_write_bytes s)"
    "dict_get cs ''denials'' = PInt (dc_denials s)" "dict_get cs ''risk_score'' = PInt (dc_risk_score s)"
    "dict_get cs ''canary_events'' = PInt (dc_canary_events s)" "dict_get cs ''trust_age_ms'' = PInt (dc_trust_age_ms s)"
    "dict_get cs ''policy_age_ms'' = PInt (dc_policy_age_ms s)" "dict_get cs ''environment_changes'' = PInt (dc_environment_changes s)"
    "dict_get cs ''workload_restarts'' = PInt (dc_workload_restarts s)"
    by (simp_all add: decay_counters_def decay_state_lookup)
  have bounded: "\<forall>n \<in> set decay_counters. \<exists>i. dict_get cs n = PInt i \<and> bounded_int i"
    using wf by (simp add: decay_counters_def ints wf_state_def counters_of_def)
  then have "seqE (map (\<lambda>n. unitE (decay_nonnegative (dict_get cs n))) decay_counters) = Inr ()"
    by (auto simp: seqE_Inr_iff unitE_Inr_iff decay_nonnegative_iff)
  moreover have "decay_state_init (dict_get cs) (dc_current_authority s) = Inr s"
    unfolding decay_state_init_Inr using bounded str wf by (simp add: decay_state_build_def ints wf_state_def)
  ultimately show ?thesis
    using cs(2) auth by (simp add: cs(1) decay_state_from_dict_def)
qed

lemma load_after_store:
  assumes "sound_state s" and "dc_capability_id s = cid" and "encode_state H s = Inr row"
  shows "load_locked H cid (rows(cid \<mapsto> row)) = Inr (Some s)"
proof -
  let ?v = "PDict (decay_state_to_dict s)"
  obtain b d where b: "canonical_bytes H ?v = Inr b" and d: "digest H ?v = Inr d" and row: "row = (b, d)"
    using assms(3) by (auto simp: encode_state_def res_simps)
  obtain c where c: "canonical_value H 0 ?v = Inr c" "strict_json_loads H (Bytes b) True = Inr c"
    using strict_json_loads_canonical [OF b float_free_state wf_val_state [OF assms(1)]] by blast
  moreover have "canonical_bytes H c = Inr b"
    using loads_canonical_bytes [OF b float_free_state wf_val_state [OF assms(1)]] c(1) by auto
  then have "digest H c = Inr d" using b d by (simp add: digest_def)
  moreover have "decay_state_from_dict c = Inr s"
    using c(1) assms(1) by (intro decay_state_from_canonical) (auto simp: sound_state_def)
  ultimately show ?thesis using assms(2) by (simp add: load_locked_def row catchE_def)
qed

section \<open>The contract of a state store\<close>

text \<open>
  \<open>DecayStateStore\<close>: a successful update ran the transition on the stored state, its result passed the
  validation and is what the store now holds; a failed one changed nothing or, when the failure came with the
  commit, stored what it would have returned. States are those the constructors build.
\<close>

locale decay_store =
  fixes update :: "'e \<Rightarrow> string \<Rightarrow> 'x transition \<Rightarrow> 's \<Rightarrow> (decay_state \<times> 'x) res \<times> 's"
    and lookup :: "'s \<Rightarrow> string \<Rightarrow> decay_state option"
  assumes success: "update e cid f s = (Inr (st, x), s') \<Longrightarrow> sound_state st \<Longrightarrow>
      run_transition cid f (lookup s cid) = Inr (st, x) \<and> lookup s' = (lookup s)(cid \<mapsto> st)"
    and failure: "update e cid f s = (Inl err, s') \<Longrightarrow>
      (\<And>st x. run_transition cid f (lookup s cid) = Inr (st, x) \<Longrightarrow> sound_state st) \<Longrightarrow>
      lookup s' = lookup s \<or> (\<exists>st x. run_transition cid f (lookup s cid) = Inr (st, x) \<and> lookup s' = (lookup s)(cid \<mapsto> st))"
    and ran: "update e cid f s = (Inr (st, x), s') \<Longrightarrow> run_transition cid f (lookup s cid) = Inr (st, x)"

lemma run_transition_Inr:
  "run_transition cid f prior = Inr (st, x) \<longleftrightarrow> f prior = Inr (st, x) \<and> validate_state_transition cid prior st = Inr ()"
  by (auto simp: run_transition_def res_simps)

definition memory_lookup :: "decay_memory \<Rightarrow> string \<Rightarrow> decay_state option" where
  "memory_lookup states cid = states cid"

interpretation memory_decay: decay_store "\<lambda>_::unit. memory_update" memory_lookup
  by unfold_locales
    (auto simp: memory_update_def memory_lookup_def [abs_def] split: sum.split_asm prod.split_asm)

definition sqlite_lookup :: "host \<Rightarrow> decay_rows \<Rightarrow> string \<Rightarrow> decay_state option" where
  "sqlite_lookup H rows cid = (case load_locked H cid rows of Inl _ \<Rightarrow> None | Inr st \<Rightarrow> st)"

lemma sqlite_lookup_store:
  assumes "sound_state st" and "dc_capability_id st = cid" and "encode_state H st = Inr row"
  shows "sqlite_lookup H (rows(cid \<mapsto> row)) = (sqlite_lookup H rows)(cid \<mapsto> st)"
proof
  fix j
  have "j \<noteq> cid \<Longrightarrow> load_locked H j (rows(cid \<mapsto> row)) = load_locked H j rows" by (simp add: load_locked_def)
  then show "sqlite_lookup H (rows(cid \<mapsto> row)) j = ((sqlite_lookup H rows)(cid \<mapsto> st)) j"
    using load_after_store [OF assms] by (simp add: sqlite_lookup_def)
qed

lemma sqlite_update_cases:
  assumes "sqlite_update H fault cid f rows = (r, rows')"
  obtains (unchanged) e where "r = Inl e" "rows' = rows"
  | (stored) st x row where "run_transition cid f (sqlite_lookup H rows cid) = Inr (st, x)" "encode_state H st = Inr row"
      "rows' = rows(cid \<mapsto> row)" "r = Inr (st, x) \<or> (\<exists>e. r = Inl e)" "dc_capability_id st = cid"
proof -
  show thesis
  proof (cases "prepare_update H cid f rows")
    case (Inl e)
    then show thesis using assms unchanged unfolding sqlite_update_def by (auto split: if_split_asm)
  next
    case (Inr q)
    then obtain st x row where q: "q = ((st, x), row)" by (metis surj_pair)
    have run: "run_transition cid f (sqlite_lookup H rows cid) = Inr (st, x)" and row: "encode_state H st = Inr row"
      using Inr unfolding q prepare_update_def bindE_Inr_iff by (auto simp: sqlite_lookup_def)
    then have cid: "dc_capability_id st = cid"
      by (auto simp: run_transition_Inr validate_state_transition_def split: if_splits)
    have "(\<exists>e. r = Inl e) \<and> rows' = rows \<or> rows' = rows(cid \<mapsto> row) \<and> (r = Inr (st, x) \<or> (\<exists>e. r = Inl e))"
      using assms Inr unfolding sqlite_update_def q by (cases fault) (auto split: if_split_asm)
    then show thesis using unchanged stored [OF run row _ _ cid] by blast
  qed
qed

interpretation sqlite_decay: decay_store "sqlite_update H" "sqlite_lookup H" for H
proof
  fix e cid s st x s' err and f :: "'a transition"
  show "sqlite_update H e cid f s = (Inr (st, x), s') \<Longrightarrow> run_transition cid f (sqlite_lookup H s cid) = Inr (st, x)"
    by (erule sqlite_update_cases) auto
  show "sqlite_update H e cid f s = (Inr (st, x), s') \<Longrightarrow> sound_state st \<Longrightarrow>
      run_transition cid f (sqlite_lookup H s cid) = Inr (st, x) \<and> sqlite_lookup H s' = (sqlite_lookup H s)(cid \<mapsto> st)"
    by (erule sqlite_update_cases) (auto dest: sqlite_lookup_store)
  show "sqlite_update H e cid f s = (Inl err, s') \<Longrightarrow>
      (\<And>st x. run_transition cid f (sqlite_lookup H s cid) = Inr (st, x) \<Longrightarrow> sound_state st) \<Longrightarrow>
      sqlite_lookup H s' = sqlite_lookup H s \<or>
      (\<exists>st x. run_transition cid f (sqlite_lookup H s cid) = Inr (st, x) \<and> sqlite_lookup H s' = (sqlite_lookup H s)(cid \<mapsto> st))"
    by (erule sqlite_update_cases) (auto dest: sqlite_lookup_store)
qed

section \<open>Monotonicity\<close>

definition state_le :: "decay_state \<Rightarrow> decay_state \<Rightarrow> bool" where
  "state_le st p \<longleftrightarrow> dc_profile_digest st = dc_profile_digest p \<and> list_all2 (\<le>) (counters_of p) (counters_of st)
     \<and> decay_le (dc_current_authority st) (dc_current_authority p)"

lemma state_le_refl [simp]: "state_le st st"
  by (simp add: state_le_def list_all2_refl decay_steps.le_refl)

lemma state_le_trans: "state_le a b \<Longrightarrow> state_le b c \<Longrightarrow> state_le a c"
  unfolding state_le_def using list_all2_trans [of "(\<le>)" "(\<le>)" "(\<le>)"] decay_steps.le_trans
  by (metis (mono_tags) order_trans)

lemma validate_state_transition_Some:
  assumes "validate_state_transition cid (Some p) st = Inr ()" and "sound_state st"
  shows "state_le st p"
proof -
  have "distinct (map fst (da_argument_ranges (dc_current_authority st)))"
    using assms(2) by (simp add: sound_state_def wf_state_def wf_authority_def)
  then show ?thesis
    using assms(1) is_subset_of_iff by (auto simp: validate_state_transition_def state_le_def split: if_splits)
qed

text \<open>A transition that builds its result with the constructors of the module.\<close>

definition sound_transition :: "'x transition \<Rightarrow> bool" where
  "sound_transition f \<longleftrightarrow> (\<forall>prior st x. pred_option sound_state prior \<longrightarrow> f prior = Inr (st, x) \<longrightarrow> sound_state st)"

context decay_store
begin

lemma update_mono:
  assumes "\<forall>j. pred_option sound_state (lookup s j)" and "sound_transition f" and "update e cid f s = (r, s')"
  shows "\<forall>j. pred_option sound_state (lookup s' j)"
    and "lookup s j = Some p \<Longrightarrow> \<exists>st. lookup s' j = Some st \<and> state_le st p"
proof -
  have run: "sound_state st" if "run_transition cid f (lookup s cid) = Inr (st, x)" for st x
    using that assms(1,2) unfolding run_transition_Inr sound_transition_def by blast
  have "lookup s' = lookup s \<or> (\<exists>st x. run_transition cid f (lookup s cid) = Inr (st, x) \<and> lookup s' = (lookup s)(cid \<mapsto> st))"
  proof (cases r)
    case (Inl err)
    then show ?thesis using failure assms(3) run by blast
  next
    case (Inr q)
    then obtain st x where "r = Inr (st, x)" by (metis surj_pair)
    then show ?thesis using success ran assms(3) run by blast
  qed
  then consider "lookup s' = lookup s"
    | st x where "run_transition cid f (lookup s cid) = Inr (st, x)" "lookup s' = (lookup s)(cid \<mapsto> st)" by blast
  note step = this
  show "\<forall>j. pred_option sound_state (lookup s' j)"
    using step by cases (use assms(1) run in auto)
  show "\<exists>st. lookup s' j = Some st \<and> state_le st p" if "lookup s j = Some p"
    using step
  proof cases
    case (2 st x)
    then show ?thesis
      using that run validate_state_transition_Some by (auto simp: run_transition_Inr)
  qed (use that in auto)
qed

end

section \<open>The engine's transition\<close>

definition sound_profile :: "decay_profile \<Rightarrow> bool" where
  "sound_profile p \<longleftrightarrow> wf_authority (dp_initial_authority p) \<and> clean_authority (dp_initial_authority p)"

definition base_authority :: "decay_profile \<Rightarrow> decay_state option \<Rightarrow> decay_authority" where
  "base_authority profile prior = (case prior of None \<Rightarrow> dp_initial_authority profile | Some p \<Rightarrow> dc_current_authority p)"

lemma clean_mono:
  assumes "decay_le a b" and "clean_authority b"
  shows "clean_authority a"
proof -
  have "k \<in> set (map fst (da_argument_ranges b))" if k: "k \<in> set (map fst (da_argument_ranges a))" for k
  proof -
    obtain x where "map_of (da_argument_ranges a) k = Some x" using k by (metis map_of_eq_None_iff not_Some_eq set_map)
    then obtain y where "map_of (da_argument_ranges b) k = Some y"
      using assms(1) unfolding decay_le_def ranges_le_def by (cases x) blast
    then show ?thesis by (metis map_of_eq_None_iff option.distinct(1) set_map)
  qed
  then show ?thesis using assms unfolding decay_le_def clean_authority_def list_all_iff set_append by blast
qed

lemma apply_due_Inr:
  "apply_due cs t steps a = Inr b \<Longrightarrow> wf_authority a \<Longrightarrow>
     wf_authority b \<and> decay_le b a \<and> da_argument_ranges b = da_argument_ranges a
     \<and> (\<forall>s \<in> set steps. \<forall>m. ds_threshold s \<le> counter cs (ds_trigger s) \<longrightarrow> ds_maximum_calls s = Some m \<longrightarrow> da_remaining_calls b \<le> m)"
proof (induction steps arbitrary: a)
  case (Cons s steps)
  then obtain n where n: "map_of cs (ds_trigger s) = Some n" by (auto split: option.split_asm)
  show ?case
  proof (cases "ds_threshold s \<le> n")
    case True
    then obtain a' where a': "apply_step a s t = Inr a'" "apply_due cs t steps a' = Inr b"
      using Cons.prems(1) n by (auto simp: res_simps)
    then have eq: "a' = step_authority a s t" "wf_authority a'" using apply_step_Inr Cons.prems(2) by blast+
    note ih = Cons.IH [OF a'(2) eq(2)]
    have "decay_le a' a" using decay_steps.step_le [of a "(s, t)"] by (simp add: eq)
    then have le: "decay_le b a" using ih decay_steps.le_trans by blast
    have ranges: "da_argument_ranges a' = da_argument_ranges a" by (simp add: eq(1) step_authority_def)
    have "ds_maximum_calls s = Some m \<Longrightarrow> da_remaining_calls a' \<le> m" for m
      by (simp add: eq(1) step_authority_def lowered_def)
    moreover have "da_remaining_calls b \<le> da_remaining_calls a'" using ih by (simp add: decay_le_def)
    ultimately have "ds_maximum_calls s = Some m \<Longrightarrow> da_remaining_calls b \<le> m" for m by fastforce
    then show ?thesis using ih le ranges by simp
  next
    case False
    then show ?thesis using Cons n by (auto simp: counter_def)
  qed
qed (simp add: decay_steps.le_refl)

lemma state_args_Inr:
  assumes "decay_state_init (state_args cid pd now cs) a = Inr st"
  shows "dc_capability_id st = cid \<and> cid \<noteq> [] \<and> dc_profile_digest st = pd \<and> is_digest pd \<and> dc_max_observed_time_ms st = now
    \<and> dc_use_count st = counter cs ''use_count'' \<and> dc_canary_events st = counter cs ''canary_events''
    \<and> dc_current_authority st = a \<and> list_all bounded_int (counters_of st)"
proof -
  have st: "st = decay_state_build (state_args cid pd now cs) a"
    and ok: "\<exists>c d. state_args cid pd now cs ''capability_id'' = PStr c \<and> c \<noteq> [] \<and>
        state_args cid pd now cs ''profile_digest'' = PStr d \<and> is_digest d"
    and ints: "\<forall>n \<in> set decay_counters. \<exists>i. state_args cid pd now cs n = PInt i \<and> bounded_int i"
    using assms unfolding decay_state_init_Inr by blast+
  have "list_all bounded_int (counters_of st)"
    using ints unfolding st by (simp add: decay_counters_def counters_of_def decay_state_build_def state_args_def)
  then show ?thesis using ok by (simp add: st decay_state_build_def state_args_def)
qed

lemma spend_new:
  assumes "decay_authority_init (decay_authority_args (spend i cs a)) = Inr b" and "wf_authority a"
  shows "b = spend i cs a \<and> wf_authority b \<and> decay_le b a"
proof -
  have "normal_authority (spend i cs a) = spend i cs a" "distinct (map fst (da_argument_ranges (spend i cs a)))"
    using assms(2) unfolding wf_authority_def normal_authority_iff by (simp_all add: spend_def)
  then have "b = spend i cs a" "wf_authority b"
    using assms(1) unfolding decay_authority_new_iff by (auto simp: wf_authority_def)
  then show ?thesis by (simp add: spend_def decay_le_def)
qed

text \<open>What a successful transition of \<open>authorize\<close> has done.\<close>

lemma authorize_transition_Inr:
  assumes "authorize_transition H cid profile request issued now_ms ob prior = Inr (st, authorized, rollback)"
    and "sound_profile profile" and "wf_str cid" and "pred_option sound_state prior"
  shows "sound_state st" and "dc_capability_id st = cid" and "profile_digest H profile = Inr (dc_profile_digest st)"
    and "dc_use_count st = prior_of dc_use_count prior + 1"
    and "dc_canary_events st = prior_of dc_canary_events prior + ob_canary_events ob"
    and "dc_max_observed_time_ms st = effective_now now_ms prior"
    and "da_remaining_calls (dc_current_authority st) \<le> max 0 (da_remaining_calls (dp_initial_authority profile) - dc_use_count st)"
    and "decay_le authorized (base_authority profile prior)" and "decay_le (dc_current_authority st) authorized"
    and "da_argument_ranges authorized = da_argument_ranges (base_authority profile prior)"
    and "decay_permits authorized request (effective_now now_ms prior)"
    and "\<forall>s \<in> set (dp_steps profile). \<forall>m. ds_threshold s \<le> counter (prior_counters ob issued (effective_now now_ms prior) prior) (ds_trigger s)
      \<longrightarrow> ds_maximum_calls s = Some m \<longrightarrow> da_remaining_calls authorized \<le> m"
    and "rollback \<longleftrightarrow> (\<exists>p. prior = Some p \<and> now_ms < dc_max_observed_time_ms p)"
    and "da_argument_ranges (dc_current_authority st) = da_argument_ranges (base_authority profile prior)"
proof -
  let ?now = "effective_now now_ms prior"
  let ?c0 = "prior_counters ob issued ?now prior"
  let ?cs = "AList.update ''use_count'' (counter ?c0 ''use_count'' + 1) ?c0"
  obtain stepped current pd where
    due: "apply_due ?c0 issued (dp_steps profile) (base_authority profile prior) = Inr authorized"
    and permits: "decay_permits authorized request ?now"
    and due': "apply_due ?cs issued (dp_steps profile) authorized = Inr stepped"
    and new: "decay_authority_init (decay_authority_args (spend (dp_initial_authority profile) ?cs stepped)) = Inr current"
    and pd: "profile_digest H profile = Inr pd"
    and init: "decay_state_init (state_args cid pd ?now ?cs) current = Inr st"
    and rb: "rollback = (case prior of None \<Rightarrow> False | Some p \<Rightarrow> now_ms < dc_max_observed_time_ms p)"
    using assms(1) unfolding authorize_transition_def Let_def bindE_Inr_iff checkE_Inr_iff base_authority_def by auto
  have base: "wf_authority (base_authority profile prior)" "clean_authority (base_authority profile prior)"
    using assms(2,4) by (auto simp: base_authority_def sound_profile_def sound_state_def wf_state_def split: option.split)
  note d1 = apply_due_Inr [OF due base(1)]
  note d2 = apply_due_Inr [OF due' d1 [THEN conjunct1]]
  note sp = spend_new [OF new d2 [THEN conjunct1]]
  note st = state_args_Inr [OF init]
  have le: "decay_le current authorized" using sp d2 decay_steps.le_trans by blast
  then have "clean_authority current" "wf_authority current" using d1 base(2) clean_mono sp by blast+
  with st assms(3) show "sound_state st" by (simp add: sound_state_def wf_state_def)
  have counters: "counter ?cs ''use_count'' = prior_of dc_use_count prior + 1"
    "counter ?cs ''canary_events'' = prior_of dc_canary_events prior + ob_canary_events ob"
    by (simp_all add: counter_def prior_counters_def update_conv')
  show "dc_capability_id st = cid" "profile_digest H profile = Inr (dc_profile_digest st)"
    "dc_use_count st = prior_of dc_use_count prior + 1" "dc_max_observed_time_ms st = ?now"
    "dc_canary_events st = prior_of dc_canary_events prior + ob_canary_events ob"
    using st pd counters by simp_all
  show "da_remaining_calls (dc_current_authority st) \<le> max 0 (da_remaining_calls (dp_initial_authority profile) - dc_use_count st)"
    using st sp by (simp add: spend_def)
  show "decay_le authorized (base_authority profile prior)" "da_argument_ranges authorized = da_argument_ranges (base_authority profile prior)"
    using d1 by blast+
  show "decay_le (dc_current_authority st) authorized" using st le by simp
  show "da_argument_ranges (dc_current_authority st) = da_argument_ranges (base_authority profile prior)"
    using st sp d1 d2 by (simp add: spend_def)
  show "decay_permits authorized request ?now" by (rule permits)
  show "\<forall>s \<in> set (dp_steps profile). \<forall>m. ds_threshold s \<le> counter ?c0 (ds_trigger s)
      \<longrightarrow> ds_maximum_calls s = Some m \<longrightarrow> da_remaining_calls authorized \<le> m" using d1 by blast
  show "rollback \<longleftrightarrow> (\<exists>p. prior = Some p \<and> now_ms < dc_max_observed_time_ms p)" by (simp add: rb split: option.split)
qed

lemma sound_authorize_transition:
  "sound_profile profile \<Longrightarrow> wf_str cid \<Longrightarrow> sound_transition (authorize_transition H cid profile request issued now_ms ob)"
  unfolding sound_transition_def using authorize_transition_Inr(1) by fastforce

section \<open>The engine on a store\<close>

text \<open>The uses a profile with \<open>calls\<close> calls still has.\<close>

definition uses_left :: "int \<Rightarrow> decay_state option \<Rightarrow> int" where
  "uses_left calls st = (case st of None \<Rightarrow> max 0 calls | Some p \<Rightarrow> max 0 (calls - dc_use_count p))"

definition within_budget :: "int \<Rightarrow> decay_state option \<Rightarrow> bool" where
  "within_budget calls st \<longleftrightarrow> pred_option (\<lambda>p. da_remaining_calls (dc_current_authority p) \<le> max 0 (calls - dc_use_count p)) st"

definition sound_call :: "decay_call \<Rightarrow> bool" where
  "sound_call c \<longleftrightarrow> sound_profile (cl_profile c) \<and> wf_str (cl_capability_id c)"

locale decay_engine = decay_store update lookup
  for update :: "'e \<Rightarrow> string \<Rightarrow> (decay_authority \<times> bool) transition \<Rightarrow> 's \<Rightarrow> (decay_state \<times> decay_authority \<times> bool) res \<times> 's"
    and lookup :: "'s \<Rightarrow> string \<Rightarrow> decay_state option" +
  fixes H :: host
begin

lemma engine_call_Inr:
  assumes "engine_call update H e c s = (Inr ev, s')" and "sound_call c" and "pred_option sound_state (lookup s (cl_capability_id c))"
  shows "authorize_transition H (cl_capability_id c) (cl_profile c) (cl_request c) (cl_issued_at_ms c) (cl_now_ms c) (cl_observation c)
      (lookup s (cl_capability_id c)) = Inr (ev_resulting_state ev, ev_authorized_authority ev, ev_clock_rollback_observed ev)"
    and "lookup s' = (lookup s)(cl_capability_id c \<mapsto> ev_resulting_state ev)"
    and "sound_state (ev_resulting_state ev)"
proof -
  let ?f = "authorize_transition H (cl_capability_id c) (cl_profile c) (cl_request c) (cl_issued_at_ms c) (cl_now_ms c) (cl_observation c)"
  have u: "update e (cl_capability_id c) ?f s =
      (Inr (ev_resulting_state ev, ev_authorized_authority ev, ev_clock_rollback_observed ev), s')"
    using assms(1) unfolding engine_call_def authorize_def by (auto split: sum.split_asm if_split_asm prod.split_asm)
  then have f: "?f (lookup s (cl_capability_id c)) = Inr (ev_resulting_state ev, ev_authorized_authority ev, ev_clock_rollback_observed ev)"
    using ran [OF u] by (simp add: run_transition_Inr)
  then show sound: "sound_state (ev_resulting_state ev)"
    using authorize_transition_Inr(1) [OF f] assms(2,3) by (simp add: sound_call_def)
  show "?f (lookup s (cl_capability_id c)) = Inr (ev_resulting_state ev, ev_authorized_authority ev, ev_clock_rollback_observed ev)"
    by (rule f)
  show "lookup s' = (lookup s)(cl_capability_id c \<mapsto> ev_resulting_state ev)"
    using success [OF u sound] by simp
qed

lemma engine_call_Inl:
  assumes "engine_call update H e c s = (Inl err, s')" and "sound_call c" and "pred_option sound_state (lookup s (cl_capability_id c))"
  shows "lookup s' = lookup s \<or> (\<exists>st x. authorize_transition H (cl_capability_id c) (cl_profile c) (cl_request c) (cl_issued_at_ms c)
      (cl_now_ms c) (cl_observation c) (lookup s (cl_capability_id c)) = Inr (st, x) \<and> lookup s' = (lookup s)(cl_capability_id c \<mapsto> st))"
proof -
  let ?f = "authorize_transition H (cl_capability_id c) (cl_profile c) (cl_request c) (cl_issued_at_ms c) (cl_now_ms c) (cl_observation c)"
  have u: "s' = s \<or> (\<exists>err. update e (cl_capability_id c) ?f s = (Inl err, s'))"
    using assms(1) unfolding engine_call_def authorize_def by (auto split: sum.split_asm if_split_asm prod.split_asm)
  have snd: "sound_state st" if "run_transition (cl_capability_id c) ?f (lookup s (cl_capability_id c)) = Inr (st, x)" for st x
    using that sound_authorize_transition assms(2,3) unfolding run_transition_Inr sound_transition_def sound_call_def by blast
  from u show ?thesis
  proof
    assume "\<exists>err. update e (cl_capability_id c) ?f s = (Inl err, s')"
    then show ?thesis using failure snd unfolding run_transition_Inr by meson
  qed simp
qed

text \<open>Either way the store holds, for the capability of the call, the prior state or the result of the transition.\<close>

lemma engine_call_effect:
  assumes "engine_call update H e c s = (r, s')" and "sound_call c" and "pred_option sound_state (lookup s (cl_capability_id c))"
  shows "(lookup s' = lookup s \<and> \<not> okE r) \<or> (\<exists>st a b. authorize_transition H (cl_capability_id c) (cl_profile c) (cl_request c)
      (cl_issued_at_ms c) (cl_now_ms c) (cl_observation c) (lookup s (cl_capability_id c)) = Inr (st, a, b)
      \<and> lookup s' = (lookup s)(cl_capability_id c \<mapsto> st))"
proof (cases r)
  case (Inl err)
  then show ?thesis using engine_call_Inl assms unfolding okE_def by (metis (no_types, lifting) surj_pair sum.case(1))
next
  case (Inr ev)
  then show ?thesis using engine_call_Inr(1,2) assms by blast
qed

lemma engine_call_budget:
  assumes call: "engine_call update H e c s = (r, s')" and sound: "sound_call c" "\<forall>j. pred_option sound_state (lookup s j)"
    and calls: "cl_capability_id c = cid \<Longrightarrow> da_remaining_calls (dp_initial_authority (cl_profile c)) = calls"
    and budget: "within_budget calls (lookup s cid)"
  shows "within_budget calls (lookup s' cid) \<and> (\<forall>j. pred_option sound_state (lookup s' j))
    \<and> uses_left calls (lookup s' cid) + (if cl_capability_id c = cid \<and> okE r then 1 else 0) \<le> uses_left calls (lookup s cid)"
proof -
  have prior: "pred_option sound_state (lookup s (cl_capability_id c))" using sound(2) by blast
  from engine_call_effect [OF call sound(1) prior] consider "lookup s' = lookup s" "\<not> okE r"
    | st a b where "authorize_transition H (cl_capability_id c) (cl_profile c) (cl_request c)
      (cl_issued_at_ms c) (cl_now_ms c) (cl_observation c) (lookup s (cl_capability_id c)) = Inr (st, a, b)"
      "lookup s' = (lookup s)(cl_capability_id c \<mapsto> st)" by blast
  then show ?thesis
  proof cases
    case 1
    then show ?thesis using budget sound(2) by simp
  next
    case (2 st a b)
    note t = authorize_transition_Inr [OF 2(1) _ _ prior]
    have st: "sound_state st" using t sound(1) by (simp add: sound_call_def)
    show ?thesis
    proof (cases "cl_capability_id c = cid")
      case True
      have "1 \<le> da_remaining_calls a" "decay_le a (base_authority (cl_profile c) (lookup s cid))"
        using t(11,8) sound(1) True by (auto simp: sound_call_def decay_permits_def split: if_splits)
      then have "1 \<le> uses_left calls (lookup s cid)"
        using budget calls [OF True] by (auto simp: within_budget_def uses_left_def base_authority_def decay_le_def split: option.splits)
      then show ?thesis
        using t(4,7) sound 2(2) st True calls [OF True]
        by (auto simp: sound_call_def within_budget_def uses_left_def prior_of_def split: option.splits)
    qed (use 2 sound(2) budget st in auto)
  qed
qed

theorem budget:
  assumes "\<forall>j. pred_option sound_state (lookup s j)" and "within_budget calls (lookup s cid)"
    and "list_all (\<lambda>(e, c). sound_call c \<and> (cl_capability_id c = cid \<longrightarrow> da_remaining_calls (dp_initial_authority (cl_profile c)) = calls)) cs"
  shows "int (authorized_uses cid cs (fst (run_calls (engine_call update H) cs s))) \<le> uses_left calls (lookup s cid)"
  using assms
proof (induction cs arbitrary: s)
  case (Cons a cs)
  obtain e c where a: "a = (e, c)" by (cases a)
  obtain r s' where f: "engine_call update H e c s = (r, s')" by fastforce
  have c: "sound_call c" "cl_capability_id c = cid \<Longrightarrow> da_remaining_calls (dp_initial_authority (cl_profile c)) = calls"
    and cs: "list_all (\<lambda>(e, c). sound_call c \<and> (cl_capability_id c = cid \<longrightarrow> da_remaining_calls (dp_initial_authority (cl_profile c)) = calls)) cs"
    using Cons.prems(3) by (auto simp: a)
  note b = engine_call_budget [OF f c(1) Cons.prems(1) c(2) Cons.prems(2)]
  have "authorized_uses cid ((e, c) # cs) (fst (run_calls (engine_call update H) ((e, c) # cs) s)) =
      (if cl_capability_id c = cid \<and> okE r then 1 else 0) + authorized_uses cid cs (fst (run_calls (engine_call update H) cs s'))"
    using f by (simp add: authorized_uses_def split: prod.split)
  moreover have "int (authorized_uses cid cs (fst (run_calls (engine_call update H) cs s'))) \<le> uses_left calls (lookup s' cid)"
    using Cons.IH b cs by blast
  ultimately show ?case using b unfolding a by (auto split: if_splits)
qed (simp add: authorized_uses_def uses_left_def split: option.split)

text \<open>A call leaves the state of every capability, or narrows it and keeps its argument ranges.\<close>

lemma engine_call_narrows:
  assumes call: "engine_call update H e c s = (r, s')" and sound: "sound_call c" "\<forall>j. pred_option sound_state (lookup s j)"
    and profile: "cl_capability_id c = cid \<Longrightarrow> cl_profile c = profile"
  shows "\<forall>j. pred_option sound_state (lookup s' j)"
    and "decay_le (base_authority profile (lookup s' cid)) (base_authority profile (lookup s cid))"
    and "da_argument_ranges (base_authority profile (lookup s' cid)) = da_argument_ranges (base_authority profile (lookup s cid))"
    and "lookup s cid = Some p \<Longrightarrow> \<exists>st. lookup s' cid = Some st \<and> state_le st p"
proof -
  let ?f = "authorize_transition H (cl_capability_id c) (cl_profile c) (cl_request c) (cl_issued_at_ms c) (cl_now_ms c) (cl_observation c)"
  have f: "sound_transition ?f" using sound(1) by (intro sound_authorize_transition) (simp_all add: sound_call_def)
  have u: "s' = s \<or> (\<exists>x. update e (cl_capability_id c) ?f s = (x, s'))"
    using call unfolding engine_call_def authorize_def by (auto split: sum.split_asm if_split_asm prod.split_asm)
  then show "\<forall>j. pred_option sound_state (lookup s' j)" using update_mono(1) [OF sound(2) f] sound(2) by blast
  show "\<exists>st. lookup s' cid = Some st \<and> state_le st p" if "lookup s cid = Some p"
    using u that update_mono(2) [OF sound(2) f] state_le_refl by blast
  have "decay_le (base_authority profile (lookup s' cid)) (base_authority profile (lookup s cid))
    \<and> da_argument_ranges (base_authority profile (lookup s' cid)) = da_argument_ranges (base_authority profile (lookup s cid))"
  proof (cases "lookup s' cid = lookup s cid")
    case False
    then obtain st a b where t: "?f (lookup s (cl_capability_id c)) = Inr (st, a, b)" "lookup s' = (lookup s)(cl_capability_id c \<mapsto> st)"
      "cl_capability_id c = cid"
      using engine_call_effect [OF call sound(1)] sound(2) by (metis fun_upd_other)
    note a = authorize_transition_Inr [OF t(1)]
    have "decay_le (dc_current_authority st) (base_authority profile (lookup s cid))"
      "da_argument_ranges (dc_current_authority st) = da_argument_ranges (base_authority profile (lookup s cid))"
      using a(8,9,14) decay_steps.le_trans sound profile [OF t(3)] t(3) by (auto simp: sound_call_def)
    then show ?thesis using t(2,3) by (simp add: base_authority_def)
  qed (simp add: decay_steps.le_refl)
  then show "decay_le (base_authority profile (lookup s' cid)) (base_authority profile (lookup s cid))"
    "da_argument_ranges (base_authority profile (lookup s' cid)) = da_argument_ranges (base_authority profile (lookup s cid))" by blast+
qed

lemma history_narrows:
  assumes "\<forall>j. pred_option sound_state (lookup s j)"
    and "list_all (\<lambda>(e, c). sound_call c \<and> (cl_capability_id c = cid \<longrightarrow> cl_profile c = profile)) cs"
    and "run_calls (engine_call update H) cs s = (rs, s')"
  shows "(\<forall>j. pred_option sound_state (lookup s' j))
    \<and> decay_le (base_authority profile (lookup s' cid)) (base_authority profile (lookup s cid))
    \<and> da_argument_ranges (base_authority profile (lookup s' cid)) = da_argument_ranges (base_authority profile (lookup s cid))
    \<and> (\<forall>p. lookup s cid = Some p \<longrightarrow> (\<exists>st. lookup s' cid = Some st \<and> state_le st p))"
  using assms
proof (induction cs arbitrary: s rs)
  case (Cons x cs)
  obtain e c where x: "x = (e, c)" by (cases x)
  obtain r s1 rs1 where f: "engine_call update H e c s = (r, s1)" "run_calls (engine_call update H) cs s1 = (rs1, s')"
    using Cons.prems(3) by (auto simp: x split: prod.split_asm)
  have c: "sound_call c" "cl_capability_id c = cid \<Longrightarrow> cl_profile c = profile" using Cons.prems(2) by (simp_all add: x)
  have n: "\<forall>j. pred_option sound_state (lookup s1 j)"
    "decay_le (base_authority profile (lookup s1 cid)) (base_authority profile (lookup s cid))"
    "da_argument_ranges (base_authority profile (lookup s1 cid)) = da_argument_ranges (base_authority profile (lookup s cid))"
    "lookup s cid = Some p \<Longrightarrow> \<exists>st. lookup s1 cid = Some st \<and> state_le st p" for p
    by (rule engine_call_narrows [OF f(1) c(1) Cons.prems(1)], erule c(2))+
  note ih = Cons.IH [OF n(1) _ f(2)]
  have cs: "list_all (\<lambda>(e, c). sound_call c \<and> (cl_capability_id c = cid \<longrightarrow> cl_profile c = profile)) cs" using Cons.prems(2) by simp
  show ?case using ih [OF cs] n decay_steps.le_trans state_le_trans by (metis (no_types, lifting))
qed (auto simp: decay_steps.le_refl)

text \<open>What the narrower authority permits, the wider one does.\<close>

lemma history_contained:
  assumes "\<forall>j. pred_option sound_state (lookup s j)" and "sound_profile profile"
    and "list_all (\<lambda>(e, c). sound_call c \<and> (cl_capability_id c = cid \<longrightarrow> cl_profile c = profile)) cs"
    and "run_calls (engine_call update H) cs s = (rs, s')" and "t' \<le> t" and "decay_permits (base_authority profile (lookup s' cid)) r t"
  shows "decay_permits (base_authority profile (lookup s cid)) r t'"
proof -
  have n: "decay_le (base_authority profile (lookup s' cid)) (base_authority profile (lookup s cid))"
    "da_argument_ranges (base_authority profile (lookup s' cid)) = da_argument_ranges (base_authority profile (lookup s cid))"
    using history_narrows [OF assms(1,3,4)] by blast+
  have "wf_authority (base_authority profile (lookup s cid))"
    using assms(1) [rule_format, of cid] assms(2)
    by (auto simp: base_authority_def sound_profile_def sound_state_def wf_state_def split: option.split)
  then have "distinct (map fst (da_argument_ranges (base_authority profile (lookup s cid))))" by (simp add: wf_authority_def)
  then show ?thesis using decay_permits_mono [OF n(1) _ _ assms(5,6)] n(2) by simp
qed

lemma denies:
  assumes "engine_call update H e c s = (r, s')" and "sound_call c" and "pred_option sound_state (lookup s (cl_capability_id c))"
    and "(\<exists>st \<in> set (dp_steps (cl_profile c)). ds_trigger st = ''canary_events'' \<and> ds_maximum_calls st = Some 0
         \<and> ds_threshold st \<le> prior_of dc_canary_events (lookup s (cl_capability_id c)) + ob_canary_events (cl_observation c))
      \<or> (\<exists>p. lookup s (cl_capability_id c) = Some p \<and> da_expires_at_ms (dc_current_authority p) \<le> dc_max_observed_time_ms p)
      \<or> (\<exists>p. lookup s (cl_capability_id c) = Some p \<and> da_remaining_calls (dc_current_authority p) < 1)"
  shows "\<not> okE r"
proof
  assume "okE r"
  then obtain ev where "r = Inr ev" by (auto simp: okE_iff)
  note f = engine_call_Inr(1) [OF assms(1) [unfolded this] assms(2,3)]
  note t = authorize_transition_Inr [OF f _ _ assms(3)]
  let ?a = "ev_authorized_authority ev" and ?now = "effective_now (cl_now_ms c) (lookup s (cl_capability_id c))"
  have t: "decay_permits ?a (cl_request c) ?now" "decay_le ?a (base_authority (cl_profile c) (lookup s (cl_capability_id c)))"
    "\<forall>st \<in> set (dp_steps (cl_profile c)). \<forall>m. ds_threshold st \<le> counter (prior_counters (cl_observation c) (cl_issued_at_ms c) ?now
       (lookup s (cl_capability_id c))) (ds_trigger st) \<longrightarrow> ds_maximum_calls st = Some m \<longrightarrow> da_remaining_calls ?a \<le> m"
    using t(11,8,12) assms(2) by (auto simp: sound_call_def)
  have "1 \<le> da_remaining_calls ?a" "?now < da_expires_at_ms ?a" using t(1) by (auto simp: decay_permits_def split: if_splits)
  moreover have "counter (prior_counters ob i n p) ''canary_events'' = prior_of dc_canary_events p + ob_canary_events ob" for ob i n p
    by (simp add: counter_def prior_counters_def)
  ultimately show False
    using assms(4) t(2,3) by (fastforce simp: base_authority_def decay_le_def effective_now_def)
qed

end

interpretation memory_engine: decay_engine "\<lambda>_::unit. memory_update" memory_lookup H for H
  by unfold_locales

interpretation sqlite_engine: decay_engine "sqlite_update H" "sqlite_lookup H" H for H
  by unfold_locales

section \<open>Properties\<close>

text \<open>
  C26: decay is monotone (EH-8). Over any history of \<open>authorize\<close> calls on the SQLite store, for any capabilities, with any clocks,
  requests and observations and \<open>sqlite3\<close> failing anywhere, provided that the stored states and the profiles are valid as
  their constructors make them and that one profile is used for the capability: whatever its authority permits
  afterwards, at any time, its authority before the history (the profile's, when nothing was stored) permits too, at that
  time and earlier. No part of the authority is wider than before and its argument ranges are the same; and a stored
  state stays stored, keeps its profile, and none of its eleven counters (the greatest observed time among them) decreases.
\<close>

theorem authority_never_grows:
  assumes "\<forall>j. pred_option sound_state (sqlite_lookup H rows j)" and "sound_profile profile"
    and "list_all (\<lambda>(e, c). sound_call c \<and> (cl_capability_id c = cid \<longrightarrow> cl_profile c = profile)) cs"
    and "run_calls (engine_call (sqlite_update H) H) cs rows = (rs, rows')"
  shows "(\<forall>r t t'. t' \<le> t \<longrightarrow> decay_permits (base_authority profile (sqlite_lookup H rows' cid)) r t
        \<longrightarrow> decay_permits (base_authority profile (sqlite_lookup H rows cid)) r t')
    \<and> decay_le (base_authority profile (sqlite_lookup H rows' cid)) (base_authority profile (sqlite_lookup H rows cid))
    \<and> da_argument_ranges (base_authority profile (sqlite_lookup H rows' cid)) = da_argument_ranges (base_authority profile (sqlite_lookup H rows cid))
    \<and> (\<forall>p. sqlite_lookup H rows cid = Some p \<longrightarrow> (\<exists>st. sqlite_lookup H rows' cid = Some st
        \<and> dc_profile_digest st = dc_profile_digest p \<and> list_all2 (\<le>) (counters_of p) (counters_of st)))"
proof (intro conjI allI impI)
  note n = sqlite_engine.history_narrows [OF assms(1,3,4)]
  show "decay_le (base_authority profile (sqlite_lookup H rows' cid)) (base_authority profile (sqlite_lookup H rows cid))"
    "da_argument_ranges (base_authority profile (sqlite_lookup H rows' cid)) = da_argument_ranges (base_authority profile (sqlite_lookup H rows cid))"
    using n by blast+
  show "\<exists>st. sqlite_lookup H rows' cid = Some st \<and> dc_profile_digest st = dc_profile_digest p \<and> list_all2 (\<le>) (counters_of p) (counters_of st)"
    if "sqlite_lookup H rows cid = Some p" for p
    using n that unfolding state_le_def by blast
  show "decay_permits (base_authority profile (sqlite_lookup H rows cid)) r t'"
    if "t' \<le> t" "decay_permits (base_authority profile (sqlite_lookup H rows' cid)) r t" for r t t'
    by (rule sqlite_engine.history_contained [OF assms that])
qed

definition demo_profile_record :: decay_profile where
  "demo_profile_record = \<lparr>dp_profile_id = ''p'', dp_version = ''v1'', dp_initial_authority = demo_authority [],
     dp_steps = [(default_step ''canary_events'' 1)\<lparr>ds_maximum_calls := Some 0\<rparr>], dp_refresh_requirements = REFRESH_REQUIREMENTS\<rparr>"

definition demo_call :: "int \<Rightarrow> int \<Rightarrow> decay_call" where
  "demo_call now canaries = \<lparr>cl_capability_id = ''cap_1'', cl_profile = demo_profile_record, cl_request = demo_read 7,
     cl_issued_at_ms = 1000, cl_now_ms = now, cl_observation = no_observation\<lparr>ob_canary_events := canaries\<rparr>\<rparr>"

definition demo_state :: decay_state where
  "demo_state = \<lparr>dc_capability_id = ''cap_1'', dc_profile_digest = demo_digest, dc_max_observed_time_ms = 1500, dc_use_count = 0,
     dc_read_bytes = 0, dc_write_bytes = 0, dc_denials = 0, dc_risk_score = 0, dc_canary_events = 0, dc_trust_age_ms = 0,
     dc_policy_age_ms = 0, dc_environment_changes = 0, dc_workload_restarts = 0, dc_current_authority = demo_authority []\<rparr>"

lemma demo_sound: "sound_state demo_state" "sound_profile demo_profile_record" "wf_str ''cap_1''" "sound_call (demo_call n k)"
proof -
  show "sound_state demo_state" "sound_profile demo_profile_record" "wf_str ''cap_1''" by (code_simp, code_simp, code_simp)
  then show "sound_call (demo_call n k)" by (simp add: sound_call_def demo_call_def)
qed

text \<open>
  C27: the call budget of a capability. Over any history of \<open>authorize\<close> calls on the SQLite store, interleaved with calls
  for other capabilities, with any clock readings, requests and reported events, and \<open>sqlite3\<close> failing anywhere, a
  capability that the store does not know yet is authorized at most as often as its profile has calls; the profile
  that \<open>decay_profile_for_ceiling\<close> makes has at most one.
\<close>

theorem decay_use_budget:
  assumes "\<forall>j. pred_option sound_state (sqlite_lookup H rows j)" and "sqlite_lookup H rows cid = None"
    and "list_all (\<lambda>(e, c). sound_call c \<and> (cl_capability_id c = cid \<longrightarrow> cl_profile c = profile)) cs"
    and "decay_profile_for_ceiling ceiling version (Some issued) (Some expires) = Inr profile"
  shows "authorized_uses cid cs (fst (run_calls (engine_call (sqlite_update H) H) cs rows)) \<le> 1"
proof -
  let ?calls = "da_remaining_calls (dp_initial_authority profile)"
  have "?calls \<le> 1"
    using profile_for_ceiling_Inr [OF assms(4)] by (simp add: normal_authority_def ceiling_authority_def)
  moreover have "within_budget ?calls (sqlite_lookup H rows cid)" "uses_left ?calls (sqlite_lookup H rows cid) \<le> 1"
    using calculation by (simp_all add: within_budget_def uses_left_def assms(2))
  moreover have "list_all (\<lambda>(e, c). sound_call c \<and> (cl_capability_id c = cid \<longrightarrow>
      da_remaining_calls (dp_initial_authority (cl_profile c)) = ?calls)) cs"
    using assms(3) by (auto simp: list_all_iff)
  ultimately show ?thesis using sqlite_engine.budget [OF assms(1)] by fastforce
qed

lemma demo_ceiling_profile:
  obtains p where "decay_profile_for_ceiling (demo_ceiling 4) ''v1'' (Some 100000) (Some 105000) = Inr p" "sound_profile p"
proof -
  have "okE (bindE (decay_profile_for_ceiling (demo_ceiling 4) ''v1'' (Some 100000) (Some 105000)) (\<lambda>p.
      if sound_profile p then Inr () else Inl OutOfFuel))" by code_simp
  then show thesis using that by (auto simp: okE_iff bindE_Inr_iff split: if_splits)
qed

text \<open>A first call with the profile of the example ceiling is authorized.\<close>

definition demo_ceiling_call :: "decay_profile \<Rightarrow> decay_call" where
  "demo_ceiling_call p = \<lparr>cl_capability_id = ''cap_1'', cl_profile = p, cl_request = demo_request,
     cl_issued_at_ms = 100000, cl_now_ms = 101000, cl_observation = no_observation\<rparr>"

lemma demo_ceiling_use:
  assumes "decay_profile_for_ceiling (demo_ceiling 4) ''v1'' (Some 100000) (Some 105000) = Inr p"
  shows "okE (fst (engine_call (sqlite_update demo_host) demo_host Decay_ok (demo_ceiling_call p) Map.empty))"
proof -
  let ?c0 = "prior_counters no_observation 100000 101000 None"
  let ?cs = "AList.update ''use_count'' (counter ?c0 ''use_count'' + 1) ?c0"
  have "okE (bindE (decay_profile_for_ceiling (demo_ceiling 4) ''v1'' (Some 100000) (Some 105000)) (\<lambda>p.
      bindE (checkE (\<not> list_all demo_value_ok (subvalues 0 (PDict (decay_profile_to_dict p)))) OutOfFuel) (\<lambda>_.
      bindE (apply_due ?c0 100000 (dp_steps p) (dp_initial_authority p)) (\<lambda>authorized.
      bindE (checkE (\<not> decay_permits authorized demo_request 101000) OutOfFuel) (\<lambda>_.
      bindE (apply_due ?cs 100000 (dp_steps p) authorized) (\<lambda>stepped.
      bindE (decay_authority_init (decay_authority_args (spend (dp_initial_authority p) ?cs stepped))) (\<lambda>current.
      bindE (checkE (\<not> is_subset_of current authorized) OutOfFuel) (\<lambda>_.
      bindE (decay_state_init (state_args ''cap_1'' demo_digest 101000 ?cs) current) (\<lambda>state.
      checkE (dc_capability_id state \<noteq> ''cap_1'' \<or> \<not> list_all demo_value_ok (subvalues 0 (PDict (decay_state_to_dict state)))) OutOfFuel)))))))))"
    by code_simp
  then obtain authorized stepped current state where
    f: "list_all demo_value_ok (subvalues 0 (PDict (decay_profile_to_dict p)))"
      "apply_due ?c0 100000 (dp_steps p) (dp_initial_authority p) = Inr authorized" "decay_permits authorized demo_request 101000"
      "apply_due ?cs 100000 (dp_steps p) authorized = Inr stepped"
      "decay_authority_init (decay_authority_args (spend (dp_initial_authority p) ?cs stepped)) = Inr current" "is_subset_of current authorized"
      "decay_state_init (state_args ''cap_1'' demo_digest 101000 ?cs) current = Inr state" "dc_capability_id state = ''cap_1''"
      "list_all demo_value_ok (subvalues 0 (PDict (decay_state_to_dict state)))"
    unfolding okE_iff bindE_Inr_iff checkE_Inr_iff assms by auto
  have "profile_digest demo_host p = Inr demo_digest" unfolding profile_digest_def by (rule digest_demo [OF f(1)])
  moreover have "effective_now 101000 None = 101000" by (simp add: effective_now_def)
  ultimately have "authorize_transition demo_host ''cap_1'' p demo_request 100000 101000 no_observation None = Inr (state, authorized, False)"
    using f by (simp add: authorize_transition_def Let_def)
  moreover obtain row where "encode_state demo_host state = Inr row"
    using demo_canonical [OF f(9)] digest_demo [OF f(9)] by (auto simp: encode_state_def okE_iff)
  moreover have "load_locked demo_host ''cap_1'' Map.empty = Inr None" by (simp add: load_locked_def)
  ultimately show ?thesis
    using f(8)
    by (simp add: engine_call_def authorize_def demo_ceiling_call_def sqlite_update_def prepare_update_def run_transition_def
        validate_state_transition_def okE_iff unitE_def decay_nonnegative_def py_nonnegative_def max_safe_def no_observation_def)
qed

theorem decay_use_budget_witness:
  "\<exists>p. decay_profile_for_ceiling (demo_ceiling 4) ''v1'' (Some 100000) (Some 105000) = Inr p
    \<and> authorized_uses ''cap_1'' [(Decay_ok, demo_ceiling_call p), (Decay_ok, demo_ceiling_call p)]
      (fst (run_calls (engine_call (sqlite_update demo_host) demo_host)
        [(Decay_ok, demo_ceiling_call p), (Decay_ok, demo_ceiling_call p)] Map.empty)) = 1"
proof -
  obtain p where p: "decay_profile_for_ceiling (demo_ceiling 4) ''v1'' (Some 100000) (Some 105000) = Inr p" "sound_profile p"
    by (rule demo_ceiling_profile)
  let ?cs = "[(Decay_ok, demo_ceiling_call p), (Decay_ok, demo_ceiling_call p)]"
  have c: "cl_capability_id (demo_ceiling_call p) = ''cap_1''" "cl_profile (demo_ceiling_call p) = p" "sound_call (demo_ceiling_call p)"
    using p(2) demo_sound(3) by (simp_all add: demo_ceiling_call_def sound_call_def)
  have "\<forall>j. pred_option sound_state (sqlite_lookup demo_host Map.empty j)" "sqlite_lookup demo_host Map.empty ''cap_1'' = None"
    by (simp_all add: sqlite_lookup_def load_locked_def)
  then have "authorized_uses ''cap_1'' ?cs (fst (run_calls (engine_call (sqlite_update demo_host) demo_host) ?cs Map.empty)) \<le> 1"
    using c by (intro decay_use_budget [OF _ _ _ p(1)]) simp_all
  moreover obtain r rows where "engine_call (sqlite_update demo_host) demo_host Decay_ok (demo_ceiling_call p) Map.empty = (r, rows)" "okE r"
    using demo_ceiling_use [OF p(1)] by (metis prod.collapse)
  then have "1 \<le> authorized_uses ''cap_1'' ?cs (fst (run_calls (engine_call (sqlite_update demo_host) demo_host) ?cs Map.empty))"
    using c(1) by (simp add: authorized_uses_def split: prod.split)
  ultimately show ?thesis using p(1) by (intro exI [of _ p]) simp
qed

text \<open>
  What no call can pass. \<open>authorize\<close> on the SQLite store denies a call when the canary events on record and those it
  reports reach a step that takes all calls away, when the capability had expired at the greatest time ever observed
  (so turning the clock back does not revive it), and when no calls remain; whatever the clock, the request or the
  other events say.
\<close>

theorem decay_denials:
  assumes "engine_call (sqlite_update H) H e c rows = (r, rows')" and "sound_call c"
    and "pred_option sound_state (sqlite_lookup H rows (cl_capability_id c))"
    and "(\<exists>st \<in> set (dp_steps (cl_profile c)). ds_trigger st = ''canary_events'' \<and> ds_maximum_calls st = Some 0
         \<and> ds_threshold st \<le> prior_of dc_canary_events (sqlite_lookup H rows (cl_capability_id c)) + ob_canary_events (cl_observation c))
      \<or> (\<exists>p. sqlite_lookup H rows (cl_capability_id c) = Some p \<and> da_expires_at_ms (dc_current_authority p) \<le> dc_max_observed_time_ms p)
      \<or> (\<exists>p. sqlite_lookup H rows (cl_capability_id c) = Some p \<and> da_remaining_calls (dc_current_authority p) < 1)"
  shows "\<exists>err. r = Inl err"
  using sqlite_engine.denies [OF assms] by (cases r) (auto simp: okE_iff)

theorem decay_denials_witness:
  "\<exists>err. fst (engine_call (sqlite_update demo_host) demo_host Decay_ok (demo_call 1200 1) Map.empty) = Inl err"
proof -
  obtain r rows' where c: "engine_call (sqlite_update demo_host) demo_host Decay_ok (demo_call 1200 1) Map.empty = (r, rows')"
    by fastforce
  have "sqlite_lookup demo_host Map.empty j = None" for j by (simp add: sqlite_lookup_def load_locked_def)
  then have "\<exists>err. r = Inl err"
    using decay_denials [OF c demo_sound(4)]
    by (simp add: demo_call_def demo_profile_record_def default_step_def prior_of_def no_observation_def)
  then show ?thesis by (simp add: c)
qed

text \<open>
  C34: what an authorization means. A successful \<open>authorize\<close> on the SQLite store decided with an authority inside the stored
  one (or the profile's, at the first use), which permits the request at the greater of the clock and the greatest
  observed time; the stored state afterwards is the returned one, it counts one more use and no more authority, and
  reading it back from the database gives exactly this state.
\<close>

theorem authorize_sound:
  assumes "engine_call (sqlite_update H) H e c rows = (Inr ev, rows')" and "sound_call c"
    and "pred_option sound_state (sqlite_lookup H rows (cl_capability_id c))"
  shows "decay_le (ev_authorized_authority ev) (base_authority (cl_profile c) (sqlite_lookup H rows (cl_capability_id c)))
    \<and> decay_permits (ev_authorized_authority ev) (cl_request c) (effective_now (cl_now_ms c) (sqlite_lookup H rows (cl_capability_id c)))
    \<and> decay_le (dc_current_authority (ev_resulting_state ev)) (ev_authorized_authority ev)
    \<and> dc_use_count (ev_resulting_state ev) = prior_of dc_use_count (sqlite_lookup H rows (cl_capability_id c)) + 1
    \<and> profile_digest H (cl_profile c) = Inr (dc_profile_digest (ev_resulting_state ev))
    \<and> load_locked H (cl_capability_id c) rows' = Inr (Some (ev_resulting_state ev))"
proof -
  note f = sqlite_engine.engine_call_Inr [OF assms]
  note t = authorize_transition_Inr [OF f(1) _ _ assms(3)]
  have "sqlite_lookup H rows' (cl_capability_id c) = Some (ev_resulting_state ev)" using f(2) by simp
  then have "load_locked H (cl_capability_id c) rows' = Inr (Some (ev_resulting_state ev))"
    by (auto simp: sqlite_lookup_def split: sum.split_asm)
  then show ?thesis using t(3,4,8,9,11) assms(2) by (simp add: sound_call_def)
qed

definition demo_used_state :: decay_state where
  "demo_used_state = demo_state\<lparr>dc_max_observed_time_ms := 1200, dc_use_count := 1,
     dc_current_authority := (demo_authority [])\<lparr>da_remaining_calls := 0\<rparr>\<rparr>"

lemma demo_transition:
  "authorize_transition demo_host ''cap_1'' demo_profile_record (demo_read 7) 1000 1200 (no_observation\<lparr>ob_canary_events := 0\<rparr>) None
     = Inr (demo_used_state, demo_authority [], False)"
proof -
  let ?ob = "no_observation\<lparr>ob_canary_events := 0\<rparr>" and ?a = "demo_authority []"
  let ?c0 = "prior_counters ?ob 1000 1200 None"
  let ?cs = "AList.update ''use_count'' (counter ?c0 ''use_count'' + 1) ?c0"
  have now: "effective_now 1200 None = 1200" by (simp add: effective_now_def)
  have "list_all demo_value_ok (subvalues 0 (PDict (decay_profile_to_dict demo_profile_record)))" by code_simp
  then have pd: "profile_digest demo_host demo_profile_record = Inr demo_digest" unfolding profile_digest_def by (rule digest_demo)
  have "apply_due ?c0 1000 (dp_steps demo_profile_record) ?a = Inr ?a" "apply_due ?cs 1000 (dp_steps demo_profile_record) ?a = Inr ?a"
    "decay_permits ?a (demo_read 7) 1200" "dp_initial_authority demo_profile_record = ?a"
    by (code_simp, code_simp, code_simp, simp add: demo_profile_record_def)
  moreover have "decay_authority_init (decay_authority_args (spend ?a ?cs ?a)) = Inr (?a\<lparr>da_remaining_calls := 0\<rparr>)"
    "is_subset_of (?a\<lparr>da_remaining_calls := 0\<rparr>) ?a"
    by (code_simp, code_simp)
  moreover have "decay_state_init (state_args ''cap_1'' demo_digest 1200 ?cs) (?a\<lparr>da_remaining_calls := 0\<rparr>) = Inr demo_used_state"
    by code_simp
  ultimately show ?thesis by (simp add: authorize_transition_def now pd Let_def)
qed

lemma demo_authorized:
  "okE (fst (engine_call (sqlite_update demo_host) demo_host Decay_ok (demo_call 1200 0) Map.empty))"
proof -
  have "list_all demo_value_ok (subvalues 0 (PDict (decay_state_to_dict demo_used_state)))" by code_simp
  then have "okE (canonical_bytes demo_host (PDict (decay_state_to_dict demo_used_state)))"
    "digest demo_host (PDict (decay_state_to_dict demo_used_state)) = Inr demo_digest"
    using demo_canonical digest_demo by blast+
  then obtain row where row: "encode_state demo_host demo_used_state = Inr row" by (auto simp: encode_state_def okE_iff)
  have "validate_state_transition ''cap_1'' None demo_used_state = Inr ()"
    by (simp add: validate_state_transition_def demo_used_state_def demo_state_def)
  moreover have "load_locked demo_host ''cap_1'' Map.empty = Inr None" by (simp add: load_locked_def)
  ultimately show ?thesis
    using row demo_transition
    by (simp add: engine_call_def authorize_def demo_call_def sqlite_update_def prepare_update_def run_transition_def
        okE_iff unitE_def decay_nonnegative_def py_nonnegative_def max_safe_def no_observation_def)
qed

theorem authority_never_grows_witness:
  "\<exists>rs rows'. run_calls (engine_call (sqlite_update demo_host) demo_host) [(Decay_ok, demo_call 1200 0), (Decay_ok, demo_call 1100 1)] Map.empty
       = (rs, rows') \<and> okE (hd rs)
     \<and> \<not> decay_permits (base_authority demo_profile_record (sqlite_lookup demo_host rows' ''cap_1'')) ((demo_read 7)\<lparr>ar_operation := ''write''\<rparr>) 1200"
proof -
  let ?cs = "[(Decay_ok, demo_call 1200 0), (Decay_ok, demo_call 1100 1)]"
  obtain rs rows' where r: "run_calls (engine_call (sqlite_update demo_host) demo_host) ?cs Map.empty = (rs, rows')" by fastforce
  have ok: "okE (hd rs)" using r demo_authorized by (auto split: prod.split_asm)
  have none: "sqlite_lookup demo_host Map.empty j = None" for j by (simp add: sqlite_lookup_def load_locked_def)
  have "list_all (\<lambda>(e, c). sound_call c \<and> (cl_capability_id c = ''cap_1'' \<longrightarrow> cl_profile c = demo_profile_record)) ?cs"
    using demo_sound(4) by (simp add: demo_call_def)
  note g = authority_never_grows [OF _ demo_sound(2) this r]
  have "base_authority demo_profile_record None = demo_authority []" by (simp add: base_authority_def demo_profile_record_def)
  moreover have "\<not> decay_permits (demo_authority []) ((demo_read 7)\<lparr>ar_operation := ''write''\<rparr>) 1200" by code_simp
  ultimately show ?thesis using g r ok by (auto simp: none)
qed

theorem authorize_sound_witness:
  "\<exists>ev rows'. engine_call (sqlite_update demo_host) demo_host Decay_ok (demo_call 1200 0) Map.empty = (Inr ev, rows')
    \<and> load_locked demo_host ''cap_1'' rows' = Inr (Some (ev_resulting_state ev)) \<and> dc_use_count (ev_resulting_state ev) = 1"
proof -
  obtain ev rows' where c: "engine_call (sqlite_update demo_host) demo_host Decay_ok (demo_call 1200 0) Map.empty = (Inr ev, rows')"
    using demo_authorized by (metis okE_iff fst_conv surj_pair)
  have none: "sqlite_lookup demo_host Map.empty j = None" for j by (simp add: sqlite_lookup_def load_locked_def)
  have "cl_capability_id (demo_call 1200 0) = ''cap_1''" by (simp add: demo_call_def)
  then show ?thesis using authorize_sound [OF c demo_sound(4)] c by (simp add: none prior_of_def)
qed

end
