(* ===== verification/Broker.thy ===== *)
theory Broker
  imports TrustDecay Attestation
begin

text \<open>
  \<open>broker.py\<close>: issuing a signed one-use capability and redeeming it. Ed25519 is the parameter \<open>ed25519\<close> (the
  cryptography package), keys are their raw bytes; base64url is modelled. The consumption store and the decay state
  store are arguments, so that the in-memory and the SQLite stores can be plugged in; the state of both is threaded
  through a redemption.

  A clock reading is \<open>int(seconds * 1000)\<close>, or invalid when \<open>_now_ms\<close> refuses the value. A redemption reads the
  clock three times (verification, consumption, decay); the readings are independent arguments.
\<close>

section \<open>Definitions\<close>

subsection \<open>Base64url\<close>

definition b64_char :: "nat \<Rightarrow> char" where
  "b64_char n = (if n < 26 then char_of (65 + n) else if n < 52 then char_of (71 + n)
     else if n < 62 then char_of (n - 4) else if n = 62 then CHR ''-'' else CHR ''_'')"

definition b64_val :: "char \<Rightarrow> nat" where
  "b64_val c = (let n = of_char c in
     if 65 \<le> n \<and> n \<le> 90 then n - 65 else if 97 \<le> n \<and> n \<le> 122 then n - 71
     else if 48 \<le> n \<and> n \<le> 57 then n + 4 else if c = CHR ''-'' then 62 else 63)"

text \<open>\<open>base64.urlsafe_b64encode(b).rstrip(b'=')\<close> and \<open>base64.urlsafe_b64decode\<close> of padded alphabet characters.\<close>

fun b64_encode :: "string \<Rightarrow> string" where
  "b64_encode (a # b # c # r) =
     b64_char (of_char a div 4) # b64_char (of_char a mod 4 * 16 + of_char b div 16)
     # b64_char (of_char b mod 16 * 4 + of_char c div 64) # b64_char (of_char c mod 64) # b64_encode r"
| "b64_encode [a, b] = [b64_char (of_char a div 4), b64_char (of_char a mod 4 * 16 + of_char b div 16), b64_char (of_char b mod 16 * 4)]"
| "b64_encode [a] = [b64_char (of_char a div 4), b64_char (of_char a mod 4 * 16)]"
| "b64_encode [] = []"

fun b64_decode :: "string \<Rightarrow> string" where
  "b64_decode (w # x # y # z # r) =
     char_of (b64_val w * 4 + b64_val x div 16) # char_of (b64_val x mod 16 * 16 + b64_val y div 4)
     # char_of (b64_val y mod 4 * 64 + b64_val z) # b64_decode r"
| "b64_decode [w, x, y] = [char_of (b64_val w * 4 + b64_val x div 16), char_of (b64_val x mod 16 * 16 + b64_val y div 4)]"
| "b64_decode [w, x] = [char_of (b64_val w * 4 + b64_val x div 16)]"
| "b64_decode _ = []"

definition strict_signature :: "string \<Rightarrow> string res" where
  "strict_signature value =
     (if \<not> is_b64_signature value then Inl (CapabilityError ''malformed capability signature'')
      else let signature = b64_decode value in
        if length signature \<noteq> 64 \<or> b64_encode signature \<noteq> value then Inl (CapabilityError ''malformed capability signature'')
        else Inr signature)"

subsection \<open>Keys and clocks\<close>

record ed25519 =
  ed_public :: "string \<Rightarrow> string"
  ed_sign :: "string \<Rightarrow> string \<Rightarrow> string"
  ed_verify :: "string \<Rightarrow> string \<Rightarrow> string \<Rightarrow> bool"

definition capability_key_id :: "host \<Rightarrow> string \<Rightarrow> string" where
  "capability_key_id H raw_public = ''ed25519:'' @ take 32 (sha256_hex H raw_public)"

datatype clock = Millis int | Invalid_clock

fun now_ms :: "clock \<Rightarrow> int res" where
  "now_ms (Millis t) = Inr t"
| "now_ms Invalid_clock = Inl (CapabilityError ''verification clock is invalid'')"

subsection \<open>Verification\<close>

text \<open>
  The keyword arguments of a redemption. \<open>str(v)\<close> of a value that is not a string is \<open>rx_str\<close>.
\<close>

record redemption =
  rx_executor_measurement :: string
  rx_device_id :: string
  rx_attestation :: dict
  rx_verifier_policy_digest :: string
  rx_policy_digest :: string
  rx_audience :: string
  rx_tenant :: string
  rx_environment :: string
  rx_str :: "pyval \<Rightarrow> string"

definition attested_str :: "redemption \<Rightarrow> dict \<Rightarrow> string \<Rightarrow> string" where
  "attested_str x m k = (case map_of m k of None \<Rightarrow> [] | Some (PStr s) \<Rightarrow> s | Some v \<Rightarrow> rx_str x v)"

definition verified_envelope :: "host \<Rightarrow> ed25519 \<Rightarrow> string \<Rightarrow> string \<Rightarrow> issued_capability \<Rightarrow> issued_capability res" where
  "verified_envelope H E public_key expected_key_id capability =
     bindE (catchE (issued_capability_from_dict H (PDict (issued_capability_to_dict capability))) value_or_type_error
              (CapabilityError ''malformed capability'')) (\<lambda>parsed.
     bindE (checkE (ic_algorithm parsed \<noteq> ''Ed25519'') (CapabilityError ''unsupported capability algorithm'')) (\<lambda>_.
     bindE (checkE (ic_key_id parsed \<noteq> expected_key_id \<or> cc_signer_key_id (ic_claims parsed) \<noteq> expected_key_id)
              (CapabilityError ''unknown capability signing key'')) (\<lambda>_.
     bindE (strict_signature (ic_signature parsed)) (\<lambda>signature.
     bindE (canonical_bytes H (PDict (claims_to_dict (ic_claims parsed)))) (\<lambda>message.
     bindE (checkE (\<not> ed_verify E public_key signature message) (CapabilityError ''invalid capability signature'')) (\<lambda>_.
     Inr parsed))))))"

definition request_bindings :: "capability_claims \<Rightarrow> action_request \<Rightarrow> string \<Rightarrow> string \<Rightarrow> (string \<times> string \<times> string) list" where
  "request_bindings c r arguments_digest req_digest =
     [(''session_id'', cc_session_id c, ar_session_id r), (''agent_id'', cc_agent_id c, ar_agent_id r),
      (''executor_id'', cc_executor_id c, ar_executor_id r), (''operation'', cc_operation c, ar_operation r),
      (''resource_id'', cc_resource_id c, ar_resource_id r), (''arguments_digest'', cc_arguments_digest c, arguments_digest),
      (''request_digest'', cc_request_digest c, req_digest)]"

definition context_bindings ::
  "capability_claims \<Rightarrow> redemption \<Rightarrow> trust_state \<Rightarrow> compiled \<Rightarrow> dict \<Rightarrow> string \<Rightarrow> string \<Rightarrow> string \<Rightarrow> string \<Rightarrow> (string \<times> string \<times> string) list" where
  "context_bindings c x trust compiled measurements profile_dg authority_dg refresh_dg key_id =
     [(''device_id'', cc_device_id c, rx_device_id x),
      (''executor_measurement'', cc_executor_measurement c, rx_executor_measurement x),
      (''current_attested_device'', rx_device_id x, attested_str x (rx_attestation x) ''deviceId''),
      (''current_attested_measurement'', rx_executor_measurement x, attested_str x measurements ''executor''),
      (''attestation_digest'', cc_attestation_digest c, ts_attestation_digest trust),
      (''attestation_bundle_digest'', cc_attestation_bundle_digest c, ts_bundle_digest trust),
      (''verifier_policy_digest'', cc_verifier_policy_digest c, ts_verifier_policy_digest trust),
      (''current_verifier_policy_digest'', ts_verifier_policy_digest trust, rx_verifier_policy_digest x),
      (''attestation_method'', cc_attestation_method c, ts_method trust),
      (''attestation_key_id'', cc_attestation_key_id c, ts_key_id trust),
      (''provider_attested_trust'', cc_provider_attested_trust c, tier_name (ts_provider_attested_trust trust)),
      (''effective_trust'', cc_effective_trust c, tier_name (ts_effective_trust trust)),
      (''policy_digest'', cc_policy_digest c, rx_policy_digest x),
      (''audience'', cc_audience c, rx_audience x),
      (''current_tenant'', cc_tenant c, rx_tenant x),
      (''current_environment'', cc_environment c, rx_environment x),
      (''task_id'', cc_task_id c, cp_task_id compiled),
      (''task_fingerprint'', cc_task_fingerprint c, cp_task_fingerprint compiled),
      (''tenant'', cc_tenant c, cp_tenant compiled),
      (''environment'', cc_environment c, cp_environment compiled),
      (''compiled_ceiling_digest'', cc_compiled_ceiling_digest c, cp_compiled_digest compiled),
      (''decay_profile_id'', cc_decay_profile_id c, cp_decay_profile compiled),
      (''decay_profile_digest'', cc_decay_profile_digest c, profile_dg),
      (''initial_authority_digest'', cc_initial_authority_digest c, authority_dg),
      (''refresh_requirements_digest'', cc_refresh_requirements_digest c, refresh_dg),
      (''compiled_subject'', cc_agent_id c, cp_subject_id compiled),
      (''compiled_workload'', cc_executor_id c, cp_workload_identity compiled),
      (''compiled_attestation'', cc_attestation_digest c, cp_provider_attestation_digest compiled),
      (''compiled_bundle'', cc_attestation_bundle_digest c, cp_provider_bundle_digest compiled),
      (''compiled_attestation_method'', cc_attestation_method c, cp_provider_method compiled),
      (''compiled_attestation_key'', cc_attestation_key_id c, cp_provider_key_id compiled),
      (''compiled_trust'', cc_effective_trust c, tier_name (cp_provider_trust compiled)),
      (''signer_key_id'', cc_signer_key_id c, key_id)]"

definition bound :: "(string \<times> string \<times> string) list \<Rightarrow> unit res" where
  "bound bs = checkE (\<not> list_all (\<lambda>(name, a, b). a = b) bs) (CapabilityError ''capability binding mismatch'')"

text \<open>The authority context of the claims: current trust, the compiled ceiling and its decay profile.\<close>

definition authority_context :: "host \<Rightarrow> capability_claims \<Rightarrow> redemption \<Rightarrow> (trust_state \<times> compiled \<times> decay_profile) res" where
  "authority_context H c x = catchE
     (bindE (trust_state_from_attestation H (PDict (rx_attestation x)) (PStr (cc_requested_trust c))) (\<lambda>trust.
      bindE (compiled_from_dict H (PDict (cc_compiled_ceiling c))) (\<lambda>compiled.
      bindE (decay_profile_for_ceiling compiled (cc_decay_profile_version c) (Some (cc_issued_at c)) (Some (cc_expires_at c)))
        (\<lambda>profile. Inr (trust, compiled, profile)))))
     value_or_type_error (CapabilityError ''current authority context is invalid'')"

definition context_checks :: "host \<Rightarrow> capability_claims \<Rightarrow> action_request \<Rightarrow> redemption \<Rightarrow> int \<Rightarrow> trust_state \<Rightarrow> compiled \<Rightarrow> unit res" where
  "context_checks H c r x current_ms trust compiled =
     bindE (seqE
       [checkE (\<not> is_mapping (dict_get (rx_attestation x) ''measurements'')) (CapabilityError ''current attestation measurements are invalid''),
        checkE (\<not> equals_dict (dict_get (rx_attestation x) ''nonceContext'')
                   (nonce_context (ar_executor_id r) (ar_session_id r) (ar_purpose r)))
          (CapabilityError ''current attestation nonce context mismatch''),
        checkE (current_ms \<ge> ts_expires_at_ms trust) (CapabilityError ''current provider attestation expired''),
        checkE (ts_effective_trust trust < tier_val (PStr (cc_signed_trust_constraint c)))
          (CapabilityError ''current provider trust is below the signed constraint'')]) (\<lambda>_.
     bindE (permits H compiled r) (\<lambda>ok.
     checkE (\<not> ok) (CapabilityError ''compiled task policy ceiling does not permit the request'')))"

definition verified_claims ::
  "host \<Rightarrow> ed25519 \<Rightarrow> string \<Rightarrow> string \<Rightarrow> issued_capability \<Rightarrow> action_request \<Rightarrow> redemption \<Rightarrow> clock \<Rightarrow> capability_claims res" where
  "verified_claims H E public_key expected_key_id capability r x now =
     bindE (verified_envelope H E public_key expected_key_id capability) (\<lambda>parsed.
     let c = ic_claims parsed in
     bindE (now_ms now) (\<lambda>current_ms.
     bindE (checkE (current_ms < cc_issued_at c - 5000) (CapabilityError ''capability issued beyond allowed clock skew'')) (\<lambda>_.
     bindE (checkE (current_ms \<ge> cc_expires_at c) (CapabilityError ''capability expired'')) (\<lambda>_.
     bindE (request_digest H r) (\<lambda>rd.
     bindE (digest H (dict_get (canonical_payload r) ''arguments'')) (\<lambda>ad.
     bindE (bound (request_bindings c r ad rd)) (\<lambda>_.
     bindE (authority_context H c x) (\<lambda>(trust, compiled, profile).
     bindE (context_checks H c r x current_ms trust compiled) (\<lambda>_.
     bindE (profile_digest H profile) (\<lambda>pd.
     bindE (authority_digest H (dp_initial_authority profile)) (\<lambda>authority_dg.
     bindE (digest H (PStrs (dp_refresh_requirements profile))) (\<lambda>refresh_dg.
     bindE (bound (context_bindings c x trust compiled (dict_of (dict_get (rx_attestation x) ''measurements''))
                     pd authority_dg refresh_dg (ic_key_id parsed) @ request_bindings c r ad rd)) (\<lambda>_.
     Inr c)))))))))))))"

definition consume_once ::
  "host \<Rightarrow> (consumption \<Rightarrow> 's \<Rightarrow> bool res \<times> 's) \<Rightarrow> capability_claims \<Rightarrow> clock \<Rightarrow> 's \<Rightarrow> unit res \<times> 's" where
  "consume_once H consume c now s =
     (case bindE (digest H (PDict (claims_to_dict c))) (\<lambda>d. bindE (now_ms now) (\<lambda>t. Inr (d, t))) of
        Inl _ \<Rightarrow> (Inl (CapabilityError ''capability replay state unavailable''), s)
      | Inr (d, t) \<Rightarrow>
          (case consume \<lparr>cn_capability_id = PStr (cc_capability_id c), cn_claims_digest = PStr d,
                        cn_expires_at = PInt (cc_expires_at c), cn_consumed_at = PInt t\<rparr> s of
             (Inl _, s') \<Rightarrow> (Inl (CapabilityError ''capability replay state unavailable''), s')
           | (Inr fresh, s') \<Rightarrow> (checkE (\<not> fresh) (CapabilityError ''capability replay detected''), s')))"

definition decay_or_value_error :: "exn \<Rightarrow> bool" where
  "decay_or_value_error e \<longleftrightarrow> value_or_type_error e \<or> is_decay_error e"

definition authorize_decay ::
  "host \<Rightarrow> (string \<Rightarrow> (decay_authority \<times> bool) transition \<Rightarrow> 'd \<Rightarrow> (decay_state \<times> decay_authority \<times> bool) res \<times> 'd)
     \<Rightarrow> capability_claims \<Rightarrow> action_request \<Rightarrow> clock \<Rightarrow> 'd \<Rightarrow> unit res \<times> 'd" where
  "authorize_decay H update c r now d =
     (case bindE (compiled_from_dict H (PDict (cc_compiled_ceiling c))) (\<lambda>compiled.
           bindE (decay_profile_for_ceiling compiled (cc_decay_profile_version c) (Some (cc_issued_at c)) (Some (cc_expires_at c))) (\<lambda>profile.
           bindE (now_ms now) (\<lambda>t. Inr (profile, t)))) of
        Inl e \<Rightarrow> (catchE (Inl e) decay_or_value_error (CapabilityError ''current decay authority denied redemption''), d)
      | Inr (profile, t) \<Rightarrow>
          (case authorize update H (cc_capability_id c) profile r (cc_issued_at c) t no_observation d of
             (result, d') \<Rightarrow> (catchE (unitE result) decay_or_value_error (CapabilityError ''current decay authority denied redemption''), d')))"

text \<open>\<open>verify_and_consume\<close>: the capability is consumed before the decay state is consulted.\<close>

definition verify_and_consume ::
  "host \<Rightarrow> ed25519 \<Rightarrow> (consumption \<Rightarrow> 's \<Rightarrow> bool res \<times> 's)
     \<Rightarrow> (string \<Rightarrow> (decay_authority \<times> bool) transition \<Rightarrow> 'd \<Rightarrow> (decay_state \<times> decay_authority \<times> bool) res \<times> 'd)
     \<Rightarrow> string \<Rightarrow> string \<Rightarrow> issued_capability \<Rightarrow> action_request \<Rightarrow> redemption \<Rightarrow> clock \<times> clock \<times> clock \<Rightarrow> 's \<times> 'd
     \<Rightarrow> capability_claims res \<times> 's \<times> 'd" where
  "verify_and_consume H E consume update public_key key_id capability r x clocks st =
     (case (clocks, st) of ((t1, t2, t3), (s, d)) \<Rightarrow>
      (case verified_claims H E public_key key_id capability r x t1 of
         Inl e \<Rightarrow> (Inl e, s, d)
       | Inr c \<Rightarrow> (case consume_once H consume c t2 s of
           (Inl e, s') \<Rightarrow> (Inl e, s', d)
         | (Inr _, s') \<Rightarrow> (case authorize_decay H update c r t3 d of
             (Inl e, d') \<Rightarrow> (Inl e, s', d')
           | (Inr _, d') \<Rightarrow> (Inr c, s', d')))))"

record capability_verifier =
  cv_public_key :: string
  cv_key_id :: string

text \<open>The public key is already loaded; a key that is no Ed25519 key is \<open>None\<close>.\<close>

definition verifier_init :: "host \<Rightarrow> string option \<Rightarrow> string \<Rightarrow> capability_verifier res" where
  "verifier_init H public_key key_id = (case public_key of
     None \<Rightarrow> Inl (TypeError ''capability verification key must be Ed25519'')
   | Some raw \<Rightarrow>
       if key_id \<noteq> capability_key_id H raw then Inl (ValueError ''capability key_id does not match the supplied public key'')
       else Inr \<lparr>cv_public_key = raw, cv_key_id = capability_key_id H raw\<rparr>)"

subsection \<open>Issuance\<close>

record broker =
  bk_private_key :: string
  bk_key_id :: string
  bk_ttl_ms :: int

datatype signing_key = Private_key string | Seed string | Generated string | Unsupported_key

text \<open>\<open>ttl_ms\<close> is \<open>ceil(ttl_seconds * 1000)\<close>, or \<open>None\<close> when the TTL is no finite number.\<close>

definition broker_init :: "host \<Rightarrow> ed25519 \<Rightarrow> signing_key \<Rightarrow> string option \<Rightarrow> int option \<Rightarrow> broker res" where
  "broker_init H E signing key_id ttl_ms =
     bindE (case signing of
              Private_key k \<Rightarrow> Inr k
            | Seed s \<Rightarrow> if length s < 32 then Inl (ValueError ''signing key seed must be at least 32 bytes'') else Inr (take 32 s)
            | Generated k \<Rightarrow> Inr k
            | Unsupported_key \<Rightarrow> Inl (TypeError ''unsupported signing key'')) (\<lambda>k.
     let actual = capability_key_id H (ed_public E k) in
     bindE (checkE (key_id \<noteq> None \<and> key_id \<noteq> Some actual)
              (ValueError ''explicit capability key_id does not match the signing key'')) (\<lambda>_.
     case ttl_ms of
       None \<Rightarrow> Inl (ValueError ''capability TTL must be finite'')
     | Some ttl \<Rightarrow>
         if \<not> (0 < ttl \<and> ttl \<le> 300000) then Inl (ValueError ''capability TTL must be greater than zero and at most 300 seconds'')
         else Inr \<lparr>bk_private_key = k, bk_key_id = actual, bk_ttl_ms = ttl\<rparr>))"

record issuance =
  is_device_id :: string
  is_executor_measurement :: string
  is_policy_digest :: string
  is_max_output_bytes :: pyval
  is_guardian_state_digest :: string
  is_audience :: string
  is_decay_profile_version :: string

definition issue_checks ::
  "host \<Rightarrow> action_request \<Rightarrow> issuance \<Rightarrow> trust_state \<Rightarrow> compiled \<Rightarrow> int \<Rightarrow> unit res" where
  "issue_checks H r i trust ceiling issued_at =
     bindE (catchE (verify_integrity H ceiling) value_or_type_error (CapabilityError ''compiled task policy ceiling is invalid'')) (\<lambda>_.
     bindE (permits H ceiling r) (\<lambda>ok.
     seqE
       [checkE (\<not> ok) (CapabilityError ''compiled task policy ceiling does not permit the request''),
        checkE (cp_policy_version ceiling = [] \<or> is_policy_digest i = []) (CapabilityError ''current policy authority is unavailable''),
        checkE (cp_provider_attestation_digest ceiling \<noteq> ts_attestation_digest trust) (CapabilityError ''compiled ceiling attestation binding mismatch''),
        checkE (cp_provider_bundle_digest ceiling \<noteq> ts_bundle_digest trust) (CapabilityError ''compiled ceiling bundle binding mismatch''),
        checkE (cp_provider_key_id ceiling \<noteq> ts_key_id trust) (CapabilityError ''compiled ceiling provider key binding mismatch''),
        checkE (cp_provider_method ceiling \<noteq> ts_method trust) (CapabilityError ''compiled ceiling provider method binding mismatch''),
        checkE (cp_provider_trust ceiling \<noteq> ts_effective_trust trust) (CapabilityError ''compiled ceiling provider trust binding mismatch''),
        checkE (issued_at \<ge> ts_expires_at_ms trust) (CapabilityError ''provider-derived trust has expired''),
        checkE (\<not> is_digest (is_guardian_state_digest i)) (CapabilityError ''guardian state digest is invalid'')]))"

definition issued_claim_args ::
  "broker \<Rightarrow> action_request \<Rightarrow> issuance \<Rightarrow> trust_state \<Rightarrow> compiled \<Rightarrow> string \<Rightarrow> int \<Rightarrow> int
     \<Rightarrow> string \<Rightarrow> string \<Rightarrow> string \<Rightarrow> string \<Rightarrow> string \<Rightarrow> string \<Rightarrow> pyval" where
  "issued_claim_args b r i trust ceiling token issued_at expires_at ad rd pd authority_dg refresh_dg = dict_get
     [(''capability_id'', PStr (''cap_'' @ token)), (''issued_at'', PInt issued_at), (''expires_at'', PInt expires_at),
      (''session_id'', PStr (ar_session_id r)), (''agent_id'', PStr (ar_agent_id r)), (''executor_id'', PStr (ar_executor_id r)),
      (''device_id'', PStr (is_device_id i)), (''executor_measurement'', PStr (is_executor_measurement i)),
      (''attestation_digest'', PStr (ts_attestation_digest trust)), (''attestation_bundle_digest'', PStr (ts_bundle_digest trust)),
      (''verifier_policy_digest'', PStr (ts_verifier_policy_digest trust)), (''task_id'', PStr (cp_task_id ceiling)),
      (''task_fingerprint'', PStr (cp_task_fingerprint ceiling)), (''tenant'', PStr (cp_tenant ceiling)),
      (''environment'', PStr (cp_environment ceiling)), (''audience'', PStr (is_audience i)),
      (''requested_trust'', PStr (tier_name (ts_requested_trust trust))),
      (''provider_attested_trust'', PStr (tier_name (ts_provider_attested_trust trust))),
      (''effective_trust'', PStr (tier_name (ts_effective_trust trust))),
      (''signed_trust_constraint'', PStr (tier_name (cp_required_trust_tier ceiling))),
      (''attestation_method'', PStr (ts_method trust)), (''attestation_key_id'', PStr (ts_key_id trust)),
      (''compiled_ceiling'', PDict (compiled_to_dict ceiling)), (''compiled_ceiling_digest'', PStr (cp_compiled_digest ceiling)),
      (''guardian_state_digest'', PStr (is_guardian_state_digest i)), (''decay_profile_id'', PStr (cp_decay_profile ceiling)),
      (''decay_profile_version'', PStr (is_decay_profile_version i)), (''decay_profile_digest'', PStr pd),
      (''initial_authority_digest'', PStr authority_dg), (''refresh_requirements_digest'', PStr refresh_dg),
      (''operation'', PStr (ar_operation r)), (''resource_id'', PStr (ar_resource_id r)),
      (''arguments_digest'', PStr ad), (''request_digest'', PStr rd), (''max_output_bytes'', is_max_output_bytes i),
      (''invocation_limit'', PInt 1), (''policy_digest'', PStr (is_policy_digest i)), (''signer_key_id'', PStr (bk_key_id b))]"

text \<open>\<open>issue\<close>; \<open>token\<close> is \<open>secrets.token_hex(12)\<close>, and arguments of a wrong class are \<open>None\<close>.\<close>

definition issue ::
  "host \<Rightarrow> ed25519 \<Rightarrow> broker \<Rightarrow> action_request \<Rightarrow> issuance \<Rightarrow> trust_state option \<Rightarrow> compiled option \<Rightarrow> clock \<Rightarrow> string \<Rightarrow> issued_capability res" where
  "issue H E b r i trust ceiling now token =
     bindE (now_ms now) (\<lambda>issued_at.
     case (trust, ceiling) of
       (None, _) \<Rightarrow> Inl (CapabilityError ''provider-derived trust is required for capability issuance'')
     | (_, None) \<Rightarrow> Inl (CapabilityError ''compiled task policy ceiling is required for capability issuance'')
     | (Some trust, Some ceiling) \<Rightarrow>
       bindE (issue_checks H r i trust ceiling issued_at) (\<lambda>_.
       bindE (request_digest H r) (\<lambda>rd.
       bindE (digest H (dict_get (canonical_payload r) ''arguments'')) (\<lambda>ad.
       let expires_at = min (issued_at + bk_ttl_ms b) (cp_expires_at_ms ceiling) in
       bindE (catchE (decay_profile_for_ceiling ceiling (is_decay_profile_version i) (Some issued_at) (Some expires_at))
                value_or_type_error (CapabilityError ''decay profile is invalid'')) (\<lambda>profile.
       bindE (profile_digest H profile) (\<lambda>pd.
       bindE (authority_digest H (dp_initial_authority profile)) (\<lambda>authority_dg.
       bindE (digest H (PStrs (dp_refresh_requirements profile))) (\<lambda>refresh_dg.
       bindE (claims_init H (issued_claim_args b r i trust ceiling token issued_at expires_at ad rd pd authority_dg refresh_dg)) (\<lambda>claims.
       bindE (canonical_bytes H (PDict (claims_to_dict claims))) (\<lambda>message.
       issued_capability_init claims (PStr (b64_encode (ed_sign E (bk_private_key b) message))) (PStr (bk_key_id b)) (PStr ''Ed25519'')))))))))))"

definition broker_verify_and_consume ::
  "host \<Rightarrow> ed25519 \<Rightarrow> (consumption \<Rightarrow> 's \<Rightarrow> bool res \<times> 's)
     \<Rightarrow> (string \<Rightarrow> (decay_authority \<times> bool) transition \<Rightarrow> 'd \<Rightarrow> (decay_state \<times> decay_authority \<times> bool) res \<times> 'd)
     \<Rightarrow> broker \<Rightarrow> issued_capability \<Rightarrow> action_request \<Rightarrow> redemption \<Rightarrow> clock \<times> clock \<times> clock \<Rightarrow> 's \<times> 'd
     \<Rightarrow> capability_claims res \<times> 's \<times> 'd" where
  "broker_verify_and_consume H E consume update b =
     verify_and_consume H E consume update (ed_public E (bk_private_key b)) (bk_key_id b)"

text \<open>One redemption against shared stores; \<open>redeems i\<close> says that it succeeded for capability \<open>i\<close>.\<close>

record redemption_call =
  rc_capability :: issued_capability
  rc_request :: action_request
  rc_redemption :: redemption
  rc_clocks :: "clock \<times> clock \<times> clock"

definition redeem ::
  "host \<Rightarrow> ed25519 \<Rightarrow> ('e \<Rightarrow> consumption \<Rightarrow> 's \<Rightarrow> bool res \<times> 's)
     \<Rightarrow> ('f \<Rightarrow> string \<Rightarrow> (decay_authority \<times> bool) transition \<Rightarrow> 'd \<Rightarrow> (decay_state \<times> decay_authority \<times> bool) res \<times> 'd)
     \<Rightarrow> capability_verifier \<Rightarrow> 'e \<times> 'f \<Rightarrow> redemption_call \<Rightarrow> 's \<times> 'd \<Rightarrow> capability_claims res \<times> 's \<times> 'd" where
  "redeem H E consume update v e c st = verify_and_consume H E (consume (fst e)) (update (snd e)) (cv_public_key v) (cv_key_id v)
     (rc_capability c) (rc_request c) (rc_redemption c) (rc_clocks c) st"

definition redeems :: "string \<Rightarrow> redemption_call \<Rightarrow> capability_claims res \<Rightarrow> bool" where
  "redeems i c r = (case r of Inl _ \<Rightarrow> False | Inr claims \<Rightarrow> cc_capability_id claims = i)"

section \<open>Lemmas\<close>

subsection \<open>Base64url is invertible\<close>

lemma b64_val_char [simp]: "n < 64 \<Longrightarrow> b64_val (b64_char n) = n"
proof -
  have "list_all (\<lambda>n. b64_val (b64_char n) = n) [0..<64]" by code_simp
  then show "n < 64 \<Longrightarrow> b64_val (b64_char n) = n" by (simp add: list_all_iff)
qed

lemma is_b64url_char: "n < 64 \<Longrightarrow> is_b64url (b64_char n)"
proof -
  have "list_all (\<lambda>n. is_b64url (b64_char n)) [0..<64]" by code_simp
  then show "n < 64 \<Longrightarrow> is_b64url (b64_char n)" by (simp add: list_all_iff)
qed

lemma of_char_256: "of_char c < (256 :: nat)"
  using of_char_mod_256 [of c, where ?'a = nat] by (metis mod_less_divisor zero_less_numeral)

text \<open>Three bytes as four groups of six bits.\<close>

lemma sextets:
  fixes a b c :: nat
  assumes "a < 256" "b < 256" "c < 256"
  shows "a div 4 < 64" "a mod 4 * 16 + b div 16 < 64" "b mod 16 * 4 + c div 64 < 64" "c mod 64 < 64"
    and "a mod 4 * 16 < 64" "b mod 16 * 4 < 64"
proof -
  have d: "b div 16 < 16" "c div 64 < 4" "a div 4 < 64" using assms by auto
  show "a div 4 < 64" "c mod 64 < 64" "a mod 4 * 16 < 64" "b mod 16 * 4 < 64" using d by auto
  show "a mod 4 * 16 + b div 16 < 64" "b mod 16 * 4 + c div 64 < 64" using d by auto
qed

lemmas sextet_bounds = sextets [OF of_char_256 of_char_256 of_char_256]

lemma byte_groups: "of_char c div 16 div 16 = (0 :: nat)" "of_char c div 16 mod 16 = (of_char c div 16 :: nat)"
  "of_char c div 64 div 4 = (0 :: nat)" "of_char c div 64 mod 4 = (of_char c div 64 :: nat)"
proof -
  have "x < 256 \<Longrightarrow> x div 16 div 16 = 0" "x < 256 \<Longrightarrow> x div 16 mod 16 = x div 16" "x < 256 \<Longrightarrow> x div 64 div 4 = 0"
    "x < 256 \<Longrightarrow> x div 64 mod 4 = x div 64" for x :: nat
    by auto
  then show "of_char c div 16 div 16 = (0 :: nat)" "of_char c div 16 mod 16 = (of_char c div 16 :: nat)"
    "of_char c div 64 div 4 = (0 :: nat)" "of_char c div 64 mod 4 = (of_char c div 64 :: nat)"
    using of_char_256 by blast+
qed

lemma b64_decode_encode: "b64_decode (b64_encode s) = s"
  by (induction s rule: b64_encode.induct) (simp_all add: sextet_bounds byte_groups)

lemma b64_encode_alphabet: "list_all is_b64url (b64_encode s)"
  by (induction s rule: b64_encode.induct) (simp_all add: is_b64url_char sextet_bounds)

lemma length_b64_encode: "length (b64_encode s) = (length s * 4 + 2) div 3"
  by (induction s rule: b64_encode.induct) simp_all

lemma strict_signature_encode: "length s = 64 \<Longrightarrow> strict_signature (b64_encode s) = Inr s"
  by (simp add: strict_signature_def is_b64_signature_def b64_decode_encode b64_encode_alphabet length_b64_encode)

subsection \<open>What verification establishes\<close>

lemma bound_Inr [res_simps]: "bound bs = Inr u \<longleftrightarrow> list_all (\<lambda>(name, a, b). a = b) bs"
  by (simp add: bound_def checkE_Inr_iff)

lemma verified_envelope_Inr:
  assumes "verified_envelope H E pk kid envp = Inr parsed"
  shows "issued_capability_from_dict H (PDict (issued_capability_to_dict envp)) = Inr parsed
    \<and> ic_key_id parsed = kid \<and> cc_signer_key_id (ic_claims parsed) = kid
    \<and> (\<exists>sig message. strict_signature (ic_signature parsed) = Inr sig
         \<and> canonical_bytes H (PDict (claims_to_dict (ic_claims parsed))) = Inr message \<and> ed_verify E pk sig message)"
  using assms unfolding verified_envelope_def bindE_Inr_iff checkE_Inr_iff catchE_Inr_iff by auto

lemma verified_claims_cases:
  assumes "verified_claims H E pk kid envp r x now = Inr c"
  obtains parsed t rd ad trust compiled profile pd authority_dg refresh_dg where
    "verified_envelope H E pk kid envp = Inr parsed" "c = ic_claims parsed" "now = Millis t"
    "cc_issued_at c - 5000 \<le> t" "t < cc_expires_at c"
    "request_digest H r = Inr rd" "digest H (dict_get (canonical_payload r) ''arguments'') = Inr ad"
    "list_all (\<lambda>(name, a, b). a = b) (request_bindings c r ad rd)"
    "trust_state_from_attestation H (PDict (rx_attestation x)) (PStr (cc_requested_trust c)) = Inr trust"
    "compiled_from_dict H (PDict (cc_compiled_ceiling c)) = Inr compiled"
    "decay_profile_for_ceiling compiled (cc_decay_profile_version c) (Some (cc_issued_at c)) (Some (cc_expires_at c)) = Inr profile"
    "context_checks H c r x t trust compiled = Inr ()"
    "profile_digest H profile = Inr pd" "authority_digest H (dp_initial_authority profile) = Inr authority_dg"
    "digest H (PStrs (dp_refresh_requirements profile)) = Inr refresh_dg"
    "list_all (\<lambda>(name, a, b). a = b) (context_bindings c x trust compiled
       (dict_of (dict_get (rx_attestation x) ''measurements'')) pd authority_dg refresh_dg (ic_key_id parsed))"
proof -
  have clock: "now_ms k = Inr t \<Longrightarrow> k = Millis t" for k t by (cases k) auto
  from assms obtain parsed t rd ad ctx pd authority_dg refresh_dg where
    "verified_envelope H E pk kid envp = Inr parsed" "c = ic_claims parsed" "now_ms now = Inr t"
    "\<not> t < cc_issued_at c - 5000" "\<not> cc_expires_at c \<le> t"
    "request_digest H r = Inr rd" "digest H (dict_get (canonical_payload r) ''arguments'') = Inr ad"
    "bound (request_bindings c r ad rd) = Inr ()" "authority_context H c x = Inr ctx"
    and rest: "context_checks H c r x t (fst ctx) (fst (snd ctx)) = Inr ()" "profile_digest H (snd (snd ctx)) = Inr pd"
    "authority_digest H (dp_initial_authority (snd (snd ctx))) = Inr authority_dg"
    "digest H (PStrs (dp_refresh_requirements (snd (snd ctx)))) = Inr refresh_dg"
    "bound (context_bindings c x (fst ctx) (fst (snd ctx)) (dict_of (dict_get (rx_attestation x) ''measurements''))
       pd authority_dg refresh_dg (ic_key_id parsed) @ request_bindings c r ad rd) = Inr ()"
    unfolding verified_claims_def Let_def bindE_Inr_iff checkE_Inr_iff case_prod_unfold by auto
  moreover obtain trust compiled profile where "ctx = (trust, compiled, profile)" by (cases ctx)
  ultimately show thesis
    using clock by (intro that [of parsed t rd ad trust compiled profile pd authority_dg refresh_dg])
      (auto simp: bound_Inr authority_context_def catchE_Inr_iff bindE_Inr_iff)
qed

lemma context_checks_Inr:
  "context_checks H c r x t trust compiled = Inr () \<longleftrightarrow> is_mapping (dict_get (rx_attestation x) ''measurements'')
     \<and> equals_dict (dict_get (rx_attestation x) ''nonceContext'') (nonce_context (ar_executor_id r) (ar_session_id r) (ar_purpose r))
     \<and> t < ts_expires_at_ms trust \<and> tier_val (PStr (cc_signed_trust_constraint c)) \<le> ts_effective_trust trust
     \<and> permits H compiled r = Inr True"
  unfolding context_checks_def bindE_Inr_iff seqE_Inr_iff checkE_Inr_iff by (auto simp: checkE_Inr_iff not_less not_le)

subsection \<open>What issuance puts into a capability\<close>

text \<open>The claims a capability of \<open>issue\<close> carries.\<close>

definition issued_claims ::
  "broker \<Rightarrow> action_request \<Rightarrow> issuance \<Rightarrow> trust_state \<Rightarrow> compiled \<Rightarrow> string \<Rightarrow> int \<Rightarrow> int
     \<Rightarrow> string \<Rightarrow> string \<Rightarrow> string \<Rightarrow> string \<Rightarrow> string \<Rightarrow> capability_claims" where
  "issued_claims b r i trust ceiling token issued_at expires_at ad rd pd authority_dg refresh_dg =
     \<lparr>cc_capability_id = ''cap_'' @ token, cc_issued_at = issued_at, cc_expires_at = expires_at,
      cc_session_id = ar_session_id r, cc_agent_id = ar_agent_id r, cc_executor_id = ar_executor_id r,
      cc_device_id = is_device_id i, cc_executor_measurement = is_executor_measurement i,
      cc_attestation_digest = ts_attestation_digest trust, cc_attestation_bundle_digest = ts_bundle_digest trust,
      cc_verifier_policy_digest = ts_verifier_policy_digest trust, cc_task_id = cp_task_id ceiling,
      cc_task_fingerprint = cp_task_fingerprint ceiling, cc_tenant = cp_tenant ceiling,
      cc_environment = cp_environment ceiling, cc_audience = is_audience i,
      cc_requested_trust = tier_name (ts_requested_trust trust),
      cc_provider_attested_trust = tier_name (ts_provider_attested_trust trust),
      cc_effective_trust = tier_name (ts_effective_trust trust),
      cc_signed_trust_constraint = tier_name (cp_required_trust_tier ceiling),
      cc_attestation_method = ts_method trust, cc_attestation_key_id = ts_key_id trust,
      cc_compiled_ceiling = dict_of (freeze_json (PDict (compiled_to_dict ceiling))),
      cc_compiled_ceiling_digest = cp_compiled_digest ceiling, cc_guardian_state_digest = is_guardian_state_digest i,
      cc_decay_profile_id = cp_decay_profile ceiling, cc_decay_profile_version = is_decay_profile_version i,
      cc_decay_profile_digest = pd, cc_initial_authority_digest = authority_dg, cc_refresh_requirements_digest = refresh_dg,
      cc_operation = ar_operation r, cc_resource_id = ar_resource_id r, cc_arguments_digest = ad, cc_request_digest = rd,
      cc_max_output_bytes = int_of (is_max_output_bytes i), cc_invocation_limit = 1, cc_signer_key_id = bk_key_id b,
      cc_policy_digest = is_policy_digest i\<rparr>"

lemma issued_claim_lookup:
  "issued_claim_args b r i trust ceiling token issued_at expires_at ad rd pd authority_dg refresh_dg ''capability_id'' = PStr (''cap_'' @ token)"
  "issued_claim_args b r i trust ceiling token issued_at expires_at ad rd pd authority_dg refresh_dg ''issued_at'' = PInt issued_at"
  "issued_claim_args b r i trust ceiling token issued_at expires_at ad rd pd authority_dg refresh_dg ''expires_at'' = PInt expires_at"
  "issued_claim_args b r i trust ceiling token issued_at expires_at ad rd pd authority_dg refresh_dg ''session_id'' = PStr (ar_session_id r)"
  "issued_claim_args b r i trust ceiling token issued_at expires_at ad rd pd authority_dg refresh_dg ''agent_id'' = PStr (ar_agent_id r)"
  "issued_claim_args b r i trust ceiling token issued_at expires_at ad rd pd authority_dg refresh_dg ''executor_id'' = PStr (ar_executor_id r)"
  "issued_claim_args b r i trust ceiling token issued_at expires_at ad rd pd authority_dg refresh_dg ''device_id'' = PStr (is_device_id i)"
  "issued_claim_args b r i trust ceiling token issued_at expires_at ad rd pd authority_dg refresh_dg ''executor_measurement'' = PStr (is_executor_measurement i)"
  "issued_claim_args b r i trust ceiling token issued_at expires_at ad rd pd authority_dg refresh_dg ''attestation_digest'' = PStr (ts_attestation_digest trust)"
  "issued_claim_args b r i trust ceiling token issued_at expires_at ad rd pd authority_dg refresh_dg ''attestation_bundle_digest'' = PStr (ts_bundle_digest trust)"
  "issued_claim_args b r i trust ceiling token issued_at expires_at ad rd pd authority_dg refresh_dg ''verifier_policy_digest'' = PStr (ts_verifier_policy_digest trust)"
  "issued_claim_args b r i trust ceiling token issued_at expires_at ad rd pd authority_dg refresh_dg ''task_id'' = PStr (cp_task_id ceiling)"
  "issued_claim_args b r i trust ceiling token issued_at expires_at ad rd pd authority_dg refresh_dg ''task_fingerprint'' = PStr (cp_task_fingerprint ceiling)"
  "issued_claim_args b r i trust ceiling token issued_at expires_at ad rd pd authority_dg refresh_dg ''tenant'' = PStr (cp_tenant ceiling)"
  "issued_claim_args b r i trust ceiling token issued_at expires_at ad rd pd authority_dg refresh_dg ''environment'' = PStr (cp_environment ceiling)"
  "issued_claim_args b r i trust ceiling token issued_at expires_at ad rd pd authority_dg refresh_dg ''audience'' = PStr (is_audience i)"
  "issued_claim_args b r i trust ceiling token issued_at expires_at ad rd pd authority_dg refresh_dg ''requested_trust'' = PStr (tier_name (ts_requested_trust trust))"
  "issued_claim_args b r i trust ceiling token issued_at expires_at ad rd pd authority_dg refresh_dg ''provider_attested_trust'' = PStr (tier_name (ts_provider_attested_trust trust))"
  "issued_claim_args b r i trust ceiling token issued_at expires_at ad rd pd authority_dg refresh_dg ''effective_trust'' = PStr (tier_name (ts_effective_trust trust))"
  "issued_claim_args b r i trust ceiling token issued_at expires_at ad rd pd authority_dg refresh_dg ''signed_trust_constraint'' = PStr (tier_name (cp_required_trust_tier ceiling))"
  "issued_claim_args b r i trust ceiling token issued_at expires_at ad rd pd authority_dg refresh_dg ''attestation_method'' = PStr (ts_method trust)"
  "issued_claim_args b r i trust ceiling token issued_at expires_at ad rd pd authority_dg refresh_dg ''attestation_key_id'' = PStr (ts_key_id trust)"
  "issued_claim_args b r i trust ceiling token issued_at expires_at ad rd pd authority_dg refresh_dg ''compiled_ceiling'' = PDict (compiled_to_dict ceiling)"
  "issued_claim_args b r i trust ceiling token issued_at expires_at ad rd pd authority_dg refresh_dg ''compiled_ceiling_digest'' = PStr (cp_compiled_digest ceiling)"
  "issued_claim_args b r i trust ceiling token issued_at expires_at ad rd pd authority_dg refresh_dg ''guardian_state_digest'' = PStr (is_guardian_state_digest i)"
  "issued_claim_args b r i trust ceiling token issued_at expires_at ad rd pd authority_dg refresh_dg ''decay_profile_id'' = PStr (cp_decay_profile ceiling)"
  "issued_claim_args b r i trust ceiling token issued_at expires_at ad rd pd authority_dg refresh_dg ''decay_profile_version'' = PStr (is_decay_profile_version i)"
  "issued_claim_args b r i trust ceiling token issued_at expires_at ad rd pd authority_dg refresh_dg ''decay_profile_digest'' = PStr pd"
  "issued_claim_args b r i trust ceiling token issued_at expires_at ad rd pd authority_dg refresh_dg ''initial_authority_digest'' = PStr authority_dg"
  "issued_claim_args b r i trust ceiling token issued_at expires_at ad rd pd authority_dg refresh_dg ''refresh_requirements_digest'' = PStr refresh_dg"
  "issued_claim_args b r i trust ceiling token issued_at expires_at ad rd pd authority_dg refresh_dg ''operation'' = PStr (ar_operation r)"
  "issued_claim_args b r i trust ceiling token issued_at expires_at ad rd pd authority_dg refresh_dg ''resource_id'' = PStr (ar_resource_id r)"
  "issued_claim_args b r i trust ceiling token issued_at expires_at ad rd pd authority_dg refresh_dg ''arguments_digest'' = PStr ad"
  "issued_claim_args b r i trust ceiling token issued_at expires_at ad rd pd authority_dg refresh_dg ''request_digest'' = PStr rd"
  "issued_claim_args b r i trust ceiling token issued_at expires_at ad rd pd authority_dg refresh_dg ''max_output_bytes'' = is_max_output_bytes i"
  "issued_claim_args b r i trust ceiling token issued_at expires_at ad rd pd authority_dg refresh_dg ''invocation_limit'' = PInt 1"
  "issued_claim_args b r i trust ceiling token issued_at expires_at ad rd pd authority_dg refresh_dg ''policy_digest'' = PStr (is_policy_digest i)"
  "issued_claim_args b r i trust ceiling token issued_at expires_at ad rd pd authority_dg refresh_dg ''signer_key_id'' = PStr (bk_key_id b)"
  by (simp_all add: issued_claim_args_def)

lemma claims_build_issued:
  "claims_build (issued_claim_args b r i trust ceiling token issued_at expires_at ad rd pd authority_dg refresh_dg) =
     issued_claims b r i trust ceiling token issued_at expires_at ad rd pd authority_dg refresh_dg"
  unfolding claims_build_def issued_claims_def issued_claim_lookup by (simp del: freeze_json.simps)

lemma issue_checks_Inr:
  assumes "issue_checks H r i trust ceiling issued_at = Inr ()"
  shows "verify_integrity H ceiling = Inr () \<and> permits H ceiling r = Inr True \<and> cp_policy_version ceiling \<noteq> []
    \<and> cp_provider_attestation_digest ceiling = ts_attestation_digest trust \<and> cp_provider_bundle_digest ceiling = ts_bundle_digest trust
    \<and> cp_provider_key_id ceiling = ts_key_id trust \<and> cp_provider_method ceiling = ts_method trust
    \<and> cp_provider_trust ceiling = ts_effective_trust trust \<and> issued_at < ts_expires_at_ms trust"
  using assms unfolding issue_checks_def bindE_Inr_iff seqE_Inr_iff checkE_Inr_iff catchE_Inr_iff
  by (auto simp: checkE_Inr_iff not_le)

lemma issue_cases:
  assumes "issue H E b r i trust ceiling now token = Inr envp"
  obtains t c issued_at expires_at rd ad profile pd authority_dg refresh_dg claims message where
    "trust = Some t" "ceiling = Some c" "now = Millis issued_at" "expires_at = min (issued_at + bk_ttl_ms b) (cp_expires_at_ms c)"
    "issue_checks H r i t c issued_at = Inr ()" "request_digest H r = Inr rd"
    "digest H (dict_get (canonical_payload r) ''arguments'') = Inr ad"
    "decay_profile_for_ceiling c (is_decay_profile_version i) (Some issued_at) (Some expires_at) = Inr profile"
    "profile_digest H profile = Inr pd" "authority_digest H (dp_initial_authority profile) = Inr authority_dg"
    "digest H (PStrs (dp_refresh_requirements profile)) = Inr refresh_dg"
    "claims_init H (issued_claim_args b r i t c token issued_at expires_at ad rd pd authority_dg refresh_dg) = Inr claims"
    "claims = issued_claims b r i t c token issued_at expires_at ad rd pd authority_dg refresh_dg"
    "canonical_bytes H (PDict (claims_to_dict claims)) = Inr message"
    "issued_capability_init claims (PStr (b64_encode (ed_sign E (bk_private_key b) message))) (PStr (bk_key_id b)) (PStr ''Ed25519'') = Inr envp"
proof -
  obtain issued_at where now: "now = Millis issued_at" using assms by (cases now) (auto simp: issue_def)
  obtain t c where tc: "trust = Some t" "ceiling = Some c"
    using assms by (cases trust; cases ceiling) (auto simp: issue_def now)
  let ?e = "min (issued_at + bk_ttl_ms b) (cp_expires_at_ms c)"
  obtain rd ad profile pd authority_dg refresh_dg claims message where
    f: "issue_checks H r i t c issued_at = Inr ()" "request_digest H r = Inr rd"
    "digest H (dict_get (canonical_payload r) ''arguments'') = Inr ad"
    "decay_profile_for_ceiling c (is_decay_profile_version i) (Some issued_at) (Some ?e) = Inr profile"
    "profile_digest H profile = Inr pd" "authority_digest H (dp_initial_authority profile) = Inr authority_dg"
    "digest H (PStrs (dp_refresh_requirements profile)) = Inr refresh_dg"
    "claims_init H (issued_claim_args b r i t c token issued_at ?e ad rd pd authority_dg refresh_dg) = Inr claims"
    "canonical_bytes H (PDict (claims_to_dict claims)) = Inr message"
    "issued_capability_init claims (PStr (b64_encode (ed_sign E (bk_private_key b) message))) (PStr (bk_key_id b)) (PStr ''Ed25519'') = Inr envp"
    using assms unfolding issue_def now tc Let_def now_ms.simps bindE.simps prod.case option.case bindE_Inr_iff catchE_Inr_iff
    by (elim exE conjE) simp
  moreover have "claims = issued_claims b r i t c token issued_at ?e ad rd pd authority_dg refresh_dg"
    using f(8) claims_build_issued by (auto simp: claims_init_def bindE_Inr_iff)
  ultimately show thesis using that [OF tc now refl] by blast
qed

subsection \<open>Honest redemption\<close>

text \<open>The documented behaviour of Ed25519: 64 byte signatures that verify under the public key.\<close>

definition ed25519_correct :: "ed25519 \<Rightarrow> string \<Rightarrow> bool" where
  "ed25519_correct E k \<longleftrightarrow> (\<forall>m. length (ed_sign E k m) = 64 \<and> ed_verify E (ed_public E k) (ed_sign E k m) m)"

text \<open>The redeemer presents the evidence and the configuration the capability was issued for.\<close>

definition honest_redemption :: "host \<Rightarrow> action_request \<Rightarrow> issuance \<Rightarrow> trust_state \<Rightarrow> compiled \<Rightarrow> redemption \<Rightarrow> bool" where
  "honest_redemption H r i trust ceiling x \<longleftrightarrow>
     trust_state_from_attestation H (PDict (rx_attestation x)) (PStr (tier_name (ts_requested_trust trust))) = Inr trust
     \<and> is_mapping (dict_get (rx_attestation x) ''measurements'')
     \<and> equals_dict (dict_get (rx_attestation x) ''nonceContext'') (nonce_context (ar_executor_id r) (ar_session_id r) (ar_purpose r))
     \<and> attested_str x (rx_attestation x) ''deviceId'' = is_device_id i
     \<and> attested_str x (dict_of (dict_get (rx_attestation x) ''measurements'')) ''executor'' = is_executor_measurement i
     \<and> rx_device_id x = is_device_id i \<and> rx_executor_measurement x = is_executor_measurement i
     \<and> rx_verifier_policy_digest x = ts_verifier_policy_digest trust \<and> rx_policy_digest x = is_policy_digest i
     \<and> rx_audience x = is_audience i \<and> rx_tenant x = cp_tenant ceiling \<and> rx_environment x = cp_environment ceiling"

lemma permits_subject: "permits H c r = Inr True \<Longrightarrow> ar_agent_id r = cp_subject_id c \<and> ar_executor_id r = cp_workload_identity c"
  by (auto simp: permits_def bindE_Inr_iff)

lemma envelope_verifies:
  assumes init: "claims_init H g = Inr claims" and bytes: "canonical_bytes H (PDict (claims_to_dict claims)) = Inr message"
    and cap: "issued_capability_init claims (PStr (b64_encode (ed_sign E k message))) (PStr kid) (PStr ''Ed25519'') = Inr envp"
    and signer: "cc_signer_key_id claims = kid" and ed: "ed25519_correct E k"
  shows "verified_envelope H E (ed_public E k) kid envp = Inr envp \<and> ic_claims envp = claims \<and> ic_key_id envp = kid"
proof -
  have e: "envp = \<lparr>ic_claims = claims, ic_signature = b64_encode (ed_sign E k message), ic_key_id = kid, ic_algorithm = ''Ed25519''\<rparr>"
    using cap by (auto simp: issued_capability_init_iff)
  have "issued_capability_from_dict H (PDict (issued_capability_to_dict envp)) = Inr envp"
    using envelope_from_to_dict [OF init cap] .
  then show ?thesis
    using ed bytes signer strict_signature_encode
    by (simp add: verified_envelope_def catchE_def e ed25519_correct_def)
qed

lemma honest_claims_verify:
  assumes "issue H E b r i (Some trust) (Some ceiling) (Millis t0) token = Inr envp" and "ed25519_correct E (bk_private_key b)"
    and obj: "compiled_init H (compiled_args ceiling) = Inr ceiling" and honest: "honest_redemption H r i trust ceiling x"
    and tier: "cp_required_trust_tier ceiling \<le> ts_effective_trust trust"
    and time: "t0 - 5000 \<le> t" "t < t0 + bk_ttl_ms b" "t < cp_expires_at_ms ceiling" "t < ts_expires_at_ms trust"
  shows "verified_claims H E (ed_public E (bk_private_key b)) (bk_key_id b) envp r x (Millis t) = Inr (ic_claims envp)"
proof -
  let ?e = "min (t0 + bk_ttl_ms b) (cp_expires_at_ms ceiling)"
  obtain rd ad profile pd authority_dg refresh_dg claims message where
    f: "issue_checks H r i trust ceiling t0 = Inr ()" "request_digest H r = Inr rd"
    "digest H (dict_get (canonical_payload r) ''arguments'') = Inr ad"
    "decay_profile_for_ceiling ceiling (is_decay_profile_version i) (Some t0) (Some ?e) = Inr profile"
    "profile_digest H profile = Inr pd" "authority_digest H (dp_initial_authority profile) = Inr authority_dg"
    "digest H (PStrs (dp_refresh_requirements profile)) = Inr refresh_dg"
    and init: "claims_init H (issued_claim_args b r i trust ceiling token t0 ?e ad rd pd authority_dg refresh_dg) = Inr claims"
    and c: "claims = issued_claims b r i trust ceiling token t0 ?e ad rd pd authority_dg refresh_dg"
    and cap: "canonical_bytes H (PDict (claims_to_dict claims)) = Inr message"
    "issued_capability_init claims (PStr (b64_encode (ed_sign E (bk_private_key b) message))) (PStr (bk_key_id b)) (PStr ''Ed25519'') = Inr envp"
    using issue_cases [OF assms(1)] by (metis option.inject clock.inject)
  have env: "verified_envelope H E (ed_public E (bk_private_key b)) (bk_key_id b) envp = Inr envp" "ic_claims envp = claims" "ic_key_id envp = bk_key_id b"
    using envelope_verifies [OF init cap _ assms(2)] by (simp_all add: c issued_claims_def)
  note chk = issue_checks_Inr [OF f(1)]
  have subj: "ar_agent_id r = cp_subject_id ceiling" "ar_executor_id r = cp_workload_identity ceiling"
    using permits_subject chk by blast+
  have "freeze_json (PDict (compiled_to_dict ceiling)) = PDict (cc_compiled_ceiling claims)"
    by (simp add: c issued_claims_def)
  then have ceil: "compiled_from_dict H (PDict (cc_compiled_ceiling claims)) = Inr ceiling"
    using compiled_source_frozen compiled_from_source obj chk by blast
  have ctx: "authority_context H claims x = Inr (trust, ceiling, profile)"
    using honest f(4) ceil by (simp add: authority_context_def honest_redemption_def c issued_claims_def catchE_def)
  have "context_checks H claims r x t trust ceiling = Inr ()"
    unfolding context_checks_Inr using honest chk tier time by (simp add: honest_redemption_def c issued_claims_def)
  moreover have "list_all (\<lambda>(name, a, b). a = b) (request_bindings claims r ad rd)"
    by (simp add: request_bindings_def c issued_claims_def)
  moreover have "list_all (\<lambda>(name, a, b). a = b) (context_bindings claims x trust ceiling
       (dict_of (dict_get (rx_attestation x) ''measurements'')) pd authority_dg refresh_dg (bk_key_id b))"
    using honest chk subj by (simp add: context_bindings_def c issued_claims_def honest_redemption_def)
  moreover have "cc_issued_at claims = t0" "cc_expires_at claims = ?e" by (simp_all add: c issued_claims_def)
  moreover have "\<not> ?e \<le> t" using time by simp
  ultimately show ?thesis
    using env f ctx time by (simp add: verified_claims_def bound_def del: min_le_iff_disj)
qed

lemma redeem_verified:
  assumes "redeem H E consume update v e c st = (Inr claims, st')"
  shows "\<exists>t. verified_claims H E (cv_public_key v) (cv_key_id v) (rc_capability c) (rc_request c) (rc_redemption c) t = Inr claims"
  using assms unfolding redeem_def verify_and_consume_def by (auto split: prod.split_asm sum.split_asm)

lemma verified_request:
  assumes "verified_claims H E pk kid envp r x t = Inr c"
  shows "request_digest H r = Inr (cc_request_digest c) \<and> cc_operation c = ar_operation r \<and> cc_resource_id c = ar_resource_id r
    \<and> cc_agent_id c = ar_agent_id r \<and> cc_tenant c = rx_tenant x \<and> cc_environment c = rx_environment x"
  using assms by (rule verified_claims_cases) (simp add: request_bindings_def context_bindings_def)

subsection \<open>One redemption per capability\<close>

locale redemption_store = consumption_store consume spent
  for consume :: "'e \<Rightarrow> consumption \<Rightarrow> 's \<Rightarrow> bool res \<times> 's" and spent :: "'s \<Rightarrow> string \<Rightarrow> (string \<times> int) option" +
  fixes H :: host and E :: ed25519
    and update :: "'f \<Rightarrow> string \<Rightarrow> (decay_authority \<times> bool) transition \<Rightarrow> 'd \<Rightarrow> (decay_state \<times> decay_authority \<times> bool) res \<times> 'd"
begin

lemma consume_once_effect:
  assumes "consume_once H (consume e) c now s = (r, s')"
  shows "(\<forall>i x. spent s i = Some x \<longrightarrow> spent s' i = Some x) \<and>
    (r = Inr () \<longrightarrow> spent s (cc_capability_id c) = None \<and> (\<exists>x. spent s' (cc_capability_id c) = Some x))"
proof -
  consider "\<exists>e. r = Inl e" "s' = s" | d t a where
    "consume e \<lparr>cn_capability_id = PStr (cc_capability_id c), cn_claims_digest = PStr d,
       cn_expires_at = PInt (cc_expires_at c), cn_consumed_at = PInt t\<rparr> s = (a, s')" "r = Inr () \<longrightarrow> a = Inr True"
    using assms unfolding consume_once_def by (auto simp: checkE_def split: sum.split_asm prod.split_asm if_split_asm)
  then show ?thesis
  proof cases
    case (2 d t a)
    then show ?thesis using accept persist by (fastforce simp: cn_id_def)
  qed auto
qed

lemma redeem_effect:
  assumes "redeem H E consume update v e c st = (r, st')"
  shows "(\<forall>i x. spent (fst st) i = Some x \<longrightarrow> spent (fst st') i = Some x) \<and>
    (redeems i c r \<longrightarrow> spent (fst st) i = None \<and> (\<exists>x. spent (fst st') i = Some x))"
proof -
  obtain t1 t2 t3 s d where ct: "rc_clocks c = (t1, t2, t3)" "st = (s, d)" by (metis surj_pair)
  let ?v = "verified_claims H E (cv_public_key v) (cv_key_id v) (rc_capability c) (rc_request c) (rc_redemption c) t1"
  show ?thesis
  proof (cases ?v)
    case (Inl err)
    then have "r = Inl err" "st' = st"
      using assms unfolding redeem_def verify_and_consume_def ct prod.case by simp_all
    then have "st' = st" "\<not> redeems i c r" by (simp_all add: redeems_def)
    then show ?thesis by simp
  next
    case (Inr claims)
    obtain u s' where u: "consume_once H (consume (fst e)) claims t2 s = (u, s')" by fastforce
    have "fst st' = s' \<and> (redeems i c r \<longrightarrow> u = Inr () \<and> cc_capability_id claims = i)"
      using assms Inr u by (auto simp: redeem_def verify_and_consume_def ct redeems_def split: sum.split_asm prod.split_asm)
    then show ?thesis using consume_once_effect [OF u] ct by auto
  qed
qed

end

sublocale redemption_store \<subseteq> redemptions: one_shot "redeem H E consume update v" redeems "\<lambda>st i. spent (fst st) i \<noteq> None" for v
  using redeem_effect by unfold_locales fastforce+

interpretation memory_redemption: redemption_store "\<lambda>_::unit. memory_consume" memory_spent H E update for H E update
  by unfold_locales

interpretation sqlite_redemption: redemption_store "replica_consume ns dm" "sqlite_spent ns dm" H E update for ns dm H E update
  by unfold_locales

subsection \<open>An example capability\<close>

definition demo_ed25519 :: ed25519 where
  "demo_ed25519 = \<lparr>ed_public = id, ed_sign = (\<lambda>k m. demo_digest), ed_verify = (\<lambda>k s m. s = demo_digest)\<rparr>"

definition demo_broker :: broker where
  "demo_broker = \<lparr>bk_private_key = ''key'', bk_key_id = ''ed25519:'' @ replicate 32 (CHR ''a''), bk_ttl_ms = 5000\<rparr>"

definition demo_issuance :: issuance where
  "demo_issuance = \<lparr>is_device_id = ''e1'', is_executor_measurement = demo_digest, is_policy_digest = demo_digest,
     is_max_output_bytes = PInt 4096, is_guardian_state_digest = demo_digest, is_audience = ''effect-executor'',
     is_decay_profile_version = ''v1''\<rparr>"

definition demo_redemption :: redemption where
  "demo_redemption = \<lparr>rx_executor_measurement = demo_digest, rx_device_id = ''e1'', rx_attestation = demo_attestation,
     rx_verifier_policy_digest = demo_digest, rx_policy_digest = demo_digest, rx_audience = ''effect-executor'',
     rx_tenant = ''default'', rx_environment = ''synthetic'', rx_str = (\<lambda>v. [])\<rparr>"

abbreviation demo_token :: string where
  "demo_token \<equiv> replicate 24 (CHR ''0'')"

lemma demo_ed_correct: "ed25519_correct demo_ed25519 k"
  by (simp add: ed25519_correct_def demo_ed25519_def)

lemma demo_broker_init:
  "broker_init demo_host demo_ed25519 (Private_key ''key'') None (Some 5000) = Inr demo_broker"
  by code_simp

lemma demo_honest: "honest_redemption demo_host demo_request demo_issuance demo_trust (demo_ceiling 4) demo_redemption"
proof -
  have "trust_state_from_attestation demo_host (PDict demo_attestation) (PStr (tier_name (ts_requested_trust demo_trust))) = Inr demo_trust"
    using demo_attestation_ok by (simp add: demo_trust_def)
  moreover have "dict_get demo_attestation ''measurements'' = PDict [(''executor'', PStr demo_digest)]"
    "dict_get demo_attestation ''deviceId'' = PStr ''e1''" "map_of demo_attestation ''deviceId'' = Some (PStr ''e1'')"
    "dict_get demo_attestation ''nonceContext'' = PDict (nonce_context ''e1'' ''s1'' ''p'')"
    by (simp_all add: demo_attestation_def demo_unsigned_attestation_def nonce_context_def dict_get_def)
  moreover have "ts_verifier_policy_digest demo_trust = demo_digest" "cp_tenant (demo_ceiling 4) = ''default''"
    "cp_environment (demo_ceiling 4) = ''synthetic''"
    by (simp_all add: demo_trust_def demo_ceiling_def)
  ultimately show ?thesis
    by (simp add: honest_redemption_def demo_redemption_def demo_issuance_def attested_str_def demo_request_def)
qed

lemma demo_issue_checks: "issue_checks demo_host demo_request demo_issuance demo_trust (demo_ceiling 4) 100000 = Inr ()"
proof -
  have "permits demo_host (demo_ceiling 4) demo_request = Inr True"
    by (simp add: permits_def demo_integrity) (simp add: demo_ceiling_def demo_request_def array_get_def)
  then show ?thesis
    by (simp add: issue_checks_def demo_integrity catchE_def) (simp add: demo_ceiling_def demo_trust_def demo_issuance_def)
qed

lemma demo_profile_values:
  obtains p where "decay_profile_for_ceiling (demo_ceiling 4) ''v1'' (Some 100000) (Some 105000) = Inr p"
    "profile_digest demo_host p = Inr demo_digest" "authority_digest demo_host (dp_initial_authority p) = Inr demo_digest"
    "digest demo_host (PStrs (dp_refresh_requirements p)) = Inr demo_digest"
proof -
  have "okE (bindE (decay_profile_for_ceiling (demo_ceiling 4) ''v1'' (Some 100000) (Some 105000)) (\<lambda>p.
      if list_all demo_value_ok (subvalues 0 (PDict (decay_profile_to_dict p)))
        \<and> list_all demo_value_ok (subvalues 0 (PDict (decay_authority_to_dict (dp_initial_authority p))))
        \<and> list_all demo_value_ok (subvalues 0 (PStrs (dp_refresh_requirements p))) then Inr () else Inl OutOfFuel))"
    by code_simp
  then show thesis
    using that digest_demo by (auto simp: okE_iff bindE_Inr_iff profile_digest_def authority_digest_def split: if_splits)
qed

lemma demo_validated_text:
  "s \<noteq> [] \<Longrightarrow> ascii s \<Longrightarrow> length s \<le> 256 \<Longrightarrow> validated_text demo_host (PStr s) 256 = Inr s"
  by (auto simp: validated_text_Inr_iff demo_value_ok_def intro!: demo_canonical dest: ascii_utf8 valid_utf8_no_surrogate)

lemma demo_ceiling_values: "list_all demo_value_ok (subvalues 0 (PDict (compiled_to_dict (demo_ceiling 4))))"
  by code_simp

lemma demo_claim_values:
  defines "g \<equiv> issued_claim_args demo_broker demo_request demo_issuance demo_trust (demo_ceiling 4) demo_token 100000 105000
    demo_digest demo_digest demo_digest demo_digest demo_digest"
  shows "list_all (\<lambda>n. \<exists>s. validated_text demo_host (g n) 256 = Inr s) claim_text_fields"
    and "list_all (\<lambda>n. is_str (g n) \<and> is_digest (str_of (g n))) claim_digest_fields"
    and "list_all (\<lambda>n. is_str (g n) \<and> str_of (g n) \<in> set trust_tiers) claim_trust_fields"
    and "g ''compiled_ceiling'' = PDict (compiled_to_dict (demo_ceiling 4))" "float_free (PDict (compiled_to_dict (demo_ceiling 4)))"
    and "is_str (g ''capability_id'')" "is_capability_id (str_of (g ''capability_id''))"
    and "is_str (g ''signer_key_id'')" "is_key_id (str_of (g ''signer_key_id''))"
    and "dict_get (compiled_to_dict (demo_ceiling 4)) ''compiled_digest'' = g ''compiled_ceiling_digest''"
    and "g ''issued_at'' = PInt 100000" "g ''expires_at'' = PInt 105000" "g ''max_output_bytes'' = PInt 4096" "g ''invocation_limit'' = PInt 1"
proof -
  have hex: "hex_n 24 demo_token" "hex_n 32 (replicate 32 (CHR ''a''))" by code_simp+
  note ex = demo_request_def demo_issuance_def demo_trust_def demo_ceiling_def demo_broker_def
  have "map g claim_text_fields = map PStr [''s1'', ''a1'', ''e1'', ''e1'', ''r1'', ''default'', ''synthetic'', ''effect-executor'',
      ''static-development'', ''k1'', ''short-lived-default'', ''v1'', ''read'', ''x'']"
    by (simp add: g_def issued_claim_lookup claim_text_fields_def, simp add: ex)
  moreover have "list_all (\<lambda>v. \<exists>s. validated_text demo_host v 256 = Inr s) (map PStr [''s1'', ''a1'', ''e1'', ''e1'', ''r1'', ''default'',
      ''synthetic'', ''effect-executor'', ''static-development'', ''k1'', ''short-lived-default'', ''v1'', ''read'', ''x''])"
    by (simp add: demo_validated_text ascii_def)
  ultimately have "list_all (\<lambda>v. \<exists>s. validated_text demo_host v 256 = Inr s) (map g claim_text_fields)" by (simp only:)
  then show "list_all (\<lambda>n. \<exists>s. validated_text demo_host (g n) 256 = Inr s) claim_text_fields"
    unfolding list.pred_map comp_def .
  show "list_all (\<lambda>n. is_str (g n) \<and> is_digest (str_of (g n))) claim_digest_fields"
    by (simp add: g_def issued_claim_lookup claim_digest_fields_def, simp add: ex)
  show "list_all (\<lambda>n. is_str (g n) \<and> str_of (g n) \<in> set trust_tiers) claim_trust_fields"
    by (simp add: g_def issued_claim_lookup claim_trust_fields_def, simp add: trust_tiers_def ex)
  show "is_str (g ''capability_id'')" "is_str (g ''signer_key_id'')" "is_capability_id (str_of (g ''capability_id''))"
    "is_key_id (str_of (g ''signer_key_id''))"
    "g ''issued_at'' = PInt 100000" "g ''expires_at'' = PInt 105000" "g ''max_output_bytes'' = PInt 4096" "g ''invocation_limit'' = PInt 1"
    "g ''compiled_ceiling'' = PDict (compiled_to_dict (demo_ceiling 4))"
    by (simp_all add: g_def issued_claim_lookup)
      (simp_all add: demo_issuance_def demo_broker_def is_capability_id_def is_key_id_def prefixed_hex_def hex)
  show "dict_get (compiled_to_dict (demo_ceiling 4)) ''compiled_digest'' = g ''compiled_ceiling_digest''"
    unfolding compiled_to_dict_def unsigned_dict_def by (simp add: g_def issued_claim_lookup)
  show "float_free (PDict (compiled_to_dict (demo_ceiling 4)))" using demo_value_ok_wf [OF demo_ceiling_values] by blast
qed

lemma demo_issue:
  obtains envp where "issue demo_host demo_ed25519 demo_broker demo_request demo_issuance (Some demo_trust) (Some (demo_ceiling 4))
    (Millis 100000) demo_token = Inr envp"
proof -
  obtain p where p: "decay_profile_for_ceiling (demo_ceiling 4) ''v1'' (Some 100000) (Some 105000) = Inr p"
    "profile_digest demo_host p = Inr demo_digest" "authority_digest demo_host (dp_initial_authority p) = Inr demo_digest"
    "digest demo_host (PStrs (dp_refresh_requirements p)) = Inr demo_digest"
    by (rule demo_profile_values)
  have d: "request_digest demo_host demo_request = Inr demo_digest"
    "digest demo_host (dict_get (canonical_payload demo_request) ''arguments'') = Inr demo_digest"
    unfolding request_digest_def by (rule digest_demo, code_simp)+
  let ?args = "issued_claim_args demo_broker demo_request demo_issuance demo_trust (demo_ceiling 4) demo_token 100000 105000
    demo_digest demo_digest demo_digest demo_digest demo_digest"
  let ?claims = "issued_claims demo_broker demo_request demo_issuance demo_trust (demo_ceiling 4) demo_token 100000 105000
    demo_digest demo_digest demo_digest demo_digest demo_digest"
  have canon: "okE (canonical_bytes demo_host (PDict (compiled_to_dict (demo_ceiling 4))))"
    "okE (canonical_bytes demo_host (PDict (claims_to_dict ?claims)))"
    by (rule demo_canonical [OF demo_ceiling_values], rule demo_canonical, code_simp)
  have "claims_checks demo_host ?args = Inr ()"
    unfolding claims_checks_iff using demo_claim_values canon(1) by (simp add: list_all_iff)
  then have init: "claims_init demo_host ?args = Inr ?claims"
    by (simp add: claims_init_def claims_build_issued)
  have "min (100000 + bk_ttl_ms demo_broker) (cp_expires_at_ms (demo_ceiling 4)) = 105000"
    by (simp add: demo_broker_def demo_ceiling_def)
  moreover have "is_decay_profile_version demo_issuance = ''v1''" by (simp add: demo_issuance_def)
  moreover have "okE (issued_capability_init ?claims (PStr (b64_encode demo_digest)) (PStr (bk_key_id demo_broker)) (PStr ''Ed25519''))"
    by code_simp
  ultimately show thesis
    using that demo_issue_checks p d init canon(2) 
    by (auto simp: issue_def okE_iff catchE_def Let_def demo_ed25519_def)
qed

section \<open>Properties\<close>

text \<open>
  C9: one redemption per capability. Over any sequence of redemptions by any number of verifier replicas that share the
  SQLite consumption table, in any order, with any decay state store, faults, clocks, requests and evidence, a capability
  ID is redeemed successfully at most once.
\<close>

theorem redeemed_at_most_once:
  "wins redeems i cs (fst (run_calls (redeem H E (replica_consume ns domain) update v) cs st)) \<le> 1"
  by (rule sqlite_redemption.redemptions.at_most_once)

text \<open>
  C10: what a redemption has checked. When \<open>_verified_claims\<close> returns, the signature of the expected key covers the canonical
  claims, the clock is inside the validity window and before the expiry of the current attestation, the claims name this
  very request by every field and by its digest, the evidence presented now is fresh for this executor and session and
  its trust is at least the signed constraint, and the compiled ceiling inside the claims permits the request.
\<close>

theorem verified_claims_sound:
  assumes "verified_claims H E pk kid envp r x now = Inr c"
  shows "\<exists>t sig message trust ceiling. now = Millis t
    \<and> canonical_bytes H (PDict (claims_to_dict c)) = Inr message \<and> length sig = 64 \<and> ed_verify E pk sig message
    \<and> cc_signer_key_id c = kid \<and> cc_issued_at c - 5000 \<le> t \<and> t < cc_expires_at c
    \<and> cc_agent_id c = ar_agent_id r \<and> cc_session_id c = ar_session_id r \<and> cc_executor_id c = ar_executor_id r
    \<and> cc_operation c = ar_operation r \<and> cc_resource_id c = ar_resource_id r \<and> request_digest H r = Inr (cc_request_digest c)
    \<and> trust_state_from_attestation H (PDict (rx_attestation x)) (PStr (cc_requested_trust c)) = Inr trust
    \<and> equals_dict (dict_get (rx_attestation x) ''nonceContext'') (nonce_context (ar_executor_id r) (ar_session_id r) (ar_purpose r))
    \<and> t < ts_expires_at_ms trust \<and> tier_val (PStr (cc_signed_trust_constraint c)) \<le> ts_effective_trust trust
    \<and> ts_attestation_digest trust = cc_attestation_digest c
    \<and> compiled_from_dict H (PDict (cc_compiled_ceiling c)) = Inr ceiling \<and> cp_compiled_digest ceiling = cc_compiled_ceiling_digest c
    \<and> permits H ceiling r = Inr True
    \<and> cc_tenant c = rx_tenant x \<and> cc_environment c = rx_environment x \<and> cc_audience c = rx_audience x \<and> cc_policy_digest c = rx_policy_digest x"
proof -
  obtain parsed t rd ad trust ceiling profile pd authority_dg refresh_dg where
    v: "verified_envelope H E pk kid envp = Inr parsed" "c = ic_claims parsed" "now = Millis t"
    "cc_issued_at c - 5000 \<le> t" "t < cc_expires_at c" "request_digest H r = Inr rd"
    "list_all (\<lambda>(name, a, b). a = b) (request_bindings c r ad rd)"
    "trust_state_from_attestation H (PDict (rx_attestation x)) (PStr (cc_requested_trust c)) = Inr trust"
    "compiled_from_dict H (PDict (cc_compiled_ceiling c)) = Inr ceiling"
    "context_checks H c r x t trust ceiling = Inr ()"
    and ctx: "list_all (\<lambda>(name, a, b). a = b) (context_bindings c x trust ceiling
       (dict_of (dict_get (rx_attestation x) ''measurements'')) pd authority_dg refresh_dg (ic_key_id parsed))"
    using assms by (rule verified_claims_cases)
  obtain sig message where "strict_signature (ic_signature parsed) = Inr sig" and sm: "canonical_bytes H (PDict (claims_to_dict c)) = Inr message"
    "ed_verify E pk sig message" "cc_signer_key_id c = kid"
    using verified_envelope_Inr [OF v(1)] v(2) by auto
  then have "length sig = 64" by (auto simp: strict_signature_def Let_def split: if_splits)
  moreover have "ts_attestation_digest trust = cc_attestation_digest c" "cp_compiled_digest ceiling = cc_compiled_ceiling_digest c"
    "cc_tenant c = rx_tenant x" "cc_environment c = rx_environment x" "cc_audience c = rx_audience x" "cc_policy_digest c = rx_policy_digest x"
    using ctx by (simp_all add: context_bindings_def)
  moreover have "cc_agent_id c = ar_agent_id r" "cc_session_id c = ar_session_id r" "cc_executor_id c = ar_executor_id r"
    "cc_operation c = ar_operation r" "cc_resource_id c = ar_resource_id r" "cc_request_digest c = rd"
    using v(7) by (simp_all add: request_bindings_def)
  ultimately show ?thesis
    using v sm context_checks_Inr by (intro exI [of _ t] exI [of _ sig] exI [of _ message] exI [of _ trust] exI [of _ ceiling]) simp
qed



theorem verified_claims_sound_witness:
  "\<exists>envp c. verified_claims demo_host demo_ed25519 ''key'' (bk_key_id demo_broker) envp demo_request demo_redemption (Millis 101000) = Inr c
    \<and> cc_operation c = ''read'' \<and> cc_expires_at c > 101000"
proof -
  obtain envp where e: "issue demo_host demo_ed25519 demo_broker demo_request demo_issuance (Some demo_trust) (Some (demo_ceiling 4))
      (Millis 100000) demo_token = Inr envp" by (rule demo_issue)
  have v: "verified_claims demo_host demo_ed25519 (ed_public demo_ed25519 (bk_private_key demo_broker)) (bk_key_id demo_broker) envp
      demo_request demo_redemption (Millis 101000) = Inr (ic_claims envp)"
    by (rule honest_claims_verify [OF e demo_ed_correct _ demo_honest])
      (simp_all add: demo_ceiling_args, simp_all add: demo_ceiling_def demo_trust_def demo_broker_def less_eq_trust_tier_def)
  have "ar_operation demo_request = ''read''" "ed_public demo_ed25519 (bk_private_key demo_broker) = ''key''"
    by (simp_all add: demo_request_def demo_ed25519_def demo_broker_def)
  then show ?thesis using verified_claims_sound [OF v] v by (intro exI [of _ envp] exI [of _ "ic_claims envp"]) auto
qed

text \<open>
  What issuance grants. A capability that \<open>issue\<close> signs is for one invocation of exactly the request it was given, which
  the compiled ceiling permits; it lives at most the TTL of the broker and not beyond the ceiling, and starts while the
  provider trust is valid.
\<close>

theorem issued_capability_bounds:
  assumes "issue H E b r i (Some trust) (Some ceiling) (Millis t0) token = Inr envp"
  shows "cc_invocation_limit (ic_claims envp) = 1 \<and> permits H ceiling r = Inr True
    \<and> request_digest H r = Inr (cc_request_digest (ic_claims envp))
    \<and> cc_issued_at (ic_claims envp) = t0 \<and> t0 < cc_expires_at (ic_claims envp)
    \<and> cc_expires_at (ic_claims envp) \<le> t0 + bk_ttl_ms b \<and> cc_expires_at (ic_claims envp) \<le> cp_expires_at_ms ceiling
    \<and> t0 < ts_expires_at_ms trust \<and> ic_key_id envp = bk_key_id b"
proof -
  let ?e = "min (t0 + bk_ttl_ms b) (cp_expires_at_ms ceiling)"
  obtain rd ad pd authority_dg refresh_dg claims message where
    f: "issue_checks H r i trust ceiling t0 = Inr ()" "request_digest H r = Inr rd"
    and init: "claims_init H (issued_claim_args b r i trust ceiling token t0 ?e ad rd pd authority_dg refresh_dg) = Inr claims"
    and c: "claims = issued_claims b r i trust ceiling token t0 ?e ad rd pd authority_dg refresh_dg"
    and env: "issued_capability_init claims (PStr (b64_encode (ed_sign E (bk_private_key b) message))) (PStr (bk_key_id b)) (PStr ''Ed25519'') = Inr envp"
    using issue_cases [OF assms] by (metis option.inject clock.inject)
  have "0 < cc_expires_at claims - cc_issued_at claims"
    using init by (auto simp: claims_init_def bindE_Inr_iff claims_checks_iff claims_build_def)
  then have "0 < ?e - t0" by (simp add: c issued_claims_def)
  then show ?thesis
    using f(2) issue_checks_Inr [OF f(1)] env by (auto simp: issued_capability_init_iff c issued_claims_def)
qed

theorem issued_capability_bounds_witness:
  "\<exists>envp. issue demo_host demo_ed25519 demo_broker demo_request demo_issuance (Some demo_trust) (Some (demo_ceiling 4)) (Millis 100000) demo_token = Inr envp
    \<and> cc_expires_at (ic_claims envp) \<le> 105000"
proof -
  obtain envp where e: "issue demo_host demo_ed25519 demo_broker demo_request demo_issuance (Some demo_trust) (Some (demo_ceiling 4))
      (Millis 100000) demo_token = Inr envp" by (rule demo_issue)
  then show ?thesis using issued_capability_bounds [OF e] by (auto simp: demo_broker_def)
qed

end
