(* ===== verification/JsonValues.thy ===== *)
theory JsonValues
  imports Canonical
begin

text \<open>
  What \<open>json.loads\<close> returns on any text, and how the fields of an object relate to those of its canonical form. The evidence
  log, whose events carry floats, rests on these facts.
\<close>

section \<open>Values read by the scanner\<close>

text \<open>Hooks under which every value that is read can be printed and read again.\<close>

definition reading_hooks :: "hooks \<Rightarrow> bool" where
  "reading_hooks K \<longleftrightarrow> (\<forall>t v. hk_float K t = Inr v \<longrightarrow> as_loaded K v) \<and> (\<forall>t v. hk_constant K t = Inr v \<longrightarrow> as_loaded K v)
     \<and> (\<forall>ps m. hk_object K ps = Inr m \<longrightarrow> list_all (as_loaded K) (map snd ps) \<longrightarrow> as_loaded K (PDict m))"

lemma scan_number_loaded: "reading_hooks K \<Longrightarrow> scan_number K cs = Inr (v, r) \<Longrightarrow> as_loaded K v"
  by (auto simp: scan_number_def Let_def bindE_Inr_iff reading_hooks_def split: if_splits)

lemma scan_loaded:
  assumes K: "reading_hooks K"
  shows "scan_value K n cs = Inr (v, r) \<Longrightarrow> as_loaded K v"
    and "scan_items K n cs = Inr (vs, r) \<Longrightarrow> list_all (as_loaded K) vs"
    and "scan_pairs K n cs = Inr (ps, r) \<Longrightarrow> list_all (as_loaded K) (map snd ps)"
proof (induction n arbitrary: cs v vs ps r)
  case 0
  { case 1 then show ?case by simp next
    case 2 then show ?case by simp next
    case 3 then show ?case by simp }
next
  case (Suc n)
  have obj: "as_loaded K (PDict m)" if "scan_pairs K n ds = Inr (ps, r)" "hk_object K ps = Inr m" for ds ps r m
    using K that Suc.IH(3) [OF that(1)] by (simp add: reading_hooks_def del: as_loaded.simps)
  have const: "hk_constant K t = Inr v \<Longrightarrow> as_loaded K v" for t v using K by (simp add: reading_hooks_def)
  { case 1
    then obtain c cs' where cs: "cs = c # cs'" by (cases cs) auto
    consider "c = CHR ''{''" | "c = CHR ''[''" | "c \<noteq> CHR ''{''" "c \<noteq> CHR ''[''" by blast
    then show ?case
    proof cases
      case 1
      with \<open>scan_value K (Suc n) cs = Inr (v, r)\<close> cs show ?thesis
        by (auto simp: bindE_Inr_iff simp del: as_loaded.simps(4) dest: obj split: list.splits if_splits)
          simp
    next
      case 2
      with \<open>scan_value K (Suc n) cs = Inr (v, r)\<close> cs show ?thesis
        by (auto simp: bindE_Inr_iff dest: Suc.IH(2) split: list.splits if_splits)
    next
      case 3
      with \<open>scan_value K (Suc n) cs = Inr (v, r)\<close> cs show ?thesis
        by (auto simp: bindE_Inr_iff dest: scan_number_loaded [OF K] const split: if_splits)
    qed
  next
    case 2
    obtain v r1 where v: "scan_value K n cs = Inr (v, r1)" using 2 by (auto simp: bindE_Inr_iff)
    then have "as_loaded K v" by (rule Suc.IH(1))
    with 2 v show ?case
      by (auto simp: bindE_Inr_iff dest: Suc.IH(2) split: list.splits if_splits)
  next
    case 3
    obtain k r1 v r2 where k: "scan_key cs = Inr (k, r1)" and v: "scan_value K n r1 = Inr (v, r2)"
      using 3 by (auto simp: bindE_Inr_iff)
    then have "as_loaded K v" using Suc.IH(1) by blast
    with 3 k v show ?case
      by (auto simp: bindE_Inr_iff dest: Suc.IH(3) split: list.splits if_splits)
  }
qed

lemma loads_with_loaded: "reading_hooks K \<Longrightarrow> loads_with K cs = Inr v \<Longrightarrow> as_loaded K v"
  by (auto simp: loads_with_def bindE_Inr_iff simp del: scan_value.simps dest: scan_loaded split: if_splits)

text \<open>\<open>float()\<close> reads the \<open>repr\<close> of a float as that float.\<close>

definition float_reading :: "(string \<Rightarrow> pyfloat) \<Rightarrow> bool" where
  "float_reading parse \<longleftrightarrow> (\<forall>t r. parse t = FFinite r \<longrightarrow> float_text (plain_hooks parse) r)"

lemma fold_update_loaded:
  "list_all (as_loaded K) (map snd ps) \<Longrightarrow> as_loaded K (PDict acc) \<Longrightarrow> as_loaded K (PDict (fold (\<lambda>(k, x) m. AList.update k x m) ps acc))"
proof (induction ps arbitrary: acc)
  case (Cons p ps)
  have "set (map snd (AList.update (fst p) (snd p) acc)) \<subseteq> insert (snd p) (set (map snd acc))"
    by (induction acc) auto
  then have "as_loaded K (PDict (AList.update (fst p) (snd p) acc))"
    using Cons.prems by (fastforce simp: list_all_iff distinct_update)
  with Cons show ?case by (simp add: case_prod_unfold)
qed simp

lemma reading_hooks_plain:
  assumes "float_reading parse"
  shows "reading_hooks (plain_hooks parse)"
  unfolding reading_hooks_def
proof (intro conjI allI impI)
  fix t v
  assume "hk_float (plain_hooks parse) t = Inr v"
  then have "v = PFloat (parse t)" by (simp add: plain_hooks_def)
  then show "as_loaded (plain_hooks parse) v"
    using assms by (cases "parse t") (auto simp: float_reading_def)
next
  fix t v
  assume "hk_constant (plain_hooks parse) t = Inr v"
  then show "as_loaded (plain_hooks parse) v" by (auto simp: plain_hooks_def split: if_splits)
next
  fix ps m
  assume "hk_object (plain_hooks parse) ps = Inr m" and ps: "list_all (as_loaded (plain_hooks parse)) (map snd ps)"
  then have "m = fold (\<lambda>(k, x) m. AList.update k x m) ps []" by (simp add: plain_hooks_def)
  then show "as_loaded (plain_hooks parse) (PDict m)" using fold_update_loaded [OF ps, of "[]"] by simp
qed

section \<open>Fields of canonical objects\<close>

lemma canonical_bytes_inj_loaded:
  assumes "canonical_bytes H v = Inr b" and "canonical_bytes H w = Inr b" and "as_loaded K v" and "as_loaded K w" and "keeps_objects K"
  shows "canonical_value H 0 v = canonical_value H 0 w"
proof -
  have "\<exists>c. canonical_value H 0 x = Inr c \<and> loads_with K b = Inr c" if x: "canonical_bytes H x = Inr b" "as_loaded K x" for x
  proof -
    obtain c where c: "canonical_value H 0 x = Inr c" using x(1) by (rule canonical_bytes_cases)
    then show ?thesis
      using loads_with_canonical_bytes [OF x(1) c assms(5) canonical_value_readable [OF c x(2)], of "[]"] by simp
  qed
  from this [OF assms(1,3)] this [OF assms(2,4)] show ?thesis by auto
qed

lemma canonical_field_get:
  assumes "canonical_value H d (PDict m) = Inr (PDict cs)" and "distinct (map fst m)" and "map_of m k = Some v"
  obtains v' where "canonical_value H (d + 1) v = Inr v'" and "map_of cs k = Some v'"
proof -
  have all: "list_all2 (canonical_field H (d + 1)) (sort_key fst m) cs" using assms(1) by (simp add: canonical_dict_iff)
  have "(k, v) \<in> set (sort_key fst m)" using map_of_SomeD [OF assms(3)] by simp
  then obtain q where q: "q \<in> set cs" "canonical_field H (d + 1) (k, v) q" using list_all2_ex1 [OF all] by blast
  have "distinct (map fst cs)"
    using canonical_field_fst [OF all] assms(2) by (simp add: distinct_map distinct_sort inj_on_def)
  then have "map_of cs k = Some (snd q)" using q by (cases q) (auto simp: canonical_field_def)
  then show thesis using that q(2) by (simp add: canonical_field_def)
qed

lemma canonical_keys:
  "canonical_value H d (PDict m) = Inr (PDict cs) \<Longrightarrow> set (map fst cs) = set (map fst m) \<and> distinct (map fst cs) = distinct (map fst m)"
proof -
  assume "canonical_value H d (PDict m) = Inr (PDict cs)"
  then have all: "list_all2 (canonical_field H (d + 1)) (sort_key fst m) cs" by (simp add: canonical_dict_iff)
  have "mset (map fst (sort_key fst m)) = mset (map fst m)" by simp
  then show ?thesis using canonical_field_fst [OF all] by (metis mset_eq_setD mset_eq_imp_distinct_iff)
qed

lemma list_all2_filter:
  "list_all2 (canonical_field H d) xs ys \<Longrightarrow> list_all2 (canonical_field H d) (filter (\<lambda>p. P (fst p)) xs) (filter (\<lambda>p. P (fst p)) ys)"
  by (induction rule: list_all2_induct) (auto simp: canonical_field_def)

lemma canonical_filter:
  assumes "canonical_value H d (PDict m) = Inr (PDict cs)"
  shows "canonical_value H d (PDict (filter (\<lambda>p. P (fst p)) m)) = Inr (PDict (filter (\<lambda>p. P (fst p)) cs))"
proof -
  have all: "list_all2 (canonical_field H (d + 1)) (sort_key fst m) cs" and d: "d \<le> MAX_CANONICAL_DEPTH"
    and "length m \<le> MAX_CANONICAL_ITEMS"
    using assms by (auto simp: canonical_dict_iff)
  then have len: "length (filter (\<lambda>p. P (fst p)) m) \<le> MAX_CANONICAL_ITEMS"
    by (meson length_filter_le le_trans)
  have "sort_key fst (filter (\<lambda>p. P (fst p)) m) = filter (\<lambda>p. P (fst p)) (sort_key fst m)" by (simp add: filter_sort)
  with list_all2_filter [OF all, of P] d len show ?thesis by (simp add: canonical_dict_iff)
qed

lemma digest_canonical:
  assumes "canonical_value H 0 v = Inr c"
  shows "digest H c = digest H v"
  using assms canonical_value_idem [OF assms] by (simp add: digest_def canonical_bytes_def)

end
