(* ===== verification/Recorder.thy ===== *)
theory Recorder
  imports Broker JsonValues
begin

text \<open>
  \<open>recorder.py\<close>: the append-only, hash-chained evidence log. The file is its bytes (\<open>None\<close> before it exists); a line of
  it is read in text mode, with universal newlines, and parsed by \<open>json.loads\<close> without hooks, where \<open>parse\<close> is
  \<open>float()\<close> on the text of a float literal. A file that is not UTF-8 is taken to be refused before its first line. A write
  may fail at any point, with a part of the line in the file. The Prometheus and OpenTelemetry hooks, which only report, are left out.
\<close>

section \<open>Definitions\<close>

record recorder =
  er_file :: "string option"
  er_max_event_bytes :: nat
  er_private_key :: string
  er_key_id :: string
  er_tip :: string
  er_count :: int
  er_sources :: "string \<Rightarrow> int option"

record chain =
  ch_tip :: string
  ch_count :: int
  ch_sources :: "string \<Rightarrow> int option"

definition genesis :: chain where
  "genesis = \<lparr>ch_tip = replicate 64 (CHR ''0''), ch_count = 0, ch_sources = Map.empty\<rparr>"

definition source_count :: "(string \<Rightarrow> int option) \<Rightarrow> string \<Rightarrow> int" where
  "source_count m k = (case m k of None \<Rightarrow> 0 | Some i \<Rightarrow> i)"

subsection \<open>Reading the file\<close>

text \<open>The lines of a file opened in text mode: LF, CR and CRLF all end a line and are read as LF.\<close>

fun text_lines :: "string \<Rightarrow> string \<Rightarrow> string list" where
  "text_lines cur [] = (if cur = [] then [] else [rev cur])"
| "text_lines cur [c] =
     (if c = CHR 0x0A \<or> c = CHR 0x0D then [rev (CHR 0x0A # cur)] else [rev (c # cur)])"
| "text_lines cur (c # d # cs) =
     (if c = CHR 0x0A then rev (CHR 0x0A # cur) # text_lines [] (d # cs)
      else if c = CHR 0x0D \<and> d = CHR 0x0A then rev (CHR 0x0A # cur) # text_lines [] cs
      else if c = CHR 0x0D then rev (CHR 0x0A # cur) # text_lines [] (d # cs)
      else text_lines (c # cur) (d # cs))"

text \<open>\<open>not line.strip()\<close>, on the code points Python counts as white space.\<close>

definition space_points :: "string list" where
  "space_points = map utf8_of ([9, 10, 11, 12, 13, 28, 29, 30, 31, 32, 0x85, 0xA0, 0x1680, 0x2000, 0x2001, 0x2002, 0x2003, 0x2004,
     0x2005, 0x2006, 0x2007, 0x2008, 0x2009, 0x200A, 0x2028, 0x2029, 0x202F, 0x205F, 0x3000])"

definition is_blank :: "string \<Rightarrow> bool" where
  "is_blank line = list_all (\<lambda>p. List.member space_points p) (code_points line [])"

text \<open>
  \<open>v == n\<close> and \<open>isinstance(v, int)\<close>: booleans are integers, and a float equals an integer below
  \<open>10 ^ 16\<close> when its \<open>repr\<close> is that of the integer with \<open>.0\<close>.
\<close>

definition int_equals :: "pyval \<Rightarrow> int \<Rightarrow> bool" where
  "int_equals v n = (case v of
     PInt i \<Rightarrow> i = n
   | PBool b \<Rightarrow> n = (if b then 1 else 0)
   | PFloat f \<Rightarrow> f = FFinite (int_repr n @ ''.0'') \<or> (f = FNegZero \<and> n = 0)
   | _ \<Rightarrow> False)"

definition int_instance :: "pyval \<Rightarrow> int option" where
  "int_instance v = (case v of PInt i \<Rightarrow> Some i | PBool b \<Rightarrow> Some (if b then 1 else 0) | _ \<Rightarrow> None)"

definition event_fields :: "string list" where
  "event_fields = [''sequence'', ''timestamp'', ''event_type'', ''payload'', ''source_id'', ''source_sequence'',
     ''previous_hash'', ''event_hash'']"

definition unhashed :: "dict \<Rightarrow> dict" where
  "unhashed event = filter (\<lambda>p. fst p \<noteq> ''event_hash'') event"

text \<open>One event of the file: the reason it breaks the chain (if it does) and the chain after it.\<close>

definition scan_event :: "host \<Rightarrow> dict \<Rightarrow> chain \<Rightarrow> (string option \<times> chain) res" where
  "scan_event H event ch =
     (let fail = (\<lambda>reason. Inr (Some reason, ch)) in
      if \<not> set_eq_list (map fst event) event_fields then fail ''invalid event fields''
      else if \<not> int_equals (dict_get event ''sequence'') (ch_count ch + 1) then fail ''sequence gap''
      else case (dict_get event ''source_id'', int_instance (dict_get event ''source_sequence'')) of
        (PStr src, Some n) \<Rightarrow>
          if src = [] then fail ''invalid source sequence''
          else if n \<noteq> source_count (ch_sources ch) src + 1 then fail ''source loss or reordering''
          else if dict_get (unhashed event) ''previous_hash'' \<noteq> PStr (ch_tip ch) then fail ''chain linkage failure''
          else bindE (digest H (PDict (unhashed event))) (\<lambda>d.
            if dict_get event ''event_hash'' \<noteq> PStr d then fail ''event digest failure''
            else Inr (None, \<lparr>ch_tip = d, ch_count = ch_count ch + 1, ch_sources = (ch_sources ch)(src \<mapsto> n)\<rparr>))
      | _ \<Rightarrow> fail ''invalid source sequence'')"

definition scan_line :: "host \<Rightarrow> (string \<Rightarrow> pyfloat) \<Rightarrow> nat \<Rightarrow> string \<Rightarrow> chain \<Rightarrow> (string option \<times> chain) res" where
  "scan_line H parse max_event_bytes line ch =
     (if length line \<noteq> max_event_bytes then Inr (Some ''event digest or envelope size failure'', ch)
      else if is_blank line then Inr (Some ''blank record'', ch)
      else case loads_with (plain_hooks parse) line of
        Inl e \<Rightarrow> if e = JSONDecodeError then Inr (Some ''invalid JSON'', ch) else Inl e
      | Inr (PDict event) \<Rightarrow> scan_event H event ch
      | Inr _ \<Rightarrow> Inr (Some ''invalid event fields'', ch))"

fun scan_lines :: "host \<Rightarrow> (string \<Rightarrow> pyfloat) \<Rightarrow> nat \<Rightarrow> string list \<Rightarrow> chain \<Rightarrow> (string option \<times> chain) res" where
  "scan_lines H parse max_event_bytes [] ch = Inr (None, ch)"
| "scan_lines H parse max_event_bytes (line # ls) ch = bindE (scan_line H parse max_event_bytes line ch) (\<lambda>(reason, ch').
     case reason of Some _ \<Rightarrow> Inr (reason, ch') | None \<Rightarrow> scan_lines H parse max_event_bytes ls ch')"

definition scan_file :: "host \<Rightarrow> (string \<Rightarrow> pyfloat) \<Rightarrow> nat \<Rightarrow> string option \<Rightarrow> (string option \<times> chain) res" where
  "scan_file H parse max_event_bytes f = (case f of
     None \<Rightarrow> Inr (None, genesis)
   | Some text \<Rightarrow>
       if \<not> valid_utf8 0 text then Inl UnicodeDecodeError
       else scan_lines H parse max_event_bytes (text_lines [] text) genesis)"

subsection \<open>The recorder\<close>

definition recorder_recover :: "host \<Rightarrow> (string \<Rightarrow> pyfloat) \<Rightarrow> recorder \<Rightarrow> recorder res" where
  "recorder_recover H parse er = bindE (scan_file H parse (er_max_event_bytes er) (er_file er)) (\<lambda>(reason, ch).
     if reason \<noteq> None then Inl (RecorderIntegrityError ''recorder recovery failed'')
     else Inr (er\<lparr>er_tip := ch_tip ch, er_count := ch_count ch, er_sources := ch_sources ch\<rparr>))"

definition recorder_init ::
  "host \<Rightarrow> ed25519 \<Rightarrow> (string \<Rightarrow> pyfloat) \<Rightarrow> string option \<Rightarrow> signing_key \<Rightarrow> int \<Rightarrow> recorder res" where
  "recorder_init H E parse f signing max_event_bytes =
     bindE (checkE (\<not> (512 \<le> max_event_bytes \<and> max_event_bytes \<le> 65536)) (ValueError ''invalid recorder event limit'')) (\<lambda>_.
     bindE (case signing of
              Private_key k \<Rightarrow> Inr k
            | Seed s \<Rightarrow> if length s < 32 then Inl (ValueError ''recorder signing seed must be at least 32 bytes'') else Inr (take 32 s)
            | Generated k \<Rightarrow> Inr k
            | Unsupported_key \<Rightarrow> Inl (TypeError ''unsupported recorder signing key'')) (\<lambda>k.
     recorder_recover H parse \<lparr>er_file = f, er_max_event_bytes = nat max_event_bytes, er_private_key = k,
       er_key_id = ''ed25519:'' @ take 32 (sha256_hex H (ed_public E k)), er_tip = replicate 64 (CHR ''0''), er_count = 0,
       er_sources = Map.empty\<rparr>))"

text \<open>What the operating system does with the line: all of it, nothing, or a prefix and an error.\<close>

datatype write_outcome = Written | Not_opened | Torn nat

record append_call =
  ac_event_type :: string
  ac_payload :: dict
  ac_source_id :: string
  ac_source_sequence :: "int option"
  ac_timestamp :: pyfloat
  ac_issued_at :: pyfloat
  ac_write :: write_outcome

definition event_record :: "append_call \<Rightarrow> recorder \<Rightarrow> int \<Rightarrow> dict" where
  "event_record c er n =
     [(''sequence'', PInt (er_count er + 1)), (''timestamp'', PFloat (ac_timestamp c)), (''event_type'', PStr (ac_event_type c)),
      (''payload'', PDict (ac_payload c)), (''source_id'', PStr (ac_source_id c)), (''source_sequence'', PInt n),
      (''previous_hash'', PStr (er_tip er))]"

definition receipt_payload :: "append_call \<Rightarrow> recorder \<Rightarrow> int \<Rightarrow> string \<Rightarrow> dict" where
  "receipt_payload c er n event_hash =
     [(''sequence'', PInt (er_count er + 1)), (''event_hash'', PStr event_hash), (''source_id'', PStr (ac_source_id c)),
      (''source_sequence'', PInt n), (''issued_at'', PFloat (ac_issued_at c)), (''key_id'', PStr (er_key_id er))]"

definition encoded_line :: "nat \<Rightarrow> string \<Rightarrow> string" where
  "encoded_line max_event_bytes b = b @ replicate (max_event_bytes - length b - 1) (CHR '' '') @ [CHR 0x0A]"

definition file_text :: "recorder \<Rightarrow> string" where
  "file_text er = (case er_file er of None \<Rightarrow> [] | Some f \<Rightarrow> f)"

text \<open>The checks of \<open>append\<close> up to the write: the sequence number of the source, the hash and the bytes of the event.\<close>

definition append_prepare :: "host \<Rightarrow> (string \<Rightarrow> pyfloat) \<Rightarrow> append_call \<Rightarrow> recorder \<Rightarrow> (int \<times> string \<times> string) res" where
  "append_prepare H parse c er =
     bindE (scan_file H parse (er_max_event_bytes er) (er_file er)) (\<lambda>(reason, ch).
     bindE (checkE (reason \<noteq> None \<or> ch_tip ch \<noteq> er_tip er \<or> ch_count ch \<noteq> er_count er)
              (RecorderIntegrityError ''recorder changed outside authority'')) (\<lambda>_.
     bindE (checkE (ac_event_type c = [] \<or> length (code_points (ac_event_type c) []) > 128) (ValueError ''invalid recorder event type'')) (\<lambda>_.
     bindE (checkE (ac_source_id c = []) (ValueError ''invalid recorder event envelope'')) (\<lambda>_.
     let expected = source_count (ch_sources ch) (ac_source_id c) + 1;
         n = (case ac_source_sequence c of None \<Rightarrow> expected | Some k \<Rightarrow> k) in
     bindE (checkE (n \<noteq> expected) (RecorderIntegrityError ''source event loss or reordering detected'')) (\<lambda>_.
     bindE (digest H (PDict (event_record c er n))) (\<lambda>d.
     bindE (canonical_bytes H (PDict (event_record c er n @ [(''event_hash'', PStr d)]))) (\<lambda>b.
     bindE (checkE (length b + 1 > er_max_event_bytes er) (ValueError ''recorder event exceeds fixed envelope'')) (\<lambda>_.
     Inr (n, d, b)))))))))"

definition recorder_append :: "host \<Rightarrow> ed25519 \<Rightarrow> (string \<Rightarrow> pyfloat) \<Rightarrow> append_call \<Rightarrow> recorder \<Rightarrow> dict res \<times> recorder" where
  "recorder_append H E parse c er = (case append_prepare H parse c er of
     Inl e \<Rightarrow> (Inl e, er)
   | Inr (n, d, b) \<Rightarrow>
       let encoded = encoded_line (er_max_event_bytes er) b in
       (case ac_write c of
          Not_opened \<Rightarrow> (Inl (ExternalError ''OSError''), er)
        | Torn k \<Rightarrow> (Inl (ExternalError ''OSError''), er\<lparr>er_file := Some (file_text er @ take k encoded)\<rparr>)
        | Written \<Rightarrow>
            (bindE (canonical_bytes H (PDict (receipt_payload c er n d))) (\<lambda>message.
               Inr (event_record c er n @ [(''event_hash'', PStr d),
                 (''receipt'', PDict [(''payload'', PDict (receipt_payload c er n d)),
                    (''signature'', PStr (b64_encode (ed_sign E (er_private_key er) message))), (''algorithm'', PStr ''Ed25519'')])])),
             er\<lparr>er_file := Some (file_text er @ encoded), er_tip := d, er_count := er_count er + 1,
                er_sources := (er_sources er)(ac_source_id c \<mapsto> n)\<rparr>)))"

text \<open>\<open>verify\<close> and \<open>events\<close>.\<close>

definition recorder_verify :: "host \<Rightarrow> (string \<Rightarrow> pyfloat) \<Rightarrow> recorder \<Rightarrow> (bool \<times> string) res" where
  "recorder_verify H parse er = bindE (scan_file H parse (er_max_event_bytes er) (er_file er)) (\<lambda>(reason, ch).
     Inr (case reason of None \<Rightarrow> (True, ch_tip ch) | Some r \<Rightarrow> (False, r)))"

definition file_events :: "(string \<Rightarrow> pyfloat) \<Rightarrow> string option \<Rightarrow> pyval list res" where
  "file_events parse f = (case f of
     None \<Rightarrow> Inr []
   | Some text \<Rightarrow>
       if \<not> valid_utf8 0 text then Inl UnicodeDecodeError
       else sequenceE (map (loads_with (plain_hooks parse)) (filter (\<lambda>l. \<not> is_blank l) (text_lines [] text))))"

subsection \<open>Receipts\<close>

definition receipt_fields :: "string list" where
  "receipt_fields = [''sequence'', ''event_hash'', ''source_id'', ''source_sequence'', ''issued_at'', ''key_id'']"

definition positive_int :: "pyval \<Rightarrow> bool" where
  "positive_int v = (case int_instance v of None \<Rightarrow> False | Some i \<Rightarrow> 1 \<le> i)"

text \<open>\<open>math.isfinite\<close> of an integer that is too large for a float raises \<open>OverflowError\<close>.\<close>

definition finite_number :: "pyval \<Rightarrow> bool res" where
  "finite_number v = (case v of
     PInt i \<Rightarrow> if \<bar>i\<bar> \<ge> 2 ^ 1024 - 2 ^ 970 then Inl (ExternalError ''OverflowError'') else Inr True
   | PFloat f \<Rightarrow> Inr (f \<noteq> FNaN \<and> f \<noteq> FInf)
   | _ \<Rightarrow> Inr False)"

text \<open>
  \<open>verify_receipt\<close>; \<open>load\<close> is \<open>load_pem_public_key\<close> on the bytes of an ASCII text, with the raw key of an Ed25519 key and
  \<open>None\<close> for any other. Decoding is lenient, but the signature must be what encoding the decoded bytes gives.
\<close>

definition receipt_checks :: "dict \<Rightarrow> bool res" where
  "receipt_checks payload =
     (if \<not> set_eq_list (map fst payload) receipt_fields then Inr False
      else if \<not> positive_int (dict_get payload ''sequence'') \<or> \<not> positive_int (dict_get payload ''source_sequence'') then Inr False
      else case (dict_get payload ''source_id'', dict_get payload ''event_hash'') of
        (PStr s, PStr h) \<Rightarrow>
          if s = [] \<or> \<not> hex_n 64 h then Inr False
          else bindE (finite_number (dict_get payload ''issued_at'')) (\<lambda>ok.
            Inr (ok \<and> is_str (dict_get payload ''key_id'')))
      | _ \<Rightarrow> Inr False)"

definition verify_signature :: "host \<Rightarrow> ed25519 \<Rightarrow> string \<Rightarrow> dict \<Rightarrow> pyval \<Rightarrow> bool res" where
  "verify_signature H E raw payload signature =
     (if dict_get payload ''key_id'' \<noteq> PStr (''ed25519:'' @ take 32 (sha256_hex H raw)) then Inr False
      else case signature of
        PStr s \<Rightarrow>
          if b64_encode (b64_decode s) \<noteq> s then Inr False
          else bindE (canonical_bytes H (PDict payload)) (\<lambda>message. Inr (ed_verify E raw (b64_decode s) message))
      | _ \<Rightarrow> Inr False)"

definition verify_receipt :: "host \<Rightarrow> ed25519 \<Rightarrow> (string \<Rightarrow> string option res) \<Rightarrow> dict \<Rightarrow> string \<Rightarrow> bool res" where
  "verify_receipt H E load receipt pem =
     (let result = (if \<not> set_eq_list (map fst receipt) [''payload'', ''signature'', ''algorithm''] then Inr False
        else if dict_get receipt ''algorithm'' \<noteq> PStr ''Ed25519'' then Inr False
        else case dict_get receipt ''payload'' of
          PDict payload \<Rightarrow> bindE (receipt_checks payload) (\<lambda>ok.
            if \<not> ok then Inr False
            else bindE (load pem) (\<lambda>key. case key of
                None \<Rightarrow> Inr False
              | Some raw \<Rightarrow> verify_signature H E raw payload (dict_get receipt ''signature'')))
        | _ \<Rightarrow> Inr False)
      in case result of
           Inl (KeyError _) \<Rightarrow> Inr False
         | Inl e \<Rightarrow> if value_or_type_error e then Inr False else Inl e
         | r \<Rightarrow> r)"


section \<open>Lemmas\<close>

subsection \<open>Lines\<close>

abbreviation one_line :: "string \<Rightarrow> bool" where
  "one_line \<equiv> list_all (\<lambda>c. c \<noteq> CHR 0x0A \<and> c \<noteq> CHR 0x0D)"

lemma text_lines_one: "one_line b \<Longrightarrow> text_lines cur (b @ [CHR 0x0A]) = [rev cur @ b @ [CHR 0x0A]]"
proof (induction b arbitrary: cur)
  case (Cons c b)
  then show ?case by (cases b) auto
qed simp

lemma text_lines_part: "one_line b \<Longrightarrow> b \<noteq> [] \<Longrightarrow> text_lines cur b = [rev cur @ b]"
proof (induction b arbitrary: cur)
  case (Cons c b)
  then show ?case by (cases b) auto
qed simp

lemma text_lines_append:
  "(f = [] \<longrightarrow> cur = []) \<Longrightarrow> (f \<noteq> [] \<longrightarrow> last f = CHR 0x0A) \<Longrightarrow> text_lines cur (f @ l) = text_lines cur f @ text_lines [] l"
proof (induction cur f rule: text_lines.induct)
  case (2 cur c)
  then show ?case by (cases l) auto
next
  case (3 cur c d cs)
  then show ?case by (cases "cs = []") auto
qed simp

lemma code_points_hd: "acc \<noteq> [] \<Longrightarrow> \<exists>p ps. code_points s acc = p # ps \<and> hd p = hd acc"
  by (induction s acc rule: code_points.induct) auto

lemma not_blank: "\<not> is_blank (CHR ''{'' # s)"
proof -
  have "\<not> is_cont (CHR ''{'')" by (simp add: is_cont_def)
  then obtain p ps where p: "code_points (CHR ''{'' # s) [] = p # ps" "hd p = CHR ''{''"
    using code_points_hd [of "[CHR ''{'']" s] by auto
  have "list_all (\<lambda>q. hd q \<noteq> CHR ''{'') space_points" by code_simp
  with p(2) have "p \<notin> set space_points" by (auto simp: list_all_iff)
  with p(1) show ?thesis by (simp add: is_blank_def)
qed

lemma scan_lines_append:
  "scan_lines H parse m (ls @ ls') ch = bindE (scan_lines H parse m ls ch) (\<lambda>(reason, ch').
     case reason of Some _ \<Rightarrow> Inr (reason, ch') | None \<Rightarrow> scan_lines H parse m ls' ch')"
proof (induction ls arbitrary: ch)
  case (Cons l ls)
  show ?case
  proof (cases "scan_line H parse m l ch")
    case (Inr p)
    then show ?thesis using Cons by (cases p) (auto split: option.splits)
  qed simp
qed simp

subsection \<open>The state of a recorder\<close>

text \<open>What the recorder remembers is what its file says, and the file ends with a line.\<close>

definition remembered :: "recorder \<Rightarrow> chain" where
  "remembered er = \<lparr>ch_tip = er_tip er, ch_count = er_count er, ch_sources = er_sources er\<rparr>"

definition recorder_ok :: "host \<Rightarrow> (string \<Rightarrow> pyfloat) \<Rightarrow> recorder \<Rightarrow> bool" where
  "recorder_ok H parse er \<longleftrightarrow> scan_file H parse (er_max_event_bytes er) (er_file er) = Inr (None, remembered er)
     \<and> (file_text er = [] \<or> last (file_text er) = CHR 0x0A)"

text \<open>A recorder that refuses every further event.\<close>

definition halted :: "host \<Rightarrow> (string \<Rightarrow> pyfloat) \<Rightarrow> recorder \<Rightarrow> bool" where
  "halted H parse er \<longleftrightarrow> (\<forall>c. \<exists>e. append_prepare H parse c er = Inl e)"

text \<open>\<open>hexdigest\<close> returns 64 hexadecimal digits.\<close>

definition hex_host :: "host \<Rightarrow> bool" where
  "hex_host H \<longleftrightarrow> (\<forall>s. hex_n 64 (sha256_hex H s))"

text \<open>The arguments of an append are Python values, and \<open>float()\<close> reads the \<open>repr\<close> of their floats.\<close>

definition call_ok :: "(string \<Rightarrow> pyfloat) \<Rightarrow> append_call \<Rightarrow> bool" where
  "call_ok parse c \<longleftrightarrow> as_loaded (plain_hooks parse) (PFloat (ac_timestamp c))
     \<and> as_loaded (plain_hooks parse) (PDict (ac_payload c)) \<and> wf_val (PDict (ac_payload c))
     \<and> wf_str (ac_event_type c) \<and> wf_str (ac_source_id c)"

lemma scan_file_text:
  "scan_file H parse m f = (case f of None \<Rightarrow> Inr (None, genesis) | Some t \<Rightarrow>
     if valid_utf8 0 t then scan_lines H parse m (text_lines [] t) genesis else Inl UnicodeDecodeError)"
  by (simp add: scan_file_def split: option.splits)

lemma recorder_ok_iff:
  "recorder_ok H parse er \<longleftrightarrow> valid_utf8 0 (file_text er)
     \<and> scan_lines H parse (er_max_event_bytes er) (text_lines [] (file_text er)) genesis = Inr (None, remembered er)
     \<and> (file_text er = [] \<or> last (file_text er) = CHR 0x0A)"
  by (auto simp: recorder_ok_def scan_file_text file_text_def split: option.splits if_splits)

lemma hex_ascii: "hex_n n s \<Longrightarrow> list_all printable s"
  by (auto simp: hex_n_def list_all_iff is_hex_lower_def printable_def less_eq_char_def)

lemma hex_wf: "hex_n n s \<Longrightarrow> wf_str s"
  by (simp add: wf_str_def printable_utf8 hex_ascii)

lemma scan_event_tip:
  assumes "scan_event H event ch = Inr (None, ch')"
  shows "\<exists>s. ch_tip ch' = sha256_hex H s" "ch_count ch' = ch_count ch + 1"
  using assms
  by (auto simp: scan_event_def Let_def digest_def res_simps split: if_splits pyval.splits option.splits)

lemma scan_line_tip:
  assumes "scan_line H parse m l ch = Inr (None, ch')"
  shows "\<exists>s. ch_tip ch' = sha256_hex H s" "ch_count ch' = ch_count ch + 1"
  using assms scan_event_tip
  by (auto simp: scan_line_def split: if_splits sum.splits pyval.splits)

lemma scan_lines_tip:
  "scan_lines H parse m ls ch = Inr (None, ch') \<Longrightarrow> hex_host H \<Longrightarrow> hex_n 64 (ch_tip ch) \<Longrightarrow> hex_n 64 (ch_tip ch')"
proof (induction ls arbitrary: ch)
  case (Cons l ls)
  from Cons.prems(1) obtain ch1 where l: "scan_line H parse m l ch = Inr (None, ch1)" "scan_lines H parse m ls ch1 = Inr (None, ch')"
    by (auto simp: bindE_Inr_iff split: option.splits)
  from scan_line_tip(1) [OF l(1)] have "hex_n 64 (ch_tip ch1)" using Cons.prems(2) by (auto simp: hex_host_def)
  with Cons l(2) show ?case by blast
qed simp

lemma genesis_hex: "hex_n 64 (ch_tip genesis)"
  by (simp add: genesis_def hex_n_def is_hex_lower_def list_all_iff)

subsection \<open>A recorded event scans\<close>

lemma canonical_scalar:
  "canonical_value H d (PInt i) = Inr v \<Longrightarrow> v = PInt i" "canonical_value H d (PStr s) = Inr v \<Longrightarrow> v = PStr s"
  by (auto simp: bindE_Inr_iff canonical_str_iff split: if_splits)

lemma dict_get_unhashed: "k \<noteq> ''event_hash'' \<Longrightarrow> dict_get (unhashed m) k = dict_get m k"
proof -
  assume "k \<noteq> ''event_hash''"
  then have "map_of (unhashed m) k = map_of m k" by (induction m) (auto simp: unhashed_def)
  then show ?thesis by (simp add: dict_get_def)
qed

definition full_event :: "append_call \<Rightarrow> recorder \<Rightarrow> int \<Rightarrow> string \<Rightarrow> dict" where
  "full_event c er n d = event_record c er n @ [(''event_hash'', PStr d)]"

lemma full_event_keys:
  "set (map fst (full_event c er n d)) = set event_fields" "distinct (map fst (full_event c er n d))"
  "unhashed (full_event c er n d) = event_record c er n"
  by (simp_all add: full_event_def event_record_def event_fields_def unhashed_def)

lemma full_event_lookup:
  "map_of (full_event c er n d) ''sequence'' = Some (PInt (er_count er + 1))"
  "map_of (full_event c er n d) ''source_id'' = Some (PStr (ac_source_id c))"
  "map_of (full_event c er n d) ''source_sequence'' = Some (PInt n)"
  "map_of (full_event c er n d) ''previous_hash'' = Some (PStr (er_tip er))"
  "map_of (full_event c er n d) ''event_hash'' = Some (PStr d)"
  "map_of (full_event c er n d) ''event_type'' = Some (PStr (ac_event_type c))"
  "map_of (full_event c er n d) ''payload'' = Some (PDict (ac_payload c))"
  by (simp_all add: full_event_def event_record_def)

lemma canonical_event_fields:
  assumes cs: "canonical_value H 0 (PDict (full_event c er n d)) = Inr (PDict cs)"
  shows "set (map fst cs) = set event_fields"
    and "dict_get cs ''sequence'' = PInt (er_count er + 1)" "dict_get cs ''source_id'' = PStr (ac_source_id c)"
    and "dict_get cs ''source_sequence'' = PInt n" "dict_get cs ''previous_hash'' = PStr (er_tip er)"
    and "dict_get cs ''event_hash'' = PStr d" "dict_get cs ''event_type'' = PStr (ac_event_type c)"
    and "canonical_value H 1 (PDict (ac_payload c)) = Inr (dict_get cs ''payload'')"
    and "digest H (PDict (unhashed cs)) = digest H (PDict (event_record c er n))"
proof -
  note get = canonical_field_get [OF cs full_event_keys(2)]
  show "set (map fst cs) = set event_fields" using canonical_keys [OF cs] full_event_keys(1) by simp
  have int: "dict_get cs k = PInt i" if "map_of (full_event c er n d) k = Some (PInt i)" for k i
    by (rule get [OF that]) (auto simp: dict_get_def simp del: canonical_value.simps dest: canonical_scalar(1))
  have str: "dict_get cs k = PStr i" if "map_of (full_event c er n d) k = Some (PStr i)" for k i
    by (rule get [OF that]) (auto simp: dict_get_def simp del: canonical_value.simps dest: canonical_scalar(2))
  show "dict_get cs ''sequence'' = PInt (er_count er + 1)" "dict_get cs ''source_sequence'' = PInt n"
    by (simp_all add: int full_event_lookup)
  show "dict_get cs ''source_id'' = PStr (ac_source_id c)" "dict_get cs ''previous_hash'' = PStr (er_tip er)"
    "dict_get cs ''event_hash'' = PStr d" "dict_get cs ''event_type'' = PStr (ac_event_type c)"
    by (simp_all add: str full_event_lookup)
  show "canonical_value H 1 (PDict (ac_payload c)) = Inr (dict_get cs ''payload'')"
    by (rule get [OF full_event_lookup(7)]) (simp add: dict_get_def)
  have "canonical_value H 0 (PDict (unhashed (full_event c er n d))) = Inr (PDict (unhashed cs))"
    unfolding unhashed_def by (rule canonical_filter [OF cs])
  then show "digest H (PDict (unhashed cs)) = digest H (PDict (event_record c er n))"
    unfolding full_event_keys(3) by (rule digest_canonical)
qed

lemma append_prepare_Inr:
  assumes "append_prepare H parse c er = Inr (n, d, b)"
  obtains ch where "scan_file H parse (er_max_event_bytes er) (er_file er) = Inr (None, ch)"
    "ch_tip ch = er_tip er" "ch_count ch = er_count er" "ac_source_id c \<noteq> []" "ac_event_type c \<noteq> []"
    "n = source_count (ch_sources ch) (ac_source_id c) + 1" "digest H (PDict (event_record c er n)) = Inr d"
    "canonical_bytes H (PDict (full_event c er n d)) = Inr b" "length b + 1 \<le> er_max_event_bytes er"
proof -
  from assms obtain reason ch where
    1: "scan_file H parse (er_max_event_bytes er) (er_file er) = Inr (reason, ch)"
    and 2: "bindE (checkE (reason \<noteq> None \<or> ch_tip ch \<noteq> er_tip er \<or> ch_count ch \<noteq> er_count er)
              (RecorderIntegrityError ''recorder changed outside authority'')) (\<lambda>_.
     bindE (checkE (ac_event_type c = [] \<or> length (code_points (ac_event_type c) []) > 128) (ValueError ''invalid recorder event type'')) (\<lambda>_.
     bindE (checkE (ac_source_id c = []) (ValueError ''invalid recorder event envelope'')) (\<lambda>_.
     let expected = source_count (ch_sources ch) (ac_source_id c) + 1;
         n = (case ac_source_sequence c of None \<Rightarrow> expected | Some k \<Rightarrow> k) in
     bindE (checkE (n \<noteq> expected) (RecorderIntegrityError ''source event loss or reordering detected'')) (\<lambda>_.
     bindE (digest H (PDict (event_record c er n))) (\<lambda>d.
     bindE (canonical_bytes H (PDict (event_record c er n @ [(''event_hash'', PStr d)]))) (\<lambda>b.
     bindE (checkE (length b + 1 > er_max_event_bytes er) (ValueError ''recorder event exceeds fixed envelope'')) (\<lambda>_.
     Inr (n, d, b)))))))) = Inr (n, d, b)"
    unfolding append_prepare_def by (auto simp: bindE_Inr_iff)
  show thesis
    using that [of ch] 1 2 unfolding Let_def bindE_Inr_iff checkE_Inr_iff by (auto simp: full_event_def)
qed

lemma scan_recorded:
  assumes b: "canonical_bytes H (PDict (full_event c er n d)) = Inr b" and len: "length b + 1 \<le> m"
    and ok: "as_loaded (plain_hooks parse) (PDict (full_event c er n d))" and "hex_host H"
    and src: "ac_source_id c \<noteq> []" and dig: "digest H (PDict (event_record c er n)) = Inr d"
    and ch: "ch_tip ch = er_tip er" "ch_count ch = er_count er" "n = source_count (ch_sources ch) (ac_source_id c) + 1"
  obtains cs where "canonical_value H 0 (PDict (full_event c er n d)) = Inr (PDict cs)"
    and "loads_with (plain_hooks parse) (encoded_line m b) = Inr (PDict cs)" and "\<not> is_blank (encoded_line m b)"
    and "scan_line H parse m (encoded_line m b) ch = Inr (None, \<lparr>ch_tip = d, ch_count = er_count er + 1,
           ch_sources = (ch_sources ch)(ac_source_id c \<mapsto> n)\<rparr>)"
    and "length (encoded_line m b) = m" and "no_control b"
proof -
  obtain v where v: "canonical_value H 0 (PDict (full_event c er n d)) = Inr v" "dumps v = Inr b"
    using b by (rule canonical_bytes_cases)
  obtain cs where cs: "v = PDict cs" using v(1) by (auto simp: canonical_dict_iff)
  have readable: "readable (plain_hooks parse) v" using canonical_value_readable [OF v(1) ok] .
  have pad: "set (replicate (m - length b - 1) (CHR '' '') @ [CHR 0x0A]) \<subseteq> {CHR '' '', CHR 0x0A}" by auto
  have loads: "loads_with (plain_hooks parse) (encoded_line m b) = Inr (PDict cs)"
    unfolding encoded_line_def
    using loads_with_canonical_bytes [OF b v(1) keeps_objects_plain readable pad] cs by simp
  have "\<exists>t. b = CHR ''{'' # t" using v(2) cs by (auto simp: bindE_Inr_iff)
  then have blank: "\<not> is_blank (encoded_line m b)" by (auto simp: encoded_line_def not_blank)
  have size: "length (encoded_line m b) = m" using len by (simp add: encoded_line_def)
  note fs = canonical_event_fields [OF v(1) [unfolded cs]]
  have event: "scan_event H cs ch = Inr (None, \<lparr>ch_tip = d, ch_count = er_count er + 1,
      ch_sources = (ch_sources ch)(ac_source_id c \<mapsto> n)\<rparr>)"
    using fs ch src dig
    by (simp add: scan_event_def Let_def int_equals_def int_instance_def dict_get_unhashed)
  have "scan_line H parse m (encoded_line m b) ch = Inr (None, \<lparr>ch_tip = d, ch_count = er_count er + 1,
      ch_sources = (ch_sources ch)(ac_source_id c \<mapsto> n)\<rparr>)"
    using loads blank size event by (simp add: scan_line_def)
  then show thesis using that v(1) cs loads blank size dumps_no_control [OF readable v(2)] by blast
qed

subsection \<open>Appending\<close>

lemma scan_file_Some: "scan_file H parse m (Some t) = (if valid_utf8 0 t then scan_lines H parse m (text_lines [] t) genesis else Inl UnicodeDecodeError)"
  by (simp add: scan_file_def)

lemma append_call_loaded:
  assumes "call_ok parse c"
  shows "as_loaded (plain_hooks parse) (PDict (full_event c er n d))"
  using assms full_event_keys(2) [of c er n d] by (simp add: call_ok_def full_event_def event_record_def)

lemma append_call_wf:
  assumes "call_ok parse c" "wf_str (er_tip er)" "wf_str d"
  shows "wf_val (PDict (full_event c er n d))"
proof -
  have "list_all (list_all printable) (map fst (full_event c er n d))"
    by (simp add: full_event_def event_record_def printable_def)
  then have "list_all wf_str (map fst (full_event c er n d))"
    by (auto simp: list_all_iff wf_str_def printable_utf8)
  then show ?thesis using assms full_event_keys(2) [of c er n d] by (simp add: call_ok_def full_event_def event_record_def)
qed

text \<open>The file after a complete write, line by line.\<close>

lemma one_line_encoded:
  assumes "no_control b"
  shows "text_lines [] (encoded_line m b) = [encoded_line m b]"
    and "0 < k \<Longrightarrow> k < length (encoded_line m b) \<Longrightarrow> text_lines [] (take k (encoded_line m b)) = [take k (encoded_line m b)]"
proof -
  define body where "body = b @ replicate (m - length b - 1) (CHR '' '')"
  have one: "one_line body" using assms by (auto simp: list_all_iff body_def)
  have enc: "encoded_line m b = body @ [CHR 0x0A]" by (simp add: encoded_line_def body_def)
  show "text_lines [] (encoded_line m b) = [encoded_line m b]" using text_lines_one [OF one, of "[]"] enc by simp
  assume k: "0 < k" "k < length (encoded_line m b)"
  then have "k \<le> length body" by (simp add: enc)
  then have part: "take k (encoded_line m b) = take k body" by (simp add: enc)
  have "one_line (take k body)" using one by (auto simp: list_all_iff dest: in_set_takeD)
  moreover have "take k body \<noteq> []" using k \<open>k \<le> length body\<close> by auto
  ultimately show "text_lines [] (take k (encoded_line m b)) = [take k (encoded_line m b)]"
    unfolding part using text_lines_part [of "take k body" "[]"] by simp
qed

lemma appended_scan:
  assumes er: "recorder_ok H parse er" and host: "hex_host H" and call: "call_ok parse c"
    and prep: "append_prepare H parse c er = Inr (n, d, b)"
  obtains cs where "canonical_value H 0 (PDict (full_event c er n d)) = Inr (PDict cs)"
    and "loads_with (plain_hooks parse) (encoded_line (er_max_event_bytes er) b) = Inr (PDict cs)"
    and "\<not> is_blank (encoded_line (er_max_event_bytes er) b)"
    and "text_lines [] (file_text er @ encoded_line (er_max_event_bytes er) b)
           = text_lines [] (file_text er) @ [encoded_line (er_max_event_bytes er) b]"
    and "scan_file H parse (er_max_event_bytes er) (Some (file_text er @ encoded_line (er_max_event_bytes er) b)) =
           Inr (None, \<lparr>ch_tip = d, ch_count = er_count er + 1, ch_sources = (er_sources er)(ac_source_id c \<mapsto> n)\<rparr>)"
    and "length (encoded_line (er_max_event_bytes er) b) = er_max_event_bytes er" and "no_control b"
proof -
  let ?m = "er_max_event_bytes er"
  obtain ch where scan: "scan_file H parse ?m (er_file er) = Inr (None, ch)" and ch: "ch_tip ch = er_tip er" "ch_count ch = er_count er"
    and p: "ac_source_id c \<noteq> []" "n = source_count (ch_sources ch) (ac_source_id c) + 1" "digest H (PDict (event_record c er n)) = Inr d"
      "canonical_bytes H (PDict (full_event c er n d)) = Inr b" "length b + 1 \<le> ?m"
    using prep by (rule append_prepare_Inr)
  have rem: "ch = remembered er" using er scan by (simp add: recorder_ok_def)
  obtain cs where cs: "canonical_value H 0 (PDict (full_event c er n d)) = Inr (PDict cs)"
    "loads_with (plain_hooks parse) (encoded_line ?m b) = Inr (PDict cs)" "\<not> is_blank (encoded_line ?m b)"
    "scan_line H parse ?m (encoded_line ?m b) ch = Inr (None, \<lparr>ch_tip = d, ch_count = er_count er + 1,
       ch_sources = (ch_sources ch)(ac_source_id c \<mapsto> n)\<rparr>)"
    "length (encoded_line ?m b) = ?m" "no_control b"
    using scan_recorded [OF p(4,5) append_call_loaded [OF call] host p(1,3) ch p(2)] by blast
  have ok: "valid_utf8 0 (file_text er)" "scan_lines H parse ?m (text_lines [] (file_text er)) genesis = Inr (None, remembered er)"
    "file_text er = [] \<or> last (file_text er) = CHR 0x0A"
    using er by (simp_all add: recorder_ok_iff)
  have lines: "text_lines [] (file_text er @ encoded_line ?m b) = text_lines [] (file_text er) @ [encoded_line ?m b]"
    using text_lines_append [of "file_text er" "[]" "encoded_line ?m b"] ok(3) one_line_encoded(1) [OF cs(6)] by auto
  have "wf_str (er_tip er)" using scan_lines_tip [OF ok(2) host genesis_hex] by (simp add: remembered_def hex_wf)
  moreover have "wf_str d" using p(3) host by (auto simp: digest_def bindE_Inr_iff hex_host_def intro: hex_wf)
  ultimately have utf8: "utf8_val (PDict cs)" by (intro canonical_value_utf8 [OF cs(1)] append_call_wf [OF call])
  obtain v where "canonical_value H 0 (PDict (full_event c er n d)) = Inr v" "dumps v = Inr b"
    using p(4) by (rule canonical_bytes_cases)
  then have "dumps (PDict cs) = Inr b" using cs(1) by (simp del: dumps.simps)
  then have "valid_utf8 0 b"
    by (rule dumps_valid_utf8_with [OF canonical_value_readable [OF cs(1) append_call_loaded [OF call]] utf8])
  moreover have "valid_utf8 0 (replicate (?m - length b - 1) (CHR '' '') @ [CHR 0x0A])"
    by (rule valid_utf8_ascii) (auto simp: list_all_iff)
  ultimately have "valid_utf8 0 (encoded_line ?m b)" unfolding encoded_line_def by (rule valid_utf8_append)
  then have "valid_utf8 0 (file_text er @ encoded_line ?m b)" using ok(1) by (simp add: valid_utf8_append)
  then have "scan_file H parse ?m (Some (file_text er @ encoded_line ?m b)) =
      Inr (None, \<lparr>ch_tip = d, ch_count = er_count er + 1, ch_sources = (er_sources er)(ac_source_id c \<mapsto> n)\<rparr>)"
    unfolding scan_file_Some lines scan_lines_append using ok(2) cs(4) rem by (simp add: remembered_def)
  then show thesis using that cs lines by blast
qed

text \<open>Once a part of a line is in the file, or a line the recorder does not know of, it takes no more events.\<close>

lemma halted_scan:
  assumes "\<And>ch. scan_file H parse (er_max_event_bytes er) (er_file er) = Inr (None, ch) \<Longrightarrow> ch_count ch \<noteq> er_count er"
  shows "halted H parse er"
  unfolding halted_def
proof
  fix c
  show "\<exists>e. append_prepare H parse c er = Inl e"
  proof (cases "append_prepare H parse c er")
    case (Inr p)
    then obtain n d b where "append_prepare H parse c er = Inr (n, d, b)" by (cases p) auto
    then show ?thesis by (rule append_prepare_Inr) (use assms in auto)
  qed simp
qed

lemma torn_write_halts:
  assumes er: "recorder_ok H parse er" and host: "hex_host H" and call: "call_ok parse c"
    and prep: "append_prepare H parse c er = Inr (n, d, b)" and k: "0 < k"
  shows "halted H parse (er\<lparr>er_file := Some (file_text er @ take k (encoded_line (er_max_event_bytes er) b))\<rparr>)"
proof (rule halted_scan)
  let ?m = "er_max_event_bytes er"
  let ?part = "take k (encoded_line ?m b)"
  fix ch
  assume "scan_file H parse (er_max_event_bytes (er\<lparr>er_file := Some (file_text er @ ?part)\<rparr>))
      (er_file (er\<lparr>er_file := Some (file_text er @ ?part)\<rparr>)) = Inr (None, ch)"
  then have scan: "scan_file H parse ?m (Some (file_text er @ ?part)) = Inr (None, ch)" by simp
  obtain cs where cs: "scan_file H parse ?m (Some (file_text er @ encoded_line ?m b)) =
       Inr (None, \<lparr>ch_tip = d, ch_count = er_count er + 1, ch_sources = (er_sources er)(ac_source_id c \<mapsto> n)\<rparr>)"
    "length (encoded_line ?m b) = ?m" "no_control b"
    using er host call prep by (rule appended_scan)
  show "ch_count ch \<noteq> er_count (er\<lparr>er_file := Some (file_text er @ ?part)\<rparr>)"
  proof (cases "k < ?m")
    case False
    then have "?part = encoded_line ?m b" using cs(2) by simp
    then show ?thesis using scan cs(1) by auto
  next
    case True
    have "file_text er = [] \<or> last (file_text er) = CHR 0x0A"
      and ok: "scan_lines H parse ?m (text_lines [] (file_text er)) genesis = Inr (None, remembered er)"
      using er by (simp_all add: recorder_ok_iff)
    then have "text_lines [] (file_text er @ ?part) = text_lines [] (file_text er) @ [?part]"
      using text_lines_append [of "file_text er" "[]" ?part] one_line_encoded(2) [OF cs(3) k, of ?m] True cs(2) by auto
    moreover have "length ?part \<noteq> ?m" using True cs(2) by simp
    ultimately show ?thesis
      using scan ok unfolding scan_file_Some by (auto simp: scan_lines_append scan_line_def split: if_splits)
  qed
qed

text \<open>Whatever happens, what was in the file stays there.\<close>

definition file_extends :: "recorder \<Rightarrow> recorder \<Rightarrow> bool" where
  "file_extends er er' \<longleftrightarrow> (\<exists>s. file_text er' = file_text er @ s)"

lemma recorder_append_cases:
  assumes "recorder_append H E parse c er = (r, er')"
  obtains (refused) e where "r = Inl e" "er' = er"
  | (torn) n d b k e where "append_prepare H parse c er = Inr (n, d, b)" "ac_write c = Torn k" "r = Inl e"
      "er' = er\<lparr>er_file := Some (file_text er @ take k (encoded_line (er_max_event_bytes er) b))\<rparr>"
  | (written) n d b where "append_prepare H parse c er = Inr (n, d, b)" "ac_write c = Written"
      "er' = er\<lparr>er_file := Some (file_text er @ encoded_line (er_max_event_bytes er) b), er_tip := d, er_count := er_count er + 1,
         er_sources := (er_sources er)(ac_source_id c \<mapsto> n)\<rparr>"
      "r = bindE (canonical_bytes H (PDict (receipt_payload c er n d))) (\<lambda>message.
         Inr (full_event c er n d @ [(''receipt'', PDict [(''payload'', PDict (receipt_payload c er n d)),
           (''signature'', PStr (b64_encode (ed_sign E (er_private_key er) message))), (''algorithm'', PStr ''Ed25519'')])]))"
  using assms
  by (auto simp: recorder_append_def Let_def full_event_def split: sum.splits write_outcome.splits prod.splits)

lemma recorder_append_extends:
  assumes "recorder_append H E parse c er = (r, er')"
  shows "file_extends er er'"
  using assms by (cases rule: recorder_append_cases) (auto simp: file_extends_def file_text_def)

lemma recorder_append_count:
  assumes "recorder_append H E parse c er = (r, er')"
  shows "er_count er \<le> er_count er'" and "r = Inr ev \<Longrightarrow> er_count er' = er_count er + 1"
  using assms by (cases rule: recorder_append_cases; simp)+

subsection \<open>What a valid file holds\<close>

text \<open>The bytes an event is hashed over.\<close>

definition event_bytes :: "host \<Rightarrow> pyval \<Rightarrow> string res" where
  "event_bytes H v = (case v of PDict event \<Rightarrow> canonical_bytes H (PDict (unhashed event)) | _ \<Rightarrow> Inl (TypeError ''event''))"

definition line_bytes :: "host \<Rightarrow> (string \<Rightarrow> pyfloat) \<Rightarrow> string \<Rightarrow> string res" where
  "line_bytes H parse line = bindE (loads_with (plain_hooks parse) line) (event_bytes H)"

definition hash_inputs :: "host \<Rightarrow> (string \<Rightarrow> pyfloat) \<Rightarrow> string option \<Rightarrow> string list res" where
  "hash_inputs H parse f = bindE (file_events parse f) (\<lambda>es. sequenceE (map (event_bytes H) es))"

lemma scan_event_None:
  assumes "scan_event H event ch = Inr (None, ch')"
  obtains b src n where "canonical_bytes H (PDict (unhashed event)) = Inr b" "ch_tip ch' = sha256_hex H b"
    "dict_get (unhashed event) ''previous_hash'' = PStr (ch_tip ch)" "n = source_count (ch_sources ch) src + 1"
    "ch_sources ch' = (ch_sources ch)(src \<mapsto> n)"
  using assms
  by (auto simp: scan_event_def Let_def digest_def res_simps split: if_splits pyval.splits option.splits)

lemma scan_line_None:
  assumes "scan_line H parse m l ch = Inr (None, ch')"
  obtains event where "\<not> is_blank l" "loads_with (plain_hooks parse) l = Inr (PDict event)" "scan_event H event ch = Inr (None, ch')"
  using assms by (auto simp: scan_line_def split: if_splits sum.splits pyval.splits)

lemma scan_lines_snoc:
  "scan_lines H parse m (ls @ [l]) ch = Inr (None, ch') \<longleftrightarrow>
     (\<exists>ch1. scan_lines H parse m ls ch = Inr (None, ch1) \<and> scan_line H parse m l ch1 = Inr (None, ch'))"
  by (auto simp: scan_lines_append bindE_Inr_iff split: option.splits)

lemma scan_lines_count: "scan_lines H parse m ls ch = Inr (None, ch') \<Longrightarrow> ch_count ch' = ch_count ch + int (length ls)"
proof (induction ls arbitrary: ch' rule: rev_induct)
  case (snoc l ls)
  then obtain ch1 where "scan_lines H parse m ls ch = Inr (None, ch1)" "scan_line H parse m l ch1 = Inr (None, ch')"
    by (auto simp: scan_lines_snoc)
  with snoc.IH [of ch1] scan_line_tip(2) [of H parse m l ch1 ch'] show ?case by simp
qed simp

lemma scan_lines_sources:
  "scan_lines H parse m ls genesis = Inr (None, ch') \<Longrightarrow> 0 \<le> source_count (ch_sources ch') src"
proof (induction ls arbitrary: ch' rule: rev_induct)
  case Nil
  then show ?case by (auto simp: genesis_def source_count_def)
next
  case (snoc l ls)
  then obtain ch1 where 1: "scan_lines H parse m ls genesis = Inr (None, ch1)" and l: "scan_line H parse m l ch1 = Inr (None, ch')"
    by (auto simp: scan_lines_snoc)
  obtain event where "scan_event H event ch1 = Inr (None, ch')" using l by (rule scan_line_None)
  then obtain b s n where "n = source_count (ch_sources ch1) s + 1" "ch_sources ch' = (ch_sources ch1)(s \<mapsto> n)"
    by (rule scan_event_None)
  with snoc.IH [OF 1] show ?case by (auto simp: source_count_def split: option.splits if_splits)
qed

lemma scan_lines_events:
  assumes "scan_lines H parse m ls ch = Inr (None, ch')"
  shows "filter (\<lambda>l. \<not> is_blank l) ls = ls" and "\<exists>bs. map (line_bytes H parse) ls = map Inr bs"
    and "\<exists>es. map (loads_with (plain_hooks parse)) ls = map Inr es"
proof -
  have "\<not> is_blank l \<and> (\<exists>b. line_bytes H parse l = Inr b) \<and> (\<exists>v. loads_with (plain_hooks parse) l = Inr v)" if "l \<in> set ls" for l
    using assms that
  proof (induction ls arbitrary: ch)
    case (Cons a ls)
    then obtain ch1 where a: "scan_line H parse m a ch = Inr (None, ch1)" "scan_lines H parse m ls ch1 = Inr (None, ch')"
      by (auto simp: bindE_Inr_iff split: option.splits)
    obtain event where e: "\<not> is_blank a" "loads_with (plain_hooks parse) a = Inr (PDict event)" "scan_event H event ch = Inr (None, ch1)"
      using a(1) by (rule scan_line_None)
    obtain b where "canonical_bytes H (PDict (unhashed event)) = Inr b" using e(3) by (rule scan_event_None)
    then have "line_bytes H parse a = Inr b" using e(2) by (simp add: line_bytes_def event_bytes_def)
    then show ?case using Cons e a(2) by auto
  qed simp
  then show "filter (\<lambda>l. \<not> is_blank l) ls = ls" "\<exists>bs. map (line_bytes H parse) ls = map Inr bs"
    "\<exists>es. map (loads_with (plain_hooks parse)) ls = map Inr es"
    unfolding map_Inr_list_all2 by (auto simp: filter_id_conv ex_list_all2)
qed

lemma scan_file_events:
  assumes "scan_file H parse m f = Inr (None, ch)"
  obtains ls es bs where "scan_lines H parse m ls genesis = Inr (None, ch)" "map (line_bytes H parse) ls = map Inr bs"
    "map (loads_with (plain_hooks parse)) ls = map Inr es" "file_events parse f = Inr es" "hash_inputs H parse f = Inr bs"
proof -
  define ls where "ls = (case f of None \<Rightarrow> [] | Some t \<Rightarrow> text_lines [] t)"
  have scan: "scan_lines H parse m ls genesis = Inr (None, ch)"
    using assms by (auto simp: scan_file_def ls_def split: option.splits if_splits)
  obtain es bs where es: "map (loads_with (plain_hooks parse)) ls = map Inr es" and bs: "map (line_bytes H parse) ls = map Inr bs"
    using scan_lines_events(2,3) [OF scan] by blast
  have events: "file_events parse f = Inr es"
    using assms es scan_lines_events(1) [OF scan]
    by (auto simp: file_events_def scan_file_def ls_def split: option.splits if_splits)
  have "map (event_bytes H) es = map Inr bs"
  proof -
    have "list_all2 (\<lambda>l e. loads_with (plain_hooks parse) l = Inr e) ls es" "list_all2 (\<lambda>l b. line_bytes H parse l = Inr b) ls bs"
      using es bs by (simp_all flip: map_Inr_list_all2)
    then show ?thesis
      unfolding map_Inr_list_all2 by (auto simp: list_all2_conv_all_nth line_bytes_def bindE_Inr_iff)
  qed
  then have "hash_inputs H parse f = Inr bs" using events by (simp add: hash_inputs_def)
  then show thesis using that scan bs es events by blast
qed

subsection \<open>Tamper evidence\<close>

definition collision :: "host \<Rightarrow> string list \<Rightarrow> string list \<Rightarrow> bool" where
  "collision H xs ys \<longleftrightarrow> (\<exists>x \<in> set xs. \<exists>y \<in> set ys. x \<noteq> y \<and> sha256_hex H x = sha256_hex H y)"

lemma unhashed_loaded: "as_loaded K (PDict event) \<Longrightarrow> as_loaded K (PDict (unhashed event))"
  by (auto simp: unhashed_def list_all_iff distinct_map_filter)

lemma same_bytes_same_link:
  assumes b: "canonical_bytes H (PDict e1) = Inr b" "canonical_bytes H (PDict e2) = Inr b"
    and K: "as_loaded K (PDict e1)" "as_loaded K (PDict e2)" "keeps_objects K"
    and p: "dict_get e1 k = PStr s" "dict_get e2 k = PStr t"
  shows "s = t"
proof -
  obtain v where v: "canonical_value H 0 (PDict e1) = Inr v" using b(1) by (rule canonical_bytes_cases)
  then obtain cs where cs: "v = PDict cs" by (auto simp: canonical_dict_iff)
  have v2: "canonical_value H 0 (PDict e2) = Inr v" using canonical_bytes_inj_loaded [OF b K] v by simp
  have "map_of cs k = Some (PStr u)"
    if e: "canonical_value H 0 (PDict e) = Inr (PDict cs)" "as_loaded K (PDict e)" "dict_get e k = PStr u" for e u
  proof -
    have d: "distinct (map fst e)" using e(2) by simp
    have "map_of e k = Some (PStr u)" using e(3) by (auto simp: dict_get_def split: option.splits)
    then show ?thesis
      by (rule canonical_field_get [OF e(1) d]) (auto simp del: canonical_value.simps dest: canonical_scalar(2))
  qed
  from this [OF v [unfolded cs] K(1) p(1)] this [OF v2 [unfolded cs] K(2) p(2)] show ?thesis by simp
qed

lemma chain_determines:
  assumes parse: "float_reading parse"
  shows "scan_lines H parse m xs genesis = Inr (None, ch1) \<Longrightarrow> scan_lines H parse m ys genesis = Inr (None, ch2) \<Longrightarrow>
    length xs = length ys \<Longrightarrow> ch_tip ch1 = ch_tip ch2 \<Longrightarrow>
    map (line_bytes H parse) xs = map Inr as \<Longrightarrow> map (line_bytes H parse) ys = map Inr bs \<Longrightarrow> as = bs \<or> collision H as bs"
proof (induction xs arbitrary: ys as bs ch1 ch2 rule: rev_induct)
  case (snoc x xs)
  then obtain ys' y where ys: "ys = ys' @ [y]" by (cases ys rule: rev_cases) auto
  obtain as' a where as: "as = as' @ [a]" "map (line_bytes H parse) xs = map Inr as'" "line_bytes H parse x = Inr a"
    using snoc.prems(5) by (auto simp: map_eq_append_conv append_eq_map_conv)
  obtain bs' b where bs: "bs = bs' @ [b]" "map (line_bytes H parse) ys' = map Inr bs'" "line_bytes H parse y = Inr b"
    using snoc.prems(6) ys by (auto simp: map_eq_append_conv append_eq_map_conv)
  obtain c1 where c1: "scan_lines H parse m xs genesis = Inr (None, c1)" "scan_line H parse m x c1 = Inr (None, ch1)"
    using snoc.prems(1) by (auto simp: scan_lines_snoc)
  obtain c2 where c2: "scan_lines H parse m ys' genesis = Inr (None, c2)" "scan_line H parse m y c2 = Inr (None, ch2)"
    using snoc.prems(2) ys by (auto simp: scan_lines_snoc)
  have step: "\<exists>event. as_loaded (plain_hooks parse) (PDict event) \<and> canonical_bytes H (PDict event) = Inr u
      \<and> ch_tip c' = sha256_hex H u \<and> dict_get event ''previous_hash'' = PStr (ch_tip c)"
    if l: "scan_line H parse m l c = Inr (None, c')" "line_bytes H parse l = Inr u" for l c c' u
  proof -
    obtain event where e: "loads_with (plain_hooks parse) l = Inr (PDict event)" "scan_event H event c = Inr (None, c')"
      using l(1) by (rule scan_line_None)
    have "as_loaded (plain_hooks parse) (PDict (unhashed event))"
      by (rule unhashed_loaded [OF loads_with_loaded [OF reading_hooks_plain [OF parse] e(1)]])
    moreover have "canonical_bytes H (PDict (unhashed event)) = Inr u" using l(2) e(1) by (simp add: line_bytes_def event_bytes_def)
    ultimately show ?thesis using e(2) by (elim scan_event_None) auto
  qed
  obtain e1 e2 where e1: "as_loaded (plain_hooks parse) (PDict e1)" "canonical_bytes H (PDict e1) = Inr a"
      "ch_tip ch1 = sha256_hex H a" "dict_get e1 ''previous_hash'' = PStr (ch_tip c1)"
    and e2: "as_loaded (plain_hooks parse) (PDict e2)" "canonical_bytes H (PDict e2) = Inr b"
      "ch_tip ch2 = sha256_hex H b" "dict_get e2 ''previous_hash'' = PStr (ch_tip c2)"
    using step [OF c1(2) as(3)] step [OF c2(2) bs(3)] by blast
  show ?case
  proof (cases "a = b")
    case True
    then have "ch_tip c1 = ch_tip c2"
      using same_bytes_same_link [OF e1(2) _ e1(1) e2(1) keeps_objects_plain e1(4) e2(4)] e2(2) by simp
    then have "as' = bs' \<or> collision H as' bs'"
      using snoc.IH [OF c1(1) c2(1) _ _ as(2) bs(2)] snoc.prems(3) ys by simp
    with True show ?thesis unfolding as(1) bs(1) by (auto simp: collision_def)
  next
    case False
    then have "collision H as bs" using as(1) bs(1) e1(3) e2(3) snoc.prems(4) by (auto simp: collision_def)
    then show ?thesis ..
  qed
qed simp

subsection \<open>Receipts\<close>

lemma receipt_accepted:
  assumes er: "recorder_ok H parse er" and host: "hex_host H" and prep: "append_prepare H parse c er = Inr (n, d, b)"
    and msg: "canonical_bytes H (PDict (receipt_payload c er n d)) = Inr message"
    and key: "er_key_id er = ''ed25519:'' @ take 32 (sha256_hex H (ed_public E (er_private_key er)))"
    and ed: "ed25519_correct E (er_private_key er)" and load: "load pem = Inr (Some (ed_public E (er_private_key er)))"
  shows "verify_receipt H E load [(''payload'', PDict (receipt_payload c er n d)),
           (''signature'', PStr (b64_encode (ed_sign E (er_private_key er) message))), (''algorithm'', PStr ''Ed25519'')] pem = Inr True"
proof -
  obtain ch where ch: "scan_file H parse (er_max_event_bytes er) (er_file er) = Inr (None, ch)" "ch_count ch = er_count er"
    "ac_source_id c \<noteq> []" "n = source_count (ch_sources ch) (ac_source_id c) + 1" "digest H (PDict (event_record c er n)) = Inr d"
    using prep by (rule append_prepare_Inr)
  obtain ls where ls: "scan_lines H parse (er_max_event_bytes er) ls genesis = Inr (None, ch)"
    using ch(1) by (rule scan_file_events)
  have n: "1 \<le> n" "0 \<le> er_count er"
    using scan_lines_sources [OF ls, of "ac_source_id c"] scan_lines_count [OF ls] ch(2,4) by (simp_all add: genesis_def)
  have d: "hex_n 64 d" using ch(5) host by (auto simp: digest_def bindE_Inr_iff hex_host_def)
  obtain v where v: "canonical_value H 0 (PDict (receipt_payload c er n d)) = Inr v" using msg by (rule canonical_bytes_cases)
  obtain cs where "v = PDict cs" using v by (auto simp: canonical_dict_iff)
  moreover have "distinct (map fst (receipt_payload c er n d))" "map_of (receipt_payload c er n d) ''issued_at'' = Some (PFloat (ac_issued_at c))"
    by (simp_all add: receipt_payload_def)
  ultimately obtain u where "canonical_value H (0 + 1) (PFloat (ac_issued_at c)) = Inr u"
    using canonical_field_get [of H 0 "receipt_payload c er n d" cs "''issued_at''" "PFloat (ac_issued_at c)"] v
    by (simp del: canonical_value.simps) metis
  then have "ac_issued_at c \<noteq> FNaN" "ac_issued_at c \<noteq> FInf" by (auto split: if_splits)
  then have checks: "receipt_checks (receipt_payload c er n d) = Inr True"
    using n d ch(3) by (simp add: receipt_checks_def receipt_payload_def receipt_fields_def positive_int_def int_instance_def finite_number_def)
  have "dict_get (receipt_payload c er n d) ''key_id'' = PStr (er_key_id er)" by (simp add: receipt_payload_def)
  then have "verify_signature H E (ed_public E (er_private_key er)) (receipt_payload c er n d)
      (PStr (b64_encode (ed_sign E (er_private_key er) message))) = Inr True"
    using msg ed key by (simp add: verify_signature_def b64_decode_encode ed25519_correct_def)
  then show ?thesis using checks load by (simp add: verify_receipt_def Let_def)
qed

subsection \<open>The contract of an evidence log\<close>

text \<open>
  What the clients of a recorder rely on: an append never removes anything, and it returns without an exception only after
  the event has been counted.
\<close>

locale evidence_log =
  fixes append :: "'e \<Rightarrow> string \<Rightarrow> dict \<Rightarrow> 'l \<Rightarrow> unit res \<times> 'l" and extends :: "'l \<Rightarrow> 'l \<Rightarrow> bool" and recorded :: "'l \<Rightarrow> int"
  assumes extends_refl: "extends l l"
    and extends_trans: "extends l l' \<Longrightarrow> extends l' l'' \<Longrightarrow> extends l l''"
    and append_extends: "append e n p l = (r, l') \<Longrightarrow> extends l l'"
    and append_mono: "append e n p l = (r, l') \<Longrightarrow> recorded l \<le> recorded l'"
    and append_records: "append e n p l = (Inr u, l') \<Longrightarrow> recorded l' = recorded l + 1"

text \<open>An event of the local source, as the components of this program record it.\<close>

definition record_event ::
  "host \<Rightarrow> ed25519 \<Rightarrow> (string \<Rightarrow> pyfloat) \<Rightarrow> pyfloat \<times> pyfloat \<times> write_outcome \<Rightarrow> string \<Rightarrow> dict \<Rightarrow> recorder \<Rightarrow> unit res \<times> recorder" where
  "record_event H E parse e name payload er =
     (case recorder_append H E parse \<lparr>ac_event_type = name, ac_payload = payload, ac_source_id = ''local'', ac_source_sequence = None,
        ac_timestamp = fst e, ac_issued_at = fst (snd e), ac_write = snd (snd e)\<rparr> er of (r, er') \<Rightarrow> (unitE r, er'))"

interpretation recorder: evidence_log "record_event H E parse" file_extends er_count for H E parse
proof
  show "file_extends l l" for l by (simp add: file_extends_def)
  show "file_extends l l' \<Longrightarrow> file_extends l' l'' \<Longrightarrow> file_extends l l''" for l l' l'' by (auto simp: file_extends_def)
qed (auto simp: record_event_def unitE_Inr_iff split: prod.splits dest: recorder_append_extends recorder_append_count)

section \<open>Properties\<close>

text \<open>
  C5: appending. Whatever an append does, the file only grows. A recorder whose memory agrees with its file stays
  so, or it halts: when a write is torn, or complete but reported as failed, no later append is accepted. A receipt is
  returned only when the event is the one new event of the file, with its type and its payload in canonical form.
\<close>

theorem recorder_append_sound:
  assumes "recorder_ok H parse er" and "hex_host H" and "call_ok parse c" and "recorder_append H E parse c er = (r, er')"
  shows "file_extends er er' \<and> (recorder_ok H parse er' \<or> halted H parse er')
    \<and> (\<forall>ev. r = Inr ev \<longrightarrow> recorder_ok H parse er' \<and> er_count er' = er_count er + 1
         \<and> (\<exists>es e. file_events parse (er_file er) = Inr es \<and> file_events parse (er_file er') = Inr (es @ [PDict e])
              \<and> dict_get e ''event_type'' = PStr (ac_event_type c)
              \<and> canonical_value H 1 (PDict (ac_payload c)) = Inr (dict_get e ''payload'')))"
  using assms(4)
proof (cases rule: recorder_append_cases)
  case refused
  then show ?thesis using assms(1) by (auto simp: file_extends_def)
next
  case (torn n d b k e)
  have "recorder_ok H parse er'" if "k = 0"
    using assms(1) torn(4) that by (auto simp: recorder_ok_iff file_text_def remembered_def)
  moreover have "halted H parse er'" if "0 < k" using torn_write_halts [OF assms(1-3) torn(1) that] torn(4) by simp
  ultimately show ?thesis using torn(3) recorder_append_extends [OF assms(4)] by auto
next
  case (written n d b)
  let ?line = "encoded_line (er_max_event_bytes er) b"
  obtain cs where cs: "canonical_value H 0 (PDict (full_event c er n d)) = Inr (PDict cs)"
    "loads_with (plain_hooks parse) ?line = Inr (PDict cs)" "\<not> is_blank ?line"
    "text_lines [] (file_text er @ ?line) = text_lines [] (file_text er) @ [?line]"
    "scan_file H parse (er_max_event_bytes er) (Some (file_text er @ ?line)) =
       Inr (None, \<lparr>ch_tip = d, ch_count = er_count er + 1, ch_sources = (er_sources er)(ac_source_id c \<mapsto> n)\<rparr>)"
    using appended_scan [OF assms(1-3) written(1)] by blast
  have "recorder_ok H parse er'"
    using cs(5) written(3) by (simp add: recorder_ok_def remembered_def file_text_def encoded_line_def)
  moreover obtain es where es: "file_events parse (er_file er) = Inr es"
    using assms(1) unfolding recorder_ok_def by (meson scan_file_events)
  have "file_events parse (er_file er') = Inr (es @ [PDict cs])"
  proof -
    have "file_events parse (er_file er) = file_events parse (Some (file_text er))"
      by (auto simp: file_events_def file_text_def split: option.splits)
    moreover have "valid_utf8 0 (file_text er @ ?line)" using cs(5) by (auto simp: scan_file_def split: if_splits)
    ultimately show ?thesis
      using es cs(2-4) written(3) by (auto simp: file_events_def sequenceE_Inr_iff split: if_splits)
  qed
  ultimately show ?thesis
    using es canonical_event_fields(7,8) [OF cs(1)] recorder_append_count [OF assms(4)] recorder_append_extends [OF assms(4)] by blast
qed

definition demo_parse :: "string \<Rightarrow> pyfloat" where
  "demo_parse t = (if t = ''1.5'' then FFinite ''1.5'' else FNaN)"

definition demo_recorder :: recorder where
  "demo_recorder = \<lparr>er_file = None, er_max_event_bytes = 512, er_private_key = ''k'',
     er_key_id = ''ed25519:'' @ take 32 demo_digest, er_tip = replicate 64 (CHR ''0''), er_count = 0, er_sources = Map.empty\<rparr>"

definition demo_call :: "int \<Rightarrow> append_call" where
  "demo_call i = \<lparr>ac_event_type = ''request.received'', ac_payload = [(''n'', PInt i)], ac_source_id = ''local'',
     ac_source_sequence = None, ac_timestamp = FFinite ''1.5'', ac_issued_at = FFinite ''1.5'', ac_write = Written\<rparr>"

lemma demo_recorder_init: "\<exists>er. recorder_init demo_host demo_ed25519 demo_parse None (Private_key ''k'') 512 = Inr er \<and> er = demo_recorder"
  by (simp add: recorder_init_def recorder_recover_def scan_file_def genesis_def demo_recorder_def demo_host_def)

lemma demo_hex_host: "hex_host demo_host"
  by (simp add: hex_host_def demo_host_def demo_digest_def hex_n_def is_hex_lower_def list_all_iff)

lemma demo_recorder_ok: "recorder_ok demo_host demo_parse demo_recorder"
  by (simp add: recorder_ok_def demo_recorder_def scan_file_def genesis_def remembered_def file_text_def)

lemma demo_float: "float_text (plain_hooks demo_parse) ''1.5''"
  by code_simp

lemma demo_call_ok: "call_ok demo_parse (demo_call i)"
proof -
  have "wf_val (PDict [(''n'', PInt i)])" "wf_str ''request.received''" "wf_str ''local''"
    by (simp_all add: wf_str_def lead_ok_def)
  then show ?thesis using demo_float by (simp add: call_ok_def demo_call_def)
qed

lemma demo_append: "okE (fst (recorder_append demo_host demo_ed25519 demo_parse (demo_call 7) demo_recorder))"
  by code_simp

theorem recorder_append_sound_witness:
  "\<exists>ev er'. recorder_append demo_host demo_ed25519 demo_parse (demo_call 7) demo_recorder = (Inr ev, er')
     \<and> recorder_ok demo_host demo_parse er' \<and> er_count er' = 1 \<and> file_extends demo_recorder er'"
proof -
  obtain ev er' where r: "recorder_append demo_host demo_ed25519 demo_parse (demo_call 7) demo_recorder = (Inr ev, er')"
    using demo_append by (cases "recorder_append demo_host demo_ed25519 demo_parse (demo_call 7) demo_recorder") (auto simp: okE_iff)
  show ?thesis using recorder_append_sound [OF demo_recorder_ok demo_hex_host demo_call_ok r] r by (auto simp: demo_recorder_def)
qed

text \<open>
  Receipts. The receipt of a successful append is accepted by \<open>verify_receipt\<close> under the recorder's public key.
\<close>

theorem receipt_verifies:
  assumes "recorder_ok H parse er" and "hex_host H" and "recorder_append H E parse c er = (Inr ev, er')"
    and "er_key_id er = ''ed25519:'' @ take 32 (sha256_hex H (ed_public E (er_private_key er)))"
    and "ed25519_correct E (er_private_key er)" and "load pem = Inr (Some (ed_public E (er_private_key er)))"
  shows "\<exists>receipt. dict_get ev ''receipt'' = PDict receipt \<and> verify_receipt H E load receipt pem = Inr True"
  using assms(3)
proof (cases rule: recorder_append_cases)
  case (written n d b)
  from written(4) [symmetric] obtain message where m: "canonical_bytes H (PDict (receipt_payload c er n d)) = Inr message"
    and ev: "ev = full_event c er n d @ [(''receipt'', PDict [(''payload'', PDict (receipt_payload c er n d)),
           (''signature'', PStr (b64_encode (ed_sign E (er_private_key er) message))), (''algorithm'', PStr ''Ed25519'')])]"
    by (auto simp: bindE_Inr_iff)
  have "dict_get ev ''receipt'' = PDict [(''payload'', PDict (receipt_payload c er n d)),
      (''signature'', PStr (b64_encode (ed_sign E (er_private_key er) message))), (''algorithm'', PStr ''Ed25519'')]"
    unfolding ev by (simp add: full_event_def event_record_def)
  then show ?thesis using receipt_accepted [where load = load and pem = pem, OF assms(1,2) written(1) m assms(4-6)] by blast
qed simp_all

theorem receipt_verifies_witness:
  "\<exists>ev er' receipt. recorder_append demo_host demo_ed25519 demo_parse (demo_call 7) demo_recorder = (Inr ev, er')
     \<and> dict_get ev ''receipt'' = PDict receipt
     \<and> verify_receipt demo_host demo_ed25519 (\<lambda>_. Inr (Some (ed_public demo_ed25519 ''k''))) receipt ''pem'' = Inr True"
proof -
  obtain ev er' where r: "recorder_append demo_host demo_ed25519 demo_parse (demo_call 7) demo_recorder = (Inr ev, er')"
    using demo_append by (cases "recorder_append demo_host demo_ed25519 demo_parse (demo_call 7) demo_recorder") (auto simp: okE_iff)
  have k: "er_key_id demo_recorder = ''ed25519:'' @ take 32 (sha256_hex demo_host (ed_public demo_ed25519 (er_private_key demo_recorder)))"
    and p: "er_private_key demo_recorder = ''k''"
    by (simp_all add: demo_recorder_def demo_host_def)
  show ?thesis
    using receipt_verifies [OF demo_recorder_ok demo_hex_host r k demo_ed_correct,
        where load = "\<lambda>_. Inr (Some (ed_public demo_ed25519 ''k''))" and pem = "''pem''"] r p by auto
qed

text \<open>
  C4: tamper evidence. Two files that both verify, with the same number of events and the same tip, hold the same
  events in the same order (the same bytes were hashed), unless two different byte strings among those hashed have the same
  digest.
\<close>

theorem log_tamper_evident:
  assumes "float_reading parse" and "scan_file H parse m f1 = Inr (None, ch1)" and "scan_file H parse m f2 = Inr (None, ch2)"
    and "ch_count ch1 = ch_count ch2" and "ch_tip ch1 = ch_tip ch2"
  shows "\<exists>bs1 bs2. hash_inputs H parse f1 = Inr bs1 \<and> hash_inputs H parse f2 = Inr bs2 \<and> (bs1 = bs2 \<or> collision H bs1 bs2)"
proof -
  obtain xs as where 1: "scan_lines H parse m xs genesis = Inr (None, ch1)" "map (line_bytes H parse) xs = map Inr as"
    "hash_inputs H parse f1 = Inr as"
    using assms(2) by (rule scan_file_events)
  obtain ys bs where 2: "scan_lines H parse m ys genesis = Inr (None, ch2)" "map (line_bytes H parse) ys = map Inr bs"
    "hash_inputs H parse f2 = Inr bs"
    using assms(3) by (rule scan_file_events)
  have "length xs = length ys" using scan_lines_count [OF 1(1)] scan_lines_count [OF 2(1)] assms(4) by simp
  from chain_determines [OF assms(1) 1(1) 2(1) this assms(5) 1(2) 2(2)] show ?thesis using 1(3) 2(3) by blast
qed

definition demo_file :: "int \<Rightarrow> string option" where
  "demo_file i = er_file (snd (recorder_append demo_host demo_ed25519 demo_parse (demo_call i) demo_recorder))"

lemma demo_float_reading: "float_reading demo_parse"
  using demo_float by (simp add: float_reading_def demo_parse_def)

lemma demo_prepare:
  "okE (append_prepare demo_host demo_parse (demo_call 7) demo_recorder)" "okE (append_prepare demo_host demo_parse (demo_call 8) demo_recorder)"
  by (code_simp, code_simp)

lemma demo_file_scan:
  assumes "okE (append_prepare demo_host demo_parse (demo_call i) demo_recorder)"
  obtains ch where "scan_file demo_host demo_parse 512 (demo_file i) = Inr (None, ch)" "ch_count ch = 1" "ch_tip ch = demo_digest"
proof -
  obtain n d b where p: "append_prepare demo_host demo_parse (demo_call i) demo_recorder = Inr (n, d, b)"
    using assms by (auto simp: okE_iff)
  have m: "er_max_event_bytes demo_recorder = 512" "er_count demo_recorder = 0" by (simp_all add: demo_recorder_def)
  have w: "ac_write (demo_call i) = Written" by (simp add: demo_call_def)
  have f: "demo_file i = Some (file_text demo_recorder @ encoded_line 512 b)"
    by (simp add: demo_file_def recorder_append_def p w m Let_def)
  have "digest demo_host (PDict (event_record (demo_call i) demo_recorder n)) = Inr d" using p by (rule append_prepare_Inr)
  then have "d = demo_digest" by (auto simp: digest_def bindE_Inr_iff demo_host_def)
  moreover have "scan_file demo_host demo_parse (er_max_event_bytes demo_recorder)
      (Some (file_text demo_recorder @ encoded_line (er_max_event_bytes demo_recorder) b)) =
    Inr (None, \<lparr>ch_tip = d, ch_count = er_count demo_recorder + 1, ch_sources = (er_sources demo_recorder)(ac_source_id (demo_call i) \<mapsto> n)\<rparr>)"
    using demo_recorder_ok demo_hex_host demo_call_ok p by (rule appended_scan)
  ultimately show thesis using that unfolding f m by simp
qed

text \<open>The hash of the demonstration host is constant: the two files differ, and the collision is what the theorem shows.\<close>

theorem log_tamper_evident_witness:
  "\<exists>bs1 bs2. hash_inputs demo_host demo_parse (demo_file 7) = Inr bs1 \<and> hash_inputs demo_host demo_parse (demo_file 8) = Inr bs2
     \<and> (bs1 = bs2 \<or> collision demo_host bs1 bs2)"
proof -
  obtain ch1 where 1: "scan_file demo_host demo_parse 512 (demo_file 7) = Inr (None, ch1)" "ch_count ch1 = 1" "ch_tip ch1 = demo_digest"
    using demo_prepare(1) by (rule demo_file_scan)
  obtain ch2 where 2: "scan_file demo_host demo_parse 512 (demo_file 8) = Inr (None, ch2)" "ch_count ch2 = 1" "ch_tip ch2 = demo_digest"
    using demo_prepare(2) by (rule demo_file_scan)
  show ?thesis using log_tamper_evident [OF demo_float_reading 1(1) 2(1)] 1 2 by simp
qed

end
