(* ===== verification/Intent.thy ===== *)
theory Intent
  imports Broker Guardians Recorder
begin

text \<open>
  \<open>intent_canonicalizer.py\<close>: the path from a request payload to an issued capability. It composes the request model, the
  guardian quorum, the trust state of the attestation decision, policy synthesis and compilation, the broker and the
  evidence log. The recorder is any log with an \<open>append\<close>; the theory \<open>Recorder\<close> shows that the recorder of the program is one.

  A member of the quorum works on the shared state of the guardians: asking it yields what the quorum sees of it, and it may
  take part in the two callbacks. The field \<open>executor_measurements\<close> of the class is not read by it.
\<close>

section \<open>Definitions\<close>

record 'g member =
  qm_evaluate :: "action_request \<Rightarrow> 'g \<Rightarrow> guardian \<times> 'g"
  qm_record_denial :: "(string \<Rightarrow> 'g \<Rightarrow> 'g) option"
  qm_record_outcome :: "(action_request \<Rightarrow> string \<Rightarrow> int \<Rightarrow> 'g \<Rightarrow> unit res \<times> 'g) option"

record 'g intent_canonicalizer =
  it_policy :: static_policy
  it_quorum :: "'g member list"
  it_broker :: broker
  it_synthesizer :: synthesizer
  it_compiler :: compiler
  it_tool_actions :: "(string \<times> string list) list"

text \<open>
  What a call draws from its surroundings: the outcome of each append, by event type and position, the clocks, the random
  token of the capability, \<open>str(v)\<close> of a value that is no string and \<open>int(v)\<close> of a string or float.
\<close>

record 'e intent_env =
  ie_append :: "string \<Rightarrow> nat \<Rightarrow> 'e"
  ie_outcome_ms :: "nat \<Rightarrow> int"
  ie_compile_ms :: int
  ie_issue :: clock
  ie_token :: string
  ie_str :: "pyval \<Rightarrow> string"
  ie_int :: "pyval \<Rightarrow> int res"

definition py_str :: "('e, 'z) intent_env_scheme \<Rightarrow> pyval \<Rightarrow> string" where
  "py_str env v = (case v of PStr s \<Rightarrow> s | _ \<Rightarrow> ie_str env v)"

definition py_int :: "('e, 'z) intent_env_scheme \<Rightarrow> pyval \<Rightarrow> int res" where
  "py_int env v = (case v of
     PInt i \<Rightarrow> Inr i
   | PBool b \<Rightarrow> Inr (if b then 1 else 0)
   | PStr _ \<Rightarrow> ie_int env v
   | PFloat _ \<Rightarrow> ie_int env v
   | _ \<Rightarrow> Inl (TypeError ''int() argument must be a string or a real number''))"

subsection \<open>Events\<close>

definition received_event :: "host \<Rightarrow> action_request \<Rightarrow> dict res" where
  "received_event H r = bindE (request_digest H r) (\<lambda>d. Inr
     [(''request_id'', PStr (ar_request_id r)), (''session_id'', PStr (ar_session_id r)), (''agent_id'', PStr (ar_agent_id r)),
      (''operation'', PStr (ar_operation r)), (''resource_id'', PStr (ar_resource_id r)), (''executor_id'', PStr (ar_executor_id r)),
      (''request_digest'', PStr d)])"

definition decision_dict :: "guardian_decision \<Rightarrow> dict" where
  "decision_dict d = [(''guardian'', PStr (gd_guardian d)), (''allowed'', PBool (gd_allowed d)), (''reason'', PStr (gd_reason d)),
     (''evidence'', PDict (gd_evidence d)), (''request_digest'', PStr (gd_request_digest d))]"

definition issued_event :: "host \<Rightarrow> action_request \<Rightarrow> issued_capability \<Rightarrow> dict res" where
  "issued_event H r capability = (let c = ic_claims capability in
     bindE (digest H (PDict (claims_to_dict c))) (\<lambda>d. Inr
       [(''request_id'', PStr (ar_request_id r)), (''capability_id'', PStr (cc_capability_id c)), (''claims_digest'', PStr d),
        (''expires_at'', PInt (cc_expires_at c)), (''key_id'', PStr (ic_key_id capability)), (''device_id'', PStr (cc_device_id c)),
        (''executor_measurement'', PStr (cc_executor_measurement c)), (''policy_digest'', PStr (cc_policy_digest c)),
        (''request_digest'', PStr (cc_request_digest c)), (''attestation_digest'', PStr (cc_attestation_digest c)),
        (''attestation_bundle_digest'', PStr (cc_attestation_bundle_digest c)),
        (''verifier_policy_digest'', PStr (cc_verifier_policy_digest c)), (''task_fingerprint'', PStr (cc_task_fingerprint c)),
        (''compiled_ceiling_digest'', PStr (cc_compiled_ceiling_digest c)), (''provider_trust'', PStr (cc_provider_attested_trust c))]))"

definition log_event ::
  "('e \<Rightarrow> string \<Rightarrow> dict \<Rightarrow> 'l \<Rightarrow> unit res \<times> 'l) \<Rightarrow> ('e, 'z) intent_env_scheme \<Rightarrow> string \<Rightarrow> nat \<Rightarrow> dict \<Rightarrow> 'l \<times> 'g \<Rightarrow> unit res \<times> 'l \<times> 'g" where
  "log_event logger env name k payload s = (case logger (ie_append env name k) name payload (fst s) of (r, l) \<Rightarrow> (r, l, snd s))"

subsection \<open>Guardians\<close>

fun ask :: "'g member list \<Rightarrow> action_request \<Rightarrow> 'g \<Rightarrow> guardian list \<times> 'g" where
  "ask [] r g = ([], g)"
| "ask (m # ms) r g = (case qm_evaluate m r g of (v, g1) \<Rightarrow> (case ask ms r g1 of (vs, g2) \<Rightarrow> (v # vs, g2)))"

definition ask_quorum :: "'g member list \<Rightarrow> action_request \<Rightarrow> 'l \<times> 'g \<Rightarrow> guardian list res \<times> 'l \<times> 'g" where
  "ask_quorum ms r s = (case ask ms r (snd s) of (vs, g) \<Rightarrow> (Inr vs, fst s, g))"

definition report_outcome :: "'g member \<Rightarrow> action_request \<Rightarrow> string \<Rightarrow> int \<Rightarrow> 'l \<times> 'g \<Rightarrow> unit res \<times> 'l \<times> 'g" where
  "report_outcome m r outcome now s = (case qm_record_outcome m of
     None \<Rightarrow> (Inr (), s)
   | Some f \<Rightarrow> (case f r outcome now (snd s) of (x, g) \<Rightarrow> (x, fst s, g)))"

definition report_denial :: "'g member \<Rightarrow> action_request \<Rightarrow> int \<Rightarrow> 'l \<times> 'g \<Rightarrow> unit res \<times> 'l \<times> 'g" where
  "report_denial m r now s = report_outcome m r ''denied'' now
     (fst s, case qm_record_denial m of None \<Rightarrow> snd s | Some f \<Rightarrow> f (ar_session_id r) (snd s))"

subsection \<open>Granting\<close>

definition first_decision :: "string \<Rightarrow> guardian_decision list \<Rightarrow> guardian_decision res" where
  "first_decision name ds = (case filter (\<lambda>d. gd_guardian d = name) ds of [] \<Rightarrow> Inl (ExternalError ''StopIteration'') | d # _ \<Rightarrow> Inr d)"

text \<open>The reductions the guardians attached to their decisions.\<close>

definition decision_reductions :: "host \<Rightarrow> guardian_decision list \<Rightarrow> reduction list res" where
  "decision_reductions H ds = sequenceE (map (\<lambda>d. reduction_from_dict H (dict_get (gd_evidence d) ''authority_reduction''))
     (filter (\<lambda>d. map_of (gd_evidence d) ''authority_reduction'' \<noteq> None) ds))"

text \<open>From the decisions of an approving quorum to the capability: no state is touched.\<close>

definition grant ::
  "host \<Rightarrow> ed25519 \<Rightarrow> 'g intent_canonicalizer \<Rightarrow> ('e, 'z) intent_env_scheme \<Rightarrow> action_request \<Rightarrow> guardian_decision list
     \<Rightarrow> (issued_capability \<times> dict) res" where
  "grant H E ic env r ds =
     bindE (first_decision EXECUTOR_ATTESTATION_GUARDIAN ds) (\<lambda>att.
     bindE (dict_item (gd_evidence att) ''measurement'') (\<lambda>measurement.
     bindE (dict_item (gd_evidence att) ''device_id'') (\<lambda>device_id.
     bindE (dict_item (gd_evidence att) ''provider_trust_state'') (\<lambda>state.
     bindE (trust_state_from_dict H state) (\<lambda>trust.
     bindE (dict_item (gd_evidence att) ''attestation_result'') (\<lambda>result.
     bindE (py_dict result) (\<lambda>attestation_result.
     bindE (task_description_for_request H r (it_policy ic) trust (it_tool_actions ic) ''default'' ''synthetic'' None) (\<lambda>task.
     bindE (synthesize H (it_synthesizer ic) task) (\<lambda>candidate.
     bindE (decision_reductions H ds) (\<lambda>reductions.
     bindE (compile H (it_compiler ic) task candidate (map Some reductions) [] (ie_compile_ms env)) (\<lambda>ceiling.
     bindE (first_decision STATIC_POLICY_GUARDIAN ds) (\<lambda>pol.
     bindE (dict_item (gd_evidence pol) ''max_output_bytes'') (\<lambda>bytes.
     bindE (py_int env bytes) (\<lambda>max_output_bytes.
     bindE (policy_digest H (it_policy ic)) (\<lambda>pd.
     bindE (digest H (PList (map (\<lambda>d. PDict (decision_dict d)) ds))) (\<lambda>gd.
     bindE (issue H E (it_broker ic) r
              \<lparr>is_device_id = py_str env device_id, is_executor_measurement = py_str env measurement, is_policy_digest = pd,
               is_max_output_bytes = PInt max_output_bytes, is_guardian_state_digest = gd, is_audience = ''effect-executor'',
               is_decay_profile_version = ''v1''\<rparr>
              (Some trust) (Some ceiling) (ie_issue env) (ie_token env)) (\<lambda>capability.
     Inr (capability, attestation_result))))))))))))))))))"

subsection \<open>The intent membrane\<close>

definition refuse_request ::
  "('e \<Rightarrow> string \<Rightarrow> dict \<Rightarrow> 'l \<Rightarrow> unit res \<times> 'l) \<Rightarrow> ('e, 'z) intent_env_scheme \<Rightarrow> action_request \<Rightarrow> string \<Rightarrow> 'l \<times> 'g \<Rightarrow> 'a res \<times> 'l \<times> 'g" where
  "refuse_request logger env r reason = bindS (log_event logger env ''request.denied'' 0 [(''request_id'', PStr (ar_request_id r))])
     (\<lambda>_. liftS (Inl (AuthorizationDenied reason)))"

definition deny_request ::
  "('e \<Rightarrow> string \<Rightarrow> dict \<Rightarrow> 'l \<Rightarrow> unit res \<times> 'l) \<Rightarrow> 'g intent_canonicalizer \<Rightarrow> ('e, 'z) intent_env_scheme \<Rightarrow> action_request
     \<Rightarrow> 'l \<times> 'g \<Rightarrow> 'a res \<times> 'l \<times> 'g" where
  "deny_request logger ic env r =
     bindS (seqS (map (\<lambda>(k, m). report_denial m r (ie_outcome_ms env k)) (enumerate 0 (it_quorum ic))))
       (\<lambda>_. refuse_request logger env r ''guardian veto'')"

definition admit_request ::
  "host \<Rightarrow> ed25519 \<Rightarrow> ('e \<Rightarrow> string \<Rightarrow> dict \<Rightarrow> 'l \<Rightarrow> unit res \<times> 'l) \<Rightarrow> 'g intent_canonicalizer \<Rightarrow> ('e, 'z) intent_env_scheme
     \<Rightarrow> action_request \<Rightarrow> guardian_decision list \<Rightarrow> 'l \<times> 'g \<Rightarrow> (action_request \<times> issued_capability \<times> dict) res \<times> 'l \<times> 'g" where
  "admit_request H E logger ic env r ds =
     bindS (liftS (grant H E ic env r ds)) (\<lambda>(capability, attestation_result).
     bindS (liftS (issued_event H r capability)) (\<lambda>event.
     bindS (log_event logger env ''capability.issued'' 0 event) (\<lambda>_.
     bindS (seqS (map (\<lambda>(k, m). report_outcome m r ''allowed'' (ie_outcome_ms env k)) (enumerate 0 (it_quorum ic)))) (\<lambda>_.
     liftS (Inr (r, capability, attestation_result))))))"

text \<open>The request is recorded and its digest noted; then the quorum is asked and its decisions are recorded and judged.\<close>

definition receive_request ::
  "host \<Rightarrow> ('e \<Rightarrow> string \<Rightarrow> dict \<Rightarrow> 'l \<Rightarrow> unit res \<times> 'l) \<Rightarrow> ('e, 'z) intent_env_scheme \<Rightarrow> action_request \<Rightarrow> 'l \<times> 'g \<Rightarrow> string res \<times> 'l \<times> 'g" where
  "receive_request H logger env r =
     bindS (liftS (received_event H r)) (\<lambda>event.
     bindS (log_event logger env ''request.received'' 0 event) (\<lambda>_. liftS (request_digest H r)))"

definition record_decisions ::
  "('e \<Rightarrow> string \<Rightarrow> dict \<Rightarrow> 'l \<Rightarrow> unit res \<times> 'l) \<Rightarrow> ('e, 'z) intent_env_scheme \<Rightarrow> action_request \<Rightarrow> guardian_decision list
     \<Rightarrow> 'l \<times> 'g \<Rightarrow> unit res \<times> 'l \<times> 'g" where
  "record_decisions logger env r ds =
     seqS (map (\<lambda>(k, d). log_event logger env ''guardian.decision'' k ((''request_id'', PStr (ar_request_id r)) # decision_dict d))
       (enumerate 0 ds))"

definition judge_request ::
  "host \<Rightarrow> ed25519 \<Rightarrow> ('e \<Rightarrow> string \<Rightarrow> dict \<Rightarrow> 'l \<Rightarrow> unit res \<times> 'l) \<Rightarrow> 'g intent_canonicalizer \<Rightarrow> ('e, 'z) intent_env_scheme
     \<Rightarrow> action_request \<Rightarrow> string \<Rightarrow> guardian list \<Rightarrow> guardian_decision list
     \<Rightarrow> 'l \<times> 'g \<Rightarrow> (action_request \<times> issued_capability \<times> dict) res \<times> 'l \<times> 'g" where
  "judge_request H E logger ic env r approved views ds =
     bindS (liftS (request_digest H r)) (\<lambda>current.
     if current \<noteq> approved then refuse_request logger env r ''request changed during guardian evaluation''
     else bindS (record_decisions logger env r ds) (\<lambda>_.
       bindS (liftS (quorum_allowed views ds)) (\<lambda>ok.
       if \<not> ok then deny_request logger ic env r else admit_request H E logger ic env r ds)))"

definition request_capability ::
  "host \<Rightarrow> ed25519 \<Rightarrow> ('e \<Rightarrow> string \<Rightarrow> dict \<Rightarrow> 'l \<Rightarrow> unit res \<times> 'l) \<Rightarrow> 'g intent_canonicalizer \<Rightarrow> ('e, 'z) intent_env_scheme
     \<Rightarrow> pyval \<Rightarrow> 'l \<times> 'g \<Rightarrow> (action_request \<times> issued_capability \<times> dict) res \<times> 'l \<times> 'g" where
  "request_capability H E logger ic env payload = (case action_request_from_dict H payload of
     Inl (ValidationError m) \<Rightarrow>
       bindS (log_event logger env ''request.rejected'' 0 [(''reason'', PStr m), (''payload_digest_only'', PBool True)])
         (\<lambda>_. liftS (Inl (ValidationError m)))
   | Inl e \<Rightarrow> liftS (Inl e)
   | Inr r \<Rightarrow>
       bindS (receive_request H logger env r) (\<lambda>approved.
       bindS (ask_quorum (it_quorum ic) r) (\<lambda>views.
       bindS (liftS (quorum_evaluate H views r)) (\<lambda>ds. judge_request H E logger ic env r approved views ds))))"

text \<open>The quorum of the four guardians of the harness, over the state of the lineage guardian.\<close>

definition standard_members :: "host \<Rightarrow> static_policy \<Rightarrow> provider \<Rightarrow> lineage_limits \<Rightarrow> lineage_state member list" where
  "standard_members H p provider limits =
     [\<lparr>qm_evaluate = (\<lambda>r st. (guardian_of STATIC_POLICY_GUARDIAN (bindE (policy_digest H p) (\<lambda>d. Inr (Some d))) (policy_evaluate H p r), st)),
       qm_record_denial = None, qm_record_outcome = None\<rparr>,
      \<lparr>qm_evaluate = (\<lambda>r st. (guardian_of EXECUTOR_ATTESTATION_GUARDIAN (Inr None) (attestation_evaluate H provider r), st)),
       qm_record_denial = None, qm_record_outcome = None\<rparr>,
      \<lparr>qm_evaluate = (\<lambda>r st. (guardian_of LINEAGE_BUDGET_GUARDIAN (Inr None) (fst (lineage_evaluate H limits st r)),
                              snd (lineage_evaluate H limits st r))),
       qm_record_denial = Some (\<lambda>s st. record_denial st s), qm_record_outcome = None\<rparr>,
      \<lparr>qm_evaluate = (\<lambda>r st. (guardian_of BEHAVIORAL_TRANSITION_GUARDIAN (Inr None) (sequence_evaluate H r), st)),
       qm_record_denial = None, qm_record_outcome = None\<rparr>]"

section \<open>Lemmas\<close>

lemma log_event_state: "log_event logger env n k p s = (r, s') \<Longrightarrow> snd s' = snd s"
  by (auto simp: log_event_def split: prod.splits)

lemma log_events_state: "seqS (map (\<lambda>(k, d). log_event logger env n k (f d)) xs) s = (r, s') \<Longrightarrow> snd s' = snd s"
proof (induction xs arbitrary: s)
  case (Cons x xs)
  then show ?case
    by (cases "log_event logger env n (fst x) (f (snd x)) s")
      (auto simp: bindS_def case_prod_unfold dest: log_event_state split: sum.splits)
qed simp

lemma ask_quorum_Inr: "ask_quorum ms r s = (Inr vs, s') \<longleftrightarrow> ask ms r (snd s) = (vs, snd s') \<and> fst s' = fst s"
  by (cases s') (auto simp: ask_quorum_def split: prod.splits)

lemma refuse_request_Inl: "refuse_request logger env r reason s \<noteq> (Inr x, s')"
  by (auto simp: refuse_request_def state_simps)

lemma deny_request_Inl: "deny_request logger ic env r s \<noteq> (Inr x, s')"
  by (auto simp: deny_request_def bindS_Inr refuse_request_Inl)

lemma receive_request_state: "receive_request H logger env r s = (x, s') \<Longrightarrow> snd s' = snd s"
  by (cases "received_event H r"; cases "log_event logger env ''request.received'' 0 (projr (received_event H r)) s")
    (auto simp: receive_request_def bindS_def liftS_def dest: log_event_state split: sum.splits)

lemma judge_request_Inr:
  assumes "judge_request H E logger ic env r approved views ds s = (Inr x, s')"
  obtains s1 where "quorum_allowed views ds = Inr True" "admit_request H E logger ic env r ds s1 = (Inr x, s')" "snd s1 = snd s"
proof -
  from assms obtain s1 ok where 1: "record_decisions logger env r ds s = (Inr (), s1)" and 2: "quorum_allowed views ds = Inr ok"
    "(if \<not> ok then deny_request logger ic env r else admit_request H E logger ic env r ds) s1 = (Inr x, s')"
    unfolding judge_request_def by (auto simp: state_simps refuse_request_Inl split: if_splits)
  have "snd s1 = snd s" using 1 unfolding record_decisions_def by (rule log_events_state)
  then show thesis using that 2 by (cases ok) (auto simp: deny_request_Inl)
qed

text \<open>What lies behind a capability that is handed out.\<close>

lemma request_capability_Inr:
  assumes "request_capability H E logger ic env payload (l, g) = (Inr (r, capability, attestation), l', g')"
  obtains views g1 ds l1 where "action_request_from_dict H payload = Inr r" "ask (it_quorum ic) r g = (views, g1)"
    "quorum_evaluate H views r = Inr ds" "quorum_allowed views ds = Inr True"
    "grant H E ic env r ds = Inr (capability, attestation)"
    "seqS (map (\<lambda>(k, m). report_outcome m r ''allowed'' (ie_outcome_ms env k)) (enumerate 0 (it_quorum ic))) (l1, g1) = (Inr (), l', g')"
proof (cases "action_request_from_dict H payload")
  case (Inl e)
  then show thesis using assms by (cases e) (auto simp: request_capability_def state_simps)
next
  case (Inr q)
  from assms obtain approved s1 views s2 ds where
    f: "receive_request H logger env q (l, g) = (Inr approved, s1)" "ask (it_quorum ic) q (snd s1) = (views, snd s2)"
    "quorum_evaluate H views q = Inr ds" "judge_request H E logger ic env q approved views ds s2 = (Inr (r, capability, attestation), l', g')"
    by (auto simp: request_capability_def Inr state_simps ask_quorum_Inr)
  obtain s3 where j: "quorum_allowed views ds = Inr True" "snd s3 = snd s2"
    "admit_request H E logger ic env q ds s3 = (Inr (r, capability, attestation), l', g')"
    using f(4) by (rule judge_request_Inr)
  obtain s4 where "q = r" "grant H E ic env q ds = Inr (capability, attestation)" "snd s4 = snd s3"
    "seqS (map (\<lambda>(k, m). report_outcome m q ''allowed'' (ie_outcome_ms env k)) (enumerate 0 (it_quorum ic))) s4 = (Inr (), l', g')"
    using j(3) unfolding admit_request_def by (auto simp: state_simps dest!: log_event_state)
  then show thesis using that [of views "snd s2" ds "fst s4"] Inr f(2,3) j(1,2) receive_request_state [OF f(1)] by (cases s4) auto
qed

subsection \<open>Evidence\<close>

text \<open>The events of a list were recorded one after the other, each append succeeding, and nothing else was written.\<close>

fun appended :: "('e \<Rightarrow> string \<Rightarrow> dict \<Rightarrow> 'l \<Rightarrow> unit res \<times> 'l) \<Rightarrow> 'l \<Rightarrow> (string \<times> dict) list \<Rightarrow> 'l \<Rightarrow> bool" where
  "appended logger l [] l' \<longleftrightarrow> l' = l"
| "appended logger l ((name, payload) # evs) l' \<longleftrightarrow>
     (\<exists>e l1. logger e name payload l = (Inr (), l1) \<and> appended logger l1 evs l')"

text \<open>What an operation that ends with \<open>r\<close> leaves in the log: whole events, and after a failure at most one failed append.\<close>

definition left_behind :: "('e \<Rightarrow> string \<Rightarrow> dict \<Rightarrow> 'l \<Rightarrow> unit res \<times> 'l) \<Rightarrow> 'l \<Rightarrow> (string \<times> dict) list \<Rightarrow> 'a res \<Rightarrow> 'l \<Rightarrow> bool" where
  "left_behind logger l evs r l' \<longleftrightarrow> appended logger l evs l'
     \<or> (\<exists>l1 e name payload x. appended logger l evs l1 \<and> logger e name payload l1 = (Inl x, l') \<and> r = Inl x)"

lemma appended_append: "appended logger l (xs @ ys) l' \<longleftrightarrow> (\<exists>l1. appended logger l xs l1 \<and> appended logger l1 ys l')"
  by (induction logger l xs l' rule: appended.induct) auto

lemma log_event_Inr: "log_event logger env name k payload s = (Inr u, s') \<Longrightarrow> appended logger (fst s) [(name, payload)] (fst s')"
  by (auto simp: log_event_def split: prod.splits)

lemma log_events_appended:
  "seqS (map (\<lambda>(k, d). log_event logger env name k (f d)) (enumerate n ds)) s = (Inr u, s') \<Longrightarrow>
     appended logger (fst s) (map (\<lambda>d. (name, f d)) ds) (fst s')"
proof (induction ds arbitrary: s n)
  case (Cons d ds)
  then obtain v s1 where "log_event logger env name n (f d) s = (Inr v, s1)"
    "seqS (map (\<lambda>(k, d). log_event logger env name k (f d)) (enumerate (Suc n) ds)) s1 = (Inr u, s')"
    by (auto simp: state_simps)
  from log_event_Inr [OF this(1)] Cons.IH [OF this(2)] show ?case by auto
qed simp

lemma report_outcome_log: "report_outcome m r outcome now s = (x, s') \<Longrightarrow> fst s' = fst s"
  by (auto simp: report_outcome_def split: option.splits prod.splits)

lemma report_denial_log: "report_denial m r now s = (x, s') \<Longrightarrow> fst s' = fst s"
  by (auto simp: report_denial_def dest: report_outcome_log)

lemma seqS_log:
  assumes "\<And>m s x s'. m \<in> set ms \<Longrightarrow> m s = (x, s') \<Longrightarrow> fst s' = fst s" and "seqS ms s = (x, s')"
  shows "fst s' = fst s"
  using assms
proof (induction ms arbitrary: s)
  case (Cons m ms)
  obtain y s1 where y: "m s = (y, s1)" by (cases "m s")
  then have s1: "fst s1 = fst s" by (rule Cons.prems(1) [rotated]) simp
  show ?case
  proof (cases y)
    case (Inl e)
    then show ?thesis using y s1 Cons.prems(2) by (simp add: bindS_def)
  next
    case (Inr z)
    then have "seqS ms s1 = (x, s')" using y Cons.prems(2) by (simp add: bindS_def)
    then have "fst s' = fst s1" by (rule Cons.IH [rotated]) (auto intro: Cons.prems(1))
    then show ?thesis using s1 by simp
  qed
qed simp

definition quiet :: "('l \<times> 'g \<Rightarrow> 'a res \<times> 'l \<times> 'g) \<Rightarrow> bool" where
  "quiet m \<longleftrightarrow> (\<forall>s x s'. m s = (x, s') \<longrightarrow> fst s' = fst s)"

lemma quiet_seqS: "(\<And>k m. (k, m) \<in> set xs \<Longrightarrow> quiet (f k m)) \<Longrightarrow> quiet (seqS (map (\<lambda>(k, m). f k m) xs))"
  unfolding quiet_def by (intro allI impI, erule seqS_log [rotated]) fastforce

lemma quiet_reports:
  "quiet (seqS (map (\<lambda>(k, m). report_outcome m r outcome (f k)) xs))" "quiet (seqS (map (\<lambda>(k, m). report_denial m r (f k)) xs))"
  by (rule quiet_seqS, simp only: quiet_def, blast dest: report_outcome_log)
    (rule quiet_seqS, simp only: quiet_def, blast dest: report_denial_log)

text \<open>An operation that, however it ends, leaves whole events behind.\<close>

definition trails :: "('e \<Rightarrow> string \<Rightarrow> dict \<Rightarrow> 'l \<Rightarrow> unit res \<times> 'l) \<Rightarrow> ('l \<times> 'g \<Rightarrow> 'a res \<times> 'l \<times> 'g) \<Rightarrow> bool" where
  "trails logger m \<longleftrightarrow> (\<forall>s r s'. m s = (r, s') \<longrightarrow> (\<exists>evs. left_behind logger (fst s) evs r (fst s')))"

lemma trails_quiet: "quiet m \<Longrightarrow> trails logger m"
  unfolding trails_def quiet_def left_behind_def by (metis appended.simps(1))

lemma trails_liftS: "trails logger (liftS x)"
  by (rule trails_quiet) (simp add: quiet_def liftS_def)

lemma trails_ask: "trails logger (ask_quorum ms r)"
  by (rule trails_quiet) (auto simp: quiet_def ask_quorum_def split: prod.splits)

lemma trails_event: "trails logger (log_event logger env name k payload)"
  unfolding trails_def
proof (intro allI impI)
  fix s r s'
  assume l: "log_event logger env name k payload s = (r, s')"
  show "\<exists>evs. left_behind logger (fst s) evs r (fst s')"
  proof (cases r)
    case (Inl x)
    then have "logger (ie_append env name k) name payload (fst s) = (Inl x, fst s')" using l by (auto simp: log_event_def split: prod.splits)
    then have "appended logger (fst s) [] (fst s) \<and> logger (ie_append env name k) name payload (fst s) = (Inl x, fst s') \<and> r = Inl x"
      using Inl by simp
    then have "left_behind logger (fst s) [] r (fst s')" unfolding left_behind_def by (intro disjI2 exI)
    then show ?thesis ..
  next
    case (Inr u)
    then have "left_behind logger (fst s) [(name, payload)] r (fst s')" using log_event_Inr l unfolding left_behind_def by blast
    then show ?thesis ..
  qed
qed

lemma trails_bindS:
  assumes m: "trails logger m" and f: "\<And>x. trails logger (f x)"
  shows "trails logger (bindS m f)"
  unfolding trails_def
proof (intro allI impI)
  fix s r s'
  assume b: "bindS m f s = (r, s')"
  obtain y s1 where y: "m s = (y, s1)" by (cases "m s")
  then obtain evs where evs: "left_behind logger (fst s) evs y (fst s1)" using m unfolding trails_def by blast
  show "\<exists>evs. left_behind logger (fst s) evs r (fst s')"
  proof (cases y)
    case (Inl e)
    then have "r = Inl e" "s' = s1" using b y by (simp_all add: bindS_def)
    then have "left_behind logger (fst s) evs r (fst s')" using evs Inl by (simp add: left_behind_def)
    then show ?thesis ..
  next
    case (Inr z)
    then have "f z s1 = (r, s')" "appended logger (fst s) evs (fst s1)" using b y evs by (simp_all add: bindS_def left_behind_def)
    moreover then obtain evs' where "left_behind logger (fst s1) evs' r (fst s')" using f unfolding trails_def by blast
    ultimately have "left_behind logger (fst s) (evs @ evs') r (fst s')" unfolding left_behind_def appended_append by blast
    then show ?thesis ..
  qed
qed

lemma trails_seqS: "(\<And>m. m \<in> set ms \<Longrightarrow> trails logger m) \<Longrightarrow> trails logger (seqS ms)"
proof (induction ms)
  case Nil
  show ?case by (rule trails_quiet) (simp add: quiet_def)
next
  case (Cons m ms)
  then have "trails logger (bindS m (\<lambda>_. seqS ms))" by (intro trails_bindS) auto
  moreover have "seqS (m # ms) = bindS m (\<lambda>_. seqS ms)" by (rule ext) simp
  ultimately show ?case by simp
qed

lemmas trails_intros = trails_bindS trails_event trails_liftS trails_ask trails_quiet [OF quiet_reports(1)] trails_quiet [OF quiet_reports(2)]

lemma trails_request: "trails logger (request_capability H E logger ic env payload)"
proof -
  have decisions: "trails logger (record_decisions logger env r ds)" for r ds
    unfolding record_decisions_def by (rule trails_seqS) (auto intro: trails_event)
  have refuse: "trails logger (refuse_request logger env r reason)" for r reason
    unfolding refuse_request_def by (intro trails_intros)
  have deny: "trails logger (deny_request logger ic env r)" for r
    unfolding deny_request_def by (intro trails_intros refuse)
  have admit: "trails logger (admit_request H E logger ic env r ds)" for r ds
    unfolding admit_request_def case_prod_unfold
    by (intro trails_intros trails_quiet [OF quiet_reports(1) [unfolded case_prod_unfold]])
  have judge: "trails logger (judge_request H E logger ic env r approved views ds)" for r approved views ds
    unfolding judge_request_def by (intro trails_intros decisions) (auto intro!: trails_intros decisions simp: refuse deny admit)
  have receive: "trails logger (receive_request H logger env r)" for r
    unfolding receive_request_def by (intro trails_intros)
  have accepted: "action_request_from_dict H payload = Inr r \<Longrightarrow> ?thesis" for r
    by (auto simp: request_capability_def intro!: trails_intros receive judge)
  show ?thesis
  proof (cases "action_request_from_dict H payload")
    case (Inl e)
    then show ?thesis by (cases e) (auto simp: request_capability_def intro: trails_intros)
  qed (rule accepted)
qed

text \<open>The events behind a capability that is handed out, in their order.\<close>

definition issuance_trail :: "action_request \<Rightarrow> dict \<Rightarrow> guardian_decision list \<Rightarrow> dict \<Rightarrow> (string \<times> dict) list" where
  "issuance_trail r received ds issued =
     (''request.received'', received)
       # map (\<lambda>d. (''guardian.decision'', (''request_id'', PStr (ar_request_id r)) # decision_dict d)) ds
       @ [(''capability.issued'', issued)]"

definition rejected_event :: "string \<Rightarrow> dict" where
  "rejected_event m = [(''reason'', PStr m), (''payload_digest_only'', PBool True)]"

lemma request_rejected_trail:
  assumes "action_request_from_dict H payload = Inl (ValidationError m)"
    and "request_capability H E logger ic env payload (l, g) = (result, l', g')"
  shows "appended logger l [(''request.rejected'', rejected_event m)] l' \<and> result = Inl (ValidationError m)
    \<or> (\<exists>e x. logger e ''request.rejected'' (rejected_event m) l = (Inl x, l') \<and> result = Inl x)"
proof -
  obtain x l1 where x: "logger (ie_append env ''request.rejected'' 0) ''request.rejected'' (rejected_event m) l = (x, l1)"
    by (metis surj_pair)
  then have "(result, l', g') = (case x of Inl e \<Rightarrow> Inl e | Inr _ \<Rightarrow> Inl (ValidationError m), l1, g)"
    using assms by (cases x) (simp_all add: request_capability_def log_event_def bindS_def liftS_def rejected_event_def)
  then show ?thesis using x by (cases x) auto
qed

lemma request_capability_trail:
  assumes "request_capability H E logger ic env payload (l, g) = (Inr (r, capability, attestation), l', g')"
  shows "\<exists>views g1 ds received issued. action_request_from_dict H payload = Inr r \<and> ask (it_quorum ic) r g = (views, g1)
    \<and> quorum_evaluate H views r = Inr ds \<and> quorum_allowed views ds = Inr True
    \<and> received_event H r = Inr received \<and> issued_event H r capability = Inr issued
    \<and> appended logger l (issuance_trail r received ds issued) l'"
proof (cases "action_request_from_dict H payload")
  case (Inl e)
  then show ?thesis using assms by (cases e) (auto simp: request_capability_def state_simps)
next
  case (Inr q)
  from assms obtain approved s1 views s2 ds where
    f: "receive_request H logger env q (l, g) = (Inr approved, s1)" "ask (it_quorum ic) q (snd s1) = (views, snd s2)" "fst s2 = fst s1"
    "quorum_evaluate H views q = Inr ds" "judge_request H E logger ic env q approved views ds s2 = (Inr (r, capability, attestation), l', g')"
    by (auto simp: request_capability_def Inr state_simps ask_quorum_Inr)
  obtain received where rec: "received_event H q = Inr received" "appended logger l [(''request.received'', received)] (fst s1)"
    using f(1) unfolding receive_request_def by (auto simp: state_simps dest!: log_event_Inr)
  have g: "snd s1 = g" using receive_request_state [OF f(1)] by simp
  from f(5) obtain s3 ok where d: "record_decisions logger env q ds s2 = (Inr (), s3)" and ok: "quorum_allowed views ds = Inr ok"
    "(if \<not> ok then deny_request logger ic env q else admit_request H E logger ic env q ds) s3 = (Inr (r, capability, attestation), l', g')"
    unfolding judge_request_def by (auto simp: state_simps refuse_request_Inl split: if_splits)
  have ok': ok using ok(2) by (cases ok) (simp_all add: deny_request_Inl)
  then have "admit_request H E logger ic env q ds s3 = (Inr (r, capability, attestation), l', g')" using ok(2) by simp
  then obtain event s4 where a: "issued_event H q capability = Inr event" "q = r"
    "log_event logger env ''capability.issued'' 0 event s3 = (Inr (), s4)"
    "seqS (map (\<lambda>(k, m). report_outcome m q ''allowed'' (ie_outcome_ms env k)) (enumerate 0 (it_quorum ic))) s4 = (Inr (), l', g')"
    unfolding admit_request_def by (auto simp: state_simps)
  have l': "l' = fst s4" using a(4) quiet_reports(1) unfolding quiet_def by fastforce
  have "appended logger (fst s1) (map (\<lambda>d. (''guardian.decision'', (''request_id'', PStr (ar_request_id q)) # decision_dict d)) ds) (fst s3)"
    using d f(3) unfolding record_decisions_def by (metis log_events_appended)
  then have "appended logger l ([(''request.received'', received)] @
      map (\<lambda>d. (''guardian.decision'', (''request_id'', PStr (ar_request_id q)) # decision_dict d)) ds @ [(''capability.issued'', event)]) l'"
    unfolding appended_append l' using rec(2) log_event_Inr [OF a(3)] by blast
  then have "appended logger l (issuance_trail q received ds event) l'" by (simp add: issuance_trail_def)
  then show ?thesis using Inr f(2,4) g ok(1) ok' rec(1) a(1,2) by auto
qed

context evidence_log
begin

lemma appended_records: "appended append l evs l' \<Longrightarrow> extends l l' \<and> recorded l' = recorded l + int (length evs)"
proof (induction evs arbitrary: l)
  case (Cons ev evs)
  obtain name payload where ev: "ev = (name, payload)" by (cases ev)
  from Cons.prems obtain e l1 where a: "append e name payload l = (Inr (), l1)" "appended append l1 evs l'" unfolding ev by auto
  show ?case using append_extends [OF a(1)] append_records [OF a(1)] Cons.IH [OF a(2)] extends_trans by auto
qed (simp add: extends_refl)

lemma left_behind_records: "left_behind append l evs r l' \<Longrightarrow> extends l l' \<and> recorded l + int (length evs) \<le> recorded l'"
  unfolding left_behind_def
proof (elim disjE exE conjE)
  assume "appended append l evs l'"
  then show ?thesis using appended_records by simp
next
  fix l1 e name payload x
  assume "appended append l evs l1" and a: "append e name payload l1 = (Inl x, l')"
  then have "extends l l1" "recorded l1 = recorded l + int (length evs)" using appended_records by simp_all
  then show ?thesis using append_extends [OF a] append_mono [OF a] extends_trans by auto
qed

end

subsection \<open>The quorum of the harness\<close>

lemma ask_standard:
  "ask (standard_members H p provider limits) r st = (standard_guardians H p provider limits st r, snd (lineage_evaluate H limits st r))"
  by (simp add: standard_members_def standard_guardians_def)

lemma report_standard:
  "seqS (map (\<lambda>(k, m). report_outcome m r outcome (f k)) (enumerate 0 (standard_members H p provider limits))) s = (Inr (), s)"
  by (simp add: standard_members_def report_outcome_def bindS_def)

lemma evaluate_one_guardian_of:
  assumes "evaluate_one H (guardian_of name pd res) r = Inr d" and "gd_allowed d"
  shows "res = Inr d"
  using assms
  by (cases res) (auto simp: evaluate_one_def guardian_of_def Let_def decide_Inr_iff bindE_Inr_iff decision_of_def reply_ok_def guardian_name_def
      split: if_splits)

text \<open>The decisions of an approving quorum are those of the four guardians.\<close>

lemma standard_decisions:
  assumes "quorum_evaluate H (standard_guardians H p provider limits st r) r = Inr ds"
    and "quorum_allowed (standard_guardians H p provider limits st r) ds = Inr True"
  obtains d1 d2 d3 d4 where "ds = [d1, d2, d3, d4]" "policy_evaluate H p r = Inr d1" "attestation_evaluate H provider r = Inr d2"
    "fst (lineage_evaluate H limits st r) = Inr d3" "sequence_evaluate H r = Inr d4" "list_all gd_allowed ds"
    "map gd_guardian ds = [STATIC_POLICY_GUARDIAN, EXECUTOR_ATTESTATION_GUARDIAN, LINEAGE_BUDGET_GUARDIAN, BEHAVIORAL_TRANSITION_GUARDIAN]"
proof -
  note sound = quorum_sound [OF assms]
  have all: "list_all gd_allowed ds" using assms(2) by (auto simp: quorum_allowed_iff)
  obtain d1 d2 d3 d4 where ds: "ds = [d1, d2, d3, d4]" and e:
    "evaluate_one H (guardian_of STATIC_POLICY_GUARDIAN (bindE (policy_digest H p) (\<lambda>d. Inr (Some d))) (policy_evaluate H p r)) r = Inr d1"
    "evaluate_one H (guardian_of EXECUTOR_ATTESTATION_GUARDIAN (Inr None) (attestation_evaluate H provider r)) r = Inr d2"
    "evaluate_one H (guardian_of LINEAGE_BUDGET_GUARDIAN (Inr None) (fst (lineage_evaluate H limits st r))) r = Inr d3"
    "evaluate_one H (guardian_of BEHAVIORAL_TRANSITION_GUARDIAN (Inr None) (sequence_evaluate H r)) r = Inr d4"
    using sound(3) by (auto simp: standard_guardians_def Cons_eq_map_conv)
  have "map gd_guardian ds = [STATIC_POLICY_GUARDIAN, EXECUTOR_ATTESTATION_GUARDIAN, LINEAGE_BUDGET_GUARDIAN, BEHAVIORAL_TRANSITION_GUARDIAN]"
    using sound(2) by (simp add: standard_guardians_def guardian_of_def guardian_name_def)
  then show thesis using that [OF ds] e all ds by (auto dest!: evaluate_one_guardian_of)
qed

lemma grant_standard:
  assumes g: "grant H E ic env r ds = Inr (capability, attestation)"
    and ds: "ds = [d1, d2, d3, d4]" and names: "map gd_guardian ds = [STATIC_POLICY_GUARDIAN, EXECUTOR_ATTESTATION_GUARDIAN,
      LINEAGE_BUDGET_GUARDIAN, BEHAVIORAL_TRANSITION_GUARDIAN]"
    and ev1: "gd_evidence d1 = [(''max_output_bytes'', PInt bytes), (''policy_digest'', PStr pd')]"
    and ev2: "gd_evidence d2 = attestation_evidence ev m t" "dict_get ev ''deviceId'' = PStr device"
  obtains pd gd trust task candidate reductions ceiling where "policy_digest H (it_policy ic) = Inr pd"
    "trust_state_from_dict H (PDict (trust_state_to_dict t)) = Inr trust" "attestation = ev"
    "compile H (it_compiler ic) task candidate (map Some reductions) [] (ie_compile_ms env) = Inr ceiling"
    "issue H E (it_broker ic) r
       \<lparr>is_device_id = device, is_executor_measurement = py_str env m, is_policy_digest = pd, is_max_output_bytes = PInt bytes,
        is_guardian_state_digest = gd, is_audience = ''effect-executor'', is_decay_profile_version = ''v1''\<rparr>
       (Some trust) (Some ceiling) (ie_issue env) (ie_token env) = Inr capability"
proof -
  have first: "first_decision EXECUTOR_ATTESTATION_GUARDIAN ds = Inr d2" "first_decision STATIC_POLICY_GUARDIAN ds = Inr d1"
    using names by (simp_all add: first_decision_def ds guardian_names)
  have items: "dict_item (gd_evidence d2) ''measurement'' = Inr m" "dict_item (gd_evidence d2) ''device_id'' = Inr (PStr device)"
    "dict_item (gd_evidence d2) ''provider_trust_state'' = Inr (PDict (trust_state_to_dict t))"
    "dict_item (gd_evidence d2) ''attestation_result'' = Inr (PDict ev)" "dict_item (gd_evidence d1) ''max_output_bytes'' = Inr (PInt bytes)"
    by (simp_all add: ev1 ev2 attestation_evidence_def dict_item_def)
  have py: "py_dict (PDict ev) = Inr ev" "py_int env (PInt bytes) = Inr bytes" "py_str env (PStr s) = s" for s
    by (simp_all add: py_dict_def py_int_def py_str_def)
  show thesis
    using g unfolding grant_def first items bindE.simps py bindE_Inr_iff by (elim exE conjE) (rule that; simp)
qed

text \<open>What the broker put into the capability.\<close>

lemma issued_grant:
  assumes "issue H E b r i (Some trust) (Some ceiling) now token = Inr capability"
  shows "request_digest H r = Inr (cc_request_digest (ic_claims capability)) \<and> cc_policy_digest (ic_claims capability) = is_policy_digest i
    \<and> cc_device_id (ic_claims capability) = is_device_id i \<and> cc_invocation_limit (ic_claims capability) = 1
    \<and> cc_max_output_bytes (ic_claims capability) = int_of (is_max_output_bytes i)
    \<and> cc_expires_at (ic_claims capability) \<le> cc_issued_at (ic_claims capability) + bk_ttl_ms b
    \<and> (\<exists>ceiling. permits H ceiling r = Inr True \<and> cc_compiled_ceiling_digest (ic_claims capability) = cp_compiled_digest ceiling
         \<and> cc_expires_at (ic_claims capability) \<le> cp_expires_at_ms ceiling)"
  using assms
proof (cases rule: issue_cases)
  case (1 t c issued_at expires_at rd ad profile pd authority_dg refresh_dg claims message)
  have "ic_claims capability = claims" using 1(15) by (auto simp: issued_capability_init_iff)
  then show ?thesis using 1(4,6) issue_checks_Inr [OF 1(5)] unfolding 1(13) by (auto simp: issued_claims_def)
qed

section \<open>Properties\<close>

text \<open>
  C2: from intent to authority. When \<open>request_capability\<close> of a canonicalizer with the four guardians hands out a capability,
  the payload is a valid request that the static policy permits and that is no escape primitive, its session had budget
  and has now one request less, and the provider attested the requested executor; the capability is for one invocation of
  exactly this request under this policy and on this device, within the output limit of the rule and the lifetime of broker and
  ceiling, and the compiled ceiling it carries permits the request.
\<close>

theorem request_capability_sound:
  assumes "request_capability H E logger ic env payload (l, st) = (Inr (r, capability, attestation), l', st')"
    and "it_quorum ic = standard_members H (it_policy ic) provider limits"
  shows "action_request_from_dict H payload = Inr r \<and> policy_permits (it_policy ic) r \<and> ar_operation r \<notin> set suspicious_operations
    \<and> count_of (lb_requests st) (ar_session_id r) < lb_max_requests limits
    \<and> count_of (lb_requests st') (ar_session_id r) = count_of (lb_requests st) (ar_session_id r) + 1
    \<and> (\<exists>v. provider (ar_executor_id r) (ar_session_id r) (ar_purpose r) = Inr v \<and> py_dict v = Inr attestation)
    \<and> request_digest H r = Inr (cc_request_digest (ic_claims capability))
    \<and> policy_digest H (it_policy ic) = Inr (cc_policy_digest (ic_claims capability))
    \<and> cc_device_id (ic_claims capability) = ar_executor_id r \<and> cc_invocation_limit (ic_claims capability) = 1
    \<and> (\<exists>rule. map_of (sp_operations (it_policy ic)) (ar_operation r) = Some rule
         \<and> cc_max_output_bytes (ic_claims capability) = or_max_output_bytes rule)
    \<and> cc_expires_at (ic_claims capability) \<le> cc_issued_at (ic_claims capability) + bk_ttl_ms (it_broker ic)
    \<and> (\<exists>ceiling. permits H ceiling r = Inr True \<and> cc_compiled_ceiling_digest (ic_claims capability) = cp_compiled_digest ceiling
         \<and> cc_expires_at (ic_claims capability) \<le> cp_expires_at_ms ceiling)"
proof -
  let ?p = "it_policy ic"
  obtain views g1 ds l1 where f: "action_request_from_dict H payload = Inr r" "ask (it_quorum ic) r st = (views, g1)"
    "quorum_evaluate H views r = Inr ds" "quorum_allowed views ds = Inr True" "grant H E ic env r ds = Inr (capability, attestation)"
    "seqS (map (\<lambda>(k, m). report_outcome m r ''allowed'' (ie_outcome_ms env k)) (enumerate 0 (it_quorum ic))) (l1, g1) = (Inr (), l', st')"
    using assms(1) by (rule request_capability_Inr)
  have v: "views = standard_guardians H ?p provider limits st r" "st' = snd (lineage_evaluate H limits st r)"
    using f(2,6) unfolding assms(2) ask_standard report_standard by simp_all
  obtain d1 d2 d3 d4 where d: "ds = [d1, d2, d3, d4]" "policy_evaluate H ?p r = Inr d1" "attestation_evaluate H provider r = Inr d2"
    "fst (lineage_evaluate H limits st r) = Inr d3" "sequence_evaluate H r = Inr d4" "list_all gd_allowed ds"
    and names: "map gd_guardian ds = [STATIC_POLICY_GUARDIAN, EXECUTOR_ATTESTATION_GUARDIAN, LINEAGE_BUDGET_GUARDIAN, BEHAVIORAL_TRANSITION_GUARDIAN]"
    using f(3,4) unfolding v(1) by (rule standard_decisions)
  have al: "gd_allowed d1" "gd_allowed d2" "gd_allowed d3" "gd_allowed d4" using d(1,6) by simp_all
  obtain w ev m where ev: "provider (ar_executor_id r) (ar_session_id r) (ar_purpose r) = Inr w" "py_dict w = Inr ev"
    "attestation_decide H r ev m = Inr d2"
    using d(3) al(2) by (rule attestation_evaluate_allowed)
  obtain t where t: "gd_evidence d2 = attestation_evidence ev m t" "dict_get ev ''deviceId'' = PStr (ar_executor_id r)"
    using attestation_decide_allowed [OF ev(3) al(2)] by blast
  obtain rule pd0 where rule: "map_of (sp_operations ?p) (ar_operation r) = Some rule"
    "gd_evidence d1 = [(''max_output_bytes'', PInt (or_max_output_bytes rule)), (''policy_digest'', PStr pd0)]"
    using policy_evaluate_evidence [OF d(2) al(1)] by blast
  obtain pd gd trust ceiling where g: "policy_digest H ?p = Inr pd" "attestation = ev"
    "issue H E (it_broker ic) r \<lparr>is_device_id = ar_executor_id r, is_executor_measurement = py_str env m, is_policy_digest = pd,
       is_max_output_bytes = PInt (or_max_output_bytes rule), is_guardian_state_digest = gd, is_audience = ''effect-executor'',
       is_decay_profile_version = ''v1''\<rparr> (Some trust) (Some ceiling) (ie_issue env) (ie_token env) = Inr capability"
    using f(5) d(1) names rule(2) t by (rule grant_standard)
  have lineage: "count_of (lb_requests st) (ar_session_id r) < lb_max_requests limits"
    "count_of (lb_requests st') (ar_session_id r) = count_of (lb_requests st) (ar_session_id r) + 1"
    using d(4) al(3) unfolding v(2) by (cases rule: lineage_evaluate_cases [of H limits st r]; auto simp: res_simps)+
  have "policy_permits ?p r" using policy_evaluate_binding(3) [OF d(2)] al(1) by blast
  moreover have "ar_operation r \<notin> set suspicious_operations"
    using d(5) al(4) by (auto simp: sequence_evaluate_def res_simps split: if_splits)
  ultimately show ?thesis
    using f(1) lineage ev(1,2) g(1,2) rule(1) issued_grant [OF g(3)] by simp
qed

definition demo_untyped :: synthesizer where
  "demo_untyped = demo_synthesizer\<lparr>sy_templates := [('''', snd (hd (sy_templates demo_synthesizer)))]\<rparr>"

definition demo_untyped_task :: task_description where
  "demo_untyped_task = demo_task\<lparr>td_task_type := None\<rparr>"

lemma demo_task_for_request:
  "task_description_for_request demo_host demo_request demo_policy demo_trust [(''reader'', [''read''])] ''default'' ''synthetic'' None
     = Inr demo_untyped_task"
  by code_simp

lemma demo_untyped_fingerprint: "task_fingerprint demo_host demo_untyped_task = Inr demo_digest"
  unfolding task_fingerprint_def by (rule digest_demo) code_simp

lemma demo_untyped_synthesis: "synthesize demo_host demo_untyped demo_untyped_task = Inr demo_candidate"
proof -
  have fp: "task_fingerprint demo_host demo_untyped_task = task_fingerprint demo_host demo_task"
    by (simp add: demo_untyped_fingerprint demo_fingerprint)
  have "from_template demo_host demo_untyped demo_untyped_task pt b False = from_template demo_host demo_synthesizer demo_task pt b False" for pt b
    unfolding from_template_def fp
    by (simp add: template_candidate_def template_tools_def template_bindings_def sensitive_task_def)
      (simp add: demo_untyped_def demo_untyped_task_def)
  moreover have "map_of (sy_templates demo_untyped) '''' = Some (snd (hd (sy_templates demo_synthesizer)))"
    "map_of (sy_templates demo_synthesizer) ''reading'' = Some (snd (hd (sy_templates demo_synthesizer)))"
    "sy_mode demo_untyped = Rule" "sy_mode demo_synthesizer = Rule" "td_task_type demo_untyped_task = None" "td_task_type demo_task = Some ''reading''"
    by (simp_all add: demo_untyped_def demo_synthesizer_def demo_untyped_task_def demo_task_def)
  ultimately have "synthesize demo_host demo_untyped demo_untyped_task = synthesize demo_host demo_synthesizer demo_task"
    by (simp add: synthesize_def from_known_template_def)
  then show ?thesis by (simp add: demo_synthesis)
qed

lemma demo_untyped_compile:
  "compile demo_host demo_compiler demo_untyped_task demo_candidate [] [] 100000 = Inr (demo_ceiling 4)"
proof -
  have fields: "td_task_id demo_untyped_task = td_task_id demo_task"
    "td_requesting_subject demo_untyped_task = td_requesting_subject demo_task"
    "td_workload_identity demo_untyped_task = td_workload_identity demo_task"
    "td_tenant demo_untyped_task = td_tenant demo_task"
    "td_environment demo_untyped_task = td_environment demo_task"
    "td_available_tools demo_untyped_task = td_available_tools demo_task"
    "td_available_resources demo_untyped_task = td_available_resources demo_task"
    "td_data_classification demo_untyped_task = td_data_classification demo_task"
    "td_global_policy_version demo_untyped_task = td_global_policy_version demo_task"
    "td_provider_attested_trust demo_untyped_task = td_provider_attested_trust demo_task"
    "td_requested_completion_deadline_ms demo_untyped_task = td_requested_completion_deadline_ms demo_task"
    "td_human_approval_requirements demo_untyped_task = td_human_approval_requirements demo_task"
    by (simp_all add: demo_untyped_task_def)
  have "compile demo_host demo_compiler demo_untyped_task demo_candidate [] [] 100000 = compile demo_host demo_compiler demo_task demo_candidate [] [] 100000"
    unfolding compile_def compile_guards_def binding_guard_def trust_guards_def required_gates_def compile_finish_def ceiling_record_def
      ceiling_expiry_def demo_untyped_fingerprint demo_fingerprint fields ..
  then show ?thesis by (simp add: demo_compile)
qed

definition demo_intent :: "lineage_state intent_canonicalizer" where
  "demo_intent = \<lparr>it_policy = demo_policy, it_quorum = standard_members demo_host demo_policy demo_provider demo_limits,
     it_broker = demo_broker, it_synthesizer = demo_untyped, it_compiler = demo_compiler, it_tool_actions = [(''reader'', [''read''])]\<rparr>"

definition demo_intent_env :: "unit intent_env" where
  "demo_intent_env = \<lparr>ie_append = (\<lambda>_ _. ()), ie_outcome_ms = (\<lambda>_. 100000), ie_compile_ms = 100000, ie_issue = Millis 100000,
     ie_token = demo_token, ie_str = (\<lambda>_. []), ie_int = (\<lambda>_. Inr 0)\<rparr>"

definition demo_request_payload :: pyval where
  "demo_request_payload = PDict [(''request_id'', PStr ''r1''), (''session_id'', PStr ''s1''), (''agent_id'', PStr ''a1''),
     (''operation'', PStr ''read''), (''resource_id'', PStr ''x''), (''executor_id'', PStr ''e1''),
     (''arguments'', PDict [(''n'', PInt 3), (''k'', PList [PStr ''v''])]), (''purpose'', PStr ''p'')]"

text \<open>A log that always accepts.\<close>

definition list_log :: "unit \<Rightarrow> string \<Rightarrow> dict \<Rightarrow> string list \<Rightarrow> unit res \<times> string list" where
  "list_log e name payload l = (Inr (), l @ [name])"

definition demo_decisions :: "guardian_decision list" where
  "demo_decisions = [\<lparr>gd_guardian = STATIC_POLICY_GUARDIAN, gd_allowed = True, gd_reason = ''static policy permits exact request'',
      gd_evidence = [(''max_output_bytes'', PInt 4096), (''policy_digest'', PStr demo_digest)], gd_request_digest = demo_digest\<rparr>,
     \<lparr>gd_guardian = EXECUTOR_ATTESTATION_GUARDIAN, gd_allowed = True, gd_reason = ''executor identity and measurement verified'',
      gd_evidence = attestation_evidence demo_attestation (PStr demo_digest) demo_trust, gd_request_digest = demo_digest\<rparr>,
     \<lparr>gd_guardian = LINEAGE_BUDGET_GUARDIAN, gd_allowed = True, gd_reason = ''lineage budget available'',
      gd_evidence = [(''used'', PInt 1)], gd_request_digest = demo_digest\<rparr>,
     \<lparr>gd_guardian = BEHAVIORAL_TRANSITION_GUARDIAN, gd_allowed = True, gd_reason = ''no prohibited transition detected'',
      gd_evidence = [], gd_request_digest = demo_digest\<rparr>]"

lemma demo_grant:
  obtains capability where
    "grant demo_host demo_ed25519 demo_intent demo_intent_env demo_request demo_decisions = Inr (capability, demo_attestation)"
proof -
  let ?ds = demo_decisions
  have first: "first_decision EXECUTOR_ATTESTATION_GUARDIAN ?ds = Inr (?ds ! 1)" "first_decision STATIC_POLICY_GUARDIAN ?ds = Inr (?ds ! 0)"
    by (simp_all add: first_decision_def demo_decisions_def guardian_names)
  have items: "dict_item (gd_evidence (?ds ! 1)) ''measurement'' = Inr (PStr demo_digest)"
    "dict_item (gd_evidence (?ds ! 1)) ''device_id'' = Inr (PStr ''e1'')"
    "dict_item (gd_evidence (?ds ! 1)) ''provider_trust_state'' = Inr (PDict (trust_state_to_dict demo_trust))"
    "dict_item (gd_evidence (?ds ! 1)) ''attestation_result'' = Inr (PDict demo_attestation)"
    "dict_item (gd_evidence (?ds ! 0)) ''max_output_bytes'' = Inr (PInt 4096)"
    by (simp_all add: demo_decisions_def attestation_evidence_def dict_item_def) (simp add: demo_attestation_def demo_unsigned_attestation_def)
  have red: "decision_reductions demo_host ?ds = Inr []"
    by (simp add: decision_reductions_def demo_decisions_def attestation_evidence_def)
  have trust: "trust_state_from_dict demo_host (PDict (trust_state_to_dict demo_trust)) = Inr demo_trust" by code_simp
  have state: "digest demo_host (PList (map (\<lambda>d. PDict (decision_dict d)) ?ds)) = Inr demo_digest"
    by (rule digest_demo) code_simp
  have parts: "it_policy demo_intent = demo_policy" "it_tool_actions demo_intent = [(''reader'', [''read''])]" "it_synthesizer demo_intent = demo_untyped"
    "it_compiler demo_intent = demo_compiler" "it_broker demo_intent = demo_broker" "ie_compile_ms demo_intent_env = 100000"
    "ie_issue demo_intent_env = Millis 100000" "ie_token demo_intent_env = demo_token"
    by (simp_all add: demo_intent_def demo_intent_env_def)
  have py: "py_dict (PDict m) = Inr m" "py_int demo_intent_env (PInt i) = Inr i" "py_str demo_intent_env (PStr s) = s" for m i s
    by (simp_all add: py_dict_def py_int_def py_str_def)
  obtain capability where "issue demo_host demo_ed25519 demo_broker demo_request demo_issuance (Some demo_trust) (Some (demo_ceiling 4))
      (Millis 100000) demo_token = Inr capability" by (rule demo_issue)
  then have "grant demo_host demo_ed25519 demo_intent demo_intent_env demo_request ?ds = Inr (capability, demo_attestation)"
    unfolding grant_def first items bindE.simps trust py parts demo_task_for_request demo_untyped_synthesis red demo_policy_digest state list.map
      demo_untyped_compile
    by (simp add: demo_issuance_def)
  then show thesis by (rule that)
qed

lemma demo_guardian_decisions:
  "quorum_evaluate demo_host demo_guardians demo_request = Inr demo_decisions" "quorum_allowed demo_guardians demo_decisions = Inr True"
proof -
  obtain ds where ds: "quorum_evaluate demo_host demo_guardians demo_request = Inr ds" "quorum_allowed demo_guardians ds = Inr True"
    using demo_quorum by blast
  have lin: "fst (lineage_evaluate demo_host demo_limits lineage_start demo_request) = Inr (demo_decisions ! 2)"
    and seq: "sequence_evaluate demo_host demo_request = Inr (demo_decisions ! 3)"
    by (simp_all add: lineage_evaluate_def Let_def demo_limits_def lineage_start_def count_of_def decide_def demo_request_digest demo_decisions_def
        sequence_evaluate_def suspicious_operations_def) (simp_all add: demo_request_def)
  obtain d1 d2 d3 d4 where d: "ds = [d1, d2, d3, d4]" "policy_evaluate demo_host demo_policy demo_request = Inr d1"
    "attestation_evaluate demo_host demo_provider demo_request = Inr d2"
    "fst (lineage_evaluate demo_host demo_limits lineage_start demo_request) = Inr d3" "sequence_evaluate demo_host demo_request = Inr d4"
    using ds unfolding demo_guardians_def by (rule standard_decisions)
  have "ds = demo_decisions"
    using d lin seq demo_policy_decision demo_attestation_decision by (simp add: demo_decisions_def)
  then show "quorum_evaluate demo_host demo_guardians demo_request = Inr demo_decisions" "quorum_allowed demo_guardians demo_decisions = Inr True"
    using ds by simp_all
qed

lemma demo_issued_event: "grant demo_host demo_ed25519 demo_intent demo_intent_env demo_request demo_decisions = Inr (capability, a) \<Longrightarrow>
  \<exists>event. issued_event demo_host demo_request capability = Inr event"
proof -
  assume g: "grant demo_host demo_ed25519 demo_intent demo_intent_env demo_request demo_decisions = Inr (capability, a)"
  then obtain b r i trust ceiling now token where "issue demo_host demo_ed25519 b r i trust ceiling now token = Inr capability"
    unfolding grant_def bindE_Inr_iff by (elim exE conjE) simp
  then obtain claims message where "canonical_bytes demo_host (PDict (claims_to_dict claims)) = Inr message" "ic_claims capability = claims"
    by (rule issue_cases) (auto simp: issued_capability_init_iff)
  then show ?thesis by (simp add: issued_event_def digest_def)
qed

theorem request_capability_sound_witness:
  "\<exists>capability l st. request_capability demo_host demo_ed25519 list_log demo_intent demo_intent_env demo_request_payload ([], lineage_start)
      = (Inr (demo_request, capability, demo_attestation), l, st)
    \<and> policy_permits demo_policy demo_request \<and> cc_device_id (ic_claims capability) = ''e1'' \<and> cc_invocation_limit (ic_claims capability) = 1"
proof -
  obtain capability where g: "grant demo_host demo_ed25519 demo_intent demo_intent_env demo_request demo_decisions = Inr (capability, demo_attestation)"
    by (rule demo_grant)
  obtain event where e: "issued_event demo_host demo_request capability = Inr event" using demo_issued_event [OF g] by blast
  have req: "action_request_from_dict demo_host demo_request_payload = Inr demo_request" by code_simp
  have q: "it_quorum demo_intent = standard_members demo_host demo_policy demo_provider demo_limits" "it_policy demo_intent = demo_policy"
    by (simp_all add: demo_intent_def)
  have ask: "ask (standard_members demo_host demo_policy demo_provider demo_limits) demo_request lineage_start = (demo_guardians, snd (lineage_evaluate demo_host demo_limits lineage_start demo_request))"
    by (simp add: ask_standard demo_guardians_def)
  have log: "log_event list_log demo_intent_env n k p (l, g) = (Inr (), l @ [n], g)" for n k p l and g :: lineage_state
    by (simp add: log_event_def list_log_def)
  have logs: "\<exists>l'. record_decisions list_log demo_intent_env r ds (l, g) = (Inr (), l', g)" for r ds l and g :: lineage_state
  proof -
    have "\<exists>l'. seqS (map (\<lambda>(k, d). log_event list_log demo_intent_env n k (f d)) xs) (l, g) = (Inr (), l', g)" for n xs l f
      by (induction xs arbitrary: l) (auto simp: bindS_def log)
    then show ?thesis by (simp add: record_decisions_def)
  qed
  obtain l1 where l1: "record_decisions list_log demo_intent_env demo_request demo_decisions
      ([''request.received''], snd (lineage_evaluate demo_host demo_limits lineage_start demo_request))
      = (Inr (), l1, snd (lineage_evaluate demo_host demo_limits lineage_start demo_request))"
    using logs by blast
  have "request_capability demo_host demo_ed25519 list_log demo_intent demo_intent_env demo_request_payload ([], lineage_start)
      = (Inr (demo_request, capability, demo_attestation), l1 @ [''capability.issued''], snd (lineage_evaluate demo_host demo_limits lineage_start demo_request))"
    unfolding request_capability_def req
    by (simp add: receive_request_def received_event_def demo_request_digest bindS_def liftS_def log ask_quorum_def ask demo_guardian_decisions
        judge_request_def l1 admit_request_def g e report_standard q)
  moreover from request_capability_sound [OF this q(1) [folded q(2)]] have "policy_permits demo_policy demo_request"
    "cc_device_id (ic_claims capability) = ar_executor_id demo_request" "cc_invocation_limit (ic_claims capability) = 1"
    by (simp_all only: q(2))
  ultimately show ?thesis by (auto simp: demo_request_def)
qed

text \<open>
  C3: no authority without evidence. With the recorder of the program, whatever happens during \<open>request_capability\<close>,
  with any guardians, clocks and write errors, the evidence file only grows. When a capability is returned, exactly these
  events have been appended, in this order and each with success: \<open>request.received\<close> with the payload of the request
  parsed from the input, one \<open>guardian.decision\<close> for every decision of the approving quorum, and \<open>capability.issued\<close>
  with the payload of the capability returned. A call that fails leaves whole events behind, followed by at most one
  append that failed with the error of the call; and a payload that does not validate leaves \<open>request.rejected\<close>,
  or the failed append of it.
\<close>

theorem intent_recorded:
  "case request_capability H E (record_event H' E' parse) ic env payload (log, g) of (result, log', g') \<Rightarrow>
     file_extends log log'
     \<and> (case result of
         Inr (r, capability, attestation) \<Rightarrow>
           \<exists>views g1 ds received issued. action_request_from_dict H payload = Inr r \<and> ask (it_quorum ic) r g = (views, g1)
             \<and> quorum_evaluate H views r = Inr ds \<and> quorum_allowed views ds = Inr True
             \<and> received_event H r = Inr received \<and> issued_event H r capability = Inr issued
             \<and> appended (record_event H' E' parse) log (issuance_trail r received ds issued) log'
             \<and> er_count log' = er_count log + int (length ds) + 2
       | Inl e \<Rightarrow> \<exists>evs. left_behind (record_event H' E' parse) log evs (Inl e :: unit res) log')
     \<and> (case action_request_from_dict H payload of
         Inl (ValidationError m) \<Rightarrow> appended (record_event H' E' parse) log [(''request.rejected'', rejected_event m)] log' \<and> result = Inl (ValidationError m)
           \<or> (\<exists>e x. record_event H' E' parse e ''request.rejected'' (rejected_event m) log = (Inl x, log') \<and> result = Inl x)
       | _ \<Rightarrow> True)"
proof -
  obtain r log' g' where r: "request_capability H E (record_event H' E' parse) ic env payload (log, g) = (r, log', g')"
    by (metis surj_pair)
  obtain evs where evs: "left_behind (record_event H' E' parse) log evs r log'"
    using trails_request r unfolding trails_def by (metis fst_conv)
  have rejected: "case action_request_from_dict H payload of
         Inl (ValidationError m) \<Rightarrow> appended (record_event H' E' parse) log [(''request.rejected'', rejected_event m)] log' \<and> r = Inl (ValidationError m)
           \<or> (\<exists>e x. record_event H' E' parse e ''request.rejected'' (rejected_event m) log = (Inl x, log') \<and> r = Inl x)
       | _ \<Rightarrow> True"
    using request_rejected_trail [OF _ r] by (simp only: split: sum.split exn.split) blast
  show ?thesis
  proof (cases r)
    case (Inl e)
    have "left_behind (record_event H' E' parse) log evs (Inl e :: unit res) log'"
      using evs Inl by (simp add: left_behind_def)
    then show ?thesis using recorder.left_behind_records [OF evs] rejected unfolding r Inl by auto
  next
    case (Inr x)
    obtain q capability attestation where x: "x = (q, capability, attestation)" by (cases x)
    obtain views g1 ds received issued where t: "action_request_from_dict H payload = Inr q" "ask (it_quorum ic) q g = (views, g1)"
      "quorum_evaluate H views q = Inr ds" "quorum_allowed views ds = Inr True"
      "received_event H q = Inr received" "issued_event H q capability = Inr issued"
      "appended (record_event H' E' parse) log (issuance_trail q received ds issued) log'"
      using request_capability_trail [OF r [unfolded Inr x]] by blast
    have "file_extends log log' \<and> er_count log' = er_count log + int (length ds) + 2"
      using recorder.appended_records [OF t(7)] by (simp add: issuance_trail_def)
    then show ?thesis using t unfolding r Inr x by auto
  qed
qed

end
