(* ===== verification/Denial.thy ===== *)
theory Denial
  imports Intent
begin

text \<open>
  \<open>denial_certificate.py\<close>: signed certificates of evaluated denials. The builder records the denial, checks that it is the tip of
  the verified chain and signs the claims about it; the verifier checks the signer, what the certificate says of the effect,
  and the receipt of the evidence it refers to. PEM encoding and loading of keys are arguments.
\<close>

section \<open>Definitions\<close>

definition DENIAL_SCHEMA :: string where
  "DENIAL_SCHEMA = ''event-horizon.denial-certificate.v1''"

definition DENIAL_EFFECT_STATES :: "string list" where
  "DENIAL_EFFECT_STATES = [''denied-before-effect'', ''denied-after-validation'', ''indeterminate-crash'',
     ''effect-committed-response-lost'', ''reconciliation-required'']"

definition KNOWN_NO_EFFECT_STATES :: "string list" where
  "KNOWN_NO_EFFECT_STATES = [''denied-before-effect'', ''denied-after-validation'']"

definition ARCHIVAL_STATES :: "string list" where
  "ARCHIVAL_STATES = [''active'', ''archived'', ''revoked'']"

definition PRIVATE_KEYS :: "string list" where
  "PRIVATE_KEYS = [''password'', ''secret'', ''token'', ''credential'', ''api_key'', ''authorization'', ''private_key'', ''prompt'',
     ''natural_language_task'']"

definition denial_text :: "host \<Rightarrow> pyval \<Rightarrow> nat \<Rightarrow> string res" where
  "denial_text H v maximum = (case v of
     PStr s \<Rightarrow>
       if s = [] then Inl (ValidationError ''must be a non-empty bounded string'')
       else bindE (utf8_encode s) (\<lambda>b.
         if length b > maximum then Inl (ValidationError ''must be a non-empty bounded string'')
         else bindE (canonical_bytes H v) (\<lambda>_. Inr s))
   | _ \<Rightarrow> Inl (ValidationError ''must be a non-empty bounded string''))"

definition denial_sha :: "host \<Rightarrow> pyval \<Rightarrow> string res" where
  "denial_sha H v = bindE (denial_text H v 64) (\<lambda>s.
     bindE (checkE (\<not> hex_n 64 s) (ValidationError ''must be a lowercase SHA-256 digest'')) (\<lambda>_. Inr s))"

text \<open>
  \<open>key.lower()\<close>, as far as it can be one of the private keys: those are ASCII, and besides the ASCII letters only the Kelvin sign
  has an ASCII lower case.
\<close>

fun py_lower :: "string \<Rightarrow> string" where
  "py_lower [] = []"
| "py_lower (c # cs) =
     (if c = CHR 0xE2 \<and> take 2 cs = [CHR 0x84, CHR 0xAA] then CHR ''k'' # py_lower (drop 2 cs)
      else (if CHR ''A'' \<le> c \<and> c \<le> CHR ''Z'' then char_of (of_char c + 32 :: nat) else c) # py_lower cs)"

fun privacy_safe :: "host \<Rightarrow> pyval \<Rightarrow> unit res"
  and privacy_items :: "host \<Rightarrow> pyval list \<Rightarrow> unit res"
  and privacy_fields :: "host \<Rightarrow> (string \<times> pyval) list \<Rightarrow> unit res"
where
  "privacy_safe H (PDict m) = bindE (privacy_fields H m) (\<lambda>_. unitE (canonical_bytes H (PDict m)))"
| "privacy_safe H (PList xs) = bindE (privacy_items H xs) (\<lambda>_. unitE (canonical_bytes H (PList xs)))"
| "privacy_safe H (PTuple xs) = bindE (privacy_items H xs) (\<lambda>_. unitE (canonical_bytes H (PTuple xs)))"
| "privacy_safe H (PStr s) = bindE (utf8_encode s) (\<lambda>b.
     if length b > 512 then Inl (ValidationError ''contains an oversized string'') else unitE (canonical_bytes H (PStr s)))"
| "privacy_safe H v = unitE (canonical_bytes H v)"
| "privacy_items H [] = Inr ()"
| "privacy_items H (x # xs) = bindE (privacy_safe H x) (\<lambda>_. privacy_items H xs)"
| "privacy_fields H [] = Inr ()"
| "privacy_fields H ((k, v) # m) =
     (if List.member PRIVATE_KEYS (py_lower k) then Inl (ValidationError ''contains a prohibited private field'')
      else bindE (privacy_safe H v) (\<lambda>_. privacy_fields H m))"

definition denial_key_id :: "host \<Rightarrow> string \<Rightarrow> string" where
  "denial_key_id H raw = ''ed25519:'' @ take 32 (sha256_hex H raw)"

text \<open>\<open>v in S\<close> for a set of strings.\<close>

definition one_of :: "pyval \<Rightarrow> string list \<Rightarrow> exn \<Rightarrow> unit res" where
  "one_of v names e = seqE [checkE (unhashable v) (TypeError ''unhashable type''), checkE (\<not> (is_str v \<and> List.member names (str_of v))) e]"

definition no_effect :: "string \<Rightarrow> pyval" where
  "no_effect effect_state =
     (if List.member KNOWN_NO_EFFECT_STATES effect_state then PBool True
      else if effect_state = ''effect-committed-response-lost'' then PBool False else PNone)"

subsection \<open>Building\<close>

record denial_builder =
  dn_private_key :: string
  dn_key_id :: string

definition denial_builder_init :: "host \<Rightarrow> ed25519 \<Rightarrow> signing_key \<Rightarrow> denial_builder res" where
  "denial_builder_init H E signing =
     bindE (case signing of
              Private_key k \<Rightarrow> Inr k
            | Seed s \<Rightarrow> if 32 \<le> length s then Inr (take 32 s) else Inl (ValueError ''denial certificate signing key must contain at least 32 bytes'')
            | Generated k \<Rightarrow> Inr k
            | Unsupported_key \<Rightarrow> Inl (ValueError ''denial certificate signing key must contain at least 32 bytes''))
       (\<lambda>k. Inr \<lparr>dn_private_key = k, dn_key_id = denial_key_id H (ed_public E k)\<rparr>)"

definition denial_texts :: "string list" where
  "denial_texts = [''attempt_id'', ''task_id'', ''session_id'', ''technique_classification'', ''denial_reason_code'', ''policy_version'',
     ''synthesizer_version'', ''compiler_version'', ''code_commit'', ''build_identifier'', ''environment_identifier'']"

definition denial_digests :: "string list" where
  "denial_digests = [''workload_identity_hash'', ''request_digest'', ''canonical_request_digest'', ''policy_digest'', ''policy_ceiling_digest'',
     ''provider_attestation_digest'', ''guardian_state_digest'', ''decay_state_digest'']"

text \<open>The keyword arguments are a function; the time of the denial is already read from the clock when none was given.\<close>

definition denial_checks :: "host \<Rightarrow> (string \<Rightarrow> pyval) \<Rightarrow> unit res" where
  "denial_checks H g = seqE (
     map (\<lambda>n. unitE (denial_text H (g n) 256)) denial_texts
     @ [if g ''campaign_id'' = PNone then Inr () else unitE (denial_text H (g ''campaign_id'') 256)]
     @ map (\<lambda>n. unitE (denial_sha H (g n))) denial_digests
     @ [one_of (g ''effect_state'') DENIAL_EFFECT_STATES (ValidationError ''denial effect state is invalid''),
        one_of (g ''archival_status'') ARCHIVAL_STATES (ValidationError ''denial archival status is invalid''),
        privacy_safe H (g ''requested_authority''), privacy_safe H (g ''effective_authority''),
        checkE (\<not> is_int (g ''denial_timestamp_ms'') \<or> int_of (g ''denial_timestamp_ms'') < 0)
          (ValidationError ''denial timestamp must be a non-negative integer'')])"

definition denial_event :: "(string \<Rightarrow> pyval) \<Rightarrow> dict" where
  "denial_event g =
     [(''attempt_id'', g ''attempt_id''), (''task_id'', g ''task_id''), (''session_id'', g ''session_id''),
      (''request_digest'', g ''request_digest''), (''denial_reason_code'', g ''denial_reason_code''), (''effect_state'', g ''effect_state''),
      (''no_authorized_effect_committed'', no_effect (str_of (g ''effect_state''))), (''policy_digest'', g ''policy_digest''),
      (''policy_ceiling_digest'', g ''policy_ceiling_digest''), (''provider_attestation_digest'', g ''provider_attestation_digest''),
      (''guardian_state_digest'', g ''guardian_state_digest''), (''decay_state_digest'', g ''decay_state_digest''),
      (''denial_timestamp_ms'', g ''denial_timestamp_ms'')]"

definition denial_call :: "(string \<Rightarrow> pyval) \<Rightarrow> pyfloat \<times> pyfloat \<times> write_outcome \<Rightarrow> append_call" where
  "denial_call g e = \<lparr>ac_event_type = ''denial.evaluated'', ac_payload = denial_event g, ac_source_id = ''local'', ac_source_sequence = None,
     ac_timestamp = fst e, ac_issued_at = fst (snd e), ac_write = snd (snd e)\<rparr>"

definition denial_payload :: "denial_builder \<Rightarrow> (string \<Rightarrow> pyval) \<Rightarrow> string \<Rightarrow> dict \<Rightarrow> dict \<Rightarrow> dict \<Rightarrow> string \<Rightarrow> dict" where
  "denial_payload b g token requested effective event root =
     [(''certificate_version'', PStr DENIAL_SCHEMA), (''certificate_id'', PStr (''deny_'' @ token)), (''attempt_id'', g ''attempt_id''),
      (''campaign_id'', g ''campaign_id''), (''task_id'', g ''task_id''), (''session_id'', g ''session_id''),
      (''workload_identity_hash'', g ''workload_identity_hash''), (''technique_classification'', g ''technique_classification''),
      (''request_digest'', g ''request_digest''), (''canonical_request_digest'', g ''canonical_request_digest''),
      (''requested_authority'', PDict requested), (''effective_authority'', PDict effective),
      (''denial_reason_code'', g ''denial_reason_code''), (''effect_state'', g ''effect_state''),
      (''no_authorized_effect_committed'', no_effect (str_of (g ''effect_state''))), (''policy_version'', g ''policy_version''),
      (''policy_digest'', g ''policy_digest''), (''policy_ceiling_digest'', g ''policy_ceiling_digest''),
      (''synthesizer_version'', g ''synthesizer_version''), (''compiler_version'', g ''compiler_version''),
      (''provider_attestation_digest'', g ''provider_attestation_digest''), (''guardian_state_digest'', g ''guardian_state_digest''),
      (''decay_state_digest'', g ''decay_state_digest''), (''code_commit'', g ''code_commit''), (''build_identifier'', g ''build_identifier''),
      (''environment_identifier'', g ''environment_identifier''), (''evidence_chain_root'', PStr root),
      (''relevant_evidence_references'', PList [PDict [(''sequence'', dict_get event ''sequence''), (''event_hash'', dict_get event ''event_hash''),
         (''event_type'', dict_get event ''event_type'')]]),
      (''denial_timestamp_ms'', g ''denial_timestamp_ms''), (''signer_key_id'', PStr (dn_key_id b)), (''signature_algorithm'', PStr ''Ed25519''),
      (''archival_status'', g ''archival_status'')]"

definition denial_envelope :: "ed25519 \<Rightarrow> (string \<Rightarrow> string) \<Rightarrow> denial_builder \<Rightarrow> string \<Rightarrow> dict \<Rightarrow> dict \<Rightarrow> string \<Rightarrow> dict" where
  "denial_envelope E pem b recorder_key event payload message =
     [(''certificate'', PDict payload), (''signature'', PStr (b64_encode (ed_sign E (dn_private_key b) message))),
      (''algorithm'', PStr ''Ed25519''), (''key_id'', PStr (dn_key_id b)), (''public_key_pem'', PStr (pem (ed_public E (dn_private_key b)))),
      (''recorder_public_key_pem'', PStr (pem (ed_public E recorder_key))), (''recorder_receipt'', dict_get event ''receipt'')]"

definition denial_build ::
  "host \<Rightarrow> ed25519 \<Rightarrow> (string \<Rightarrow> pyfloat) \<Rightarrow> (string \<Rightarrow> string) \<Rightarrow> denial_builder \<Rightarrow> (string \<Rightarrow> pyval)
     \<Rightarrow> pyfloat \<times> pyfloat \<times> write_outcome \<Rightarrow> string \<Rightarrow> recorder \<Rightarrow> dict res \<times> recorder" where
  "denial_build H E parse pem b g e token =
     bindS (liftS (denial_checks H g)) (\<lambda>_.
     bindS (recorder_append H E parse (denial_call g e)) (\<lambda>event.
     bindS (\<lambda>er. liftS (recorder_verify H parse er) er) (\<lambda>(valid, root).
     bindS (liftS (checkE (\<not> valid \<or> dict_get event ''event_hash'' \<noteq> PStr root)
                     (DenialCertificateError ''denial evidence is not the verified chain tip''))) (\<lambda>_.
     bindS (liftS (py_dict (g ''requested_authority''))) (\<lambda>requested.
     bindS (liftS (py_dict (g ''effective_authority''))) (\<lambda>effective.
     bindS (liftS (canonical_bytes H (PDict (denial_payload b g token requested effective event root)))) (\<lambda>message er.
     (Inr (denial_envelope E pem b (er_private_key er) event (denial_payload b g token requested effective event root) message), er))))))))"

subsection \<open>Verifying\<close>

record denial_verifier =
  nv_trusted_signer :: string
  nv_trusted_recorder :: "string option"
  nv_revoked_signers :: "string list"
  nv_seen :: "string list option"

record denial_result =
  nr_valid :: bool
  nr_reason :: string
  nr_certificate_id :: "string option"
  nr_effect_state :: "string option"

definition envelope_fields :: "string list" where
  "envelope_fields = [''certificate'', ''signature'', ''algorithm'', ''key_id'', ''public_key_pem'', ''recorder_public_key_pem'', ''recorder_receipt'']"

definition certificate_fields :: "string list" where
  "certificate_fields = [''certificate_version'', ''certificate_id'', ''attempt_id'', ''campaign_id'', ''task_id'', ''session_id'',
     ''workload_identity_hash'', ''technique_classification'', ''request_digest'', ''canonical_request_digest'', ''requested_authority'',
     ''effective_authority'', ''denial_reason_code'', ''effect_state'', ''no_authorized_effect_committed'', ''policy_version'', ''policy_digest'',
     ''policy_ceiling_digest'', ''synthesizer_version'', ''compiler_version'', ''provider_attestation_digest'', ''guardian_state_digest'',
     ''decay_state_digest'', ''code_commit'', ''build_identifier'', ''environment_identifier'', ''evidence_chain_root'',
     ''relevant_evidence_references'', ''denial_timestamp_ms'', ''signer_key_id'', ''signature_algorithm'', ''archival_status'']"

text \<open>\<open>load_pem_public_key(v.encode('ascii'))\<close>: the raw key of an Ed25519 key, \<open>None\<close> for any other key.\<close>

definition load_key :: "(string \<Rightarrow> string option res) \<Rightarrow> pyval \<Rightarrow> string option res" where
  "load_key load v = (case v of PStr s \<Rightarrow> load s | _ \<Rightarrow> Inl (AttributeError ''encode''))"

definition same_key :: "host \<Rightarrow> string option \<Rightarrow> string option \<Rightarrow> bool" where
  "same_key H k k' = (case (k, k') of (Some r, Some r') \<Rightarrow> denial_key_id H r = denial_key_id H r' | _ \<Rightarrow> False)"

definition trusted_signer :: "host \<Rightarrow> (string \<Rightarrow> string option res) \<Rightarrow> denial_verifier \<Rightarrow> dict \<Rightarrow> string res" where
  "trusted_signer H load v envelope =
     bindE (checkE (dict_get envelope ''algorithm'' \<noteq> PStr ''Ed25519'') (ValidationError ''denial certificate algorithm is invalid'')) (\<lambda>_.
     bindE (load (nv_trusted_signer v)) (\<lambda>key. case key of
        None \<Rightarrow> Inl (ValidationError ''trusted denial key is not Ed25519'')
      | Some raw \<Rightarrow>
          bindE (load_key load (dict_get envelope ''public_key_pem'')) (\<lambda>embedded.
          bindE (checkE (\<not> same_key H embedded (Some raw)) (ValidationError ''denial certificate signer is not trusted'')) (\<lambda>_.
          bindE (checkE (dict_get envelope ''key_id'' \<noteq> PStr (denial_key_id H raw) \<or> List.member (nv_revoked_signers v) (denial_key_id H raw))
                   (ValidationError ''denial certificate signer is unknown or revoked'')) (\<lambda>_. Inr raw)))))"

text \<open>The claims are signed by the key of the signer.\<close>

definition signed_payload :: "host \<Rightarrow> ed25519 \<Rightarrow> string \<Rightarrow> dict \<Rightarrow> dict res" where
  "signed_payload H E raw envelope = (case dict_get envelope ''certificate'' of
     PDict payload \<Rightarrow>
       bindE (checkE (\<not> set_eq_list (map fst payload) certificate_fields) (ValidationError ''denial certificate payload fields are invalid'')) (\<lambda>_.
       bindE (checkE (dict_get payload ''certificate_version'' \<noteq> PStr DENIAL_SCHEMA) (ValidationError ''denial certificate version is unsupported'')) (\<lambda>_.
       bindE (checkE (dict_get payload ''signature_algorithm'' \<noteq> PStr ''Ed25519'' \<or> dict_get payload ''signer_key_id'' \<noteq> PStr (denial_key_id H raw))
                (ValidationError ''denial certificate signature metadata is invalid'')) (\<lambda>_.
       bindE (case dict_get envelope ''signature'' of
                PStr s \<Rightarrow> if is_b64_signature s then Inr s else Inl (ValidationError ''denial certificate signature is malformed'')
              | _ \<Rightarrow> Inl (ValidationError ''denial certificate signature is malformed'')) (\<lambda>s.
       bindE (canonical_bytes H (PDict payload)) (\<lambda>message.
       bindE (checkE (\<not> ed_verify E raw (b64_decode s) message) (ValueError ''invalid signature'')) (\<lambda>_. Inr payload))))))
   | _ \<Rightarrow> Inl (ValidationError ''denial certificate payload fields are invalid''))"

text \<open>What the certificate says of the effect is what its state allows, and it holds no private data.\<close>

definition content_checks :: "host \<Rightarrow> dict \<Rightarrow> unit res" where
  "content_checks H payload = seqE (
     [checkE (\<not> (is_str (dict_get payload ''certificate_id'') \<and> prefixed_hex ''deny_'' 24 (str_of (dict_get payload ''certificate_id''))))
        (ValidationError ''denial certificate ID is malformed''),
      one_of (dict_get payload ''archival_status'') ARCHIVAL_STATES (ValidationError ''denial certificate archival status is invalid''),
      checkE (dict_get payload ''archival_status'' = PStr ''revoked'') (ValidationError ''denial certificate archival status is invalid''),
      one_of (dict_get payload ''effect_state'') DENIAL_EFFECT_STATES (ValidationError ''denial certificate effect state is invalid''),
      checkE (dict_get payload ''no_authorized_effect_committed'' \<noteq> no_effect (str_of (dict_get payload ''effect_state'')))
        (ValidationError ''denial certificate overstates the known effect outcome'')]
     @ map (\<lambda>n. unitE (denial_sha H (dict_get payload n))) (denial_digests @ [''evidence_chain_root''])
     @ [privacy_safe H (dict_get payload ''requested_authority''), privacy_safe H (dict_get payload ''effective_authority'')])"

text \<open>The key under which the receipt is checked: the embedded one, which has to be the trusted one when there is one.\<close>

definition recorder_key :: "host \<Rightarrow> (string \<Rightarrow> string option res) \<Rightarrow> denial_verifier \<Rightarrow> dict \<Rightarrow> pyval res" where
  "recorder_key H load v envelope = (case nv_trusted_recorder v of
     None \<Rightarrow> Inr (dict_get envelope ''recorder_public_key_pem'')
   | Some trusted \<Rightarrow>
       bindE (load trusted) (\<lambda>key. bindE (load_key load (dict_get envelope ''recorder_public_key_pem'')) (\<lambda>embedded.
       bindE (checkE (\<not> same_key H key embedded) (ValidationError ''denial evidence recorder is not trusted'')) (\<lambda>_. Inr (PStr trusted)))))"

definition linked :: "dict \<Rightarrow> dict \<Rightarrow> dict \<Rightarrow> bool" where
  "linked reference receipt payload \<longleftrightarrow> dict_get reference ''event_type'' = PStr ''denial.evaluated''
     \<and> (case int_instance (dict_get receipt ''sequence'') of None \<Rightarrow> False | Some n \<Rightarrow> int_equals (dict_get reference ''sequence'') n)
     \<and> dict_get reference ''event_hash'' = dict_get receipt ''event_hash''
     \<and> dict_get reference ''event_hash'' = dict_get payload ''evidence_chain_root''"

text \<open>A receipt that is no object is not accepted, whatever it is.\<close>

definition evidence_checks :: "host \<Rightarrow> ed25519 \<Rightarrow> (string \<Rightarrow> string option res) \<Rightarrow> denial_verifier \<Rightarrow> dict \<Rightarrow> dict \<Rightarrow> unit res" where
  "evidence_checks H E load v envelope payload =
     bindE (recorder_key H load v envelope) (\<lambda>key.
     bindE (case dict_get envelope ''recorder_receipt'' of
              PDict receipt \<Rightarrow> bindE (verify_receipt H E (\<lambda>_. load_key load key) receipt []) (\<lambda>ok. Inr (if ok then dict_get receipt ''payload'' else PNone))
            | _ \<Rightarrow> Inr PNone) (\<lambda>receipt.
     case receipt of
       PDict claimed \<Rightarrow> (case dict_get payload ''relevant_evidence_references'' of
           PList [PDict reference] \<Rightarrow>
             seqE [checkE (\<not> set_eq_list (map fst reference) [''sequence'', ''event_hash'', ''event_type''])
                     (ValidationError ''denial evidence reference is malformed''),
                   checkE (\<not> linked reference claimed payload)
                     (ValidationError ''denial evidence is not linked to the recorded chain root'')]
         | PList [_] \<Rightarrow> Inl (ValidationError ''denial evidence reference is malformed'')
         | _ \<Rightarrow> Inl (ValidationError ''denial evidence reference is missing''))
     | _ \<Rightarrow> Inl (ValidationError ''denial evidence receipt is invalid'')))"

definition mark_seen :: "string \<Rightarrow> denial_verifier \<Rightarrow> unit res \<times> denial_verifier" where
  "mark_seen certificate_id v = (case nv_seen v of
     None \<Rightarrow> (Inr (), v)
   | Some ids \<Rightarrow>
       if List.member ids certificate_id then (Inl (ValidationError ''denial certificate ID was replayed''), v)
       else (Inr (), v\<lparr>nv_seen := Some (certificate_id # ids)\<rparr>))"

definition denial_verified ::
  "host \<Rightarrow> ed25519 \<Rightarrow> (string \<Rightarrow> string option res) \<Rightarrow> pyval \<Rightarrow> denial_verifier \<Rightarrow> denial_result res \<times> denial_verifier" where
  "denial_verified H E load envelope v = (case envelope of
     PDict env \<Rightarrow>
       bindS (liftS (checkE (\<not> set_eq_list (map fst env) envelope_fields) (ValidationError ''denial certificate envelope fields are invalid''))) (\<lambda>_.
       bindS (liftS (trusted_signer H load v env)) (\<lambda>raw.
       bindS (liftS (signed_payload H E raw env)) (\<lambda>payload.
       bindS (liftS (content_checks H payload)) (\<lambda>_.
       bindS (liftS (evidence_checks H E load v env payload)) (\<lambda>_.
       bindS (mark_seen (str_of (dict_get payload ''certificate_id''))) (\<lambda>_.
       liftS (Inr \<lparr>nr_valid = True, nr_reason = ''verified'', nr_certificate_id = Some (str_of (dict_get payload ''certificate_id'')),
                   nr_effect_state = Some (str_of (dict_get payload ''effect_state''))\<rparr>))))))) v
   | _ \<Rightarrow> (Inl (ValidationError ''denial certificate envelope fields are invalid''), v))"

fun is_key_error :: "exn \<Rightarrow> bool" where
  "is_key_error (KeyError _) = True"
| "is_key_error _ = False"

text \<open>\<open>verify\<close>; \<open>describe\<close> is \<open>str(exc)\<close>.\<close>

definition denial_verify ::
  "host \<Rightarrow> ed25519 \<Rightarrow> (string \<Rightarrow> string option res) \<Rightarrow> (exn \<Rightarrow> string) \<Rightarrow> pyval \<Rightarrow> denial_verifier \<Rightarrow> denial_result res \<times> denial_verifier" where
  "denial_verify H E load describe envelope v = (case denial_verified H E load envelope v of
     (Inl e, v') \<Rightarrow>
       (if is_key_error e \<or> value_or_type_error e
        then Inr \<lparr>nr_valid = False, nr_reason = describe e, nr_certificate_id = None, nr_effect_state = None\<rparr> else Inl e, v')
   | (Inr r, v') \<Rightarrow> (Inr r, v'))"

section \<open>Lemmas\<close>

lemma one_of_Inr [res_simps]: "one_of v names e = Inr u \<longleftrightarrow> is_str v \<and> str_of v \<in> set names"
  by (cases v) (auto simp: one_of_def res_simps)

lemma denial_build_extends: "denial_build H E parse pem b g e token er = (r, er') \<Longrightarrow> file_extends er er'"
  by (auto simp: denial_build_def bindS_def liftS_def file_extends_def dest!: recorder_append_extends split: prod.splits sum.splits)

lemma denial_build_records: "denial_build H E parse pem b g e token er = (Inr x, er') \<Longrightarrow> er_count er' = er_count er + 1"
  by (auto simp: denial_build_def state_simps dest!: recorder_append_count(2) [OF _ refl])

lemma mark_seen_Inr: "mark_seen i v = (Inr u, v') \<longleftrightarrow> (case nv_seen v of None \<Rightarrow> v' = v | Some ids \<Rightarrow> i \<notin> set ids \<and> v' = v\<lparr>nv_seen := Some (i # ids)\<rparr>)"
  by (auto simp: mark_seen_def split: option.splits)

lemma denial_build_cases:
  assumes "denial_build H E parse pem b g e token er = (Inr envelope, er')"
  obtains event root requested effective message where "denial_checks H g = Inr ()"
    "recorder_append H E parse (denial_call g e) er = (Inr event, er')" "recorder_verify H parse er' = Inr (True, root)"
    "dict_get event ''event_hash'' = PStr root"
    "py_dict (g ''requested_authority'') = Inr requested" "py_dict (g ''effective_authority'') = Inr effective"
    "canonical_bytes H (PDict (denial_payload b g token requested effective event root)) = Inr message"
    "envelope = denial_envelope E pem b (er_private_key er') event (denial_payload b g token requested effective event root) message"
  using assms by (auto simp: denial_build_def state_simps checkE_Inr_iff)

lemma denial_payload_fields:
  "set_eq_list (map fst (denial_payload b g token requested effective event root)) certificate_fields"
  unfolding denial_payload_def certificate_fields_def by (simp add: set_eq_list_def subset_list_def)

lemma denial_payload_distinct: "distinct (map fst (denial_payload b g token requested effective event root))"
  unfolding denial_payload_def by simp

lemma denial_payload_lookup:
  "dict_get (denial_payload b g token requested effective event root) ''certificate_version'' = PStr DENIAL_SCHEMA"
  "dict_get (denial_payload b g token requested effective event root) ''certificate_id'' = PStr (''deny_'' @ token)"
  "dict_get (denial_payload b g token requested effective event root) ''requested_authority'' = PDict requested"
  "dict_get (denial_payload b g token requested effective event root) ''effective_authority'' = PDict effective"
  "dict_get (denial_payload b g token requested effective event root) ''effect_state'' = g ''effect_state''"
  "dict_get (denial_payload b g token requested effective event root) ''no_authorized_effect_committed'' = no_effect (str_of (g ''effect_state''))"
  "dict_get (denial_payload b g token requested effective event root) ''evidence_chain_root'' = PStr root"
  "dict_get (denial_payload b g token requested effective event root) ''relevant_evidence_references''
     = PList [PDict [(''sequence'', dict_get event ''sequence''), (''event_hash'', dict_get event ''event_hash''), (''event_type'', dict_get event ''event_type'')]]"
  "dict_get (denial_payload b g token requested effective event root) ''signer_key_id'' = PStr (dn_key_id b)"
  "dict_get (denial_payload b g token requested effective event root) ''signature_algorithm'' = PStr ''Ed25519''"
  "dict_get (denial_payload b g token requested effective event root) ''archival_status'' = g ''archival_status''"
  unfolding denial_payload_def by (simp_all add: dict_get_def)

lemma denial_payload_digests:
  "list_all (\<lambda>n. dict_get (denial_payload b g token requested effective event root) n = g n) denial_digests"
  unfolding denial_payload_def denial_digests_def by (simp add: dict_get_def)

lemma denial_envelope_fields: "set_eq_list (map fst (denial_envelope E pem b k event payload message)) envelope_fields"
  unfolding denial_envelope_def envelope_fields_def by (simp add: set_eq_list_def subset_list_def)

lemma denial_envelope_lookup:
  "dict_get (denial_envelope E pem b k event payload message) ''certificate'' = PDict payload"
  "dict_get (denial_envelope E pem b k event payload message) ''signature'' = PStr (b64_encode (ed_sign E (dn_private_key b) message))"
  "dict_get (denial_envelope E pem b k event payload message) ''algorithm'' = PStr ''Ed25519''"
  "dict_get (denial_envelope E pem b k event payload message) ''key_id'' = PStr (dn_key_id b)"
  "dict_get (denial_envelope E pem b k event payload message) ''public_key_pem'' = PStr (pem (ed_public E (dn_private_key b)))"
  "dict_get (denial_envelope E pem b k event payload message) ''recorder_public_key_pem'' = PStr (pem (ed_public E k))"
  "dict_get (denial_envelope E pem b k event payload message) ''recorder_receipt'' = dict_get event ''receipt''"
  unfolding denial_envelope_def by (simp_all add: dict_get_def)

text \<open>The root of the chain is a digest.\<close>

lemma recorded_event:
  assumes er: "recorder_ok H parse er" and host: "hex_host H" and app: "recorder_append H E parse c er = (Inr event, er')"
    and key: "er_key_id er = ''ed25519:'' @ take 32 (sha256_hex H (ed_public E (er_private_key er)))"
    and ed: "ed25519_correct E (er_private_key er)" and load: "load pem = Inr (Some (ed_public E (er_private_key er)))"
  obtains n d receipt where "dict_get event ''sequence'' = PInt (er_count er + 1)" "dict_get event ''event_hash'' = PStr d"
    "dict_get event ''event_type'' = PStr (ac_event_type c)" "hex_n 64 d" "unitE (denial_sha H (PStr d)) = Inr ()"
    "dict_get event ''receipt'' = PDict receipt" "verify_receipt H E load receipt pem = Inr True"
    "dict_get receipt ''payload'' = PDict (receipt_payload c er n d)" "er_private_key er' = er_private_key er"
  using app
proof (cases rule: recorder_append_cases)
  case (written n d b)
  from written(4) [symmetric] obtain message where m: "canonical_bytes H (PDict (receipt_payload c er n d)) = Inr message"
    and ev: "event = full_event c er n d @ [(''receipt'', PDict [(''payload'', PDict (receipt_payload c er n d)),
           (''signature'', PStr (b64_encode (ed_sign E (er_private_key er) message))), (''algorithm'', PStr ''Ed25519'')])]"
    by (auto simp: bindE_Inr_iff)
  obtain ch where ch: "digest H (PDict (event_record c er n)) = Inr d" using written(1) by (rule append_prepare_Inr)
  then have hex: "hex_n 64 d" using host by (auto simp: digest_def bindE_Inr_iff hex_host_def)
  obtain cs where "canonical_value H 0 (PDict (receipt_payload c er n d)) = Inr (PDict cs)"
    using m by (auto elim!: canonical_bytes_cases simp: canonical_dict_iff)
  from canonical_dict_get [OF this, of "''event_hash''"] have "nfc H d = d" "\<not> has_surrogate d" "length d \<le> MAX_CANONICAL_STRING_BYTES"
    by (auto simp: receipt_payload_def dict_get_def bindE_Inr_iff canonical_str_iff)
  then have "okE (canonical_bytes H (PStr d))" using canonical_bytes_ok_iff [of "PStr d" H] hex_wf [OF hex] by (simp add: within_limits_def)
  moreover have "length d = 64" using hex by (simp add: hex_n_def)
  ultimately have "unitE (denial_sha H (PStr d)) = Inr ()"
    using hex \<open>\<not> has_surrogate d\<close> by (auto simp: denial_sha_def denial_text_def utf8_encode_def okE_iff unitE_def)
  then show thesis using that receipt_accepted [where load = load and pem = pem, OF er host written(1) m key ed load] hex written(3)
    unfolding ev by (simp add: full_event_def event_record_def dict_get_def)
qed simp_all

lemma content_checks_built:
  assumes "denial_checks H g = Inr ()" and "g ''archival_status'' \<noteq> PStr ''revoked''" and "hex_n 24 token"
    and "unitE (denial_sha H (PStr root)) = Inr ()" and that: "g ''requested_authority'' = PDict m" "g ''effective_authority'' = PDict m'"
  shows "content_checks H (denial_payload b g token m m' event root) = Inr ()"
proof -
  have "\<forall>n \<in> set denial_digests. unitE (denial_sha H (dict_get (denial_payload b g token m m' event root) n)) = Inr ()"
    using assms(1) denial_payload_digests [of b g token m m' event root] by (auto simp: denial_checks_def seqE_Inr_iff list_all_iff)
  moreover have "one_of (g ''effect_state'') DENIAL_EFFECT_STATES e = Inr ()" "one_of (g ''archival_status'') ARCHIVAL_STATES e = Inr ()"
    "privacy_safe H (PDict m) = Inr ()" "privacy_safe H (PDict m') = Inr ()" for e
    using assms(1) that by (simp_all add: denial_checks_def seqE_Inr_iff one_of_Inr)
  moreover have "prefixed_hex ''deny_'' 24 (''deny_'' @ token)" using assms(3) by (simp add: prefixed_hex_def)
  ultimately show ?thesis
    unfolding content_checks_def denial_payload_lookup seqE_Inr_iff using assms(2,4) by (auto simp: denial_payload_lookup checkE_Inr_iff simp del: append.simps)
qed

lemma signed_payload_built:
  assumes "dn_key_id b = denial_key_id H (ed_public E (dn_private_key b))" and "ed25519_correct E (dn_private_key b)"
    and "canonical_bytes H (PDict (denial_payload b g token m m' event root)) = Inr message"
  shows "signed_payload H E (ed_public E (dn_private_key b)) (denial_envelope E pem b k event (denial_payload b g token m m' event root) message)
     = Inr (denial_payload b g token m m' event root)"
proof -
  let ?s = "ed_sign E (dn_private_key b) message"
  have "length ?s = 64" "ed_verify E (ed_public E (dn_private_key b)) ?s message" using assms(2) by (simp_all add: ed25519_correct_def)
  moreover from this(1) have "is_b64_signature (b64_encode ?s)" by (simp add: is_b64_signature_def length_b64_encode b64_encode_alphabet)
  ultimately show ?thesis
    using denial_payload_fields [of b g token m m' event root] assms(1,3)
    by (simp add: signed_payload_def denial_envelope_lookup denial_payload_lookup b64_decode_encode)
qed

lemma evidence_checks_built:
  assumes "dict_get event ''sequence'' = PInt (er_count er + 1)" "dict_get event ''event_hash'' = PStr root"
    "dict_get event ''event_type'' = PStr ''denial.evaluated''" "dict_get event ''receipt'' = PDict receipt"
    "verify_receipt H E load receipt (pem (ed_public E k)) = Inr True"
    "dict_get receipt ''payload'' = PDict (receipt_payload c er n root)"
    and "load (pem (ed_public E k)) = Inr (Some (ed_public E k))"
    and "nv_trusted_recorder v = None \<or> nv_trusted_recorder v = Some (pem (ed_public E k))"
  shows "evidence_checks H E load v (denial_envelope E pem b k event (denial_payload b g token m m' event root) message)
     (denial_payload b g token m m' event root) = Inr ()"
proof -
  have "recorder_key H load v (denial_envelope E pem b k event (denial_payload b g token m m' event root) message) = Inr (PStr (pem (ed_public E k)))"
    using assms(7,8) by (auto simp: recorder_key_def denial_envelope_lookup load_key_def same_key_def)
  moreover have "verify_receipt H E (\<lambda>_. load_key load (PStr (pem (ed_public E k)))) receipt [] = Inr True"
    using assms(5) by (simp add: load_key_def verify_receipt_def)
  ultimately show ?thesis
    using assms(1-4,6) by (simp add: evidence_checks_def denial_envelope_lookup denial_payload_lookup linked_def int_instance_def int_equals_def
        receipt_payload_def)
qed

lemma trusted_signer_Inr:
  "trusted_signer H load v env = Inr raw \<Longrightarrow> load (nv_trusted_signer v) = Inr (Some raw) \<and> denial_key_id H raw \<notin> set (nv_revoked_signers v)"
  by (auto simp: trusted_signer_def res_simps split: option.splits)

lemma signed_payload_Inr:
  assumes "signed_payload H E raw env = Inr payload"
  obtains s message where "dict_get env ''certificate'' = PDict payload" "dict_get env ''signature'' = PStr s"
    "canonical_bytes H (PDict payload) = Inr message" "ed_verify E raw (b64_decode s) message"
proof -
  obtain p where p: "dict_get env ''certificate'' = PDict p"
    using assms by (cases "dict_get env ''certificate''") (auto simp: signed_payload_def)
  obtain s where s: "dict_get env ''signature'' = PStr s"
    using assms p by (cases "dict_get env ''signature''") (auto simp: signed_payload_def res_simps)
  show thesis using that assms p s by (auto simp: signed_payload_def res_simps split: if_splits)
qed

lemma no_effect_True: "no_effect s = PBool True \<longleftrightarrow> s \<in> set KNOWN_NO_EFFECT_STATES"
  by (simp add: no_effect_def)

lemma content_checks_Inr:
  assumes "content_checks H payload = Inr ()"
  obtains s i where "dict_get payload ''effect_state'' = PStr s" "s \<in> set DENIAL_EFFECT_STATES"
    "dict_get payload ''no_authorized_effect_committed'' = no_effect s" "dict_get payload ''certificate_id'' = PStr i"
proof -
  have "is_str (dict_get payload ''certificate_id'')" "is_str (dict_get payload ''effect_state'')"
    "str_of (dict_get payload ''effect_state'') \<in> set DENIAL_EFFECT_STATES"
    "dict_get payload ''no_authorized_effect_committed'' = no_effect (str_of (dict_get payload ''effect_state''))"
    using assms unfolding content_checks_def seqE_Inr_iff by (simp_all add: one_of_Inr checkE_Inr_iff)
  then show thesis using that by (cases "dict_get payload ''certificate_id''"; cases "dict_get payload ''effect_state''") simp_all
qed

lemma evidence_checks_Inr:
  assumes "evidence_checks H E load v env payload = Inr ()"
  obtains key receipt claimed where "dict_get env ''recorder_receipt'' = PDict receipt" "verify_receipt H E (\<lambda>_. load_key load key) receipt [] = Inr True"
    "case nv_trusted_recorder v of None \<Rightarrow> key = dict_get env ''recorder_public_key_pem'' | Some trusted \<Rightarrow> key = PStr trusted"
    "dict_get receipt ''payload'' = PDict claimed" "dict_get claimed ''event_hash'' = dict_get payload ''evidence_chain_root''"
proof -
  from assms obtain key where key: "recorder_key H load v env = Inr key" by (auto simp: evidence_checks_def bindE_Inr_iff)
  then have k: "case nv_trusted_recorder v of None \<Rightarrow> key = dict_get env ''recorder_public_key_pem'' | Some trusted \<Rightarrow> key = PStr trusted"
    by (auto simp: recorder_key_def res_simps split: option.splits)
  obtain receipt where r: "dict_get env ''recorder_receipt'' = PDict receipt"
    using assms key by (cases "dict_get env ''recorder_receipt''") (auto simp: evidence_checks_def)
  then obtain ok where ok: "verify_receipt H E (\<lambda>_. load_key load key) receipt [] = Inr ok"
    using assms key by (auto simp: evidence_checks_def bindE_Inr_iff)
  then obtain claimed where c: "ok" "dict_get receipt ''payload'' = PDict claimed"
    using assms key r by (cases ok; cases "dict_get receipt ''payload''") (auto simp: evidence_checks_def)
  then have "dict_get claimed ''event_hash'' = dict_get payload ''evidence_chain_root''"
    using assms key r ok by (auto simp: evidence_checks_def linked_def res_simps split: pyval.splits list.splits)
  moreover from c(1) ok have "verify_receipt H E (\<lambda>_. load_key load key) receipt [] = Inr True" by simp
  ultimately show thesis using that k r c(2) by blast
qed

text \<open>After an accepted append the file verifies with the new event as its tip, so that the builder goes on.\<close>

lemma denial_build_succeeds:
  assumes "recorder_ok H parse er" and "hex_host H" and "call_ok parse (denial_call g e)" and "denial_checks H g = Inr ()"
    and "recorder_append H E parse (denial_call g e) er = (Inr event, er')" and "dict_get event ''event_hash'' = PStr d"
    and "g ''requested_authority'' = PDict m" and "g ''effective_authority'' = PDict m'"
    and "canonical_bytes H (PDict (denial_payload b g token m m' event d)) = Inr message"
  shows "denial_build H E parse pem b g e token er =
     (Inr (denial_envelope E pem b (er_private_key er') event (denial_payload b g token m m' event d) message), er')"
proof -
  have "recorder_verify H parse er' = Inr (True, d)"
    using assms(5)
  proof (cases rule: recorder_append_cases)
    case (written n d' b')
    have "d' = d" using written(4) assms(6) by (auto simp: bindE_Inr_iff full_event_def event_record_def dest!: sym [of "Inr event"])
    moreover obtain cs where "scan_file H parse (er_max_event_bytes er) (Some (file_text er @ encoded_line (er_max_event_bytes er) b')) =
        Inr (None, \<lparr>ch_tip = d', ch_count = er_count er + 1, ch_sources = (er_sources er)(ac_source_id (denial_call g e) \<mapsto> n)\<rparr>)"
      using appended_scan [OF assms(1-3) written(1)] by blast
    ultimately show ?thesis using written(3) by (simp add: recorder_verify_def)
  qed simp_all
  then show ?thesis
    using assms(4-9) by (simp add: denial_build_def bindS_def liftS_def py_dict_def)
qed

text \<open>The errors \<open>verify\<close> turns into a negative answer do not include the one a key that is no string causes.\<close>

lemma non_text_key_escapes:
  assumes "set_eq_list (map fst env) envelope_fields" and "dict_get env ''algorithm'' = PStr ''Ed25519''"
    and "load (nv_trusted_signer v) = Inr (Some raw)" and "\<not> is_str (dict_get env ''public_key_pem'')"
  shows "denial_verify H E load describe (PDict env) v = (Inl (AttributeError ''encode''), v)"
proof -
  have "load_key load (dict_get env ''public_key_pem'') = Inl (AttributeError ''encode'')"
    using assms(4) by (cases "dict_get env ''public_key_pem''") (simp_all add: load_key_def)
  then have "trusted_signer H load v env = Inl (AttributeError ''encode'')" using assms(2,3) by (simp add: trusted_signer_def)
  then show ?thesis using assms(1) by (simp add: denial_verify_def denial_verified_def bindS_def liftS_def value_or_type_error_def)
qed

section \<open>Properties\<close>

text \<open>
  C20: what an accepted denial certificate shows. The claims are signed by the trusted, unrevoked signer; the certificate says that no
  authorized effect was committed exactly when its state is one of a denial before the effect; a valid receipt of the
  recorder, under the trusted recorder key where one is configured, is for the event at the chain root the certificate
  names; and the certificate ID was not seen before and is remembered. A certificate that is not accepted leaves the verifier as it was.
\<close>

theorem certificate_sound:
  "case denial_verify H E load describe envelope v of (result, v') \<Rightarrow> (case result of Inl _ \<Rightarrow> v' = v | Inr r \<Rightarrow>
     if \<not> nr_valid r then v' = v
     else \<exists>env raw payload signature message effect_state i key receipt claimed.
       envelope = PDict env \<and> load (nv_trusted_signer v) = Inr (Some raw) \<and> denial_key_id H raw \<notin> set (nv_revoked_signers v)
       \<and> dict_get env ''certificate'' = PDict payload \<and> dict_get env ''signature'' = PStr signature
       \<and> canonical_bytes H (PDict payload) = Inr message \<and> ed_verify E raw (b64_decode signature) message
       \<and> nr_effect_state r = Some effect_state \<and> dict_get payload ''effect_state'' = PStr effect_state \<and> effect_state \<in> set DENIAL_EFFECT_STATES
       \<and> (dict_get payload ''no_authorized_effect_committed'' = PBool True \<longleftrightarrow> effect_state \<in> set KNOWN_NO_EFFECT_STATES)
       \<and> dict_get env ''recorder_receipt'' = PDict receipt \<and> verify_receipt H E (\<lambda>_. load_key load key) receipt [] = Inr True
       \<and> (case nv_trusted_recorder v of None \<Rightarrow> key = dict_get env ''recorder_public_key_pem'' | Some trusted \<Rightarrow> key = PStr trusted)
       \<and> dict_get receipt ''payload'' = PDict claimed \<and> dict_get claimed ''event_hash'' = dict_get payload ''evidence_chain_root''
       \<and> nr_certificate_id r = Some i \<and> dict_get payload ''certificate_id'' = PStr i
       \<and> (case nv_seen v of None \<Rightarrow> v' = v | Some ids \<Rightarrow> i \<notin> set ids \<and> v' = v\<lparr>nv_seen := Some (i # ids)\<rparr>))"
proof -
  obtain r v' where d: "denial_verified H E load envelope v = (r, v')" by fastforce
  show ?thesis
  proof (cases r)
    case (Inl e)
    have "v' = v"
      using d Inl by (cases envelope) (auto simp: denial_verified_def bindS_def liftS_def mark_seen_def split: prod.splits sum.splits option.splits if_splits)
    then show ?thesis using d Inl by (simp add: denial_verify_def)
  next
    case (Inr x)
    then obtain env raw payload where env: "envelope = PDict env" and 1: "trusted_signer H load v env = Inr raw"
      and 2: "signed_payload H E raw env = Inr payload" and 3: "content_checks H payload = Inr ()" and 4: "evidence_checks H E load v env payload = Inr ()"
      and 5: "mark_seen (str_of (dict_get payload ''certificate_id'')) v = (Inr (), v')"
      and x: "x = \<lparr>nr_valid = True, nr_reason = ''verified'', nr_certificate_id = Some (str_of (dict_get payload ''certificate_id'')),
                   nr_effect_state = Some (str_of (dict_get payload ''effect_state''))\<rparr>"
      using d by (cases envelope) (auto simp: denial_verified_def state_simps)
    obtain signature message where s: "dict_get env ''certificate'' = PDict payload" "dict_get env ''signature'' = PStr signature"
      "canonical_bytes H (PDict payload) = Inr message" "ed_verify E raw (b64_decode signature) message"
      using 2 by (rule signed_payload_Inr)
    obtain es i where c: "dict_get payload ''effect_state'' = PStr es" "es \<in> set DENIAL_EFFECT_STATES"
      "dict_get payload ''no_authorized_effect_committed'' = no_effect es" "dict_get payload ''certificate_id'' = PStr i"
      using 3 by (rule content_checks_Inr)
    obtain key receipt claimed where e: "dict_get env ''recorder_receipt'' = PDict receipt" "verify_receipt H E (\<lambda>_. load_key load key) receipt [] = Inr True"
      "case nv_trusted_recorder v of None \<Rightarrow> key = dict_get env ''recorder_public_key_pem'' | Some trusted \<Rightarrow> key = PStr trusted"
      "dict_get receipt ''payload'' = PDict claimed" "dict_get claimed ''event_hash'' = dict_get payload ''evidence_chain_root''"
      using 4 by (rule evidence_checks_Inr)
    have seen: "case nv_seen v of None \<Rightarrow> v' = v | Some ids \<Rightarrow> i \<notin> set ids \<and> v' = v\<lparr>nv_seen := Some (i # ids)\<rparr>"
      using 5 c(4) by (simp add: mark_seen_Inr)
    have "denial_verify H E load describe envelope v = (Inr x, v')" using d Inr by (simp add: denial_verify_def)
    moreover have "nr_valid x" "nr_certificate_id x = Some i" "nr_effect_state x = Some es" using x c(1,4) by simp_all
    moreover have "dict_get payload ''no_authorized_effect_committed'' = PBool True \<longleftrightarrow> es \<in> set KNOWN_NO_EFFECT_STATES"
      using c(3) no_effect_True by simp
    ultimately show ?thesis
      using trusted_signer_Inr [OF 1] s c(1,2,4) e seen env
      by (simp only: prod.case sum.case if_False not_True_eq_False) blast
  qed
qed

text \<open>
  C21: a built certificate is accepted. What the builder returns for a denial it recorded is verified by a verifier that trusts the key
  of the builder and of the recorder, unless the certificate is archived as revoked, its signer is revoked or its ID was seen.
\<close>

theorem certificate_verifies:
  assumes "recorder_ok H parse er" and "hex_host H" and "er_key_id er = ''ed25519:'' @ take 32 (sha256_hex H (ed_public E (er_private_key er)))"
    and "ed25519_correct E (er_private_key er)"
    and "denial_builder_init H E signing = Inr b" and "ed25519_correct E (dn_private_key b)"
    and "denial_build H E parse pem b g e token er = (Inr envelope, er')" and "hex_n 24 token"
    and "g ''requested_authority'' = PDict m" and "g ''effective_authority'' = PDict m'" and "g ''archival_status'' \<noteq> PStr ''revoked''"
    and "load (pem (ed_public E (dn_private_key b))) = Inr (Some (ed_public E (dn_private_key b)))"
    and "load (pem (ed_public E (er_private_key er))) = Inr (Some (ed_public E (er_private_key er)))"
    and "nv_trusted_signer v = pem (ed_public E (dn_private_key b))" and "dn_key_id b \<notin> set (nv_revoked_signers v)"
    and "nv_trusted_recorder v = None \<or> nv_trusted_recorder v = Some (pem (ed_public E (er_private_key er)))"
    and "case nv_seen v of None \<Rightarrow> True | Some ids \<Rightarrow> ''deny_'' @ token \<notin> set ids"
  shows "\<exists>v'. denial_verify H E load describe (PDict envelope) v = (Inr \<lparr>nr_valid = True, nr_reason = ''verified'',
     nr_certificate_id = Some (''deny_'' @ token), nr_effect_state = Some (str_of (g ''effect_state''))\<rparr>, v')"
proof -
  obtain event root requested effective message where b: "denial_checks H g = Inr ()"
    "recorder_append H E parse (denial_call g e) er = (Inr event, er')"
    "dict_get event ''event_hash'' = PStr root"
    "py_dict (g ''requested_authority'') = Inr requested" "py_dict (g ''effective_authority'') = Inr effective"
    "canonical_bytes H (PDict (denial_payload b g token requested effective event root)) = Inr message"
    "envelope = denial_envelope E pem b (er_private_key er') event (denial_payload b g token requested effective event root) message"
    using assms(7) by (rule denial_build_cases)
  have req: "requested = m" "effective = m'" using b(4,5) assms(9,10) by (simp_all add: py_dict_def)
  have kid: "dn_key_id b = denial_key_id H (ed_public E (dn_private_key b))"
    using assms(5) by (auto simp: denial_builder_init_def res_simps)
  obtain n d receipt where r: "dict_get event ''sequence'' = PInt (er_count er + 1)" "dict_get event ''event_hash'' = PStr d"
    "dict_get event ''event_type'' = PStr (ac_event_type (denial_call g e))" "hex_n 64 d" "unitE (denial_sha H (PStr d)) = Inr ()"
    "dict_get event ''receipt'' = PDict receipt" "verify_receipt H E load receipt (pem (ed_public E (er_private_key er))) = Inr True"
    "dict_get receipt ''payload'' = PDict (receipt_payload (denial_call g e) er n d)" "er_private_key er' = er_private_key er"
    using recorded_event [where load = load and pem = "pem (ed_public E (er_private_key er))", OF assms(1,2) b(2) assms(3,4,13)] by blast
  have rt: "root = d" using b(3) r(2) by simp
  let ?p = "denial_payload b g token m m' event d"
  let ?env = "denial_envelope E pem b (er_private_key er) event ?p message"
  have 1: "trusted_signer H load v ?env = Inr (ed_public E (dn_private_key b))"
    using assms(12,14,15) kid by (simp add: trusted_signer_def denial_envelope_lookup load_key_def same_key_def)
  have 2: "signed_payload H E (ed_public E (dn_private_key b)) ?env = Inr ?p"
    using signed_payload_built [OF kid assms(6)] b(6) by (simp add: req rt)
  have 3: "content_checks H ?p = Inr ()"
    by (rule content_checks_built [OF b(1) assms(11,8) r(5) assms(9,10)])
  have 4: "evidence_checks H E load v ?env ?p = Inr ()"
    by (rule evidence_checks_built [where load = load and pem = pem and k = "er_private_key er", OF r(1,2) _ r(6,7,8) assms(13,16)]) (simp add: r(3) denial_call_def)
  obtain v' where 5: "mark_seen (''deny_'' @ token) v = (Inr (), v')"
    using assms(17) by (cases "nv_seen v") (auto simp: mark_seen_def)
  have "envelope = ?env" using b(7) by (simp add: req rt r(9))
  then show ?thesis
    using 1 2 3 4 5 denial_envelope_fields [of E pem b "er_private_key er" event ?p message]
    by (simp add: denial_verify_def denial_verified_def bindS_def liftS_def denial_payload_lookup)
qed

definition demo_denial :: "string \<Rightarrow> pyval" where
  "demo_denial = dict_get ([(''effect_state'', PStr ''denied-before-effect''), (''archival_status'', PStr ''active''),
     (''denial_timestamp_ms'', PInt 100000), (''campaign_id'', PNone), (''requested_authority'', PDict [(''action'', PStr ''read'')]),
     (''effective_authority'', PDict [])] @ map (\<lambda>n. (n, PStr ''v1'')) denial_texts @ map (\<lambda>n. (n, PStr demo_digest)) denial_digests)"

abbreviation demo_outcome :: "pyfloat \<times> pyfloat \<times> write_outcome" where
  "demo_outcome \<equiv> (FFinite ''1.5'', FFinite ''1.5'', Written)"

definition wide_recorder :: recorder where
  "wide_recorder = demo_recorder\<lparr>er_max_event_bytes := 2048\<rparr>"

definition demo_signer :: denial_builder where
  "demo_signer = \<lparr>dn_private_key = ''d'', dn_key_id = ''ed25519:'' @ take 32 demo_digest\<rparr>"

lemma demo_denial_checks: "denial_checks demo_host demo_denial = Inr ()"
  by code_simp

definition demo_full_event :: dict where
  "demo_full_event = full_event (denial_call demo_denial demo_outcome) wide_recorder 1 demo_digest"

lemma demo_full_event_bytes: "case canonical_bytes demo_host (PDict demo_full_event) of Inl _ \<Rightarrow> False | Inr b \<Rightarrow> length b < 2048"
  by code_simp

lemma demo_event_digest: "okE (canonical_bytes demo_host (PDict (event_record (denial_call demo_denial demo_outcome) wide_recorder 1)))"
  by code_simp

lemma demo_receipt_bytes: "okE (canonical_bytes demo_host (PDict (receipt_payload (denial_call demo_denial demo_outcome) wide_recorder 1 demo_digest)))"
  by code_simp

lemma demo_event_type: "\<not> 128 < length (code_points (ac_event_type (denial_call demo_denial demo_outcome)) [])"
  by code_simp

lemma wide_recorder_simps: "er_file wide_recorder = None" "er_max_event_bytes wide_recorder = 2048" "er_private_key wide_recorder = ''k''"
  "er_tip wide_recorder = ch_tip genesis" "er_count wide_recorder = 0" "er_key_id wide_recorder = ''ed25519:'' @ take 32 demo_digest"
  by (simp_all add: wide_recorder_def demo_recorder_def genesis_def)

lemma wide_recorder_ok: "recorder_ok demo_host demo_parse wide_recorder"
  by (simp add: recorder_ok_def wide_recorder_def demo_recorder_def scan_file_def genesis_def remembered_def file_text_def)

lemma denial_call_simps:
  "ac_event_type (denial_call g e) = ''denial.evaluated''" "ac_source_id (denial_call g e) = ''local''" "ac_source_sequence (denial_call g e) = None"
  "ac_write (denial_call g e) = snd (snd e)" "ac_payload (denial_call g e) = denial_event g" "ac_timestamp (denial_call g e) = fst e"
  by (simp_all add: denial_call_def)

lemma demo_denial_append:
  obtains event er' where "recorder_append demo_host demo_ed25519 demo_parse (denial_call demo_denial demo_outcome) wide_recorder = (Inr event, er')"
    "dict_get event ''event_hash'' = PStr demo_digest" "dict_get event ''sequence'' = PInt 1"
    "dict_get event ''event_type'' = PStr ''denial.evaluated''" "er_private_key er' = ''k''"
proof -
  let ?c = "denial_call demo_denial demo_outcome"
  have d: "digest demo_host (PDict (event_record ?c wide_recorder 1)) = Inr demo_digest"
    using demo_event_digest by (auto simp: okE_iff digest_def demo_host_def)
  obtain b where b: "canonical_bytes demo_host (PDict (event_record ?c wide_recorder 1 @ [(''event_hash'', PStr demo_digest)])) = Inr b" "length b < 2048"
    using demo_full_event_bytes by (auto simp: demo_full_event_def full_event_def split: sum.splits)
  have prep: "append_prepare demo_host demo_parse ?c wide_recorder = Inr (1, demo_digest, b)"
    using d b demo_event_type
    by (simp add: append_prepare_def wide_recorder_simps scan_file_def genesis_def source_count_def denial_call_simps)
  obtain message where m: "canonical_bytes demo_host (PDict (receipt_payload ?c wide_recorder 1 demo_digest)) = Inr message"
    using demo_receipt_bytes by (auto simp: okE_iff)
  show thesis
    by (rule that, subst recorder_append_def, simp only: prep m prod.case sum.case Let_def denial_call_simps snd_conv write_outcome.case bindE.simps)
      (simp_all add: event_record_def wide_recorder_simps denial_call_simps)
qed

definition demo_denial_payload :: dict where
  "demo_denial_payload = denial_payload demo_signer demo_denial demo_token [(''action'', PStr ''read'')] []
     [(''sequence'', PInt 1), (''event_hash'', PStr demo_digest), (''event_type'', PStr ''denial.evaluated'')] demo_digest"

lemma demo_denial_values: "list_all demo_value_ok (subvalues 0 (PDict demo_denial_payload))" "list_all demo_value_ok (subvalues 0 (PDict (denial_event demo_denial)))"
  by code_simp+

lemma denial_payload_event:
  "dict_get event ''sequence'' = dict_get event' ''sequence'' \<Longrightarrow> dict_get event ''event_hash'' = dict_get event' ''event_hash'' \<Longrightarrow>
   dict_get event ''event_type'' = dict_get event' ''event_type'' \<Longrightarrow>
   denial_payload b g token m m' event root = denial_payload b g token m m' event' root"
  by (simp add: denial_payload_def)

lemma demo_denial_call: "call_ok demo_parse (denial_call demo_denial demo_outcome)"
proof -
  have "float_free (PDict (denial_event demo_denial)) \<and> wf_val (PDict (denial_event demo_denial))"
    using demo_denial_values(2) demo_value_ok_wf [of 0 "PDict (denial_event demo_denial)"] by (simp add: list_all_iff)
  then show ?thesis using demo_float float_free_loaded [of "PDict (denial_event demo_denial)"] by (simp add: call_ok_def denial_call_simps wf_str_def lead_ok_def)
qed

theorem certificate_verifies_witness:
  "\<exists>envelope er' v'. denial_build demo_host demo_ed25519 demo_parse id demo_signer demo_denial demo_outcome demo_token wide_recorder = (Inr envelope, er')
     \<and> denial_verify demo_host demo_ed25519 (\<lambda>s. Inr (Some s)) (\<lambda>_. []) (PDict envelope)
         \<lparr>nv_trusted_signer = ''d'', nv_trusted_recorder = Some ''k'', nv_revoked_signers = [], nv_seen = Some []\<rparr>
       = (Inr \<lparr>nr_valid = True, nr_reason = ''verified'', nr_certificate_id = Some (''deny_'' @ demo_token),
               nr_effect_state = Some ''denied-before-effect''\<rparr>, v')"
proof -
  obtain event er' where e: "recorder_append demo_host demo_ed25519 demo_parse (denial_call demo_denial demo_outcome) wide_recorder = (Inr event, er')"
    "dict_get event ''event_hash'' = PStr demo_digest" "dict_get event ''sequence'' = PInt 1"
    "dict_get event ''event_type'' = PStr ''denial.evaluated''" "er_private_key er' = ''k''"
    by (rule demo_denial_append)
  have p: "denial_payload demo_signer demo_denial demo_token [(''action'', PStr ''read'')] [] event demo_digest = demo_denial_payload"
    unfolding demo_denial_payload_def by (rule denial_payload_event) (simp_all add: e)
  obtain message where m: "canonical_bytes demo_host (PDict demo_denial_payload) = Inr message"
    using demo_canonical [OF demo_denial_values(1)] by (auto simp: okE_iff)
  have g: "demo_denial ''requested_authority'' = PDict [(''action'', PStr ''read'')]" "demo_denial ''effective_authority'' = PDict []"
    "demo_denial ''archival_status'' = PStr ''active''" "demo_denial ''effect_state'' = PStr ''denied-before-effect''"
    by (simp_all add: demo_denial_def)
  have build: "denial_build demo_host demo_ed25519 demo_parse id demo_signer demo_denial demo_outcome demo_token wide_recorder =
      (Inr (denial_envelope demo_ed25519 id demo_signer (er_private_key er') event demo_denial_payload message), er')"
    using denial_build_succeeds [OF wide_recorder_ok demo_hex_host demo_denial_call demo_denial_checks e(1,2) g(1,2)] m p by simp
  have init: "denial_builder_init demo_host demo_ed25519 (Private_key ''d'') = Inr demo_signer"
    by (simp add: denial_builder_init_def demo_signer_def denial_key_id_def demo_host_def)
  have key: "er_key_id wide_recorder = ''ed25519:'' @ take 32 (sha256_hex demo_host (ed_public demo_ed25519 (er_private_key wide_recorder)))"
    by (simp add: wide_recorder_simps demo_host_def)
  have token: "hex_n 24 demo_token" by code_simp
  show ?thesis
    using certificate_verifies [where load = "\<lambda>s. Inr (Some s)" and describe = "\<lambda>_. []" and v = "\<lparr>nv_trusted_signer = ''d'', nv_trusted_recorder = Some ''k'', nv_revoked_signers = [], nv_seen = Some []\<rparr>",
        OF wide_recorder_ok demo_hex_host key demo_ed_correct init demo_ed_correct build token g(1,2)] build
    by (simp add: g demo_signer_def wide_recorder_simps demo_ed25519_def del: append.simps)
qed

end
