(* ===== verification/Canary.thy ===== *)
theory Canary
  imports Denial
begin

text \<open>
  \<open>canary.py\<close>: signed tripwires that look like capabilities and authorise nothing. Issuing, verifying and the redemption that
  always ends in a denial are modelled, with the evidence events and the denial certificate of every interaction.
\<close>

section \<open>Definitions\<close>

definition CANARY_SCHEMA :: string where
  "CANARY_SCHEMA = ''event-horizon.canary-capability.v1''"

definition CANARY_EVENT_TYPES :: "string list" where
  "CANARY_EVENT_TYPES = [''discovery'', ''inspection'', ''mutation'', ''transfer'', ''redemption'']"

definition SUBTRACTIVE_RESPONSES :: "string list" where
  "SUBTRACTIVE_RESPONSES = [''deny'', ''reduce-budget'', ''remove-tools'', ''revoke-capabilities'', ''require-reattestation'',
     ''quarantine'', ''terminate'', ''human-review'', ''hardware-safe-state'']"

definition canary_text :: "host \<Rightarrow> pyval \<Rightarrow> nat \<Rightarrow> string res" where
  "canary_text H v maximum = (case v of
     PStr s \<Rightarrow>
       if s = [] then Inl (ValidationError ''must be a non-empty bounded string'')
       else bindE (utf8_encode s) (\<lambda>b.
         if length b > maximum then Inl (ValidationError ''must be a non-empty bounded string'')
         else bindE (canonical_bytes H v) (\<lambda>_. Inr s))
   | _ \<Rightarrow> Inl (ValidationError ''must be a non-empty bounded string''))"

record canary_claims =
  cy_schema :: string
  cy_canary_id :: string
  cy_campaign_id :: string
  cy_session_id :: string
  cy_workload_id :: string
  cy_tenant :: string
  cy_environment :: string
  cy_seed_location :: string
  cy_version :: string
  cy_policy_version :: string
  cy_issued_at_ms :: int
  cy_expires_at_ms :: int
  cy_representation_digest :: string
  cy_canary_status :: string

definition canary_fields :: "string list" where
  "canary_fields = [''schema'', ''canary_id'', ''campaign_id'', ''session_id'', ''workload_id'', ''tenant'', ''environment'',
     ''seed_location'', ''version'', ''policy_version'', ''issued_at_ms'', ''expires_at_ms'', ''representation_digest'', ''canary_status'']"

text \<open>\<open>pattern.fullmatch(v)\<close> raises on a value that is no string.\<close>

definition matches :: "(string \<Rightarrow> bool) \<Rightarrow> pyval \<Rightarrow> exn \<Rightarrow> unit res" where
  "matches p v e = (case v of PStr s \<Rightarrow> checkE (\<not> p s) e | _ \<Rightarrow> Inl (TypeError ''expected string or bytes-like object''))"

definition canary_checks :: "host \<Rightarrow> (string \<Rightarrow> pyval) \<Rightarrow> unit res" where
  "canary_checks H g = seqE (
     [checkE (g ''schema'' \<noteq> PStr CANARY_SCHEMA \<or> g ''canary_status'' \<noteq> PStr ''non-effect-tripwire'')
        (ValidationError ''canary schema or status is invalid''),
      matches (prefixed_hex ''canary_'' 24) (g ''canary_id'') (ValidationError ''canary ID is malformed'')]
     @ map (\<lambda>n. unitE (canary_text H (g n) 256)) [''campaign_id'', ''session_id'', ''workload_id'', ''tenant'', ''environment'',
         ''seed_location'', ''version'', ''policy_version'']
     @ [checkE (\<not> is_int (g ''issued_at_ms'') \<or> \<not> is_int (g ''expires_at_ms'')) (ValidationError ''canary timestamps must be integers''),
        checkE (\<not> (0 < int_of (g ''expires_at_ms'') - int_of (g ''issued_at_ms'')
                  \<and> int_of (g ''expires_at_ms'') - int_of (g ''issued_at_ms'') \<le> 300000)) (ValidationError ''canary lifetime is invalid''),
        matches (hex_n 64) (g ''representation_digest'') (ValidationError ''canary representation digest is invalid'')])"

definition canary_build :: "(string \<Rightarrow> pyval) \<Rightarrow> canary_claims" where
  "canary_build g = \<lparr>cy_schema = str_of (g ''schema''), cy_canary_id = str_of (g ''canary_id''), cy_campaign_id = str_of (g ''campaign_id''),
     cy_session_id = str_of (g ''session_id''), cy_workload_id = str_of (g ''workload_id''), cy_tenant = str_of (g ''tenant''),
     cy_environment = str_of (g ''environment''), cy_seed_location = str_of (g ''seed_location''), cy_version = str_of (g ''version''),
     cy_policy_version = str_of (g ''policy_version''), cy_issued_at_ms = int_of (g ''issued_at_ms''),
     cy_expires_at_ms = int_of (g ''expires_at_ms''), cy_representation_digest = str_of (g ''representation_digest''),
     cy_canary_status = str_of (g ''canary_status'')\<rparr>"

definition canary_init :: "host \<Rightarrow> (string \<Rightarrow> pyval) \<Rightarrow> canary_claims res" where
  "canary_init H g = bindE (canary_checks H g) (\<lambda>_. Inr (canary_build g))"

definition canary_to_dict :: "canary_claims \<Rightarrow> dict" where
  "canary_to_dict c =
     [(''schema'', PStr (cy_schema c)), (''canary_id'', PStr (cy_canary_id c)), (''campaign_id'', PStr (cy_campaign_id c)),
      (''session_id'', PStr (cy_session_id c)), (''workload_id'', PStr (cy_workload_id c)), (''tenant'', PStr (cy_tenant c)),
      (''environment'', PStr (cy_environment c)), (''seed_location'', PStr (cy_seed_location c)), (''version'', PStr (cy_version c)),
      (''policy_version'', PStr (cy_policy_version c)), (''issued_at_ms'', PInt (cy_issued_at_ms c)),
      (''expires_at_ms'', PInt (cy_expires_at_ms c)), (''representation_digest'', PStr (cy_representation_digest c)),
      (''canary_status'', PStr (cy_canary_status c))]"

definition canary_from_dict :: "host \<Rightarrow> pyval \<Rightarrow> canary_claims res" where
  "canary_from_dict H v = (case v of
     PDict m \<Rightarrow> if \<not> set_eq_list (map fst m) canary_fields then Inl (ValidationError ''canary claim fields are invalid'')
                else canary_init H (dict_get m)
   | _ \<Rightarrow> Inl (ValidationError ''canary claim fields are invalid''))"

record canary_capability =
  cn_claims :: canary_claims
  cn_signature :: string
  cn_key_id :: string

definition canary_capability_init :: "host \<Rightarrow> canary_claims \<Rightarrow> pyval \<Rightarrow> pyval \<Rightarrow> pyval \<Rightarrow> canary_capability res" where
  "canary_capability_init H claims signature key_id algorithm =
     bindE (checkE (algorithm \<noteq> PStr ''Ed25519'') (ValidationError ''canary signature envelope is invalid'')) (\<lambda>_.
     bindE (matches (\<lambda>s. length s = 86 \<and> list_all is_b64url s) signature (ValidationError ''canary signature envelope is invalid'')) (\<lambda>_.
     bindE (canary_text H key_id 64) (\<lambda>k. Inr \<lparr>cn_claims = claims, cn_signature = str_of signature, cn_key_id = k\<rparr>)))"

definition canary_capability_to_dict :: "canary_capability \<Rightarrow> dict" where
  "canary_capability_to_dict c = [(''algorithm'', PStr ''Ed25519''), (''canary_claims'', PDict (canary_to_dict (cn_claims c))),
     (''signature'', PStr (cn_signature c)), (''key_id'', PStr (cn_key_id c))]"

definition canary_capability_from_dict :: "host \<Rightarrow> pyval \<Rightarrow> canary_capability res" where
  "canary_capability_from_dict H v = (case v of
     PDict m \<Rightarrow>
       if \<not> set_eq_list (map fst m) [''algorithm'', ''canary_claims'', ''signature'', ''key_id'']
       then Inl (ValidationError ''canary envelope fields are invalid'')
       else bindE (canary_from_dict H (dict_get m ''canary_claims'')) (\<lambda>claims.
         canary_capability_init H claims (dict_get m ''signature'') (dict_get m ''key_id'') (dict_get m ''algorithm''))
   | _ \<Rightarrow> Inl (ValidationError ''canary envelope fields are invalid''))"

definition response_policy_init :: "string list \<Rightarrow> string list res" where
  "response_policy_init actions =
     (if actions = [] \<or> \<not> distinct actions then Inl (ValueError ''canary response actions must be unique and non-empty'')
      else if \<not> subset_list actions SUBTRACTIVE_RESPONSES then Inl (ValueError ''canary response may contain only subtractive actions'')
      else Inr actions)"

subsection \<open>Issuing\<close>

record canary_seed =
  cs_campaign_id :: pyval
  cs_session_id :: pyval
  cs_workload_id :: pyval
  cs_tenant :: pyval
  cs_environment :: pyval
  cs_seed_location :: pyval
  cs_policy_version :: pyval
  cs_representation :: pyval
  cs_now_ms :: int
  cs_ttl_ms :: int
  cs_enabled :: bool
  cs_production :: bool

definition canary_args :: "canary_seed \<Rightarrow> string \<Rightarrow> string \<Rightarrow> string \<Rightarrow> pyval" where
  "canary_args i token representation_digest = dict_get
     [(''schema'', PStr CANARY_SCHEMA), (''canary_id'', PStr (''canary_'' @ token)), (''campaign_id'', cs_campaign_id i),
      (''session_id'', cs_session_id i), (''workload_id'', cs_workload_id i), (''tenant'', cs_tenant i), (''environment'', cs_environment i),
      (''seed_location'', cs_seed_location i), (''version'', PStr ''v1''), (''policy_version'', cs_policy_version i),
      (''issued_at_ms'', PInt (cs_now_ms i)), (''expires_at_ms'', PInt (cs_now_ms i + cs_ttl_ms i)),
      (''representation_digest'', PStr representation_digest), (''canary_status'', PStr ''non-effect-tripwire'')]"

definition canary_issue :: "host \<Rightarrow> ed25519 \<Rightarrow> string \<Rightarrow> canary_seed \<Rightarrow> string \<Rightarrow> canary_capability res" where
  "canary_issue H E private_key i token =
     bindE (checkE (\<not> cs_enabled i) (CanaryError ''canary seeding is disabled'')) (\<lambda>_.
     bindE (checkE (cs_production i) (CanaryError ''test canaries cannot be seeded in production configuration'')) (\<lambda>_.
     bindE (digest H (cs_representation i)) (\<lambda>d.
     bindE (canary_init H (canary_args i token d)) (\<lambda>claims.
     bindE (canonical_bytes H (PDict (canary_to_dict claims))) (\<lambda>message.
     canary_capability_init H claims (PStr (b64_encode (ed_sign E private_key message)))
       (PStr (capability_key_id H (ed_public E private_key))) (PStr ''Ed25519''))))))"

subsection \<open>Verifying\<close>

record canary_verifier =
  cw_public_key :: string
  cw_key_id :: string
  cw_tenant :: string
  cw_environment :: string
  cw_responses :: "string list"
  cw_builder :: denial_builder
  cw_context :: "(string \<times> pyval) list"

text \<open>The public key is already loaded; a key that is no Ed25519 key is \<open>None\<close>. Where no certificate builder is given, a fresh one is made.\<close>

definition canary_verifier_init ::
  "host \<Rightarrow> string option \<Rightarrow> string \<Rightarrow> pyval \<Rightarrow> pyval \<Rightarrow> string list \<Rightarrow> denial_builder \<Rightarrow> (string \<times> pyval) list \<Rightarrow> canary_verifier res" where
  "canary_verifier_init H public_key key_id tenant environment responses builder context = (case public_key of
     None \<Rightarrow> Inl (ValueError ''canary public key identity mismatch'')
   | Some raw \<Rightarrow>
       if capability_key_id H raw \<noteq> key_id then Inl (ValueError ''canary public key identity mismatch'')
       else bindE (canary_text H tenant 256) (\<lambda>t. bindE (canary_text H environment 256) (\<lambda>e.
         Inr \<lparr>cw_public_key = raw, cw_key_id = key_id, cw_tenant = t, cw_environment = e, cw_responses = responses, cw_builder = builder, cw_context = context\<rparr>)))"

definition canary_verified :: "host \<Rightarrow> ed25519 \<Rightarrow> canary_verifier \<Rightarrow> canary_capability \<Rightarrow> int \<Rightarrow> canary_claims res" where
  "canary_verified H E v capability now =
     bindE (canary_capability_from_dict H (PDict (canary_capability_to_dict capability))) (\<lambda>parsed.
     bindE (checkE (cn_key_id parsed \<noteq> cw_key_id v) (CanaryError ''unknown canary signing key'')) (\<lambda>_.
     bindE (catchE (bindE (canonical_bytes H (PDict (canary_to_dict (cn_claims parsed)))) (\<lambda>message.
              checkE (\<not> ed_verify E (cw_public_key v) (b64_decode (cn_signature parsed)) message) (ValueError ''invalid signature'')))
              is_value_error (CanaryError ''invalid canary signature'')) (\<lambda>_.
     let c = cn_claims parsed in
     bindE (checkE (now < cy_issued_at_ms c - 5000 \<or> now \<ge> cy_expires_at_ms c) (CanaryError ''canary is not currently valid'')) (\<lambda>_.
     bindE (checkE (cy_tenant c \<noteq> cw_tenant v \<or> cy_environment c \<noteq> cw_environment v) (CanaryError ''canary tenant or environment mismatch'')) (\<lambda>_.
     Inr c)))))"

record interaction =
  ia_event_type :: string
  ia_request :: "action_request option"
  ia_representation :: "pyval option"
  ia_mutation_diff :: dict
  ia_now_ms :: int
  ia_effect_state :: string

definition interaction_type :: "host \<Rightarrow> interaction \<Rightarrow> canary_claims \<Rightarrow> string res" where
  "interaction_type H i c =
     (let transfer = (case ia_request i of None \<Rightarrow> False
          | Some r \<Rightarrow> ar_session_id r \<noteq> cy_session_id c \<or> ar_executor_id r \<noteq> cy_workload_id c);
          t = (if transfer then ''transfer'' else ia_event_type i) in
      case ia_representation i of
        None \<Rightarrow> Inr t
      | Some rep \<Rightarrow> bindE (digest H rep) (\<lambda>d. Inr (if d \<noteq> cy_representation_digest c then ''mutation'' else t)))"

definition interaction_payload :: "canary_verifier \<Rightarrow> interaction \<Rightarrow> canary_claims \<Rightarrow> dict" where
  "interaction_payload v i c =
     [(''canary_id'', PStr (cy_canary_id c)), (''session_id'', PStr (cy_session_id c)), (''workload_id'', PStr (cy_workload_id c)),
      (''tenant'', PStr (cy_tenant c)), (''environment'', PStr (cy_environment c)), (''seed_location'', PStr (cy_seed_location c)),
      (''attempted_action'', PStr (case ia_request i of None \<Rightarrow> ''inspect'' | Some r \<Rightarrow> ar_operation r)),
      (''attempted_resource'', PStr (case ia_request i of None \<Rightarrow> cy_seed_location c | Some r \<Rightarrow> ar_resource_id r)),
      (''mutation_diff'', PDict (ia_mutation_diff i)), (''timestamp_ms'', PInt (ia_now_ms i)), (''policy_version'', PStr (cy_policy_version c)),
      (''trust_state'', PStr ''not-authority''), (''campaign_id'', PStr (cy_campaign_id c)), (''responses'', PStrs (cw_responses v))]"

text \<open>The keyword arguments of the certificate, with the context of the verifier in place of the defaults it names.\<close>

definition certificate_defaults :: "host \<Rightarrow> canary_verifier \<Rightarrow> canary_claims \<Rightarrow> dict res" where
  "certificate_defaults H v c =
     bindE (digest H (PDict [(''workload_id'', PStr (cy_workload_id c))])) (\<lambda>workload.
     bindE (digest H (PDict [(''policy_version'', PStr (cy_policy_version c))])) (\<lambda>pol.
     bindE (digest H (PDict [(''policy_version'', PStr (cy_policy_version c)), (''ceiling'', PStr ''none'')])) (\<lambda>ceiling.
     bindE (digest H (PDict [(''trust'', PStr ''not-authority'')])) (\<lambda>attestation.
     bindE (digest H (PDict [(''responses'', PStrs (cw_responses v))])) (\<lambda>guardian.
     bindE (digest H (PDict [(''authority'', PStr ''none'')])) (\<lambda>decay.
     Inr [(''task_id'', PStr (''canary:'' @ cy_campaign_id c)), (''workload_identity_hash'', PStr workload),
       (''technique_classification'', PStr ''canary-probe''), (''policy_digest'', PStr pol), (''policy_ceiling_digest'', PStr ceiling),
       (''synthesizer_version'', PStr ''not-applicable''), (''compiler_version'', PStr ''canary-boundary-v1''),
       (''provider_attestation_digest'', PStr attestation), (''guardian_state_digest'', PStr guardian), (''decay_state_digest'', PStr decay),
       (''code_commit'', PStr ''canary-runtime-v1''), (''build_identifier'', PStr ''canary-runtime-v1''),
       (''environment_identifier'', PStr (cy_environment c))]))))))"

definition certificate_arguments :: "canary_verifier \<Rightarrow> interaction \<Rightarrow> canary_claims \<Rightarrow> string \<Rightarrow> dict \<Rightarrow> dict" where
  "certificate_arguments v i c request_dg defaults =
     [(''attempt_id'', PStr (''canary-attempt:'' @ cy_canary_id c @ '':'' @ int_repr (ia_now_ms i))), (''session_id'', PStr (cy_session_id c)),
      (''request_digest'', PStr request_dg), (''canonical_request_digest'', PStr request_dg),
      (''requested_authority'', PDict [(''canary'', PBool True), (''action'', dict_get (interaction_payload v i c) ''attempted_action'')]),
      (''effective_authority'', PDict [(''canary'', PBool False), (''responses'', PStrs (cw_responses v))]),
      (''denial_reason_code'', PStr ''CANARY_NON_EFFECT''), (''effect_state'', PStr (ia_effect_state i)),
      (''policy_version'', PStr (cy_policy_version c)), (''campaign_id'', PStr (cy_campaign_id c)), (''denial_timestamp_ms'', PInt (ia_now_ms i)),
      (''archival_status'', PStr ''active'')]
     @ map (\<lambda>(k, d). (k, case map_of (cw_context v) k of None \<Rightarrow> d | Some x \<Rightarrow> x)) defaults"

text \<open>
  What the operations draw from their surroundings: the outcome of the append of each event, by its type, the random ID of the
  certificate, the name of the class of an exception, the encoding of keys and \<open>float()\<close>.
\<close>

record canary_env =
  ce_append :: "string \<Rightarrow> pyfloat \<times> pyfloat \<times> write_outcome"
  ce_token :: string
  ce_type_name :: "exn \<Rightarrow> string"
  ce_pem :: "string \<Rightarrow> string"
  ce_parse :: "string \<Rightarrow> pyfloat"

definition canary_log :: "host \<Rightarrow> ed25519 \<Rightarrow> canary_env \<Rightarrow> string \<Rightarrow> dict \<Rightarrow> recorder \<Rightarrow> unit res \<times> recorder" where
  "canary_log H E env name payload = record_event H E (ce_parse env) (ce_append env name) name payload"

definition emit_denial_certificate ::
  "host \<Rightarrow> ed25519 \<Rightarrow> canary_env \<Rightarrow> canary_verifier \<Rightarrow> interaction \<Rightarrow> canary_claims \<Rightarrow> recorder \<Rightarrow> dict res \<times> recorder" where
  "emit_denial_certificate H E env v i c =
     bindS (liftS (case ia_request i of
        Some r \<Rightarrow> request_digest H r
      | None \<Rightarrow> digest H (PDict [(''canary_id'', PStr (cy_canary_id c)), (''event_type'', dict_get (interaction_payload v i c) ''attempted_action''),
          (''resource'', dict_get (interaction_payload v i c) ''attempted_resource'')]))) (\<lambda>request_dg.
     bindS (liftS (certificate_defaults H v c)) (\<lambda>defaults er.
     case denial_build H E (ce_parse env) (ce_pem env) (cw_builder v) (dict_get (certificate_arguments v i c request_dg defaults))
            (ce_append env ''denial.evaluated'') (ce_token env) er of
       (Inr certificate, er') \<Rightarrow> (Inr certificate, er')
     | (Inl e, er') \<Rightarrow> (Inl (CanaryError ''canary denial certificate generation failed''),
          snd (canary_log H E env ''canary.certificate-failure''
            [(''canary_id'', PStr (cy_canary_id c)), (''tenant'', PStr (cy_tenant c)), (''session_id'', PStr (cy_session_id c)),
             (''error_type'', PStr (ce_type_name env e)), (''effect_state'', PStr (ia_effect_state i))] er'))))"

definition certificate_id :: "dict \<Rightarrow> pyval" where
  "certificate_id envelope = (case dict_get envelope ''certificate'' of PDict payload \<Rightarrow> dict_get payload ''certificate_id'' | _ \<Rightarrow> PNone)"

definition record_interaction ::
  "host \<Rightarrow> ed25519 \<Rightarrow> canary_env \<Rightarrow> canary_verifier \<Rightarrow> canary_capability \<Rightarrow> interaction \<Rightarrow> recorder \<Rightarrow> dict res \<times> recorder" where
  "record_interaction H E env v capability i =
     bindS (liftS (checkE (ia_event_type i \<notin> set CANARY_EVENT_TYPES) (CanaryError ''unsupported canary event type''))) (\<lambda>_.
     bindS (liftS (canary_verified H E v capability (ia_now_ms i))) (\<lambda>c.
     bindS (liftS (interaction_type H i c)) (\<lambda>t.
     bindS (liftS (digest H (PDict (interaction_payload v i c)))) (\<lambda>d.
     bindS (canary_log H E env (''canary.'' @ t) (interaction_payload v i c @ [(''evidence_hash'', PStr d)])) (\<lambda>_.
     bindS (emit_denial_certificate H E env v i c) (\<lambda>certificate.
     liftS (Inr (interaction_payload v i c @ [(''evidence_hash'', PStr d), (''denial_certificate_id'', certificate_id certificate)]))))))))"

text \<open>\<open>redeem\<close>: the interaction is recorded, then the redemption is denied.\<close>

definition not_redeemable :: exn where
  "not_redeemable = CanaryError ''canary capabilities are non-effect tripwires and cannot be redeemed''"

definition canary_redeem ::
  "host \<Rightarrow> ed25519 \<Rightarrow> canary_env \<Rightarrow> canary_verifier \<Rightarrow> canary_capability \<Rightarrow> action_request \<Rightarrow> pyval option \<Rightarrow> int \<Rightarrow> string
     \<Rightarrow> recorder \<Rightarrow> unit res \<times> recorder" where
  "canary_redeem H E env v capability r representation now effect_state =
     bindS (record_interaction H E env v capability
        \<lparr>ia_event_type = ''redemption'', ia_request = Some r, ia_representation = representation, ia_mutation_diff = [], ia_now_ms = now,
         ia_effect_state = effect_state\<rparr>)
       (\<lambda>_. liftS (Inl not_redeemable))"

definition canary_ids_do_not_overlap :: "string list \<Rightarrow> string list \<Rightarrow> bool" where
  "canary_ids_do_not_overlap capability_ids canary_ids \<longleftrightarrow> list_all (\<lambda>i. \<not> List.member canary_ids i) capability_ids
     \<and> list_all (\<lambda>i. take 4 i = ''cap_'') capability_ids \<and> list_all (\<lambda>i. take 7 i = ''canary_'') canary_ids"

section \<open>Lemmas\<close>

text \<open>Nothing of the evidence is lost, and a recorded interaction is two events: the interaction and its denial.\<close>

lemma canary_log_extends: "canary_log H E env n p er = (r, er') \<Longrightarrow> file_extends er er'"
  unfolding canary_log_def by (rule recorder.append_extends)

lemma canary_log_records: "canary_log H E env n p er = (Inr u, er') \<Longrightarrow> er_count er' = er_count er + 1"
  unfolding canary_log_def by (rule recorder.append_records)

lemma emit_extends:
  assumes "emit_denial_certificate H E env v i c er = (r, er')"
  shows "file_extends er er'"
  using assms
  by (auto simp: emit_denial_certificate_def bindS_def liftS_def recorder.extends_refl split: sum.splits prod.splits
      dest: denial_build_extends intro: recorder.extends_trans [OF denial_build_extends canary_log_extends] prod.collapse [symmetric])

lemma emit_records:
  assumes "emit_denial_certificate H E env v i c er = (Inr x, er')"
  shows "er_count er' = er_count er + 1"
proof -
  from assms obtain g where g: "(case denial_build H E (ce_parse env) (ce_pem env) (cw_builder v) g (ce_append env ''denial.evaluated'') (ce_token env) er of
       (Inr certificate, er') \<Rightarrow> (Inr certificate, er')
     | (Inl e, er') \<Rightarrow> (Inl (CanaryError ''canary denial certificate generation failed''),
          snd (canary_log H E env ''canary.certificate-failure''
            [(''canary_id'', PStr (cy_canary_id c)), (''tenant'', PStr (cy_tenant c)), (''session_id'', PStr (cy_session_id c)),
             (''error_type'', PStr (ce_type_name env e)), (''effect_state'', PStr (ia_effect_state i))] er'))) = (Inr x, er')"
    unfolding emit_denial_certificate_def bindS_Inr liftS_Inr by blast
  obtain r er1 where r: "denial_build H E (ce_parse env) (ce_pem env) (cw_builder v) g (ce_append env ''denial.evaluated'') (ce_token env) er = (r, er1)"
    by (metis surj_pair)
  show ?thesis using g denial_build_records r by (cases r) auto
qed

lemma record_interaction_extends:
  assumes "record_interaction H E env v capability i er = (r, er')"
  shows "file_extends er er'"
  using assms
  by (auto simp: record_interaction_def bindS_def liftS_def recorder.extends_refl split: sum.split_asm prod.split_asm
      dest: canary_log_extends intro: recorder.extends_trans [OF canary_log_extends emit_extends])

lemma record_interaction_Inr:
  assumes "record_interaction H E env v capability i er = (Inr payload, er')"
  shows "\<exists>c. canary_verified H E v capability (ia_now_ms i) = Inr c" "er_count er' = er_count er + 2"
  using assms by (auto simp: record_interaction_def state_simps dest!: canary_log_records emit_records)

subsection \<open>Issued canaries are recognised\<close>

lemma canary_text_Inr [res_simps]: "canary_text H v n = Inr s \<Longrightarrow> v = PStr s"
  by (cases v) (auto simp: canary_text_def res_simps split: if_splits)

lemma matches_Inr: "matches p v e = Inr u \<longleftrightarrow> (\<exists>s. v = PStr s \<and> p s)"
  by (cases v) (auto simp: matches_def checkE_Inr_iff)

definition canary_texts :: "string list" where
  "canary_texts = [''campaign_id'', ''session_id'', ''workload_id'', ''tenant'', ''environment'', ''seed_location'', ''version'', ''policy_version'']"

lemma canary_checks_typed:
  assumes "canary_checks H g = Inr ()"
  shows "\<forall>n \<in> set ([''schema'', ''canary_id'', ''representation_digest'', ''canary_status''] @ canary_texts). g n = PStr (str_of (g n))"
    and "\<forall>n \<in> set [''issued_at_ms'', ''expires_at_ms'']. g n = PInt (int_of (g n))"
proof -
  have "\<forall>n \<in> set canary_texts. \<exists>s. canary_text H (g n) 256 = Inr s"
    using assms unfolding canary_checks_def seqE_Inr_iff by (auto simp: canary_texts_def unitE_Inr_iff)
  then have t: "\<forall>n \<in> set canary_texts. g n = PStr (str_of (g n))" by (metis canary_text_Inr str_of.simps(1))
  have "g ''schema'' = PStr CANARY_SCHEMA" "g ''canary_status'' = PStr ''non-effect-tripwire''" "\<exists>s. g ''canary_id'' = PStr s" "\<exists>s. g ''representation_digest'' = PStr s"
    "is_int (g ''issued_at_ms'')" "is_int (g ''expires_at_ms'')"
    using assms unfolding canary_checks_def seqE_Inr_iff by (auto simp: matches_Inr checkE_Inr_iff)
  then show "\<forall>n \<in> set ([''schema'', ''canary_id'', ''representation_digest'', ''canary_status''] @ canary_texts). g n = PStr (str_of (g n))"
    and "\<forall>n \<in> set [''issued_at_ms'', ''expires_at_ms'']. g n = PInt (int_of (g n))"
    using t by (auto simp: is_int_PInt)
qed

lemma canary_lookup:
  assumes "canary_checks H g = Inr ()"
  shows "list_all (\<lambda>n. dict_get (canary_to_dict (canary_build g)) n = g n) canary_fields"
proof -
  note t = canary_checks_typed [OF assms, unfolded canary_texts_def]
  show ?thesis unfolding canary_to_dict_def canary_build_def canary_fields_def using t by simp
qed

lemma canary_round_trip:
  assumes "canary_init H g = Inr c"
  shows "canary_from_dict H (PDict (canary_to_dict c)) = Inr c"
proof -
  have c: "c = canary_build g" and ok: "canary_checks H g = Inr ()" using assms by (auto simp: canary_init_def bindE_Inr_iff)
  let ?g = "dict_get (canary_to_dict c)"
  note l = canary_lookup [OF ok, folded c]
  have eq: "?g ''schema'' = g ''schema''" "?g ''canary_id'' = g ''canary_id''" "?g ''campaign_id'' = g ''campaign_id''" "?g ''session_id'' = g ''session_id''"
    "?g ''workload_id'' = g ''workload_id''" "?g ''tenant'' = g ''tenant''" "?g ''environment'' = g ''environment''" "?g ''seed_location'' = g ''seed_location''"
    "?g ''version'' = g ''version''" "?g ''policy_version'' = g ''policy_version''" "?g ''issued_at_ms'' = g ''issued_at_ms''"
    "?g ''expires_at_ms'' = g ''expires_at_ms''" "?g ''representation_digest'' = g ''representation_digest''" "?g ''canary_status'' = g ''canary_status''"
    using l by (simp_all add: canary_fields_def)
  have "canary_checks H ?g = canary_checks H g" "canary_build ?g = canary_build g"
    unfolding canary_checks_def canary_build_def list.map eq by (rule refl)+
  moreover have "set_eq_list (map fst (canary_to_dict c)) canary_fields" by (simp add: canary_to_dict_def canary_fields_def)
  ultimately show ?thesis using ok c by (simp add: canary_from_dict_def canary_init_def)
qed

lemma canary_issue_cases:
  assumes "canary_issue H E k i token = Inr capability"
  obtains d message where "cs_enabled i" "\<not> cs_production i" "canary_init H (canary_args i token d) = Inr (cn_claims capability)"
    "canonical_bytes H (PDict (canary_to_dict (cn_claims capability))) = Inr message"
    "canary_capability_init H (cn_claims capability) (PStr (cn_signature capability)) (PStr (cn_key_id capability)) (PStr ''Ed25519'') = Inr capability"
    "cn_signature capability = b64_encode (ed_sign E k message)" "cn_key_id capability = capability_key_id H (ed_public E k)"
proof -
  from assms obtain d claims message where i: "cs_enabled i" "\<not> cs_production i" "canary_init H (canary_args i token d) = Inr claims"
    "canonical_bytes H (PDict (canary_to_dict claims)) = Inr message"
    and init: "canary_capability_init H claims (PStr (b64_encode (ed_sign E k message))) (PStr (capability_key_id H (ed_public E k))) (PStr ''Ed25519'') = Inr capability"
    by (auto simp: canary_issue_def res_simps)
  from init have "cn_claims capability = claims" "cn_signature capability = b64_encode (ed_sign E k message)"
    "cn_key_id capability = capability_key_id H (ed_public E k)"
    by (auto simp: canary_capability_init_def res_simps dest: canary_text_Inr)
  then show thesis using that i init by simp
qed

lemma canary_capability_round_trip:
  assumes "canary_from_dict H (PDict (canary_to_dict (cn_claims capability))) = Inr (cn_claims capability)"
    and "canary_capability_init H (cn_claims capability) (PStr (cn_signature capability)) (PStr (cn_key_id capability)) (PStr ''Ed25519'') = Inr capability"
  shows "canary_capability_from_dict H (PDict (canary_capability_to_dict capability)) = Inr capability"
  using assms by (simp add: canary_capability_from_dict_def canary_capability_to_dict_def)

lemma canary_init_args:
  assumes "canary_init H (canary_args i token d) = Inr c"
  shows "cy_canary_id c = ''canary_'' @ token" "cy_issued_at_ms c = cs_now_ms i" "cy_expires_at_ms c = cs_now_ms i + cs_ttl_ms i"
    "cs_tenant i = PStr (cy_tenant c)" "cs_environment i = PStr (cy_environment c)" "0 < cs_ttl_ms i" "cs_ttl_ms i \<le> 300000"
proof -
  have c: "c = canary_build (canary_args i token d)" and ok: "canary_checks H (canary_args i token d) = Inr ()"
    using assms by (auto simp: canary_init_def bindE_Inr_iff)
  show "cy_canary_id c = ''canary_'' @ token" "cy_issued_at_ms c = cs_now_ms i" "cy_expires_at_ms c = cs_now_ms i + cs_ttl_ms i"
    by (simp_all add: c canary_build_def canary_args_def)
  have "canary_args i token d ''tenant'' = cs_tenant i" "canary_args i token d ''environment'' = cs_environment i" by (simp_all add: canary_args_def)
  then show "cs_tenant i = PStr (cy_tenant c)" "cs_environment i = PStr (cy_environment c)"
    using canary_checks_typed(1) [OF ok] by (auto simp: c canary_build_def canary_texts_def)
  have "0 < int_of (canary_args i token d ''expires_at_ms'') - int_of (canary_args i token d ''issued_at_ms'')
      \<and> int_of (canary_args i token d ''expires_at_ms'') - int_of (canary_args i token d ''issued_at_ms'') \<le> 300000"
    using ok unfolding canary_checks_def seqE_Inr_iff by (simp add: checkE_Inr_iff)
  then show "0 < cs_ttl_ms i" "cs_ttl_ms i \<le> 300000" by (simp_all add: canary_args_def)
qed

section \<open>Properties\<close>

text \<open>
  C22: canaries are recognised and never redeemed. A canary is issued only where seeding is enabled and not in production, lives at most
  five minutes and has an ID no capability has. A verifier with the public key, tenant and environment of the issuer
  recognises it during its lifetime; and whatever is presented, whatever the recorder and the builder of certificates do, a redemption
  ends in an exception and removes no evidence.
\<close>

theorem canary_detected:
  assumes "canary_issue H E k i token = Inr capability" and "ed25519_correct E k"
    and "canary_verifier_init H (Some (ed_public E k)) (capability_key_id H (ed_public E k)) (cs_tenant i) (cs_environment i) responses builder context = Inr v"
    and "cs_now_ms i - 5000 \<le> now" and "now < cs_now_ms i + cs_ttl_ms i"
  shows "cs_enabled i \<and> \<not> cs_production i \<and> cs_ttl_ms i \<le> 300000 \<and> cy_canary_id (cn_claims capability) = ''canary_'' @ token
    \<and> canary_verified H E v capability now = Inr (cn_claims capability)
    \<and> (\<forall>env capability' r representation now' effect_state er. case canary_redeem H E env v capability' r representation now' effect_state er of
         (result, er') \<Rightarrow> (\<exists>e. result = Inl e) \<and> file_extends er er')"
proof -
  obtain d message where c: "cs_enabled i" "\<not> cs_production i" "canary_init H (canary_args i token d) = Inr (cn_claims capability)"
    "canonical_bytes H (PDict (canary_to_dict (cn_claims capability))) = Inr message"
    "canary_capability_init H (cn_claims capability) (PStr (cn_signature capability)) (PStr (cn_key_id capability)) (PStr ''Ed25519'') = Inr capability"
    "cn_signature capability = b64_encode (ed_sign E k message)" "cn_key_id capability = capability_key_id H (ed_public E k)"
    using assms(1) by (rule canary_issue_cases)
  note a = canary_init_args [OF c(3)]
  have v: "cw_public_key v = ed_public E k" "cw_key_id v = capability_key_id H (ed_public E k)" "cw_tenant v = cy_tenant (cn_claims capability)"
    "cw_environment v = cy_environment (cn_claims capability)"
    using assms(3) a(4,5) by (auto simp: canary_verifier_init_def bindE_Inr_iff dest!: canary_text_Inr)
  have "canary_capability_from_dict H (PDict (canary_capability_to_dict capability)) = Inr capability"
    using canary_round_trip [OF c(3)] c(5) by (rule canary_capability_round_trip)
  moreover have "ed_verify E (ed_public E k) (b64_decode (cn_signature capability)) message"
    using assms(2) c(6) by (simp add: ed25519_correct_def b64_decode_encode)
  ultimately have ver: "canary_verified H E v capability now = Inr (cn_claims capability)"
    using c(4,7) v a(2,3) assms(4,5) by (simp add: canary_verified_def catchE_def Let_def)
  have red: "case canary_redeem H E env v capability' r representation now' effect_state er of (result, er') \<Rightarrow> (\<exists>e. result = Inl e) \<and> file_extends er er'"
    for env capability' r representation now' effect_state er
    by (auto simp: canary_redeem_def bindS_def liftS_def split: prod.split sum.split dest: record_interaction_extends)
  show ?thesis by (intro conjI allI) (rule c(1) c(2) a(7) a(1) ver red)+
qed

definition demo_seed :: canary_seed where
  "demo_seed = \<lparr>cs_campaign_id = PStr ''c1'', cs_session_id = PStr ''s1'', cs_workload_id = PStr ''e1'', cs_tenant = PStr ''default'',
     cs_environment = PStr ''synthetic'', cs_seed_location = PStr ''vault'', cs_policy_version = PStr ''v1'', cs_representation = PDict [],
     cs_now_ms = 100000, cs_ttl_ms = 60000, cs_enabled = True, cs_production = False\<rparr>"

lemma demo_canary_issue: "okE (canary_issue demo_host demo_ed25519 ''k'' demo_seed demo_token)"
  by code_simp

lemma demo_canary_verifier: "okE (canary_verifier_init demo_host (Some (ed_public demo_ed25519 ''k''))
    (capability_key_id demo_host (ed_public demo_ed25519 ''k'')) (cs_tenant demo_seed) (cs_environment demo_seed) [''deny''] demo_signer [])"
  by code_simp

theorem canary_detected_witness:
  "\<exists>capability v. canary_issue demo_host demo_ed25519 ''k'' demo_seed demo_token = Inr capability
     \<and> canary_verified demo_host demo_ed25519 v capability 101000 = Inr (cn_claims capability) \<and> cw_tenant v = ''default''"
proof -
  obtain capability where c: "canary_issue demo_host demo_ed25519 ''k'' demo_seed demo_token = Inr capability"
    using demo_canary_issue by (auto simp: okE_iff)
  obtain v where v: "canary_verifier_init demo_host (Some (ed_public demo_ed25519 ''k''))
      (capability_key_id demo_host (ed_public demo_ed25519 ''k'')) (cs_tenant demo_seed) (cs_environment demo_seed) [''deny''] demo_signer [] = Inr v"
    using demo_canary_verifier by (auto simp: okE_iff)
  have t: "cs_now_ms demo_seed - 5000 \<le> 101000" "101000 < cs_now_ms demo_seed + cs_ttl_ms demo_seed" by (simp_all add: demo_seed_def)
  have "cw_tenant v = ''default''"
    using v by (auto simp: canary_verifier_init_def demo_seed_def bindE_Inr_iff dest!: canary_text_Inr)
  then show ?thesis using canary_detected [OF c demo_ed_correct v t] c by blast
qed

end
