(* ===== verification/Chaos.thy ===== *)
theory Chaos
  imports Models
begin

text \<open>
  \<open>chaos.py\<close>: the named fault points with their dispositions, the fault injector that tests arm, and the classifier of
  what a fault at a point leaves behind.
\<close>

section \<open>Definitions\<close>

definition FAULT_DISPOSITIONS :: "(string \<times> string) list" where
  "FAULT_DISPOSITIONS =
    [(''signer.before-authorization'', ''deny''), (''signer.after-authorization'', ''deny''),
     (''signer.before-signing'', ''deny''), (''signer.after-signing'', ''safe-retry''),
     (''signer.before-returning'', ''safe-retry''), (''policy-synthesizer.before-synthesis'', ''deny''),
     (''policy-synthesizer.during-synthesis'', ''deny''), (''policy-synthesizer.malformed-output'', ''deny''),
     (''policy-synthesizer.timeout'', ''deny''), (''policy-synthesizer.unavailable'', ''deny''),
     (''policy-synthesizer.compromised-over-broad-output'', ''deny''), (''policy-compiler.before-validation'', ''deny''),
     (''policy-compiler.during-intersection'', ''deny''), (''policy-compiler.before-ceiling-commit'', ''deny''),
     (''policy-compiler.after-ceiling-commit'', ''safe-retry''), (''executor.before-validation'', ''deny''),
     (''executor.after-validation'', ''deny''), (''executor.before-effect'', ''deny''),
     (''executor.after-effect'', ''indeterminate''), (''executor.before-evidence-record'', ''indeterminate''),
     (''executor.after-evidence-record'', ''reconcile''), (''executor.before-response'', ''reconcile''),
     (''recorder.before-append'', ''indeterminate''), (''recorder.during-append'', ''indeterminate''),
     (''recorder.after-append'', ''reconcile''), (''recorder.before-flush'', ''indeterminate''),
     (''recorder.after-flush'', ''reconcile''), (''recorder.during-checkpoint'', ''halt''),
     (''recorder.during-integrity-validation'', ''halt''), (''capability-store.before-consumption'', ''deny''),
     (''capability-store.during-atomic-consumption'', ''reconcile''),
     (''capability-store.after-consumption'', ''reconcile''), (''capability-store.before-durable-commit'', ''reconcile''),
     (''capability-store.after-durable-commit'', ''reconcile''), (''guardian.before-scoring'', ''deny''),
     (''guardian.after-scoring'', ''deny''), (''guardian.during-state-update'', ''deny''),
     (''guardian.during-forced-reduction'', ''deny''), (''attestation.timeout'', ''deny''),
     (''attestation.malformed-response'', ''deny''), (''attestation.contradictory-response'', ''deny''),
     (''attestation.stale-response'', ''deny''), (''attestation.invalid-signature'', ''deny''),
     (''attestation.restart'', ''deny''), (''network.dropped-request'', ''safe-retry''),
     (''network.dropped-response'', ''reconcile''), (''network.duplication'', ''reconcile''),
     (''network.reordering'', ''deny''), (''network.delay'', ''deny''), (''network.partition'', ''deny''),
     (''process.crash-during-effect'', ''indeterminate''), (''process.crash-after-effect'', ''reconcile''),
     (''process.crash-before-evidence'', ''indeterminate''), (''process.crash-after-evidence'', ''reconcile''),
     (''clock.change-during-execution'', ''deny''), (''clock.change-during-redemption'', ''deny''),
     (''policy.stale-at-issuance'', ''deny''), (''policy.stale-at-redemption'', ''deny''),
     (''storage.rollback-detected'', ''halt''), (''storage.corruption-detected'', ''halt'')]"

definition EFFECT_COMMITTED_POINTS :: "string list" where
  "EFFECT_COMMITTED_POINTS =
    [''executor.after-effect'', ''executor.before-evidence-record'', ''executor.after-evidence-record'',
     ''executor.before-response'', ''recorder.before-append'', ''recorder.during-append'', ''recorder.after-append'',
     ''recorder.before-flush'', ''recorder.after-flush'', ''network.dropped-response'', ''process.crash-after-effect'',
     ''process.crash-after-evidence'']"

record injector =
  fi_configured_hits :: "(string \<times> int) list"
  fi_enabled :: bool
  fi_counts :: "string \<Rightarrow> int"

text \<open>The plan is a dict, given as a list with distinct keys; \<open>configured_hits or {}\<close> of no plan is the empty one.\<close>

definition injector_init :: "(string \<times> pyval) list option \<Rightarrow> bool \<Rightarrow> string \<Rightarrow> injector res" where
  "injector_init configured_hits enabled environment =
     (if enabled \<and> environment \<noteq> ''test'' then Inl (PermissionError ''fault injection can be enabled only in the test environment'')
      else let configured = (case configured_hits of None \<Rightarrow> [] | Some m \<Rightarrow> m) in
        if \<not> list_all (\<lambda>(point, v). map_of FAULT_DISPOSITIONS point \<noteq> None) configured
           \<or> \<not> list_all (\<lambda>(point, v). is_int v \<and> 1 \<le> int_of v) configured
        then Inl (ValueError ''fault plan is malformed or unknown'')
        else Inr \<lparr>fi_configured_hits = map (\<lambda>(point, v). (point, int_of v)) configured, fi_enabled = enabled, fi_counts = (\<lambda>_. 0)\<rparr>)"

definition injector_hit :: "string \<Rightarrow> injector \<Rightarrow> unit res \<times> injector" where
  "injector_hit point f = (case map_of FAULT_DISPOSITIONS point of
     None \<Rightarrow> (Inl (ValueError ''unknown fault injection point''), f)
   | Some disposition \<Rightarrow>
       let n = fi_counts f point + 1; f' = f\<lparr>fi_counts := (fi_counts f)(point := n)\<rparr> in
       if fi_enabled f \<and> map_of (fi_configured_hits f) point = Some n then (Inl (InjectedFault point disposition), f') else (Inr (), f'))"

record chaos_result =
  cr_fault_point :: string
  cr_disposition :: string
  cr_authority_issued :: bool
  cr_capability_consumed :: bool
  cr_effect_state :: string
  cr_evidence_state :: string
  cr_retry_permitted :: bool

definition chaos_effect_state :: "string \<Rightarrow> string \<Rightarrow> string" where
  "chaos_effect_state point disposition =
     (if point \<in> set EFFECT_COMMITTED_POINTS then ''committed''
      else if disposition \<in> set [''indeterminate'', ''reconcile''] then ''indeterminate'' else ''not-committed'')"

definition chaos_classify :: "string \<Rightarrow> string \<Rightarrow> chaos_result" where
  "chaos_classify point disposition = (let effect_state = chaos_effect_state point disposition in
     \<lparr>cr_fault_point = point, cr_disposition = disposition,
      cr_authority_issued = list_ex (\<lambda>p. starts p point) [''executor.'', ''recorder.'', ''capability-store.'', ''network.''],
      cr_capability_consumed = point \<in> set [''capability-store.after-consumption'', ''capability-store.before-durable-commit'',
          ''capability-store.after-durable-commit''] \<or> point \<in> set EFFECT_COMMITTED_POINTS \<or> starts ''executor.'' point,
      cr_effect_state = effect_state,
      cr_evidence_state =
        (if point \<in> set [''executor.after-evidence-record'', ''executor.before-response'', ''recorder.after-append'', ''recorder.after-flush'']
         then ''recorded'' else if effect_state \<noteq> ''not-committed'' then ''missing-or-uncertain'' else ''denial-required''),
      cr_retry_permitted = disposition = ''safe-retry'' \<and> effect_state = ''not-committed''\<rparr>)"

definition chaos_run :: "string \<Rightarrow> chaos_result res" where
  "chaos_run point = (case map_of FAULT_DISPOSITIONS point of
     None \<Rightarrow> Inl (ValueError ''unknown chaos point'')
   | Some disposition \<Rightarrow> Inr (chaos_classify point disposition))"

fun injector_hits :: "string list \<Rightarrow> injector \<Rightarrow> unit res list \<times> injector" where
  "injector_hits [] f = ([], f)"
| "injector_hits (p # ps) f = (case injector_hit p f of (r, f1) \<Rightarrow> (case injector_hits ps f1 of (rs, f2) \<Rightarrow> (r # rs, f2)))"

section \<open>Lemmas\<close>

lemma disabled_hit:
  assumes "injector_hit p f = (r, f')" and "\<not> fi_enabled f"
  shows "(r = Inr () \<longleftrightarrow> map_of FAULT_DISPOSITIONS p \<noteq> None) \<and> \<not> fi_enabled f'"
  using assms by (auto simp: injector_hit_def Let_def split: option.splits)

lemma production_injector_disabled: "injector_init plan enabled environment = Inr f \<Longrightarrow> environment \<noteq> ''test'' \<Longrightarrow> \<not> fi_enabled f"
  by (auto simp: injector_init_def Let_def split: if_splits)

lemma hit_known:
  assumes "map_of FAULT_DISPOSITIONS p = Some d"
  shows "injector_hit p f = (if fi_enabled f \<and> map_of (fi_configured_hits f) p = Some (fi_counts f p + 1) then Inl (InjectedFault p d) else Inr (),
     f\<lparr>fi_counts := (fi_counts f)(p := fi_counts f p + 1)\<rparr>)"
  using assms by (simp add: injector_hit_def Let_def)

text \<open>A fault that is armed for the \<open>n\<close>-th visit of a point fires there and at no other visit.\<close>

lemma injector_fires_once:
  assumes "map_of FAULT_DISPOSITIONS p = Some d" and "fi_enabled f" and "map_of (fi_configured_hits f) p = Some n" and "k < length (fst (injector_hits (replicate m p) f))"
  shows "fst (injector_hits (replicate m p) f) ! k = (if fi_counts f p + int k + 1 = n then Inl (InjectedFault p d) else Inr ())"
  using assms
proof (induction m arbitrary: f k)
  case (Suc m)
  let ?g = "f\<lparr>fi_counts := (fi_counts f)(p := fi_counts f p + 1)\<rparr>"
  show ?case
  proof (cases k)
    case 0
    then show ?thesis using Suc.prems(2,3) by (auto simp: hit_known [OF Suc.prems(1)] split: prod.split)
  next
    case (Suc j)
    then have "j < length (fst (injector_hits (replicate m p) ?g))"
      using Suc.prems(4) by (simp add: hit_known [OF Suc.prems(1)] split: prod.splits)
    from Suc.IH [OF Suc.prems(1) _ _ this] show ?thesis
      using Suc Suc.prems(2,3) by (auto simp: hit_known [OF Suc.prems(1)] add_ac split: prod.split)
  qed
qed simp

definition safe_classification :: "chaos_result \<Rightarrow> bool" where
  "safe_classification r \<longleftrightarrow>
     (cr_retry_permitted r \<longrightarrow> cr_effect_state r = ''not-committed'' \<and> cr_evidence_state r = ''denial-required'')
     \<and> (cr_disposition r \<in> set [''deny'', ''halt'', ''safe-retry''] \<longleftrightarrow> cr_effect_state r = ''not-committed'')
     \<and> (cr_effect_state r = ''committed'' \<longrightarrow> cr_capability_consumed r)
     \<and> (cr_evidence_state r = ''recorded'' \<longrightarrow> cr_effect_state r = ''committed'')"

lemma committed_points:
  "list_all (\<lambda>(p, d). List.member [''indeterminate'', ''reconcile''] d \<or> \<not> List.member EFFECT_COMMITTED_POINTS p) FAULT_DISPOSITIONS"
  by code_simp

lemma dispositions: "list_all (\<lambda>(p, d). List.member [''deny'', ''safe-retry'', ''reconcile'', ''indeterminate'', ''halt''] d) FAULT_DISPOSITIONS"
  by code_simp

lemma recorded_points:
  "list_all (\<lambda>p. List.member EFFECT_COMMITTED_POINTS p)
     [''executor.after-evidence-record'', ''executor.before-response'', ''recorder.after-append'', ''recorder.after-flush'']"
  by code_simp

text \<open>No fault after which the effect may be committed is answered with a denial or a retry.\<close>

lemma chaos_run_safe:
  assumes "chaos_run p = Inr r"
  shows "safe_classification r"
proof -
  from assms obtain d where d: "map_of FAULT_DISPOSITIONS p = Some d" "r = chaos_classify p d"
    by (auto simp: chaos_run_def split: option.splits)
  have d': "d = ''deny'' \<or> d = ''safe-retry'' \<or> d = ''reconcile'' \<or> d = ''indeterminate'' \<or> d = ''halt''"
    using bspec [OF dispositions [unfolded list_all_iff] map_of_SomeD [OF d(1)]] by simp
  have c: "d = ''indeterminate'' \<or> d = ''reconcile''" if "p \<in> set EFFECT_COMMITTED_POINTS"
    using that bspec [OF committed_points [unfolded list_all_iff] map_of_SomeD [OF d(1)]] by simp
  define rec where "rec = (p \<in> set [''executor.after-evidence-record'', ''executor.before-response'', ''recorder.after-append'', ''recorder.after-flush''])"
  have r: "rec \<Longrightarrow> p \<in> set EFFECT_COMMITTED_POINTS"
    using bspec [OF recorded_points [unfolded list_all_iff]] unfolding rec_def by simp
  have f: "cr_disposition r = d" "cr_effect_state r = chaos_effect_state p d" "p \<in> set EFFECT_COMMITTED_POINTS \<Longrightarrow> cr_capability_consumed r"
    "cr_evidence_state r = (if rec then ''recorded'' else if chaos_effect_state p d \<noteq> ''not-committed'' then ''missing-or-uncertain'' else ''denial-required'')"
    "cr_retry_permitted r = (d = ''safe-retry'' \<and> chaos_effect_state p d = ''not-committed'')"
    unfolding d(2) chaos_classify_def Let_def rec_def by simp_all
  show ?thesis
  proof (cases "p \<in> set EFFECT_COMMITTED_POINTS")
    case True
    then have "chaos_effect_state p d = ''committed''" by (simp add: chaos_effect_state_def)
    then show ?thesis using c [OF True] f(3) [OF True] by (elim disjE) (simp_all add: safe_classification_def f(1,2,4,5))
  next
    case False
    then have "chaos_effect_state p d = (if d = ''indeterminate'' \<or> d = ''reconcile'' then ''indeterminate'' else ''not-committed'')" "\<not> rec"
      using r by (auto simp: chaos_effect_state_def)
    then show ?thesis using d' by (elim disjE) (simp_all add: safe_classification_def f(1,2,4,5))
  qed
qed

text \<open>At a crash after the effect the classifier reports a consumed capability that was never issued.\<close>

lemma crash_after_effect_unissued:
  "case chaos_run ''process.crash-after-effect'' of Inl _ \<Rightarrow> False | Inr c \<Rightarrow> cr_capability_consumed c \<and> \<not> cr_authority_issued c"
  by (simp add: chaos_run_def chaos_classify_def FAULT_DISPOSITIONS_def EFFECT_COMMITTED_POINTS_def starts_def Let_def)

end
