(* ===== verification/Executor.thy ===== *)
theory Executor
  imports Canary Chaos
begin

text \<open>
  \<open>executor.py\<close>: the sacrificial executor, which redeems one capability per call, performs the operation, bounds its output and
  records the outcome. It composes the fault injector, the canary verifier, the redemption of the broker and the recorder. The
  compute profiles, \<open>json.dumps\<close> with \<open>default=str\<close> and the texts of exceptions are callbacks of the host: their
  answers are part of the environment of a call. The local variables \<open>effect_state\<close> and \<open>evidence_recorded\<close> are kept in the state,
  where the exception handler finds them, and every effect that may have been committed is noted in \<open>xe_effects\<close>.
\<close>

section \<open>Definitions\<close>

record executor =
  ex_device_id :: string
  ex_measurement :: string
  ex_verifier_policy_digest :: string
  ex_policy_digest :: string
  ex_verifier :: capability_verifier
  ex_tenant :: string
  ex_environment :: string
  ex_canary_verifier :: "canary_verifier option"
  ex_objects :: "(string \<times> pyval) list"
  ex_compute_profiles :: "string list"

datatype presented = Presented_capability issued_capability | Presented_canary canary_capability

record effect =
  ef_request :: action_request
  ef_claims :: capability_claims

record ('s, 'd) execution =
  xe_stores :: "'s \<times> 'd"
  xe_recorder :: recorder
  xe_faults :: "injector option"
  xe_effects :: "effect list"
  xe_effect_state :: string
  xe_evidence :: bool

record ('e, 'f) executor_env =
  ee_stores :: "'e \<times> 'f"
  ee_clocks :: "clock \<times> clock \<times> clock"
  ee_attested_str :: "pyval \<Rightarrow> string"
  ee_canary :: canary_env
  ee_canary_ms :: int
  ee_append :: "string \<Rightarrow> pyfloat \<times> pyfloat \<times> write_outcome"
  ee_parse :: "string \<Rightarrow> pyfloat"
  ee_compute :: "string \<Rightarrow> dict \<Rightarrow> pyval res"
  ee_dumps :: "pyval \<Rightarrow> nat res"
  ee_text :: "exn \<Rightarrow> string"
  ee_type_name :: "exn \<Rightarrow> string"

subsection \<open>Operations of the components\<close>

definition on_stores :: "('s \<times> 'd \<Rightarrow> 'a res \<times> 's \<times> 'd) \<Rightarrow> ('s, 'd) execution \<Rightarrow> 'a res \<times> ('s, 'd) execution" where
  "on_stores m s = (case m (xe_stores s) of (r, st) \<Rightarrow> (r, s\<lparr>xe_stores := st\<rparr>))"

definition on_recorder :: "(recorder \<Rightarrow> 'a res \<times> recorder) \<Rightarrow> ('s, 'd) execution \<Rightarrow> 'a res \<times> ('s, 'd) execution" where
  "on_recorder m s = (case m (xe_recorder s) of (r, er) \<Rightarrow> (r, s\<lparr>xe_recorder := er\<rparr>))"

definition fault_hit :: "string \<Rightarrow> ('s, 'd) execution \<Rightarrow> unit res \<times> ('s, 'd) execution" where
  "fault_hit point s = (case xe_faults s of
     None \<Rightarrow> (Inr (), s)
   | Some f \<Rightarrow> (case injector_hit point f of (r, f') \<Rightarrow> (r, s\<lparr>xe_faults := Some f'\<rparr>)))"

definition assignS :: "('s \<Rightarrow> 's) \<Rightarrow> 's \<Rightarrow> unit res \<times> 's" where
  "assignS f s = (Inr (), f s)"

definition executor_log ::
  "host \<Rightarrow> ed25519 \<Rightarrow> ('e, 'f) executor_env \<Rightarrow> string \<Rightarrow> dict \<Rightarrow> ('s, 'd) execution \<Rightarrow> unit res \<times> ('s, 'd) execution" where
  "executor_log H E env name payload = on_recorder (record_event H E (ee_parse env) (ee_append env name) name payload)"

subsection \<open>A call\<close>

definition executor_redemption :: "executor \<Rightarrow> ('e, 'f) executor_env \<Rightarrow> issued_capability \<Rightarrow> action_request \<Rightarrow> dict \<Rightarrow> redemption_call" where
  "executor_redemption x env capability r attestation =
     \<lparr>rc_capability = capability, rc_request = r,
      rc_redemption = \<lparr>rx_executor_measurement = ex_measurement x, rx_device_id = ex_device_id x, rx_attestation = attestation,
        rx_verifier_policy_digest = ex_verifier_policy_digest x, rx_policy_digest = ex_policy_digest x, rx_audience = ''effect-executor'',
        rx_tenant = ex_tenant x, rx_environment = ex_environment x, rx_str = ee_attested_str env\<rparr>,
      rc_clocks = ee_clocks env\<rparr>"

text \<open>The redemption of a canary never returns; what follows it in the source would refuse the envelope.\<close>

definition execute_admit ::
  "host \<Rightarrow> ed25519 \<Rightarrow> ('e \<Rightarrow> consumption \<Rightarrow> 's \<Rightarrow> bool res \<times> 's)
     \<Rightarrow> ('f \<Rightarrow> string \<Rightarrow> (decay_authority \<times> bool) transition \<Rightarrow> 'd \<Rightarrow> (decay_state \<times> decay_authority \<times> bool) res \<times> 'd)
     \<Rightarrow> executor \<Rightarrow> ('e, 'f) executor_env \<Rightarrow> action_request \<Rightarrow> presented \<Rightarrow> dict \<Rightarrow> ('s, 'd) execution \<Rightarrow> capability_claims res \<times> ('s, 'd) execution" where
  "execute_admit H E consume update x env r p attestation =
     bindS (fault_hit ''executor.before-validation'') (\<lambda>_.
     case p of
       Presented_canary c \<Rightarrow> (case ex_canary_verifier x of
           None \<Rightarrow> liftS (Inl (CanaryError ''canary verification boundary is unavailable''))
         | Some v \<Rightarrow> bindS (on_recorder (canary_redeem H E (ee_canary env) v c r None (ee_canary_ms env) ''denied-before-effect''))
             (\<lambda>_. liftS (Inl (CapabilityError ''malformed capability''))))
     | Presented_capability capability \<Rightarrow>
         bindS (on_stores (redeem H E consume update (ex_verifier x) (ee_stores env) (executor_redemption x env capability r attestation))) (\<lambda>claims.
         bindS (fault_hit ''executor.after-validation'') (\<lambda>_.
         bindS (fault_hit ''executor.before-effect'') (\<lambda>_. liftS (Inr claims)))))"

definition start_effect :: "action_request \<Rightarrow> capability_claims \<Rightarrow> ('s, 'd) execution \<Rightarrow> ('s, 'd) execution" where
  "start_effect r claims s = s\<lparr>xe_effect_state := ''possibly-committed'', xe_effects := xe_effects s @ [\<lparr>ef_request = r, ef_claims = claims\<rparr>]\<rparr>"

definition execute_effect ::
  "executor \<Rightarrow> ('e, 'f) executor_env \<Rightarrow> action_request \<Rightarrow> capability_claims \<Rightarrow> ('s, 'd) execution \<Rightarrow> (pyval \<times> nat) res \<times> ('s, 'd) execution" where
  "execute_effect x env r claims =
     bindS (if ar_operation r = ''object.read'' then
              (case map_of (ex_objects x) (ar_resource_id r) of
                 None \<Rightarrow> liftS (Inl (KeyError ''object not found''))
               | Some v \<Rightarrow> bindS (assignS (start_effect r claims)) (\<lambda>_. liftS (Inr v)))
            else if ar_operation r = ''compute.run'' then
              (if \<not> List.member (ex_compute_profiles x) (ar_resource_id r) then liftS (Inl (KeyError ''compute profile not found''))
               else bindS (assignS (start_effect r claims)) (\<lambda>_. liftS (ee_compute env (ar_resource_id r) (ar_arguments r))))
            else liftS (Inl (PermissionError ''executor has no implementation for operation''))) (\<lambda>output.
     bindS (liftS (ee_dumps env output)) (\<lambda>n.
     bindS (liftS (checkE (int n > cc_max_output_bytes claims) (PermissionError ''result exceeds capability output envelope''))) (\<lambda>_.
     liftS (Inr (output, n)))))"

definition execute_finish ::
  "host \<Rightarrow> ed25519 \<Rightarrow> ('e, 'f) executor_env \<Rightarrow> action_request \<Rightarrow> capability_claims \<Rightarrow> pyval \<Rightarrow> nat
     \<Rightarrow> ('s, 'd) execution \<Rightarrow> execution_result res \<times> ('s, 'd) execution" where
  "execute_finish H E env r claims output n =
     bindS (fault_hit ''executor.after-effect'') (\<lambda>_.
     bindS (fault_hit ''executor.before-evidence-record'') (\<lambda>_.
     bindS (executor_log H E env ''execution.completed''
        [(''request_id'', PStr (ar_request_id r)), (''capability_id'', PStr (cc_capability_id claims)), (''success'', PBool True),
         (''output_bytes'', PInt (int n)), (''effect_state'', PStr ''completed'')]) (\<lambda>_.
     bindS (assignS (\<lambda>s. s\<lparr>xe_evidence := True, xe_effect_state := ''completed''\<rparr>)) (\<lambda>_.
     bindS (fault_hit ''executor.after-evidence-record'') (\<lambda>_.
     bindS (fault_hit ''executor.before-response'') (\<lambda>_ s.
     liftS (execution_result_check \<lparr>er_success = True, er_operation = ar_operation r, er_resource_id = ar_resource_id r, er_output = output,
        er_output_bytes = int n, er_error = None, er_effect_state = xe_effect_state s\<rparr>) s))))))"

definition execute_failed ::
  "host \<Rightarrow> ed25519 \<Rightarrow> ('e, 'f) executor_env \<Rightarrow> action_request \<Rightarrow> exn \<Rightarrow> ('s, 'd) execution \<Rightarrow> execution_result res \<times> ('s, 'd) execution" where
  "execute_failed H E env r e s =
     (let event_type = (if xe_effect_state s = ''not-started'' then ''execution.denied'' else ''execution.indeterminate'');
          s' = (if xe_evidence s then s
                else snd (executor_log H E env event_type
                  [(''request_id'', PStr (ar_request_id r)), (''error_type'', PStr (ee_type_name env e)), (''error'', PStr (ee_text env e)),
                   (''effect_state'', PStr (xe_effect_state s))] s))
      in (execution_result_check \<lparr>er_success = False, er_operation = ar_operation r, er_resource_id = ar_resource_id r, er_output = PNone,
            er_output_bytes = 0,
            er_error = Some (if xe_effect_state s \<noteq> ''not-started'' then ''indeterminate effect state: '' @ ee_text env e else ee_text env e),
            er_effect_state = xe_effect_state s\<rparr>, s'))"

definition execute ::
  "host \<Rightarrow> ed25519 \<Rightarrow> ('e \<Rightarrow> consumption \<Rightarrow> 's \<Rightarrow> bool res \<times> 's)
     \<Rightarrow> ('f \<Rightarrow> string \<Rightarrow> (decay_authority \<times> bool) transition \<Rightarrow> 'd \<Rightarrow> (decay_state \<times> decay_authority \<times> bool) res \<times> 'd)
     \<Rightarrow> executor \<Rightarrow> ('e, 'f) executor_env \<Rightarrow> action_request \<Rightarrow> presented \<Rightarrow> dict \<Rightarrow> ('s, 'd) execution \<Rightarrow> execution_result res \<times> ('s, 'd) execution" where
  "execute H E consume update x env r p attestation s =
     (case bindS (execute_admit H E consume update x env r p attestation) (\<lambda>claims.
           bindS (execute_effect x env r claims) (\<lambda>(output, n). execute_finish H E env r claims output n))
         (s\<lparr>xe_effect_state := ''not-started'', xe_evidence := False\<rparr>) of
        (Inr result, s') \<Rightarrow> (Inr result, s')
      | (Inl e, s') \<Rightarrow> execute_failed H E env r e s')"

text \<open>A call of one of any number of executors on shared stores, with what it presents.\<close>

record execute_call =
  xc_executor :: executor
  xc_request :: action_request
  xc_presented :: presented
  xc_attestation :: dict

definition execute_one ::
  "host \<Rightarrow> ed25519 \<Rightarrow> ('e \<Rightarrow> consumption \<Rightarrow> 's \<Rightarrow> bool res \<times> 's)
     \<Rightarrow> ('f \<Rightarrow> string \<Rightarrow> (decay_authority \<times> bool) transition \<Rightarrow> 'd \<Rightarrow> (decay_state \<times> decay_authority \<times> bool) res \<times> 'd)
     \<Rightarrow> ('e, 'f) executor_env \<Rightarrow> execute_call \<Rightarrow> ('s, 'd) execution \<Rightarrow> execution_result res \<times> ('s, 'd) execution" where
  "execute_one H E consume update env c = execute H E consume update (xc_executor c) env (xc_request c) (xc_presented c) (xc_attestation c)"

section \<open>Lemmas\<close>

text \<open>What the operation of a request yields, and the one event that tells of its completion.\<close>

definition yields :: "executor \<Rightarrow> ('e, 'f) executor_env \<Rightarrow> action_request \<Rightarrow> pyval \<Rightarrow> bool" where
  "yields x env r out \<longleftrightarrow>
     ar_operation r = ''object.read'' \<and> map_of (ex_objects x) (ar_resource_id r) = Some out
     \<or> ar_operation r = ''compute.run'' \<and> List.member (ex_compute_profiles x) (ar_resource_id r)
         \<and> ee_compute env (ar_resource_id r) (ar_arguments r) = Inr out"

definition completes ::
  "host \<Rightarrow> ed25519 \<Rightarrow> executor \<Rightarrow> ('e, 'f) executor_env \<Rightarrow> action_request \<Rightarrow> capability_claims \<Rightarrow> execution_result
     \<Rightarrow> recorder \<Rightarrow> recorder \<Rightarrow> bool" where
  "completes H E x env r claims res er er' \<longleftrightarrow> er_effect_state res = ''completed''
     \<and> er_operation res = ar_operation r \<and> er_resource_id res = ar_resource_id r \<and> yields x env r (er_output res)
     \<and> (\<exists>n. ee_dumps env (er_output res) = Inr n \<and> er_output_bytes res = int n) \<and> er_output_bytes res \<le> cc_max_output_bytes claims
     \<and> record_event H E (ee_parse env) (ee_append env ''execution.completed'') ''execution.completed''
         [(''request_id'', PStr (ar_request_id r)), (''capability_id'', PStr (cc_capability_id claims)), (''success'', PBool True),
          (''output_bytes'', PInt (er_output_bytes res)), (''effect_state'', PStr ''completed'')] er = (Inr (), er')"

text \<open>What a step of a call may change besides the evidence: the stores or the counters of the injector.\<close>

definition framed :: "('s, 'd) execution \<Rightarrow> ('s, 'd) execution \<Rightarrow> bool" where
  "framed s s' \<longleftrightarrow> file_extends (xe_recorder s) (xe_recorder s') \<and> xe_effects s' = xe_effects s \<and> xe_effect_state s' = xe_effect_state s
     \<and> xe_evidence s' = xe_evidence s"

lemma framed_refl: "framed s s"
  by (simp add: framed_def recorder.extends_refl)

lemma framed_trans: "framed s s' \<Longrightarrow> framed s' s'' \<Longrightarrow> framed s s''"
  by (auto simp: framed_def intro: recorder.extends_trans)

lemma fault_hit_framed:
  assumes "fault_hit point s = (r, s')"
  shows "framed s s'" "xe_stores s' = xe_stores s" "xe_recorder s' = xe_recorder s"
  using assms by (auto simp: fault_hit_def framed_def recorder.extends_refl split: option.splits prod.splits)

definition still :: "('s, 'd) execution \<Rightarrow> ('s, 'd) execution \<Rightarrow> bool" where
  "still s s' \<longleftrightarrow> framed s s' \<and> xe_stores s' = xe_stores s \<and> xe_recorder s' = xe_recorder s"

lemma fault_hit_still: "fault_hit point s = (r, s') \<Longrightarrow> still s s'"
  using fault_hit_framed by (fastforce simp: still_def)

lemma still_refl: "still s s"
  by (simp add: still_def framed_refl)

lemma still_trans: "still s s' \<Longrightarrow> still s' s'' \<Longrightarrow> still s s''"
  by (auto simp: still_def intro: framed_trans)

lemma on_recorder_framed:
  assumes "on_recorder m s = (r, s')" and "\<And>er r er'. m er = (r, er') \<Longrightarrow> file_extends er er'"
  shows "framed s s'" "xe_stores s' = xe_stores s"
  using assms by (auto simp: on_recorder_def framed_def split: prod.splits)

lemma executor_log_framed:
  assumes "executor_log H E env n p s = (r, s')"
  shows "framed s s'" "xe_stores s' = xe_stores s"
  using assms by (auto simp: executor_log_def on_recorder_def framed_def dest: recorder.append_extends split: prod.splits)

lemma executor_log_records:
  "executor_log H E env n p s = (u, s') \<Longrightarrow> record_event H E (ee_parse env) (ee_append env n) n p (xe_recorder s) = (u, xe_recorder s')"
  by (auto simp: executor_log_def on_recorder_def split: prod.splits)

lemma on_stores_framed:
  assumes "on_stores m s = (r, s')"
  shows "framed s s'" "m (xe_stores s) = (r, xe_stores s')" "xe_recorder s' = xe_recorder s"
  using assms by (auto simp: on_stores_def framed_def recorder.extends_refl split: prod.splits)

lemma canary_redeem_extends: "canary_redeem H E env v c r rep now es er = (x, er') \<Longrightarrow> file_extends er er' \<and> (\<exists>e. x = Inl e)"
  by (auto simp: canary_redeem_def bindS_def liftS_def split: prod.split_asm sum.split_asm dest: record_interaction_extends)

text \<open>Admission performs no effect; it returns only after the redemption of a capability.\<close>

lemma execute_admit_cases:
  assumes "execute_admit H E consume update x env r p attestation s = (a, s')"
  obtains (refused) e where "framed s s'" "a = Inl e" "xe_stores s' = xe_stores s"
  | (redeemed) capability b where "framed s s'" "p = Presented_capability capability" "xe_recorder s' = xe_recorder s"
      "redeem H E consume update (ex_verifier x) (ee_stores env) (executor_redemption x env capability r attestation) (xe_stores s) = (b, xe_stores s')"
      "\<And>claims. a = Inr claims \<Longrightarrow> b = Inr claims"
proof -
  obtain u s1 where h: "fault_hit ''executor.before-validation'' s = (u, s1)" by fastforce
  note 1 = fault_hit_framed [OF h]
  show thesis
  proof (cases u)
    case (Inl e)
    then show ?thesis using refused 1 assms h by (auto simp: execute_admit_def bindS_def)
  next
    case (Inr y)
    show ?thesis
    proof (cases p)
      case (Presented_canary c)
      show ?thesis
      proof (cases "ex_canary_verifier x")
        case None
        then show ?thesis using refused 1 assms h Inr Presented_canary by (auto simp: execute_admit_def bindS_def liftS_def)
      next
        case (Some v)
        let ?m = "canary_redeem H E (ee_canary env) v c r None (ee_canary_ms env) ''denied-before-effect''"
        obtain b s2 where b: "on_recorder ?m s1 = (b, s2)" by fastforce
        note 2 = on_recorder_framed [OF b] canary_redeem_extends
        have "\<exists>e. b = Inl e" using b canary_redeem_extends by (fastforce simp: on_recorder_def split: prod.splits)
        then show ?thesis using refused [of ] framed_trans [OF 1(1) 2(1)] 1(2) 2(2) canary_redeem_extends assms h Inr Presented_canary Some b
          by (auto simp: execute_admit_def bindS_def liftS_def)
      qed
    next
      case (Presented_capability capability)
      let ?m = "redeem H E consume update (ex_verifier x) (ee_stores env) (executor_redemption x env capability r attestation)"
      obtain b s2 where b: "on_stores ?m s1 = (b, s2)" by fastforce
      note 2 = on_stores_framed [OF b]
      have "still s2 s' \<and> (\<forall>claims. a = Inr claims \<longrightarrow> b = Inr claims)"
        using assms h b Inr Presented_capability
        by (cases b) (auto simp: execute_admit_def bindS_def liftS_def still_refl split: prod.split_asm sum.split_asm
            dest!: fault_hit_still intro: still_trans)
      then show ?thesis
        using redeemed [OF _ Presented_capability] framed_trans [OF 1(1) framed_trans [OF 2(1)]] 1(2,3) 2(2,3) by (auto simp: still_def)
    qed
  qed
qed

lemma execute_effect_cases:
  assumes "execute_effect x env r claims s = (a, s')"
  obtains (nothing) e where "s' = s" "a = Inl e"
  | (started) "s' = start_effect r claims s"
      "\<And>out n. a = Inr (out, n) \<Longrightarrow> int n \<le> cc_max_output_bytes claims \<and> yields x env r out \<and> ee_dumps env out = Inr n"
  using assms
  by (auto simp: execute_effect_def yields_def bindS_def liftS_def assignS_def checkE_def split: if_split_asm option.split_asm sum.split_asm prod.split_asm)

text \<open>After the effect the outcome is known to be possible at least; the evidence of completion comes before the answer.\<close>

lemma execute_finish_cases:
  assumes "execute_finish H E env r claims out n s = (a, s')" and "xe_effect_state s = ''possibly-committed''"
  shows "file_extends (xe_recorder s) (xe_recorder s')" "xe_effects s' = xe_effects s" "xe_stores s' = xe_stores s"
    "xe_effect_state s' \<in> {''possibly-committed'', ''completed''}"
    "\<And>res. a = Inr res \<Longrightarrow> res = \<lparr>er_success = True, er_operation = ar_operation r, er_resource_id = ar_resource_id r, er_output = out,
       er_output_bytes = int n, er_error = None, er_effect_state = ''completed''\<rparr> \<and> record_event H E (ee_parse env) (ee_append env ''execution.completed'') ''execution.completed''
         [(''request_id'', PStr (ar_request_id r)), (''capability_id'', PStr (cc_capability_id claims)), (''success'', PBool True),
          (''output_bytes'', PInt (int n)), (''effect_state'', PStr ''completed'')] (xe_recorder s) = (Inr (), xe_recorder s')"
proof -
  obtain u1 s1 where 1: "fault_hit ''executor.after-effect'' s = (u1, s1)" by fastforce
  obtain u2 s2 where 2: "fault_hit ''executor.before-evidence-record'' s1 = (u2, s2)" by fastforce
  let ?log = "executor_log H E env ''execution.completed''
        [(''request_id'', PStr (ar_request_id r)), (''capability_id'', PStr (cc_capability_id claims)), (''success'', PBool True),
         (''output_bytes'', PInt (int n)), (''effect_state'', PStr ''completed'')]"
  obtain u3 s3 where 3: "?log s2 = (u3, s3)" by fastforce
  let ?s4 = "s3\<lparr>xe_evidence := True, xe_effect_state := ''completed''\<rparr>"
  obtain u5 s5 where 5: "fault_hit ''executor.after-evidence-record'' ?s4 = (u5, s5)" by fastforce
  obtain u6 s6 where 6: "fault_hit ''executor.before-response'' s5 = (u6, s6)" by fastforce
  note f = fault_hit_framed [OF 1] fault_hit_framed [OF 2] executor_log_framed [OF 3] fault_hit_framed [OF 5] fault_hit_framed [OF 6]
  have a: "(a, s') = (case u1 of Inl e \<Rightarrow> (Inl e, s1) | Inr _ \<Rightarrow> (case u2 of Inl e \<Rightarrow> (Inl e, s2) | Inr _ \<Rightarrow> (case u3 of Inl e \<Rightarrow> (Inl e, s3)
      | Inr _ \<Rightarrow> (case u5 of Inl e \<Rightarrow> (Inl e, s5) | Inr _ \<Rightarrow> (case u6 of Inl e \<Rightarrow> (Inl e, s6) | Inr _ \<Rightarrow>
      (execution_result_check \<lparr>er_success = True, er_operation = ar_operation r, er_resource_id = ar_resource_id r, er_output = out,
        er_output_bytes = int n, er_error = None, er_effect_state = xe_effect_state s6\<rparr>, s6))))))"
    using assms(1) 1 2 3 5 6 by (auto simp: execute_finish_def bindS_def liftS_def assignS_def split: sum.splits)
  have s: "xe_effects s1 = xe_effects s" "xe_effects s2 = xe_effects s" "xe_effects s3 = xe_effects s" "xe_effects s5 = xe_effects s" "xe_effects s6 = xe_effects s"
    "xe_stores s1 = xe_stores s" "xe_stores s2 = xe_stores s" "xe_stores s3 = xe_stores s" "xe_stores s5 = xe_stores s" "xe_stores s6 = xe_stores s"
    "xe_effect_state s1 = ''possibly-committed''" "xe_effect_state s2 = ''possibly-committed''" "xe_effect_state s3 = ''possibly-committed''"
    "xe_effect_state s5 = ''completed''" "xe_effect_state s6 = ''completed''" "xe_recorder s1 = xe_recorder s" "xe_recorder s2 = xe_recorder s"
    "xe_recorder s5 = xe_recorder s3" "xe_recorder s6 = xe_recorder s3" "file_extends (xe_recorder s) (xe_recorder s3)"
    using f assms(2) by (simp_all add: framed_def)
  note r = executor_log_records [OF 3, unfolded s(17)]
  show "file_extends (xe_recorder s) (xe_recorder s')" "xe_effects s' = xe_effects s" "xe_stores s' = xe_stores s"
    "xe_effect_state s' \<in> {''possibly-committed'', ''completed''}"
    using a s recorder.extends_refl by (auto split: sum.splits)
  show "\<And>res. a = Inr res \<Longrightarrow> res = \<lparr>er_success = True, er_operation = ar_operation r, er_resource_id = ar_resource_id r, er_output = out,
       er_output_bytes = int n, er_error = None, er_effect_state = ''completed''\<rparr> \<and> record_event H E (ee_parse env) (ee_append env ''execution.completed'') ''execution.completed''
         [(''request_id'', PStr (ar_request_id r)), (''capability_id'', PStr (cc_capability_id claims)), (''success'', PBool True),
          (''output_bytes'', PInt (int n)), (''effect_state'', PStr ''completed'')] (xe_recorder s) = (Inr (), xe_recorder s')"
    using a s r by (auto simp: execution_result_check_def effect_states_def split: sum.splits if_splits)
qed

lemma execute_failed_result:
  assumes "execute_failed H E env r e s = (result, s')" and "xe_effect_state s \<in> set effect_states"
  shows "framed s s'" "xe_stores s' = xe_stores s" "\<exists>res. result = Inr res \<and> \<not> er_success res \<and> er_effect_state res = xe_effect_state s"
proof -
  show "framed s s'" "xe_stores s' = xe_stores s"
    using assms(1) executor_log_framed [OF prod.collapse [symmetric]]
    by (auto simp: execute_failed_def Let_def framed_refl split: if_split_asm)
  show "\<exists>res. result = Inr res \<and> \<not> er_success res \<and> er_effect_state res = xe_effect_state s"
    using assms by (auto simp: execute_failed_def Let_def execution_result_check_def)
qed

text \<open>The answer to an exception, for the state the handler finds.\<close>

lemma execute_failed_answer:
  assumes "execute_failed H E env r e s1 = (result, s')" and "xe_effect_state s1 \<in> set effect_states" and "file_extends (xe_recorder s) (xe_recorder s1)"
  obtains res where "result = Inr res" "\<not> er_success res" "er_effect_state res = xe_effect_state s1" "xe_effects s' = xe_effects s1"
    "xe_stores s' = xe_stores s1" "file_extends (xe_recorder s) (xe_recorder s')"
proof -
  note f = execute_failed_result [OF assms(1,2)]
  have "file_extends (xe_recorder s) (xe_recorder s')" "xe_effects s' = xe_effects s1"
    using f(1) assms(3) recorder.extends_trans by (auto simp: framed_def)
  then show thesis using that f(2,3) by blast
qed

definition execute_tail ::
  "host \<Rightarrow> ed25519 \<Rightarrow> executor \<Rightarrow> ('e, 'f) executor_env \<Rightarrow> action_request \<Rightarrow> capability_claims \<Rightarrow> ('s, 'd) execution \<Rightarrow> execution_result res \<times> ('s, 'd) execution" where
  "execute_tail H E x env r claims s =
     (case bindS (execute_effect x env r claims) (\<lambda>(output, n). execute_finish H E env r claims output n) s of
        (Inr result, s') \<Rightarrow> (Inr result, s')
      | (Inl e, s') \<Rightarrow> execute_failed H E env r e s')"

lemma execute_tail_cases:
  assumes "execute_tail H E x env r claims s = (result, s')" and "xe_effect_state s = ''not-started''"
  obtains (denied) res where "result = Inr res" "\<not> er_success res" "er_effect_state res = ''not-started''" "xe_effects s' = xe_effects s"
      "xe_stores s' = xe_stores s" "file_extends (xe_recorder s) (xe_recorder s')"
  | (performed) res where "result = Inr res" "xe_effects s' = xe_effects s @ [\<lparr>ef_request = r, ef_claims = claims\<rparr>]"
      "er_effect_state res \<in> {''possibly-committed'', ''completed''}" "xe_stores s' = xe_stores s" "file_extends (xe_recorder s) (xe_recorder s')"
      "er_success res \<Longrightarrow> completes H E x env r claims res (xe_recorder s) (xe_recorder s')"
proof -
  obtain b s2 where 2: "execute_effect x env r claims s = (b, s2)" by fastforce
  from 2 show thesis
  proof (cases rule: execute_effect_cases)
    case (nothing e)
    then have "execute_failed H E env r e s = (result, s')" using assms(1) 2 by (simp add: execute_tail_def bindS_def)
    then show ?thesis
      by (rule execute_failed_answer [where s = s]) (use denied assms(2) recorder.extends_refl in \<open>auto simp: effect_states_def\<close>)
  next
    case started
    then have s2: "xe_effects s2 = xe_effects s @ [\<lparr>ef_request = r, ef_claims = claims\<rparr>]" "xe_effect_state s2 = ''possibly-committed''"
      "xe_stores s2 = xe_stores s" "xe_recorder s2 = xe_recorder s"
      by (simp_all add: start_effect_def)
    have late: thesis if "execute_failed H E env r e s3 = (result, s')" "xe_effects s3 = xe_effects s2" "xe_stores s3 = xe_stores s2"
      "xe_effect_state s3 \<in> {''possibly-committed'', ''completed''}" "file_extends (xe_recorder s) (xe_recorder s3)" for e s3
      using that(1) by (rule execute_failed_answer [where s = s]) (use performed that s2 in \<open>auto simp: effect_states_def\<close>)
    show ?thesis
    proof (cases b)
      case (Inl e)
      then have "execute_failed H E env r e s2 = (result, s')" using assms(1) 2 by (simp add: execute_tail_def bindS_def)
      then show ?thesis using late s2 recorder.extends_refl by simp
    next
      case (Inr out)
      obtain d s3 where 3: "execute_finish H E env r claims (fst out) (snd out) s2 = (d, s3)" by fastforce
      note f3 = execute_finish_cases [OF 3 s2(2)]
      have run: "(case d of Inl e \<Rightarrow> execute_failed H E env r e s3 | Inr result \<Rightarrow> (Inr result, s3)) = (result, s')"
        using assms(1) 2 3 Inr by (auto simp: execute_tail_def bindS_def case_prod_unfold split: sum.splits)
      have o: "int (snd out) \<le> cc_max_output_bytes claims" "yields x env r (fst out)" "ee_dumps env (fst out) = Inr (snd out)"
        using started(2) Inr by (cases out, simp)+
      show ?thesis
      proof (cases d)
        case (Inl e)
        then show ?thesis using late [of _ s3] f3 s2 run by auto
      next
        case (Inr res)
        then have "result = Inr res" "s' = s3" using run by simp_all
        moreover have "completes H E x env r claims res (xe_recorder s) (xe_recorder s3)"
          using f3(5) [OF Inr] o by (simp add: completes_def s2(4))
        ultimately show ?thesis using performed [of res] f3(1-3) f3(5) [OF Inr] s2 by simp
      qed
    qed
  qed
qed

text \<open>A call ends with an answer: a denial without effect, or the one effect of a capability it redeemed.\<close>

lemma execute_cases:
  assumes "execute H E consume update x env r p attestation s = (result, s')"
  obtains (denied) res where "result = Inr res" "\<not> er_success res" "er_effect_state res = ''not-started''" "xe_effects s' = xe_effects s"
      "file_extends (xe_recorder s) (xe_recorder s')"
      "xe_stores s' = xe_stores s \<or> (\<exists>capability b. p = Presented_capability capability \<and>
         redeem H E consume update (ex_verifier x) (ee_stores env) (executor_redemption x env capability r attestation) (xe_stores s) = (b, xe_stores s'))"
  | (performed) res capability claims where "result = Inr res" "p = Presented_capability capability"
      "redeem H E consume update (ex_verifier x) (ee_stores env) (executor_redemption x env capability r attestation) (xe_stores s) = (Inr claims, xe_stores s')"
      "xe_effects s' = xe_effects s @ [\<lparr>ef_request = r, ef_claims = claims\<rparr>]" "er_effect_state res \<in> {''possibly-committed'', ''completed''}"
      "file_extends (xe_recorder s) (xe_recorder s')"
      "er_success res \<Longrightarrow> completes H E x env r claims res (xe_recorder s) (xe_recorder s')"
proof -
  let ?s = "s\<lparr>xe_effect_state := ''not-started'', xe_evidence := False\<rparr>"
  obtain a s1 where 1: "execute_admit H E consume update x env r p attestation ?s = (a, s1)" by fastforce
  have f1: "xe_effects s1 = xe_effects s" "xe_effect_state s1 = ''not-started''" "file_extends (xe_recorder s) (xe_recorder s1)"
    "xe_stores s1 = xe_stores s \<or> (\<exists>capability b. p = Presented_capability capability \<and>
       redeem H E consume update (ex_verifier x) (ee_stores env) (executor_redemption x env capability r attestation) (xe_stores s) = (b, xe_stores s1))"
    using 1 by (cases rule: execute_admit_cases; force simp: framed_def)+
  show thesis
  proof (cases a)
    case (Inl e)
    then have "execute_failed H E env r e s1 = (result, s')" using assms 1 by (simp add: execute_def bindS_def)
    then show ?thesis by (rule execute_failed_answer [where s = s]) (use denied f1 in \<open>auto simp: effect_states_def\<close>)
  next
    case (Inr claims)
    obtain capability where c: "p = Presented_capability capability" "xe_recorder s1 = xe_recorder s"
      "redeem H E consume update (ex_verifier x) (ee_stores env) (executor_redemption x env capability r attestation) (xe_stores s) = (Inr claims, xe_stores s1)"
      using 1 Inr by (cases rule: execute_admit_cases) auto
    have "execute_tail H E x env r claims s1 = (result, s')" using assms 1 Inr by (simp add: execute_def execute_tail_def bindS_def)
    then show ?thesis using f1(2)
      by (cases rule: execute_tail_cases) (use denied performed c f1 in auto)
  qed
qed

text \<open>
  What a redemption has shown of the capability presented: its claims are those of the envelope, read again from their dictionary,
  and are signed under the key of the verifier; they are inside their window, name this request and carry a ceiling that permits it.
\<close>

definition redeemed_for ::
  "host \<Rightarrow> ed25519 \<Rightarrow> executor \<Rightarrow> clock \<Rightarrow> action_request \<Rightarrow> dict \<Rightarrow> issued_capability \<Rightarrow> capability_claims \<Rightarrow> bool" where
  "redeemed_for H E x now r attestation capability claims \<longleftrightarrow>
     (\<exists>parsed sig message t trust ceiling.
        issued_capability_from_dict H (PDict (issued_capability_to_dict capability)) = Inr parsed \<and> claims = ic_claims parsed
      \<and> strict_signature (ic_signature parsed) = Inr sig \<and> canonical_bytes H (PDict (claims_to_dict claims)) = Inr message
      \<and> ed_verify E (cv_public_key (ex_verifier x)) sig message
      \<and> ic_key_id parsed = cv_key_id (ex_verifier x) \<and> cc_signer_key_id claims = cv_key_id (ex_verifier x)
      \<and> now = Millis t \<and> cc_issued_at claims - 5000 \<le> t \<and> t < cc_expires_at claims
      \<and> request_digest H r = Inr (cc_request_digest claims) \<and> cc_operation claims = ar_operation r \<and> cc_resource_id claims = ar_resource_id r
      \<and> cc_agent_id claims = ar_agent_id r \<and> cc_tenant claims = ex_tenant x \<and> cc_environment claims = ex_environment x
      \<and> cc_audience claims = ''effect-executor'' \<and> cc_policy_digest claims = ex_policy_digest x
      \<and> trust_state_from_attestation H (PDict attestation) (PStr (cc_requested_trust claims)) = Inr trust
      \<and> t < ts_expires_at_ms trust \<and> ts_attestation_digest trust = cc_attestation_digest claims
      \<and> compiled_from_dict H (PDict (cc_compiled_ceiling claims)) = Inr ceiling \<and> cp_compiled_digest ceiling = cc_compiled_ceiling_digest claims
      \<and> permits H ceiling r = Inr True)"

lemma redeem_redeemed_for:
  assumes "redeem H E consume update (ex_verifier x) e (executor_redemption x env capability r attestation) st = (Inr claims, st')"
  shows "redeemed_for H E x (fst (ee_clocks env)) r attestation capability claims"
proof -
  let ?x = "rc_redemption (executor_redemption x env capability r attestation)"
  have v: "verified_claims H E (cv_public_key (ex_verifier x)) (cv_key_id (ex_verifier x)) capability r ?x (fst (ee_clocks env)) = Inr claims"
    using assms unfolding redeem_def verify_and_consume_def executor_redemption_def by (auto split: prod.split_asm sum.split_asm)
  obtain parsed t trust ceiling ad rd pd authority_dg refresh_dg where
    c: "verified_envelope H E (cv_public_key (ex_verifier x)) (cv_key_id (ex_verifier x)) capability = Inr parsed" "claims = ic_claims parsed"
    "fst (ee_clocks env) = Millis t" "cc_issued_at claims - 5000 \<le> t" "t < cc_expires_at claims"
    "trust_state_from_attestation H (PDict (rx_attestation ?x)) (PStr (cc_requested_trust claims)) = Inr trust"
    "compiled_from_dict H (PDict (cc_compiled_ceiling claims)) = Inr ceiling" "context_checks H claims r ?x t trust ceiling = Inr ()"
    and ctx: "list_all (\<lambda>(name, a, b). a = b) (context_bindings claims ?x trust ceiling
       (dict_of (dict_get (rx_attestation ?x) ''measurements'')) pd authority_dg refresh_dg (ic_key_id parsed))"
    using v by (rule verified_claims_cases)
  have x: "rx_attestation ?x = attestation" "rx_tenant ?x = ex_tenant x" "rx_environment ?x = ex_environment x"
    "rx_audience ?x = ''effect-executor''" "rx_policy_digest ?x = ex_policy_digest x" by (simp_all add: executor_redemption_def)
  have b: "cc_audience claims = ''effect-executor''" "cc_policy_digest claims = ex_policy_digest x"
    "ts_attestation_digest trust = cc_attestation_digest claims" "cp_compiled_digest ceiling = cc_compiled_ceiling_digest claims"
    using ctx by (simp_all add: context_bindings_def x)
  have p: "permits H ceiling r = Inr True" "t < ts_expires_at_ms trust" using c(8) by (simp_all add: context_checks_Inr)
  obtain sig message where "strict_signature (ic_signature parsed) = Inr sig" "canonical_bytes H (PDict (claims_to_dict claims)) = Inr message"
    "ed_verify E (cv_public_key (ex_verifier x)) sig message"
    "issued_capability_from_dict H (PDict (issued_capability_to_dict capability)) = Inr parsed"
    "ic_key_id parsed = cv_key_id (ex_verifier x)" "cc_signer_key_id claims = cv_key_id (ex_verifier x)"
    using verified_envelope_Inr [OF c(1)] c(2) by auto
  then show ?thesis using verified_request [OF v] b p c(2-7) unfolding redeemed_for_def x by blast
qed

subsection \<open>One effect per capability\<close>

definition effect_id :: "effect \<Rightarrow> string" where
  "effect_id f = cc_capability_id (ef_claims f)"

context redemption_store
begin

definition effects_ok :: "('s, 'd) execution \<Rightarrow> bool" where
  "effects_ok s \<longleftrightarrow> distinct (map effect_id (xe_effects s)) \<and> list_all (\<lambda>f. spent (fst (xe_stores s)) (effect_id f) \<noteq> None) (xe_effects s)"

lemma execute_effects_ok:
  assumes "execute_one H E consume update env c s = (result, s')" and ok: "effects_ok s"
  shows "effects_ok s'"
  using assms(1) unfolding execute_one_def
proof (cases rule: execute_cases)
  case (denied res)
  have "spent (fst (xe_stores s')) i = Some x" if "spent (fst (xe_stores s)) i = Some x" for i x
    using denied(6) that redeem_effect by (metis prod.collapse)
  then show ?thesis using ok denied(4) by (fastforce simp: effects_ok_def list_all_iff)
next
  case (performed res capability claims)
  note e = redeem_effect [OF performed(3), of "cc_capability_id claims"]
  have keep: "spent (fst (xe_stores s')) i = Some x" if "spent (fst (xe_stores s)) i = Some x" for i x using e that by blast
  have new: "spent (fst (xe_stores s)) (cc_capability_id claims) = None" "spent (fst (xe_stores s')) (cc_capability_id claims) \<noteq> None"
    using e by (auto simp: redeems_def)
  have "cc_capability_id claims \<notin> set (map effect_id (xe_effects s))" using ok new(1) by (auto simp: effects_ok_def list_all_iff)
  then show ?thesis using ok performed(4) new(2) keep by (fastforce simp: effects_ok_def list_all_iff effect_id_def)
qed

lemma executions_effects_ok: "effects_ok s \<Longrightarrow> effects_ok (snd (run_calls (execute_one H E consume update) cs s))"
proof (induction cs arbitrary: s)
  case (Cons a cs)
  obtain env c result s' where a: "a = (env, c)" and x: "execute_one H E consume update env c s = (result, s')" by fastforce
  have "effects_ok (snd (run_calls (execute_one H E consume update) cs s'))" using Cons.IH execute_effects_ok [OF x Cons.prems] .
  then show ?case by (auto simp: a x split: prod.split)
qed simp

end

text \<open>Without faults a permitted read of a known object that fits the limit succeeds, once its evidence is written.\<close>

lemma execute_completes:
  assumes "xe_faults s = None" and "ar_operation r = ''object.read''" and "map_of (ex_objects x) (ar_resource_id r) = Some v"
    and "redeem H E consume update (ex_verifier x) (ee_stores env) (executor_redemption x env capability r attestation) (xe_stores s) = (Inr claims, st)"
    and "ee_dumps env v = Inr n" and "int n \<le> cc_max_output_bytes claims"
    and "record_event H E (ee_parse env) (ee_append env ''execution.completed'') ''execution.completed''
        [(''request_id'', PStr (ar_request_id r)), (''capability_id'', PStr (cc_capability_id claims)), (''success'', PBool True),
         (''output_bytes'', PInt (int n)), (''effect_state'', PStr ''completed'')] (xe_recorder s) = (Inr (), er)"
  shows "fst (execute H E consume update x env r (Presented_capability capability) attestation s) =
     Inr \<lparr>er_success = True, er_operation = ''object.read'', er_resource_id = ar_resource_id r, er_output = v, er_output_bytes = int n,
          er_error = None, er_effect_state = ''completed''\<rparr>"
  using assms
  by (simp add: execute_def execute_admit_def execute_effect_def execute_finish_def executor_log_def on_recorder_def on_stores_def fault_hit_def
      assignS_def start_effect_def bindS_def liftS_def execution_result_check_def effect_states_def)

text \<open>
  The classification of a fault before validation says that the capability was consumed; the executor that is stopped there
  has touched no store.
\<close>

lemma validation_fault_unconsumed:
  assumes "fault_hit ''executor.before-validation'' (s\<lparr>xe_effect_state := ''not-started'', xe_evidence := False\<rparr>) = (Inl e, s1)"
    and "execute H E consume update x env r p attestation s = (result, s')"
  shows "xe_stores s' = xe_stores s \<and> (case chaos_run ''executor.before-validation'' of Inl _ \<Rightarrow> False | Inr c \<Rightarrow> cr_capability_consumed c)"
proof -
  have "execute_failed H E env r e s1 = (result, s')" using assms by (simp add: execute_def execute_admit_def bindS_def)
  moreover have "framed (s\<lparr>xe_effect_state := ''not-started'', xe_evidence := False\<rparr>) s1" "xe_stores s1 = xe_stores s"
    using fault_hit_framed [OF assms(1)] by simp_all
  ultimately have "xe_stores s' = xe_stores s"
    using execute_failed_result(2) by (fastforce simp: framed_def effect_states_def)
  then show ?thesis by (simp add: chaos_run_def chaos_classify_def FAULT_DISPOSITIONS_def starts_def Let_def)
qed

section \<open>Properties\<close>

text \<open>
  C6: what an execution does. Whatever is presented, with any faults, callbacks, clocks and write errors, \<open>execute\<close> returns an answer and
  removes no evidence. An answer with state \<open>not-started\<close> means that no effect was begun. Any other answer means exactly one
  effect, with the claims of the very capability that was presented (never a canary): its signature by the key of the verifier
  covers these claims, the clock is inside their window, they name this request, operation and resource, this tenant,
  environment, policy and attestation, and their ceiling permits the request; the capability was unspent in the consumption
  table before and is spent after. A success is completed: its output is that of the operation, within the limit of the
  claims, and the one event appended for it is \<open>execution.completed\<close> with the request, the capability and the size.
\<close>

theorem executor_sound:
  "case execute H E (replica_consume ns dm) update x env r p attestation s of (result, s') \<Rightarrow>
     file_extends (xe_recorder s) (xe_recorder s') \<and> (case result of Inl _ \<Rightarrow> False | Inr res \<Rightarrow>
       if er_effect_state res = ''not-started'' then \<not> er_success res \<and> xe_effects s' = xe_effects s
       else \<exists>capability claims. p = Presented_capability capability
         \<and> xe_effects s' = xe_effects s @ [\<lparr>ef_request = r, ef_claims = claims\<rparr>]
         \<and> redeemed_for H E x (fst (ee_clocks env)) r attestation capability claims
         \<and> sqlite_spent ns dm (fst (xe_stores s)) (cc_capability_id claims) = None
         \<and> sqlite_spent ns dm (fst (xe_stores s')) (cc_capability_id claims) \<noteq> None
         \<and> (if er_success res then completes H E x env r claims res (xe_recorder s) (xe_recorder s')
              \<and> er_count (xe_recorder s') = er_count (xe_recorder s) + 1 else True))"
proof -
  obtain result s' where run: "execute H E (replica_consume ns dm) update x env r p attestation s = (result, s')" by fastforce
  then show ?thesis
  proof (cases rule: execute_cases)
    case (denied res)
    then show ?thesis by (simp add: run)
  next
    case (performed res capability claims)
    have "sqlite_spent ns dm (fst (xe_stores s)) (cc_capability_id claims) = None"
      "sqlite_spent ns dm (fst (xe_stores s')) (cc_capability_id claims) \<noteq> None"
      using sqlite_redemption.redeem_effect [OF performed(3), of "cc_capability_id claims"] by (auto simp: redeems_def)
    moreover have "er_success res \<Longrightarrow> er_count (xe_recorder s') = er_count (xe_recorder s) + 1"
      using performed(7) recorder.append_records unfolding completes_def by blast
    ultimately show ?thesis
      unfolding run prod.case performed(1) sum.case using performed(2,4-7) redeem_redeemed_for [OF performed(3)] by auto
  qed
qed

text \<open>
  C7: one effect per capability. Over any sequence of calls of any executors that share the SQLite consumption table, with any faults
  and whatever they are presented, the effects that may have been committed belong to different capabilities, and each
  of these capabilities is spent in the table.
\<close>

theorem executor_effects_once:
  "case run_calls (execute_one H E (replica_consume ns dm) update) cs (s\<lparr>xe_effects := []\<rparr>) of (results, s') \<Rightarrow>
     distinct (map effect_id (xe_effects s'))
     \<and> list_all (\<lambda>f. sqlite_spent ns dm (fst (xe_stores s')) (effect_id f) \<noteq> None) (xe_effects s')"
proof -
  have "sqlite_redemption.effects_ok ns dm (s\<lparr>xe_effects := []\<rparr>)" by (simp add: sqlite_redemption.effects_ok_def)
  from sqlite_redemption.executions_effects_ok [OF this] show ?thesis
    by (simp add: sqlite_redemption.effects_ok_def case_prod_unfold)
qed

end
