(* ===== verification/Journal.thy ===== *)
theory Journal
  imports ReplayState Trust
begin

text \<open>
  \<open>effect_outcome_journal.py\<close>: the SQLite journal that is written before an effect is dispatched. The table is the list of
  its rows; every method is one transaction, with the faults of \<open>ReplayState\<close> (nothing was done, or the outcome of the
  commit is unknown to the caller). The ownership checks on the path and the schema migration of \<open>__init__\<close> are left out.
\<close>

section \<open>Definitions\<close>

datatype journal_state = Possibly_committed | Recipient_confirmed

record effect_row =
  er_tenant :: string
  er_environment :: string
  er_effect_key :: string
  er_capability_id :: string
  er_request_digest :: string
  er_claims_digest :: string
  er_state :: journal_state
  er_receipt_digest :: "string option"
  er_fenced_protocol :: "string option"
  er_fenced_recipient_id :: "string option"
  er_fenced_output_digest :: "string option"

type_synonym journal = "effect_row list"

text \<open>The keyword arguments the writing methods share.\<close>

record reservation =
  rv_tenant :: pyval
  rv_environment :: pyval
  rv_effect_key :: pyval
  rv_capability_id :: pyval
  rv_request_digest :: pyval
  rv_claims_digest :: pyval

text \<open>\<open>len(s)\<close>: the number of code points of a string.\<close>

definition char_length :: "string \<Rightarrow> nat" where
  "char_length s = length (filter (\<lambda>c. \<not> is_cont c) s)"

definition identity_ok :: "nat \<Rightarrow> pyval \<Rightarrow> bool" where
  "identity_ok n v \<longleftrightarrow> is_str v \<and> str_of v \<noteq> [] \<and> char_length (str_of v) \<le> n"

definition digest_ok :: "pyval \<Rightarrow> bool" where
  "digest_ok v \<longleftrightarrow> is_str v \<and> is_digest (str_of v)"

definition journal_validate :: "reservation \<Rightarrow> unit res" where
  "journal_validate r = seqE
     [checkE (\<not> list_all (identity_ok 256) [rv_tenant r, rv_environment r, rv_capability_id r]) (ValueError ''effect journal identity invalid''),
      checkE (\<not> list_all digest_ok [rv_effect_key r, rv_request_digest r, rv_claims_digest r]) (ValueError ''effect journal digest invalid'')]"

text \<open>
  A transaction: the body works on the table and is undone when it raises; a driver error becomes \<open>err\<close>. Text with a lone
  surrogate cannot be bound to a statement.
\<close>

definition transaction :: "db_fault \<Rightarrow> exn \<Rightarrow> ('t \<Rightarrow> ('a \<times> 't) res) \<Rightarrow> 't \<Rightarrow> 'a res \<times> 't" where
  "transaction fault err body t =
     (if fault = Fault_before_commit then (Inl err, t)
      else case body t of
        Inl e \<Rightarrow> (Inl e, t)
      | Inr (x, t') \<Rightarrow> (case fault of Fault_at_commit durable \<Rightarrow> (Inl err, if durable then t' else t) | _ \<Rightarrow> (Inr x, t')))"

definition bind_texts :: "string list \<Rightarrow> unit res" where
  "bind_texts ss = checkE (list_ex has_surrogate ss) UnicodeEncodeError"

text \<open>\<open>SELECT ... WHERE tenant=? AND environment=? AND (effect_key=? OR capability_id=?)\<close>.\<close>

definition conflicts :: "reservation \<Rightarrow> effect_row \<Rightarrow> bool" where
  "conflicts r w \<longleftrightarrow> er_tenant w = str_of (rv_tenant r) \<and> er_environment w = str_of (rv_environment r)
     \<and> (er_effect_key w = str_of (rv_effect_key r) \<or> er_capability_id w = str_of (rv_capability_id r))"

definition same_authority :: "reservation \<Rightarrow> effect_row \<Rightarrow> bool" where
  "same_authority r w \<longleftrightarrow> er_effect_key w = str_of (rv_effect_key r) \<and> er_capability_id w = str_of (rv_capability_id r)
     \<and> er_request_digest w = str_of (rv_request_digest r) \<and> er_claims_digest w = str_of (rv_claims_digest r)"

definition new_row :: "reservation \<Rightarrow> effect_row" where
  "new_row r = \<lparr>er_tenant = str_of (rv_tenant r), er_environment = str_of (rv_environment r), er_effect_key = str_of (rv_effect_key r),
     er_capability_id = str_of (rv_capability_id r), er_request_digest = str_of (rv_request_digest r),
     er_claims_digest = str_of (rv_claims_digest r), er_state = Possibly_committed, er_receipt_digest = None,
     er_fenced_protocol = None, er_fenced_recipient_id = None, er_fenced_output_digest = None\<rparr>"

definition reserve_body :: "reservation \<Rightarrow> journal \<Rightarrow> (bool \<times> journal) res" where
  "reserve_body r j =
     bindE (bind_texts [str_of (rv_tenant r), str_of (rv_environment r), str_of (rv_capability_id r)]) (\<lambda>_.
     case find (conflicts r) j of
       Some w \<Rightarrow> if \<not> same_authority r w then Inl (EffectAlreadyReserved ''logical effect already reserved or capability rebound'')
                 else Inr (False, j)
     | None \<Rightarrow> Inr (True, j @ [new_row r]))"

definition reserve :: "db_fault \<Rightarrow> reservation \<Rightarrow> journal \<Rightarrow> bool res \<times> journal" where
  "reserve fault r j = (case journal_validate r of
     Inl e \<Rightarrow> (Inl e, j)
   | Inr _ \<Rightarrow> transaction fault (EffectJournalError ''effect journal reservation unavailable'') (reserve_body r) j)"

definition fenced_row :: "reservation \<Rightarrow> string \<Rightarrow> string \<Rightarrow> effect_row" where
  "fenced_row r recipient_id output_digest = (new_row r)\<lparr>er_fenced_protocol := Some ''atomic-sqlite-v1'',
     er_fenced_recipient_id := Some recipient_id, er_fenced_output_digest := Some output_digest\<rparr>"

definition same_fence :: "string \<Rightarrow> string \<Rightarrow> effect_row \<Rightarrow> bool" where
  "same_fence recipient_id output_digest w \<longleftrightarrow> er_fenced_protocol w = Some ''atomic-sqlite-v1''
     \<and> er_fenced_recipient_id w = Some recipient_id \<and> er_fenced_output_digest w = Some output_digest"

definition reserve_fenced_body :: "reservation \<Rightarrow> string \<Rightarrow> string \<Rightarrow> journal \<Rightarrow> (bool \<times> journal) res" where
  "reserve_fenced_body r recipient_id output_digest j =
     bindE (bind_texts [str_of (rv_tenant r), str_of (rv_environment r), str_of (rv_capability_id r)]) (\<lambda>_.
     case find (conflicts r) j of
       Some w \<Rightarrow> if \<not> (same_authority r w \<and> same_fence recipient_id output_digest w)
                 then Inl (EffectAlreadyReserved ''effect previously reserved under incompatible protocol or authority'')
                 else Inr (False, j)
     | None \<Rightarrow> bindE (bind_texts [recipient_id]) (\<lambda>_. Inr (True, j @ [fenced_row r recipient_id output_digest])))"

definition reserve_fenced :: "db_fault \<Rightarrow> reservation \<Rightarrow> pyval \<Rightarrow> pyval \<Rightarrow> journal \<Rightarrow> bool res \<times> journal" where
  "reserve_fenced fault r recipient_id output_digest j =
     (case bindE (journal_validate r) (\<lambda>_. checkE (\<not> (identity_ok 128 recipient_id \<and> digest_ok output_digest))
             (ValueError ''invalid fenced recipient binding'')) of
        Inl e \<Rightarrow> (Inl e, j)
      | Inr _ \<Rightarrow> transaction fault (EffectJournalError ''fenced reservation unavailable'')
                   (reserve_fenced_body r (str_of recipient_id) (str_of output_digest)) j)"

text \<open>The reading methods; \<open>available\<close> is whether the database answers.\<close>

definition observe :: "bool \<Rightarrow> string \<Rightarrow> string \<Rightarrow> string \<Rightarrow> journal \<Rightarrow> (string \<times> string \<times> journal_state \<times> string option) option res" where
  "observe available tenant environment capability_id j =
     bindE (checkE (\<not> available) (EffectJournalError ''effect journal observation unavailable'')) (\<lambda>_.
     bindE (bind_texts [tenant, environment, capability_id]) (\<lambda>_.
     Inr (map_option (\<lambda>w. (er_request_digest w, er_claims_digest w, er_state w, er_receipt_digest w))
       (find (\<lambda>w. er_tenant w = tenant \<and> er_environment w = environment \<and> er_capability_id w = capability_id) j))))"

definition observe_effect :: "bool \<Rightarrow> pyval \<Rightarrow> pyval \<Rightarrow> pyval \<Rightarrow> journal \<Rightarrow> effect_row option res" where
  "observe_effect available tenant environment effect_key j =
     bindE (checkE (\<not> (identity_ok 256 tenant \<and> identity_ok 256 environment \<and> digest_ok effect_key))
              (ValueError ''invalid trusted effect observation identity'')) (\<lambda>_.
     bindE (checkE (\<not> available) (EffectJournalError ''effect-key journal observation unavailable'')) (\<lambda>_.
     bindE (bind_texts [str_of tenant, str_of environment]) (\<lambda>_.
     Inr (find (\<lambda>w. er_tenant w = str_of tenant \<and> er_environment w = str_of environment \<and> er_effect_key w = str_of effect_key) j))))"

text \<open>\<open>confirm_from_trusted_recipient\<close>.\<close>

definition reserved_as :: "reservation \<Rightarrow> effect_row \<Rightarrow> bool" where
  "reserved_as r w \<longleftrightarrow> er_tenant w = str_of (rv_tenant r) \<and> er_environment w = str_of (rv_environment r)
     \<and> er_capability_id w = str_of (rv_capability_id r)"

definition confirm_body :: "reservation \<Rightarrow> string \<Rightarrow> journal \<Rightarrow> (unit \<times> journal) res" where
  "confirm_body r receipt j =
     bindE (bind_texts [str_of (rv_tenant r), str_of (rv_environment r), str_of (rv_capability_id r)]) (\<lambda>_.
     case find (reserved_as r) j of
       None \<Rightarrow> Inl (EffectJournalError ''recipient receipt is not bound to a reservation'')
     | Some w \<Rightarrow>
         if \<not> (er_effect_key w = str_of (rv_effect_key r) \<and> er_request_digest w = str_of (rv_request_digest r)
               \<and> er_claims_digest w = str_of (rv_claims_digest r))
         then Inl (EffectJournalError ''recipient receipt is not bound to a reservation'')
         else if er_state w = Recipient_confirmed \<and> er_receipt_digest w \<noteq> Some receipt
         then Inl (EffectJournalError ''conflicting recipient confirmation'')
         else Inr ((), map (\<lambda>w. if reserved_as r w
                then w\<lparr>er_state := Recipient_confirmed, er_receipt_digest := Some receipt\<rparr> else w) j))"

definition confirm :: "db_fault \<Rightarrow> reservation \<Rightarrow> pyval \<Rightarrow> journal \<Rightarrow> unit res \<times> journal" where
  "confirm fault r receipt j =
     (case bindE (journal_validate r) (\<lambda>_. checkE (\<not> digest_ok receipt) (ValueError ''trusted recipient receipt digest invalid'')) of
        Inl e \<Rightarrow> (Inl e, j)
      | Inr _ \<Rightarrow> transaction fault (EffectJournalError ''recipient confirmation unavailable'') (confirm_body r (str_of receipt)) j)"

text \<open>The writing calls of any number of gateway processes on one journal.\<close>

datatype journal_call = Reserve reservation | Reserve_fenced reservation pyval pyval | Confirm reservation pyval

definition journal_run :: "db_fault \<Rightarrow> journal_call \<Rightarrow> journal \<Rightarrow> bool res \<times> journal" where
  "journal_run fault c j = (case c of
     Reserve r \<Rightarrow> reserve fault r j
   | Reserve_fenced r recipient_id output_digest \<Rightarrow> reserve_fenced fault r recipient_id output_digest j
   | Confirm r receipt \<Rightarrow> (case confirm fault r receipt j of (x, j') \<Rightarrow> (bindE x (\<lambda>_. Inr False), j')))"

fun reservation_of :: "journal_call \<Rightarrow> reservation" where
  "reservation_of (Reserve r) = r"
| "reservation_of (Reserve_fenced r _ _) = r"
| "reservation_of (Confirm r _) = r"

text \<open>The scoped names a reservation takes: the logical effect and the capability.\<close>

datatype effect_name = Effect_key string | Capability string

definition takes :: "string \<times> string \<times> effect_name \<Rightarrow> effect_row \<Rightarrow> bool" where
  "takes k w = (case k of (t, e, n) \<Rightarrow> er_tenant w = t \<and> er_environment w = e
     \<and> (case n of Effect_key x \<Rightarrow> er_effect_key w = x | Capability x \<Rightarrow> er_capability_id w = x))"

definition reserves :: "string \<times> string \<times> effect_name \<Rightarrow> journal_call \<Rightarrow> bool res \<Rightarrow> bool" where
  "reserves k c r \<longleftrightarrow> r = Inr True \<and> takes k (new_row (reservation_of c))"

text \<open>The constraints of the table: both keys are unique, and exactly the confirmed rows have a receipt.\<close>

definition journal_ok :: "journal \<Rightarrow> bool" where
  "journal_ok j \<longleftrightarrow> distinct (map (\<lambda>w. (er_tenant w, er_environment w, er_capability_id w)) j)
     \<and> distinct (map (\<lambda>w. (er_tenant w, er_environment w, er_effect_key w)) j)
     \<and> list_all (\<lambda>w. (er_state w = Recipient_confirmed) = (er_receipt_digest w \<noteq> None)) j"

section \<open>Lemmas\<close>

text \<open>A later version of a row: the reservation is the same, and a confirmation is not changed.\<close>

definition provenance :: "effect_row \<Rightarrow> effect_row" where
  "provenance w = w\<lparr>er_state := Possibly_committed, er_receipt_digest := None\<rparr>"

definition row_le :: "effect_row \<Rightarrow> effect_row \<Rightarrow> bool" where
  "row_le w w' \<longleftrightarrow> provenance w' = provenance w \<and> (er_state w = Recipient_confirmed \<longrightarrow> w' = w)"

definition journal_le :: "journal \<Rightarrow> journal \<Rightarrow> bool" where
  "journal_le j j' \<longleftrightarrow> length j \<le> length j' \<and> list_all2 row_le j (take (length j) j')"

lemma row_le_refl [simp]: "row_le w w"
  by (simp add: row_le_def)

lemma row_le_trans: "row_le a b \<Longrightarrow> row_le b c \<Longrightarrow> row_le a c"
  by (auto simp: row_le_def)

lemma provenance_simps [simp]:
  "er_tenant (provenance w) = er_tenant w" "er_environment (provenance w) = er_environment w"
  "er_effect_key (provenance w) = er_effect_key w" "er_capability_id (provenance w) = er_capability_id w"
  "er_request_digest (provenance w) = er_request_digest w" "er_claims_digest (provenance w) = er_claims_digest w"
  by (simp_all add: provenance_def)

lemma takes_provenance: "takes k (provenance w) = takes k w"
  by (cases k) (simp add: takes_def split: effect_name.split)

lemma row_le_names: "row_le w w' \<Longrightarrow> takes k w' = takes k w"
  by (metis row_le_def takes_provenance)

lemma journal_le_refl [simp]: "journal_le j j"
  by (simp add: journal_le_def list.rel_refl)

lemma journal_le_append: "journal_le j (j @ k)"
  by (simp add: journal_le_def list.rel_refl)

lemma journal_le_nth: "journal_le j j' \<longleftrightarrow> length j \<le> length j' \<and> (\<forall>i < length j. row_le (j ! i) (j' ! i))"
  by (auto simp: journal_le_def list_all2_conv_all_nth)

lemma journal_le_trans: "journal_le a b \<Longrightarrow> journal_le b c \<Longrightarrow> journal_le a c"
  unfolding journal_le_nth by (meson less_le_trans order_trans row_le_trans)

lemma journal_le_taken:
  assumes "journal_le j j'" and "list_ex (takes k) j"
  shows "list_ex (takes k) j'"
proof -
  obtain i where "i < length j" "takes k (j ! i)" using assms(2) by (auto simp: list_ex_iff in_set_conv_nth)
  moreover have "row_le (j ! i) (j' ! i)" "i < length j'" using assms(1) calculation by (auto simp: journal_le_nth)
  ultimately show ?thesis using row_le_names unfolding list_ex_iff by (metis nth_mem)
qed

text \<open>What a transaction of the journal does to the table.\<close>

lemma transaction_cases:
  assumes "transaction fault err body t = (r, t')"
  obtains (undone) e where "r = Inl e" "t' = t" | (committed) x where "body t = Inr (x, t')" "r = Inr x \<or> r = Inl err"
proof (cases "fault = Fault_before_commit \<or> (\<exists>e. body t = Inl e)")
  case True
  then show thesis using assms undone by (auto simp: transaction_def split: if_split_asm)
next
  case False
  then obtain x u where "body t = Inr (x, u)" by (metis Inr_Inl_False sum.exhaust surj_pair)
  with False show thesis
    using assms undone committed by (cases fault) (auto simp: transaction_def split: if_split_asm)
qed

lemma reserve_effect:
  assumes "reserve_body r j = Inr (x, j') \<or> reserve_fenced_body r recipient_id od j = Inr (x, j')"
  shows "if x then find (conflicts r) j = None \<and> (\<exists>w. j' = j @ [w] \<and> (w = new_row r \<or> w = fenced_row r recipient_id od))
    else j' = j \<and> (\<exists>w \<in> set j. conflicts r w \<and> same_authority r w)"
  using assms unfolding reserve_body_def reserve_fenced_body_def bindE_Inr_iff
  by (auto split: option.split_asm if_split_asm simp: find_Some_iff bindE_Inr_iff)

lemma confirm_effect:
  assumes "confirm_body r receipt j = Inr (x, j')" and "distinct (map (\<lambda>w. (er_tenant w, er_environment w, er_capability_id w)) j)"
  shows "journal_le j j' \<and> list_all (\<lambda>w. reserved_as r w \<longrightarrow> er_receipt_digest w = Some receipt) j'"
proof -
  obtain w where w: "find (reserved_as r) j = Some w" and once: "\<not> (er_state w = Recipient_confirmed \<and> er_receipt_digest w \<noteq> Some receipt)"
    and j': "j' = map (\<lambda>w. if reserved_as r w then w\<lparr>er_state := Recipient_confirmed, er_receipt_digest := Some receipt\<rparr> else w) j"
    using assms(1) unfolding confirm_body_def bindE_Inr_iff by (auto split: option.split_asm if_split_asm)
  have "v = w" if "v \<in> set j" "reserved_as r v" for v
  proof -
    have "w \<in> set j" "reserved_as r w" using w by (auto simp: find_Some_iff)
    then show ?thesis using that assms(2) unfolding distinct_map reserved_as_def by (metis (mono_tags, lifting) inj_onD)
  qed
  then have "row_le v (v\<lparr>er_state := Recipient_confirmed, er_receipt_digest := Some receipt\<rparr>)" if "v \<in> set j" "reserved_as r v" for v
    using that once by (auto simp: row_le_def provenance_def)
  then have "journal_le j j'" unfolding j' journal_le_nth by auto
  then show ?thesis unfolding j' by (auto simp: list_all_iff reserved_as_def)
qed

lemma reserve_cases:
  assumes "reserve fault r j = (x, j') \<or> reserve_fenced fault r rid od j = (x, j')"
  obtains (undone) e where "x = Inl e" "j' = j" | (repeated) "x \<noteq> Inr True" "j' = j"
  | (reserved) w where "find (conflicts r) j = None" "j' = j @ [w]" "w = new_row r \<or> w = fenced_row r (str_of rid) (str_of od)"
      "x = Inr True \<or> (\<exists>e. x = Inl e)"
proof -
  from assms have "(\<exists>e. x = Inl e \<and> j' = j) \<or> (\<exists>err. transaction fault err (reserve_body r) j = (x, j')
      \<or> transaction fault err (reserve_fenced_body r (str_of rid) (str_of od)) j = (x, j'))"
    unfolding reserve_def reserve_fenced_def by (auto split: sum.split_asm)
  then consider e where "x = Inl e" "j' = j"
    | y err where "reserve_body r j = Inr (y, j') \<or> reserve_fenced_body r (str_of rid) (str_of od) j = Inr (y, j')"
      "x = Inr y \<or> x = Inl err"
    by (metis transaction_cases)
  then show thesis
  proof cases
    case 1
    then show thesis by (rule undone)
  next
    case (2 y err)
    then show thesis
      using reserve_effect [OF 2(1)] undone repeated reserved by (cases y) (auto split: if_split_asm)
  qed
qed

lemma confirm_cases:
  assumes "confirm fault r receipt j = (x, j')"
  obtains (undone) e where "x = Inl e" "j' = j"
  | (confirmed) "confirm_body r (str_of receipt) j = Inr ((), j')" "journal_validate r = Inr ()" "digest_ok receipt"
proof (cases "journal_validate r = Inr () \<and> digest_ok receipt")
  case True
  with assms show thesis
    using undone confirmed by (auto simp: confirm_def checkE_def elim!: transaction_cases)
next
  case False
  then obtain e where e: "bindE (journal_validate r) (\<lambda>_. checkE (\<not> digest_ok receipt) (ValueError ''trusted recipient receipt digest invalid'')) = Inl e"
    by (cases "journal_validate r") (auto simp: checkE_def)
  show thesis using assms undone unfolding confirm_def e sum.case by blast
qed

lemma journal_run_cases:
  assumes "journal_run fault c j = (x, j')"
  obtains (undone) "x \<noteq> Inr True" "j' = j"
  | (reserved) w where "find (conflicts (reservation_of c)) j = None" "j' = j @ [w]"
      "w = new_row (reservation_of c) \<or> (\<exists>rid od. w = fenced_row (reservation_of c) rid od)" "x = Inr True \<or> (\<exists>e. x = Inl e)"
  | (confirmed) receipt where "confirm_body (reservation_of c) receipt j = Inr ((), j')" "x \<noteq> Inr True"
proof (cases c)
  case (Reserve r)
  then have "reserve fault r j = (x, j') \<or> reserve_fenced fault r undefined undefined j = (x, j')" using assms by (simp add: journal_run_def)
  then show thesis using undone reserved Reserve by (elim reserve_cases) auto
next
  case (Reserve_fenced r rid od)
  then have "reserve fault r j = (x, j') \<or> reserve_fenced fault r rid od j = (x, j')" using assms by (simp add: journal_run_def)
  then show thesis using undone reserved Reserve_fenced by (elim reserve_cases) auto
next
  case (Confirm r receipt)
  then obtain y where y: "confirm fault r receipt j = (y, j')" "x = bindE y (\<lambda>_. Inr False)"
    using assms by (auto simp: journal_run_def split: prod.split_asm)
  then have "x \<noteq> Inr True" by (cases y) auto
  with y(1) show thesis using undone confirmed Confirm by (elim confirm_cases) auto
qed

lemma confirm_names:
  assumes "confirm_body r receipt j = Inr (x, j')"
  shows "map provenance j' = map provenance j"
  using assms unfolding confirm_body_def bindE_Inr_iff
  by (auto split: option.split_asm if_split_asm simp: provenance_def)

lemma taken_iff: "list_ex (takes k) j \<longleftrightarrow> list_ex (takes k) (map provenance j)"
  by (simp add: list_ex_iff takes_provenance)

lemma takes_new_row [simp]: "takes k (fenced_row r rid od) = takes k (new_row r)"
  by (cases k) (simp add: fenced_row_def takes_def split: effect_name.split)

lemma takes_conflicts: "takes k (new_row r) \<Longrightarrow> takes k w \<Longrightarrow> conflicts r w"
  by (cases k) (auto simp: takes_def conflicts_def new_row_def split: effect_name.split_asm)

interpretation reservations: one_shot journal_run reserves "\<lambda>j k. list_ex (takes k) j"
proof
  fix fault c j x j' k
  assume run: "journal_run fault c j = (x, j')"
  show "list_ex (takes k) j \<Longrightarrow> list_ex (takes k) j'"
    using run by (cases rule: journal_run_cases) (auto simp: taken_iff [of k j] taken_iff [of k j'] dest: confirm_names)
  show "reserves k c x \<Longrightarrow> \<not> list_ex (takes k) j \<and> list_ex (takes k) j'"
    using run
    by (cases rule: journal_run_cases)
      (auto simp: reserves_def list_ex_iff find_None_iff dest: takes_conflicts)
qed

section \<open>Histories\<close>

locale history =
  fixes run :: "'e \<Rightarrow> 'c \<Rightarrow> 's \<Rightarrow> 'r \<times> 's" and inv :: "'s \<Rightarrow> bool" and le :: "'s \<Rightarrow> 's \<Rightarrow> bool"
  assumes le_refl: "le s s" and le_trans: "le s t \<Longrightarrow> le t u \<Longrightarrow> le s u"
    and step: "run e c s = (r, s') \<Longrightarrow> inv s \<Longrightarrow> inv s' \<and> le s s'"
begin

lemma run_history: "run_calls run cs s = (rs, s') \<Longrightarrow> inv s \<Longrightarrow> inv s' \<and> le s s'"
proof (induction cs arbitrary: s rs)
  case (Cons a cs)
  obtain e c r t where a: "a = (e, c)" and f: "run e c s = (r, t)" by fastforce
  moreover obtain rs' where "run_calls run cs t = (rs', s')" using Cons.prems(1) by (auto simp: a f split: prod.split_asm)
  ultimately show ?case using Cons.IH step Cons.prems(2) le_trans by blast
qed (use le_refl in auto)

end

lemma distinct_new_row:
  assumes "find (conflicts r) j = None" and "w = new_row r \<or> (\<exists>rid od. w = fenced_row r rid od)" and "journal_ok j"
  shows "journal_ok (j @ [w])"
proof -
  have w: "er_tenant w = str_of (rv_tenant r)" "er_environment w = str_of (rv_environment r)" "er_effect_key w = str_of (rv_effect_key r)"
    "er_capability_id w = str_of (rv_capability_id r)" "er_state w = Possibly_committed" "er_receipt_digest w = None"
    using assms(2) by (auto simp: new_row_def fenced_row_def)
  have "\<not> conflicts r v" if "v \<in> set j" for v using assms(1) that by (auto simp: find_None_iff)
  then show ?thesis using assms(3) w by (fastforce simp: journal_ok_def conflicts_def)
qed

lemma map_provenance:
  assumes "map provenance j' = map provenance j" and "\<And>w. f (provenance w) = f w"
  shows "map f j' = map f j"
proof -
  have "map f (map provenance x) = map f x" for x using assms(2) by simp
  then show ?thesis using assms(1) by metis
qed

lemma confirm_ok:
  assumes "confirm_body r receipt j = Inr (x, j')" and "journal_ok j"
  shows "journal_ok j'"
proof -
  have "list_all (\<lambda>w. (er_state w = Recipient_confirmed) = (er_receipt_digest w \<noteq> None)) j'"
    using assms unfolding confirm_body_def bindE_Inr_iff
    by (auto split: option.split_asm if_split_asm simp: list_all_iff journal_ok_def)
  then show ?thesis
    using assms(2) map_provenance [OF confirm_names [OF assms(1)], of "\<lambda>w. (er_tenant w, er_environment w, er_capability_id w)"]
      map_provenance [OF confirm_names [OF assms(1)], of "\<lambda>w. (er_tenant w, er_environment w, er_effect_key w)"]
    by (simp add: journal_ok_def)
qed

lemma confirm_le: "confirm_body r receipt j = Inr (x, j') \<Longrightarrow> journal_ok j \<Longrightarrow> journal_le j j'"
  using confirm_effect by (simp add: journal_ok_def)

interpretation journal: history journal_run journal_ok journal_le
proof
  fix fault c j x j'
  assume "journal_run fault c j = (x, j')" and "journal_ok j"
  then show "journal_ok j' \<and> journal_le j j'"
    by (cases rule: journal_run_cases)
      (auto simp: journal_le_append distinct_new_row confirm_ok confirm_le)
qed (auto intro: journal_le_trans)

section \<open>Properties\<close>

text \<open>
  C12: an effect is reserved once. Over any sequence of reserving and confirming calls of any gateway processes on one
  journal, with faults before and at the commit, at most one reservation call answers \<open>True\<close> for a logical effect of a
  tenant and environment, and at most one for a capability; so at most one process is ever told to dispatch it.
\<close>

theorem effect_reserved_at_most_once:
  "wins reserves (tenant, environment, Effect_key k) cs (fst (run_calls journal_run cs j)) \<le> 1
    \<and> wins reserves (tenant, environment, Capability i) cs (fst (run_calls journal_run cs j)) \<le> 1"
  by (intro conjI reservations.at_most_once)

text \<open>
  C13: reservations are final. Over any such sequence the keys of the table stay unique, exactly the confirmed rows have a
  receipt, no row is removed, no row changes what it was reserved for, and a confirmation is never altered.
\<close>

theorem journal_history:
  assumes "run_calls journal_run cs j = (rs, j')" and "journal_ok j"
  shows "journal_ok j' \<and> length j \<le> length j'
    \<and> list_all2 (\<lambda>w w'. provenance w' = provenance w \<and> (er_state w = Recipient_confirmed \<longrightarrow> w' = w)) j (take (length j) j')"
  using journal.run_history [OF assms] by (simp add: journal_le_def row_le_def [abs_def])

definition demo_reservation :: reservation where
  "demo_reservation = \<lparr>rv_tenant = PStr ''t'', rv_environment = PStr ''e'', rv_effect_key = PStr demo_digest,
     rv_capability_id = PStr ''c'', rv_request_digest = PStr demo_digest, rv_claims_digest = PStr demo_digest\<rparr>"

theorem journal_history_witness:
  "\<exists>rs j. run_calls journal_run [(No_fault, Reserve demo_reservation), (No_fault, Reserve demo_reservation),
       (No_fault, Confirm demo_reservation (PStr demo_digest))] [] = (rs, j)
     \<and> rs = [Inr True, Inr False, Inr False] \<and> journal_ok j \<and> map er_state j = [Recipient_confirmed]"
proof -
  let ?cs = "[(No_fault, Reserve demo_reservation), (No_fault, Reserve demo_reservation), (No_fault, Confirm demo_reservation (PStr demo_digest))]"
  have r: "map_prod id (map er_state) (run_calls journal_run ?cs []) = ([Inr True, Inr False, Inr False], [Recipient_confirmed])"
    by code_simp
  obtain rs j where j: "run_calls journal_run ?cs [] = (rs, j)" by fastforce
  have "journal_ok []" by (simp add: journal_ok_def)
  then show ?thesis using journal_history [OF j] r j by simp
qed

end
