(* ===== verification/Recipient.thy ===== *)
theory Recipient
  imports Journal
begin

text \<open>
  \<open>fenced_recipient.py\<close>: the cooperating recipient whose business effect is the row of its idempotency table. The ownership
  checks of \<open>__init__\<close> on the path are left out; \<open>AUTOINCREMENT\<close> is the counter \<open>rp_sequence\<close>.
\<close>

section \<open>Definitions\<close>

record recipient_row =
  rr_sequence :: int
  rr_effect_key :: string
  rr_request_digest :: string
  rr_output_json :: string
  rr_output_digest :: string
  rr_receipt_digest :: string

record recipient_db =
  rp_identity :: "string option"
  rp_rows :: "recipient_row list"
  rp_sequence :: int

record fenced_receipt =
  fr_effect_key :: string
  fr_request_digest :: string
  fr_recipient_id :: string
  fr_output :: pyval
  fr_output_digest :: string
  fr_receipt_digest :: string
  fr_sequence :: int
  fr_newly_committed :: bool

definition is_recipient_char :: "char \<Rightarrow> bool" where
  "is_recipient_char c \<longleftrightarrow> (CHR ''a'' \<le> c \<and> c \<le> CHR ''z'') \<or> (CHR ''A'' \<le> c \<and> c \<le> CHR ''Z'') \<or> (CHR ''0'' \<le> c \<and> c \<le> CHR ''9'')
     \<or> c \<in> {CHR ''-'', CHR ''_'', CHR ''.'', CHR '':''}"

definition identity_body :: "string \<Rightarrow> recipient_db \<Rightarrow> (unit \<times> recipient_db) res" where
  "identity_body recipient_id db = (case rp_identity db of
     None \<Rightarrow> Inr ((), db\<lparr>rp_identity := Some recipient_id\<rparr>)
   | Some known \<Rightarrow> if known \<noteq> recipient_id then Inl (FencedRecipientBindingError ''durable recipient identity changed'') else Inr ((), db))"

definition recipient_init :: "db_fault \<Rightarrow> string \<Rightarrow> pyval \<Rightarrow> recipient_db \<Rightarrow> string res \<times> recipient_db" where
  "recipient_init fault path recipient_id db =
     (if take 1 path \<noteq> ''/'' \<or> \<not> is_str recipient_id \<or> \<not> (1 \<le> length (str_of recipient_id) \<and> length (str_of recipient_id) \<le> 128)
         \<or> \<not> list_all is_recipient_char (str_of recipient_id)
      then (Inl (ValueError ''fenced recipient needs a pinned ID and absolute disk path''), db)
      else case transaction fault (FencedRecipientError ''fenced recipient startup unavailable'') (identity_body (str_of recipient_id)) db of
        (r, db') \<Rightarrow> (bindE r (\<lambda>_. Inr (str_of recipient_id)), db'))"

definition recipient_key :: "pyval \<Rightarrow> pyval \<Rightarrow> unit res" where
  "recipient_key key rqd =
     checkE (\<not> (digest_ok key \<and> digest_ok rqd)) (ValueError ''fenced recipient requires canonical effect/request digests'')"

definition receipt_digest :: "host \<Rightarrow> string \<Rightarrow> string \<Rightarrow> string \<Rightarrow> string \<Rightarrow> int \<Rightarrow> string res" where
  "receipt_digest H recipient_id key rqd od sequence = digest H (PDict
     [(''schema'', PStr ''event-horizon.fenced-recipient-receipt.v1''), (''recipient_id'', PStr recipient_id), (''effect_key'', PStr key),
      (''request_digest'', PStr rqd), (''output_digest'', PStr od), (''sequence'', PInt sequence)])"

definition binding_conflict :: exn where
  "binding_conflict = FencedRecipientBindingError ''effect key already committed with incompatible binding''"

definition receipt_of :: "string \<Rightarrow> pyval \<Rightarrow> bool \<Rightarrow> recipient_row \<Rightarrow> fenced_receipt" where
  "receipt_of recipient_id out created w =
     \<lparr>fr_effect_key = rr_effect_key w, fr_request_digest = rr_request_digest w, fr_recipient_id = recipient_id, fr_output = out,
      fr_output_digest = rr_output_digest w, fr_receipt_digest = rr_receipt_digest w, fr_sequence = rr_sequence w,
      fr_newly_committed = created\<rparr>"

definition apply_body ::
  "host \<Rightarrow> string \<Rightarrow> string \<Rightarrow> string \<Rightarrow> pyval \<Rightarrow> string \<Rightarrow> string \<Rightarrow> recipient_db \<Rightarrow> (fenced_receipt \<times> recipient_db) res" where
  "apply_body H recipient_id key rqd out raw od db =
     (case find (\<lambda>w. rr_effect_key w = key) (rp_rows db) of
        None \<Rightarrow>
          let sequence = rp_sequence db + 1 in
          bindE (receipt_digest H recipient_id key rqd od sequence) (\<lambda>rcd.
          let w = \<lparr>rr_sequence = sequence, rr_effect_key = key, rr_request_digest = rqd, rr_output_json = raw,
                   rr_output_digest = od, rr_receipt_digest = rcd\<rparr> in
          Inr (receipt_of recipient_id out True w, db\<lparr>rp_rows := rp_rows db @ [w], rp_sequence := sequence\<rparr>))
      | Some w \<Rightarrow>
          if rr_request_digest w \<noteq> rqd \<or> rr_output_json w \<noteq> raw \<or> rr_output_digest w \<noteq> od then Inl binding_conflict
          else bindE (receipt_digest H recipient_id key rqd (rr_output_digest w) (rr_sequence w)) (\<lambda>expected.
            if rr_receipt_digest w \<noteq> expected then Inl binding_conflict
            else Inr (receipt_of recipient_id out False w, db)))"

definition prepare_output :: "host \<Rightarrow> pyval \<Rightarrow> (string \<times> string) res" where
  "prepare_output H out =
     bindE (canonical_bytes H out) (\<lambda>raw.
     bindE (strict_json_loads H (Bytes raw) True) (\<lambda>_.
     bindE (digest H out) (\<lambda>od.
     bindE (checkE (length raw > 16384) (ValueError ''effect exceeds synthetic recipient storage ceiling'')) (\<lambda>_.
     Inr (raw, od)))))"

definition recipient_apply ::
  "host \<Rightarrow> string \<Rightarrow> db_fault \<Rightarrow> pyval \<Rightarrow> pyval \<Rightarrow> pyval \<Rightarrow> recipient_db \<Rightarrow> fenced_receipt res \<times> recipient_db" where
  "recipient_apply H recipient_id fault key rqd out db =
     (case bindE (recipient_key key rqd) (\<lambda>_. prepare_output H out) of
        Inl e \<Rightarrow> (Inl e, db)
      | Inr (raw, od) \<Rightarrow> transaction fault (FencedRecipientError ''atomic recipient outcome unavailable'')
          (apply_body H recipient_id (str_of key) (str_of rqd) out raw od) db)"

definition untrusted_row :: exn where
  "untrusted_row = FencedRecipientBindingError ''untrusted persisted effect row''"

definition recipient_observe :: "host \<Rightarrow> string \<Rightarrow> bool \<Rightarrow> pyval \<Rightarrow> pyval \<Rightarrow> recipient_db \<Rightarrow> fenced_receipt option res" where
  "recipient_observe H recipient_id available key rqd db =
     bindE (recipient_key key rqd) (\<lambda>_.
     bindE (checkE (\<not> available) (FencedRecipientError ''recipient observation unavailable'')) (\<lambda>_.
     case find (\<lambda>w. rr_effect_key w = str_of key) (rp_rows db) of
       None \<Rightarrow> Inr None
     | Some w \<Rightarrow>
         bindE (strict_json_loads H (Bytes (rr_output_json w)) True) (\<lambda>out.
         bindE (checkE (rr_request_digest w \<noteq> str_of rqd) untrusted_row) (\<lambda>_.
         bindE (digest H out) (\<lambda>d.
         bindE (checkE (d \<noteq> rr_output_digest w) untrusted_row) (\<lambda>_.
         bindE (receipt_digest H recipient_id (str_of key) (rr_request_digest w) (rr_output_digest w) (rr_sequence w)) (\<lambda>expected.
         bindE (checkE (rr_receipt_digest w \<noteq> expected) untrusted_row) (\<lambda>_.
         Inr (Some (receipt_of recipient_id out False w))))))))))"

definition commit_count :: "recipient_db \<Rightarrow> nat" where
  "commit_count db = length (rp_rows db)"

text \<open>Applications by any number of gateways.\<close>

record application =
  ap_effect_key :: pyval
  ap_request_digest :: pyval
  ap_output :: pyval

definition recipient_run :: "host \<Rightarrow> string \<Rightarrow> db_fault \<Rightarrow> application \<Rightarrow> recipient_db \<Rightarrow> fenced_receipt res \<times> recipient_db" where
  "recipient_run H recipient_id fault a db =
     recipient_apply H recipient_id fault (ap_effect_key a) (ap_request_digest a) (ap_output a) db"

definition commits :: "string \<Rightarrow> application \<Rightarrow> fenced_receipt res \<Rightarrow> bool" where
  "commits k a r = (case r of Inl _ \<Rightarrow> False | Inr receipt \<Rightarrow> fr_newly_committed receipt \<and> fr_effect_key receipt = k)"

section \<open>Lemmas\<close>

definition committed :: "string \<Rightarrow> recipient_db \<Rightarrow> recipient_row option" where
  "committed k db = find (\<lambda>w. rr_effect_key w = k) (rp_rows db)"

lemma committed_key: "committed k db = Some w \<Longrightarrow> rr_effect_key w = k"
  by (auto simp: committed_def find_Some_iff)

text \<open>A row that the recipient will vouch for, and the value it reads back.\<close>

definition sound_row :: "host \<Rightarrow> string \<Rightarrow> pyval \<Rightarrow> recipient_row \<Rightarrow> bool" where
  "sound_row H recipient_id out w \<longleftrightarrow> strict_json_loads H (Bytes (rr_output_json w)) True = Inr out
     \<and> digest H out = Inr (rr_output_digest w)
     \<and> receipt_digest H recipient_id (rr_effect_key w) (rr_request_digest w) (rr_output_digest w) (rr_sequence w) = Inr (rr_receipt_digest w)"

lemma strict_canonical: "strict_json_loads H (Bytes raw) True = Inr v \<Longrightarrow> canonical_bytes H v = Inr raw"
  by (auto simp: strict_json_loads_def res_simps catchE_def decode_data_def split: sum.split_asm if_split_asm)

lemma prepare_output_Inr:
  assumes "prepare_output H out = Inr (raw, od)"
  shows "canonical_bytes H out = Inr raw \<and> digest H out = Inr od \<and> length raw \<le> 16384
    \<and> (\<exists>v. strict_json_loads H (Bytes raw) True = Inr v \<and> digest H v = Inr od \<and> canonical_bytes H v = Inr raw)"
proof -
  obtain v where v: "canonical_bytes H out = Inr raw" "strict_json_loads H (Bytes raw) True = Inr v" "digest H out = Inr od" "\<not> length raw > 16384"
    using assms by (auto simp: prepare_output_def res_simps)
  then show ?thesis using strict_canonical [OF v(2)] by (auto simp: digest_def)
qed

lemma apply_cases:
  assumes "recipient_apply H rid fault key rqd out db = (r, db')"
  obtains (undone) e where "r = Inl e" "db' = db"
  | (created) raw od w where "digest_ok key" "digest_ok rqd" "prepare_output H out = Inr (raw, od)" "committed (str_of key) db = None"
      "w = \<lparr>rr_sequence = rp_sequence db + 1, rr_effect_key = str_of key, rr_request_digest = str_of rqd, rr_output_json = raw,
            rr_output_digest = od, rr_receipt_digest = rr_receipt_digest w\<rparr>"
      "receipt_digest H rid (str_of key) (str_of rqd) od (rp_sequence db + 1) = Inr (rr_receipt_digest w)"
      "db' = db\<lparr>rp_rows := rp_rows db @ [w], rp_sequence := rp_sequence db + 1\<rparr>"
      "r = Inr (receipt_of rid out True w) \<or> (\<exists>e. r = Inl e)"
  | (present) raw od w where "digest_ok key" "digest_ok rqd" "prepare_output H out = Inr (raw, od)" "committed (str_of key) db = Some w"
      "rr_request_digest w = str_of rqd" "rr_output_json w = raw" "rr_output_digest w = od"
      "receipt_digest H rid (str_of key) (str_of rqd) od (rr_sequence w) = Inr (rr_receipt_digest w)"
      "db' = db" "r = Inr (receipt_of rid out False w) \<or> (\<exists>e. r = Inl e)"
proof (cases "bindE (recipient_key key rqd) (\<lambda>_. prepare_output H out)")
  case (Inl e)
  show thesis using assms undone unfolding recipient_apply_def Inl sum.case by blast
next
  case (Inr p)
  obtain raw od where p: "p = (raw, od)" by (cases p)
  have ok: "digest_ok key" "digest_ok rqd" "prepare_output H out = Inr (raw, od)"
    using Inr p by (auto simp: recipient_key_def res_simps)
  have "transaction fault (FencedRecipientError ''atomic recipient outcome unavailable'')
      (apply_body H rid (str_of key) (str_of rqd) out raw od) db = (r, db')"
    using assms unfolding recipient_apply_def Inr p sum.case prod.case .
  then show thesis
  proof (cases rule: transaction_cases)
    case (undone e)
    then show thesis using that(1) by blast
  next
    case (committed x)
    show thesis
    proof (cases "find (\<lambda>w. rr_effect_key w = str_of key) (rp_rows db)")
      case None
      then obtain rcd where "receipt_digest H rid (str_of key) (str_of rqd) od (rp_sequence db + 1) = Inr rcd"
        using committed(1) by (auto simp: apply_body_def bindE_Inr_iff Let_def)
      then show thesis
        using created [of raw od "\<lparr>rr_sequence = rp_sequence db + 1, rr_effect_key = str_of key, rr_request_digest = str_of rqd,
            rr_output_json = raw, rr_output_digest = od, rr_receipt_digest = rcd\<rparr>"] None ok committed
        by (auto simp: apply_body_def Let_def committed_def)
    next
      case (Some w)
      then show thesis
        using present [of raw od w] ok committed
        by (auto simp: apply_body_def committed_def bindE_Inr_iff split: if_split_asm)
    qed
  qed
qed

text \<open>The table only grows at its end, so the row of a key is found forever.\<close>

definition rows_le :: "recipient_db \<Rightarrow> recipient_db \<Rightarrow> bool" where
  "rows_le db db' \<longleftrightarrow> (\<exists>ws. rp_rows db' = rp_rows db @ ws)"

lemma find_append: "find P (xs @ ys) = (case find P xs of None \<Rightarrow> find P ys | Some x \<Rightarrow> Some x)"
  by (induction xs) auto

lemma rows_le_committed: "rows_le db db' \<Longrightarrow> committed k db = Some w \<Longrightarrow> committed k db' = Some w"
  by (auto simp: rows_le_def committed_def find_append)

interpretation recipient: history "recipient_run H rid" "\<lambda>_. True" rows_le for H rid
proof
  fix fault a db r db'
  assume "recipient_run H rid fault a db = (r, db')"
  then show "True \<and> rows_le db db'"
    unfolding recipient_run_def by (cases rule: apply_cases) (auto simp: rows_le_def)
qed (auto simp: rows_le_def)

interpretation commitments: one_shot "recipient_run H rid" commits "\<lambda>db k. committed k db \<noteq> None" for H rid
proof
  fix fault a db r db' k
  assume run: "recipient_run H rid fault a db = (r, db')"
  then have le: "rows_le db db'" using recipient.step by blast
  then show "committed k db \<noteq> None \<Longrightarrow> committed k db' \<noteq> None" using rows_le_committed by blast
  show "commits k a r \<Longrightarrow> \<not> committed k db \<noteq> None \<and> committed k db' \<noteq> None"
    using run unfolding recipient_run_def
  proof (cases rule: apply_cases)
    case (created raw od w)
    then have "rr_effect_key w = str_of (ap_effect_key a)" by (metis recipient_row.select_convs(2))
    with created show "commits k a r \<Longrightarrow> \<not> committed k db \<noteq> None \<and> committed k db' \<noteq> None"
      by (auto simp: commits_def receipt_of_def committed_def find_append split: sum.split_asm option.split_asm)
  qed (auto simp: commits_def receipt_of_def split: sum.split_asm)
qed

lemma applied_row:
  assumes "recipient_apply H rid fault key rqd out db = (Inr receipt, db')"
  obtains w v where "committed (str_of key) db' = Some w" "sound_row H rid v w" "canonical_bytes H v = canonical_bytes H out"
    "receipt = receipt_of rid out (fr_newly_committed receipt) w" "rr_request_digest w = str_of rqd" "digest_ok key" "digest_ok rqd"
  using assms
proof (cases rule: apply_cases)
  case (created raw od w)
  note w = created(5)
  have f: "rr_effect_key w = str_of key" "rr_request_digest w = str_of rqd" "rr_output_json w = raw" "rr_output_digest w = od" "rr_sequence w = rp_sequence db + 1"
    by (subst w, simp)+
  obtain v where "strict_json_loads H (Bytes raw) True = Inr v" "digest H v = Inr od" "canonical_bytes H v = Inr raw" "canonical_bytes H out = Inr raw"
    using prepare_output_Inr [OF created(3)] by blast
  moreover have "committed (str_of key) db' = Some w"
    using created(4,7) f by (auto simp: committed_def find_append)
  ultimately show thesis using that [of w v] created f by (auto simp: sound_row_def receipt_of_def)
next
  case (present raw od w)
  obtain v where "strict_json_loads H (Bytes raw) True = Inr v" "digest H v = Inr od" "canonical_bytes H v = Inr raw" "canonical_bytes H out = Inr raw"
    using prepare_output_Inr [OF present(3)] by blast
  then show thesis using that [of w v] present committed_key [OF present(4)] by (auto simp: sound_row_def receipt_of_def)
qed auto

lemma observe_sound:
  assumes "committed (str_of key) db = Some w" and "sound_row H rid v w" and "rr_request_digest w = str_of rqd"
    and "digest_ok key" and "digest_ok rqd"
  shows "recipient_observe H rid True key rqd db = Inr (Some (receipt_of rid v False w))"
  using assms committed_key [OF assms(1)]
  by (simp add: recipient_observe_def recipient_key_def checkE_def committed_def sound_row_def)

section \<open>Properties\<close>

text \<open>
  C14: a committed effect is final. Whatever applications of whatever gateways follow a successful \<open>apply\<close>, with any faults,
  \<open>observe\<close> returns the receipt of that commit: the same sequence number, receipt digest and request, with a value that
  has the canonical bytes of the applied output; and in the whole history the effect key is newly committed at most once.
\<close>

theorem committed_effect_final:
  assumes "recipient_apply H rid fault key rqd out db = (Inr receipt, db')"
    and "run_calls (recipient_run H rid) cs db' = (rs, db'')"
  shows "(\<exists>v. recipient_observe H rid True key rqd db'' = Inr (Some (receipt\<lparr>fr_output := v, fr_newly_committed := False\<rparr>))
      \<and> canonical_bytes H v = canonical_bytes H out)
    \<and> wins commits (str_of key) cs rs = 0"
proof -
  obtain w v where a: "committed (str_of key) db' = Some w" "sound_row H rid v w" "canonical_bytes H v = canonical_bytes H out"
    "receipt = receipt_of rid out (fr_newly_committed receipt) w" "rr_request_digest w = str_of rqd" "digest_ok key" "digest_ok rqd"
    using assms(1) by (rule applied_row)
  have "rows_le db' db''" using recipient.run_history [OF assms(2)] by simp
  then have "recipient_observe H rid True key rqd db'' = Inr (Some (receipt_of rid v False w))"
    using a rows_le_committed by (intro observe_sound) blast+
  moreover have "receipt_of rid v False w = receipt\<lparr>fr_output := v, fr_newly_committed := False\<rparr>"
    by (subst a(4)) (simp add: receipt_of_def)
  moreover have "wins commits (str_of key) cs rs = 0"
    using commitments.used_no_wins [of "str_of key" db' cs H rid] a(1) assms(2) by simp
  ultimately show ?thesis using a(3) by auto
qed

definition demo_recipient :: recipient_db where
  "demo_recipient = \<lparr>rp_identity = Some ''r'', rp_rows = [], rp_sequence = 0\<rparr>"

theorem committed_effect_final_witness:
  "\<exists>receipt db'. recipient_apply demo_host ''r'' No_fault (PStr demo_digest) (PStr demo_digest) (PInt 7) demo_recipient = (Inr receipt, db')
    \<and> fr_newly_committed receipt
    \<and> okE (recipient_observe demo_host ''r'' True (PStr demo_digest) (PStr demo_digest) db')"
proof -
  let ?run = "recipient_apply demo_host ''r'' No_fault (PStr demo_digest) (PStr demo_digest) (PInt 7) demo_recipient"
  have "(case fst ?run of Inl _ \<Rightarrow> False | Inr receipt \<Rightarrow> fr_newly_committed receipt)" by code_simp
  then obtain receipt db' where r: "?run = (Inr receipt, db')" "fr_newly_committed receipt"
    by (cases ?run) (auto split: sum.split_asm)
  have "run_calls (recipient_run demo_host ''r'') [] db' = ([], db')" by simp
  from committed_effect_final [OF r(1) this] show ?thesis using r by (auto simp: okE_def)
qed

end
