(* ===== verification/Gateway.thy ===== *)
theory Gateway
  imports Broker Recipient
begin

text \<open>
  \<open>trusted_effect_gateway.py\<close>: verify and consume a capability, then dispatch a trusted effect. The effect handlers, the
  pre-dispatch rules, the recorder (an \<open>EvidenceSink\<close>) and the text of arbitrary handler results are callbacks of the host:
  their answers are part of the environment of a call. What is dispatched is kept in the state as \<open>gs_dispatched\<close>.

  A call passes four stages, between which other processes on the same stores may run; \<open>gateway_execute\<close> is one call
  without interleaving, \<open>gateway_step\<close> a step of one of any number of processes.
\<close>

section \<open>Definitions\<close>

record gateway =
  gw_verifier :: capability_verifier
  gw_effects :: "string list"
  gw_rules :: "string list"
  gw_event_prefix :: string
  gw_tenant :: string
  gw_environment :: string
  gw_has_journal :: bool

text \<open>\<open>__init__\<close>; the callbacks are callable by their type.\<close>

definition gateway_init :: "gateway \<Rightarrow> gateway res" where
  "gateway_init g = bindE (seqE
     [checkE (gw_event_prefix g \<notin> {''gateway'', ''execution''}) (ValueError ''unrecognized evidence event namespace''),
      checkE (gw_effects g = []) (ValueError ''gateway must have explicit trusted effect handlers''),
      checkE (\<not> subset_list (gw_rules g) (gw_effects g)) (ValueError ''pre-dispatch rules must be trusted registered operation callbacks'')])
     (\<lambda>_. Inr g)"

record gateway_decision =
  gv_accepted :: bool
  gv_effect_state :: string
  gv_error_class :: "string option"
  gv_output :: pyval
  gv_output_bytes :: nat

definition denied :: "string \<Rightarrow> string \<Rightarrow> gateway_decision" where
  "denied effect_state error_class = \<lparr>gv_accepted = False, gv_effect_state = effect_state, gv_error_class = Some error_class,
     gv_output = PNone, gv_output_bytes = 0\<rparr>"

text \<open>An append to the recorder succeeds, or raises with the event stored or not.\<close>

datatype append_outcome = Appended | Append_failed bool

record ('e, 'f) gateway_env =
  ge_consume :: 'e
  ge_decay :: 'f
  ge_append :: "string \<Rightarrow> append_outcome"
  ge_rule :: "bool res"
  ge_journal :: db_fault
  ge_handler :: "pyval res"
  ge_dumps :: "pyval \<Rightarrow> nat res"

record gateway_call =
  gc_gateway :: gateway
  gc_request :: action_request
  gc_capability :: issued_capability
  gc_redemption :: redemption
  gc_clocks :: "clock \<times> clock \<times> clock"

record dispatch =
  dp_reservation :: reservation
  dp_claims :: capability_claims
  dp_request :: action_request

record ('s, 'd) gateway_state =
  gs_consumption :: 's
  gs_decay :: 'd
  gs_journal :: journal
  gs_events :: "(string \<times> dict) list"
  gs_dispatched :: "dispatch list"

datatype stage = Start | Authorized capability_claims | Cleared capability_claims | Reserved capability_claims reservation | Done gateway_decision

definition append_event :: "('e, 'f) gateway_env \<Rightarrow> string \<Rightarrow> dict \<Rightarrow> ('s, 'd) gateway_state \<Rightarrow> bool \<times> ('s, 'd) gateway_state" where
  "append_event env name payload st =
     (let st' = st\<lparr>gs_events := gs_events st @ [(name, payload)]\<rparr> in
      case ge_append env name of Appended \<Rightarrow> (True, st') | Append_failed stored \<Rightarrow> (False, if stored then st' else st))"

definition gateway_event :: "gateway_call \<Rightarrow> string \<Rightarrow> string" where
  "gateway_event c suffix = gw_event_prefix (gc_gateway c) @ suffix"

definition gateway_record_denial :: "('e, 'f) gateway_env \<Rightarrow> gateway_call \<Rightarrow> string \<Rightarrow> ('s, 'd) gateway_state \<Rightarrow> ('s, 'd) gateway_state" where
  "gateway_record_denial env c error_class st = snd (append_event env (gateway_event c ''.denied'')
     [(''request_id'', PStr (ar_request_id (gc_request c))), (''error_class'', PStr error_class), (''effect_state'', PStr ''not-started'')] st)"

text \<open>The redemption of a gateway names its own tenant and environment and the default audience.\<close>

definition gateway_redemption :: "gateway_call \<Rightarrow> redemption" where
  "gateway_redemption c = (gc_redemption c)\<lparr>rx_audience := ''effect-executor'', rx_tenant := gw_tenant (gc_gateway c),
     rx_environment := gw_environment (gc_gateway c)\<rparr>"

definition stage_verify ::
  "host \<Rightarrow> ed25519 \<Rightarrow> ('e \<Rightarrow> consumption \<Rightarrow> 's \<Rightarrow> bool res \<times> 's)
     \<Rightarrow> ('f \<Rightarrow> string \<Rightarrow> (decay_authority \<times> bool) transition \<Rightarrow> 'd \<Rightarrow> (decay_state \<times> decay_authority \<times> bool) res \<times> 'd)
     \<Rightarrow> ('e, 'f) gateway_env \<Rightarrow> gateway_call \<Rightarrow> ('s, 'd) gateway_state \<Rightarrow> stage \<times> ('s, 'd) gateway_state" where
  "stage_verify H E consume update env c st =
     (if ar_operation (gc_request c) \<notin> set (gw_effects (gc_gateway c))
      then (Done (denied ''not-started'' ''unsupported-operation''), gateway_record_denial env c ''unsupported-operation'' st)
      else case redeem H E consume update (gw_verifier (gc_gateway c)) (ge_consume env, ge_decay env)
             \<lparr>rc_capability = gc_capability c, rc_request = gc_request c, rc_redemption = gateway_redemption c, rc_clocks = gc_clocks c\<rparr>
             (gs_consumption st, gs_decay st) of
        (r, s, d) \<Rightarrow>
          let st' = st\<lparr>gs_consumption := s, gs_decay := d\<rparr> in
          (case r of
             Inl _ \<Rightarrow> (Done (denied ''not-started'' ''authority-denied''), gateway_record_denial env c ''authority-denied'' st')
           | Inr claims \<Rightarrow> (Authorized claims, st')))"

definition stage_clear :: "host \<Rightarrow> ('e, 'f) gateway_env \<Rightarrow> gateway_call \<Rightarrow> capability_claims \<Rightarrow> ('s, 'd) gateway_state \<Rightarrow> stage \<times> ('s, 'd) gateway_state" where
  "stage_clear H env c claims st =
     (case request_digest H (gc_request c) of
        Inl _ \<Rightarrow> (Done (denied ''not-started'' ''evidence-unavailable''), st)
      | Inr rqd \<Rightarrow>
          (case append_event env (gateway_event c ''.authorized'')
             [(''request_id'', PStr (ar_request_id (gc_request c))), (''request_digest'', PStr rqd),
              (''capability_id'', PStr (cc_capability_id (ic_claims (gc_capability c))))] st of
             (False, st') \<Rightarrow> (Done (denied ''not-started'' ''evidence-unavailable''), st')
           | (True, st') \<Rightarrow>
               if ar_operation (gc_request c) \<in> set (gw_rules (gc_gateway c)) \<and> ge_rule env \<noteq> Inr True
               then (Done (denied ''not-started'' ''pre-dispatch-denied''), gateway_record_denial env c ''pre-dispatch-denied'' st')
               else (Cleared claims, st')))"

definition effect_key :: "host \<Rightarrow> action_request \<Rightarrow> string res" where
  "effect_key H r = digest H (PDict [(''session_id'', PStr (ar_session_id r)), (''request_id'', PStr (ar_request_id r))])"

definition reservation_for :: "host \<Rightarrow> string \<Rightarrow> string \<Rightarrow> action_request \<Rightarrow> capability_claims \<Rightarrow> reservation res" where
  "reservation_for H tenant environment r claims =
     bindE (effect_key H r) (\<lambda>key.
     bindE (request_digest H r) (\<lambda>rqd.
     bindE (digest H (PDict (claims_to_dict claims))) (\<lambda>cd.
     Inr \<lparr>rv_tenant = PStr tenant, rv_environment = PStr environment, rv_effect_key = PStr key,
          rv_capability_id = PStr (cc_capability_id claims), rv_request_digest = PStr rqd, rv_claims_digest = PStr cd\<rparr>)))"

text \<open>Without a journal a call goes on with no reservation; the reservation is then only the name of the dispatch.\<close>

definition unreserved :: "gateway \<Rightarrow> capability_claims \<Rightarrow> reservation" where
  "unreserved g claims = \<lparr>rv_tenant = PStr (gw_tenant g), rv_environment = PStr (gw_environment g), rv_effect_key = PNone,
     rv_capability_id = PStr (cc_capability_id claims), rv_request_digest = PNone, rv_claims_digest = PNone\<rparr>"

definition stage_reserve :: "host \<Rightarrow> ('e, 'f) gateway_env \<Rightarrow> gateway_call \<Rightarrow> capability_claims \<Rightarrow> ('s, 'd) gateway_state \<Rightarrow> stage \<times> ('s, 'd) gateway_state" where
  "stage_reserve H env c claims st =
     (let g = gc_gateway c; unavailable = Done (denied ''not-started'' ''effect-journal-unavailable'') in
      if \<not> gw_has_journal g then (Reserved claims (unreserved g claims), st)
      else case reservation_for H (gw_tenant g) (gw_environment g) (gc_request c) claims of
        Inl _ \<Rightarrow> (unavailable, gateway_record_denial env c ''effect-journal-unavailable'' st)
      | Inr rv \<Rightarrow> (case reserve (ge_journal env) rv (gs_journal st) of
          (r, j) \<Rightarrow> let st' = st\<lparr>gs_journal := j\<rparr> in
            (case r of
               Inl (EffectAlreadyReserved _) \<Rightarrow> (Done (denied ''possibly-committed'' ''prior-effect-unknown''), st')
             | Inl _ \<Rightarrow> (unavailable, gateway_record_denial env c ''effect-journal-unavailable'' st')
             | Inr False \<Rightarrow> (Done (denied ''possibly-committed'' ''prior-dispatch-unknown''), st')
             | Inr True \<Rightarrow> (Reserved claims rv, st'))))"

definition stage_dispatch ::
  "('e, 'f) gateway_env \<Rightarrow> gateway_call \<Rightarrow> capability_claims \<Rightarrow> reservation \<Rightarrow> ('s, 'd) gateway_state \<Rightarrow> stage \<times> ('s, 'd) gateway_state" where
  "stage_dispatch env c claims rv st =
     (let st' = st\<lparr>gs_dispatched := gs_dispatched st @ [\<lparr>dp_reservation = rv, dp_claims = claims, dp_request = gc_request c\<rparr>]\<rparr>;
          id = PStr (ar_request_id (gc_request c)) in
      case bindE (ge_handler env) (\<lambda>out. bindE (ge_dumps env out) (\<lambda>n.
             if int n > cc_max_output_bytes claims then Inl (PermissionError ''result exceeds signed capability output ceiling'')
             else Inr (out, n))) of
        Inl _ \<Rightarrow> (Done (denied ''possibly-committed'' ''effect-indeterminate''),
          snd (append_event env (gateway_event c ''.indeterminate'') [(''request_id'', id), (''effect_state'', PStr ''possibly-committed'')] st'))
      | Inr (out, n) \<Rightarrow>
          (case append_event env (gateway_event c ''.completed'')
             [(''request_id'', id), (''capability_id'', PStr (cc_capability_id claims)), (''success'', PBool True),
              (''output_bytes'', PInt (int n)), (''effect_state'', PStr ''completed'')] st' of
             (False, st'') \<Rightarrow> (Done (denied ''possibly-committed'' ''evidence-indeterminate''), st'')
           | (True, st'') \<Rightarrow> (Done \<lparr>gv_accepted = True, gv_effect_state = ''completed'', gv_error_class = None, gv_output = out,
                                  gv_output_bytes = n\<rparr>, st'')))"

fun gateway_stage ::
  "host \<Rightarrow> ed25519 \<Rightarrow> ('e \<Rightarrow> consumption \<Rightarrow> 's \<Rightarrow> bool res \<times> 's)
     \<Rightarrow> ('f \<Rightarrow> string \<Rightarrow> (decay_authority \<times> bool) transition \<Rightarrow> 'd \<Rightarrow> (decay_state \<times> decay_authority \<times> bool) res \<times> 'd)
     \<Rightarrow> ('e, 'f) gateway_env \<Rightarrow> gateway_call \<Rightarrow> stage \<Rightarrow> ('s, 'd) gateway_state \<Rightarrow> stage \<times> ('s, 'd) gateway_state" where
  "gateway_stage H E consume update env c Start st = stage_verify H E consume update env c st"
| "gateway_stage H E consume update env c (Authorized claims) st = stage_clear H env c claims st"
| "gateway_stage H E consume update env c (Cleared claims) st = stage_reserve H env c claims st"
| "gateway_stage H E consume update env c (Reserved claims rv) st = stage_dispatch env c claims rv st"
| "gateway_stage H E consume update env c (Done d) st = (Done d, st)"

text \<open>\<open>execute\<close>: the four stages of one call.\<close>

primrec run_stages where
  "run_stages H E consume update env c 0 p = p"
| "run_stages H E consume update env c (Suc n) p =
     run_stages H E consume update env c n (gateway_stage H E consume update env c (fst p) (snd p))"

definition gateway_execute ::
  "host \<Rightarrow> ed25519 \<Rightarrow> ('e \<Rightarrow> consumption \<Rightarrow> 's \<Rightarrow> bool res \<times> 's)
     \<Rightarrow> ('f \<Rightarrow> string \<Rightarrow> (decay_authority \<times> bool) transition \<Rightarrow> 'd \<Rightarrow> (decay_state \<times> decay_authority \<times> bool) res \<times> 'd)
     \<Rightarrow> ('e, 'f) gateway_env \<Rightarrow> gateway_call \<Rightarrow> ('s, 'd) gateway_state \<Rightarrow> stage \<times> ('s, 'd) gateway_state" where
  "gateway_execute H E consume update env c st = run_stages H E consume update env c 4 (Start, st)"

text \<open>Any number of calls, each at some stage; a step is a stage of one of them, in any environment.\<close>

inductive gateway_step ::
  "host \<Rightarrow> ed25519 \<Rightarrow> ('e \<Rightarrow> consumption \<Rightarrow> 's \<Rightarrow> bool res \<times> 's)
     \<Rightarrow> ('f \<Rightarrow> string \<Rightarrow> (decay_authority \<times> bool) transition \<Rightarrow> 'd \<Rightarrow> (decay_state \<times> decay_authority \<times> bool) res \<times> 'd)
     \<Rightarrow> (nat \<Rightarrow> gateway_call) \<Rightarrow> (nat \<Rightarrow> stage) \<times> ('s, 'd) gateway_state \<Rightarrow> (nat \<Rightarrow> stage) \<times> ('s, 'd) gateway_state \<Rightarrow> bool"
  for H E consume update calls where
  run_stage: "gateway_stage H E consume update env (calls p) (procs p) st = (stage, st') \<Longrightarrow>
     gateway_step H E consume update calls (procs, st) (procs(p := stage), st')"

section \<open>Lemmas\<close>

subsection \<open>The recorder changes nothing but the events\<close>

lemma append_event_keeps:
  "gs_dispatched (snd (append_event env name payload st)) = gs_dispatched st"
  "gs_journal (snd (append_event env name payload st)) = gs_journal st"
  "gs_consumption (snd (append_event env name payload st)) = gs_consumption st"
  by (simp_all add: append_event_def Let_def split: append_outcome.split)

lemma record_denial_keeps [simp]:
  "gs_dispatched (gateway_record_denial env c e st) = gs_dispatched st"
  "gs_journal (gateway_record_denial env c e st) = gs_journal st"
  "gs_consumption (gateway_record_denial env c e st) = gs_consumption st"
  by (simp_all add: gateway_record_denial_def append_event_keeps)

lemma append_event_eq: "append_event env name payload st = (b, st') \<Longrightarrow>
    gs_dispatched st' = gs_dispatched st \<and> gs_journal st' = gs_journal st \<and> gs_consumption st' = gs_consumption st"
  using append_event_keeps by (metis snd_conv)

subsection \<open>A call returns after four stages\<close>

definition stage_no :: "stage \<Rightarrow> nat" where
  "stage_no s = (case s of Start \<Rightarrow> 4 | Authorized _ \<Rightarrow> 3 | Cleared _ \<Rightarrow> 2 | Reserved _ _ \<Rightarrow> 1 | Done _ \<Rightarrow> 0)"

lemma stage_progress: "stage_no (fst (gateway_stage H E consume update env c s st)) \<le> stage_no s - 1"
  by (cases s) (auto simp: stage_no_def stage_verify_def stage_clear_def stage_reserve_def stage_dispatch_def Let_def
      split: sum.split prod.split bool.split exn.split)

lemma run_stages_done: "stage_no (fst p) \<le> n \<Longrightarrow> \<exists>d st'. run_stages H E consume update env c n p = (Done d, st')"
proof (induction n arbitrary: p)
  case 0
  then show ?case by (cases p; cases "fst p") (auto simp: stage_no_def)
next
  case (Suc n)
  then show ?case using stage_progress [of H E consume update env c "fst p" "snd p"] by simp
qed

subsection \<open>Reserved names\<close>

definition disjoint :: "reservation \<Rightarrow> reservation \<Rightarrow> bool" where
  "disjoint a b \<longleftrightarrow> \<not> (\<exists>n. takes n (new_row a) \<and> takes n (new_row b))"

definition all_taken :: "journal \<Rightarrow> reservation \<Rightarrow> bool" where
  "all_taken j a \<longleftrightarrow> (\<forall>n. takes n (new_row a) \<longrightarrow> list_ex (takes n) j)"

lemma disjoint_sym: "disjoint a b \<longleftrightarrow> disjoint b a"
  by (auto simp: disjoint_def)

lemma reserve_names:
  assumes "reserve fault rv j = (r, j')"
  shows "all_taken j a \<Longrightarrow> all_taken j' a"
    and "r = Inr True \<Longrightarrow> all_taken j' rv \<and> (all_taken j a \<longrightarrow> disjoint rv a)"
proof -
  have run: "journal_run fault (Reserve rv) j = (r, j')" using assms by (simp add: journal_run_def)
  show "all_taken j a \<Longrightarrow> all_taken j' a"
    using reservations.stay [OF run] unfolding all_taken_def by blast
  show "all_taken j' rv \<and> (all_taken j a \<longrightarrow> disjoint rv a)" if "r = Inr True"
    using reservations.win [OF run] that unfolding all_taken_def disjoint_def reserves_def reservation_of.simps by blast
qed

lemma disjoint_names:
  assumes "disjoint a b"
  shows "(rv_tenant a, rv_environment a, rv_effect_key a) \<noteq> (rv_tenant b, rv_environment b, rv_effect_key b)"
    and "(rv_tenant a, rv_environment a, rv_capability_id a) \<noteq> (rv_tenant b, rv_environment b, rv_capability_id b)"
proof -
  have n: "\<not> (takes n (new_row a) \<and> takes n (new_row b))" for n using assms unfolding disjoint_def by blast
  show "(rv_tenant a, rv_environment a, rv_effect_key a) \<noteq> (rv_tenant b, rv_environment b, rv_effect_key b)"
    using n [of "(str_of (rv_tenant a), str_of (rv_environment a), Effect_key (str_of (rv_effect_key a)))"] by (auto simp: takes_def new_row_def)
  show "(rv_tenant a, rv_environment a, rv_capability_id a) \<noteq> (rv_tenant b, rv_environment b, rv_capability_id b)"
    using n [of "(str_of (rv_tenant a), str_of (rv_environment a), Capability (str_of (rv_capability_id a)))"] by (auto simp: takes_def new_row_def)
qed

subsection \<open>Interleaved calls\<close>

text \<open>Claims that name the request, of a capability that is spent; and the reservation made for them.\<close>

definition authorizes :: "host \<Rightarrow> ('s \<Rightarrow> string \<Rightarrow> (string \<times> int) option) \<Rightarrow> 's \<Rightarrow> action_request \<Rightarrow> capability_claims \<Rightarrow> bool" where
  "authorizes H spent s r claims \<longleftrightarrow> request_digest H r = Inr (cc_request_digest claims) \<and> cc_operation claims = ar_operation r
     \<and> spent s (cc_capability_id claims) \<noteq> None"

definition reserved_for :: "host \<Rightarrow> action_request \<Rightarrow> capability_claims \<Rightarrow> reservation \<Rightarrow> bool" where
  "reserved_for H r claims rv \<longleftrightarrow> (\<exists>t e. reservation_for H t e r claims = Inr rv)"

fun stage_ok :: "host \<Rightarrow> ('s \<Rightarrow> string \<Rightarrow> (string \<times> int) option) \<Rightarrow> gateway_call \<Rightarrow> ('s, 'd) gateway_state \<Rightarrow> stage \<Rightarrow> bool" where
  "stage_ok H spent c st (Authorized claims) = authorizes H spent (gs_consumption st) (gc_request c) claims"
| "stage_ok H spent c st (Cleared claims) = authorizes H spent (gs_consumption st) (gc_request c) claims"
| "stage_ok H spent c st (Reserved claims rv) = (authorizes H spent (gs_consumption st) (gc_request c) claims
     \<and> reserved_for H (gc_request c) claims rv \<and> all_taken (gs_journal st) rv
     \<and> list_all (\<lambda>d. disjoint rv (dp_reservation d)) (gs_dispatched st))"
| "stage_ok H spent c st _ = True"

fun reserved_apart :: "stage \<Rightarrow> stage \<Rightarrow> bool" where
  "reserved_apart (Reserved _ a) (Reserved _ b) = disjoint a b"
| "reserved_apart _ _ = True"

definition dispatch_ok :: "host \<Rightarrow> ('s \<Rightarrow> string \<Rightarrow> (string \<times> int) option) \<Rightarrow> ('s, 'd) gateway_state \<Rightarrow> dispatch \<Rightarrow> bool" where
  "dispatch_ok H spent st d \<longleftrightarrow> authorizes H spent (gs_consumption st) (dp_request d) (dp_claims d)
     \<and> reserved_for H (dp_request d) (dp_claims d) (dp_reservation d) \<and> all_taken (gs_journal st) (dp_reservation d)"

definition gateway_inv ::
  "host \<Rightarrow> ('s \<Rightarrow> string \<Rightarrow> (string \<times> int) option) \<Rightarrow> (nat \<Rightarrow> gateway_call) \<Rightarrow> (nat \<Rightarrow> stage) \<times> ('s, 'd) gateway_state \<Rightarrow> bool" where
  "gateway_inv H spent calls = (\<lambda>(procs, st). (\<forall>p. stage_ok H spent (calls p) st (procs p))
     \<and> (\<forall>p q. p \<noteq> q \<longrightarrow> reserved_apart (procs p) (procs q))
     \<and> list_all (dispatch_ok H spent st) (gs_dispatched st)
     \<and> sorted_wrt disjoint (map dp_reservation (gs_dispatched st)))"

text \<open>The states of two moments between which nothing was dispatched.\<close>

definition state_le :: "('s \<Rightarrow> string \<Rightarrow> (string \<times> int) option) \<Rightarrow> ('s, 'd) gateway_state \<Rightarrow> ('s, 'd) gateway_state \<Rightarrow> bool" where
  "state_le spent st st' \<longleftrightarrow> gs_dispatched st' = gs_dispatched st \<and> (\<forall>a. all_taken (gs_journal st) a \<longrightarrow> all_taken (gs_journal st') a)
     \<and> (\<forall>i. spent (gs_consumption st) i \<noteq> None \<longrightarrow> spent (gs_consumption st') i \<noteq> None)"

lemma stage_ok_mono: "state_le spent st st' \<Longrightarrow> stage_ok H spent c st s \<Longrightarrow> stage_ok H spent c st' s"
  by (cases s) (auto simp: state_le_def authorizes_def)

lemma dispatch_ok_mono: "state_le spent st st' \<Longrightarrow> dispatch_ok H spent st d \<Longrightarrow> dispatch_ok H spent st' d"
  by (auto simp: state_le_def dispatch_ok_def authorizes_def)

lemma clear_stage:
  assumes "stage_clear H env c claims st = (s, st')"
  shows "state_le spent st st' \<and> (s = Cleared claims \<or> (\<exists>d. s = Done d))"
  using assms unfolding stage_clear_def
  by (auto simp: state_le_def dest: append_event_eq split: sum.split_asm prod.split_asm bool.split_asm if_split_asm)

lemma reserve_stage:
  assumes "stage_reserve H env c claims st = (s, st')" and "gw_has_journal (gc_gateway c)"
  shows "state_le spent st st' \<and> ((\<exists>d. s = Done d) \<or> (\<exists>rv. s = Reserved claims rv \<and> reserved_for H (gc_request c) claims rv
    \<and> all_taken (gs_journal st') rv \<and> (\<forall>a. all_taken (gs_journal st) a \<longrightarrow> disjoint rv a)))"
proof (cases "reservation_for H (gw_tenant (gc_gateway c)) (gw_environment (gc_gateway c)) (gc_request c) claims")
  case (Inl e)
  then show ?thesis using assms by (auto simp: stage_reserve_def state_le_def)
next
  case (Inr rv)
  obtain r j where j: "reserve (ge_journal env) rv (gs_journal st) = (r, j)" by fastforce
  note names = reserve_names [OF j]
  have le: "state_le spent st st'"
    using assms Inr j names(1) by (auto simp: stage_reserve_def state_le_def Let_def split: sum.split_asm exn.split_asm bool.split_asm)
  have "(\<exists>d. s = Done d) \<or> (s = Reserved claims rv \<and> r = Inr True \<and> gs_journal st' = j)"
    using assms Inr j by (auto simp: stage_reserve_def Let_def split: sum.split_asm exn.split_asm bool.split_asm)
  then show ?thesis using le names(2) Inr by (auto simp: reserved_for_def)
qed

lemma dispatch_stage:
  assumes "stage_dispatch env c claims rv st = (s, st')"
  shows "(\<exists>d. s = Done d) \<and> gs_journal st' = gs_journal st \<and> gs_consumption st' = gs_consumption st
    \<and> gs_dispatched st' = gs_dispatched st @ [\<lparr>dp_reservation = rv, dp_claims = claims, dp_request = gc_request c\<rparr>]"
  using assms unfolding stage_dispatch_def Let_def
  by (auto simp: append_event_keeps dest!: append_event_eq split: sum.split_asm prod.split_asm bool.split_asm)

context redemption_store
begin

lemma verify_stage:
  assumes "stage_verify H E consume update env c st = (s, st')"
  shows "state_le spent st st' \<and> ((\<exists>d. s = Done d) \<or> (\<exists>claims. s = Authorized claims \<and> authorizes H spent (gs_consumption st') (gc_request c) claims))"
proof (cases "ar_operation (gc_request c) \<in> set (gw_effects (gc_gateway c))")
  case False
  then show ?thesis using assms by (auto simp: stage_verify_def state_le_def)
next
  case True
  let ?call = "\<lparr>rc_capability = gc_capability c, rc_request = gc_request c, rc_redemption = gateway_redemption c, rc_clocks = gc_clocks c\<rparr>"
  obtain r s1 d1 where red: "redeem H E consume update (gw_verifier (gc_gateway c)) (ge_consume env, ge_decay env) ?call
      (gs_consumption st, gs_decay st) = (r, s1, d1)" by (metis prod.exhaust)
  note eff = redeem_effect [OF red]
  have st': "gs_consumption st' = s1" "gs_dispatched st' = gs_dispatched st" "gs_journal st' = gs_journal st"
    and s: "(\<exists>d. s = Done d) \<or> (\<exists>claims. s = Authorized claims \<and> r = Inr claims)"
    using assms True red by (auto simp: stage_verify_def Let_def split: sum.split_asm)
  have "state_le spent st st'" using eff st' by (auto simp: state_le_def)
  moreover have "authorizes H spent s1 (gc_request c) claims" if "r = Inr claims" for claims
  proof -
    have "redeems (cc_capability_id claims) ?call r" by (simp add: redeems_def that)
    then show ?thesis
      using redeem_verified [OF red [unfolded that]] eff verified_request by (fastforce simp: authorizes_def)
  qed
  ultimately show ?thesis using s st' by auto
qed

lemma reserved_apart_done: "(\<And>a rv. s \<noteq> Reserved a rv) \<Longrightarrow> reserved_apart s t \<and> reserved_apart t s"
  by (cases s; cases t) auto

lemma inv_quiet:
  assumes "gateway_inv H spent calls (procs, st)" and "state_le spent st st'" and "stage_ok H spent (calls p) st' s"
    and "\<And>q. q \<noteq> p \<Longrightarrow> reserved_apart s (procs q) \<and> reserved_apart (procs q) s"
  shows "gateway_inv H spent calls (procs(p := s), st')"
proof -
  have "list_all (dispatch_ok H spent st') (gs_dispatched st)"
    using assms(1) dispatch_ok_mono [OF assms(2)] by (auto simp: gateway_inv_def list_all_iff)
  moreover have "stage_ok H spent (calls q) st' (procs q)" for q
    using assms(1) stage_ok_mono [OF assms(2)] by (simp add: gateway_inv_def)
  moreover have "gs_dispatched st' = gs_dispatched st" using assms(2) by (simp add: state_le_def)
  ultimately show ?thesis using assms(1,3,4) by (auto simp: gateway_inv_def)
qed

lemma gateway_inv_stage:
  assumes "gateway_stage H E consume update env (calls p) (procs p) st = (s, st')" and "gateway_inv H spent calls (procs, st)"
    and "gw_has_journal (gc_gateway (calls p))"
  shows "gateway_inv H spent calls (procs(p := s), st')"
proof (cases "procs p")
  case Start
  then have "state_le spent st st'" "stage_ok H spent (calls p) st' s" "\<And>a rv. s \<noteq> Reserved a rv"
    using verify_stage [of env "calls p" st s st'] assms(1) by auto
  then show ?thesis using assms(2) inv_quiet reserved_apart_done by blast
next
  case (Authorized claims)
  then have "state_le spent st st'" "stage_ok H spent (calls p) st' s" "\<And>a rv. s \<noteq> Reserved a rv"
    using clear_stage [of H env "calls p" claims st s st' spent] assms(1,2) stage_ok_mono [of spent st st' H "calls p" "Cleared claims"]
    by (auto simp: gateway_inv_def dest!: spec [of _ p])
  then show ?thesis using assms(2) inv_quiet reserved_apart_done by blast
next
  case (Cleared claims)
  have ok: "stage_ok H spent (calls q) st (procs q)" "list_all (dispatch_ok H spent st) (gs_dispatched st)" for q
    using assms(2) by (auto simp: gateway_inv_def)
  have le: "state_le spent st st'" and s: "(\<exists>d. s = Done d) \<or> (\<exists>rv. s = Reserved claims rv \<and> reserved_for H (gc_request (calls p)) claims rv
      \<and> all_taken (gs_journal st') rv \<and> (\<forall>a. all_taken (gs_journal st) a \<longrightarrow> disjoint rv a))"
    using reserve_stage [of H env "calls p" claims st s st'] assms(1,3) Cleared by auto
  have "stage_ok H spent (calls p) st' s"
    using s stage_ok_mono [OF le ok(1) [of p]] ok(2) le Cleared by (auto simp: list_all_iff dispatch_ok_def state_le_def)
  moreover have "reserved_apart s (procs q) \<and> reserved_apart (procs q) s" if "q \<noteq> p" for q
    using s ok(1) [of q] by (cases "procs q") (auto simp: disjoint_sym)
  ultimately show ?thesis using assms(2) le inv_quiet by blast
next
  case (Reserved claims rv)
  let ?d = "\<lparr>dp_reservation = rv, dp_claims = claims, dp_request = gc_request (calls p)\<rparr>"
  have st': "\<exists>d. s = Done d" "gs_journal st' = gs_journal st" "gs_consumption st' = gs_consumption st"
    "gs_dispatched st' = gs_dispatched st @ [?d]"
    using dispatch_stage [of env "calls p" claims rv st s st'] assms(1) Reserved by auto
  have ok: "stage_ok H spent (calls q) st (procs q)" "q \<noteq> p \<longrightarrow> reserved_apart (procs q) (procs p)" for q
    using assms(2) by (auto simp: gateway_inv_def)
  have rv: "authorizes H spent (gs_consumption st) (gc_request (calls p)) claims" "reserved_for H (gc_request (calls p)) claims rv"
    "all_taken (gs_journal st) rv" "list_all (\<lambda>d. disjoint rv (dp_reservation d)) (gs_dispatched st)"
    using ok(1) [of p] Reserved by auto
  have "stage_ok H spent (calls q) st' (procs q)" if "q \<noteq> p" for q
    using ok [of q] that st' Reserved by (cases "procs q") (auto simp: authorizes_def)
  moreover have "list_all (dispatch_ok H spent st') (gs_dispatched st')"
    using assms(2) rv st' by (auto simp: gateway_inv_def dispatch_ok_def list_all_iff)
  moreover have "sorted_wrt disjoint (map dp_reservation (gs_dispatched st'))"
    using assms(2) rv(4) st'(4) by (auto simp: gateway_inv_def sorted_wrt_append list_all_iff disjoint_sym)
  moreover have "reserved_apart s t \<and> reserved_apart t s" for t using st'(1) reserved_apart_done by blast
  ultimately show ?thesis using assms(2) st'(1) by (auto simp: gateway_inv_def)
next
  case (Done d)
  then show ?thesis using assms(1,2) by auto
qed

lemma gateway_inv_reachable:
  assumes "(gateway_step H E consume update calls)\<^sup>*\<^sup>* x y" and "\<forall>p. gw_has_journal (gc_gateway (calls p))"
    and "gateway_inv H spent calls x"
  shows "gateway_inv H spent calls y"
  using assms(1,3)
proof (induction rule: rtranclp_induct)
  case (step y z)
  then show ?case using assms(2) by (auto elim!: gateway_step.cases intro: gateway_inv_stage)
qed

end

text \<open>A call on its own is one of the interleavings.\<close>

lemma run_stages_reachable:
  "run_stages H E consume update env (calls p) n (s, st) = (s', st') \<Longrightarrow>
     (gateway_step H E consume update calls)\<^sup>*\<^sup>* (procs(p := s), st) (procs(p := s'), st')"
proof (induction n arbitrary: s st)
  case (Suc n)
  obtain t u where tu: "gateway_stage H E consume update env (calls p) s st = (t, u)" by fastforce
  then have "gateway_step H E consume update calls (procs(p := s), st) (procs(p := t), u)"
    using gateway_step.run_stage [of H E consume update env calls p "procs(p := s)" st t u] by simp
  moreover have "run_stages H E consume update env (calls p) n (t, u) = (s', st')" using Suc.prems tu by simp
  ultimately show ?case using Suc.IH by (meson converse_rtranclp_into_rtranclp)
qed simp

lemma gateway_inv_start: "gs_dispatched st = [] \<Longrightarrow> gateway_inv H spent calls (\<lambda>_. Start, st)"
  by (simp add: gateway_inv_def)

subsection \<open>An example redemption\<close>

lemma demo_decay_use:
  obtains p ev d where "decay_profile_for_ceiling (demo_ceiling 4) ''v1'' (Some 100000) (Some 105000) = Inr p"
    "authorize memory_update demo_host (''cap_'' @ demo_token) p demo_request 100000 101000 no_observation Map.empty = (Inr ev, d)"
proof -
  let ?c0 = "prior_counters no_observation 100000 101000 None"
  let ?cs = "AList.update ''use_count'' (counter ?c0 ''use_count'' + 1) ?c0"
  have "okE (bindE (decay_profile_for_ceiling (demo_ceiling 4) ''v1'' (Some 100000) (Some 105000)) (\<lambda>p.
      bindE (apply_due ?c0 100000 (dp_steps p) (dp_initial_authority p)) (\<lambda>authorized.
      bindE (checkE (\<not> decay_permits authorized demo_request 101000) OutOfFuel) (\<lambda>_.
      bindE (apply_due ?cs 100000 (dp_steps p) authorized) (\<lambda>stepped.
      bindE (decay_authority_init (decay_authority_args (spend (dp_initial_authority p) ?cs stepped))) (\<lambda>current.
      bindE (checkE (\<not> is_subset_of current authorized) OutOfFuel) (\<lambda>_.
      bindE (decay_state_init (state_args (''cap_'' @ demo_token) demo_digest 101000 ?cs) current) (\<lambda>state.
      checkE (dc_capability_id state \<noteq> ''cap_'' @ demo_token) OutOfFuel))))))))"
    by code_simp
  then obtain p authorized stepped current state where
    p: "decay_profile_for_ceiling (demo_ceiling 4) ''v1'' (Some 100000) (Some 105000) = Inr p" and
    f: "apply_due ?c0 100000 (dp_steps p) (dp_initial_authority p) = Inr authorized" "decay_permits authorized demo_request 101000"
      "apply_due ?cs 100000 (dp_steps p) authorized = Inr stepped"
      "decay_authority_init (decay_authority_args (spend (dp_initial_authority p) ?cs stepped)) = Inr current" "is_subset_of current authorized"
      "decay_state_init (state_args (''cap_'' @ demo_token) demo_digest 101000 ?cs) current = Inr state" "dc_capability_id state = ''cap_'' @ demo_token"
    unfolding okE_iff bindE_Inr_iff checkE_Inr_iff by blast
  have "profile_digest demo_host p = Inr demo_digest" using p by (metis demo_profile_values sum.inject(2))
  moreover have "effective_now 101000 None = 101000" by (simp add: effective_now_def)
  ultimately have "authorize_transition demo_host (''cap_'' @ demo_token) p demo_request 100000 101000 no_observation None = Inr (state, authorized, False)"
    using f by (simp add: authorize_transition_def Let_def)
  then have "run_transition (''cap_'' @ demo_token) (authorize_transition demo_host (''cap_'' @ demo_token) p demo_request 100000 101000 no_observation) None
      = Inr (state, authorized, False)"
    using f(7) by (simp add: run_transition_def validate_state_transition_def del: append.simps)
  then have "memory_update (''cap_'' @ demo_token) (authorize_transition demo_host (''cap_'' @ demo_token) p demo_request 100000 101000 no_observation) Map.empty
      = (Inr (state, authorized, False), Map.empty((''cap_'' @ demo_token) \<mapsto> state))"
    by (simp add: memory_update_def del: append.simps)
  then show thesis
    using that [OF p] by (simp add: authorize_def unitE_def decay_nonnegative_def py_nonnegative_def max_safe_def no_observation_def del: append.simps)
qed

definition demo_verifier :: capability_verifier where
  "demo_verifier = \<lparr>cv_public_key = ''key'', cv_key_id = bk_key_id demo_broker\<rparr>"

lemma demo_redeem:
  obtains envp s d where "redeem demo_host demo_ed25519 (replica_consume ''ns'' ''dm'') (\<lambda>_. memory_update) demo_verifier (((False, 1), No_fault), ())
      \<lparr>rc_capability = envp, rc_request = demo_request, rc_redemption = demo_redemption, rc_clocks = (Millis 101000, Millis 101000, Millis 101000)\<rparr>
      (empty_database, Map.empty) = (Inr (ic_claims envp), s, d)"
    "cc_capability_id (ic_claims envp) = ''cap_'' @ demo_token" "cc_max_output_bytes (ic_claims envp) = 4096"
    "digest demo_host (PDict (claims_to_dict (ic_claims envp))) = Inr demo_digest"
proof -
  obtain envp where e: "issue demo_host demo_ed25519 demo_broker demo_request demo_issuance (Some demo_trust) (Some (demo_ceiling 4))
      (Millis 100000) demo_token = Inr envp" by (rule demo_issue)
  have v: "verified_claims demo_host demo_ed25519 (ed_public demo_ed25519 (bk_private_key demo_broker)) (bk_key_id demo_broker) envp
      demo_request demo_redemption (Millis 101000) = Inr (ic_claims envp)"
    by (rule honest_claims_verify [OF e demo_ed_correct _ demo_honest])
      (simp_all add: demo_ceiling_args, simp_all add: demo_ceiling_def demo_trust_def demo_broker_def less_eq_trust_tier_def)
  have k: "ed_public demo_ed25519 (bk_private_key demo_broker) = ''key''" by (simp add: demo_ed25519_def demo_broker_def)
  have key: "cv_public_key demo_verifier = ''key''" "cv_key_id demo_verifier = bk_key_id demo_broker" by (simp_all add: demo_verifier_def)
  obtain ad rd pd adg rfd claims message where
    c: "ic_claims envp = issued_claims demo_broker demo_request demo_issuance demo_trust (demo_ceiling 4) demo_token 100000
        (min (100000 + bk_ttl_ms demo_broker) (cp_expires_at_ms (demo_ceiling 4))) ad rd pd adg rfd"
    and m: "canonical_bytes demo_host (PDict (claims_to_dict (ic_claims envp))) = Inr message"
    by (rule issue_cases [OF e]) (auto simp: issued_capability_init_iff)
  have f: "cc_capability_id (ic_claims envp) = ''cap_'' @ demo_token" "cc_issued_at (ic_claims envp) = 100000"
    "cc_expires_at (ic_claims envp) = 105000" "cc_decay_profile_version (ic_claims envp) = ''v1''" "cc_max_output_bytes (ic_claims envp) = 4096"
    by (simp_all add: c issued_claims_def demo_issuance_def demo_broker_def demo_ceiling_def)
  have d: "digest demo_host (PDict (claims_to_dict (ic_claims envp))) = Inr demo_digest"
    unfolding digest_def m by (simp add: demo_host_def)
  have ceil: "compiled_from_dict demo_host (PDict (cc_compiled_ceiling (ic_claims envp))) = Inr (demo_ceiling 4)"
  proof -
    have "freeze_json (PDict (compiled_to_dict (demo_ceiling 4))) = PDict (cc_compiled_ceiling (ic_claims envp))"
      by (simp add: c issued_claims_def)
    moreover have "compiled_init demo_host (compiled_args (demo_ceiling 4)) = Inr (demo_ceiling 4)" "verify_integrity demo_host (demo_ceiling 4) = Inr ()"
      by (simp_all add: demo_ceiling_args demo_integrity)
    ultimately show ?thesis using compiled_source_frozen compiled_from_source by blast
  qed
  obtain p ev d1 where p: "decay_profile_for_ceiling (demo_ceiling 4) ''v1'' (Some 100000) (Some 105000) = Inr p"
    "authorize memory_update demo_host (''cap_'' @ demo_token) p demo_request 100000 101000 no_observation Map.empty = (Inr ev, d1)"
    by (rule demo_decay_use)
  have auth: "authorize_decay demo_host memory_update (ic_claims envp) demo_request (Millis 101000) Map.empty = (Inr (), d1)"
    by (simp add: authorize_decay_def ceil f p unitE_def catchE_def del: append.simps)
  obtain s1 where once: "consume_once demo_host (replica_consume ''ns'' ''dm'' ((False, 1), No_fault)) (ic_claims envp) (Millis 101000) empty_database = (Inr (), s1)"
  proof -
    let ?n = "\<lparr>cn_capability_id = PStr (''cap_'' @ demo_token), cn_claims_digest = PStr demo_digest, cn_expires_at = PInt 105000, cn_consumed_at = PInt 101000\<rparr>"
    have "fst (replica_consume ''ns'' ''dm'' ((False, 1), No_fault) ?n empty_database) = Inr True" by code_simp
    then obtain s1 where "replica_consume ''ns'' ''dm'' ((False, 1), No_fault) ?n empty_database = (Inr True, s1)" by (metis prod.collapse)
    then show thesis using that [of s1] by (simp add: consume_once_def d f checkE_def del: append.simps)
  qed
  show thesis
    using that [of envp s1 d1] f d v key k once auth by (simp add: redeem_def verify_and_consume_def del: append.simps)
qed

section \<open>Properties\<close>

text \<open>
  C1: an effect is dispatched at most once, and only with authority. Any number of gateway processes run calls of
  \<open>execute\<close> concurrently on shared stores, with any faults, rules, handler answers and recorder outages; a process may stop
  at any stage. If all of them have an outcome journal, then no two dispatches ever have the same logical effect of a
  tenant and environment, nor the same capability; and every dispatched request is the one its claims were signed for, by
  its digest, with a capability that is recorded as spent.
\<close>

theorem dispatched_at_most_once:
  assumes "(gateway_step H E (replica_consume ns dm) update calls)\<^sup>*\<^sup>* (\<lambda>_. Start, st0) (procs, st)"
    and "\<forall>p. gw_has_journal (gc_gateway (calls p))" and "gs_dispatched st0 = []"
  shows "distinct (map (\<lambda>d. (rv_tenant (dp_reservation d), rv_environment (dp_reservation d), rv_effect_key (dp_reservation d))) (gs_dispatched st))
    \<and> distinct (map (\<lambda>d. (rv_tenant (dp_reservation d), rv_environment (dp_reservation d), rv_capability_id (dp_reservation d))) (gs_dispatched st))
    \<and> list_all (\<lambda>d. effect_key H (dp_request d) = Inr (str_of (rv_effect_key (dp_reservation d)))
        \<and> rv_capability_id (dp_reservation d) = PStr (cc_capability_id (dp_claims d))
        \<and> request_digest H (dp_request d) = Inr (cc_request_digest (dp_claims d)) \<and> cc_operation (dp_claims d) = ar_operation (dp_request d)
        \<and> sqlite_spent ns dm (gs_consumption st) (cc_capability_id (dp_claims d)) \<noteq> None) (gs_dispatched st)"
proof -
  have inv: "gateway_inv H (sqlite_spent ns dm) calls (procs, st)"
    using sqlite_redemption.gateway_inv_reachable [OF assms(1,2) gateway_inv_start [OF assms(3)]] .
  then have ok: "list_all (dispatch_ok H (sqlite_spent ns dm) st) (gs_dispatched st)"
    and apart: "sorted_wrt disjoint (map dp_reservation (gs_dispatched st))"
    by (auto simp: gateway_inv_def)
  have "reserved_for H r c rv \<Longrightarrow> effect_key H r = Inr (str_of (rv_effect_key rv)) \<and> rv_capability_id rv = PStr (cc_capability_id c)" for r c rv
    by (auto simp: reserved_for_def reservation_for_def bindE_Inr_iff)
  then have "list_all (\<lambda>d. effect_key H (dp_request d) = Inr (str_of (rv_effect_key (dp_reservation d)))
        \<and> rv_capability_id (dp_reservation d) = PStr (cc_capability_id (dp_claims d))
        \<and> request_digest H (dp_request d) = Inr (cc_request_digest (dp_claims d)) \<and> cc_operation (dp_claims d) = ar_operation (dp_request d)
        \<and> sqlite_spent ns dm (gs_consumption st) (cc_capability_id (dp_claims d)) \<noteq> None) (gs_dispatched st)"
    using ok by (fastforce simp: list_all_iff dispatch_ok_def authorizes_def)
  moreover have "sorted_wrt disjoint (map dp_reservation ds) \<Longrightarrow>
      distinct (map (\<lambda>d. (rv_tenant (dp_reservation d), rv_environment (dp_reservation d), rv_effect_key (dp_reservation d))) ds)
      \<and> distinct (map (\<lambda>d. (rv_tenant (dp_reservation d), rv_environment (dp_reservation d), rv_capability_id (dp_reservation d))) ds)" for ds
    using disjoint_names by (induction ds) fastforce+
  ultimately show ?thesis using apart by blast
qed

definition demo_gateway_call :: "issued_capability \<Rightarrow> gateway_call" where
  "demo_gateway_call envp = \<lparr>gc_gateway = \<lparr>gw_verifier = demo_verifier, gw_effects = [''read''], gw_rules = [], gw_event_prefix = ''gateway'',
       gw_tenant = ''default'', gw_environment = ''synthetic'', gw_has_journal = True\<rparr>,
     gc_request = demo_request, gc_capability = envp, gc_redemption = demo_redemption, gc_clocks = (Millis 101000, Millis 101000, Millis 101000)\<rparr>"

definition demo_gateway_env :: "((bool \<times> int) \<times> db_fault, unit) gateway_env" where
  "demo_gateway_env = \<lparr>ge_consume = ((False, 1), No_fault), ge_decay = (), ge_append = (\<lambda>_. Appended), ge_rule = Inr True,
     ge_journal = No_fault, ge_handler = Inr (PInt 7), ge_dumps = (\<lambda>_. Inr 1)\<rparr>"

definition demo_gateway_state :: "(replay_database, decay_memory) gateway_state" where
  "demo_gateway_state = \<lparr>gs_consumption = empty_database, gs_decay = Map.empty, gs_journal = [], gs_events = [], gs_dispatched = []\<rparr>"

theorem dispatched_at_most_once_witness:
  "\<exists>envp procs st. (gateway_step demo_host demo_ed25519 (replica_consume ''ns'' ''dm'') (\<lambda>_::unit. memory_update) (\<lambda>_. demo_gateway_call envp))\<^sup>*\<^sup>*
       (\<lambda>_. Start, demo_gateway_state) (procs, st)
     \<and> map dp_request (gs_dispatched st) = [demo_request]
     \<and> sqlite_spent ''ns'' ''dm'' (gs_consumption st) (''cap_'' @ demo_token) \<noteq> None"
proof -
  obtain envp s d where r: "redeem demo_host demo_ed25519 (replica_consume ''ns'' ''dm'') (\<lambda>_. memory_update) demo_verifier (((False, 1), No_fault), ())
      \<lparr>rc_capability = envp, rc_request = demo_request, rc_redemption = demo_redemption, rc_clocks = (Millis 101000, Millis 101000, Millis 101000)\<rparr>
      (empty_database, Map.empty) = (Inr (ic_claims envp), s, d)"
    and c: "cc_capability_id (ic_claims envp) = ''cap_'' @ demo_token" "cc_max_output_bytes (ic_claims envp) = 4096"
    "digest demo_host (PDict (claims_to_dict (ic_claims envp))) = Inr demo_digest"
    by (rule demo_redeem)
  let ?stage = "gateway_stage demo_host demo_ed25519 (replica_consume ''ns'' ''dm'') (\<lambda>_. memory_update) demo_gateway_env (demo_gateway_call envp)"
  let ?step = "gateway_step demo_host demo_ed25519 (replica_consume ''ns'' ''dm'') (\<lambda>_::unit. memory_update) (\<lambda>_. demo_gateway_call envp)"
  let ?claims = "ic_claims envp"
  have red: "gateway_redemption (demo_gateway_call envp) = demo_redemption"
    by (simp add: gateway_redemption_def demo_gateway_call_def demo_redemption_def)
  have dig: "request_digest demo_host demo_request = Inr demo_digest" "effect_key demo_host demo_request = Inr demo_digest"
    unfolding request_digest_def effect_key_def by (rule digest_demo, code_simp)+
  obtain st1 where s1: "?stage Start demo_gateway_state = (Authorized ?claims, st1)" "gs_dispatched st1 = []" "gs_journal st1 = []"
    using r red by (simp add: stage_verify_def demo_gateway_env_def demo_gateway_state_def Let_def)
      (simp add: demo_gateway_call_def demo_request_def)
  have g: "gw_rules (gc_gateway (demo_gateway_call envp)) = []" "gc_request (demo_gateway_call envp) = demo_request"
    "gw_has_journal (gc_gateway (demo_gateway_call envp))" "gw_tenant (gc_gateway (demo_gateway_call envp)) = ''default''"
    "gw_environment (gc_gateway (demo_gateway_call envp)) = ''synthetic''"
    "ge_append demo_gateway_env = (\<lambda>_. Appended)" "ge_journal demo_gateway_env = No_fault" "ge_handler demo_gateway_env = Inr (PInt 7)"
    "ge_dumps demo_gateway_env = (\<lambda>_. Inr 1)"
    by (simp_all add: demo_gateway_call_def demo_gateway_env_def)
  obtain st2 where s2: "?stage (Authorized ?claims) st1 = (Cleared ?claims, st2)" "gs_dispatched st2 = []" "gs_journal st2 = []"
    using s1 by (simp add: stage_clear_def dig g append_event_def Let_def)
  let ?rv = "\<lparr>rv_tenant = PStr ''default'', rv_environment = PStr ''synthetic'', rv_effect_key = PStr demo_digest,
     rv_capability_id = PStr (''cap_'' @ demo_token), rv_request_digest = PStr demo_digest, rv_claims_digest = PStr demo_digest\<rparr>"
  have "reservation_for demo_host ''default'' ''synthetic'' demo_request ?claims = Inr ?rv"
    by (simp add: reservation_for_def dig c del: append.simps)
  moreover have "reserve No_fault ?rv [] = (Inr True, [new_row ?rv])" by code_simp
  ultimately obtain st3 where s3: "?stage (Cleared ?claims) st2 = (Reserved ?claims ?rv, st3)" "gs_dispatched st3 = []"
    using s2 by (simp add: stage_reserve_def g Let_def del: append.simps)
  obtain dec st4 where s4: "?stage (Reserved ?claims ?rv) st3 = (Done dec, st4)"
    "gs_dispatched st4 = [\<lparr>dp_reservation = ?rv, dp_claims = ?claims, dp_request = demo_request\<rparr>]"
    using s3 by (simp add: stage_dispatch_def g c append_event_def Let_def del: append.simps)
  have four: "(4 :: nat) = Suc (Suc (Suc (Suc 0)))" by simp
  have "gateway_execute demo_host demo_ed25519 (replica_consume ''ns'' ''dm'') (\<lambda>_. memory_update) demo_gateway_env (demo_gateway_call envp) demo_gateway_state = (Done dec, st4)"
    unfolding gateway_execute_def four by (simp only: run_stages.simps fst_conv snd_conv s1(1) s2(1) s3(1) s4(1))
  moreover have "(\<lambda>_. Start)(0 := Start) = (\<lambda>_ :: nat. Start)" by (simp add: fun_upd_idem)
  ultimately have run: "?step\<^sup>*\<^sup>* (\<lambda>_. Start, demo_gateway_state) ((\<lambda>_. Start)(0 := Done dec), st4)"
    using run_stages_reachable [of demo_host demo_ed25519 _ _ demo_gateway_env "\<lambda>_. demo_gateway_call envp" 0 4 Start demo_gateway_state "Done dec" st4 "\<lambda>_. Start"]
    by (simp add: gateway_execute_def del: fun_upd_apply)
  have "gw_has_journal (gc_gateway (demo_gateway_call envp))" "gs_dispatched demo_gateway_state = []"
    by (simp_all add: demo_gateway_call_def demo_gateway_state_def)
  then show ?thesis
    using dispatched_at_most_once [OF run] run s4(2) c(1) by (intro exI [of _ envp] exI [of _ "(\<lambda>_. Start)(0 := Done dec)"] exI [of _ st4]) (simp del: append.simps)
qed

end
