(* ===== verification/Recovery.thy ===== *)
theory Recovery
  imports Gateway
begin

text \<open>
  \<open>fenced_effect_recovery.py\<close>: the gateway for the cooperating SQLite recipient, which may complete an effect that an earlier
  call left undecided. The transport of \<open>fenced_recipient_transport.py\<close> is not modelled: the recipient is local. Rule, output
  factory and recorder are callbacks; the faults of every database operation are part of the environment.
\<close>

section \<open>Definitions\<close>

record recovery_gateway =
  rg_verifier :: capability_verifier
  rg_recipient_id :: string
  rg_tenant :: string
  rg_environment :: string
  rg_has_rule :: bool

record ('e, 'f) recovery_env =
  re_consume :: 'e
  re_decay :: 'f
  re_append :: "string \<Rightarrow> append_outcome"
  re_rule :: "bool res"
  re_factory :: "pyval res"
  re_reserve :: db_fault
  re_observe_journal :: bool
  re_apply :: db_fault
  re_observe_recipient :: bool
  re_confirm :: db_fault

record recovery_call =
  ry_gateway :: recovery_gateway
  ry_request :: action_request
  ry_capability :: issued_capability
  ry_redemption :: redemption
  ry_clocks :: "clock \<times> clock \<times> clock"

record ('s, 'd) recovery_state =
  ys_consumption :: 's
  ys_decay :: 'd
  ys_journal :: journal
  ys_recipient :: recipient_db
  ys_events :: "(string \<times> dict) list"

definition recovery_event :: "('e, 'f) recovery_env \<Rightarrow> string \<Rightarrow> dict \<Rightarrow> ('s, 'd) recovery_state \<Rightarrow> bool \<times> ('s, 'd) recovery_state" where
  "recovery_event env name payload st =
     (let st' = st\<lparr>ys_events := ys_events st @ [(name, payload)]\<rparr> in
      case re_append env name of Appended \<Rightarrow> (True, st') | Append_failed stored \<Rightarrow> (False, if stored then st' else st))"

definition recovery_redemption :: "recovery_call \<Rightarrow> redemption" where
  "recovery_redemption c = (ry_redemption c)\<lparr>rx_audience := ''effect-executor'', rx_tenant := rg_tenant (ry_gateway c),
     rx_environment := rg_environment (ry_gateway c)\<rparr>"

text \<open>The output of the effect, computed and checked before anything is reserved.\<close>

definition prepare_result :: "host \<Rightarrow> ('e, 'f) recovery_env \<Rightarrow> recovery_gateway \<Rightarrow> capability_claims \<Rightarrow> (pyval \<times> string) res" where
  "prepare_result H env g claims =
     bindE (checkE (rg_has_rule g \<and> re_rule env \<noteq> Inr True) (PermissionError ''pre-dispatch-denied'')) (\<lambda>_.
     bindE (re_factory env) (\<lambda>out.
     bindE (canonical_bytes H out) (\<lambda>raw.
     bindE (strict_json_loads H (Bytes raw) True) (\<lambda>_.
     bindE (checkE (int (length raw) > cc_max_output_bytes claims) (PermissionError ''pre-dispatch-denied'')) (\<lambda>_.
     Inr (out, raw))))))"

text \<open>The binding an existing reservation must have; the two states are the only ones.\<close>

definition same_binding :: "string \<Rightarrow> string \<Rightarrow> string \<Rightarrow> reservation \<Rightarrow> bool \<Rightarrow> effect_row \<Rightarrow> bool" where
  "same_binding rqd recipient_id od rv recovered w \<longleftrightarrow> er_request_digest w = rqd \<and> same_fence recipient_id od w
     \<and> (recovered \<or> er_capability_id w = str_of (rv_capability_id rv) \<and> er_claims_digest w = str_of (rv_claims_digest rv))"

definition is_already_reserved :: "exn \<Rightarrow> bool" where
  "is_already_reserved e = (case e of EffectAlreadyReserved _ \<Rightarrow> True | _ \<Rightarrow> False)"

definition recovery_reserve ::
  "host \<Rightarrow> ('e, 'f) recovery_env \<Rightarrow> recovery_gateway \<Rightarrow> reservation \<Rightarrow> pyval \<Rightarrow> journal \<Rightarrow> (gateway_decision + effect_row \<times> bool) \<times> journal" where
  "recovery_reserve H env g rv out j =
     (let unavailable = Inl (denied ''not-started'' ''effect-journal-unavailable'') in
      case digest H out of
        Inl _ \<Rightarrow> (unavailable, j)
      | Inr od \<Rightarrow> (case reserve_fenced (re_reserve env) rv (PStr (rg_recipient_id g)) (PStr od) j of
          (r, j') \<Rightarrow>
            if (case r of Inl e \<Rightarrow> \<not> is_already_reserved e | Inr _ \<Rightarrow> False) then (unavailable, j')
            else let recovered = (r \<noteq> Inr True) in
              (case observe_effect (re_observe_journal env) (PStr (rg_tenant g)) (PStr (rg_environment g)) (rv_effect_key rv) j' of
                 Inl _ \<Rightarrow> (unavailable, j')
               | Inr binding \<Rightarrow>
                   (case binding of
                      None \<Rightarrow> (Inl (denied ''possibly-committed'' ''effect-binding-conflict''), j')
                    | Some w \<Rightarrow>
                        if \<not> same_binding (str_of (rv_request_digest rv)) (rg_recipient_id g) od rv recovered w
                        then (Inl (denied ''possibly-committed'' ''effect-binding-conflict''), j')
                        else (Inr (w, recovered), j')))))"

definition recovery_apply ::
  "host \<Rightarrow> ('e, 'f) recovery_env \<Rightarrow> recovery_gateway \<Rightarrow> reservation \<Rightarrow> pyval \<Rightarrow> recipient_db \<Rightarrow> (fenced_receipt \<times> fenced_receipt) res \<times> recipient_db" where
  "recovery_apply H env g rv out db =
     (case recipient_apply H (rg_recipient_id g) (re_apply env) (rv_effect_key rv) (rv_request_digest rv) out db of
        (Inl e, db') \<Rightarrow> (Inl e, db')
      | (Inr receipt, db') \<Rightarrow>
          (bindE (recipient_observe H (rg_recipient_id g) (re_observe_recipient env) (rv_effect_key rv) (rv_request_digest rv) db') (\<lambda>ob.
           case ob of
             None \<Rightarrow> Inl (RuntimeError ''recipient positive receipt not corroborated'')
           | Some observed \<Rightarrow>
               if fr_receipt_digest observed \<noteq> fr_receipt_digest receipt \<or> Inr (fr_output_digest observed) \<noteq> digest H out
                  \<or> fr_sequence observed \<noteq> fr_sequence receipt \<or> fr_recipient_id observed \<noteq> rg_recipient_id g
               then Inl (RuntimeError ''recipient positive receipt not corroborated'')
               else Inr (receipt, observed)), db'))"

text \<open>Only the original reservation is confirmed.\<close>

definition original :: "reservation \<Rightarrow> effect_row \<Rightarrow> reservation" where
  "original rv w = rv\<lparr>rv_capability_id := PStr (er_capability_id w), rv_request_digest := PStr (er_request_digest w),
     rv_claims_digest := PStr (er_claims_digest w)\<rparr>"

definition recovery_commit ::
  "host \<Rightarrow> ('e, 'f) recovery_env \<Rightarrow> recovery_call \<Rightarrow> capability_claims \<Rightarrow> reservation \<Rightarrow> pyval \<Rightarrow> string \<Rightarrow> effect_row \<Rightarrow> bool
     \<Rightarrow> ('s, 'd) recovery_state \<Rightarrow> gateway_decision \<times> ('s, 'd) recovery_state" where
  "recovery_commit H env c claims rv out raw w recovered st =
     (let id = PStr (ar_request_id (ry_request c)); capability = PStr (cc_capability_id claims) in
      case recovery_apply H env (ry_gateway c) rv out (ys_recipient st) of
        (Inl _, db) \<Rightarrow>
          (case recovery_event env ''fenced.indeterminate''
             [(''request_id'', id), (''request_digest'', rv_request_digest rv), (''capability_id'', capability),
              (''effect_state'', PStr ''possibly-committed'')] (st\<lparr>ys_recipient := db\<rparr>) of
             (recorded, st') \<Rightarrow> (denied ''possibly-committed'' (if recorded then ''recipient-indeterminate'' else ''evidence-indeterminate''), st'))
      | (Inr (receipt, observed), db) \<Rightarrow>
          (case confirm (re_confirm env) (original rv w) (PStr (fr_receipt_digest observed)) (ys_journal st) of
             (Inl _, j) \<Rightarrow> (denied ''possibly-committed'' ''journal-confirmation-indeterminate'', st\<lparr>ys_recipient := db, ys_journal := j\<rparr>)
           | (Inr _, j) \<Rightarrow>
               (case recovery_event env ''fenced.recipient-confirmed''
                  [(''request_id'', id), (''request_digest'', rv_request_digest rv), (''capability_id'', capability),
                   (''original_capability_id'', PStr (er_capability_id w)), (''receipt_digest'', PStr (fr_receipt_digest observed)),
                   (''recipient_id'', PStr (fr_recipient_id observed)), (''commit_sequence'', PInt (fr_sequence observed)),
                   (''recovery'', PBool recovered), (''new_effect_commit'', PBool (fr_newly_committed receipt))]
                  (st\<lparr>ys_recipient := db, ys_journal := j\<rparr>) of
                  (False, st') \<Rightarrow> (denied ''possibly-committed'' ''evidence-indeterminate'', st')
                | (True, st') \<Rightarrow> (\<lparr>gv_accepted = True, gv_effect_state = ''completed'', gv_error_class = None,
                                 gv_output = fr_output observed, gv_output_bytes = length raw\<rparr>, st'))))"

text \<open>\<open>execute\<close>; the digests of effect key and claims are computed outside the \<open>try\<close> blocks.\<close>

definition recovery_dispatch ::
  "host \<Rightarrow> ('e, 'f) recovery_env \<Rightarrow> recovery_call \<Rightarrow> capability_claims \<Rightarrow> ('s, 'd) recovery_state \<Rightarrow> gateway_decision res \<times> ('s, 'd) recovery_state" where
  "recovery_dispatch H env c claims st =
     (let g = ry_gateway c in
      case prepare_result H env g claims of
        Inl _ \<Rightarrow> (Inr (denied ''not-started'' ''pre-dispatch-denied''), st)
      | Inr (out, raw) \<Rightarrow>
          (case reservation_for H (rg_tenant g) (rg_environment g) (ry_request c) claims of
             Inl e \<Rightarrow> (Inl e, st)
           | Inr rv \<Rightarrow>
               (case recovery_reserve H env g rv out (ys_journal st) of
                  (Inl d, j) \<Rightarrow> (Inr d, st\<lparr>ys_journal := j\<rparr>)
                | (Inr (w, recovered), j) \<Rightarrow>
                    (case recovery_commit H env c claims rv out raw w recovered (st\<lparr>ys_journal := j\<rparr>) of (d, st') \<Rightarrow> (Inr d, st')))))"

definition recovery_execute ::
  "host \<Rightarrow> ed25519 \<Rightarrow> ('e \<Rightarrow> consumption \<Rightarrow> 's \<Rightarrow> bool res \<times> 's)
     \<Rightarrow> ('f \<Rightarrow> string \<Rightarrow> (decay_authority \<times> bool) transition \<Rightarrow> 'd \<Rightarrow> (decay_state \<times> decay_authority \<times> bool) res \<times> 'd)
     \<Rightarrow> ('e, 'f) recovery_env \<Rightarrow> recovery_call \<Rightarrow> ('s, 'd) recovery_state \<Rightarrow> gateway_decision res \<times> ('s, 'd) recovery_state" where
  "recovery_execute H E consume update env c st =
     (case redeem H E consume update (rg_verifier (ry_gateway c)) (re_consume env, re_decay env)
        \<lparr>rc_capability = ry_capability c, rc_request = ry_request c, rc_redemption = recovery_redemption c, rc_clocks = ry_clocks c\<rparr>
        (ys_consumption st, ys_decay st) of
        (r, s, d) \<Rightarrow>
          let st1 = st\<lparr>ys_consumption := s, ys_decay := d\<rparr> in
          (case r of
             Inl _ \<Rightarrow> (Inr (denied ''not-started'' ''authority-denied''), st1)
           | Inr claims \<Rightarrow>
               (case request_digest H (ry_request c) of
                  Inl _ \<Rightarrow> (Inr (denied ''not-started'' ''evidence-unavailable''), st1)
                | Inr rqd \<Rightarrow>
                    (case recovery_event env ''fenced.authorized''
                       [(''request_id'', PStr (ar_request_id (ry_request c))), (''request_digest'', PStr rqd),
                        (''capability_id'', PStr (cc_capability_id claims))] st1 of
                       (False, st2) \<Rightarrow> (Inr (denied ''not-started'' ''evidence-unavailable''), st2)
                     | (True, st2) \<Rightarrow> recovery_dispatch H env c claims st2))))"

section \<open>Lemmas\<close>

lemma recovery_event_eq:
  "recovery_event env name payload st = (b, st') \<Longrightarrow> ys_journal st' = ys_journal st \<and> ys_recipient st' = ys_recipient st"
  by (auto simp: recovery_event_def Let_def split: append_outcome.split_asm if_split_asm)

lemma recovery_apply_recipient:
  assumes "recovery_apply H env g rv out db = (r, db')"
  shows "\<exists>x. recipient_apply H (rg_recipient_id g) (re_apply env) (rv_effect_key rv) (rv_request_digest rv) out db = (x, db')"
  using assms unfolding recovery_apply_def by (auto split: prod.split_asm sum.split_asm)

lemma recovery_apply_Inr:
  assumes "recovery_apply H env g rv out db = (Inr (receipt, observed), db')"
  obtains row v where "committed (str_of (rv_effect_key rv)) db' = Some row" "canonical_bytes H v = canonical_bytes H out"
    "observed = receipt_of (rg_recipient_id g) v False row" "rr_request_digest row = str_of (rv_request_digest rv)"
proof -
  have app: "recipient_apply H (rg_recipient_id g) (re_apply env) (rv_effect_key rv) (rv_request_digest rv) out db = (Inr receipt, db')"
    and obs: "recipient_observe H (rg_recipient_id g) (re_observe_recipient env) (rv_effect_key rv) (rv_request_digest rv) db' = Inr (Some observed)"
    using assms unfolding recovery_apply_def by (auto split: prod.split_asm sum.split_asm option.split_asm if_split_asm simp: bindE_Inr_iff)
  then have "re_observe_recipient env" by (auto simp: recipient_observe_def res_simps)
  then show thesis using app obs observe_sound that by (elim applied_row) fastforce
qed

lemma recipient_distinct:
  assumes "recipient_apply H rid fault key rqd out db = (r, db')" and "distinct (map rr_effect_key (rp_rows db))"
  shows "distinct (map rr_effect_key (rp_rows db')) \<and> rows_le db db'"
  using assms
proof (cases rule: apply_cases)
  case (created raw od w)
  have "rr_effect_key w = str_of key" by (subst created(5), simp)
  moreover have "\<forall>v \<in> set (rp_rows db). rr_effect_key v \<noteq> str_of key"
    using created(4) by (auto simp: committed_def find_None_iff)
  ultimately show ?thesis using assms(2) created(7) by (auto simp: rows_le_def)
qed (use assms(2) in \<open>auto simp: rows_le_def\<close>)

lemma confirm_marks:
  assumes "confirm fault r receipt j = (Inr u, j')"
  shows "\<exists>w \<in> set j'. er_tenant w = str_of (rv_tenant r) \<and> er_environment w = str_of (rv_environment r)
    \<and> er_effect_key w = str_of (rv_effect_key r) \<and> er_request_digest w = str_of (rv_request_digest r)
    \<and> er_state w = Recipient_confirmed \<and> er_receipt_digest w = Some (str_of receipt)"
  using assms
proof (cases rule: confirm_cases)
  case confirmed
  then obtain w where w: "find (reserved_as r) j = Some w" "er_effect_key w = str_of (rv_effect_key r)" "er_request_digest w = str_of (rv_request_digest r)"
    and j': "j' = map (\<lambda>w. if reserved_as r w then w\<lparr>er_state := Recipient_confirmed, er_receipt_digest := Some (str_of receipt)\<rparr> else w) j"
    unfolding confirm_body_def bindE_Inr_iff by (auto split: option.split_asm if_split_asm)
  then have "w \<in> set j" "reserved_as r w" by (auto simp: find_Some_iff)
  then show ?thesis using w j' by (intro bexI [of _ "w\<lparr>er_state := Recipient_confirmed, er_receipt_digest := Some (str_of receipt)\<rparr>"])
      (auto simp: reserved_as_def)
qed auto

lemma recovery_commit_recipient:
  assumes "recovery_commit H env c claims rv out raw w recovered st = (d, st')" and "distinct (map rr_effect_key (rp_rows (ys_recipient st)))"
  shows "distinct (map rr_effect_key (rp_rows (ys_recipient st'))) \<and> rows_le (ys_recipient st) (ys_recipient st')"
proof -
  obtain x db where x: "recovery_apply H env (ry_gateway c) rv out (ys_recipient st) = (x, db)" by fastforce
  have "ys_recipient st' = db"
    using assms(1) x unfolding recovery_commit_def Let_def
    by (auto dest!: recovery_event_eq split: prod.split_asm sum.split_asm bool.split_asm)
  then show ?thesis using recovery_apply_recipient [OF x] recipient_distinct assms(2) by blast
qed

lemma recovery_commit_accepted:
  assumes "recovery_commit H env c claims rv out raw w recovered st = (d, st')" and "gv_accepted d"
  obtains row v where "committed (str_of (rv_effect_key rv)) (ys_recipient st') = Some row" "canonical_bytes H v = canonical_bytes H out"
    "rr_request_digest row = str_of (rv_request_digest rv)" "gv_output d = v" "gv_effect_state d = ''completed''"
    "\<exists>w' \<in> set (ys_journal st'). er_tenant w' = str_of (rv_tenant rv) \<and> er_environment w' = str_of (rv_environment rv)
       \<and> er_effect_key w' = str_of (rv_effect_key rv) \<and> er_state w' = Recipient_confirmed \<and> er_receipt_digest w' = Some (rr_receipt_digest row)"
proof -
  obtain receipt observed db u j where x: "recovery_apply H env (ry_gateway c) rv out (ys_recipient st) = (Inr (receipt, observed), db)"
    and y: "confirm (re_confirm env) (original rv w) (PStr (fr_receipt_digest observed)) (ys_journal st) = (Inr u, j)"
    and st': "ys_recipient st' = db" "ys_journal st' = j" "gv_output d = fr_output observed" "gv_effect_state d = ''completed''"
    using assms unfolding recovery_commit_def Let_def
    by (auto dest!: recovery_event_eq simp: denied_def split: prod.split_asm sum.split_asm bool.split_asm)
  obtain row v where "committed (str_of (rv_effect_key rv)) db = Some row" "canonical_bytes H v = canonical_bytes H out"
    "observed = receipt_of (rg_recipient_id (ry_gateway c)) v False row" "rr_request_digest row = str_of (rv_request_digest rv)"
    using x by (rule recovery_apply_Inr)
  then show thesis using that [of row v] confirm_marks [OF y] st' by (auto simp: receipt_of_def original_def)
qed

text \<open>The whole call, from the point of view of the recipient and of an accepted decision.\<close>

lemma recovery_dispatch_cases:
  assumes "recovery_dispatch H env c claims st = (r, st')"
  obtains (stopped) "ys_recipient st' = ys_recipient st" "\<And>d. r = Inr d \<Longrightarrow> \<not> gv_accepted d"
  | (commit) out raw rv w recovered d j where "re_factory env = Inr out"
      "reservation_for H (rg_tenant (ry_gateway c)) (rg_environment (ry_gateway c)) (ry_request c) claims = Inr rv"
      "recovery_commit H env c claims rv out raw w recovered (st\<lparr>ys_journal := j\<rparr>) = (d, st')" "r = Inr d"
proof (cases "prepare_result H env (ry_gateway c) claims")
  case (Inl e)
  then show thesis using assms stopped by (auto simp: recovery_dispatch_def denied_def)
next
  case (Inr p)
  obtain out raw where p: "p = (out, raw)" by (cases p)
  have out: "re_factory env = Inr out" using Inr p by (auto simp: prepare_result_def bindE_Inr_iff)
  show thesis
  proof (cases "reservation_for H (rg_tenant (ry_gateway c)) (rg_environment (ry_gateway c)) (ry_request c) claims")
    case Inl': (Inl e)
    then show thesis using assms Inr p stopped by (auto simp: recovery_dispatch_def)
  next
    case Inr': (Inr rv)
    obtain x j where x: "recovery_reserve H env (ry_gateway c) rv out (ys_journal st) = (x, j)" by fastforce
    show thesis
    proof (cases x)
      case (Inl d)
      have "\<not> gv_accepted d"
        using x Inl by (auto simp: recovery_reserve_def denied_def Let_def split: sum.split_asm prod.split_asm option.split_asm if_split_asm)
      then show thesis using assms Inr p Inr' x Inl stopped by (auto simp: recovery_dispatch_def)
    next
      case X: (Inr y)
      obtain w recovered where "y = (w, recovered)" by (cases y)
      then show thesis using assms Inr p Inr' x X out commit by (auto simp: recovery_dispatch_def split: prod.split_asm)
    qed
  qed
qed

lemma recovery_execute_cases:
  assumes "recovery_execute H E consume update env c st = (r, st')"
  obtains (stopped) "ys_recipient st' = ys_recipient st" "\<And>d. r = Inr d \<Longrightarrow> \<not> gv_accepted d"
  | (dispatch) claims st2 t where "verified_claims H E (cv_public_key (rg_verifier (ry_gateway c))) (cv_key_id (rg_verifier (ry_gateway c)))
        (ry_capability c) (ry_request c) (recovery_redemption c) t = Inr claims"
      "ys_recipient st2 = ys_recipient st" "recovery_dispatch H env c claims st2 = (r, st')"
proof -
  let ?call = "\<lparr>rc_capability = ry_capability c, rc_request = ry_request c, rc_redemption = recovery_redemption c, rc_clocks = ry_clocks c\<rparr>"
  obtain x s d where x: "redeem H E consume update (rg_verifier (ry_gateway c)) (re_consume env, re_decay env) ?call
      (ys_consumption st, ys_decay st) = (x, s, d)" by (metis prod.exhaust)
  let ?st1 = "st\<lparr>ys_consumption := s, ys_decay := d\<rparr>"
  show thesis
  proof (cases x)
    case (Inl e)
    then show thesis using assms x stopped by (auto simp: recovery_execute_def denied_def Let_def)
  next
    case (Inr claims)
    obtain t where t: "verified_claims H E (cv_public_key (rg_verifier (ry_gateway c))) (cv_key_id (rg_verifier (ry_gateway c)))
        (ry_capability c) (ry_request c) (recovery_redemption c) t = Inr claims"
      using redeem_verified [OF x [unfolded Inr]] by auto
    then have rd: "request_digest H (ry_request c) = Inr (cc_request_digest claims)" using verified_request by blast
    obtain b st2 where e: "recovery_event env ''fenced.authorized''
        [(''request_id'', PStr (ar_request_id (ry_request c))), (''request_digest'', PStr (cc_request_digest claims)),
         (''capability_id'', PStr (cc_capability_id claims))] ?st1 = (b, st2)" by fastforce
    note st2 = recovery_event_eq [OF e]
    have "(r, st') = (if b then recovery_dispatch H env c claims st2 else (Inr (denied ''not-started'' ''evidence-unavailable''), st2))"
      using assms unfolding recovery_execute_def x Inr rd by (cases b) (simp_all add: Let_def e)
    then show thesis using st2 t stopped dispatch by (cases b) (auto simp: denied_def)
  qed
qed

section \<open>Properties\<close>

text \<open>
  C8: recovery is safe and its success is real. Every call of \<open>execute\<close> of the recovery gateway, first attempt or recovery,
  with any fault of any store, keeps the recipient's table at one row per effect key and never changes a committed row.
  And when a call reports completion, its claims were verified for exactly this request, the recipient has durably
  committed the effect for this request with a result that has the canonical bytes of the trusted output, which is the
  result that was returned, and the journal holds the confirmed reservation with the receipt of that very row.
\<close>

theorem recovery_sound:
  assumes "recovery_execute H E consume update env c st = (r, st')" and "distinct (map rr_effect_key (rp_rows (ys_recipient st)))"
  shows "distinct (map rr_effect_key (rp_rows (ys_recipient st'))) \<and> (\<exists>ws. rp_rows (ys_recipient st') = rp_rows (ys_recipient st) @ ws)
    \<and> (\<forall>d. r = Inr d \<and> gv_accepted d \<longrightarrow> (\<exists>(claims :: capability_claims) key out row w. gv_effect_state d = ''completed''
        \<and> request_digest H (ry_request c) = Inr (cc_request_digest claims) \<and> cc_operation claims = ar_operation (ry_request c)
        \<and> effect_key H (ry_request c) = Inr key \<and> re_factory env = Inr out
        \<and> row \<in> set (rp_rows (ys_recipient st')) \<and> rr_effect_key row = key \<and> rr_request_digest row = cc_request_digest claims
        \<and> canonical_bytes H (gv_output d) = canonical_bytes H out
        \<and> w \<in> set (ys_journal st') \<and> er_tenant w = rg_tenant (ry_gateway c) \<and> er_environment w = rg_environment (ry_gateway c)
        \<and> er_effect_key w = key \<and> er_state w = Recipient_confirmed \<and> er_receipt_digest w = Some (rr_receipt_digest row)))"
  using assms(1)
proof (cases rule: recovery_execute_cases)
  case stopped
  then show ?thesis using assms(2) by auto
next
  case (dispatch claims st2 t)
  note req = verified_request [OF dispatch(1)]
  from dispatch(3) show ?thesis
  proof (cases rule: recovery_dispatch_cases)
    case stopped
    then show ?thesis using assms(2) dispatch(2) by auto
  next
    case (commit out raw rv w recovered d j)
    have rv: "rv_tenant rv = PStr (rg_tenant (ry_gateway c))" "rv_environment rv = PStr (rg_environment (ry_gateway c))"
      "rv_request_digest rv = PStr (cc_request_digest claims)" "effect_key H (ry_request c) = Inr (str_of (rv_effect_key rv))"
      using commit(2) req by (auto simp: reservation_for_def bindE_Inr_iff)
    have "distinct (map rr_effect_key (rp_rows (ys_recipient st'))) \<and> (\<exists>ws. rp_rows (ys_recipient st') = rp_rows (ys_recipient st) @ ws)"
      using recovery_commit_recipient [OF commit(3)] assms(2) dispatch(2) by (simp add: rows_le_def)
    moreover have "\<exists>(claims :: capability_claims) key out row w. gv_effect_state d = ''completed''
        \<and> request_digest H (ry_request c) = Inr (cc_request_digest claims) \<and> cc_operation claims = ar_operation (ry_request c)
        \<and> effect_key H (ry_request c) = Inr key \<and> re_factory env = Inr out
        \<and> row \<in> set (rp_rows (ys_recipient st')) \<and> rr_effect_key row = key \<and> rr_request_digest row = cc_request_digest claims
        \<and> canonical_bytes H (gv_output d) = canonical_bytes H out
        \<and> w \<in> set (ys_journal st') \<and> er_tenant w = rg_tenant (ry_gateway c) \<and> er_environment w = rg_environment (ry_gateway c)
        \<and> er_effect_key w = key \<and> er_state w = Recipient_confirmed \<and> er_receipt_digest w = Some (rr_receipt_digest row)"
      if "gv_accepted d"
      using commit(3) that
    proof (rule recovery_commit_accepted)
      fix row v
      assume a: "committed (str_of (rv_effect_key rv)) (ys_recipient st') = Some row" "canonical_bytes H v = canonical_bytes H out"
        "rr_request_digest row = str_of (rv_request_digest rv)" "gv_output d = v" "gv_effect_state d = ''completed''"
        "\<exists>w' \<in> set (ys_journal st'). er_tenant w' = str_of (rv_tenant rv) \<and> er_environment w' = str_of (rv_environment rv)
           \<and> er_effect_key w' = str_of (rv_effect_key rv) \<and> er_state w' = Recipient_confirmed \<and> er_receipt_digest w' = Some (rr_receipt_digest row)"
      then obtain w' where w': "w' \<in> set (ys_journal st')" "er_tenant w' = str_of (rv_tenant rv)" "er_environment w' = str_of (rv_environment rv)"
        "er_effect_key w' = str_of (rv_effect_key rv)" "er_state w' = Recipient_confirmed" "er_receipt_digest w' = Some (rr_receipt_digest row)"
        by blast
      have "row \<in> set (rp_rows (ys_recipient st'))" "rr_effect_key row = str_of (rv_effect_key rv)"
        using a(1) by (auto simp: committed_def find_Some_iff)
      then show ?thesis
        using a w' rv req commit(1)
        by (intro exI [of _ claims] exI [of _ "str_of (rv_effect_key rv)"] exI [of _ out] exI [of _ row] exI [of _ w']) simp
    qed
    ultimately show ?thesis by (simp add: commit(4))
  qed
qed

definition demo_recovery_call :: "issued_capability \<Rightarrow> recovery_call" where
  "demo_recovery_call envp = \<lparr>ry_gateway = \<lparr>rg_verifier = demo_verifier, rg_recipient_id = ''r'', rg_tenant = ''default'',
       rg_environment = ''synthetic'', rg_has_rule = False\<rparr>,
     ry_request = demo_request, ry_capability = envp, ry_redemption = demo_redemption, ry_clocks = (Millis 101000, Millis 101000, Millis 101000)\<rparr>"

definition demo_recovery_env :: "((bool \<times> int) \<times> db_fault, unit) recovery_env" where
  "demo_recovery_env = \<lparr>re_consume = ((False, 1), No_fault), re_decay = (), re_append = (\<lambda>_. Appended), re_rule = Inr True,
     re_factory = Inr (PInt 7), re_reserve = No_fault, re_observe_journal = True, re_apply = No_fault, re_observe_recipient = True,
     re_confirm = No_fault\<rparr>"

definition demo_recovery_state :: "(replay_database, decay_memory) recovery_state" where
  "demo_recovery_state = \<lparr>ys_consumption = empty_database, ys_decay = Map.empty, ys_journal = [], ys_recipient = demo_recipient, ys_events = []\<rparr>"

lemma demo_recovery_simps:
  "rg_verifier (ry_gateway (demo_recovery_call envp)) = demo_verifier" "ry_request (demo_recovery_call envp) = demo_request"
  "ry_capability (demo_recovery_call envp) = envp" "ry_clocks (demo_recovery_call envp) = (Millis 101000, Millis 101000, Millis 101000)"
  "re_consume demo_recovery_env = ((False, 1), No_fault)" "re_decay demo_recovery_env = ()" "re_append demo_recovery_env = (\<lambda>_. Appended)"
  "re_factory demo_recovery_env = Inr (PInt 7)" "re_confirm demo_recovery_env = No_fault"
  by (simp_all add: demo_recovery_call_def demo_recovery_env_def)

text \<open>What the example does once it is authorized.\<close>

lemma demo_recovery_dispatch:
  assumes "cc_capability_id claims = ''cap_'' @ demo_token" "cc_max_output_bytes claims = 4096"
    "digest demo_host (PDict (claims_to_dict claims)) = Inr demo_digest"
    and st: "ys_journal st = []" "ys_recipient st = demo_recipient"
  obtains d st' where "recovery_dispatch demo_host demo_recovery_env (demo_recovery_call envp) claims st = (Inr d, st')" "gv_accepted d"
proof -
  let ?g = "ry_gateway (demo_recovery_call envp)"
  let ?rv = "\<lparr>rv_tenant = PStr ''default'', rv_environment = PStr ''synthetic'', rv_effect_key = PStr demo_digest,
     rv_capability_id = PStr (''cap_'' @ demo_token), rv_request_digest = PStr demo_digest, rv_claims_digest = PStr demo_digest\<rparr>"
  let ?w = "fenced_row ?rv ''r'' demo_digest"
  have dig: "request_digest demo_host demo_request = Inr demo_digest" "effect_key demo_host demo_request = Inr demo_digest"
    unfolding request_digest_def effect_key_def by (rule digest_demo, code_simp)+
  have g: "?g = \<lparr>rg_verifier = demo_verifier, rg_recipient_id = ''r'', rg_tenant = ''default'', rg_environment = ''synthetic'', rg_has_rule = False\<rparr>"
    "ry_request (demo_recovery_call envp) = demo_request"
    by (simp_all add: demo_recovery_call_def)
  have rv: "reservation_for demo_host ''default'' ''synthetic'' demo_request claims = Inr ?rv"
    by (simp add: reservation_for_def dig assms del: append.simps)
  have "canonical_bytes demo_host (PInt 7) = Inr ''7''" "okE (strict_json_loads demo_host (Bytes ''7'') True)" by (code_simp, code_simp)
  then have prep: "prepare_result demo_host demo_recovery_env ?g claims = Inr (PInt 7, ''7'')"
    by (auto simp: prepare_result_def g demo_recovery_simps assms okE_iff checkE_def)
  have res: "recovery_reserve demo_host demo_recovery_env ?g ?rv (PInt 7) [] = (Inr (?w, False), [?w])"
    unfolding g by code_simp
  have "\<exists>receipt observed db. recovery_apply demo_host demo_recovery_env ?g ?rv (PInt 7) demo_recipient = (Inr (receipt, observed), db)
      \<and> fst (confirm No_fault (original ?rv ?w) (PStr (fr_receipt_digest observed)) [?w]) = Inr ()"
  proof -
    have "(case fst (recovery_apply demo_host demo_recovery_env ?g ?rv (PInt 7) demo_recipient) of Inl _ \<Rightarrow> False
        | Inr p \<Rightarrow> fst (confirm No_fault (original ?rv ?w) (PStr (fr_receipt_digest (snd p))) [?w]) = Inr ())"
      unfolding g by code_simp
    then show ?thesis by (cases "recovery_apply demo_host demo_recovery_env ?g ?rv (PInt 7) demo_recipient") (auto split: sum.split_asm)
  qed
  then obtain receipt observed db j where x: "recovery_apply demo_host demo_recovery_env ?g ?rv (PInt 7) demo_recipient = (Inr (receipt, observed), db)"
    "confirm No_fault (original ?rv ?w) (PStr (fr_receipt_digest observed)) [?w] = (Inr (), j)"
    by (metis prod.collapse)
  have "\<exists>d st'. recovery_commit demo_host demo_recovery_env (demo_recovery_call envp) claims ?rv (PInt 7) ''7'' ?w False (st\<lparr>ys_journal := [?w]\<rparr>) = (d, st')
      \<and> gv_accepted d"
    using x st by (simp add: recovery_commit_def Let_def demo_recovery_simps recovery_event_def del: append.simps)
  moreover have "rg_tenant ?g = ''default''" "rg_environment ?g = ''synthetic''" by (simp_all add: g)
  ultimately show thesis
    using that st rv prep res unfolding recovery_dispatch_def by (auto simp: demo_recovery_simps simp del: append.simps)
qed

theorem recovery_sound_witness:
  "\<exists>envp d st'. recovery_execute demo_host demo_ed25519 (replica_consume ''ns'' ''dm'') (\<lambda>_. memory_update) demo_recovery_env
       (demo_recovery_call envp) demo_recovery_state = (Inr d, st')
     \<and> gv_accepted d \<and> list_ex (\<lambda>w. er_state w = Recipient_confirmed) (ys_journal st') \<and> distinct (map rr_effect_key (rp_rows (ys_recipient st')))"
proof -
  obtain envp s d where r: "redeem demo_host demo_ed25519 (replica_consume ''ns'' ''dm'') (\<lambda>_. memory_update) demo_verifier (((False, 1), No_fault), ())
      \<lparr>rc_capability = envp, rc_request = demo_request, rc_redemption = demo_redemption, rc_clocks = (Millis 101000, Millis 101000, Millis 101000)\<rparr>
      (empty_database, Map.empty) = (Inr (ic_claims envp), s, d)"
    and c: "cc_capability_id (ic_claims envp) = ''cap_'' @ demo_token" "cc_max_output_bytes (ic_claims envp) = 4096"
    "digest demo_host (PDict (claims_to_dict (ic_claims envp))) = Inr demo_digest"
    by (rule demo_redeem)
  let ?c = "demo_recovery_call envp"
  have "recovery_redemption ?c = demo_redemption"
    by (simp add: recovery_redemption_def demo_recovery_call_def demo_redemption_def)
  moreover have "request_digest demo_host demo_request = Inr demo_digest"
    unfolding request_digest_def by (rule digest_demo, code_simp)
  ultimately obtain st2 where st2: "recovery_execute demo_host demo_ed25519 (replica_consume ''ns'' ''dm'') (\<lambda>_. memory_update) demo_recovery_env ?c demo_recovery_state
      = recovery_dispatch demo_host demo_recovery_env ?c (ic_claims envp) st2" "ys_journal st2 = []" "ys_recipient st2 = demo_recipient"
    using r by (simp add: recovery_execute_def demo_recovery_simps demo_recovery_state_def Let_def recovery_event_def)
  obtain dec st' where run: "recovery_execute demo_host demo_ed25519 (replica_consume ''ns'' ''dm'') (\<lambda>_. memory_update) demo_recovery_env ?c demo_recovery_state
      = (Inr dec, st')" "gv_accepted dec"
    using demo_recovery_dispatch [OF c st2(2,3)] st2(1) by metis
  have "distinct (map rr_effect_key (rp_rows (ys_recipient demo_recovery_state)))"
    by (simp add: demo_recovery_state_def demo_recipient_def)
  from recovery_sound [OF run(1) this] run(2)
  have "list_ex (\<lambda>w. er_state w = Recipient_confirmed) (ys_journal st') \<and> distinct (map rr_effect_key (rp_rows (ys_recipient st')))"
    by (auto simp: list_ex_iff)
  with run show ?thesis by blast
qed

end
