(* ===== verification/Raft.thy ===== *)
theory Raft
  imports ReplayState
begin

text \<open>
  \<open>raft_core.py\<close>: the fixed-membership Raft laboratory node. A node is its durable state (term, vote, log, commit and applied
  index, results and consumed table) and its volatile role, leader and replication indices; the log is the list of its
  entries, index 1 first, and a command is what \<open>_apply_committed\<close> distinguishes. Database errors are not modelled.

  A method holds the lock of its node while it runs, but \<open>elect\<close> and \<open>_replicate\<close> release it around every call of a peer.
  \<open>raft_step\<close> interleaves the pieces between two releases, of any number of threads, with lost calls and restarts.
\<close>

section \<open>Definitions\<close>

datatype raft_role = Follower | Candidate | Leader

datatype command = Noop | Consume string consumption | Unrecognized

type_synonym raft_log = "(nat \<times> command) list"

record raft_node =
  rn_id :: string
  rn_members :: "string list"
  rn_term :: nat
  rn_voted_for :: string
  rn_log :: raft_log
  rn_commit :: nat
  rn_applied :: nat
  rn_role :: raft_role
  rn_leader :: "string option"
  rn_next :: "string \<rightharpoonup> nat"
  rn_match :: "string \<rightharpoonup> nat"
  rn_results :: "nat \<rightharpoonup> string"
  rn_consumed :: "string \<times> string \<rightharpoonup> string \<times> int"

definition last_index :: "raft_node \<Rightarrow> nat" where
  "last_index n = length (rn_log n)"

definition entry_at :: "raft_log \<Rightarrow> nat \<Rightarrow> (nat \<times> command) option" where
  "entry_at l i = (if i = 0 then Some (0, Unrecognized) else if i \<le> length l then Some (l ! (i - 1)) else None)"

definition last_term :: "raft_node \<Rightarrow> nat" where
  "last_term n = (case entry_at (rn_log n) (last_index n) of Some e \<Rightarrow> fst e | None \<Rightarrow> 0)"

text \<open>\<open>_step_down\<close>.\<close>

definition step_down :: "nat \<Rightarrow> string option \<Rightarrow> raft_node \<Rightarrow> raft_node res" where
  "step_down new_term leader n =
     (if new_term < rn_term n then Inl (RuntimeError ''cannot roll back Raft term'')
      else Inr ((if new_term > rn_term n then n\<lparr>rn_term := new_term, rn_voted_for := []\<rparr> else n)\<lparr>rn_role := Follower, rn_leader := leader\<rparr>))"

definition stepped :: "nat \<Rightarrow> string option \<Rightarrow> raft_node \<Rightarrow> raft_node" where
  "stepped t leader n = (case step_down t leader n of Inl _ \<Rightarrow> n | Inr n' \<Rightarrow> n')"

definition request_vote :: "nat \<Rightarrow> string \<Rightarrow> nat \<Rightarrow> nat \<Rightarrow> raft_node \<Rightarrow> (nat \<times> bool) \<times> raft_node" where
  "request_vote t candidate last_log_index last_log_term n =
     (if candidate \<notin> set (rn_members n) \<or> candidate = rn_id n \<or> t < rn_term n then ((rn_term n, False), n)
      else let n' = (if t > rn_term n then stepped t None n else n);
               up_to_date = (last_term n' < last_log_term \<or> (last_term n' = last_log_term \<and> last_index n' \<le> last_log_index));
               granted = (up_to_date \<and> (rn_voted_for n' = [] \<or> rn_voted_for n' = candidate)) in
        ((rn_term n', granted), if granted then n'\<lparr>rn_voted_for := candidate\<rparr> else n'))"

subsection \<open>Elections\<close>

text \<open>The local variables of a running \<open>elect\<close>; \<open>votes\<close> is one more than the number of \<open>el_granted\<close>.\<close>

record election =
  el_node :: string
  el_term :: nat
  el_last_index :: nat
  el_last_term :: nat
  el_pending :: "string list"
  el_granted :: "string list"
  el_reply :: "(string \<times> nat \<times> bool) option"

definition peers :: "raft_node \<Rightarrow> string list" where
  "peers n = filter (\<lambda>p. p \<noteq> rn_id n) (rn_members n)"

definition start_election :: "raft_node \<Rightarrow> raft_node \<times> election" where
  "start_election n =
     (let n' = (stepped (rn_term n + 1) None n)\<lparr>rn_role := Candidate, rn_voted_for := rn_id n\<rparr> in
      (n', \<lparr>el_node = rn_id n, el_term = rn_term n', el_last_index = last_index n', el_last_term = last_term n',
            el_pending = peers n, el_granted = [], el_reply = None\<rparr>))"

text \<open>The answer of a peer; \<open>None\<close> ends the election.\<close>

definition count_vote :: "string \<times> nat \<times> bool \<Rightarrow> election \<Rightarrow> raft_node \<Rightarrow> election option \<times> raft_node" where
  "count_vote reply e n = (case reply of (p, their_term, grant) \<Rightarrow>
     if their_term > rn_term n then (None, stepped their_term None n)
     else if rn_term n \<noteq> el_term e \<or> rn_role n \<noteq> Candidate then (None, n)
     else (Some (e\<lparr>el_reply := None, el_granted := (if grant then p # el_granted e else el_granted e)\<rparr>), n))"

definition enough_votes :: "election \<Rightarrow> raft_node \<Rightarrow> bool" where
  "enough_votes e n \<longleftrightarrow> length (rn_members n) div 2 < 1 + length (el_granted e)"

definition become_leader :: "raft_node \<Rightarrow> raft_node" where
  "become_leader n = n\<lparr>rn_role := Leader, rn_leader := Some (rn_id n),
     rn_next := (\<lambda>p. if p \<in> set (peers n) then Some (last_index n + 1) else None),
     rn_match := (\<lambda>p. if p \<in> set (peers n) then Some 0 else None)\<rparr>"

subsection \<open>The replicated state machine\<close>

definition consume_result :: "string \<Rightarrow> consumption \<Rightarrow> (string \<times> string \<rightharpoonup> string \<times> int) \<Rightarrow> string \<times> (string \<times> string \<rightharpoonup> string \<times> int)" where
  "consume_result scope c t =
     (let key = (scope, cn_id c); claim = cn_claim c in
      case t key of
        None \<Rightarrow> (''fresh'', t(key \<mapsto> claim))
      | Some known \<Rightarrow> (if known \<noteq> claim then ''collision'' else ''duplicate'', t))"

definition apply_command :: "command \<Rightarrow> (string \<times> string \<rightharpoonup> string \<times> int) \<Rightarrow> (string \<times> (string \<times> string \<rightharpoonup> string \<times> int)) res" where
  "apply_command c t = (case c of
     Noop \<Rightarrow> Inr (''noop'', t)
   | Consume scope n \<Rightarrow> bindE (validate_transition n) (\<lambda>_.
       bindE (checkE (\<not> fits_int64 (int_of (cn_expires_at n))) (ExternalError ''OverflowError'')) (\<lambda>_. Inr (consume_result scope n t)))
   | Unrecognized \<Rightarrow> Inl (RuntimeError ''unrecognized committed command''))"

definition apply_one :: "raft_node \<Rightarrow> raft_node res" where
  "apply_one n =
     (let i = rn_applied n + 1 in
      case entry_at (rn_log n) i of
        None \<Rightarrow> Inl (RuntimeError ''committed Raft entry missing'')
      | Some (_, c) \<Rightarrow> bindE (apply_command c (rn_consumed n)) (\<lambda>(result, t).
          Inr (n\<lparr>rn_consumed := t, rn_results := (case rn_results n i of Some _ \<Rightarrow> rn_results n | None \<Rightarrow> (rn_results n)(i \<mapsto> result)),
                 rn_applied := i\<rparr>)))"

lemma apply_one_indices: "apply_one n = Inr n' \<Longrightarrow> rn_applied n' = rn_applied n + 1 \<and> rn_commit n' = rn_commit n"
  by (auto simp: apply_one_def Let_def bindE_Inr_iff split: option.split_asm prod.split_asm)

function apply_committed :: "raft_node \<Rightarrow> raft_node res" where
  "apply_committed n = (if rn_applied n < rn_commit n then
     (case apply_one n of Inl e \<Rightarrow> Inl e | Inr n' \<Rightarrow> apply_committed n') else Inr n)"
  by pat_completeness auto

termination
  by (relation "measure (\<lambda>n. rn_commit n - rn_applied n)") (auto dest: apply_one_indices)

declare apply_committed.simps [simp del]

subsection \<open>Replication\<close>

definition command_dict :: "command \<Rightarrow> dict" where
  "command_dict c = (case c of
     Noop \<Rightarrow> [(''op'', PStr ''noop'')]
   | Consume scope n \<Rightarrow> [(''op'', PStr ''consume''), (''scope'', PStr scope), (''capability_id'', cn_capability_id n),
       (''claims_digest'', cn_claims_digest n), (''expires_at'', cn_expires_at n), (''consumed_at'', cn_consumed_at n)]
   | Unrecognized \<Rightarrow> [])"

fun contiguous :: "nat \<Rightarrow> (nat \<times> nat \<times> command) list \<Rightarrow> bool" where
  "contiguous cursor [] = True"
| "contiguous cursor ((i, t, c) # es) = (1 \<le> t \<and> i = cursor + 1 \<and> contiguous i es)"

fun store_entries :: "host \<Rightarrow> nat \<Rightarrow> (nat \<times> nat \<times> command) list \<Rightarrow> raft_log \<Rightarrow> raft_log res" where
  "store_entries H commit [] l = Inr l"
| "store_entries H commit ((i, t, c) # es) l =
     (case entry_at l i of
        Some e \<Rightarrow> if e \<noteq> (t, c) then
            if i \<le> commit then Inl (RuntimeError ''attempted truncation of committed log'')
            else bindE (canonical_bytes H (PDict (command_dict c))) (\<lambda>_. store_entries H commit es (take (i - 1) l @ [(t, c)]))
          else store_entries H commit es l
      | None \<Rightarrow> bindE (canonical_bytes H (PDict (command_dict c))) (\<lambda>_. store_entries H commit es (l @ [(t, c)])))"

text \<open>\<open>append_entries\<close>: a failure inside the transaction undoes log, results and indices, not the step down.\<close>

definition append_entries ::
  "host \<Rightarrow> nat \<Rightarrow> string \<Rightarrow> nat \<Rightarrow> nat \<Rightarrow> (nat \<times> nat \<times> command) list \<Rightarrow> nat \<Rightarrow> raft_node \<Rightarrow> (nat \<times> bool \<times> nat) res \<times> raft_node" where
  "append_entries H t leader prev_index prev_term entries leader_commit n =
     (if leader \<notin> set (rn_members n) \<or> leader = rn_id n \<or> t < rn_term n then (Inr (rn_term n, False, last_index n), n)
      else let n1 = (if t > rn_term n \<or> rn_role n \<noteq> Follower then stepped t (Some leader) n else n\<lparr>rn_leader := Some leader\<rparr>) in
        if map_option fst (entry_at (rn_log n1) prev_index) \<noteq> Some prev_term then (Inr (rn_term n1, False, last_index n1), n1)
        else if \<not> contiguous prev_index entries then (Inl (RuntimeError ''invalid replicated Raft log entry''), n1)
        else case bindE (store_entries H (rn_commit n1) entries (rn_log n1)) (\<lambda>l.
               apply_committed (n1\<lparr>rn_log := l, rn_commit := (if leader_commit > rn_commit n1 then min leader_commit (length l) else rn_commit n1)\<rparr>)) of
            Inl e \<Rightarrow> (Inl e, n1)
          | Inr n2 \<Rightarrow> (Inr (rn_term n2, True, prev_index + length entries), n2))"

text \<open>The request \<open>_replicate\<close> builds, the answer it handles, and the loop without interleaving; a lost call ends it.\<close>

definition next_index :: "raft_node \<Rightarrow> string \<Rightarrow> nat" where
  "next_index l p = (case rn_next l p of Some i \<Rightarrow> i | None \<Rightarrow> last_index l + 1)"

definition outgoing :: "raft_node \<Rightarrow> nat \<Rightarrow> (nat \<times> nat \<times> command) list" where
  "outgoing l i = map (\<lambda>k. (k, rn_log l ! (k - 1))) [i ..< last_index l + 1]"

definition send_append :: "host \<Rightarrow> raft_node \<Rightarrow> string \<Rightarrow> raft_node \<Rightarrow> (nat \<times> bool \<times> nat) res \<times> raft_node" where
  "send_append H l p peer =
     (let i = next_index l p in
      case entry_at (rn_log l) (i - 1) of
        None \<Rightarrow> (Inl (RuntimeError ''leader log has a gap''), peer)
      | Some prev \<Rightarrow> append_entries H (rn_term l) (rn_id l) (i - 1) (fst prev) (outgoing l i) (rn_commit l) peer)"

definition handle_append :: "nat \<Rightarrow> nat \<Rightarrow> string \<Rightarrow> nat \<times> bool \<times> nat \<Rightarrow> raft_node \<Rightarrow> bool \<times> raft_node" where
  "handle_append t i p reply l = (case reply of (peer_term, accepted, match_idx) \<Rightarrow>
     if peer_term > rn_term l then (False, stepped peer_term None l)
     else if rn_role l \<noteq> Leader \<or> rn_term l \<noteq> t then (False, l)
     else if accepted then (False, l\<lparr>rn_match := (rn_match l)(p \<mapsto> match_idx), rn_next := (rn_next l)(p \<mapsto> match_idx + 1)\<rparr>)
     else if i \<le> 1 then (False, l)
     else (True, l\<lparr>rn_next := (rn_next l)(p \<mapsto> i - 1)\<rparr>))"

fun replicate_rounds :: "host \<Rightarrow> nat \<Rightarrow> (nat \<Rightarrow> bool) \<Rightarrow> string \<Rightarrow> raft_node \<times> raft_node \<Rightarrow> unit res \<times> raft_node \<times> raft_node" where
  "replicate_rounds H 0 lost p (l, peer) = (Inr (), l, peer)"
| "replicate_rounds H (Suc k) lost p (l, peer) =
     (if rn_role l \<noteq> Leader then (Inr (), l, peer)
      else if lost k then (Inr (), l, peer)
      else case send_append H l p peer of
        (Inl e, peer') \<Rightarrow> (Inl e, l, peer')
      | (Inr reply, peer') \<Rightarrow>
          (case handle_append (rn_term l) (next_index l p) p reply l of
             (again, l') \<Rightarrow> if again then replicate_rounds H k lost p (l', peer') else (Inr (), l', peer')))"

definition replicate_to :: "host \<Rightarrow> (nat \<Rightarrow> bool) \<Rightarrow> string \<Rightarrow> raft_node \<times> raft_node \<Rightarrow> unit res \<times> raft_node \<times> raft_node" where
  "replicate_to H lost p lp = replicate_rounds H (last_index (fst lp) + 1) lost p lp"

text \<open>\<open>propose\<close>: the local append, and the commit after a quorum has acknowledged.\<close>

definition propose_append :: "host \<Rightarrow> command \<Rightarrow> raft_node \<Rightarrow> nat res \<times> raft_node" where
  "propose_append H c n = (case c of
     Consume scope k \<Rightarrow>
       if scope = [] then (Inl (ValueError ''only scoped consumption commands are allowed''), n)
       else (case validate_transition k of
         Inl e \<Rightarrow> (Inl e, n)
       | Inr _ \<Rightarrow>
           if rn_role n \<noteq> Leader then (Inl (RuntimeError ''Raft node is not leader''), n)
           else (case canonical_bytes H (PDict (command_dict c)) of
             Inl e \<Rightarrow> (Inl e, n)
           | Inr _ \<Rightarrow> (Inr (last_index n + 1), n\<lparr>rn_log := rn_log n @ [(rn_term n, c)]\<rparr>)))
   | _ \<Rightarrow> (Inl (ValueError ''only scoped consumption commands are allowed''), n))"

definition matched :: "nat \<Rightarrow> raft_node \<Rightarrow> nat" where
  "matched position n = 1 + length (filter (\<lambda>p. case rn_match n p of Some i \<Rightarrow> position \<le> i | None \<Rightarrow> False) (peers n))"

definition propose_commit :: "nat \<Rightarrow> raft_node \<Rightarrow> string res \<times> raft_node" where
  "propose_commit position n =
     (if rn_role n \<noteq> Leader then (Inl (RuntimeError ''Raft leader lost term during proposal''), n)
      else if matched position n \<le> length (rn_members n) div 2
        then (Inl (RuntimeError ''Raft proposal not durably acknowledged by quorum''), n)
      else case apply_committed (n\<lparr>rn_commit := position\<rparr>) of
        Inl e \<Rightarrow> (Inl e, n\<lparr>rn_role := Follower, rn_leader := None\<rparr>)
      | Inr n' \<Rightarrow> (Inr (the (rn_results n' position)), n'))"

definition propose_answer :: "string \<Rightarrow> bool res" where
  "propose_answer result = (if result = ''collision''
     then Inl (CapabilityConsumptionError ''capability ID collided with different signed claims'') else Inr (result = ''fresh''))"

definition known_consumption :: "raft_node \<Rightarrow> string \<Rightarrow> string \<Rightarrow> (string \<times> int) option" where
  "known_consumption n scope i = rn_consumed n (scope, i)"

text \<open>The audit digest of the committed prefix.\<close>

fun checkpoint_entries :: "raft_node \<Rightarrow> nat list \<Rightarrow> pyval list res" where
  "checkpoint_entries n [] = Inr []"
| "checkpoint_entries n (i # is) = (case entry_at (rn_log n) i of
     None \<Rightarrow> Inl (RuntimeError ''committed Raft log entry missing'')
   | Some (t, c) \<Rightarrow> (case rn_results n i of
       None \<Rightarrow> Inl (RuntimeError ''committed replay result missing'')
     | Some result \<Rightarrow> bindE (checkpoint_entries n is) (\<lambda>es.
         Inr (PDict [(''index'', PInt (int i)), (''term'', PInt (int t)), (''command'', PDict (command_dict c)), (''result'', PStr result)] # es))))"

definition committed_checkpoint :: "host \<Rightarrow> raft_node \<Rightarrow> (nat \<times> string) res" where
  "committed_checkpoint H n = bindE (checkpoint_entries n [1 ..< rn_commit n + 1]) (\<lambda>entries.
     bindE (digest H (PDict [(''schema'', PStr ''event-horizon.raft-research-checkpoint.v1''),
       (''membership'', PList (map PStr (rn_members n))), (''committed_entries'', PList entries)])) (\<lambda>d. Inr (rn_commit n, d)))"

text \<open>\<open>ResearchRaftCapabilityConsumptionStore\<close>: the scope of the adapter and the command it proposes.\<close>

definition research_scope :: "string \<Rightarrow> string \<Rightarrow> string res" where
  "research_scope namespace domain =
     (if namespace = [] \<or> domain = [] \<or> CHR '':'' \<in> set namespace \<or> CHR '':'' \<in> set domain
      then Inl (ValueError ''research Raft namespace/domain are invalid'') else Inr (namespace @ '':'' @ domain))"

definition research_command :: "string \<Rightarrow> consumption \<Rightarrow> command" where
  "research_command scope c = Consume scope c"

text \<open>\<open>__init__\<close> on an existing database: the volatile state is lost.\<close>

definition restart :: "raft_node \<Rightarrow> raft_node res" where
  "restart n =
     (if \<not> (rn_applied n \<le> rn_commit n \<and> rn_commit n \<le> last_index n) then Inl (RuntimeError ''durable Raft checkpoint is invalid'')
      else apply_committed (n\<lparr>rn_role := Follower, rn_leader := None, rn_next := Map.empty, rn_match := Map.empty\<rparr>))"

subsection \<open>The cluster\<close>

text \<open>\<open>cl_votes\<close> records who voted for whom in which term; no step reads it.\<close>

record raft_cluster =
  cl_nodes :: "string \<Rightarrow> raft_node"
  cl_elections :: "election list"
  cl_votes :: "nat \<times> string \<rightharpoonup> string"

definition set_node :: "string \<Rightarrow> raft_node \<Rightarrow> raft_cluster \<Rightarrow> raft_cluster" where
  "set_node i n s = s\<lparr>cl_nodes := (cl_nodes s)(i := n)\<rparr>"

text \<open>
  The steps of the cluster. \<open>raft_step H False\<close> has every step the code can take. \<open>raft_step H True\<close> leaves out late
  elections: those whose node is no longer the candidate of the election's term when it takes the leadership.
\<close>

inductive raft_step :: "host \<Rightarrow> bool \<Rightarrow> raft_cluster \<Rightarrow> raft_cluster \<Rightarrow> bool" for H timely where
  elect: "i \<in> set (rn_members (cl_nodes s i)) \<Longrightarrow> start_election (cl_nodes s i) = (n, e) \<Longrightarrow>
    raft_step H timely s ((set_node i n s)\<lparr>cl_elections := e # cl_elections s, cl_votes := (cl_votes s)((rn_term n, i) \<mapsto> i)\<rparr>)"
| ask: "k < length (cl_elections s) \<Longrightarrow> e = cl_elections s ! k \<Longrightarrow> el_reply e = None \<Longrightarrow> el_pending e = p # ps \<Longrightarrow>
    request_vote (el_term e) (el_node e) (el_last_index e) (el_last_term e) (cl_nodes s p) = ((t, granted), n) \<Longrightarrow>
    raft_step H timely s ((set_node p n s)\<lparr>cl_elections := (cl_elections s)[k := e\<lparr>el_pending := ps, el_reply := Some (p, t, granted)\<rparr>],
      cl_votes := (if granted then (cl_votes s)((el_term e, p) \<mapsto> el_node e) else cl_votes s)\<rparr>)"
| lost: "k < length (cl_elections s) \<Longrightarrow> e = cl_elections s ! k \<Longrightarrow> el_reply e = None \<Longrightarrow> el_pending e = p # ps \<Longrightarrow>
    raft_step H timely s (s\<lparr>cl_elections := (cl_elections s)[k := e\<lparr>el_pending := ps\<rparr>]\<rparr>)"
| count: "k < length (cl_elections s) \<Longrightarrow> e = cl_elections s ! k \<Longrightarrow> el_reply e = Some reply \<Longrightarrow>
    count_vote reply e (cl_nodes s (el_node e)) = (Some e', n) \<Longrightarrow>
    raft_step H timely s ((set_node (el_node e) n s)\<lparr>cl_elections := (cl_elections s)[k := e']\<rparr>)"
| withdraw: "k < length (cl_elections s) \<Longrightarrow> e = cl_elections s ! k \<Longrightarrow> el_reply e = Some reply \<Longrightarrow>
    count_vote reply e (cl_nodes s (el_node e)) = (None, n) \<Longrightarrow>
    raft_step H timely s ((set_node (el_node e) n s)\<lparr>cl_elections := take k (cl_elections s) @ drop (Suc k) (cl_elections s)\<rparr>)"
| lead: "k < length (cl_elections s) \<Longrightarrow> e = cl_elections s ! k \<Longrightarrow> el_reply e = None \<Longrightarrow> el_pending e = [] \<Longrightarrow>
    n = cl_nodes s (el_node e) \<Longrightarrow> enough_votes e n \<Longrightarrow> \<not> timely \<or> (rn_term n = el_term e \<and> rn_role n = Candidate) \<Longrightarrow>
    raft_step H timely s ((set_node (el_node e) (become_leader n) s)\<lparr>cl_elections := take k (cl_elections s) @ drop (Suc k) (cl_elections s)\<rparr>)"
| append: "append_entries H t leader prev_index prev_term entries leader_commit (cl_nodes s i) = (r, n) \<Longrightarrow>
    raft_step H timely s (set_node i n s)"
| appended: "handle_append t j p reply (cl_nodes s i) = (again, n) \<Longrightarrow> raft_step H timely s (set_node i n s)"
| propose: "propose_append H c (cl_nodes s i) = (r, n) \<Longrightarrow> raft_step H timely s (set_node i n s)"
| commit: "propose_commit position (cl_nodes s i) = (r', n) \<Longrightarrow> raft_step H timely s (set_node i n s)"
| crash: "restart (cl_nodes s i) = Inr n \<Longrightarrow> raft_step H timely s (set_node i n s)"
| crash_electing: "restart (stepped (rn_term (cl_nodes s i) + 1) None (cl_nodes s i)) = Inr n \<Longrightarrow> raft_step H timely s (set_node i n s)"

definition fresh_node :: "string list \<Rightarrow> string \<Rightarrow> raft_node" where
  "fresh_node members i = \<lparr>rn_id = i, rn_members = members, rn_term = 0, rn_voted_for = [], rn_log = [], rn_commit = 0, rn_applied = 0,
     rn_role = Follower, rn_leader = None, rn_next = Map.empty, rn_match = Map.empty, rn_results = Map.empty, rn_consumed = Map.empty\<rparr>"

text \<open>\<open>__init__\<close> on an empty database.\<close>

definition node_init :: "string \<Rightarrow> string list \<Rightarrow> raft_node res" where
  "node_init i members = bindE (seqE
     [checkE (i = []) (ValueError ''Raft node identity required''),
      checkE (length members mod 2 \<noteq> 1 \<or> length members < 3 \<or> \<not> distinct members \<or> i \<notin> set members \<or> [] \<in> set members)
        (ValueError ''Raft laboratory requires a fixed odd-sized cluster >=3'')]) (\<lambda>_. Inr (fresh_node members i))"

definition fresh_cluster :: "string list \<Rightarrow> raft_cluster" where
  "fresh_cluster members = \<lparr>cl_nodes = fresh_node members, cl_elections = [], cl_votes = Map.empty\<rparr>"

text \<open>
  What happens to one node: it votes, is sent any entries, campaigns, leads, proposes and restarts, with whatever the rest of
  the world sends; \<open>settle\<close> is the end of a proposal. \<open>node_step H False\<close> has every step the code can take. \<open>node_step H True\<close>
  leaves out overtaken proposals: those that end when the node has already committed a later position.
\<close>

inductive node_step :: "host \<Rightarrow> bool \<Rightarrow> raft_node \<Rightarrow> raft_node \<Rightarrow> bool" for H current where
  vote: "request_vote t candidate li lt n = (answer, n') \<Longrightarrow> node_step H current n n'"
| campaign: "start_election n = (n', e) \<Longrightarrow> node_step H current n n'"
| hear: "count_vote reply e n = (e', n') \<Longrightarrow> node_step H current n n'"
| win: "node_step H current n (become_leader n)"
| receive: "append_entries H t leader prev_index prev_term entries leader_commit n = (r, n') \<Longrightarrow> node_step H current n n'"
| answered: "handle_append t j p reply n = (again, n') \<Longrightarrow> node_step H current n n'"
| begin_proposal: "propose_append H c n = (position, n') \<Longrightarrow> node_step H current n n'"
| settle: "propose_commit position n = (result, n') \<Longrightarrow> (current \<Longrightarrow> rn_commit n \<le> position) \<Longrightarrow> node_step H current n n'"
| reboot: "restart n = Inr n' \<Longrightarrow> node_step H current n n'"

text \<open>The commands of a piece of the log, one after the other.\<close>

fun replay :: "raft_log \<Rightarrow> (string \<times> string \<rightharpoonup> string \<times> int) \<Rightarrow> (string list \<times> (string \<times> string \<rightharpoonup> string \<times> int)) res" where
  "replay [] t = Inr ([], t)"
| "replay ((_, c) # es) t = bindE (apply_command c t) (\<lambda>(r, t'). bindE (replay es t') (\<lambda>(rs, t''). Inr (r # rs, t'')))"

section \<open>Lemmas\<close>

subsection \<open>Terms and votes of a node\<close>

text \<open>A change of a node that casts no vote and takes no leadership.\<close>

definition quiet :: "raft_node \<Rightarrow> raft_node \<Rightarrow> bool" where
  "quiet n n' \<longleftrightarrow> rn_id n' = rn_id n \<and> rn_members n' = rn_members n \<and>
     (rn_term n' = rn_term n \<and> rn_voted_for n' = rn_voted_for n \<and> (rn_role n' = Leader \<longrightarrow> rn_role n = Leader)
      \<or> rn_term n < rn_term n' \<and> rn_voted_for n' = [] \<and> rn_role n' \<noteq> Leader)"

lemma quiet_refl [simp]: "quiet n n"
  by (simp add: quiet_def)

lemma quiet_trans: "quiet a b \<Longrightarrow> quiet b c \<Longrightarrow> quiet a c"
  unfolding quiet_def by (elim conjE disjE) auto

lemma stepped_simps [simp]:
  "rn_id (stepped t l n) = rn_id n" "rn_members (stepped t l n) = rn_members n" "rn_term (stepped t l n) = max t (rn_term n)"
  "rn_log (stepped t l n) = rn_log n" "rn_commit (stepped t l n) = rn_commit n" "rn_applied (stepped t l n) = rn_applied n"
  "rn_voted_for (stepped t l n) = (if rn_term n < t then [] else rn_voted_for n)"
  by (auto simp: stepped_def step_down_def)

lemma stepped_role: "rn_term n \<le> t \<Longrightarrow> rn_role (stepped t l n) = Follower"
  by (simp add: stepped_def step_down_def)

lemma quiet_stepped: "quiet n (stepped t l n)"
  by (auto simp: quiet_def stepped_def step_down_def)

definition same_frame :: "raft_node \<Rightarrow> raft_node \<Rightarrow> bool" where
  "same_frame n n' \<longleftrightarrow> rn_id n' = rn_id n \<and> rn_members n' = rn_members n \<and> rn_term n' = rn_term n \<and> rn_voted_for n' = rn_voted_for n
     \<and> rn_log n' = rn_log n \<and> rn_commit n' = rn_commit n \<and> rn_role n' = rn_role n \<and> rn_leader n' = rn_leader n
     \<and> rn_next n' = rn_next n \<and> rn_match n' = rn_match n"

lemma apply_one_frame: "apply_one n = Inr n' \<Longrightarrow> same_frame n n'"
  by (auto simp: same_frame_def apply_one_def Let_def bindE_Inr_iff split: option.split_asm prod.split_asm)

lemma apply_committed_induct [consumes 1, case_names finished step]:
  assumes "apply_committed n = Inr n'" and "\<And>n. \<not> rn_applied n < rn_commit n \<Longrightarrow> P n n"
    and "\<And>n n1 n'. rn_applied n < rn_commit n \<Longrightarrow> apply_one n = Inr n1 \<Longrightarrow> apply_committed n1 = Inr n' \<Longrightarrow> P n1 n' \<Longrightarrow> P n n'"
  shows "P n n'"
  using assms(1)
proof (induction n rule: apply_committed.induct)
  case (1 n)
  show ?case
  proof (cases "rn_applied n < rn_commit n")
    case True
    then obtain n1 where "apply_one n = Inr n1" "apply_committed n1 = Inr n'"
      using "1.prems" by (auto simp: apply_committed.simps [of n] split: sum.split_asm)
    then show ?thesis using "1.IH" True assms(3) by blast
  next
    case False
    then show ?thesis using "1.prems" assms(2) by (simp add: apply_committed.simps [of n])
  qed
qed

lemma apply_committed_frame: "apply_committed n = Inr n' \<Longrightarrow> same_frame n n'"
  by (induction rule: apply_committed_induct) (auto simp: same_frame_def dest!: apply_one_frame)

lemma quiet_apply: "apply_committed n = Inr n' \<Longrightarrow> quiet n n'"
  by (auto simp: quiet_def same_frame_def dest!: apply_committed_frame)

lemma append_cases:
  assumes "append_entries H t leader pi pt es lc n = (r, n')"
  obtains (unchanged) "n' = n"
  | (stepped) n1 where "n1 = stepped t (Some leader) n \<or> n1 = n\<lparr>rn_leader := Some leader\<rparr>" "n' = n1"
  | (stored) n1 l c where "n1 = stepped t (Some leader) n \<or> n1 = n\<lparr>rn_leader := Some leader\<rparr>" "contiguous pi es"
      "store_entries H (rn_commit n1) es (rn_log n1) = Inr l" "apply_committed (n1\<lparr>rn_log := l, rn_commit := c\<rparr>) = Inr n'"
      "c = (if lc > rn_commit n1 then min lc (length l) else rn_commit n1)" "map_option fst (entry_at (rn_log n1) pi) = Some pt"
proof (cases "leader \<notin> set (rn_members n) \<or> leader = rn_id n \<or> t < rn_term n")
  case True
  then show thesis using assms unchanged by (auto simp: append_entries_def)
next
  case False
  define n1 where "n1 = (if t > rn_term n \<or> rn_role n \<noteq> Follower then stepped t (Some leader) n else n\<lparr>rn_leader := Some leader\<rparr>)"
  then have n1: "n1 = stepped t (Some leader) n \<or> n1 = n\<lparr>rn_leader := Some leader\<rparr>" by simp
  have r: "append_entries H t leader pi pt es lc n =
      (if map_option fst (entry_at (rn_log n1) pi) \<noteq> Some pt then (Inr (rn_term n1, False, last_index n1), n1)
       else if \<not> contiguous pi es then (Inl (RuntimeError ''invalid replicated Raft log entry''), n1)
       else case bindE (store_entries H (rn_commit n1) es (rn_log n1)) (\<lambda>l.
               apply_committed (n1\<lparr>rn_log := l, rn_commit := (if lc > rn_commit n1 then min lc (length l) else rn_commit n1)\<rparr>)) of
            Inl e \<Rightarrow> (Inl e, n1)
          | Inr n2 \<Rightarrow> (Inr (rn_term n2, True, pi + length es), n2))"
    using False unfolding append_entries_def n1_def Let_def by simp
  show thesis
  proof (cases "n' = n1")
    case True
    then show thesis using stepped n1 by blast
  next
    case False
    then obtain l where "map_option fst (entry_at (rn_log n1) pi) = Some pt" "contiguous pi es" "store_entries H (rn_commit n1) es (rn_log n1) = Inr l"
      "apply_committed (n1\<lparr>rn_log := l, rn_commit := (if lc > rn_commit n1 then min lc (length l) else rn_commit n1)\<rparr>) = Inr n'"
      using assms unfolding r by (cases "store_entries H (rn_commit n1) es (rn_log n1)") (auto split: if_split_asm sum.split_asm)
    then show thesis using stored n1 by blast
  qed
qed

lemma quiet_append:
  assumes "append_entries H t leader pi pt es lc n = (r, n')"
  shows "quiet n n'"
  using assms
proof (cases rule: append_cases)
  case (stored n1 l c)
  have "quiet n (n\<lparr>rn_leader := Some leader\<rparr>)" by (simp add: quiet_def)
  then have "quiet n n1" using stored(1) quiet_stepped by auto
  moreover have "quiet n1 (n1\<lparr>rn_log := l, rn_commit := c\<rparr>)" by (simp add: quiet_def)
  ultimately show ?thesis using quiet_apply [OF stored(4)] quiet_trans by blast
next
  case (stepped n1)
  have "quiet n (n\<lparr>rn_leader := Some leader\<rparr>)" by (simp add: quiet_def)
  then show ?thesis using stepped quiet_stepped by auto
qed simp

lemma quiet_handle: "handle_append t j p reply n = (b, n') \<Longrightarrow> quiet n n'"
  by (auto simp: handle_append_def quiet_def stepped_role split: prod.split_asm if_split_asm)

lemma quiet_propose: "propose_append H c n = (r, n') \<Longrightarrow> quiet n n'"
  by (auto simp: propose_append_def quiet_def split: command.split_asm sum.split_asm if_split_asm)

lemma quiet_commit: "propose_commit k n = (r, n') \<Longrightarrow> quiet n n'"
  by (auto simp: propose_commit_def quiet_def same_frame_def dest!: apply_committed_frame split: sum.split_asm if_split_asm)

lemma quiet_restart: "restart n = Inr n' \<Longrightarrow> quiet n n'"
  by (auto simp: restart_def quiet_def same_frame_def dest!: apply_committed_frame split: if_split_asm)

lemma quiet_count: "count_vote reply e n = (x, n') \<Longrightarrow> quiet n n'"
  by (auto simp: count_vote_def quiet_def stepped_role split: prod.split_asm if_split_asm)

subsection \<open>The votes of a cluster\<close>

definition node_ok :: "(nat \<times> string \<rightharpoonup> string) \<Rightarrow> string \<Rightarrow> raft_node \<Rightarrow> bool" where
  "node_ok V i n \<longleftrightarrow> (\<forall>t c. V (t, i) = Some c \<longrightarrow> c \<noteq> [] \<and> t \<le> rn_term n \<and> (t = rn_term n \<longrightarrow> rn_voted_for n = c))
     \<and> (rn_voted_for n \<noteq> [] \<longrightarrow> V (rn_term n, i) = Some (rn_voted_for n))"

lemma node_okD: "node_ok V i n \<Longrightarrow> V (t, i) = Some c \<Longrightarrow> c \<noteq> [] \<and> t \<le> rn_term n \<and> (t = rn_term n \<longrightarrow> rn_voted_for n = c)"
  unfolding node_ok_def by blast

lemma node_ok_vote:
  assumes "node_ok V i n" and "rn_term n \<le> t" and "rn_term n' = t" and "rn_voted_for n' = c" and "c \<noteq> []"
  shows "node_ok (V((t, i) \<mapsto> c)) i n'"
  unfolding node_ok_def
proof (intro conjI allI impI)
  fix u d assume d: "(V((t, i) \<mapsto> c)) (u, i) = Some d"
  show "d \<noteq> []" "u \<le> rn_term n'" "u = rn_term n' \<Longrightarrow> rn_voted_for n' = d"
    using d assms node_okD [OF assms(1), of u d] by (auto split: if_split_asm)
qed (use assms in auto)

lemma node_ok_other: "j \<noteq> i \<Longrightarrow> node_ok (V((t, i) \<mapsto> c)) j n = node_ok V j n"
  by (simp add: node_ok_def)

definition quorum_voted :: "string list \<Rightarrow> (nat \<times> string \<rightharpoonup> string) \<Rightarrow> nat \<Rightarrow> string \<Rightarrow> bool" where
  "quorum_voted M V t i \<longleftrightarrow> (\<exists>Q. Q \<subseteq> set M \<and> length M div 2 < card Q \<and> (\<forall>p \<in> Q. V (t, p) = Some i))"

definition election_ok :: "string list \<Rightarrow> (nat \<times> string \<rightharpoonup> string) \<Rightarrow> election \<Rightarrow> bool" where
  "election_ok M V e \<longleftrightarrow> el_node e \<in> set M \<and> V (el_term e, el_node e) = Some (el_node e)
     \<and> distinct (el_node e # (case el_reply e of None \<Rightarrow> [] | Some (p, _) \<Rightarrow> [p]) @ el_granted e @ el_pending e)
     \<and> set (el_granted e @ el_pending e) \<subseteq> set M
     \<and> (\<forall>p \<in> set (el_granted e). V (el_term e, p) = Some (el_node e))
     \<and> (case el_reply e of None \<Rightarrow> True | Some (p, t, granted) \<Rightarrow> p \<in> set M \<and> (granted \<longrightarrow> V (el_term e, p) = Some (el_node e)))"

definition raft_inv :: "string list \<Rightarrow> raft_cluster \<Rightarrow> bool" where
  "raft_inv M s \<longleftrightarrow> (\<forall>i. rn_id (cl_nodes s i) = i \<and> rn_members (cl_nodes s i) = M \<and> node_ok (cl_votes s) i (cl_nodes s i)
       \<and> (rn_role (cl_nodes s i) = Leader \<longrightarrow> quorum_voted M (cl_votes s) (rn_term (cl_nodes s i)) i))
     \<and> (\<forall>e \<in> set (cl_elections s). election_ok M (cl_votes s) e)"

lemma map_le_Some: "map_le V V' \<Longrightarrow> V x = Some y \<Longrightarrow> V' x = Some y"
  by (metis domI map_le_def)

lemma quorum_mono: "map_le V V' \<Longrightarrow> quorum_voted M V t i \<Longrightarrow> quorum_voted M V' t i"
  unfolding quorum_voted_def using map_le_Some by meson

lemma election_mono: "map_le V V' \<Longrightarrow> election_ok M V e \<Longrightarrow> election_ok M V' e"
  unfolding election_ok_def using map_le_Some [of V V'] by (auto split: option.split_asm)

lemma node_ok_quiet: "node_ok V i n \<Longrightarrow> quiet n n' \<Longrightarrow> node_ok V i n'"
  unfolding node_ok_def quiet_def by (elim conjE disjE) force+

lemma raft_inv_quiet:
  assumes "raft_inv M s" and "quiet (cl_nodes s i) n" and "\<forall>e \<in> set es. election_ok M (cl_votes s) e"
  shows "raft_inv M ((set_node i n s)\<lparr>cl_elections := es\<rparr>)"
proof -
  have "rn_role n = Leader \<longrightarrow> quorum_voted M (cl_votes s) (rn_term n) i"
    using assms(1,2) by (auto simp: raft_inv_def quiet_def)
  moreover have "node_ok (cl_votes s) i (cl_nodes s i)" using assms(1) by (auto simp: raft_inv_def)
  then have "node_ok (cl_votes s) i n" using assms(2) by (rule node_ok_quiet)
  ultimately show ?thesis using assms by (auto simp: raft_inv_def set_node_def quiet_def)
qed

lemma quorums_meet:
  assumes "quorum_voted M V t i" and "quorum_voted M V t j"
  shows "i = j"
proof -
  obtain Q R where q: "Q \<subseteq> set M" "length M div 2 < card Q" "\<forall>p \<in> Q. V (t, p) = Some i"
    and r: "R \<subseteq> set M" "length M div 2 < card R" "\<forall>p \<in> R. V (t, p) = Some j"
    using assms unfolding quorum_voted_def by blast
  have "Q \<inter> R \<noteq> {}"
  proof
    assume "Q \<inter> R = {}"
    then have "card (Q \<union> R) = card Q + card R" using q r by (simp add: card_Un_disjoint finite_subset)
    moreover have "card (Q \<union> R) \<le> length M" using q r by (meson List.finite_set Un_least card_length card_mono le_trans)
    ultimately show False using q r by linarith
  qed
  then show ?thesis using q(3) r(3) by fastforce
qed

lemma request_vote_cases:
  assumes "request_vote t c li lt n = ((t', granted), n')"
  obtains (refused) "\<not> granted" "quiet n n'"
  | (voted) "granted" "c \<in> set (rn_members n)" "rn_term n \<le> t" "rn_term n = t \<Longrightarrow> rn_voted_for n = [] \<or> rn_voted_for n = c"
      "rn_id n' = rn_id n" "rn_members n' = rn_members n" "rn_term n' = t" "rn_voted_for n' = c"
      "rn_role n' = Leader \<Longrightarrow> rn_term n = t \<and> rn_role n = Leader"
proof (cases "c \<notin> set (rn_members n) \<or> c = rn_id n \<or> t < rn_term n")
  case True
  then show thesis using assms refused by (auto simp: request_vote_def)
next
  case False
  define m where "m = (if t > rn_term n then stepped t None n else n)"
  have m: "rn_id m = rn_id n" "rn_members m = rn_members n" "rn_term m = t" "quiet n m" "rn_term n = t \<Longrightarrow> m = n"
    "rn_role m = Leader \<Longrightarrow> rn_term n = t \<and> rn_role n = Leader"
    using False quiet_stepped stepped_role [of n t None] by (auto simp: m_def split: if_split_asm)
  have r: "n' = (if granted then m\<lparr>rn_voted_for := c\<rparr> else m)" "granted \<Longrightarrow> rn_voted_for m = [] \<or> rn_voted_for m = c"
    using assms False by (auto simp: request_vote_def Let_def m_def [symmetric] split: if_split_asm)
  show thesis
  proof (cases granted)
    case True
    have n': "n' = m\<lparr>rn_voted_for := c\<rparr>" using r(1) True by simp
    have c: "c \<in> set (rn_members n)" "rn_term n \<le> t" using False by auto
    have old: "rn_term n = t \<Longrightarrow> rn_voted_for n = [] \<or> rn_voted_for n = c" using m(5) r(2) True by blast
    have lead: "rn_role n' = Leader \<Longrightarrow> rn_term n = t \<and> rn_role n = Leader" using m(6) n' by simp
    show thesis using voted [OF True c old _ _ _ _ lead] m(1-3) n' by simp
  qed (use m r refused in auto)
qed

lemma raft_inv_elect:
  assumes inv: "raft_inv M s" and M: "distinct M" "[] \<notin> set M" and i: "i \<in> set (rn_members (cl_nodes s i))"
    and st: "start_election (cl_nodes s i) = (n, e)"
  shows "raft_inv M ((set_node i n s)\<lparr>cl_elections := e # cl_elections s, cl_votes := (cl_votes s)((rn_term n, i) \<mapsto> i)\<rparr>)"
proof -
  let ?V = "(cl_votes s)((rn_term n, i) \<mapsto> i)"
  have node: "rn_id (cl_nodes s j) = j" "rn_members (cl_nodes s j) = M" "node_ok (cl_votes s) j (cl_nodes s j)"
    "rn_role (cl_nodes s j) = Leader \<longrightarrow> quorum_voted M (cl_votes s) (rn_term (cl_nodes s j)) j" for j
    using inv by (auto simp: raft_inv_def)
  have n: "rn_id n = i" "rn_members n = M" "rn_term n = rn_term (cl_nodes s i) + 1" "rn_voted_for n = i" "rn_role n = Candidate"
    and e: "el_node e = i" "el_term e = rn_term n" "el_pending e = filter (\<lambda>p. p \<noteq> i) M" "el_granted e = []" "el_reply e = None"
    using st node by (auto simp: start_election_def Let_def peers_def)
  have "cl_votes s (rn_term n, i) = None" using node_okD [OF node(3) [of i], of "rn_term n"] n(3) by (cases "cl_votes s (rn_term n, i)") auto
  then have le: "map_le (cl_votes s) ?V" by (auto simp: map_le_def)
  have im: "i \<in> set M" "i \<noteq> []" using i node M by auto
  have "node_ok ?V i n" using node_ok_vote [OF node(3) [of i]] n im by simp
  moreover have "node_ok ?V j (cl_nodes s j)" if "j \<noteq> i" for j using node(3) [of j] node_ok_other [OF that] by simp
  moreover have "election_ok M ?V e" using e n im M by (auto simp: election_ok_def)
  ultimately show ?thesis
    using inv node n quorum_mono [OF le] election_mono [OF le] by (auto simp: raft_inv_def set_node_def)
qed

lemma raft_inv_ask:
  assumes inv: "raft_inv M s" and M: "[] \<notin> set M" and e: "e \<in> set (cl_elections s)" "el_reply e = None" "el_pending e = p # ps"
    and rv: "request_vote (el_term e) (el_node e) (el_last_index e) (el_last_term e) (cl_nodes s p) = ((t, granted), n)"
    and es: "set es \<subseteq> insert (e\<lparr>el_pending := ps, el_reply := Some (p, t, granted)\<rparr>) (set (cl_elections s))"
  shows "raft_inv M ((set_node p n s)\<lparr>cl_elections := es,
      cl_votes := (if granted then (cl_votes s)((el_term e, p) \<mapsto> el_node e) else cl_votes s)\<rparr>)"
proof -
  let ?V = "if granted then (cl_votes s)((el_term e, p) \<mapsto> el_node e) else cl_votes s"
  have node: "rn_id (cl_nodes s j) = j" "rn_members (cl_nodes s j) = M" "node_ok (cl_votes s) j (cl_nodes s j)"
    "rn_role (cl_nodes s j) = Leader \<longrightarrow> quorum_voted M (cl_votes s) (rn_term (cl_nodes s j)) j" for j
    using inv by (auto simp: raft_inv_def)
  have ok: "election_ok M (cl_votes s) e" using inv e(1) by (auto simp: raft_inv_def)
  have new: "election_ok M ?V (e\<lparr>el_pending := ps, el_reply := Some (p, t, granted)\<rparr>)" if "map_le (cl_votes s) ?V"
    using election_mono [OF that ok] e by (auto simp: election_ok_def)
  from rv show ?thesis
  proof (cases rule: request_vote_cases)
    case refused
    then have "\<forall>e \<in> set es. election_ok M (cl_votes s) e" using new es inv by (auto simp: raft_inv_def)
    then show ?thesis using raft_inv_quiet [OF inv refused(2)] refused(1) by (simp add: set_node_def)
  next
    case voted
    have same: "cl_votes s (el_term e, p) = Some c \<Longrightarrow> c = el_node e" for c
      using node_okD [OF node(3) [of p], of "el_term e" c] voted(3,4) by auto
    then have le: "map_le (cl_votes s) ?V" using voted(1) by (auto simp: map_le_def)
    have "el_node e \<noteq> []" using voted(2) node(2) M by auto
    then have "node_ok ?V p n" using node_ok_vote [OF node(3) [of p] voted(3) voted(7,8)] voted(1) by simp
    moreover have "node_ok ?V j (cl_nodes s j)" if "j \<noteq> p" for j using node(3) [of j] node_ok_other [OF that] by simp
    moreover have "rn_role n = Leader \<longrightarrow> quorum_voted M ?V (rn_term n) p"
      using voted(7,9) node(4) [of p] quorum_mono [OF le] by auto
    moreover have "\<forall>e \<in> set es. election_ok M ?V e"
      using new [OF le] es inv election_mono [OF le] by (auto simp: raft_inv_def)
    ultimately show ?thesis using node voted quorum_mono [OF le] by (auto simp: raft_inv_def set_node_def)
  qed
qed

lemma raft_inv_lead:
  assumes inv: "raft_inv M s" and e: "e \<in> set (cl_elections s)" and n: "n = cl_nodes s (el_node e)" "enough_votes e n" "rn_term n = el_term e"
    and es: "set es \<subseteq> set (cl_elections s)"
  shows "raft_inv M ((set_node (el_node e) (become_leader n) s)\<lparr>cl_elections := es\<rparr>)"
proof -
  have ok: "election_ok M (cl_votes s) e" using inv e by (auto simp: raft_inv_def)
  have "card (set (el_node e # el_granted e)) = 1 + length (el_granted e)"
    using ok unfolding election_ok_def by (subst distinct_card) auto
  moreover have "length M div 2 < 1 + length (el_granted e)"
    using n inv by (simp add: enough_votes_def raft_inv_def)
  ultimately have "quorum_voted M (cl_votes s) (rn_term n) (el_node e)"
    using ok n(3) unfolding quorum_voted_def election_ok_def by (intro exI [of _ "set (el_node e # el_granted e)"]) auto
  then show ?thesis
    using inv es n(1) by (auto simp: raft_inv_def set_node_def become_leader_def node_ok_def)
qed

lemma raft_inv_step:
  assumes "raft_step H True s s'" and "raft_inv M s" and M: "distinct M" "[] \<notin> set M"
  shows "raft_inv M s'"
  using assms(1)
proof cases
  case (elect i n e)
  then show ?thesis using raft_inv_elect assms by blast
next
  case (ask k e p ps t granted n)
  have "set ((cl_elections s)[k := e\<lparr>el_pending := ps, el_reply := Some (p, t, granted)\<rparr>])
      \<subseteq> insert (e\<lparr>el_pending := ps, el_reply := Some (p, t, granted)\<rparr>) (set (cl_elections s))"
    by (rule set_update_subset_insert)
  then show ?thesis using raft_inv_ask [OF assms(2) M(2)] ask by simp
next
  case (lost k e p ps)
  have "election_ok M (cl_votes s) e" using assms(2) lost by (auto simp: raft_inv_def)
  then have "election_ok M (cl_votes s) (e\<lparr>el_pending := ps\<rparr>)" using lost by (auto simp: election_ok_def)
  then show ?thesis
    using assms(2) lost set_update_subset_insert [of "cl_elections s" k "e\<lparr>el_pending := ps\<rparr>"] by (auto simp: raft_inv_def)
next
  case (count k e reply e' n)
  obtain p t g where r: "reply = (p, t, g)" by (cases reply)
  have "election_ok M (cl_votes s) e" using assms(2) count by (auto simp: raft_inv_def)
  moreover have "e' = e\<lparr>el_reply := None, el_granted := (if g then p # el_granted e else el_granted e)\<rparr>"
    using count r by (auto simp: count_vote_def split: if_split_asm)
  ultimately have "election_ok M (cl_votes s) e'" using count(4) r by (auto simp: election_ok_def)
  then have "\<forall>e \<in> set ((cl_elections s)[k := e']). election_ok M (cl_votes s) e"
    using assms(2) set_update_subset_insert [of "cl_elections s" k e'] by (auto simp: raft_inv_def)
  then show ?thesis using count raft_inv_quiet [OF assms(2) quiet_count] by simp
next
  case (withdraw k e reply n)
  have "\<forall>e \<in> set (take k (cl_elections s) @ drop (Suc k) (cl_elections s)). election_ok M (cl_votes s) e"
    using assms(2) by (auto simp: raft_inv_def dest: in_set_takeD in_set_dropD)
  then show ?thesis using withdraw raft_inv_quiet [OF assms(2) quiet_count] by simp
next
  case (lead k e n)
  have "set (take k (cl_elections s) @ drop (Suc k) (cl_elections s)) \<subseteq> set (cl_elections s)"
    by (auto dest: in_set_takeD in_set_dropD)
  then show ?thesis using lead raft_inv_lead [OF assms(2)] by simp
next
  case (crash_electing i n)
  have "quiet (cl_nodes s i) n" using crash_electing quiet_restart quiet_stepped quiet_trans by blast
  then show ?thesis using crash_electing raft_inv_quiet [OF assms(2), of i n "cl_elections s"] assms(2)
    by (simp add: raft_inv_def set_node_def)
next
  case (append t leader prev_index prev_term entries leader_commit i r n)
  then show ?thesis using raft_inv_quiet [OF assms(2), of i n "cl_elections s"] assms(2) quiet_append
    by (simp add: raft_inv_def set_node_def)
next
  case (appended t j p reply i again n)
  then show ?thesis using raft_inv_quiet [OF assms(2), of i n "cl_elections s"] assms(2) quiet_handle
    by (simp add: raft_inv_def set_node_def)
next
  case (propose c i r n)
  then show ?thesis using raft_inv_quiet [OF assms(2), of i n "cl_elections s"] assms(2) quiet_propose
    by (simp add: raft_inv_def set_node_def)
next
  case (commit position i r' n)
  then show ?thesis using raft_inv_quiet [OF assms(2), of i n "cl_elections s"] assms(2) quiet_commit
    by (simp add: raft_inv_def set_node_def)
next
  case (crash i n)
  then show ?thesis using raft_inv_quiet [OF assms(2), of i n "cl_elections s"] assms(2) quiet_restart
    by (simp add: raft_inv_def set_node_def)
qed

lemma raft_inv_fresh: "raft_inv M (fresh_cluster M)"
  by (simp add: raft_inv_def fresh_cluster_def fresh_node_def node_ok_def)

lemma raft_inv_reachable:
  assumes "(raft_step H True)\<^sup>*\<^sup>* (fresh_cluster M) s" and "distinct M" and "[] \<notin> set M"
  shows "raft_inv M s"
  using assms(1) by (induction rule: rtranclp_induct) (use raft_inv_fresh raft_inv_step assms in blast)+

subsection \<open>The replicated state machine is a consumption store\<close>

definition raft_spent :: "string \<Rightarrow> (string \<times> string \<rightharpoonup> string \<times> int) \<Rightarrow> string \<Rightarrow> (string \<times> int) option" where
  "raft_spent scope t i = t (scope, i)"

text \<open>The answer \<open>propose\<close> gives for a command that is applied to the table.\<close>

definition raft_consume :: "string \<Rightarrow> consumption \<Rightarrow> (string \<times> string \<rightharpoonup> string \<times> int) \<Rightarrow> bool res \<times> (string \<times> string \<rightharpoonup> string \<times> int)" where
  "raft_consume scope c t = (case apply_command (Consume scope c) t of
     Inl e \<Rightarrow> (Inl e, t)
   | Inr (result, t') \<Rightarrow> (propose_answer result, t'))"

lemma propose_answer_simps [simp]:
  "propose_answer ''fresh'' = Inr True" "propose_answer ''duplicate'' = Inr False"
  "propose_answer ''collision'' = Inl (CapabilityConsumptionError ''capability ID collided with different signed claims'')"
  by (simp_all add: propose_answer_def)

lemma raft_consume_eq:
  "raft_consume scope c t = (case validate_transition c of
     Inl e \<Rightarrow> (Inl e, t)
   | Inr _ \<Rightarrow> if \<not> fits_int64 (int_of (cn_expires_at c)) then (Inl (ExternalError ''OverflowError''), t)
       else (case t (scope, cn_id c) of
         None \<Rightarrow> (Inr True, t((scope, cn_id c) \<mapsto> cn_claim c))
       | Some known \<Rightarrow> (if known \<noteq> cn_claim c then propose_answer ''collision'' else Inr False, t)))"
  by (simp add: raft_consume_def apply_command_def consume_result_def checkE_def Let_def split: sum.split option.split)

lemma raft_consume_cases:
  assumes "raft_consume scope c t = (r, t')"
  obtains (refused) e where "r = Inl e" "t' = t"
  | (fresh) "t (scope, cn_id c) = None" "r = Inr True" "t' = t((scope, cn_id c) \<mapsto> cn_claim c)"
  | (known) "t (scope, cn_id c) = Some (cn_claim c)" "r = Inr False" "t' = t"
proof (cases "validate_transition c")
  case (Inl e)
  then have "r = Inl e" "t' = t" using assms unfolding raft_consume_eq by auto
  then show thesis by (rule refused)
next
  case (Inr u)
  show thesis
  proof (cases "t (scope, cn_id c)")
    case None
    then have "\<exists>e. r = Inl e \<and> t' = t \<or> r = Inr True \<and> t' = t((scope, cn_id c) \<mapsto> cn_claim c)"
      using assms Inr unfolding raft_consume_eq by (auto split: if_split_asm)
    then show thesis using refused fresh None by blast
  next
    case (Some k)
    then have "\<exists>e. t' = t \<and> (r = Inl e \<or> r = Inr False \<and> k = cn_claim c)"
      using assms Inr unfolding raft_consume_eq by (auto split: if_split_asm)
    then show thesis using refused known Some by blast
  qed
qed

interpretation raft: consumption_store "\<lambda>_::unit. raft_consume scope" "raft_spent scope" for scope
  by unfold_locales (auto simp: raft_spent_def elim!: raft_consume_cases)

lemma replay_append:
  "replay (xs @ ys) t = bindE (replay xs t) (\<lambda>(rs, t'). bindE (replay ys t') (\<lambda>(rs', t''). Inr (rs @ rs', t'')))"
proof (induction xs arbitrary: t)
  case Nil
  then show ?case by (cases "replay ys t") auto
next
  case (Cons x xs)
  obtain k c where x: "x = (k, c)" by (cases x)
  show ?case
    using Cons by (cases "apply_command c t"; cases "replay xs (snd (projr (apply_command c t)))";
      cases "replay ys (snd (projr (replay xs (snd (projr (apply_command c t))))))") (auto simp: x)
qed

lemma replay_length: "replay xs t = Inr (rs, t') \<Longrightarrow> length rs = length xs"
  by (induction xs arbitrary: t rs t') (auto simp: bindE_Inr_iff)

text \<open>The table and the recorded results of a node are the replay of the applied prefix of its log.\<close>

definition replica_ok :: "raft_node \<Rightarrow> bool" where
  "replica_ok n \<longleftrightarrow> rn_applied n \<le> rn_commit n \<and> rn_commit n \<le> length (rn_log n)
     \<and> (\<exists>rs. replay (take (rn_applied n) (rn_log n)) Map.empty = Inr (rs, rn_consumed n)
         \<and> rn_results n = (\<lambda>i. if 1 \<le> i \<and> i \<le> rn_applied n then Some (rs ! (i - 1)) else None))"

lemma replica_ok_cong:
  assumes "replica_ok n" and "rn_applied n' = rn_applied n" and "rn_commit n \<le> rn_commit n'" and "rn_commit n' \<le> length (rn_log n')"
    and "take (rn_commit n) (rn_log n') = take (rn_commit n) (rn_log n)" and "rn_consumed n' = rn_consumed n" and "rn_results n' = rn_results n"
  shows "replica_ok n'"
proof -
  have "take (rn_applied n) (rn_log n') = take (rn_applied n) (rn_log n)"
    using assms(1,5) unfolding replica_ok_def by (metis min.absorb1 take_take)
  then show ?thesis using assms unfolding replica_ok_def by auto
qed

lemma replica_ok_apply_one:
  assumes "replica_ok n" and "apply_one n = Inr n'" and "rn_applied n < rn_commit n"
  shows "replica_ok n'"
proof -
  obtain rs where rs: "replay (take (rn_applied n) (rn_log n)) Map.empty = Inr (rs, rn_consumed n)"
    "rn_results n = (\<lambda>i. if 1 \<le> i \<and> i \<le> rn_applied n then Some (rs ! (i - 1)) else None)"
    and le: "rn_applied n < length (rn_log n)" using assms(1,3) by (auto simp: replica_ok_def)
  obtain t c where tc: "rn_log n ! rn_applied n = (t, c)" by (cases "rn_log n ! rn_applied n")
  obtain r u where ru: "apply_command c (rn_consumed n) = Inr (r, u)" and n': "n' = n\<lparr>rn_consumed := u,
      rn_results := (rn_results n)(rn_applied n + 1 \<mapsto> r), rn_applied := rn_applied n + 1\<rparr>"
    using assms(2) le tc rs(2) by (auto simp: apply_one_def entry_at_def Let_def bindE_Inr_iff)
  have len: "length rs = rn_applied n" using replay_length [OF rs(1)] le by simp
  have "replay (take (rn_applied n + 1) (rn_log n)) Map.empty = Inr (rs @ [r], u)"
    using rs(1) ru le tc by (simp add: take_Suc_conv_app_nth replay_append)
  moreover have "rn_results n' = (\<lambda>i. if 1 \<le> i \<and> i \<le> rn_applied n + 1 then Some ((rs @ [r]) ! (i - 1)) else None)"
    using len by (auto simp: n' rs(2) fun_eq_iff nth_append)
  ultimately show ?thesis using assms(1,3) unfolding replica_ok_def n' by auto
qed

lemma replica_ok_apply: "apply_committed n = Inr n' \<Longrightarrow> replica_ok n \<Longrightarrow> replica_ok n'"
  by (induction rule: apply_committed_induct) (auto dest: replica_ok_apply_one)

lemma replica_ok_frame [simp]:
  "replica_ok (n\<lparr>rn_role := x\<rparr>) = replica_ok n" "replica_ok (n\<lparr>rn_leader := l\<rparr>) = replica_ok n"
  "replica_ok (n\<lparr>rn_voted_for := v\<rparr>) = replica_ok n" "replica_ok (n\<lparr>rn_term := t\<rparr>) = replica_ok n"
  "replica_ok (n\<lparr>rn_next := m\<rparr>) = replica_ok n" "replica_ok (n\<lparr>rn_match := m\<rparr>) = replica_ok n"
  by (simp_all add: replica_ok_def)

lemma replica_ok_stepped [simp]: "replica_ok (stepped t l n) = replica_ok n"
  by (simp add: stepped_def step_down_def)

lemma store_entries_prefix:
  assumes "store_entries H commit es l = Inr l'" and "commit \<le> length l" and "contiguous p es" and "p \<le> length l"
  shows "take commit l' = take commit l \<and> commit \<le> length l'"
  using assms
proof (induction es arbitrary: l p)
  case (Cons e es)
  obtain i t c where e: "e = (i, t, c)" by (cases e)
  have i: "i = p + 1" "contiguous i es" using Cons.prems(3) e by auto
  show ?case
  proof (cases "i \<le> length l")
    case True
    then have at: "entry_at l i = Some (l ! (i - 1))" using i by (simp add: entry_at_def)
    show ?thesis
    proof (cases "l ! (i - 1) = (t, c)")
      case True
      then show ?thesis using Cons.IH [of l i] Cons.prems(1,2) \<open>i \<le> length l\<close> at i e by simp
    next
      case False
      then have c: "commit < i" and s: "store_entries H commit es (take (i - 1) l @ [(t, c)]) = Inr l'"
        using Cons.prems(1) at e by (auto simp: bindE_Inr_iff split: if_split_asm)
      have "length (take (i - 1) l @ [(t, c)]) = i" using i True by simp
      moreover have "take commit (take (i - 1) l @ [(t, c)]) = take commit l" using c True i by (simp add: min_def)
      ultimately show ?thesis using Cons.IH [OF s _ i(2)] c by simp
    qed
  next
    case False
    then have "store_entries H commit es (l @ [(t, c)]) = Inr l'" and len: "length (l @ [(t, c)]) = i"
      using Cons.prems(1,4) e i by (auto simp: entry_at_def bindE_Inr_iff)
    then show ?thesis using Cons.IH [of "l @ [(t, c)]" i] Cons.prems(2) i by simp
  qed
qed simp

lemma replica_ok_append:
  assumes "append_entries H t leader pi pt es lc n = (r, n')" and ok: "replica_ok n"
  shows "replica_ok n'"
  using assms(1)
proof (cases rule: append_cases)
  case (stored n1 l c)
  have n1: "replica_ok n1" using stored(1) ok by auto
  have "pi \<le> length (rn_log n1)" using stored(6) by (auto simp: entry_at_def split: if_split_asm)
  then have l: "take (rn_commit n1) l = take (rn_commit n1) (rn_log n1)" "rn_commit n1 \<le> length l"
    using store_entries_prefix [OF stored(3) _ stored(2)] n1 by (auto simp: replica_ok_def)
  have "replica_ok (n1\<lparr>rn_log := l, rn_commit := c\<rparr>)"
    by (rule replica_ok_cong [OF n1]) (use l stored(5) in auto)
  then show ?thesis using replica_ok_apply [OF stored(4)] by blast
qed (use ok in auto)

lemma apply_committed_bound: "apply_committed n = Inr n' \<Longrightarrow> rn_applied n < rn_commit n \<Longrightarrow> rn_commit n \<le> length (rn_log n)"
proof (induction rule: apply_committed_induct)
  case (step n n1 n')
  have "rn_applied n < length (rn_log n)"
    using step(2) by (auto simp: apply_one_def entry_at_def Let_def split: if_split_asm)
  then show ?case using step apply_one_indices [OF step(2)] apply_one_frame [OF step(2)]
    by (cases "rn_applied n1 < rn_commit n1") (auto simp: same_frame_def)
qed simp

lemma replica_ok_commit:
  assumes "propose_commit p n = (r, n')" and ok: "replica_ok n" and p: "rn_commit n \<le> p"
  shows "replica_ok n'"
proof -
  have taken: "replica_ok n2" if a: "apply_committed (n\<lparr>rn_commit := p\<rparr>) = Inr n2" for n2
  proof -
    have "p \<le> length (rn_log n)" using apply_committed_bound [OF a] ok p by (cases "rn_applied n < p") (auto simp: replica_ok_def)
    then have "replica_ok (n\<lparr>rn_commit := p\<rparr>)" using ok p by (auto simp: replica_ok_def)
    then show ?thesis using replica_ok_apply [OF a] by blast
  qed
  show ?thesis using assms(1) ok taken by (auto simp: propose_commit_def split: if_split_asm sum.split_asm)
qed

lemma replica_ok_propose: "propose_append H c n = (r, n') \<Longrightarrow> replica_ok n \<Longrightarrow> replica_ok n'"
  by (auto simp: propose_append_def replica_ok_def split: command.split_asm if_split_asm sum.split_asm)

lemma replica_ok_restart: "restart n = Inr n' \<Longrightarrow> replica_ok n \<Longrightarrow> replica_ok n'"
  by (auto simp: restart_def split: if_split_asm elim: replica_ok_apply)

lemma replica_ok_step: "node_step H True n n' \<Longrightarrow> replica_ok n \<Longrightarrow> replica_ok n'"
proof (induction rule: node_step.induct)
  case (vote t candidate li lt n answer n')
  then show ?case by (auto simp: request_vote_def Let_def split: if_split_asm)
next
  case (campaign n n' e)
  then show ?case by (auto simp: start_election_def Let_def)
next
  case (hear reply e n e' n')
  then show ?case by (auto simp: count_vote_def split: prod.split_asm if_split_asm)
next
  case (win n)
  then show ?case by (simp add: become_leader_def)
next
  case (answered t j p reply n again n')
  then show ?case by (auto simp: handle_append_def split: prod.split_asm if_split_asm)
next
  case (receive t leader prev_index prev_term entries leader_commit n r n')
  then show ?case by (rule replica_ok_append)
next
  case (begin_proposal c n position n')
  then show ?case by (rule replica_ok_propose)
next
  case (settle position n result n')
  show ?case by (rule replica_ok_commit [OF settle(1,3) settle(2) [OF TrueI]])
next
  case (reboot n n')
  then show ?case by (rule replica_ok_restart)
qed

lemma replica_ok_reachable: "(node_step H True)\<^sup>*\<^sup>* (fresh_node M i) n \<Longrightarrow> replica_ok n"
  by (induction rule: rtranclp_induct) (auto simp: fresh_node_def replica_ok_def dest: replica_ok_step)

lemma apply_command_known:
  assumes "apply_command c t = Inr (r, t')" and "t k \<noteq> None"
  shows "t' k \<noteq> None" and "\<And>scope x. c = Consume scope x \<Longrightarrow> k = (scope, cn_id x) \<Longrightarrow> r \<noteq> ''fresh''"
  using assms by (auto simp: apply_command_def consume_result_def Let_def bindE_Inr_iff split: command.split_asm option.split_asm if_split_asm)

lemma apply_command_fresh:
  assumes "apply_command (Consume scope x) t = Inr (''fresh'', t')"
  shows "t' (scope, cn_id x) \<noteq> None"
  using assms by (auto simp: apply_command_def consume_result_def Let_def bindE_Inr_iff split: option.split_asm if_split_asm)

lemma replay_known:
  assumes "replay es t = Inr (rs, t')" and "t (scope, cn_id x) \<noteq> None" and "k < length es" and "snd (es ! k) = Consume scope x"
  shows "rs ! k \<noteq> ''fresh''"
  using assms
proof (induction es arbitrary: t rs k)
  case (Cons e es)
  obtain n c where e: "e = (n, c)" by (cases e)
  then obtain r t1 rs1 where r: "apply_command c t = Inr (r, t1)" "replay es t1 = Inr (rs1, t')" "rs = r # rs1"
    using Cons.prems(1) by (auto simp: bindE_Inr_iff)
  show ?case
  proof (cases k)
    case 0
    then show ?thesis using apply_command_known(2) [OF r(1) Cons.prems(2)] Cons.prems(4) e r(3) by simp
  next
    case (Suc j)
    then show ?thesis
      using Cons.IH [OF r(2) apply_command_known(1) [OF r(1) Cons.prems(2)], of j] Cons.prems(3,4) r(3) by simp
  qed
qed simp

lemma replay_fresh_once:
  assumes "replay es t = Inr (rs, t')" and "j < k" and "k < length es"
    and "snd (es ! j) = Consume scope x" and "snd (es ! k) = Consume scope y" and "cn_id x = cn_id y" and "rs ! j = ''fresh''"
  shows "rs ! k \<noteq> ''fresh''"
  using assms
proof (induction es arbitrary: t rs j k)
  case (Cons e es)
  obtain n c where e: "e = (n, c)" by (cases e)
  then obtain r t1 rs1 where r: "apply_command c t = Inr (r, t1)" "replay es t1 = Inr (rs1, t')" "rs = r # rs1"
    using Cons.prems(1) by (auto simp: bindE_Inr_iff)
  obtain k1 where k: "k = Suc k1" using Cons.prems(2) by (cases k) auto
  show ?case
  proof (cases j)
    case 0
    then have "t1 (scope, cn_id y) \<noteq> None" using apply_command_fresh [of scope x t t1] r Cons.prems(4,6,7) e by simp
    then show ?thesis using replay_known [OF r(2)] Cons.prems(3,5) k r(3) by simp
  next
    case (Suc i)
    then show ?thesis using Cons.IH [OF r(2), of i k1] Cons.prems k r(3) by simp
  qed
qed simp

lemma checkpoint_entries_cong:
  assumes "\<And>i. i \<in> set is \<Longrightarrow> entry_at (rn_log n) i = entry_at (rn_log m) i \<and> rn_results n i = rn_results m i"
  shows "checkpoint_entries n is = checkpoint_entries m is"
  using assms by (induction "is") (auto split: option.split)

lemma entry_at_take: "i \<le> k \<Longrightarrow> k \<le> length l \<Longrightarrow> entry_at (take k l) i = entry_at l i"
  by (simp add: entry_at_def)

lemma replicas_agree:
  assumes "replica_ok n" and "replica_ok m" and "rn_applied n = rn_applied m"
    and "take (rn_applied n) (rn_log n) = take (rn_applied n) (rn_log m)"
  shows "rn_results n = rn_results m" and "rn_consumed n = rn_consumed m"
  using assms by (auto simp: replica_ok_def)

text \<open>Two replicas that have applied the same committed prefix have the same checkpoint.\<close>

lemma same_checkpoint:
  assumes ok: "replica_ok n" "replica_ok m" and up: "rn_applied n = rn_commit n" "rn_applied m = rn_commit m" "rn_commit n = rn_commit m"
    and log: "take (rn_commit n) (rn_log n) = take (rn_commit n) (rn_log m)" and "rn_members n = rn_members m"
  shows "committed_checkpoint H n = committed_checkpoint H m"
proof -
  have "entry_at (rn_log n) i = entry_at (rn_log m) i" if "i \<in> set [1 ..< rn_commit n + 1]" for i
    using entry_at_take [of i "rn_commit n" "rn_log n"] entry_at_take [of i "rn_commit n" "rn_log m"] that ok up log
    by (auto simp: replica_ok_def)
  moreover have "rn_results n = rn_results m" using replicas_agree(1) ok up log by metis
  ultimately have "checkpoint_entries n [1 ..< rn_commit n + 1] = checkpoint_entries m [1 ..< rn_commit n + 1]"
    using checkpoint_entries_cong by metis
  then show ?thesis using assms by (simp add: committed_checkpoint_def)
qed

text \<open>The scopes of two stores are the same only when namespace and domain are.\<close>

lemma research_scope_inj:
  assumes "research_scope a b = Inr s" and "research_scope c d = Inr s"
  shows "a = c \<and> b = d"
proof -
  have "a @ CHR '':'' # b = c @ CHR '':'' # d" "CHR '':'' \<notin> set a" "CHR '':'' \<notin> set c"
    using assms by (auto simp: research_scope_def split: if_split_asm)
  then show ?thesis by (auto simp: append_eq_append_conv2 Cons_eq_append_conv append_eq_Cons_conv)
qed

subsection \<open>Backtracking of the replication\<close>

definition accepts_leader :: "raft_node \<Rightarrow> raft_node \<Rightarrow> bool" where
  "accepts_leader l peer \<longleftrightarrow> rn_id l \<in> set (rn_members peer) \<and> rn_id l \<noteq> rn_id peer"

lemma append_keeps_identity:
  assumes "append_entries H t leader pi pt es lc n = (r, n')"
  shows "rn_id n' = rn_id n" "rn_members n' = rn_members n"
  using quiet_append [OF assms] by (auto simp: quiet_def)

lemma append_reply:
  assumes "append_entries H t leader pi pt es lc n = (Inr (t', ok, m), n')"
    and "leader \<in> set (rn_members n)" and "leader \<noteq> rn_id n" and "t' \<le> t"
  shows "(ok \<longrightarrow> m = pi + length es) \<and> (\<not> ok \<longrightarrow> map_option fst (entry_at (rn_log n) pi) \<noteq> Some pt)"
proof (cases "t < rn_term n")
  case True
  then show ?thesis using assms(1,4) by (auto simp: append_entries_def)
next
  case False
  have log: "rn_log (if t > rn_term n \<or> rn_role n \<noteq> Follower then stepped t (Some leader) n else n\<lparr>rn_leader := Some leader\<rparr>) = rn_log n"
    by simp
  show ?thesis
    using assms(1-3) False unfolding append_entries_def Let_def log
    by (auto split: if_split_asm sum.split_asm)
qed

lemma replicate_rounds_end:
  assumes "replicate_rounds H k (\<lambda>_. False) p (l, peer) = (Inr (), l', peer')" and "rn_role l = Leader" and "accepts_leader l peer"
    and "1 \<le> next_index l p" and "next_index l p \<le> last_index l + 1" and "next_index l p \<le> k"
  shows "rn_role l' \<noteq> Leader \<or> rn_match l' p = Some (last_index l)"
  using assms
proof (induction k arbitrary: l peer)
  case (Suc k)
  let ?i = "next_index l p"
  have "entry_at (rn_log l) (?i - 1) \<noteq> None" using Suc.prems(5) by (auto simp: entry_at_def last_index_def)
  then obtain prev where prev: "entry_at (rn_log l) (?i - 1) = Some prev" by blast
  obtain t ok m peer1 where send: "send_append H l p peer = (Inr (t, ok, m), peer1)"
    and rest: "(case handle_append (rn_term l) ?i p (t, ok, m) l of
      (again, l1) \<Rightarrow> if again then replicate_rounds H k (\<lambda>_. False) p (l1, peer1) else (Inr (), l1, peer1)) = (Inr (), l', peer')"
    using Suc.prems(1,2) by (auto split: prod.split_asm sum.split_asm)
  have app: "append_entries H (rn_term l) (rn_id l) (?i - 1) (fst prev) (outgoing l ?i) (rn_commit l) peer = (Inr (t, ok, m), peer1)"
    using send prev by (simp add: send_append_def Let_def)
  have len: "?i - 1 + length (outgoing l ?i) = last_index l" using Suc.prems(4,5) by (auto simp: outgoing_def)
  show ?case
  proof (cases "t > rn_term l")
    case True
    then have "l' = stepped t None l" using rest by (simp add: handle_append_def)
    then show ?thesis using True stepped_role by simp
  next
    case False
    have reply: "(ok \<longrightarrow> m = last_index l) \<and> (\<not> ok \<longrightarrow> map_option fst (entry_at (rn_log peer) (?i - 1)) \<noteq> Some (fst prev))"
      using append_reply [OF app] Suc.prems(3) False len by (auto simp: accepts_leader_def)
    show ?thesis
    proof (cases ok)
      case True
      then show ?thesis using rest reply False Suc.prems(2) by (auto simp: handle_append_def)
    next
      case rejected: False
      then have i: "1 < ?i" using reply prev Suc.prems(4) by (cases "?i = 1") (auto simp: entry_at_def)
      let ?l = "l\<lparr>rn_next := (rn_next l)(p \<mapsto> ?i - 1)\<rparr>"
      have again: "replicate_rounds H k (\<lambda>_. False) p (?l, peer1) = (Inr (), l', peer')"
        using rest rejected False Suc.prems(2) i by (simp add: handle_append_def)
      have "next_index ?l p = ?i - 1" "last_index ?l = last_index l" by (simp_all add: next_index_def last_index_def)
      moreover have "accepts_leader ?l peer1" using Suc.prems(3) append_keeps_identity [OF app] by (simp add: accepts_leader_def)
      ultimately show ?thesis using Suc.IH [OF again] Suc.prems(2,5,6) i by simp
    qed
  qed
qed simp

subsection \<open>Executable runs\<close>

datatype move = Elect string | Ask nat | Lose nat | Count nat | Lead nat

definition do_move :: "bool \<Rightarrow> move \<Rightarrow> raft_cluster \<Rightarrow> raft_cluster option" where
  "do_move timely m s = (let es = cl_elections s in case m of
     Elect i \<Rightarrow> if i \<in> set (rn_members (cl_nodes s i)) then (case start_election (cl_nodes s i) of (n, e) \<Rightarrow>
         Some ((set_node i n s)\<lparr>cl_elections := e # es, cl_votes := (cl_votes s)((rn_term n, i) \<mapsto> i)\<rparr>)) else None
   | Ask k \<Rightarrow> if k < length es \<and> el_reply (es ! k) = None then (case el_pending (es ! k) of [] \<Rightarrow> None | p # ps \<Rightarrow>
         (case request_vote (el_term (es ! k)) (el_node (es ! k)) (el_last_index (es ! k)) (el_last_term (es ! k)) (cl_nodes s p) of ((t, granted), n) \<Rightarrow>
           Some ((set_node p n s)\<lparr>cl_elections := es[k := (es ! k)\<lparr>el_pending := ps, el_reply := Some (p, t, granted)\<rparr>],
             cl_votes := (if granted then (cl_votes s)((el_term (es ! k), p) \<mapsto> el_node (es ! k)) else cl_votes s)\<rparr>))) else None
   | Lose k \<Rightarrow> if k < length es \<and> el_reply (es ! k) = None then (case el_pending (es ! k) of [] \<Rightarrow> None | p # ps \<Rightarrow>
         Some (s\<lparr>cl_elections := es[k := (es ! k)\<lparr>el_pending := ps\<rparr>]\<rparr>)) else None
   | Count k \<Rightarrow> if k < length es then (case el_reply (es ! k) of None \<Rightarrow> None | Some reply \<Rightarrow>
         (case count_vote reply (es ! k) (cl_nodes s (el_node (es ! k))) of (None, n) \<Rightarrow> None
           | (Some e', n) \<Rightarrow> Some ((set_node (el_node (es ! k)) n s)\<lparr>cl_elections := es[k := e']\<rparr>))) else None
   | Lead k \<Rightarrow> if k < length es \<and> el_reply (es ! k) = None \<and> el_pending (es ! k) = [] then
         (let n = cl_nodes s (el_node (es ! k)) in
          if enough_votes (es ! k) n \<and> (\<not> timely \<or> (rn_term n = el_term (es ! k) \<and> rn_role n = Candidate))
          then Some ((set_node (el_node (es ! k)) (become_leader n) s)\<lparr>cl_elections := take k es @ drop (Suc k) es\<rparr>) else None) else None)"

fun do_moves :: "bool \<Rightarrow> move list \<Rightarrow> raft_cluster \<Rightarrow> raft_cluster option" where
  "do_moves timely [] s = Some s"
| "do_moves timely (m # ms) s = (case do_move timely m s of None \<Rightarrow> None | Some s' \<Rightarrow> do_moves timely ms s')"

lemma do_move_step: "do_move timely m s = Some s' \<Longrightarrow> raft_step H timely s s'"
proof (cases m)
  case (Elect i)
  then show "do_move timely m s = Some s' \<Longrightarrow> raft_step H timely s s'"
    by (auto simp: do_move_def Let_def intro: raft_step.elect split: if_split_asm prod.split_asm)
next
  case (Ask k)
  let ?e = "cl_elections s ! k"
  assume "do_move timely m s = Some s'"
  then obtain p ps t granted n where k: "k < length (cl_elections s)" "el_reply ?e = None" "el_pending ?e = p # ps"
    "request_vote (el_term ?e) (el_node ?e) (el_last_index ?e) (el_last_term ?e) (cl_nodes s p) = ((t, granted), n)"
    and s': "s' = (set_node p n s)\<lparr>cl_elections := (cl_elections s)[k := ?e\<lparr>el_pending := ps, el_reply := Some (p, t, granted)\<rparr>],
      cl_votes := (if granted then (cl_votes s)((el_term ?e, p) \<mapsto> el_node ?e) else cl_votes s)\<rparr>"
    using Ask by (auto simp: do_move_def Let_def split: if_split_asm prod.split_asm list.split_asm)
  show "raft_step H timely s s'" unfolding s' by (rule raft_step.ask [OF k(1) refl k(2-4)])
next
  case (Lose k)
  then show "do_move timely m s = Some s' \<Longrightarrow> raft_step H timely s s'"
    by (auto simp: do_move_def Let_def intro!: raft_step.lost split: if_split_asm list.split_asm)
next
  case (Count k)
  then show "do_move timely m s = Some s' \<Longrightarrow> raft_step H timely s s'"
    by (auto simp: do_move_def Let_def intro!: raft_step.count split: if_split_asm prod.split_asm option.split_asm)
next
  case (Lead k)
  then show "do_move timely m s = Some s' \<Longrightarrow> raft_step H timely s s'"
    by (auto simp: do_move_def Let_def intro!: raft_step.lead split: if_split_asm)
qed

lemma do_moves_reachable: "do_moves timely ms s = Some s' \<Longrightarrow> (raft_step H timely)\<^sup>*\<^sup>* s s'"
  by (induction ms arbitrary: s)
    (auto split: option.split_asm intro: converse_rtranclp_into_rtranclp dest: do_move_step)

section \<open>Properties\<close>

text \<open>
  C15: one leader per term. In every run of a cluster of distinct members, with lost calls, restarts, log replication by
  anybody and any number of concurrent elections, two leaders of the same term are the same node, as long as no election is
  late: each takes the leadership while its node is still the candidate of the election's term.
\<close>

theorem election_safety:
  assumes "(raft_step H True)\<^sup>*\<^sup>* (fresh_cluster M) s" and "distinct M" and "[] \<notin> set M"
    and "rn_role (cl_nodes s i) = Leader" and "rn_role (cl_nodes s j) = Leader" and "rn_term (cl_nodes s i) = rn_term (cl_nodes s j)"
  shows "i = j"
proof -
  have "raft_inv M s" using raft_inv_reachable assms(1-3) by blast
  then have "quorum_voted M (cl_votes s) (rn_term (cl_nodes s i)) i" "quorum_voted M (cl_votes s) (rn_term (cl_nodes s i)) j"
    using assms(4-6) by (auto simp: raft_inv_def)
  then show ?thesis by (rule quorums_meet)
qed

theorem election_safety_witness:
  "\<exists>s. (raft_step demo_host True)\<^sup>*\<^sup>* (fresh_cluster [''a'', ''b'', ''c'']) s \<and> rn_role (cl_nodes s ''a'') = Leader
    \<and> rn_role (cl_nodes s ''b'') \<noteq> Leader"
proof -
  let ?run = "do_moves True [Elect ''a'', Ask 0, Count 0, Ask 0, Count 0, Lead 0] (fresh_cluster [''a'', ''b'', ''c''])"
  have "map_option (\<lambda>s. (rn_role (cl_nodes s ''a''), rn_term (cl_nodes s ''a''), rn_term (cl_nodes s ''b''))) ?run = Some (Leader, 1, 1)"
    by code_simp
  then obtain s where s: "?run = Some s" "rn_role (cl_nodes s ''a'') = Leader" "rn_term (cl_nodes s ''a'') = rn_term (cl_nodes s ''b'')"
    by (cases ?run) auto
  have r: "(raft_step demo_host True)\<^sup>*\<^sup>* (fresh_cluster [''a'', ''b'', ''c'']) s" using do_moves_reachable [OF s(1)] .
  show ?thesis using election_safety [OF r, of "''a''" "''b''"] r s by auto
qed

text \<open>
  C16: a replica is its applied log. Whatever a node is sent, and however often it restarts, in any run without overtaken
  proposals its consumed table and its recorded results are those of the commands of the applied prefix of its log, run in order from the empty table; so two
  nodes with the same applied prefix give the same answers, and of two commands for one capability at most one is fresh.
\<close>

theorem replicas_replay_log:
  assumes "(node_step H True)\<^sup>*\<^sup>* (fresh_node M i) n"
  shows "rn_applied n \<le> rn_commit n \<and> rn_commit n \<le> last_index n \<and>
    (\<exists>rs. replay (take (rn_applied n) (rn_log n)) Map.empty = Inr (rs, rn_consumed n)
      \<and> rn_results n = (\<lambda>k. if 1 \<le> k \<and> k \<le> rn_applied n then Some (rs ! (k - 1)) else None)
      \<and> (\<forall>j k scope x y. j < k \<longrightarrow> k < rn_applied n \<longrightarrow> snd (rn_log n ! j) = Consume scope x \<longrightarrow> snd (rn_log n ! k) = Consume scope y
           \<longrightarrow> cn_id x = cn_id y \<longrightarrow> rs ! j = ''fresh'' \<longrightarrow> rs ! k \<noteq> ''fresh''))"
proof -
  have ok: "replica_ok n" using assms by (rule replica_ok_reachable)
  then obtain rs where rs: "replay (take (rn_applied n) (rn_log n)) Map.empty = Inr (rs, rn_consumed n)"
    "rn_results n = (\<lambda>k. if 1 \<le> k \<and> k \<le> rn_applied n then Some (rs ! (k - 1)) else None)" by (auto simp: replica_ok_def)
  have "rs ! k \<noteq> ''fresh''" if "j < k" "k < rn_applied n" "snd (rn_log n ! j) = Consume scope x" "snd (rn_log n ! k) = Consume scope y"
    "cn_id x = cn_id y" "rs ! j = ''fresh''" for j k scope x y
    by (rule replay_fresh_once [OF rs(1) that(1) _ _ _ that(5,6)]) (use that ok in \<open>auto simp: replica_ok_def\<close>)
  then show ?thesis using rs ok by (auto simp: replica_ok_def last_index_def)
qed

text \<open>A leader that proposes one command, has it acknowledged by a follower and commits it.\<close>

definition demo_leader :: raft_node where
  "demo_leader = become_leader (fst (start_election (fresh_node [''a'', ''b'', ''c''] ''a'')))"

definition demo_proposed :: raft_node where
  "demo_proposed = demo_leader\<lparr>rn_log := [(1, Consume ''s'' demo_consumption)]\<rparr>"

lemma demo_leader_runs: "(node_step H current)\<^sup>*\<^sup>* (fresh_node [''a'', ''b'', ''c''] ''a'') demo_leader"
proof -
  have "node_step H current (fresh_node [''a'', ''b'', ''c''] ''a'') (fst (start_election (fresh_node [''a'', ''b'', ''c''] ''a'')))"
    by (rule campaign) (rule prod.collapse [symmetric])
  then show ?thesis unfolding demo_leader_def by (meson r_into_rtranclp rtranclp.rtrancl_into_rtrancl win)
qed

lemma demo_command_ok: "okE (canonical_bytes demo_host (PDict (command_dict (Consume ''s'' demo_consumption))))"
  by (rule demo_canonical) code_simp

lemma demo_consumption_valid: "okE (validate_transition demo_consumption)"
  by code_simp

lemma demo_leader_eq: "rn_role demo_leader = Leader" "rn_log demo_leader = []" "rn_term demo_leader = 1"
  by code_simp+

lemma demo_proposes: "propose_append demo_host (Consume ''s'' demo_consumption) demo_leader = (Inr 1, demo_proposed)"
  using demo_command_ok demo_consumption_valid
  by (auto simp: propose_append_def demo_leader_eq demo_proposed_def okE_iff last_index_def)

theorem replicas_replay_log_witness:
  "\<exists>n. (node_step demo_host True)\<^sup>*\<^sup>* (fresh_node [''a'', ''b'', ''c''] ''a'') n \<and> rn_applied n = 1 \<and> rn_results n 1 = Some ''fresh''
    \<and> (\<exists>rs. replay (take (rn_applied n) (rn_log n)) Map.empty = Inr (rs, rn_consumed n))"
proof -
  let ?a = "snd (handle_append 1 1 ''b'' (1, True, 1) demo_proposed)"
  let ?n = "snd (propose_commit 1 ?a)"
  have "(node_step demo_host True)\<^sup>*\<^sup>* (fresh_node [''a'', ''b'', ''c''] ''a'') demo_proposed"
    by (rule rtranclp.rtrancl_into_rtrancl [OF demo_leader_runs begin_proposal [OF demo_proposes]])
  moreover have "node_step demo_host True demo_proposed ?a" by (rule answered) (rule prod.collapse [symmetric])
  moreover have "node_step demo_host True ?a ?n" by (rule settle, rule prod.collapse [symmetric]) code_simp
  ultimately have r: "(node_step demo_host True)\<^sup>*\<^sup>* (fresh_node [''a'', ''b'', ''c''] ''a'') ?n" by (meson rtranclp.rtrancl_into_rtrancl)
  have v: "rn_applied ?n = 1" "rn_results ?n 1 = Some ''fresh''" by code_simp+
  show ?thesis using replicas_replay_log [OF r] r v by blast
qed

text \<open>
  C17: the replication of a log ends within the rounds it is given. \<open>_replicate\<close> tries one index per round and one round more
  than the leader's log has entries; when no call is lost and no exception is raised, the leader has stepped down or the
  follower has acknowledged the whole log of the leader.
\<close>

theorem replication_completes:
  assumes "replicate_to H (\<lambda>_. False) p (l, peer) = (Inr (), l', peer')" and "rn_role l = Leader"
    and "rn_id l \<in> set (rn_members peer)" and "rn_id l \<noteq> rn_id peer" and "1 \<le> next_index l p" and "next_index l p \<le> last_index l + 1"
  shows "rn_role l' \<noteq> Leader \<or> rn_match l' p = Some (last_index l)"
  using replicate_rounds_end [of H "last_index l + 1" p l peer l' peer'] assms by (simp add: replicate_to_def accepts_leader_def)

theorem replication_completes_witness:
  "rn_match (fst (snd (replicate_to demo_host (\<lambda>_. False) ''b'' (demo_proposed, fresh_node [''a'', ''b'', ''c''] ''b'')))) ''b'' = Some 1"
proof -
  let ?r = "replicate_to demo_host (\<lambda>_. False) ''b'' (demo_proposed, fresh_node [''a'', ''b'', ''c''] ''b'')"
  have r: "fst ?r = Inr ()" "rn_role (fst (snd ?r)) = Leader" by code_simp+
  have l: "rn_role demo_proposed = Leader" "rn_id demo_proposed = ''a''" "next_index demo_proposed ''b'' = 1" "last_index demo_proposed = 1"
    by code_simp+
  have "?r = (Inr (), fst (snd ?r), snd (snd ?r))" using r(1) by (metis prod.collapse)
  from replication_completes [OF this] show ?thesis using l r(2) by (simp add: fresh_node_def)
qed

text \<open>
  A late election makes a second leader. As written, \<open>elect\<close> releases the lock after the last answer and does not look at
  its term and role again before it takes the leadership. A run of three nodes without any failure reaches two leaders of
  one term: while the votes of \<open>a\<close> for term 1 are counted but not yet used, \<open>c\<close> is elected for term 2 with the vote of \<open>a\<close>;
  then \<open>a\<close> becomes leader, in term 2.
\<close>

theorem late_election_two_leaders:
  "\<exists>s. (raft_step demo_host False)\<^sup>*\<^sup>* (fresh_cluster [''a'', ''b'', ''c'']) s
    \<and> rn_role (cl_nodes s ''a'') = Leader \<and> rn_role (cl_nodes s ''c'') = Leader
    \<and> rn_term (cl_nodes s ''a'') = rn_term (cl_nodes s ''c'')"
proof -
  let ?run = "do_moves False [Elect ''a'', Ask 0, Count 0, Ask 0, Count 0, Elect ''c'', Ask 0, Count 0, Ask 0, Count 0, Lead 0, Lead 0]
    (fresh_cluster [''a'', ''b'', ''c''])"
  have "map_option (\<lambda>s. (rn_role (cl_nodes s ''a''), rn_role (cl_nodes s ''c''), rn_term (cl_nodes s ''a''), rn_term (cl_nodes s ''c''))) ?run
      = Some (Leader, Leader, 2, 2)"
    by code_simp
  then obtain s where "?run = Some s" "rn_role (cl_nodes s ''a'') = Leader" "rn_role (cl_nodes s ''c'') = Leader"
      "rn_term (cl_nodes s ''a'') = rn_term (cl_nodes s ''c'')"
    by (cases ?run) auto
  then show ?thesis using do_moves_reachable by blast
qed

text \<open>
  A proposal can be answered with the result of another command: \<open>propose\<close> checks at its end that the node is a leader, not
  that it is still the leader of the term in which the command was appended. Here \<open>a\<close> appends a command in term 1, loses its
  entry to a leader \<open>c\<close> of term 2, is elected again in term 3, and reports the first use of a capability whose
  consumption no log contains.
\<close>

definition demo_other :: consumption where
  "demo_other = demo_consumption\<lparr>cn_capability_id := PStr (''cap_'' @ replicate 24 CHR ''1'')\<rparr>"

theorem stale_proposal_acknowledged:
  "\<exists>n1 n2 n3. propose_append demo_host (Consume ''s'' demo_consumption) demo_leader = (Inr 1, n1)
    \<and> (node_step demo_host True)\<^sup>*\<^sup>* n1 n2 \<and> propose_commit 1 n2 = (Inr ''fresh'', n3) \<and> propose_answer ''fresh'' = Inr True
    \<and> known_consumption n3 ''s'' (cn_id demo_consumption) = None"
proof -
  let ?b = "snd (append_entries demo_host 2 ''c'' 0 0 [(1, 2, Consume ''s'' demo_other)] 1 demo_proposed)"
  let ?e = "become_leader (fst (start_election ?b))"
  let ?n = "snd (handle_append 3 2 ''c'' (3, True, 1) ?e)"
  have "node_step demo_host True demo_proposed ?b" by (rule receive) (rule prod.collapse [symmetric])
  moreover have "node_step demo_host True ?b (fst (start_election ?b))" by (rule campaign) (rule prod.collapse [symmetric])
  moreover have "node_step demo_host True (fst (start_election ?b)) ?e" by (rule win)
  moreover have "node_step demo_host True ?e ?n" by (rule answered) (rule prod.collapse [symmetric])
  ultimately have r: "(node_step demo_host True)\<^sup>*\<^sup>* demo_proposed ?n" by (meson r_into_rtranclp rtranclp.rtrancl_into_rtrancl)
  have v: "fst (propose_commit 1 ?n) = Inr ''fresh''" "known_consumption (snd (propose_commit 1 ?n)) ''s'' (cn_id demo_consumption) = None"
    by code_simp+
  then have "propose_commit 1 ?n = (Inr ''fresh'', snd (propose_commit 1 ?n))" by (metis prod.collapse)
  then show ?thesis using demo_proposes r v(2) propose_answer_simps(1) by blast
qed

text \<open>
  An overtaken proposal takes back the commit index. \<open>propose\<close> sets \<open>commit_index\<close> to the position of its entry without comparing
  it with the present one. Here \<open>a\<close> appends a command at position 1, is sent two entries of a leader \<open>c\<close> of term 2 with both
  committed, is elected again in term 3, and only then ends its proposal: the commit index goes from 2 back to 1 while two
  entries are applied, and the next start of the node refuses its own checkpoint.
\<close>

theorem overtaken_proposal_lowers_commit:
  "\<exists>n n'. (node_step demo_host True)\<^sup>*\<^sup>* (fresh_node [''a'', ''b'', ''c''] ''a'') n \<and> node_step demo_host False n n'
    \<and> rn_commit n = 2 \<and> rn_commit n' = 1 \<and> rn_applied n' = 2 \<and> restart n' = Inl (RuntimeError ''durable Raft checkpoint is invalid'')"
proof -
  let ?b = "snd (append_entries demo_host 2 ''c'' 0 0 [(1, 2, Consume ''s'' demo_other), (2, 2, Consume ''s'' demo_consumption)] 2 demo_proposed)"
  let ?e = "become_leader (fst (start_election ?b))"
  let ?n = "snd (handle_append 3 2 ''c'' (3, True, 2) ?e)"
  let ?n' = "snd (propose_commit 1 ?n)"
  have "(node_step demo_host True)\<^sup>*\<^sup>* (fresh_node [''a'', ''b'', ''c''] ''a'') demo_proposed"
    by (rule rtranclp.rtrancl_into_rtrancl [OF demo_leader_runs begin_proposal [OF demo_proposes]])
  moreover have "node_step demo_host True demo_proposed ?b" by (rule receive) (rule prod.collapse [symmetric])
  moreover have "node_step demo_host True ?b (fst (start_election ?b))" by (rule campaign) (rule prod.collapse [symmetric])
  moreover have "node_step demo_host True (fst (start_election ?b)) ?e" by (rule win)
  moreover have "node_step demo_host True ?e ?n" by (rule answered) (rule prod.collapse [symmetric])
  ultimately have r: "(node_step demo_host True)\<^sup>*\<^sup>* (fresh_node [''a'', ''b'', ''c''] ''a'') ?n" by (meson rtranclp.rtrancl_into_rtrancl)
  have "node_step demo_host False ?n ?n'" by (rule settle, rule prod.collapse [symmetric]) simp
  moreover have "rn_commit ?n = 2" "rn_commit ?n' = 1" "rn_applied ?n' = 2" by code_simp+
  moreover then have "restart ?n' = Inl (RuntimeError ''durable Raft checkpoint is invalid'')" by (simp add: restart_def)
  ultimately show ?thesis using r by blast
qed

end
