(* ===== verification/Protocol.thy ===== *)
theory Protocol
  imports Models
begin

text \<open>
  \<open>protocol.py\<close>: length-prefixed canonical JSON frames over a byte stream, the request and response envelopes, and the
  RPC server loop. A stream is the list of the bytes that are still to come; \<open>read(n)\<close> of a buffered stream returns
  fewer than \<open>n\<close> bytes only at its end. \<open>json.loads\<close> is called without a hook for floats here: \<open>float()\<close> on the text of a
  number with a fraction or an exponent is the parameter \<open>jf_float\<close>.
\<close>

section \<open>Definitions\<close>

subsection \<open>Code points\<close>

text \<open>\<open>len(s)\<close> and \<open>s[:n]\<close> of a text size_bytes code points; the model has the UTF-8 bytes.\<close>

function code_points :: "string \<Rightarrow> string list" where
  "code_points [] = []"
| "code_points (c # cs) = (c # takeWhile is_cont cs) # code_points (dropWhile is_cont cs)"
  by pat_completeness auto

termination
  by (relation "measure length") (auto simp: le_imp_less_Suc length_dropWhile_le)

definition py_len :: "string \<Rightarrow> nat" where
  "py_len s = length (code_points s)"

definition py_take :: "nat \<Rightarrow> string \<Rightarrow> string" where
  "py_take n s = concat (take n (code_points s))"

subsection \<open>Frames\<close>

definition MAX_FRAME_BYTES :: nat where "MAX_FRAME_BYTES = 65536"
definition MAX_NESTING :: nat where "MAX_NESTING = 8"
definition MAX_STRING_BYTES :: nat where "MAX_STRING_BYTES = 16384"
definition MAX_COLLECTION_ITEMS :: nat where "MAX_COLLECTION_ITEMS = 256"
definition MAX_DEADLINE_WINDOW_MS :: int where "MAX_DEADLINE_WINDOW_MS = 30000"
definition MAX_REQUESTS :: nat where "MAX_REQUESTS = 256"

definition deep :: "nat \<Rightarrow> unit res" where
  "deep depth = checkE (depth > MAX_NESTING) (ProtocolError ''nesting_limit'' ''message nesting limit exceeded'')"

definition validate_text :: "host \<Rightarrow> nat \<Rightarrow> string \<Rightarrow> unit res" where
  "validate_text H depth s = seqE
     [deep depth,
      checkE (nfc H s \<noteq> s) (ProtocolError ''unicode_normalization'' ''strings must already be Unicode NFC''),
      bindE (utf8_encode s) (\<lambda>b. checkE (length b > MAX_STRING_BYTES) (ProtocolError ''string_limit'' ''string byte limit exceeded''))]"

fun validate_value :: "host \<Rightarrow> nat \<Rightarrow> pyval \<Rightarrow> unit res" where
  "validate_value H depth (PInt i) = seqE [deep depth,
     checkE (\<bar>i\<bar> > 9007199254740991) (ProtocolError ''number_limit'' ''integer exceeds interoperable range'')]"
| "validate_value H depth (PFloat f) = seqE [deep depth,
     checkE (f = FNaN \<or> f = FInf \<or> f = FNegZero) (ProtocolError ''invalid_number'' ''non-finite numbers and negative zero are rejected'')]"
| "validate_value H depth (PStr s) = validate_text H depth s"
| "validate_value H depth (PList xs) = seqE
     (deep depth # checkE (length xs > MAX_COLLECTION_ITEMS) (ProtocolError ''collection_limit'' ''array item limit exceeded'')
      # map (validate_value H (depth + 1)) xs)"
| "validate_value H depth (PDict m) = seqE
     (deep depth # checkE (length m > MAX_COLLECTION_ITEMS) (ProtocolError ''collection_limit'' ''object field limit exceeded'')
      # concat (map (\<lambda>p. [validate_text H (depth + 1) (fst p), validate_value H (depth + 1) (snd p)]) m))"
| "validate_value H depth (PTuple xs) = seqE [deep depth, Inl (ProtocolError ''invalid_type'' ''unsupported JSON value'')]"
| "validate_value H depth (POther t) = seqE [deep depth, Inl (ProtocolError ''invalid_type'' ''unsupported JSON value'')]"
| "validate_value H depth _ = deep depth"

text \<open>\<open>struct.pack('>I', n)\<close> and its inverse.\<close>

definition pack :: "nat \<Rightarrow> string" where
  "pack n = [char_of (n div 2 ^ 24), char_of (n div 2 ^ 16), char_of (n div 2 ^ 8), char_of n]"

definition unpack :: "string \<Rightarrow> nat" where
  "unpack s = foldl (\<lambda>a c. a * 256 + of_char c) 0 s"

definition encode_frame :: "host \<Rightarrow> nat \<Rightarrow> pyval \<Rightarrow> string res" where
  "encode_frame H max_bytes message =
     bindE (validate_value H 0 message) (\<lambda>_.
     bindE (canonical_bytes H message) (\<lambda>payload.
     bindE (checkE (payload = [] \<or> length payload > max_bytes) (ProtocolError ''frame_limit'' ''frame byte limit exceeded'')) (\<lambda>_.
     Inr (pack (length payload) @ payload))))"

definition read_exact :: "nat \<Rightarrow> string \<Rightarrow> string res \<times> string" where
  "read_exact size_bytes stream = (if length stream < size_bytes then (Inl EOFError, []) else (Inr (take size_bytes stream), drop size_bytes stream))"

record json_floats =
  jf_float :: "string \<Rightarrow> pyfloat"

text \<open>The hooks \<open>_object_without_duplicates\<close> and \<open>_reject_constant\<close> of this module.\<close>

definition protocol_hooks :: "json_floats \<Rightarrow> hooks" where
  "protocol_hooks F = \<lparr>hk_float = (\<lambda>t. Inr (PFloat (jf_float F t))),
     hk_constant = (\<lambda>_. Inl (ProtocolError ''invalid_number'' ''non-finite number'')),
     hk_object = (\<lambda>ps. catchE (object_without_duplicates ps []) (\<lambda>_. True) (ProtocolError ''duplicate_field'' ''duplicate field''))\<rparr>"

definition protocol_loads :: "json_floats \<Rightarrow> string \<Rightarrow> pyval res" where
  "protocol_loads F t = loads_with (protocol_hooks F) t"

definition parse_payload :: "host \<Rightarrow> json_floats \<Rightarrow> string \<Rightarrow> dict res" where
  "parse_payload H F payload =
     bindE (catchE (catchE (bindE (decode_data (Bytes payload)) (protocol_loads F))
              (\<lambda>e. e = UnicodeDecodeError) (ProtocolError ''invalid_utf8'' ''frame is not valid UTF-8''))
              (\<lambda>e. e = JSONDecodeError) (ProtocolError ''invalid_json'' ''frame is not valid JSON'')) (\<lambda>message.
     case message of
       PDict m \<Rightarrow>
         bindE (validate_value H 0 message) (\<lambda>_.
         bindE (canonical_bytes H message) (\<lambda>b.
         bindE (checkE (b \<noteq> payload) (ProtocolError ''noncanonical_frame'' ''frame must use canonical JSON'')) (\<lambda>_. Inr m)))
     | _ \<Rightarrow> Inl (ProtocolError ''invalid_envelope'' ''frame must contain an object''))"

definition read_frame :: "host \<Rightarrow> json_floats \<Rightarrow> nat \<Rightarrow> string \<Rightarrow> dict res \<times> string" where
  "read_frame H F max_bytes stream =
     (let header = take 4 stream; stream1 = drop 4 stream in
      if header = [] then (Inl EOFError, stream1)
      else if length header \<noteq> 4 then (Inl (ProtocolError ''truncated_frame'' ''incomplete frame header''), stream1)
      else let size_bytes = unpack header in
        if size_bytes = 0 \<or> size_bytes > max_bytes then (Inl (ProtocolError ''frame_limit'' ''frame byte limit exceeded''), stream1)
        else case read_exact size_bytes stream1 of
          (Inl e, stream2) \<Rightarrow> (Inl e, stream2)
        | (Inr payload, stream2) \<Rightarrow> (parse_payload H F payload, stream2))"

subsection \<open>Envelopes\<close>

text \<open>Handlers and authorizers are the operations of a service with state \<open>'s\<close>.\<close>

record 's message_spec =
  ms_body_fields :: "string list"
  ms_handler :: "dict \<Rightarrow> 's \<Rightarrow> pyval res \<times> 's"
  ms_authorizer :: "(dict \<Rightarrow> dict \<Rightarrow> 's \<Rightarrow> unit res \<times> 's) option"

definition request_envelope :: "string \<Rightarrow> string \<Rightarrow> dict \<Rightarrow> int \<Rightarrow> dict option \<Rightarrow> dict" where
  "request_envelope message_type request_id body deadline_ms authorization =
     [(''type'', PStr message_type), (''request_id'', PStr request_id), (''deadline_ms'', PInt deadline_ms), (''body'', PDict body)]
     @ (case authorization of None \<Rightarrow> [] | Some a \<Rightarrow> [(''authorization'', PDict a)])"

definition required_envelope :: "string list" where
  "required_envelope = [''type'', ''request_id'', ''deadline_ms'', ''body'']"

text \<open>The checks of \<open>validate_request\<close> up to the authorization.\<close>

definition check_envelope :: "(string \<Rightarrow> ('s, 'z) message_spec_scheme option) \<Rightarrow> int \<Rightarrow> dict \<Rightarrow> (string \<times> string \<times> dict \<times> ('s, 'z) message_spec_scheme) res" where
  "check_envelope specs now message =
     bindE (checkE (\<not> subset_list required_envelope (map fst message))
              (ProtocolError ''unknown_field'' ''request envelope fields are invalid'')) (\<lambda>_.
     let message_type = dict_get message ''type''; request_id = dict_get message ''request_id'';
         deadline_ms = dict_get message ''deadline_ms''; body = dict_get message ''body'' in
     bindE (seqE
       [checkE (\<not> is_str message_type \<or> str_of message_type = []) (ProtocolError ''invalid_type'' ''message type must be a non-empty string''),
        checkE (\<not> is_str request_id \<or> str_of request_id = [] \<or> py_len (str_of request_id) > 128)
          (ProtocolError ''invalid_request_id'' ''request_id is invalid''),
        checkE (\<not> is_int deadline_ms) (ProtocolError ''invalid_deadline'' ''deadline_ms must be an integer''),
        checkE (\<not> is_mapping body) (ProtocolError ''invalid_body'' ''request body must be an object'')]) (\<lambda>_.
     case specs (str_of message_type) of
       None \<Rightarrow> Inl (ProtocolError ''unknown_message_type'' ''unknown message type'')
     | Some spec \<Rightarrow>
         let expected = required_envelope @ (if ms_authorizer spec = None then [] else [''authorization'']) in
         bindE (seqE
           [checkE (\<not> set_eq_list (map fst message) expected)
              (ProtocolError (if ms_authorizer spec = None then ''unknown_field'' else ''authorization_required'') ''request envelope fields are invalid''),
            checkE (\<not> set_eq_list (map fst (dict_of body)) (ms_body_fields spec)) (ProtocolError ''unknown_field'' ''body fields are invalid''),
            checkE (int_of deadline_ms < now) (ProtocolError ''deadline_exceeded'' ''request deadline has expired''),
            checkE (int_of deadline_ms > now + MAX_DEADLINE_WINDOW_MS) (ProtocolError ''deadline_limit'' ''request deadline is too far in the future'')]) (\<lambda>_.
         Inr (str_of message_type, str_of request_id, dict_of body, spec))))"

definition unsigned_envelope :: "dict \<Rightarrow> dict" where
  "unsigned_envelope message = map (\<lambda>k. (k, dict_get message k)) required_envelope"

definition validate_request ::
  "(string \<Rightarrow> ('s, 'z) message_spec_scheme option) \<Rightarrow> int \<Rightarrow> dict \<Rightarrow> 's \<Rightarrow> (string \<times> string \<times> dict \<times> ('s, 'z) message_spec_scheme) res \<times> 's" where
  "validate_request specs now message s = (case check_envelope specs now message of
     Inl e \<Rightarrow> (Inl e, s)
   | Inr (message_type, request_id, body, spec) \<Rightarrow> (case ms_authorizer spec of
       None \<Rightarrow> (Inr (message_type, request_id, body, spec), s)
     | Some authorize \<Rightarrow> (case dict_get message ''authorization'' of
         PDict a \<Rightarrow> (case authorize (unsigned_envelope message) a s of
             (Inl e, s') \<Rightarrow> (Inl e, s')
           | (Inr _, s') \<Rightarrow> (Inr (message_type, request_id, body, spec), s'))
       | _ \<Rightarrow> (Inl (ProtocolError ''authorization_invalid'' ''authorization must be an object''), s))))"

definition success_response :: "string \<Rightarrow> dict \<Rightarrow> dict" where
  "success_response request_id body = [(''request_id'', PStr request_id), (''ok'', PBool True), (''body'', PDict body), (''error'', PNone)]"

definition error_response :: "string \<Rightarrow> string \<Rightarrow> string \<Rightarrow> dict" where
  "error_response request_id code message =
     [(''request_id'', PStr request_id), (''ok'', PBool False), (''body'', PDict []),
      (''error'', PDict [(''code'', PStr code), (''message'', PStr (py_take 512 message))])]"

text \<open>\<open>str(v)\<close> of a value that is not a text is the parameter \<open>render\<close>.\<close>

definition py_str :: "(pyval \<Rightarrow> string) \<Rightarrow> pyval \<Rightarrow> string" where
  "py_str render v = (case v of PStr s \<Rightarrow> s | _ \<Rightarrow> render v)"

definition validate_response :: "(pyval \<Rightarrow> string) \<Rightarrow> dict \<Rightarrow> string \<Rightarrow> dict res" where
  "validate_response render message request_id =
     bindE (seqE
       [checkE (\<not> set_eq_list (map fst message) [''request_id'', ''ok'', ''body'', ''error''])
          (ProtocolError ''invalid_response'' ''response envelope fields are invalid''),
        checkE (dict_get message ''request_id'' \<noteq> PStr request_id \<or> (case dict_get message ''ok'' of PBool _ \<Rightarrow> False | _ \<Rightarrow> True))
          (ProtocolError ''invalid_response'' ''response correlation is invalid''),
        checkE (\<not> is_mapping (dict_get message ''body'')) (ProtocolError ''invalid_response'' ''response body must be an object'')]) (\<lambda>_.
     if dict_get message ''ok'' = PBool True then
       bindE (checkE (dict_get message ''error'' \<noteq> PNone) (ProtocolError ''invalid_response'' ''successful response included an error'')) (\<lambda>_.
       Inr (dict_of (dict_get message ''body'')))
     else let error = dict_get message ''error'' in
       bindE (checkE (\<not> is_mapping error \<or> \<not> set_eq_list (map fst (dict_of error)) [''code'', ''message''])
                (ProtocolError ''invalid_response'' ''error response is malformed'')) (\<lambda>_.
       Inl (ProtocolError (py_str render (dict_get (dict_of error) ''code'')) (py_str render (dict_get (dict_of error) ''message'')))))"

subsection \<open>The server\<close>

datatype rpc_event = Handled string string dict | Wrote string

text \<open>One validated message: the request ID of the answer, the handler call if it came to one, and the frame to write.\<close>

definition answer_id :: "dict \<Rightarrow> string" where
  "answer_id message = (case dict_get message ''request_id'' of
     PStr s \<Rightarrow> if s = [] then ''unavailable'' else py_take 128 s
   | _ \<Rightarrow> ''unavailable'')"

definition finish_call :: "host \<Rightarrow> int \<Rightarrow> dict \<Rightarrow> string \<Rightarrow> pyval res \<Rightarrow> string res" where
  "finish_call H now message request_id result =
     bindE result (\<lambda>v.
     bindE (checkE (now > int_of (dict_get message ''deadline_ms'')) (ProtocolError ''deadline_exceeded'' ''handler exceeded request deadline'')) (\<lambda>_.
     case v of
       PDict body \<Rightarrow> encode_frame H MAX_FRAME_BYTES (PDict (success_response request_id body))
     | _ \<Rightarrow> Inl (ProtocolError ''invalid_handler_result'' ''handler returned a non-object'')))"

definition handle_message ::
  "host \<Rightarrow> (string \<Rightarrow> ('s, 'z) message_spec_scheme option) \<Rightarrow> int \<Rightarrow> int \<Rightarrow> dict \<Rightarrow> 's \<Rightarrow> string \<times> rpc_event list \<times> string res \<times> 's" where
  "handle_message H specs now later message s = (case validate_request specs now message s of
     (Inl e, s') \<Rightarrow> (answer_id message, [], Inl e, s')
   | (Inr (message_type, request_id, body, spec), s') \<Rightarrow> (case ms_handler spec body s' of
       (result, s'') \<Rightarrow> (request_id, [Handled message_type request_id body], finish_call H later message request_id result, s'')))"

text \<open>The answer to an exception, and whether the server stops after it.\<close>

definition failure :: "exn \<Rightarrow> (string \<times> string) \<times> bool" where
  "failure e = (case e of
     ProtocolError code message \<Rightarrow> ((code, message), code = ''frame_limit'' \<or> code = ''truncated_frame'')
   | _ \<Rightarrow> ((''service_failure'', ''service failed closed''), False))"

definition failure_frame :: "host \<Rightarrow> string \<Rightarrow> string \<times> string \<Rightarrow> string res" where
  "failure_frame H request_id cm = encode_frame H MAX_FRAME_BYTES (PDict (error_response request_id (fst cm) (snd cm)))"

text \<open>
  One turn of the loop: what happened, the state, what is left of the stream, whether a request was counted, and how it
  goes on (\<open>None\<close>: the loop goes on; \<open>Some r\<close>: \<open>serve\<close> ends with \<open>r\<close>).
\<close>

definition serve_turn ::
  "host \<Rightarrow> json_floats \<Rightarrow> (string \<Rightarrow> ('s, 'z) message_spec_scheme option) \<Rightarrow> int \<Rightarrow> int \<Rightarrow> string \<Rightarrow> 's
     \<Rightarrow> rpc_event list \<times> 's \<times> string \<times> unit res option" where
  "serve_turn H F specs now later source s = (case read_frame H F MAX_FRAME_BYTES source of (r, rest) \<Rightarrow>
     (case (case r of Inl e \<Rightarrow> (''unavailable'', [], Inl e, s) | Inr message \<Rightarrow> handle_message H specs now later message s) of
        (request_id, calls, outcome, s') \<Rightarrow> (case outcome of
            Inr frame \<Rightarrow> (calls @ [Wrote frame], s', rest, None)
          | Inl e \<Rightarrow>
              if e = EOFError then (calls, s', rest, Some (Inr ()))
              else (case failure_frame H request_id (fst (failure e)) of
                  Inl e' \<Rightarrow> (calls, s', rest, Some (Inl e'))
                | Inr frame \<Rightarrow> (calls @ [Wrote frame], s', rest, if snd (failure e) then Some (Inr ()) else None)))))"

definition calls_of :: "rpc_event list \<Rightarrow> nat" where
  "calls_of tr = length (filter (\<lambda>e. case e of Handled _ _ _ \<Rightarrow> True | Wrote _ \<Rightarrow> False) tr)"

lemma read_frame_shrinks: "read_frame H F n source = (r, rest) \<Longrightarrow> r \<noteq> Inl EOFError \<Longrightarrow> length rest < length source"
  by (auto simp: read_frame_def read_exact_def Let_def split: if_split_asm)

lemma serve_turn_shrinks: "serve_turn H F specs now later source s = (tr, s', rest, None) \<Longrightarrow> length rest < length source"
  by (cases "read_frame H F MAX_FRAME_BYTES source")
    (auto simp: serve_turn_def split: sum.split_asm prod.split_asm if_split_asm dest: read_frame_shrinks)

text \<open>\<open>serve\<close>: turn \<open>k\<close> reads the clock at \<open>fst (clock k)\<close> and, after the handler, at \<open>snd (clock k)\<close>.\<close>

function serve ::
  "host \<Rightarrow> json_floats \<Rightarrow> (string \<Rightarrow> ('s, 'z) message_spec_scheme option) \<Rightarrow> nat \<Rightarrow> (nat \<Rightarrow> int \<times> int) \<Rightarrow> nat \<Rightarrow> nat \<Rightarrow> string \<Rightarrow> 's
     \<Rightarrow> rpc_event list \<times> unit res \<times> 's" where
  "serve H F specs limit clock k handled source s =
     (if handled < limit then
        (case serve_turn H F specs (fst (clock k)) (snd (clock k)) source s of
           (tr, s', rest, Some r) \<Rightarrow> (tr, r, s')
         | (tr, s', rest, None) \<Rightarrow>
             (case serve H F specs limit clock (Suc k) (handled + calls_of tr) rest s' of (tr', r, s'') \<Rightarrow> (tr @ tr', r, s'')))
      else (case failure_frame H ''unavailable'' (''request_limit'', ''service request limit reached'') of
          Inl e \<Rightarrow> ([], Inl e, s)
        | Inr frame \<Rightarrow> ([Wrote frame], Inr (), s)))"
  by pat_completeness auto

termination
  by (relation "measure (\<lambda>(_, _, _, _, _, _, _, source, _). length source)") (auto dest: serve_turn_shrinks [OF sym])

declare serve.simps [simp del]

definition rpc_server_init :: "(string \<times> 's message_spec) list \<Rightarrow> int \<Rightarrow> ((string \<rightharpoonup> 's message_spec) \<times> nat) res" where
  "rpc_server_init specs max_requests =
     (if specs = [] \<or> \<not> (0 < max_requests \<and> max_requests \<le> int MAX_REQUESTS) then Inl (ValueError ''invalid RPC server limits'')
      else Inr (map_of specs, nat max_requests))"

section \<open>Lemmas\<close>

subsection \<open>Frames\<close>

lemma length_pack [simp]: "length (pack n) = 4"
  by (simp add: pack_def)

lemma byte_div: "b < 256 \<Longrightarrow> (a * 256 + b) div 256 = a" and byte_mod: "b < 256 \<Longrightarrow> (a * 256 + b) mod 256 = b" for a b :: nat
  by simp_all

lemma powers_256: "(2 :: nat) ^ 8 = 256" "(2 :: nat) ^ 16 = 256 * 256" "(2 :: nat) ^ 24 = 256 * 256 * 256"
  by simp_all

lemma unpack_pack:
  assumes "n < 2 ^ 32"
  shows "unpack (pack n) = n"
proof -
  have "n div 256 div 256 div 256 < 256" using assms by (simp add: div_mult2_eq [symmetric] less_mult_imp_div_less)
  then have top: "n div 256 div 256 div 256 mod 256 = n div 256 div 256 div 256" by simp
  have step: "m div 256 * 256 + m mod 256 = m" for m :: nat by simp
  show ?thesis by (simp only: unpack_def pack_def powers_256 div_mult2_eq foldl_Cons foldl_Nil of_char_of top step mult_0 add_0)
qed

lemma pack_unpack:
  assumes "length h = 4"
  shows "pack (unpack h) = h"
proof -
  obtain a b c d where h: "h = [a, b, c, d]" using assms by (auto simp: numeral_eq_Suc length_Suc_conv)
  have lt: "of_char x < (256 :: nat)" for x :: char by simp
  have "char_of (m * 256 + of_char x) = x" for m :: nat and x :: char
    using char_of_mod_256 [of "m * 256 + of_char x"] by (simp only: byte_mod [OF lt] char_of_char)
  then show ?thesis
    by (simp only: h unpack_def pack_def powers_256 div_mult2_eq foldl_Cons foldl_Nil byte_div [OF lt] mult_0 add_0 char_of_char)
qed

lemmas protocol_limits = MAX_NESTING_def MAX_STRING_BYTES_def MAX_COLLECTION_ITEMS_def canonical_limits

lemma validate_text_ok: "within_limits H (d, PStr k) \<Longrightarrow> validate_text H d k = Inr ()"
  by (simp add: validate_text_def deep_def within_limits_def protocol_limits utf8_encode_def)

lemma validate_plain: "list_all (within_limits H) (subvalues d v) \<Longrightarrow> plain v \<Longrightarrow> validate_value H d v = Inr ()"
proof (induction v arbitrary: d)
  case (PList xs)
  then show ?case
    by (auto simp: seqE_Inr_iff deep_def checkE_Inr_iff list_all_iff within_limits_def protocol_limits)
next
  case (PDict m)
  have lim: "within_limits H (d, PDict m)" using PDict.prems(1) by simp
  have sub: "list_all (within_limits H) (subvalues (d + 1) (snd p))" "plain (snd p)" if "p \<in> set m" for p
    using PDict.prems that by (auto simp: list_all_iff)
  have "validate_text H (d + 1) (fst p) = Inr ()" if "p \<in> set m" for p
    using PDict.prems(1) that by (auto simp: list_all_iff intro!: validate_text_ok)
  moreover have "validate_value H (d + 1) (snd p) = Inr ()" if "p \<in> set m" for p
    using PDict.IH [of p "snd p" "d + 1"] sub [OF that] that by (cases p) auto
  ultimately show ?case
    using lim by (auto simp: seqE_Inr_iff deep_def checkE_Inr_iff within_limits_def protocol_limits)
qed (auto simp: deep_def within_limits_def protocol_limits intro!: validate_text_ok)

lemma canonical_dict:
  assumes "canonical_value H d (PDict m) = Inr c"
  obtains m' where "c = PDict m'"
  using assms by (auto simp only: canonical_dict_iff)

lemma keeps_objects_protocol: "keeps_objects (protocol_hooks F)"
  using object_without_duplicates_append [of "[]"] by (simp add: keeps_objects_def protocol_hooks_def catchE_def)

lemma payload_round_trip:
  assumes b: "canonical_bytes H (PDict m) = Inr b" and ok: "float_free (PDict m)" "wf_val (PDict m)"
  obtains c where "canonical_value H 0 (PDict m) = Inr (PDict c)" and "parse_payload H F b = Inr c"
proof -
  obtain c where c: "canonical_value H 0 (PDict m) = Inr c" "canonical_bytes H c = Inr b"
    using loads_canonical_bytes [OF b ok] by blast
  obtain m' where m': "c = PDict m'" using canonical_dict c(1) by blast
  have "okE (canonical_value H 0 c)" using canonical_value_idem [OF c(1)] by (simp add: okE_def)
  then have v: "validate_value H 0 c = Inr ()"
    using validate_plain canonical_value_plain [OF c(1) ok] by (simp add: canonical_value_ok_iff)
  obtain d where d: "strict_json_loads H (Bytes b) True = Inr d" using strict_json_loads_canonical [OF b ok] by blast
  then have "decode_data (Bytes b) = Inr b"
    by (auto simp: strict_json_loads_def decode_data_def catchE_def split: if_split_asm)
  moreover have "loads_with (protocol_hooks F) b = Inr c"
    using loads_with_canonical_bytes [OF b c(1) keeps_objects_protocol plain_readable [OF canonical_value_plain [OF c(1) ok]], of "[]"]
    by simp
  ultimately have "parse_payload H F b = Inr m'"
    using c v by (simp add: parse_payload_def protocol_loads_def catchE_def m')
  then show thesis using that c(1) m' by blast
qed

lemma parse_payload_canonical:
  assumes "parse_payload H F b = Inr m"
  shows "validate_value H 0 (PDict m) = Inr ()" and "canonical_bytes H (PDict m) = Inr b"
proof -
  obtain v where "(case v of PDict m' \<Rightarrow> bindE (validate_value H 0 v) (\<lambda>_. bindE (canonical_bytes H v) (\<lambda>b'.
      bindE (checkE (b' \<noteq> b) (ProtocolError ''noncanonical_frame'' ''frame must use canonical JSON'')) (\<lambda>_. Inr m')))
      | _ \<Rightarrow> Inl (ProtocolError ''invalid_envelope'' ''frame must contain an object'')) = Inr m"
    using assms unfolding parse_payload_def bindE_Inr_iff by blast
  then show "validate_value H 0 (PDict m) = Inr ()" "canonical_bytes H (PDict m) = Inr b"
    by (cases v; simp only: pyval.case bindE_Inr_iff checkE_Inr_iff sum.distinct; force)+
qed

lemma read_frame_frame:
  assumes "0 < length b" and "length b \<le> n" and "n < 2 ^ 32"
  shows "read_frame H F n ((pack (length b) @ b) @ rest) = (parse_payload H F b, rest)"
proof -
  have "pack (length b) \<noteq> []" by (simp add: pack_def)
  then show ?thesis using assms by (simp add: read_frame_def read_exact_def Let_def unpack_pack)
qed

lemma read_frame_accepted:
  assumes "read_frame H F n s = (Inr m, rest)"
  shows "\<exists>b. s = (pack (length b) @ b) @ rest \<and> parse_payload H F b = Inr m \<and> b \<noteq> [] \<and> length b \<le> n"
proof -
  let ?k = "unpack (take 4 s)"
  have s: "length (take 4 s) = 4" "0 < ?k" "?k \<le> n" "?k \<le> length (drop 4 s)" "parse_payload H F (take ?k (drop 4 s)) = Inr m"
    "rest = drop ?k (drop 4 s)"
    using assms by (auto simp: read_frame_def read_exact_def Let_def split: if_split_asm)
  have "s = take 4 s @ take ?k (drop 4 s) @ drop ?k (drop 4 s)" by (metis append_take_drop_id)
  then have "s = (pack ?k @ take ?k (drop 4 s)) @ rest" using s(1,6) pack_unpack by simp
  then show ?thesis using s by (intro exI [of _ "take ?k (drop 4 s)"]) auto
qed

subsection \<open>Requests\<close>

lemma is_mapping_PDict: "is_mapping v \<longleftrightarrow> PDict (dict_of v) = v"
  by (cases v) auto

lemma check_envelope_Inr:
  assumes "check_envelope specs now m = Inr (t, rid, body, spec)"
  shows "specs t = Some spec" and "set (map fst body) = set (ms_body_fields spec)" and "dict_get m ''type'' = PStr t"
    and "dict_get m ''request_id'' = PStr rid" and "dict_get m ''body'' = PDict body"
    and "\<exists>d. dict_get m ''deadline_ms'' = PInt d \<and> now \<le> d \<and> d \<le> now + MAX_DEADLINE_WINDOW_MS"
proof -
  define ty rq dl bd where v: "ty = dict_get m ''type''" "rq = dict_get m ''request_id''" "dl = dict_get m ''deadline_ms''" "bd = dict_get m ''body''"
  have shape: "is_str ty" "is_str rq" "is_int dl" "is_mapping bd"
    using assms unfolding check_envelope_def Let_def bindE_Inr_iff seqE_Inr_iff v [symmetric] by (auto simp: checkE_Inr_iff)
  obtain sp where sp: "specs (str_of ty) = Some sp"
    using assms unfolding check_envelope_def Let_def bindE_Inr_iff v [symmetric] by (cases "specs (str_of ty)") auto
  have rest: "t = str_of ty" "rid = str_of rq" "body = dict_of bd" "spec = sp" "set (map fst (dict_of bd)) = set (ms_body_fields sp)"
    "\<not> int_of dl < now" "\<not> int_of dl > now + MAX_DEADLINE_WINDOW_MS"
    using assms sp unfolding check_envelope_def Let_def bindE_Inr_iff seqE_Inr_iff v [symmetric] by (auto simp: checkE_Inr_iff bindE_Inr_iff)
  show "specs t = Some spec" "set (map fst body) = set (ms_body_fields spec)" using rest sp by simp_all
  show "dict_get m ''type'' = PStr t" "dict_get m ''request_id'' = PStr rid"
    using shape(1,2) rest(1,2) v(1,2) by (simp_all add: is_str_PStr)
  show "dict_get m ''body'' = PDict body" using shape(4) rest(3) v(4) by (simp add: is_mapping_PDict)
  show "\<exists>d. dict_get m ''deadline_ms'' = PInt d \<and> now \<le> d \<and> d \<le> now + MAX_DEADLINE_WINDOW_MS"
    using shape(3) rest(6,7) v(3) by (intro exI [of _ "int_of dl"]) (simp add: is_int_PInt)
qed

text \<open>
  A message is admitted in state \<open>s\<close>, which leaves \<open>s1\<close>: it has the fields of its type, its deadline lies in the window, and the
  authorizer of its type, if there is one, has accepted in this state the rest of this message with the message's own authorization.
\<close>

definition admitted ::
  "(string \<Rightarrow> ('s, 'z) message_spec_scheme option) \<Rightarrow> int \<Rightarrow> dict \<Rightarrow> string \<Rightarrow> string \<Rightarrow> dict \<Rightarrow> ('s, 'z) message_spec_scheme \<Rightarrow> 's \<Rightarrow> 's \<Rightarrow> bool" where
  "admitted specs now m t rid body spec s s1 \<longleftrightarrow>
     specs t = Some spec \<and> set (map fst body) = set (ms_body_fields spec)
     \<and> dict_get m ''type'' = PStr t \<and> dict_get m ''request_id'' = PStr rid \<and> dict_get m ''body'' = PDict body
     \<and> (\<exists>d. dict_get m ''deadline_ms'' = PInt d \<and> now \<le> d \<and> d \<le> now + MAX_DEADLINE_WINDOW_MS
          \<and> (case ms_authorizer spec of
               None \<Rightarrow> s1 = s
             | Some authorize \<Rightarrow> \<exists>a. dict_get m ''authorization'' = PDict a \<and> authorize (request_envelope t rid body d None) a s = (Inr (), s1)))"

text \<open>What a message that is not admitted does to the state: nothing, unless its authorizer was asked and refused it.\<close>

definition refused :: "(string \<Rightarrow> ('s, 'z) message_spec_scheme option) \<Rightarrow> dict res \<Rightarrow> 's \<Rightarrow> 's \<Rightarrow> bool" where
  "refused specs r s s1 \<longleftrightarrow> s1 = s
     \<or> (\<exists>m t spec authorize a e. r = Inr m \<and> dict_get m ''type'' = PStr t \<and> specs t = Some spec \<and> ms_authorizer spec = Some authorize
          \<and> dict_get m ''authorization'' = PDict a \<and> authorize (unsigned_envelope m) a s = (Inl e, s1))"

lemma unsigned_envelope_eq:
  assumes "dict_get m ''type'' = PStr t" and "dict_get m ''request_id'' = PStr rid" and "dict_get m ''deadline_ms'' = PInt d"
    and "dict_get m ''body'' = PDict body"
  shows "unsigned_envelope m = request_envelope t rid body d None"
  using assms by (simp add: unsigned_envelope_def required_envelope_def request_envelope_def)

lemma validate_request_cases:
  assumes "validate_request specs now m s = (r, s1)"
  obtains (refused) e where "r = Inl e" "refused specs (Inr m) s s1"
  | (admitted) t rid body spec where "r = Inr (t, rid, body, spec)" "admitted specs now m t rid body spec s s1"
proof (cases "check_envelope specs now m")
  case (Inl e)
  then have "r = Inl e" "s1 = s" using assms by (auto simp: validate_request_def)
  then show thesis using refused by (simp add: refused_def)
next
  case (Inr q)
  obtain t rid body spec where q: "q = (t, rid, body, spec)" by (metis prod_cases4)
  note c = check_envelope_Inr [OF Inr [unfolded q]]
  obtain d where d: "dict_get m ''deadline_ms'' = PInt d" "now \<le> d" "d \<le> now + MAX_DEADLINE_WINDOW_MS" using c(6) by blast
  note u = unsigned_envelope_eq [OF c(3,4) d(1) c(5)]
  show thesis
  proof (cases "ms_authorizer spec")
    case None
    then have "r = Inr (t, rid, body, spec)" "s1 = s" using assms Inr q by (simp_all add: validate_request_def)
    then show thesis using admitted c d None by (simp add: admitted_def)
  next
    case (Some authorize)
    show thesis
    proof (cases "\<exists>a. dict_get m ''authorization'' = PDict a")
      case False
      then have "s1 = s \<and> (\<exists>e. r = Inl e)"
        using assms Inr q Some by (cases "dict_get m ''authorization''") (auto simp: validate_request_def)
      then show thesis using refused by (auto simp: refused_def)
    next
      case True
      then obtain a where a: "dict_get m ''authorization'' = PDict a" by blast
      obtain x s2 where x: "authorize (unsigned_envelope m) a s = (x, s2)" by fastforce
      then have v: "(r, s1) = (case x of Inl e \<Rightarrow> Inl e | Inr _ \<Rightarrow> Inr (t, rid, body, spec), s2)"
        using assms Inr q Some a by (cases x) (simp_all add: validate_request_def)
      show thesis
      proof (cases x)
        case (Inl e)
        then have "refused specs (Inr m) s s1" using v x a Some c(1,3) unfolding refused_def by auto
        then show thesis using refused v Inl by simp
      next
        case ok: (Inr y)
        then have "admitted specs now m t rid body spec s s1"
          unfolding admitted_def using c d a v Some x [unfolded u] by (intro conjI exI [of _ d]) auto
        then show thesis using admitted v ok by simp
      qed
    qed
  qed
qed

definition is_frame :: "host \<Rightarrow> rpc_event \<Rightarrow> bool" where
  "is_frame H e = (case e of Handled _ _ _ \<Rightarrow> True | Wrote f \<Rightarrow> \<exists>v. encode_frame H MAX_FRAME_BYTES (PDict v) = Inr f)"

text \<open>The answer to a request: a frame with its request ID.\<close>

definition replies :: "host \<Rightarrow> string \<Rightarrow> rpc_event \<Rightarrow> bool" where
  "replies H rid e = (case e of
     Handled _ _ _ \<Rightarrow> False
   | Wrote f \<Rightarrow> \<exists>v. encode_frame H MAX_FRAME_BYTES (PDict v) = Inr f \<and> dict_get v ''request_id'' = PStr rid)"

text \<open>
  What a run of the server does with a stream. Frames are read one after the other; a message is handled only when it is admitted
  in the state of that moment, its handler then works on the state the authorizer left, and at most one answer with its
  request ID follows.
\<close>

inductive serves ::
  "host \<Rightarrow> json_floats \<Rightarrow> (string \<Rightarrow> ('s, 'z) message_spec_scheme option) \<Rightarrow> (nat \<Rightarrow> int \<times> int) \<Rightarrow> nat \<Rightarrow> string \<Rightarrow> 's \<Rightarrow> rpc_event list \<Rightarrow> 's \<Rightarrow> bool"
  for H F specs clock where
  stop: "serves H F specs clock k source s [] s"
| full: "replies H ''unavailable'' w \<Longrightarrow> serves H F specs clock k source s [w] s"
| refuse: "read_frame H F MAX_FRAME_BYTES source = (r, rest) \<Longrightarrow> refused specs r s s1 \<Longrightarrow> length ws \<le> 1 \<Longrightarrow> list_all (\<lambda>w. \<exists>rid. replies H rid w) ws
    \<Longrightarrow> serves H F specs clock (Suc k) rest s1 tr s' \<Longrightarrow> serves H F specs clock k source s (ws @ tr) s'"
| handle: "read_frame H F MAX_FRAME_BYTES source = (Inr m, rest) \<Longrightarrow> admitted specs (fst (clock k)) m t rid body spec s s1
    \<Longrightarrow> ms_handler spec body s1 = (result, s2) \<Longrightarrow> length ws \<le> 1 \<Longrightarrow> list_all (replies H rid) ws
    \<Longrightarrow> serves H F specs clock (Suc k) rest s2 tr s' \<Longrightarrow> serves H F specs clock k source s (Handled t rid body # ws @ tr) s'"

lemma finish_call_reply: "finish_call H now m rid r = Inr f \<Longrightarrow> replies H rid (Wrote f)"
proof -
  assume "finish_call H now m rid r = Inr f"
  then obtain v where "(case v of PDict body \<Rightarrow> encode_frame H MAX_FRAME_BYTES (PDict (success_response rid body))
      | _ \<Rightarrow> Inl (ProtocolError ''invalid_handler_result'' ''handler returned a non-object'')) = Inr f"
    unfolding finish_call_def bindE_Inr_iff by blast
  then obtain body where "encode_frame H MAX_FRAME_BYTES (PDict (success_response rid body)) = Inr f" by (cases v) auto
  then show ?thesis unfolding replies_def rpc_event.case by (intro exI [of _ "success_response rid body"]) (simp add: success_response_def)
qed

lemma failure_frame_reply: "failure_frame H rid cm = Inr f \<Longrightarrow> replies H rid (Wrote f)"
  unfolding failure_frame_def replies_def rpc_event.case
  by (intro exI [of _ "error_response rid (fst cm) (snd cm)"]) (simp add: error_response_def)

lemma calls_of_append [simp]: "calls_of (xs @ ys) = calls_of xs + calls_of ys" and calls_of_Nil [simp]: "calls_of [] = 0"
  and calls_of_Wrote [simp]: "calls_of (Wrote f # xs) = calls_of xs" and calls_of_Handled [simp]: "calls_of (Handled t rid b # xs) = Suc (calls_of xs)"
  by (simp_all add: calls_of_def)

lemma replies_wrote: "replies H rid w \<Longrightarrow> \<exists>f. w = Wrote f" and replies_frame: "replies H rid w \<Longrightarrow> is_frame H w"
  by (auto simp: replies_def is_frame_def split: rpc_event.split_asm)

lemma calls_of_replies: "length ws \<le> 1 \<Longrightarrow> list_all (\<lambda>w. \<exists>rid. replies H rid w) ws \<Longrightarrow> calls_of ws = 0"
  by (cases ws) (auto dest: replies_wrote)

lemma is_frame_Handled: "is_frame H (Handled t rid b)"
  by (simp add: is_frame_def)

lemma serves_frames: "serves H F specs clock k source s tr s' \<Longrightarrow> list_all (is_frame H) tr"
  by (induction rule: serves.induct) (auto simp: list_all_iff is_frame_Handled dest: replies_frame)

text \<open>A turn either refuses what it read or handles it; \<open>ws\<close> is the answer.\<close>

lemma serve_turn_cases:
  assumes "serve_turn H F specs now later source s = (tr, s', rest, nx)"
  obtains (refuse) r where "read_frame H F MAX_FRAME_BYTES source = (r, rest)" "refused specs r s s'" "length tr \<le> 1"
      "list_all (\<lambda>w. \<exists>rid. replies H rid w) tr"
  | (handle) m t rid body spec s1 result ws where "read_frame H F MAX_FRAME_BYTES source = (Inr m, rest)"
      "admitted specs now m t rid body spec s s1" "ms_handler spec body s1 = (result, s')" "length ws \<le> 1" "list_all (replies H rid) ws"
      "tr = Handled t rid body # ws"
proof -
  obtain r st where rf: "read_frame H F MAX_FRAME_BYTES source = (r, st)" by fastforce
  obtain rid calls outcome s1 where o: "(case r of Inl e \<Rightarrow> (''unavailable'', [], Inl e, s) | Inr m \<Rightarrow> handle_message H specs now later m s)
      = (rid, calls, outcome, s1)" by (metis prod_cases4)
  have turn: "\<exists>ws. tr = calls @ ws \<and> s' = s1 \<and> rest = st \<and> length ws \<le> 1 \<and> list_all (replies H rid) ws"
    if "\<And>f. outcome = Inr f \<Longrightarrow> replies H rid (Wrote f)"
  proof (cases outcome)
    case (Inl e)
    then show ?thesis
      using assms failure_frame_reply [of H rid "fst (failure e)"] unfolding serve_turn_def rf prod.case o
      by (auto split: sum.split_asm if_split_asm)
  next
    case (Inr f)
    then show ?thesis using assms that unfolding serve_turn_def rf prod.case o by auto
  qed
  show thesis
  proof (cases r)
    case (Inl e)
    then show ?thesis using turn o rf refuse [of r] by (auto simp: refused_def list_all_iff)
  next
    case (Inr m)
    obtain v s2 where v: "validate_request specs now m s = (v, s2)" by fastforce
    then show ?thesis
    proof (cases rule: validate_request_cases)
      case (refused e)
      then have "calls = []" "s1 = s2" "outcome = Inl e" using o Inr v by (simp_all add: handle_message_def)
      then show ?thesis using turn rf refuse [of r] refused(2) Inr by (auto simp: list_all_iff)
    next
      case (admitted t rid' body spec)
      obtain result s3 where h: "ms_handler spec body s2 = (result, s3)" by fastforce
      then have eq: "calls = [Handled t rid' body]" "s1 = s3" "rid = rid'" "outcome = finish_call H later m rid' result"
        using o Inr v admitted(1) by (auto simp: handle_message_def)
      then obtain ws where "tr = calls @ ws" "s' = s1" "rest = st" "length ws \<le> 1" "list_all (replies H rid) ws"
        using turn finish_call_reply by metis
      then show ?thesis using handle [OF _ admitted(2)] h eq rf Inr by simp
    qed
  qed
qed

lemma serve_serves:
  assumes "serve H F specs limit clock k handled source s = (tr, r, s')" and "handled \<le> limit"
  shows "handled + calls_of tr \<le> limit \<and> serves H F specs clock k source s tr s'"
  using assms
proof (induction H F specs limit clock k handled source s arbitrary: tr r s' rule: serve.induct)
  case (1 H F specs limit clock k handled source s)
  show ?case
  proof (cases "handled < limit")
    case True
    obtain tr1 s1 rest nx where t: "serve_turn H F specs (fst (clock k)) (snd (clock k)) source s = (tr1, s1, rest, nx)" by (metis prod_cases4)
    have one: "calls_of tr1 \<le> 1" using t
    proof (cases rule: serve_turn_cases)
      case (refuse r)
      then show ?thesis using calls_of_replies [OF refuse(3,4)] by simp
    next
      case (handle m t rid body spec s2 result ws)
      have "list_all (\<lambda>w. \<exists>rid. replies H rid w) ws" using handle(5) by (auto simp: list_all_iff)
      then show ?thesis using calls_of_replies [OF handle(4)] handle(6) by simp
    qed
    have turn: "serves H F specs clock k source s (tr1 @ tr2) s2" if "serves H F specs clock (Suc k) rest s1 tr2 s2" for tr2 s2
      using t by (cases rule: serve_turn_cases) (use that in \<open>auto intro: serves.refuse serves.handle\<close>)
    show ?thesis
    proof (cases nx)
      case None
      obtain tr2 r2 s2 where rec: "serve H F specs limit clock (Suc k) (handled + calls_of tr1) rest s1 = (tr2, r2, s2)" by (metis prod_cases3)
      have "handled + calls_of tr1 + calls_of tr2 \<le> limit \<and> serves H F specs clock (Suc k) rest s1 tr2 s2"
        using "1.IH" [OF True t [symmetric] refl refl] rec one True None by auto
      moreover have "tr = tr1 @ tr2" "s' = s2" using "1.prems"(1) True t None rec by (simp_all add: serve.simps [of H F specs limit clock k])
      ultimately show ?thesis using turn by simp
    next
      case (Some r1)
      then have "tr = tr1" "s' = s1" using "1.prems"(1) True t by (simp_all add: serve.simps [of H F specs limit clock k])
      then show ?thesis using turn [OF serves.stop] one True by simp
    qed
  next
    case False
    then show ?thesis using "1.prems" failure_frame_reply
      by (auto simp: serve.simps [of H F specs limit clock k] split: sum.split_asm intro: serves.stop serves.full)
  qed
qed

section \<open>Properties\<close>

text \<open>
  C19: frames are a codec. What \<open>encode_frame\<close> writes for a float-free message, followed by anything, \<open>read_frame\<close> reads
  back as the canonical form of the message, leaving the rest of the stream; and whatever stream \<open>read_frame\<close> accepts
  starts with the one frame that \<open>encode_frame\<close> writes for the message it returns.
\<close>

theorem frame_codec:
  assumes "encode_frame H n (PDict m) = Inr f" and "n < 2 ^ 32" and "float_free (PDict m)" and "wf_val (PDict m)"
  shows "(\<exists>c. canonical_value H 0 (PDict m) = Inr (PDict c) \<and> read_frame H F n (f @ rest) = (Inr c, rest))
    \<and> (\<forall>s m' rest'. read_frame H F n s = (Inr m', rest') \<longrightarrow> (\<exists>f'. encode_frame H n (PDict m') = Inr f' \<and> s = f' @ rest'))"
proof (intro conjI allI impI)
  obtain b where b: "canonical_bytes H (PDict m) = Inr b" "b \<noteq> []" "length b \<le> n" "f = pack (length b) @ b"
    using assms(1) unfolding encode_frame_def bindE_Inr_iff checkE_Inr_iff by auto
  obtain c where "canonical_value H 0 (PDict m) = Inr (PDict c)" "parse_payload H F b = Inr c"
    using payload_round_trip [OF b(1) assms(3,4)] by blast
  then show "\<exists>c. canonical_value H 0 (PDict m) = Inr (PDict c) \<and> read_frame H F n (f @ rest) = (Inr c, rest)"
    using read_frame_frame [of b n H F rest] b assms(2) by auto
next
  fix s m' rest'
  assume "read_frame H F n s = (Inr m', rest')"
  from read_frame_accepted [OF this] obtain b where b: "s = (pack (length b) @ b) @ rest'" "parse_payload H F b = Inr m'" "b \<noteq> []" "length b \<le> n"
    by blast
  then have "encode_frame H n (PDict m') = Inr (pack (length b) @ b)"
    using parse_payload_canonical [OF b(2)] by (simp add: encode_frame_def del: validate_value.simps)
  then show "\<exists>f'. encode_frame H n (PDict m') = Inr f' \<and> s = f' @ rest'" using b(1) by blast
qed

definition demo_message :: dict where
  "demo_message = [(''request_id'', PStr ''r1''), (''body'', PDict [(''n'', PInt 7)])]"

definition no_floats :: json_floats where
  "no_floats = \<lparr>jf_float = (\<lambda>_. FNaN)\<rparr>"

theorem frame_codec_witness:
  "\<exists>f c. encode_frame demo_host MAX_FRAME_BYTES (PDict demo_message) = Inr f
    \<and> read_frame demo_host no_floats MAX_FRAME_BYTES (f @ f) = (Inr c, f) \<and> dict_get c ''body'' = PDict [(''n'', PInt 7)]"
proof -
  have m: "okE (encode_frame demo_host MAX_FRAME_BYTES (PDict demo_message))" "float_free (PDict demo_message)" "wf_val (PDict demo_message)"
    by (code_simp, code_simp, code_simp)
  then obtain f where f: "encode_frame demo_host MAX_FRAME_BYTES (PDict demo_message) = Inr f" by (auto simp: okE_iff)
  have "MAX_FRAME_BYTES < 2 ^ 32" by (simp add: MAX_FRAME_BYTES_def)
  from frame_codec [OF f this m(2,3)] obtain c where c: "canonical_value demo_host 0 (PDict demo_message) = Inr (PDict c)"
    "read_frame demo_host no_floats MAX_FRAME_BYTES (f @ f) = (Inr c, f)" by blast
  have "canonical_value demo_host 0 (PDict demo_message) = Inr (PDict [(''body'', PDict [(''n'', PInt 7)]), (''request_id'', PStr ''r1'')])"
    by code_simp
  then show ?thesis using f c by auto
qed

text \<open>
  C18: the server loop. On any byte stream \<open>serve\<close> ends and calls handlers at most \<open>max_requests\<close> times; everything it writes is a frame
  that \<open>encode_frame\<close> produced; and what happened is a run of \<open>serves\<close>: each handler call is for a message read from
  the stream, with exactly the body of that message and the fields of its type, before the deadline of the message and
  at most the window ahead, and after the authorizer of its type, if there is one, has accepted in the state of that moment
  the unsigned envelope of this message with the authorization of this message; the call is followed by at most one answer, which
  carries its request ID; and besides the handlers only the authorizers change the state.
\<close>

theorem rpc_server_sound:
  "case serve H F specs limit clock 0 0 source s of (tr, r, s') \<Rightarrow>
     calls_of tr \<le> limit \<and> list_all (is_frame H) tr \<and> serves H F specs clock 0 source s tr s'"
  using serve_serves [of H F specs limit clock 0 0 source s] serves_frames by (auto split: prod.split)

end
