(* ===== verification/FailSafe.thy ===== *)
theory FailSafe
  imports Broker Protocol
begin

text \<open>
  \<open>hardware_failsafe.py\<close>: the fail-safe switch that a signed heartbeat keeps armed, the host client that signs the
  heartbeats, and the contract it shares with the emergency stop. The physical backend is told to cut the power in
  \<open>_trip\<close> and its exceptions are swallowed: the model keeps the log of the reasons it was given. A message is its
  dictionary; \<open>SignedHeartbeat\<close> objects are the dictionaries that pass the same validation.

  \<open>pk_load\<close> is \<open>load_pem_public_key\<close> of the cryptography package, \<open>render\<close> is \<open>str\<close> on values that are not texts.
\<close>

section \<open>Signed messages\<close>

datatype pem_key = Ed_key string | Other_key | Bad_pem

record key_loader =
  pk_load :: "string \<Rightarrow> pem_key"

datatype switch = Armed | Tripped

text \<open>\<open>v == i\<close> for an integer \<open>i\<close>; the \<open>repr\<close> of an integral float below \<open>10^16\<close> ends in \<open>.0\<close>.\<close>

fun py_eq_int :: "pyval \<Rightarrow> int \<Rightarrow> bool" where
  "py_eq_int (PInt j) i \<longleftrightarrow> j = i"
| "py_eq_int (PBool b) i \<longleftrightarrow> i = (if b then 1 else 0)"
| "py_eq_int (PFloat FNegZero) i \<longleftrightarrow> i = 0"
| "py_eq_int (PFloat (FFinite r)) i \<longleftrightarrow> r = int_repr i @ ''.0''"
| "py_eq_int _ i \<longleftrightarrow> False"

text \<open>\<open>type(exc).__name__\<close>.\<close>

fun exn_name :: "exn \<Rightarrow> string" where
  "exn_name (CanonicalizationError _) = ''CanonicalizationError''"
| "exn_name JSONDecodeError = ''JSONDecodeError''"
| "exn_name UnicodeDecodeError = ''UnicodeDecodeError''"
| "exn_name UnicodeEncodeError = ''UnicodeEncodeError''"
| "exn_name (ValueError _) = ''ValueError''"
| "exn_name (TypeError _) = ''TypeError''"
| "exn_name (KeyError _) = ''KeyError''"
| "exn_name IndexError = ''IndexError''"
| "exn_name (AttributeError _) = ''AttributeError''"
| "exn_name (ValidationError _) = ''ValidationError''"
| "exn_name (CapabilityError _) = ''CapabilityError''"
| "exn_name (CapabilityConsumptionError _) = ''CapabilityConsumptionError''"
| "exn_name (DecayError _) = ''DecayError''"
| "exn_name (AttestationError _) = ''AttestationError''"
| "exn_name (HardwareFailSafeError _) = ''HardwareFailSafeError''"
| "exn_name (EmergencyStopError _) = ''EmergencyStopError''"
| "exn_name (RecorderIntegrityError _) = ''RecorderIntegrityError''"
| "exn_name (CanaryError _) = ''CanaryError''"
| "exn_name (AuthorizationDenied _) = ''AuthorizationDenied''"
| "exn_name (InjectedFault _ _) = ''InjectedFault''"
| "exn_name (ProtocolError _ _) = ''ProtocolError''"
| "exn_name EOFError = ''EOFError''"
| "exn_name (PermissionError _) = ''PermissionError''"
| "exn_name (RuntimeError _) = ''RuntimeError''"
| "exn_name (ExternalError name) = name"
| "exn_name (PolicySynthesisError _) = ''PolicySynthesisError''"
| "exn_name (PolicyCompilationError _) = ''PolicyCompilationError''"
| "exn_name (EffectJournalError _) = ''EffectJournalError''"
| "exn_name (EffectAlreadyReserved _) = ''EffectAlreadyReserved''"
| "exn_name (FencedRecipientError _) = ''FencedRecipientError''"
| "exn_name (FencedRecipientBindingError _) = ''FencedRecipientBindingError''"
| "exn_name OutOfFuel = ''OutOfFuel''"

record challenge =
  ch_identity :: string
  ch_id :: int
  ch_nonce :: string
  ch_issued_at_ms :: int
  ch_expires_at_ms :: int

definition challenge_init :: "(string \<Rightarrow> exn) \<Rightarrow> string \<Rightarrow> challenge \<Rightarrow> challenge res" where
  "challenge_init err name c = bindE (seqE
     [checkE (ch_identity c = [] \<or> ch_id c < 1) (err (name @ '' challenge identity is invalid'')),
      checkE (\<not> hex_n 32 (ch_nonce c)) (err (name @ '' challenge nonce is malformed'')),
      checkE (\<not> ch_issued_at_ms c < ch_expires_at_ms c) (err (name @ '' challenge lifetime is invalid''))]) (\<lambda>_. Inr c)"

text \<open>\<open>from_dict\<close> and \<open>__post_init__\<close> of the signed message classes: the claims and the signature.\<close>

definition parse_signed :: "(string \<Rightarrow> exn) \<Rightarrow> string \<Rightarrow> string list \<Rightarrow> host \<Rightarrow> pyval \<Rightarrow> (dict \<times> string) res" where
  "parse_signed err name names H v =
     bindE (checkE (\<not> is_mapping v \<or> \<not> set_eq_list (map fst (dict_of v)) [''algorithm'', ''claims'', ''signature''])
              (err (name @ '' envelope is malformed''))) (\<lambda>_.
     let claims = dict_get (dict_of v) ''claims''; signature = dict_get (dict_of v) ''signature'' in
     bindE (seqE
       [checkE (\<not> is_mapping claims \<or> \<not> set_eq_list (map fst (dict_of claims)) names) (err (name @ '' claims are malformed'')),
        checkE (dict_get (dict_of v) ''algorithm'' \<noteq> PStr ''Ed25519'') (err (name @ '' signature envelope is malformed'')),
        checkE (\<not> is_str signature) (TypeError ''expected string or bytes-like object''),
        checkE (\<not> is_b64_signature (str_of signature)) (err (name @ '' signature envelope is malformed'')),
        unitE (canonical_bytes H claims)]) (\<lambda>_.
     Inr (dict_of claims, str_of signature)))"

definition signed_message :: "dict \<Rightarrow> string \<Rightarrow> pyval" where
  "signed_message claims signature = PDict [(''algorithm'', PStr ''Ed25519''), (''claims'', PDict claims), (''signature'', PStr signature)]"

text \<open>\<open>urlsafe_b64decode(signature + "==")\<close> and \<open>verify\<close>.\<close>

definition verify_signed :: "host \<Rightarrow> ed25519 \<Rightarrow> string \<Rightarrow> dict \<Rightarrow> string \<Rightarrow> exn \<Rightarrow> unit res" where
  "verify_signed H E public_key claims signature e =
     bindE (catchE (canonical_bytes H (PDict claims)) is_value_error e) (\<lambda>message.
     checkE (\<not> ed_verify E public_key (b64_decode signature) message) e)"

text \<open>Membership of a claim in a set of texts.\<close>

definition check_action :: "pyval \<Rightarrow> string list \<Rightarrow> exn \<Rightarrow> unit res" where
  "check_action v actions e =
     bindE (checkE (unhashable v) (TypeError ''unhashable type'')) (\<lambda>_. checkE (\<forall>a \<in> set actions. v \<noteq> PStr a) e)"

section \<open>The switch\<close>

definition MESSAGE_SCHEMA :: string where "MESSAGE_SCHEMA = ''event-horizon.hardware-failsafe.v1''"

definition ACTIONS :: "string list" where "ACTIONS = [''heartbeat'', ''kill'', ''rearm'', ''rotate-key'']"

definition HEARTBEAT_FIELDS :: "string list" where
  "HEARTBEAT_FIELDS = [''schema'', ''device_id'', ''challenge_id'', ''challenge_nonce'', ''sequence'', ''issued_at_ms'', ''expires_at_ms'',
     ''policy_version'', ''evidence_chain_digest'', ''action'', ''action_payload'', ''key_id'']"

record failsafe =
  fs_device_id :: string
  fs_public_key :: string
  fs_active_key_id :: string
  fs_policy_version :: string
  fs_evidence_digest :: string
  fs_timeout_ms :: int
  fs_state :: switch
  fs_trip_reason :: string
  fs_last_sequence :: int
  fs_last_valid_ms :: "int option"
  fs_challenge_counter :: int
  fs_pending :: "challenge option"
  fs_kill_log :: "string list"

definition failsafe_init :: "host \<Rightarrow> key_loader \<Rightarrow> string \<Rightarrow> string \<Rightarrow> string \<Rightarrow> string \<Rightarrow> int \<Rightarrow> failsafe res" where
  "failsafe_init H K device_id pem policy_version evidence_digest timeout_ms = (case pk_load K pem of
     Bad_pem \<Rightarrow> Inl (ValueError ''fail-safe public key is invalid'')
   | loaded \<Rightarrow>
       if (case loaded of Ed_key _ \<Rightarrow> False | _ \<Rightarrow> True) \<or> device_id = [] \<or> policy_version = [] then Inl (ValueError ''fail-safe enrollment is invalid'')
       else if \<not> is_digest evidence_digest then Inl (ValueError ''fail-safe evidence digest is invalid'')
       else if \<not> (100 \<le> timeout_ms \<and> timeout_ms \<le> 60000) then Inl (ValueError ''heartbeat timeout is invalid'')
       else let raw = (case loaded of Ed_key raw \<Rightarrow> raw | _ \<Rightarrow> []) in
         Inr \<lparr>fs_device_id = device_id, fs_public_key = raw, fs_active_key_id = capability_key_id H raw,
              fs_policy_version = policy_version, fs_evidence_digest = evidence_digest, fs_timeout_ms = timeout_ms,
              fs_state = Tripped, fs_trip_reason = ''microcontroller-restart'', fs_last_sequence = 0, fs_last_valid_ms = None,
              fs_challenge_counter = 0, fs_pending = None, fs_kill_log = []\<rparr>)"

definition issue_challenge :: "int \<Rightarrow> int \<Rightarrow> string \<Rightarrow> failsafe \<Rightarrow> challenge res \<times> failsafe" where
  "issue_challenge now lifetime nonce s =
     (let s1 = s\<lparr>fs_challenge_counter := fs_challenge_counter s + 1\<rparr> in
      case challenge_init HardwareFailSafeError ''heartbeat''
        \<lparr>ch_identity = fs_device_id s, ch_id = fs_challenge_counter s1, ch_nonce = nonce, ch_issued_at_ms = now, ch_expires_at_ms = now + lifetime\<rparr> of
        Inl e \<Rightarrow> (Inl e, s1)
      | Inr c \<Rightarrow> (Inr c, s1\<lparr>fs_pending := Some c\<rparr>))"

definition trip :: "string \<Rightarrow> failsafe \<Rightarrow> failsafe" where
  "trip reason s = s\<lparr>fs_state := Tripped, fs_trip_reason := reason, fs_kill_log := fs_kill_log s @ [reason]\<rparr>"

text \<open>The checks of \<open>receive\<close> on the parsed claims.\<close>

definition heartbeat_checks :: "host \<Rightarrow> ed25519 \<Rightarrow> int \<Rightarrow> dict \<Rightarrow> string \<Rightarrow> failsafe \<Rightarrow> unit res" where
  "heartbeat_checks H E now claims signature s = (case fs_pending s of
     None \<Rightarrow> Inl (HardwareFailSafeError ''no outstanding heartbeat challenge'')
   | Some c \<Rightarrow> seqE
       [checkE (dict_get claims ''schema'' \<noteq> PStr MESSAGE_SCHEMA \<or> dict_get claims ''device_id'' \<noteq> PStr (fs_device_id s))
          (HardwareFailSafeError ''heartbeat device or schema mismatch''),
        checkE (dict_get claims ''key_id'' \<noteq> PStr (fs_active_key_id s) \<or> \<not> is_key_id (fs_active_key_id s))
          (HardwareFailSafeError ''heartbeat key identity mismatch''),
        checkE (\<not> py_eq_int (dict_get claims ''challenge_id'') (ch_id c) \<or> dict_get claims ''challenge_nonce'' \<noteq> PStr (ch_nonce c))
          (HardwareFailSafeError ''heartbeat challenge mismatch''),
        checkE (now \<ge> ch_expires_at_ms c) (HardwareFailSafeError ''heartbeat challenge expired''),
        checkE (\<not> list_all (\<lambda>k. is_int (dict_get claims k)) [''sequence'', ''issued_at_ms'', ''expires_at_ms''])
          (HardwareFailSafeError ''heartbeat counters are malformed''),
        checkE (int_of (dict_get claims ''sequence'') \<le> fs_last_sequence s) (HardwareFailSafeError ''heartbeat sequence is stale or replayed''),
        checkE (now < int_of (dict_get claims ''issued_at_ms'') - 1000 \<or> now \<ge> int_of (dict_get claims ''expires_at_ms''))
          (HardwareFailSafeError ''heartbeat freshness check failed''),
        checkE (dict_get claims ''policy_version'' \<noteq> PStr (fs_policy_version s)) (HardwareFailSafeError ''heartbeat policy mismatch''),
        checkE (dict_get claims ''evidence_chain_digest'' \<noteq> PStr (fs_evidence_digest s)) (HardwareFailSafeError ''heartbeat evidence digest mismatch''),
        check_action (dict_get claims ''action'') ACTIONS (HardwareFailSafeError ''heartbeat action is malformed''),
        checkE (\<not> is_mapping (dict_get claims ''action_payload'')) (HardwareFailSafeError ''heartbeat action is malformed''),
        verify_signed H E (fs_public_key s) claims signature (HardwareFailSafeError ''heartbeat signature is invalid'')])"

definition rotate_key :: "host \<Rightarrow> key_loader \<Rightarrow> dict \<Rightarrow> failsafe \<Rightarrow> failsafe res" where
  "rotate_key H K payload s =
     bindE (checkE (\<not> set_eq_list (map fst payload) [''new_key_id'', ''new_public_key_pem'']) (HardwareFailSafeError ''key rotation payload is malformed'')) (\<lambda>_.
     case dict_get payload ''new_public_key_pem'' of
       PStr pem \<Rightarrow> (case pk_load K pem of
           Bad_pem \<Rightarrow> Inl (HardwareFailSafeError ''rotated public key is invalid'')
         | Other_key \<Rightarrow> Inl (HardwareFailSafeError ''rotated public key identity mismatch'')
         | Ed_key raw \<Rightarrow>
             if dict_get payload ''new_key_id'' \<noteq> PStr (capability_key_id H raw) then Inl (HardwareFailSafeError ''rotated public key identity mismatch'')
             else Inr (s\<lparr>fs_public_key := raw, fs_active_key_id := capability_key_id H raw\<rparr>))
     | _ \<Rightarrow> Inl (HardwareFailSafeError ''rotated public key is invalid''))"

text \<open>What a verified message does; \<open>Inl\<close> leads to the handler of the exceptions.\<close>

definition perform :: "host \<Rightarrow> key_loader \<Rightarrow> (pyval \<Rightarrow> string) \<Rightarrow> bool \<Rightarrow> int \<Rightarrow> string \<Rightarrow> dict \<Rightarrow> failsafe \<Rightarrow> failsafe res" where
  "perform H K render trusted_rearm now action payload s =
     (if action = ''kill'' then
        Inr (trip (py_take 128 (case map_of payload ''reason'' of None \<Rightarrow> ''explicit-trusted-kill'' | Some v \<Rightarrow> py_str render v)) s)
      else if action = ''rearm'' then
        if \<not> trusted_rearm then Inl (HardwareFailSafeError ''re-arm requires an explicit trusted procedure'')
        else Inr (s\<lparr>fs_state := Armed, fs_trip_reason := [], fs_last_valid_ms := Some now\<rparr>)
      else if action = ''rotate-key'' then rotate_key H K payload s
      else Inr (if fs_state s = Armed then s\<lparr>fs_last_valid_ms := Some now\<rparr> else s))"

definition fail_closed :: "exn \<Rightarrow> failsafe \<Rightarrow> switch res \<times> failsafe" where
  "fail_closed e s =
     (Inl (case e of HardwareFailSafeError _ \<Rightarrow> e | _ \<Rightarrow> HardwareFailSafeError ''heartbeat validation failed closed''),
      trip (exn_name e) (s\<lparr>fs_pending := None\<rparr>))"

definition receive ::
  "host \<Rightarrow> ed25519 \<Rightarrow> key_loader \<Rightarrow> (pyval \<Rightarrow> string) \<Rightarrow> pyval \<Rightarrow> int \<Rightarrow> bool \<Rightarrow> failsafe \<Rightarrow> switch res \<times> failsafe" where
  "receive H E K render message now trusted_rearm s =
     (case bindE (parse_signed HardwareFailSafeError ''heartbeat'' HEARTBEAT_FIELDS H message) (\<lambda>(claims, signature).
             bindE (heartbeat_checks H E now claims signature s) (\<lambda>_. Inr claims)) of
        Inl e \<Rightarrow> fail_closed e s
      | Inr claims \<Rightarrow>
          let s1 = s\<lparr>fs_pending := None, fs_last_sequence := int_of (dict_get claims ''sequence'')\<rparr> in
          (case perform H K render trusted_rearm now (str_of (dict_get claims ''action'')) (dict_of (dict_get claims ''action_payload'')) s1 of
             Inl e \<Rightarrow> fail_closed e s1
           | Inr s2 \<Rightarrow> (Inr (fs_state s2), s2)))"

definition tick :: "int \<Rightarrow> failsafe \<Rightarrow> switch \<times> failsafe" where
  "tick now s =
     (let s' = (if fs_state s = Armed \<and> (case fs_last_valid_ms s of None \<Rightarrow> True | Some t \<Rightarrow> now - t \<ge> fs_timeout_ms s)
                then trip ''heartbeat-timeout'' s else s) in (fs_state s', s'))"

subsection \<open>The host client\<close>

record host_client =
  hc_device_id :: string
  hc_private_key :: string
  hc_sequence :: int

definition client_init :: "string \<Rightarrow> string \<Rightarrow> int \<Rightarrow> host_client res" where
  "client_init device_id seed initial_sequence =
     (if length seed < 32 then Inl (ValueError ''heartbeat signing seed is invalid'')
      else if device_id = [] \<or> initial_sequence < 0 then Inl (ValueError ''heartbeat client identity or sequence is invalid'')
      else Inr \<lparr>hc_device_id = device_id, hc_private_key = take 32 seed, hc_sequence = initial_sequence\<rparr>)"

definition heartbeat_claims ::
  "host \<Rightarrow> ed25519 \<Rightarrow> host_client \<Rightarrow> challenge \<Rightarrow> int \<Rightarrow> int \<Rightarrow> string \<Rightarrow> string \<Rightarrow> string \<Rightarrow> dict \<Rightarrow> dict" where
  "heartbeat_claims H E hc c now lifetime policy_version evidence_digest action payload =
     [(''schema'', PStr MESSAGE_SCHEMA), (''device_id'', PStr (hc_device_id hc)), (''challenge_id'', PInt (ch_id c)),
      (''challenge_nonce'', PStr (ch_nonce c)), (''sequence'', PInt (hc_sequence hc + 1)), (''issued_at_ms'', PInt now),
      (''expires_at_ms'', PInt (now + lifetime)), (''policy_version'', PStr policy_version),
      (''evidence_chain_digest'', PStr evidence_digest), (''action'', PStr action), (''action_payload'', PDict payload),
      (''key_id'', PStr (capability_key_id H (ed_public E (hc_private_key hc))))]"

definition respond ::
  "host \<Rightarrow> ed25519 \<Rightarrow> challenge \<Rightarrow> int \<Rightarrow> int \<Rightarrow> string \<Rightarrow> string \<Rightarrow> string \<Rightarrow> dict \<Rightarrow> host_client \<Rightarrow> pyval res \<times> host_client" where
  "respond H E c now lifetime policy_version evidence_digest action payload hc =
     (let claims = heartbeat_claims H E hc c now lifetime policy_version evidence_digest action payload in
      (bindE (canonical_bytes H (PDict claims)) (\<lambda>message.
         let m = signed_message claims (b64_encode (ed_sign E (hc_private_key hc) message)) in
         bindE (parse_signed HardwareFailSafeError ''heartbeat'' HEARTBEAT_FIELDS H m) (\<lambda>_. Inr m)),
       hc\<lparr>hc_sequence := hc_sequence hc + 1\<rparr>))"

subsection \<open>Histories\<close>

datatype switch_call = Issue int string | Receive pyval | Tick

datatype switch_answer = Challenged challenge | State switch

text \<open>The environment of a call: the time and the trusted flag of the caller.\<close>

definition failsafe_call ::
  "host \<Rightarrow> ed25519 \<Rightarrow> key_loader \<Rightarrow> (pyval \<Rightarrow> string) \<Rightarrow> int \<times> bool \<Rightarrow> switch_call \<Rightarrow> failsafe \<Rightarrow> switch_answer res \<times> failsafe" where
  "failsafe_call H E K render env c s = (case c of
     Issue lifetime nonce \<Rightarrow> (case issue_challenge (fst env) lifetime nonce s of (r, s') \<Rightarrow> (bindE r (\<lambda>ch. Inr (Challenged ch)), s'))
   | Receive message \<Rightarrow> (case receive H E K render message (fst env) (snd env) s of (r, s') \<Rightarrow> (bindE r (\<lambda>st. Inr (State st)), s'))
   | Tick \<Rightarrow> (case tick (fst env) s of (st, s') \<Rightarrow> (Inr (State st), s')))"

section \<open>The contract of a fail-safe switch\<close>

text \<open>
  A failed message and every call that answers \<open>Tripped\<close> leave the switch tripped; only a message that asks for it and
  comes with the trusted flag arms it.
\<close>

definition trips_on :: "switch_call \<Rightarrow> switch_answer res \<Rightarrow> bool" where
  "trips_on c r \<longleftrightarrow> (case c of Receive _ \<Rightarrow> \<not> okE r | _ \<Rightarrow> False) \<or> r = Inr (State Tripped)"

definition claim_of :: "pyval \<Rightarrow> string \<Rightarrow> pyval" where
  "claim_of message k = dict_get (dict_of (dict_get (dict_of message) ''claims'')) k"

definition rearms :: "int \<times> bool \<Rightarrow> switch_call \<Rightarrow> switch_answer res \<Rightarrow> bool" where
  "rearms env c r \<longleftrightarrow> snd env \<and> r = Inr (State Armed) \<and> (case c of Receive message \<Rightarrow> claim_of message ''action'' = PStr ''rearm'' | _ \<Rightarrow> False)"

locale fail_safe =
  fixes run :: "'e \<Rightarrow> 'c \<Rightarrow> 's \<Rightarrow> 'r \<times> 's" and armed :: "'s \<Rightarrow> bool" and tripping :: "'c \<Rightarrow> 'r \<Rightarrow> bool" and rearming :: "'e \<Rightarrow> 'c \<Rightarrow> 'r \<Rightarrow> bool"
  assumes trip_law: "run e c s = (r, s') \<Longrightarrow> tripping c r \<Longrightarrow> \<not> armed s'"
    and arm_law: "run e c s = (r, s') \<Longrightarrow> armed s' \<Longrightarrow> armed s \<or> rearming e c r"
begin

text \<open>From some call on, nothing tripped the switch, and that call re-armed it (or it is the start).\<close>

lemma armed_since:
  assumes "armed (snd (run_calls run cs s))"
  shows "(armed s \<and> (\<forall>j < length cs. \<not> tripping (snd (cs ! j)) (fst (run_calls run cs s) ! j)))
    \<or> (\<exists>k < length cs. rearming (fst (cs ! k)) (snd (cs ! k)) (fst (run_calls run cs s) ! k)
        \<and> (\<forall>j. k \<le> j \<longrightarrow> j < length cs \<longrightarrow> \<not> tripping (snd (cs ! j)) (fst (run_calls run cs s) ! j)))"
  using assms
proof (induction cs arbitrary: s)
  case (Cons a cs)
  obtain e c where a: "a = (e, c)" by (cases a)
  obtain r s1 where f: "run e c s = (r, s1)" by fastforce
  obtain rs s2 where rest: "run_calls run cs s1 = (rs, s2)" by fastforce
  have all: "run_calls run (a # cs) s = (r # rs, s2)" using a f rest by simp
  have not_trip: "\<not> tripping c r" if "armed s1" using trip_law f that by blast
  from Cons.IH [of s1] Cons.prems rest all
  consider (start) "armed s1" "\<forall>j < length cs. \<not> tripping (snd (cs ! j)) (rs ! j)"
    | (later) k where "k < length cs" "rearming (fst (cs ! k)) (snd (cs ! k)) (rs ! k)"
      "\<forall>j. k \<le> j \<longrightarrow> j < length cs \<longrightarrow> \<not> tripping (snd (cs ! j)) (rs ! j)" by auto
  then show ?case
  proof cases
    case start
    then have "\<forall>j < length (a # cs). \<not> tripping (snd ((a # cs) ! j)) ((r # rs) ! j)"
      using not_trip a by (auto simp: less_Suc_eq_0_disj)
    moreover have "armed s \<or> rearming e c r" using arm_law f start(1) by blast
    ultimately show ?thesis using all a by auto
  next
    case later
    have "\<forall>j. Suc k \<le> j \<longrightarrow> j < length (a # cs) \<longrightarrow> \<not> tripping (snd ((a # cs) ! j)) ((r # rs) ! j)"
      using later(3) by (auto simp: Suc_le_eq gr0_conv_Suc less_Suc_eq_0_disj)
    then show ?thesis using later(1,2) all by (intro disjI2 exI [of _ "Suc k"]) auto
  qed
qed simp

end

section \<open>Lemmas\<close>

lemma trip_state [simp]: "fs_state (trip reason s) = Tripped"
  by (simp add: trip_def)

lemma fail_closed_cases:
  assumes "fail_closed e s = (r, s')"
  shows "\<not> okE r" and "fs_state s' = Tripped" and "fs_pending s' = None"
  using assms by (auto simp: fail_closed_def okE_def trip_def)

lemma rotate_key_state: "rotate_key H K p s = Inr s' \<Longrightarrow> fs_state s' = fs_state s \<and> fs_pending s' = fs_pending s"
  by (auto simp: rotate_key_def bindE_Inr_iff split: pyval.split_asm pem_key.split_asm if_split_asm)

lemma perform_arms:
  assumes "perform H K render trusted now action payload s = Inr s'"
  shows "fs_state s' = Armed \<Longrightarrow> fs_state s = Armed \<or> (trusted \<and> action = ''rearm'')" and "fs_pending s' = fs_pending s"
proof -
  consider "action = ''kill''" | "action = ''rearm''" | "action = ''rotate-key''" | "action \<noteq> ''kill''" "action \<noteq> ''rearm''" "action \<noteq> ''rotate-key''"
    by blast
  then show "fs_state s' = Armed \<Longrightarrow> fs_state s = Armed \<or> (trusted \<and> action = ''rearm'')" "fs_pending s' = fs_pending s"
    using assms rotate_key_state by (cases; force simp: perform_def trip_def split: if_split_asm)+
qed

lemma parse_signed_Inr:
  assumes "parse_signed err name names H message = Inr (claims, signature)"
  shows "message = PDict (dict_of message)" and "claims = dict_of (dict_get (dict_of message) ''claims'')"
    and "signature = str_of (dict_get (dict_of message) ''signature'')" and "set (map fst claims) = set names"
  using assms unfolding parse_signed_def Let_def bindE_Inr_iff seqE_Inr_iff
  by (auto simp: checkE_Inr_iff is_mapping_PDict)

lemma receive_cases:
  assumes "receive H E K render message now trusted s = (r, s')"
  obtains (failed) e where "r = Inl e" "fs_state s' = Tripped" "fs_pending s' = None"
  | (performed) claims signature s1 where "parse_signed HardwareFailSafeError ''heartbeat'' HEARTBEAT_FIELDS H message = Inr (claims, signature)"
      "heartbeat_checks H E now claims signature s = Inr ()"
      "s1 = s\<lparr>fs_pending := None, fs_last_sequence := int_of (dict_get claims ''sequence'')\<rparr>"
      "perform H K render trusted now (str_of (dict_get claims ''action'')) (dict_of (dict_get claims ''action_payload'')) s1 = Inr s'"
      "r = Inr (fs_state s')"
proof -
  let ?checked = "bindE (parse_signed HardwareFailSafeError ''heartbeat'' HEARTBEAT_FIELDS H message) (\<lambda>(claims, signature).
    bindE (heartbeat_checks H E now claims signature s) (\<lambda>_. Inr claims))"
  have closed: thesis if "fail_closed e t = (r, s')" for e t
    using failed fail_closed_cases [OF that] by (auto simp: okE_iff) (metis sum.exhaust)
  show thesis
  proof (cases ?checked)
    case (Inl e)
    then show thesis using assms closed by (simp add: receive_def)
  next
    case (Inr claims)
    let ?s1 = "s\<lparr>fs_pending := None, fs_last_sequence := int_of (dict_get claims ''sequence'')\<rparr>"
    obtain signature where p: "parse_signed HardwareFailSafeError ''heartbeat'' HEARTBEAT_FIELDS H message = Inr (claims, signature)"
      "heartbeat_checks H E now claims signature s = Inr ()" using Inr by (auto simp: bindE_Inr_iff)
    show thesis
    proof (cases "perform H K render trusted now (str_of (dict_get claims ''action'')) (dict_of (dict_get claims ''action_payload'')) ?s1")
      case (Inl e)
      then show thesis using assms Inr closed by (simp add: receive_def Let_def)
    next
      case out: (Inr s2)
      then have "r = Inr (fs_state s2)" "s' = s2" using assms Inr by (auto simp: receive_def Let_def)
      then show thesis using performed [OF p refl] out by blast
    qed
  qed
qed

text \<open>Every message uses up the challenge, and without a challenge every message trips the switch.\<close>

lemma receive_spends: "receive H E K render message now trusted s = (r, s') \<Longrightarrow> fs_pending s' = None"
  by (erule receive_cases) (auto dest: perform_arms(2))

lemma receive_without_challenge:
  assumes "fs_pending s = None" and "receive H E K render message now trusted s = (r, s')"
  shows "\<not> okE r" and "fs_state s' = Tripped"
  using assms(2) by (cases rule: receive_cases, use assms(1) in \<open>auto simp: okE_def heartbeat_checks_def\<close>)+

lemma receive_arms:
  assumes "receive H E K render message now trusted s = (r, s')" and "fs_state s' = Armed"
  shows "fs_state s = Armed \<or> (trusted \<and> r = Inr Armed \<and> claim_of message ''action'' = PStr ''rearm'')"
  using assms(1)
proof (cases rule: receive_cases)
  case (performed claims signature s1)
  have "dict_get claims ''action'' = PStr ''rearm''" if "str_of (dict_get claims ''action'') = ''rearm''"
    using that by (cases "dict_get claims ''action''") auto
  then show ?thesis
    using perform_arms(1) [OF performed(4) assms(2)] performed(3,5) assms(2) parse_signed_Inr(2) [OF performed(1)] by (auto simp: claim_of_def)
qed (use assms(2) in simp)

interpretation switch: fail_safe "failsafe_call H E K render" "\<lambda>s. fs_state s = Armed" trips_on rearms for H E K render
proof
  fix e c s r s'
  assume call: "failsafe_call H E K render e c s = (r, s')"
  show "\<not> fs_state s' = Armed" if "trips_on c r"
  proof (cases c)
    case (Receive m)
    obtain r1 where "receive H E K render m (fst e) (snd e) s = (r1, s')" "r = bindE r1 (\<lambda>st. Inr (State st))"
      using call Receive by (auto simp: failsafe_call_def split: prod.split_asm)
    then show ?thesis using that by (cases rule: receive_cases) (auto simp: trips_on_def okE_def Receive)
  qed (use call that in \<open>auto simp: failsafe_call_def trips_on_def okE_def tick_def Let_def bindE_Inr_iff split: prod.split_asm\<close>)
  show "fs_state s = Armed \<or> rearms e c r" if "fs_state s' = Armed"
  proof (cases c)
    case (Receive m)
    obtain r1 where r1: "receive H E K render m (fst e) (snd e) s = (r1, s')" "r = bindE r1 (\<lambda>st. Inr (State st))"
      using call Receive by (auto simp: failsafe_call_def split: prod.split_asm)
    then show ?thesis using receive_arms [OF r1(1) that] Receive by (auto simp: rearms_def)
  qed (use call that in \<open>auto simp: failsafe_call_def issue_challenge_def tick_def Let_def split: prod.split_asm sum.split_asm if_split_asm\<close>)
qed

text \<open>The message of the host client is what the switch parses and checks.\<close>

lemma respond_Inr:
  assumes "respond H E c t lifetime pv ed action payload hc = (Inr m, hc')"
  obtains message where "canonical_bytes H (PDict (heartbeat_claims H E hc c t lifetime pv ed action payload)) = Inr message"
    and "parse_signed HardwareFailSafeError ''heartbeat'' HEARTBEAT_FIELDS H m
      = Inr (heartbeat_claims H E hc c t lifetime pv ed action payload, b64_encode (ed_sign E (hc_private_key hc) message))"
proof -
  let ?claims = "heartbeat_claims H E hc c t lifetime pv ed action payload"
  obtain message p where message: "canonical_bytes H (PDict ?claims) = Inr message"
    "m = signed_message ?claims (b64_encode (ed_sign E (hc_private_key hc) message))"
    "parse_signed HardwareFailSafeError ''heartbeat'' HEARTBEAT_FIELDS H m = Inr p"
    using assms by (auto simp: respond_def Let_def bindE_Inr_iff)
  obtain cl sg where p: "p = (cl, sg)" by (cases p)
  have "cl = ?claims" "sg = b64_encode (ed_sign E (hc_private_key hc) message)"
    using parse_signed_Inr(2,3) [OF message(3) [unfolded p]] by (simp_all add: message(2) signed_message_def)
  then show thesis using that message p by blast
qed

lemma heartbeat_claim_simps:
  "dict_get (heartbeat_claims H E hc c t lifetime pv ed action payload) ''schema'' = PStr MESSAGE_SCHEMA"
  "dict_get (heartbeat_claims H E hc c t lifetime pv ed action payload) ''device_id'' = PStr (hc_device_id hc)"
  "dict_get (heartbeat_claims H E hc c t lifetime pv ed action payload) ''challenge_id'' = PInt (ch_id c)"
  "dict_get (heartbeat_claims H E hc c t lifetime pv ed action payload) ''challenge_nonce'' = PStr (ch_nonce c)"
  "dict_get (heartbeat_claims H E hc c t lifetime pv ed action payload) ''sequence'' = PInt (hc_sequence hc + 1)"
  "dict_get (heartbeat_claims H E hc c t lifetime pv ed action payload) ''issued_at_ms'' = PInt t"
  "dict_get (heartbeat_claims H E hc c t lifetime pv ed action payload) ''expires_at_ms'' = PInt (t + lifetime)"
  "dict_get (heartbeat_claims H E hc c t lifetime pv ed action payload) ''policy_version'' = PStr pv"
  "dict_get (heartbeat_claims H E hc c t lifetime pv ed action payload) ''evidence_chain_digest'' = PStr ed"
  "dict_get (heartbeat_claims H E hc c t lifetime pv ed action payload) ''action'' = PStr action"
  "dict_get (heartbeat_claims H E hc c t lifetime pv ed action payload) ''action_payload'' = PDict payload"
  "dict_get (heartbeat_claims H E hc c t lifetime pv ed action payload) ''key_id'' = PStr (capability_key_id H (ed_public E (hc_private_key hc)))"
  by (simp_all add: heartbeat_claims_def)

text \<open>A client and a switch that share device, key and expectations, and whose sequence numbers fit.\<close>

definition paired :: "host \<Rightarrow> ed25519 \<Rightarrow> host_client \<Rightarrow> failsafe \<Rightarrow> bool" where
  "paired H E hc s \<longleftrightarrow> hc_device_id hc = fs_device_id s \<and> fs_public_key s = ed_public E (hc_private_key hc)
     \<and> fs_active_key_id s = capability_key_id H (fs_public_key s) \<and> is_key_id (fs_active_key_id s) \<and> fs_last_sequence s \<le> hc_sequence hc"

lemma honest_checks:
  assumes "paired H E hc s" and "fs_pending s = Some c" and "ed25519_correct E (hc_private_key hc)" and "action \<in> set ACTIONS"
    and "canonical_bytes H (PDict (heartbeat_claims H E hc c t lifetime (fs_policy_version s) (fs_evidence_digest s) action payload)) = Inr message"
    and "t - 1000 \<le> now" and "now < t + lifetime" and "now < ch_expires_at_ms c"
  shows "heartbeat_checks H E now (heartbeat_claims H E hc c t lifetime (fs_policy_version s) (fs_evidence_digest s) action payload)
    (b64_encode (ed_sign E (hc_private_key hc) message)) s = Inr ()"
proof -
  have "ed_verify E (fs_public_key s) (ed_sign E (hc_private_key hc) message) message"
    using assms(1,3) by (simp add: paired_def ed25519_correct_def)
  then have "verify_signed H E (fs_public_key s) (heartbeat_claims H E hc c t lifetime (fs_policy_version s) (fs_evidence_digest s) action payload)
      (b64_encode (ed_sign E (hc_private_key hc) message)) x = Inr ()" for x
    using assms(5) by (simp add: verify_signed_def catchE_def b64_decode_encode)
  moreover have "check_action (PStr action) ACTIONS x = Inr ()" for x
    using assms(4) by (simp add: check_action_def checkE_Inr_iff)
  ultimately show ?thesis
    using assms unfolding heartbeat_checks_def by (auto simp: paired_def heartbeat_claim_simps)
qed

section \<open>Properties\<close>

text \<open>
  C23: the switch is armed only by a trusted re-arm. A switch starts tripped; when it is armed after any history of issued
  challenges, received messages and clock ticks, some message of that history asked for it, came with the trusted flag
  and was accepted, and since then no message failed and no call answered that the switch is tripped.
\<close>

theorem armed_by_trusted_rearm:
  assumes "failsafe_init H K device pem pv ed timeout = Inr s"
    and "fs_state (snd (run_calls (failsafe_call H E K render) cs s)) = Armed"
  shows "\<exists>k < length cs. rearms (fst (cs ! k)) (snd (cs ! k)) (fst (run_calls (failsafe_call H E K render) cs s) ! k)
    \<and> (\<forall>j. k \<le> j \<longrightarrow> j < length cs \<longrightarrow> \<not> trips_on (snd (cs ! j)) (fst (run_calls (failsafe_call H E K render) cs s) ! j))"
proof -
  have "fs_state s = Tripped"
    using assms(1) by (auto simp: failsafe_init_def Let_def split: pem_key.split_asm if_split_asm)
  then show ?thesis using switch.armed_since [OF assms(2)] by simp
qed

text \<open>A device enrolled with a client, and the messages that re-arm and keep it.\<close>

definition demo_loader :: key_loader where
  "demo_loader = \<lparr>pk_load = Ed_key\<rparr>"

definition demo_client :: host_client where
  "demo_client = \<lparr>hc_device_id = ''d'', hc_private_key = ''key'', hc_sequence = 0\<rparr>"

definition demo_device :: failsafe where
  "demo_device = projr (failsafe_init demo_host demo_loader ''d'' ''key'' ''v1'' demo_digest 2000)"

definition demo_challenge :: challenge where
  "demo_challenge = \<lparr>ch_identity = ''d'', ch_id = 1, ch_nonce = replicate 32 CHR ''0'', ch_issued_at_ms = 0, ch_expires_at_ms = 1000\<rparr>"

definition demo_answer :: "string \<Rightarrow> pyval" where
  "demo_answer action = projr (fst (respond demo_host demo_ed25519 demo_challenge 10 1000 ''v1'' demo_digest action [] demo_client))"

definition demo_calls :: "((int \<times> bool) \<times> switch_call) list" where
  "demo_calls = [((0, False), Issue 1000 (replicate 32 CHR ''0'')), ((20, True), Receive (demo_answer ''rearm'')), ((30, False), Tick)]"

theorem armed_by_trusted_rearm_witness:
  "failsafe_init demo_host demo_loader ''d'' ''key'' ''v1'' demo_digest 2000 = Inr demo_device
    \<and> (\<exists>k < length demo_calls. rearms (fst (demo_calls ! k)) (snd (demo_calls ! k))
         (fst (run_calls (failsafe_call demo_host demo_ed25519 demo_loader (\<lambda>_. [])) demo_calls demo_device) ! k))"
proof -
  have i: "failsafe_init demo_host demo_loader ''d'' ''key'' ''v1'' demo_digest 2000 = Inr demo_device"
    by code_simp
  have r: "fs_state (snd (run_calls (failsafe_call demo_host demo_ed25519 demo_loader (\<lambda>_. [])) demo_calls demo_device)) = Armed"
    by code_simp
  show ?thesis using i armed_by_trusted_rearm [OF i r] by blast
qed

text \<open>
  C25: an honest heartbeat is accepted. When the paired host client answers the outstanding challenge, the switch accepts the
  message inside both windows, keeps its state, uses up the challenge, and an armed switch restarts its timeout. Ed25519 is
  assumed to verify its own 64 byte signatures.
\<close>

theorem honest_heartbeat_accepted:
  assumes "respond H E c t lifetime (fs_policy_version s) (fs_evidence_digest s) ''heartbeat'' [] hc = (Inr m, hc')"
    and "paired H E hc s" and "fs_pending s = Some c" and "ed25519_correct E (hc_private_key hc)"
    and "t - 1000 \<le> now" and "now < t + lifetime" and "now < ch_expires_at_ms c"
  shows "\<exists>s'. receive H E K render m now trusted s = (Inr (fs_state s), s') \<and> fs_state s' = fs_state s \<and> fs_pending s' = None
    \<and> paired H E hc' s' \<and> (fs_state s = Armed \<longrightarrow> fs_last_valid_ms s' = Some now)"
proof -
  let ?claims = "heartbeat_claims H E hc c t lifetime (fs_policy_version s) (fs_evidence_digest s) ''heartbeat'' []"
  obtain message where message: "canonical_bytes H (PDict ?claims) = Inr message"
    "parse_signed HardwareFailSafeError ''heartbeat'' HEARTBEAT_FIELDS H m = Inr (?claims, b64_encode (ed_sign E (hc_private_key hc) message))"
    using respond_Inr [OF assms(1)] .
  have "heartbeat_checks H E now ?claims (b64_encode (ed_sign E (hc_private_key hc) message)) s = Inr ()"
    using honest_checks [OF assms(2-4) _ message(1) assms(5-7)] by (simp add: ACTIONS_def)
  then have "receive H E K render m now trusted s =
      (let s1 = s\<lparr>fs_pending := None, fs_last_sequence := hc_sequence hc + 1\<rparr>;
           s2 = (if fs_state s1 = Armed then s1\<lparr>fs_last_valid_ms := Some now\<rparr> else s1) in (Inr (fs_state s2), s2))"
    using message(2) by (simp add: receive_def heartbeat_claim_simps perform_def Let_def)
  moreover have "hc' = hc\<lparr>hc_sequence := hc_sequence hc + 1\<rparr>" using assms(1) by (simp add: respond_def Let_def)
  ultimately show ?thesis using assms(2) by (auto simp: Let_def paired_def)
qed

theorem honest_heartbeat_accepted_witness:
  "\<exists>s'. receive demo_host demo_ed25519 demo_loader (\<lambda>_. []) (demo_answer ''heartbeat'') 500 False
      (demo_device\<lparr>fs_state := Armed, fs_pending := Some demo_challenge\<rparr>) = (Inr Armed, s') \<and> fs_last_valid_ms s' = Some 500"
proof -
  let ?s = "demo_device\<lparr>fs_state := Armed, fs_pending := Some demo_challenge\<rparr>"
  have v: "fs_policy_version ?s = ''v1''" "fs_evidence_digest ?s = demo_digest" "paired demo_host demo_ed25519 demo_client ?s" "fs_state ?s = Armed"
    by code_simp+
  have "okE (fst (respond demo_host demo_ed25519 demo_challenge 10 1000 ''v1'' demo_digest ''heartbeat'' [] demo_client))" by code_simp
  then obtain hc where r: "respond demo_host demo_ed25519 demo_challenge 10 1000 ''v1'' demo_digest ''heartbeat'' [] demo_client = (Inr (demo_answer ''heartbeat''), hc)"
    unfolding demo_answer_def by (metis okE_iff prod.collapse sum.sel(2))
  show ?thesis
    using honest_heartbeat_accepted [OF _ v(3) _ demo_ed_correct, of demo_challenge 10 1000 "demo_answer ''heartbeat''" hc 500 demo_loader "\<lambda>_. []" False] r v
    by (simp add: demo_challenge_def) blast
qed

end
