(* ===== verification/Emergency.thy ===== *)
theory Emergency
  imports FailSafe
begin

text \<open>
  \<open>emergency_stop.py\<close>: the controller that signed emergency actions trip and re-arm, and that collects the revoked
  authorities and external effects. The recorder is the argument \<open>rec\<close>: it may refuse, as \<open>ExternalRecorder.append\<close>
  does. Sets are lists in the order of insertion. Comparisons that involve a float are the parameters \<open>float_ops\<close>.
\<close>

section \<open>Definitions\<close>

definition EMERGENCY_SCHEMA :: string where "EMERGENCY_SCHEMA = ''event-horizon.emergency-stop.v1''"

definition EMERGENCY_ACTIONS :: "string list" where
  "EMERGENCY_ACTIONS = [''kill'', ''rearm'', ''rotate-key'', ''revoke-authority'', ''revoke-external-effects'']"

definition EMERGENCY_FIELDS :: "string list" where
  "EMERGENCY_FIELDS = [''schema'', ''component_id'', ''challenge_id'', ''challenge_nonce'', ''sequence'', ''issued_at_ms'', ''expires_at_ms'',
     ''action'', ''action_payload'', ''key_id'']"

record float_ops =
  fo_le :: "pyval \<Rightarrow> pyval \<Rightarrow> bool"
  fo_early :: "int \<Rightarrow> pyval \<Rightarrow> bool"
  fo_late :: "int \<Rightarrow> pyval \<Rightarrow> bool"

record 'r emergency =
  es_component_id :: string
  es_recorder :: 'r
  es_state :: switch
  es_trip_reason :: pyval
  es_sequence :: pyval
  es_challenge_counter :: int
  es_pending :: "challenge option"
  es_authorized_keys :: "(string \<times> string) list"
  es_trusted_rearm_keys :: "string list"
  es_revoked_authorities :: "pyval list"
  es_revoked_effects :: "pyval list"

definition emergency_init :: "string \<Rightarrow> 'r \<Rightarrow> 'r emergency res" where
  "emergency_init component_id r =
     (if component_id = [] then Inl (EmergencyStopError ''component_id is required'')
      else Inr \<lparr>es_component_id = component_id, es_recorder = r, es_state = Tripped, es_trip_reason = PStr ''controller-restart'',
        es_sequence = PInt 0, es_challenge_counter = 0, es_pending = None, es_authorized_keys = [], es_trusted_rearm_keys = [],
        es_revoked_authorities = [], es_revoked_effects = []\<rparr>)"

type_synonym 'r recorder_append = "string \<Rightarrow> dict \<Rightarrow> 'r \<Rightarrow> unit res \<times> 'r"

definition record_event :: "'r recorder_append \<Rightarrow> string \<Rightarrow> dict \<Rightarrow> 'r emergency \<Rightarrow> unit res \<times> 'r emergency" where
  "record_event rec event payload s = (case rec event payload (es_recorder s) of (r, q) \<Rightarrow> (r, s\<lparr>es_recorder := q\<rparr>))"

subsection \<open>Keys\<close>

definition enroll_key ::
  "host \<Rightarrow> key_loader \<Rightarrow> 'r recorder_append \<Rightarrow> string \<Rightarrow> string \<Rightarrow> bool \<Rightarrow> string \<Rightarrow> 'r emergency \<Rightarrow> unit res \<times> 'r emergency" where
  "enroll_key H K rec kid pem trusted_for_rearm actor s =
     (if \<not> is_key_id kid then (Inl (EmergencyStopError ''key_id format is invalid''), s)
      else case pk_load K pem of
        Ed_key raw \<Rightarrow>
          if capability_key_id H raw \<noteq> kid then (Inl (EmergencyStopError ''invalid public key: key_id does not match public key''), s)
          else if kid \<in> set (map fst (es_authorized_keys s)) then (Inl (EmergencyStopError ''key already enrolled''), s)
          else record_event rec ''emergency_stop.key_enrolled''
                 [(''key_id'', PStr kid), (''component_id'', PStr (es_component_id s)), (''trusted_for_rearm'', PBool trusted_for_rearm), (''actor'', PStr actor)]
                 (s\<lparr>es_authorized_keys := es_authorized_keys s @ [(kid, raw)],
                    es_trusted_rearm_keys := (if trusted_for_rearm then es_trusted_rearm_keys s @ [kid] else es_trusted_rearm_keys s)\<rparr>)
      | Other_key \<Rightarrow> (Inl (EmergencyStopError ''invalid public key: public key must be Ed25519''), s)
      | Bad_pem \<Rightarrow> (Inl (EmergencyStopError ''invalid public key''), s))"

definition revoke_key :: "'r recorder_append \<Rightarrow> string \<Rightarrow> string \<Rightarrow> 'r emergency \<Rightarrow> unit res \<times> 'r emergency" where
  "revoke_key rec kid actor s =
     (if kid \<notin> set (map fst (es_authorized_keys s)) then (Inl (EmergencyStopError ''key not enrolled''), s)
      else record_event rec ''emergency_stop.key_revoked''
        [(''key_id'', PStr kid), (''component_id'', PStr (es_component_id s)), (''actor'', PStr actor)]
        (s\<lparr>es_authorized_keys := filter (\<lambda>p. fst p \<noteq> kid) (es_authorized_keys s),
           es_trusted_rearm_keys := filter (\<lambda>k. k \<noteq> kid) (es_trusted_rearm_keys s)\<rparr>))"

definition emergency_challenge :: "int \<Rightarrow> int \<Rightarrow> string \<Rightarrow> 'r emergency \<Rightarrow> challenge res \<times> 'r emergency" where
  "emergency_challenge now lifetime nonce s =
     (let s1 = s\<lparr>es_challenge_counter := es_challenge_counter s + 1\<rparr> in
      case challenge_init EmergencyStopError ''emergency stop''
        \<lparr>ch_identity = es_component_id s, ch_id = es_challenge_counter s1, ch_nonce = nonce, ch_issued_at_ms = now, ch_expires_at_ms = now + lifetime\<rparr> of
        Inl e \<Rightarrow> (Inl e, s1)
      | Inr c \<Rightarrow> (Inr c, s1\<lparr>es_pending := Some c\<rparr>))"

subsection \<open>Actions\<close>

fun num_of :: "pyval \<Rightarrow> int option" where
  "num_of (PInt i) = Some i"
| "num_of (PBool b) = Some (if b then 1 else 0)"
| "num_of _ = None"

fun is_float :: "pyval \<Rightarrow> bool" where
  "is_float (PFloat _) = True"
| "is_float _ = False"

definition unsupported :: exn where
  "unsupported = TypeError ''unsupported operand types''"

text \<open>\<open>a <= b\<close>, \<open>now < v - 1_000\<close> and \<open>now >= v\<close>.\<close>

definition py_le :: "float_ops \<Rightarrow> pyval \<Rightarrow> pyval \<Rightarrow> bool res" where
  "py_le F a b = (case (num_of a, num_of b) of
     (Some x, Some y) \<Rightarrow> Inr (x \<le> y)
   | (x, y) \<Rightarrow> if (x = None \<longrightarrow> is_float a) \<and> (y = None \<longrightarrow> is_float b) then Inr (fo_le F a b) else Inl unsupported)"

definition too_early :: "float_ops \<Rightarrow> int \<Rightarrow> pyval \<Rightarrow> bool res" where
  "too_early F now v = (case num_of v of Some t \<Rightarrow> Inr (now < t - 1000) | None \<Rightarrow> if is_float v then Inr (fo_early F now v) else Inl unsupported)"

definition too_late :: "float_ops \<Rightarrow> int \<Rightarrow> pyval \<Rightarrow> bool res" where
  "too_late F now v = (case num_of v of Some t \<Rightarrow> Inr (now \<ge> t) | None \<Rightarrow> if is_float v then Inr (fo_late F now v) else Inl unsupported)"

text \<open>\<open>if b: raise e\<close> for a condition that may itself raise.\<close>

definition check_resE :: "bool res \<Rightarrow> exn \<Rightarrow> unit res" where
  "check_resE b e = bindE b (\<lambda>c. checkE c e)"

definition action_checks :: "host \<Rightarrow> ed25519 \<Rightarrow> float_ops \<Rightarrow> int \<Rightarrow> dict \<Rightarrow> string \<Rightarrow> 'r emergency \<Rightarrow> unit res" where
  "action_checks H E F now claims signature s = (case es_pending s of
     None \<Rightarrow> Inl (EmergencyStopError ''no outstanding challenge'')
   | Some c \<Rightarrow> seqE
       [checkE (dict_get claims ''schema'' \<noteq> PStr EMERGENCY_SCHEMA \<or> dict_get claims ''component_id'' \<noteq> PStr (es_component_id s))
          (EmergencyStopError ''component or schema mismatch''),
        check_action (dict_get claims ''key_id'') (map fst (es_authorized_keys s)) (EmergencyStopError ''action key not authorized''),
        checkE (\<not> py_eq_int (dict_get claims ''challenge_id'') (ch_id c) \<or> dict_get claims ''challenge_nonce'' \<noteq> PStr (ch_nonce c))
          (EmergencyStopError ''challenge mismatch''),
        checkE (now \<ge> ch_expires_at_ms c) (EmergencyStopError ''challenge expired''),
        check_resE (py_le F (dict_get claims ''sequence'') (es_sequence s)) (EmergencyStopError ''stale or replayed sequence''),
        check_resE (too_early F now (dict_get claims ''issued_at_ms'')) (EmergencyStopError ''freshness check failed''),
        check_resE (too_late F now (dict_get claims ''expires_at_ms'')) (EmergencyStopError ''freshness check failed''),
        check_action (dict_get claims ''action'') EMERGENCY_ACTIONS (EmergencyStopError ''invalid action''),
        verify_signed H E (the (map_of (es_authorized_keys s) (str_of (dict_get claims ''key_id'')))) claims signature
          (EmergencyStopError ''invalid signature'')])"

text \<open>
  \<open>dict(v)\<close>: a mapping, or a sequence of pairs. Keys that are not texts are dropped: the code only looks up texts.
\<close>

definition pair_of :: "pyval \<Rightarrow> (pyval \<times> pyval) res" where
  "pair_of v = (case v of
     PList [k, x] \<Rightarrow> Inr (k, x)
   | PTuple [k, x] \<Rightarrow> Inr (k, x)
   | PStr s \<Rightarrow> (case code_points s of [a, b] \<Rightarrow> Inr (PStr a, PStr b) | _ \<Rightarrow> Inl (ValueError ''dictionary update sequence element''))
   | PDict [(k, _), (l, _)] \<Rightarrow> Inr (PStr k, PStr l)
   | PList _ \<Rightarrow> Inl (ValueError ''dictionary update sequence element'')
   | PTuple _ \<Rightarrow> Inl (ValueError ''dictionary update sequence element'')
   | PDict _ \<Rightarrow> Inl (ValueError ''dictionary update sequence element'')
   | _ \<Rightarrow> Inl (TypeError ''cannot convert dictionary update sequence element to a sequence''))"

fun pairs_dict :: "pyval list \<Rightarrow> dict \<Rightarrow> dict res" where
  "pairs_dict [] m = Inr m"
| "pairs_dict (v # vs) m = bindE (pair_of v) (\<lambda>(k, x).
     bindE (checkE (unhashable k) (TypeError ''unhashable type'')) (\<lambda>_.
     pairs_dict vs (case k of PStr t \<Rightarrow> AList.update t x m | _ \<Rightarrow> m)))"

definition py_dict :: "pyval \<Rightarrow> dict res" where
  "py_dict v = (case v of
     PDict m \<Rightarrow> Inr m
   | PList xs \<Rightarrow> pairs_dict xs []
   | PTuple xs \<Rightarrow> pairs_dict xs []
   | PStr s \<Rightarrow> pairs_dict (map PStr (code_points s)) []
   | _ \<Rightarrow> Inl (TypeError ''object is not iterable''))"

text \<open>\<open>reason[:256]\<close>.\<close>

definition py_prefix :: "nat \<Rightarrow> pyval \<Rightarrow> pyval res" where
  "py_prefix n v = (case v of
     PStr s \<Rightarrow> Inr (PStr (py_take n s))
   | PList xs \<Rightarrow> Inr (PList (take n xs))
   | PTuple xs \<Rightarrow> Inr (PTuple (take n xs))
   | _ \<Rightarrow> Inl (TypeError ''object is not subscriptable''))"

definition emergency_trip :: "'r recorder_append \<Rightarrow> pyval \<Rightarrow> 'r emergency \<Rightarrow> unit res \<times> 'r emergency" where
  "emergency_trip rec reason s =
     (let s1 = s\<lparr>es_state := Tripped\<rparr> in
      case py_prefix 256 reason of
        Inl e \<Rightarrow> (Inl e, s1)
      | Inr v \<Rightarrow> record_event rec ''emergency_stop.tripped''
          [(''component_id'', PStr (es_component_id s)), (''reason'', v), (''revoked_authorities'', PList (es_revoked_authorities s)),
           (''revoked_external_effects'', PList (es_revoked_effects s))] (s1\<lparr>es_trip_reason := v\<rparr>))"

text \<open>A revocation: the identifier must be truthy and hashable, and is recorded with the time of day.\<close>

definition revocation :: "exn \<Rightarrow> pyval \<Rightarrow> unit res" where
  "revocation missing v = seqE [checkE (\<not> truthy v) missing, checkE (unhashable v) (TypeError ''unhashable type'')]"

definition emergency_perform :: "'r recorder_append \<Rightarrow> bool \<Rightarrow> int \<Rightarrow> string \<Rightarrow> dict \<Rightarrow> 'r emergency \<Rightarrow> unit res \<times> 'r emergency" where
  "emergency_perform rec trusted_operator wall_ms action payload s =
     (if action = ''kill'' then emergency_trip rec (case map_of payload ''reason'' of None \<Rightarrow> PStr ''explicit-kill'' | Some v \<Rightarrow> v) s
      else if action = ''rearm'' then
        if \<not> trusted_operator then (Inl (EmergencyStopError ''rearm requires trusted operator''), s)
        else (Inr (), s\<lparr>es_state := Armed, es_trip_reason := PStr []\<rparr>)
      else if action = ''revoke-authority'' then
        let v = dict_get payload ''authority_id'' in
        (case revocation (EmergencyStopError ''revoke-authority requires authority_id'') v of
           Inl e \<Rightarrow> (Inl e, s)
         | Inr _ \<Rightarrow> record_event rec ''emergency_stop.authority_revoked''
             [(''component_id'', PStr (es_component_id s)), (''authority_id'', v), (''revoked_at_ms'', PInt wall_ms)]
             (s\<lparr>es_revoked_authorities := List.insert v (es_revoked_authorities s)\<rparr>))
      else if action = ''revoke-external-effects'' then
        let v = dict_get payload ''effect_id'' in
        (case revocation (EmergencyStopError ''revoke-external-effects requires effect_id'') v of
           Inl e \<Rightarrow> (Inl e, s)
         | Inr _ \<Rightarrow> record_event rec ''emergency_stop.external_effect_revoked''
             [(''component_id'', PStr (es_component_id s)), (''effect_id'', v), (''revoked_at_ms'', PInt wall_ms)]
             (s\<lparr>es_revoked_effects := List.insert v (es_revoked_effects s)\<rparr>))
      else (Inr (), s))"

text \<open>The handler of the exceptions; an exception of the recorder inside it replaces the one it handles.\<close>

definition emergency_closed :: "'r recorder_append \<Rightarrow> exn \<Rightarrow> 'r emergency \<Rightarrow> switch res \<times> 'r emergency" where
  "emergency_closed rec e s = (case emergency_trip rec (PStr (exn_name e)) (s\<lparr>es_pending := None\<rparr>) of
     (Inl e', s') \<Rightarrow> (Inl e', s')
   | (Inr _, s') \<Rightarrow> (Inl (case e of EmergencyStopError _ \<Rightarrow> e | _ \<Rightarrow> EmergencyStopError ''validation failed closed''), s'))"

definition receive_action ::
  "host \<Rightarrow> ed25519 \<Rightarrow> float_ops \<Rightarrow> 'r recorder_append \<Rightarrow> pyval \<Rightarrow> int \<Rightarrow> int \<Rightarrow> bool \<Rightarrow> 'r emergency \<Rightarrow> switch res \<times> 'r emergency" where
  "receive_action H E F rec message now wall_ms trusted_operator s =
     (case bindE (parse_signed EmergencyStopError ''emergency action'' EMERGENCY_FIELDS H message) (\<lambda>(claims, signature).
             bindE (action_checks H E F now claims signature s) (\<lambda>_. Inr claims)) of
        Inl e \<Rightarrow> emergency_closed rec e s
      | Inr claims \<Rightarrow>
          let s1 = s\<lparr>es_pending := None, es_sequence := dict_get claims ''sequence''\<rparr> in
          (case py_dict (dict_get claims ''action_payload'') of
             Inl e \<Rightarrow> emergency_closed rec e s1
           | Inr payload \<Rightarrow>
               (case emergency_perform rec trusted_operator wall_ms (str_of (dict_get claims ''action'')) payload s1 of
                  (Inl e, s2) \<Rightarrow> emergency_closed rec e s2
                | (Inr _, s2) \<Rightarrow> (Inr (es_state s2), s2))))"

definition is_authority_revoked :: "pyval \<Rightarrow> 'r emergency \<Rightarrow> bool" where
  "is_authority_revoked v s \<longleftrightarrow> v \<in> set (es_revoked_authorities s)"

definition is_external_effect_revoked :: "pyval \<Rightarrow> 'r emergency \<Rightarrow> bool" where
  "is_external_effect_revoked v s \<longleftrightarrow> v \<in> set (es_revoked_effects s)"

subsection \<open>Histories\<close>

datatype emergency_op = Enroll string string bool string | Revoke string string | Command switch_call

text \<open>The environment of a call: time, time of day and the trusted flag.\<close>

definition emergency_call ::
  "host \<Rightarrow> ed25519 \<Rightarrow> key_loader \<Rightarrow> float_ops \<Rightarrow> 'r recorder_append \<Rightarrow> int \<times> int \<times> bool \<Rightarrow> emergency_op \<Rightarrow> 'r emergency
     \<Rightarrow> switch_answer res \<times> 'r emergency" where
  "emergency_call H E K F rec env c s = (case (env, c) of
     (_, Enroll kid pem trusted actor) \<Rightarrow> (case enroll_key H K rec kid pem trusted actor s of (r, s') \<Rightarrow> (bindE r (\<lambda>_. Inr (State (es_state s'))), s'))
   | (_, Revoke kid actor) \<Rightarrow> (case revoke_key rec kid actor s of (r, s') \<Rightarrow> (bindE r (\<lambda>_. Inr (State (es_state s'))), s'))
   | ((now, _, _), Command (Issue lifetime nonce)) \<Rightarrow> (case emergency_challenge now lifetime nonce s of (r, s') \<Rightarrow> (bindE r (\<lambda>ch. Inr (Challenged ch)), s'))
   | ((now, wall, trusted), Command (Receive message)) \<Rightarrow>
       (case receive_action H E F rec message now wall trusted s of (r, s') \<Rightarrow> (bindE r (\<lambda>st. Inr (State st)), s'))
   | (_, Command Tick) \<Rightarrow> (Inr (State (es_state s)), s))"

definition op_trips :: "emergency_op \<Rightarrow> switch_answer res \<Rightarrow> bool" where
  "op_trips c r \<longleftrightarrow> (case c of Command c' \<Rightarrow> trips_on c' r | _ \<Rightarrow> False)"

definition op_rearms :: "int \<times> int \<times> bool \<Rightarrow> emergency_op \<Rightarrow> switch_answer res \<Rightarrow> bool" where
  "op_rearms env c r \<longleftrightarrow> (case c of Command c' \<Rightarrow> rearms (fst env, snd (snd env)) c' r | _ \<Rightarrow> False)"

section \<open>Lemmas\<close>

lemma record_event_frame:
  assumes "record_event rec event payload s = (r, s')"
  shows "es_state s' = es_state s" and "es_pending s' = es_pending s" and "es_revoked_authorities s' = es_revoked_authorities s"
    and "es_revoked_effects s' = es_revoked_effects s" and "es_authorized_keys s' = es_authorized_keys s"
  using assms by (auto simp: record_event_def split: prod.split_asm)

text \<open>What every operation keeps: revocations stay.\<close>

definition keeps_revoked :: "'r emergency \<Rightarrow> 'r emergency \<Rightarrow> bool" where
  "keeps_revoked s s' \<longleftrightarrow> set (es_revoked_authorities s) \<subseteq> set (es_revoked_authorities s') \<and> set (es_revoked_effects s) \<subseteq> set (es_revoked_effects s')"

lemma keeps_revoked_refl [simp]: "keeps_revoked s s"
  by (simp add: keeps_revoked_def)

lemma keeps_revoked_trans: "keeps_revoked a b \<Longrightarrow> keeps_revoked b c \<Longrightarrow> keeps_revoked a c"
  by (auto simp: keeps_revoked_def)

lemma keeps_revoked_record:
  "record_event rec event payload t = (r, s') \<Longrightarrow> keeps_revoked s t \<Longrightarrow> keeps_revoked s s'"
  using record_event_frame by (metis keeps_revoked_def)

lemma emergency_trip_Tripped:
  assumes "emergency_trip rec reason s = (r, s')"
  shows "es_state s' = Tripped" and "keeps_revoked s s'" and "es_pending s' = es_pending s"
  using assms
  by (auto simp: emergency_trip_def Let_def keeps_revoked_def split: sum.split_asm dest: record_event_frame)

lemma emergency_closed_Tripped:
  assumes "emergency_closed rec e s = (r, s')"
  shows "\<exists>e'. r = Inl e'" and "es_state s' = Tripped" and "keeps_revoked s s'" and "es_pending s' = None"
proof -
  obtain q where "emergency_trip rec (PStr (exn_name e)) (s\<lparr>es_pending := None\<rparr>) = (q, s')"
    using assms by (auto simp: emergency_closed_def split: prod.split_asm sum.split_asm)
  from emergency_trip_Tripped [OF this] show "es_state s' = Tripped" "keeps_revoked s s'" "es_pending s' = None"
    by (simp_all add: keeps_revoked_def)
  show "\<exists>e'. r = Inl e'" using assms by (auto simp: emergency_closed_def split: prod.split_asm sum.split_asm)
qed

lemma emergency_perform_arms:
  assumes "emergency_perform rec trusted wall action payload s = (r, s')"
  shows "es_state s' = Armed \<Longrightarrow> es_state s = Armed \<or> (trusted \<and> action = ''rearm'')" and "keeps_revoked s s'" and "es_pending s' = es_pending s"
proof -
  consider "action = ''kill''" | "action = ''rearm''" | "action = ''revoke-authority''" | "action = ''revoke-external-effects''"
    | "action \<notin> {''kill'', ''rearm'', ''revoke-authority'', ''revoke-external-effects''}" by blast
  then show "es_state s' = Armed \<Longrightarrow> es_state s = Armed \<or> (trusted \<and> action = ''rearm'')" "keeps_revoked s s'" "es_pending s' = es_pending s"
    using assms
    by (cases; force simp: emergency_perform_def Let_def keeps_revoked_def split: if_split_asm sum.split_asm
        dest: record_event_frame emergency_trip_Tripped [unfolded keeps_revoked_def])+
qed

lemma receive_action_cases:
  assumes "receive_action H E F rec message now wall trusted s = (r, s')"
  obtains (failed) e where "r = Inl e" "es_state s' = Tripped" "keeps_revoked s s'"
  | (performed) claims signature payload s1 where
      "parse_signed EmergencyStopError ''emergency action'' EMERGENCY_FIELDS H message = Inr (claims, signature)"
      "action_checks H E F now claims signature s = Inr ()"
      "s1 = s\<lparr>es_pending := None, es_sequence := dict_get claims ''sequence''\<rparr>" "py_dict (dict_get claims ''action_payload'') = Inr payload"
      "emergency_perform rec trusted wall (str_of (dict_get claims ''action'')) payload s1 = (Inr (), s')" "r = Inr (es_state s')"
proof -
  let ?checked = "bindE (parse_signed EmergencyStopError ''emergency action'' EMERGENCY_FIELDS H message) (\<lambda>(claims, signature).
    bindE (action_checks H E F now claims signature s) (\<lambda>_. Inr claims))"
  have closed: thesis if "emergency_closed rec e t = (r, s')" and "keeps_revoked s t" for e t
    using emergency_closed_Tripped [OF that(1)] that(2) failed keeps_revoked_trans by blast
  show thesis
  proof (cases ?checked)
    case (Inl e)
    then show thesis using assms closed by (simp add: receive_action_def)
  next
    case (Inr claims)
    let ?s1 = "s\<lparr>es_pending := None, es_sequence := dict_get claims ''sequence''\<rparr>"
    have k: "keeps_revoked s ?s1" by (simp add: keeps_revoked_def)
    obtain signature where p: "parse_signed EmergencyStopError ''emergency action'' EMERGENCY_FIELDS H message = Inr (claims, signature)"
      "action_checks H E F now claims signature s = Inr ()" using Inr by (auto simp: bindE_Inr_iff)
    show thesis
    proof (cases "py_dict (dict_get claims ''action_payload'')")
      case (Inl e)
      then show thesis using assms Inr k closed by (simp add: receive_action_def Let_def)
    next
      case pl: (Inr payload)
      obtain q s2 where q: "emergency_perform rec trusted wall (str_of (dict_get claims ''action'')) payload ?s1 = (q, s2)" by fastforce
      have k2: "keeps_revoked s s2" using emergency_perform_arms(2) [OF q] k keeps_revoked_trans by blast
      show thesis
      proof (cases q)
        case (Inl e)
        then show thesis using assms Inr pl q k2 closed by (simp add: receive_action_def Let_def)
      next
        case out: (Inr u)
        then have "r = Inr (es_state s2)" "s' = s2" using assms Inr pl q by (auto simp: receive_action_def Let_def)
        then show thesis using performed [OF p refl pl] q out by simp
      qed
    qed
  qed
qed

lemma receive_action_arms:
  assumes "receive_action H E F rec message now wall trusted s = (r, s')" and "es_state s' = Armed"
  shows "es_state s = Armed \<or> (trusted \<and> r = Inr Armed \<and> claim_of message ''action'' = PStr ''rearm'')"
  using assms(1)
proof (cases rule: receive_action_cases)
  case (performed claims signature payload s1)
  have "dict_get claims ''action'' = PStr ''rearm''" if "str_of (dict_get claims ''action'') = ''rearm''"
    using that by (cases "dict_get claims ''action''") auto
  then show ?thesis
    using emergency_perform_arms(1) [OF performed(5) assms(2)] performed(3,6) assms(2) parse_signed_Inr(2) [OF performed(1)] by (auto simp: claim_of_def)
qed (use assms(2) in simp)

lemma receive_action_keeps: "receive_action H E F rec message now wall trusted s = (r, s') \<Longrightarrow> keeps_revoked s s'"
  by (erule receive_action_cases) (auto simp: keeps_revoked_def dest!: emergency_perform_arms(2))

lemma key_ops_frame:
  "enroll_key H K rec kid pem trusted actor s = (r, s') \<Longrightarrow> es_state s' = es_state s \<and> keeps_revoked s s'"
  "revoke_key rec kid actor s = (r, s') \<Longrightarrow> es_state s' = es_state s \<and> keeps_revoked s s'"
  "emergency_challenge now lifetime nonce s = (c, s') \<Longrightarrow> es_state s' = es_state s \<and> keeps_revoked s s'"
  by (auto simp: enroll_key_def revoke_key_def emergency_challenge_def Let_def keeps_revoked_def
      split: if_split_asm pem_key.split_asm sum.split_asm dest: record_event_frame)

lemma emergency_call_cases:
  assumes "emergency_call H E K F rec env c s = (r, s')"
  obtains (quiet) "es_state s' = es_state s" "keeps_revoked s s'" "\<not> op_trips c r \<or> es_state s' = Tripped"
  | (received) m q where "c = Command (Receive m)" "receive_action H E F rec m (fst env) (fst (snd env)) (snd (snd env)) s = (q, s')"
      "r = bindE q (\<lambda>st. Inr (State st))"
proof (cases c)
  case (Enroll kid pem trusted actor)
  then obtain q where "enroll_key H K rec kid pem trusted actor s = (q, s')" using assms by (auto simp: emergency_call_def split: prod.split_asm)
  then show thesis using quiet key_ops_frame(1) Enroll by (fastforce simp: op_trips_def)
next
  case (Revoke kid actor)
  then obtain q where "revoke_key rec kid actor s = (q, s')" using assms by (auto simp: emergency_call_def split: prod.split_asm)
  then show thesis using quiet key_ops_frame(2) Revoke by (fastforce simp: op_trips_def)
next
  case (Command c')
  show thesis
  proof (cases c')
    case (Issue lifetime nonce)
    then obtain q where q: "emergency_challenge (fst env) lifetime nonce s = (q, s')" "r = bindE q (\<lambda>ch. Inr (Challenged ch))"
      using assms Command by (auto simp: emergency_call_def split: prod.split_asm)
    then have "r \<noteq> Inr (State Tripped)" by (auto simp: bindE_Inr_iff)
    then show thesis using quiet key_ops_frame(3) [OF q(1)] Command Issue by (auto simp: op_trips_def trips_on_def)
  next
    case (Receive m)
    then show thesis using assms Command received by (auto simp: emergency_call_def split: prod.split_asm)
  next
    case Tick
    then show thesis using assms Command quiet by (auto simp: emergency_call_def op_trips_def trips_on_def split: prod.split_asm)
  qed
qed

interpretation stop: fail_safe "emergency_call H E K F rec" "\<lambda>s. es_state s = Armed" op_trips op_rearms for H E K F rec
proof
  fix e c s r s'
  assume call: "emergency_call H E K F rec e c s = (r, s')"
  show "\<not> es_state s' = Armed" if "op_trips c r"
    using call
  proof (cases rule: emergency_call_cases)
    case (received m q)
    from received(2) show ?thesis
      using that by (cases rule: receive_action_cases) (auto simp: op_trips_def trips_on_def okE_def received)
  qed (use that in auto)
  show "es_state s = Armed \<or> op_rearms e c r" if "es_state s' = Armed"
    using call
  proof (cases rule: emergency_call_cases)
    case (received m q)
    then show ?thesis using receive_action_arms [OF received(2) that] by (auto simp: op_rearms_def rearms_def)
  qed (use that in auto)
qed

lemma emergency_call_keeps: "emergency_call H E K F rec env c s = (r, s') \<Longrightarrow> keeps_revoked s s'"
  by (erule emergency_call_cases) (auto dest: receive_action_keeps)

lemma emergency_run_keeps: "keeps_revoked s (snd (run_calls (emergency_call H E K F rec) cs s))"
proof (induction cs arbitrary: s)
  case (Cons a cs)
  obtain e c r s' where a: "a = (e, c)" and f: "emergency_call H E K F rec e c s = (r, s')" by fastforce
  have "snd (run_calls (emergency_call H E K F rec) (a # cs) s) = snd (run_calls (emergency_call H E K F rec) cs s')"
    by (simp add: a f case_prod_beta)
  then show ?case using keeps_revoked_trans [OF emergency_call_keeps [OF f] Cons.IH [of s']] by simp
qed simp

lemma emergency_run_append:
  "snd (run_calls f (xs @ ys) s) = snd (run_calls f ys (snd (run_calls f xs s)))"
proof (induction xs arbitrary: s)
  case (Cons a xs)
  show ?case by (cases a) (simp add: Cons case_prod_beta)
qed simp

section \<open>Properties\<close>

text \<open>
  C24: the emergency stop. A new controller is tripped; it is armed after a history of enrolments, key revocations, challenges
  and received actions, whatever the recorder does, only when a re-arm action with the trusted operator flag was accepted
  and no action failed or answered tripped since; and nothing ever takes back the revocation of an authority or effect.
\<close>

theorem emergency_stop_safe:
  assumes "emergency_init component q = Inr s"
  shows "(es_state (snd (run_calls (emergency_call H E K F rec) cs s)) = Armed \<longrightarrow>
      (\<exists>k < length cs. op_rearms (fst (cs ! k)) (snd (cs ! k)) (fst (run_calls (emergency_call H E K F rec) cs s) ! k)
        \<and> (\<forall>j. k \<le> j \<longrightarrow> j < length cs \<longrightarrow> \<not> op_trips (snd (cs ! j)) (fst (run_calls (emergency_call H E K F rec) cs s) ! j))))
    \<and> (is_authority_revoked v (snd (run_calls (emergency_call H E K F rec) (take n cs) s))
        \<longrightarrow> is_authority_revoked v (snd (run_calls (emergency_call H E K F rec) cs s)))
    \<and> (is_external_effect_revoked v (snd (run_calls (emergency_call H E K F rec) (take n cs) s))
        \<longrightarrow> is_external_effect_revoked v (snd (run_calls (emergency_call H E K F rec) cs s)))"
proof -
  have "es_state s = Tripped" using assms by (auto simp: emergency_init_def split: if_split_asm)
  moreover have "keeps_revoked (snd (run_calls (emergency_call H E K F rec) (take n cs) s)) (snd (run_calls (emergency_call H E K F rec) cs s))"
    using emergency_run_keeps [of "snd (run_calls (emergency_call H E K F rec) (take n cs) s)" H E K F rec "drop n cs"]
    by (simp add: emergency_run_append [symmetric])
  ultimately show ?thesis
    using stop.armed_since [of H E K F rec cs s] by (auto simp: keeps_revoked_def is_authority_revoked_def is_external_effect_revoked_def)
qed

text \<open>A controller with one key: a re-arm, then a revocation.\<close>

definition quiet_recorder :: "unit recorder_append" where
  "quiet_recorder event payload q = (Inr (), q)"

definition no_float_ops :: float_ops where
  "no_float_ops = \<lparr>fo_le = (\<lambda>_ _. True), fo_early = (\<lambda>_ _. True), fo_late = (\<lambda>_ _. True)\<rparr>"

definition demo_key_id :: string where
  "demo_key_id = capability_key_id demo_host ''key''"

definition demo_action :: "int \<Rightarrow> string \<Rightarrow> dict \<Rightarrow> pyval" where
  "demo_action n action payload = signed_message
     [(''schema'', PStr EMERGENCY_SCHEMA), (''component_id'', PStr ''c''), (''challenge_id'', PInt n), (''challenge_nonce'', PStr (replicate 32 CHR ''0'')),
      (''sequence'', PInt n), (''issued_at_ms'', PInt 0), (''expires_at_ms'', PInt 900), (''action'', PStr action), (''action_payload'', PDict payload),
      (''key_id'', PStr demo_key_id)] (b64_encode demo_digest)"

definition demo_stop :: "unit emergency" where
  "demo_stop = projr (emergency_init ''c'' ())"

definition demo_ops :: "((int \<times> int \<times> bool) \<times> emergency_op) list" where
  "demo_ops = [((0, 0, False), Enroll demo_key_id ''key'' True ''operator''),
     ((0, 0, False), Command (Issue 1000 (replicate 32 CHR ''0''))),
     ((10, 10, True), Command (Receive (demo_action 1 ''rearm'' []))),
     ((20, 20, False), Command (Issue 1000 (replicate 32 CHR ''0''))),
     ((30, 30, False), Command (Receive (demo_action 2 ''revoke-authority'' [(''authority_id'', PStr ''a1'')])))]"

theorem emergency_stop_safe_witness:
  "emergency_init ''c'' () = Inr demo_stop
    \<and> (\<exists>k < length demo_ops. op_rearms (fst (demo_ops ! k)) (snd (demo_ops ! k))
         (fst (run_calls (emergency_call demo_host demo_ed25519 demo_loader no_float_ops quiet_recorder) demo_ops demo_stop) ! k))
    \<and> is_authority_revoked (PStr ''a1'') (snd (run_calls (emergency_call demo_host demo_ed25519 demo_loader no_float_ops quiet_recorder) demo_ops demo_stop))"
proof -
  let ?run = "run_calls (emergency_call demo_host demo_ed25519 demo_loader no_float_ops quiet_recorder)"
  have i: "emergency_init ''c'' () = Inr demo_stop" by code_simp
  have "es_state (snd (?run demo_ops demo_stop)) = Armed" by code_simp
  moreover have "is_authority_revoked (PStr ''a1'') (snd (?run demo_ops demo_stop))" by code_simp
  ultimately show ?thesis using i emergency_stop_safe [OF i, of demo_host demo_ed25519 demo_loader no_float_ops quiet_recorder demo_ops] by blast
qed

text \<open>
  \<open>rotate-key\<close> is one of the accepted actions and does nothing: a verified rotation uses up the challenge, is answered
  with the state of the controller and leaves the enrolled keys as they are.
\<close>

lemma rotate_key_ignored: "emergency_perform rec trusted wall ''rotate-key'' payload s = (Inr (), s)"
  by (simp add: emergency_perform_def)

end
