(* ===== verification/Spec2Isabelle.thy ===== *)
theory Spec2Isabelle
  imports Executor Recovery Raft Emergency
begin

text \<open>
  Verification of the Event Horizon harness (\<open>src/src/event_horizon\<close>).

  \<^bold>\<open>The program.\<close> A hostile agent asks for actions; the harness decides, hands out short-lived signed capabilities for exactly
  one action, and lets an executor or a gateway perform the action once. The parts interact as follows. A request
  (\<open>models.py\<close>) enters through the intent canonicalizer (\<open>intent_canonicalizer.py\<close>), which records it, asks the guardian quorum
  (\<open>guardians.py\<close>, with \<open>policy.py\<close> and \<open>attestation.py\<close>), describes the task, lets a synthesizer propose a policy ceiling and the
  trusted compiler bound it (\<open>task_policy.py\<close>), and has the broker sign a capability (\<open>broker.py\<close>). The executor
  (\<open>executor.py\<close>) or the trusted gateway (\<open>trusted_effect_gateway.py\<close>) redeems it against a consumption store
  (\<open>replay_state.py\<close>, replicated by \<open>raft_core.py\<close>) and the trust decay state (\<open>trust_decay.py\<close>), then performs the effect; the
  outcome journal (\<open>effect_outcome_journal.py\<close>), the fenced recipient (\<open>fenced_recipient.py\<close>) and the recovery
  (\<open>fenced_effect_recovery.py\<close>) make an interrupted effect safe to resume. Everything is recorded in a hash chain
  (\<open>recorder.py\<close>); denials get certificates (\<open>denial_certificate.py\<close>), tripwires look like capabilities (\<open>canary.py\<close>), faults are
  injected in tests (\<open>chaos.py\<close>). Processes talk over a framed RPC protocol (\<open>protocol.py\<close>), and a fail-safe switch
  (\<open>hardware_failsafe.py\<close>) and an emergency stop (\<open>emergency_stop.py\<close>) can halt the system. All digests and signatures are over
  canonical JSON (\<open>canonical.py\<close>).

  \<^bold>\<open>Conventions.\<close> Python values are the datatype \<open>pyval\<close>, dictionaries association lists, \<open>str\<close> and \<open>bytes\<close> lists of UTF-8 bytes,
  Python integers \<open>int\<close>. An operation that may raise returns \<open>exn + 'a\<close>, with one constructor of \<open>exn\<close> per exception class; an operation on
  state takes and returns the state, and keeps what it changed before an exception. A dataclass is a record, its constructor a function of
  the keyword arguments whose checks are a list run in the order of \<open>__post_init__\<close>. A database transaction is a function on the
  table with a fault argument: it fails before, inside or after the commit. Concurrency is a step relation over
  processes (\<open>Gateway\<close>, \<open>Raft\<close>) or a list of calls of any replicas (\<open>run_calls\<close>).

  \<^bold>\<open>Theories\<close>, from the ground up; each models the named file, with one definition per function, method or step of it.
  \<^item> \<open>Prelude\<close>: exceptions, results, operations with state, Python values, character classes, attenuation orders.
  \<^item> \<open>Json\<close>, \<open>Canonical\<close>, \<open>JsonValues\<close>: the JSON scanner and printer of the standard library, \<open>canonical_value\<close>, \<open>canonical_bytes\<close>,
    \<open>strict_json_loads\<close>, \<open>digest\<close>. Canonical bytes are accepted exactly within the documented limits, determine the value, and
    are read back unchanged.
  \<^item> \<open>Models\<close>: requests, decisions, claims, signed envelopes, results and their validation. Accepted data round-trips.
  \<^item> \<open>Policy\<close>, \<open>Trust\<close>, \<open>Attestation\<close>, \<open>Guardians\<close>: static policy, provider trust state, attestation answers, the four guardians and the
    quorum. An allowed quorum is unanimous and timely, its guardians have checked policy, evidence and budgets, and the lineage
    guardian never allows more than its budget over any history.
  \<^item> \<open>Task\<close>, \<open>Ceiling\<close>, \<open>Synthesizer\<close>, \<open>Compiler\<close>: task descriptions, candidate and compiled ceilings, synthesis with its fallbacks, compilation.
    Whatever is proposed, a compiled ceiling stays inside candidate, policy and task in every dimension (\<open>ceiling_within\<close>), guardian
    reductions only narrow it, and its digest binds it.
  \<^item> \<open>Decay\<close>, \<open>TrustDecay\<close>: authority that decays with use, time and risk; in-memory and SQLite state stores. Over any history of
    authorizations nothing is permitted later that was not permitted before, budgets bound the uses, and what is stored is what is read.
  \<^item> \<open>ReplayState\<close>: consumption stores. The locale \<open>consumption_store\<close> is their contract, \<open>one_shot\<close> what follows from it over any history;
    the SQLite store implements the in-memory one.
  \<^item> \<open>Broker\<close>: issuing, verifying and consuming capabilities. The locale \<open>redemption_store\<close> extends the contract of the store to redemptions.
  \<^item> \<open>Recorder\<close>: the evidence file with torn and failed writes, recovery, receipts. The locale \<open>evidence_log\<close> is what its clients
    rely on; appends are sound, and two chains with the same tip hold the same events or a hash collision.
  \<^item> \<open>Intent\<close>: the path from payload to capability, composed of the above, with what a handed out capability implies and the exact
    events that have been recorded by then (\<open>appended\<close>, \<open>issuance_trail\<close>).
  \<^item> \<open>Denial\<close>, \<open>Canary\<close>, \<open>Chaos\<close>, \<open>Executor\<close>: denial certificates, tripwires, fault points and the executor that composes them with the
    redemption. An execution has no effect or exactly one, with the claims of the presented capability, verified for this request
    (\<open>redeemed_for\<close>) and newly spent, and no capability has two.
  \<^item> \<open>Journal\<close>, \<open>Recipient\<close>, \<open>Gateway\<close>, \<open>Recovery\<close>: reservations, exactly-once commits, the gateway under any interleaving, recovery with a fault
    at every database operation.
  \<^item> \<open>Raft\<close>: elections and log replication of the consumption table under any interleaving of the lock sections. Both step relations have a
    flag: with \<open>False\<close> they have every step the code can take; with \<open>True\<close> \<open>raft_step\<close> leaves out late elections and \<open>node_step\<close> leaves
    out proposals that a later commit has overtaken. The safety properties are for \<open>True\<close>; counterexamples show that they need it.
  \<^item> \<open>Protocol\<close>: frames, limits, envelopes and the server loop on any byte stream, refined against the specification \<open>serves\<close>.
  \<^item> \<open>FailSafe\<close>, \<open>Emergency\<close>: the fail-safe switch and the emergency stop over any history of messages and ticks.

  \<^bold>\<open>Bounds and fuel.\<close> The JSON scanner recurses with fuel \<open>2 * length + 1\<close>; \<open>loads_enough_fuel\<close> and \<open>loads_with_enough_fuel\<close> show that it
  never runs out. The backtracking loop of \<open>_replicate\<close> has the rounds the source computes, and \<open>replication_completes\<close> shows they
  suffice. The RPC server terminates because every turn consumes input. All other loops are structural.

  \<^bold>\<open>Parameters.\<close> What is not Python code of the repository is an argument: \<open>host\<close> (Unicode normalisation, SHA-256, parsing of ISO
  timestamps), \<open>ed25519\<close> (keys, signing, verification), PEM encoding and loading, \<open>float()\<close> of a JSON number, clocks, random tokens, the
  outcome of each write, attestation providers, model proposals, effect handlers and compute profiles. Hypotheses on them are
  documented behaviour: \<open>hexdigest\<close> returns 64 hexadecimal digits, Ed25519 verifies its own signatures, loading inverts exporting.
  The theories end with examples on concrete instances (\<open>demo_host\<close>, \<open>demo_ed25519\<close>), on which the hypotheses of the properties hold.

  \<^bold>\<open>What modelling showed\<close> of the code, each with a proof or a counterexample in the theory named: a dropped argument range passes
  as a subset (\<open>Decay\<close>); a late election makes two leaders of a term, a stale proposal is acknowledged, and an overtaken proposal
  takes the commit index back below the applied entries, after which the node does not start again (\<open>Raft\<close>); a verified key
  rotation is ignored (\<open>Emergency\<close>); a malformed model proposal escapes the fallback (\<open>Synthesizer\<close>); a certificate with a key that is
  no string escapes the verifier (\<open>Denial\<close>); the classifier of faults calls capabilities consumed that are not (\<open>Chaos\<close>, \<open>Executor\<close>).

  \<^bold>\<open>Simplifications.\<close> Keys of dictionaries are strings and values are finite trees, so the refusals of other keys and of cycles have no
  counterpart. Timeouts of the quorum and the synthesizer are whole milliseconds. The revocation lists of the emergency
  stop compare values by structure. A Raft log entry holds the command itself: \<open>canonical_bytes\<close> refuses strings that are not in NFC, so
  what the code stores reads back as the same command.

  \<^bold>\<open>Not modelled.\<close> Adapters, transports, sandboxes, services and process start-up (pure I/O around the modelled parts); the remote and
  etcd consumption stores (external services; their contract is \<open>consumption_store\<close>); production attestation, hardware backends and
  key custody (devices and vendor services); the statistical behavioral guardian (floating point scores); signed guardian
  approvals over RPC, containment certificates, observability, campaigns, demos and scripts. Inside the modelled files: file ownership checks,
  connection pragmas, file locks and fsync, metrics hooks, and the texts of messages that contain values.
\<close>

end
